(* ===== verification/Prelude.thy ===== *)
theory Prelude
  imports Main "HOL-Library.Multiset" "HOL-Library.Product_Lexorder"
    "HOL-Library.Signed_Division"
begin

text \<open>
  Shared vocabulary of the development.

  \<^item> Identifiers (uuids, JWT subs, Stellar addresses, hashes) are \<open>string\<close>s.
  \<^item> Money amounts and fraction counts are \<open>int\<close>: the code keeps them as canonical
    decimal strings of \<open>numeric(39,0)\<close> columns and computes in \<open>BigInt\<close>, which is
    unbounded; theory \<open>Money\<close> models the strings and the round trip.
  \<^item> Instants are \<open>int\<close> milliseconds (\<open>Date.getTime\<close>).
  \<^item> A thrown error is \<open>Inl\<close>, a returned value is \<open>Inr\<close>.
  \<^item> A database table is the list of its rows. \<open>UPDATE ... WHERE\<close> is \<open>sql_update\<close>, which
    also returns the number of affected rows; a compare-and-set of a repository is
    \<open>cas_rows\<close>.
  \<^item> \<open>run_txn\<close> is \<open>BaseRepository.runInTransaction\<close>: the work's database effects are kept
    when it returns and dropped when it throws.
\<close>

named_theorems sql_simps \<open>characteristic equations of the table operations\<close>
named_theorems err_simps \<open>equations of the error-sum combinators\<close>

section \<open>Errors as sums\<close>

type_synonym ident = string
type_synonym instant = int

definition guardE :: "bool \<Rightarrow> 'e \<Rightarrow> 'e + unit" where
  "guardE ok e = (if ok then Inr () else Inl e)"

fun bindE :: "'e + 'a \<Rightarrow> ('a \<Rightarrow> 'e + 'b) \<Rightarrow> 'e + 'b" where
  "bindE (Inl e) f = Inl e"
| "bindE (Inr x) f = f x"

definition isOk :: "'e + 'a \<Rightarrow> bool" where
  "isOk r = (case r of Inl _ \<Rightarrow> False | Inr _ \<Rightarrow> True)"

lemma guardE_simps [err_simps]:
  "(guardE c e = Inr u) = c" "(guardE c e = Inl e') = (\<not> c \<and> e = e')"
  by (auto simp: guardE_def)

lemma bindE_Inr [err_simps]: "(bindE m f = Inr y) = (\<exists>x. m = Inr x \<and> f x = Inr y)"
  by (cases m) auto

lemma bindE_Inl: "(bindE m f = Inl e) = (m = Inl e \<or> (\<exists>x. m = Inr x \<and> f x = Inl e))"
  by (cases m) auto

lemma isOk_simps [simp]: "isOk (Inr x)" "\<not> isOk (Inl e)"
  by (simp_all add: isOk_def)

text \<open>A fold that stops at the first error, as a \<open>for\<close> loop with a \<open>throw\<close> in its body.\<close>

fun foldE :: "('a \<Rightarrow> 's \<Rightarrow> 'e + 's) \<Rightarrow> 'a list \<Rightarrow> 's \<Rightarrow> 'e + 's" where
  "foldE f [] s = Inr s"
| "foldE f (x # xs) s = bindE (f x s) (foldE f xs)"

text \<open>\<open>forEach\<close> with a throwing body.\<close>

fun eachE :: "('a \<Rightarrow> 'e + unit) \<Rightarrow> 'a list \<Rightarrow> 'e + unit" where
  "eachE f [] = Inr ()"
| "eachE f (x # xs) = bindE (f x) (\<lambda>_. eachE f xs)"

lemma eachE_ok [err_simps]: "(eachE f xs = Inr u) = (\<forall>x \<in> set xs. f x = Inr ())"
  by (induction xs) (auto simp: err_simps)

section \<open>Tables\<close>

definition sql_update :: "('r \<Rightarrow> bool) \<Rightarrow> ('r \<Rightarrow> 'r) \<Rightarrow> 'r list \<Rightarrow> 'r list \<times> nat" where
  "sql_update P f t = (map (\<lambda>r. if P r then f r else r) t, length (filter P t))"

definition sql_find :: "('r \<Rightarrow> bool) \<Rightarrow> 'r list \<Rightarrow> 'r option" where
  "sql_find P t = find P t"

definition sql_count :: "('r \<Rightarrow> bool) \<Rightarrow> 'r list \<Rightarrow> nat" where
  "sql_count P t = length (filter P t)"

text \<open>\<open>update ... where ...; return affected > 0\<close>\<close>

definition cas_rows :: "('r \<Rightarrow> bool) \<Rightarrow> ('r \<Rightarrow> 'r) \<Rightarrow> 'r list \<Rightarrow> 'r list \<times> bool" where
  "cas_rows P f t = (case sql_update P f t of (t', n) \<Rightarrow> (t', 0 < n))"

lemma fst_cas_rows [sql_simps]: "fst (cas_rows P f t) = map (\<lambda>r. if P r then f r else r) t"
  by (simp add: cas_rows_def sql_update_def)

lemma snd_cas_rows [sql_simps]: "snd (cas_rows P f t) = (\<exists>r \<in> set t. P r)"
  by (auto simp: cas_rows_def sql_update_def filter_empty_conv)

lemma cas_rows_lost: "\<not> snd (cas_rows P f t) \<Longrightarrow> fst (cas_rows P f t) = t"
  by (auto simp: sql_simps intro: map_idI)

lemma find_in_set: "find P t = Some r \<Longrightarrow> r \<in> set t \<and> P r"
  by (induction t) (auto split: if_splits)

lemma sql_find_Some [sql_simps]: "sql_find P t = Some r \<Longrightarrow> r \<in> set t \<and> P r"
  unfolding sql_find_def by (rule find_in_set)

lemma sql_find_None [sql_simps]: "sql_find P t = None \<longleftrightarrow> (\<forall>r \<in> set t. \<not> P r)"
  by (auto simp: sql_find_def find_None_iff)

lemma sql_count_0: "sql_count P t = 0 \<longleftrightarrow> (\<forall>r \<in> set t. \<not> P r)"
  by (auto simp: sql_count_def filter_empty_conv)

lemma sql_count_Cons [simp]: "sql_count P (r # t) = (if P r then 1 else 0) + sql_count P t"
  by (simp add: sql_count_def)

lemma sql_count_append [simp]: "sql_count P (t @ u) = sql_count P t + sql_count P u"
  by (simp add: sql_count_def)

lemma sql_count_Nil [simp]: "sql_count P [] = 0"
  by (simp add: sql_count_def)

section \<open>Tables over time\<close>

text \<open>Rows are changed in place along \<open>R\<close>, new rows come at the end, no row goes away.\<close>

definition rows_move :: "('r \<Rightarrow> 'r \<Rightarrow> bool) \<Rightarrow> 'r list \<Rightarrow> 'r list \<Rightarrow> bool" where
  "rows_move R t t' \<longleftrightarrow> (\<exists>us vs. t' = us @ vs \<and> list_all2 R t us)"

lemma rows_move_refl: "(\<And>r. R r r) \<Longrightarrow> rows_move R t t"
  unfolding rows_move_def by (rule exI [of _ t], rule exI [of _ "[]"]) (simp add: list.rel_refl)

lemma rows_move_map: "(\<And>r. r \<in> set t \<Longrightarrow> R r (f r)) \<Longrightarrow> rows_move R t (map f t)"
  unfolding rows_move_def by (rule exI [of _ "map f t"], rule exI [of _ "[]"]) (simp add: list_all2_conv_all_nth)

lemma rows_move_append: "(\<And>r. R r r) \<Longrightarrow> rows_move R t (t @ u)"
  unfolding rows_move_def by (rule exI [of _ t], rule exI [of _ u]) (simp add: list.rel_refl)

lemma rows_move_trans:
  assumes "rows_move R t u" "rows_move R u v" "\<And>x y z. R x y \<Longrightarrow> R y z \<Longrightarrow> R x z"
  shows "rows_move R t v"
proof -
  from assms(1) obtain us us' where u: "u = us @ us'" "list_all2 R t us" by (auto simp: rows_move_def)
  from assms(2) obtain vs vs' where v: "v = vs @ vs'" "list_all2 R u vs" by (auto simp: rows_move_def)
  from v(2) u(1) obtain as bs where ab: "vs = as @ bs" "list_all2 R us as" by (auto simp: list_all2_append1)
  have "list_all2 R t as" by (rule list_all2_trans [of R R R, OF _ u(2) ab(2)]) (rule assms(3))
  then show ?thesis unfolding rows_move_def v(1) ab(1) by (metis append.assoc)
qed

lemma rows_move_row: "rows_move R t t' \<Longrightarrow> r \<in> set t \<Longrightarrow> \<exists>r' \<in> set t'. R r r'"
  by (auto simp: rows_move_def list_all2_conv_all_nth in_set_conv_nth) (metis nth_mem Un_iff)

section \<open>Transactions\<close>

definition run_txn :: "('d \<Rightarrow> ('e + 'a) \<times> 'd) \<Rightarrow> 'd \<Rightarrow> ('e + 'a) \<times> 'd" where
  "run_txn work d = (case work d of (Inl e, d') \<Rightarrow> (Inl e, d) | (Inr x, d') \<Rightarrow> (Inr x, d'))"

lemma run_txn_rollback: "fst (run_txn work d) = Inl e \<Longrightarrow> snd (run_txn work d) = d"
  by (auto simp: run_txn_def split: prod.splits sum.splits)

lemma run_txn_commit: "run_txn work d = (Inr x, d') \<longleftrightarrow> work d = (Inr x, d')"
  by (auto simp: run_txn_def split: prod.splits sum.splits)

section \<open>Sorting as \<open>Array.prototype.sort\<close> with a comparator\<close>

text \<open>
  The ECMAScript sort is stable; with a consistent comparator its result is the one of an
  insertion sort that keeps equal elements in their order.
\<close>

fun js_insert :: "('a \<Rightarrow> 'a \<Rightarrow> int) \<Rightarrow> 'a \<Rightarrow> 'a list \<Rightarrow> 'a list" where
  "js_insert cmp x [] = [x]"
| "js_insert cmp x (y # ys) = (if cmp x y \<le> 0 then x # y # ys else y # js_insert cmp x ys)"

definition js_sort :: "('a \<Rightarrow> 'a \<Rightarrow> int) \<Rightarrow> 'a list \<Rightarrow> 'a list" where
  "js_sort cmp xs = foldr (js_insert cmp) xs []"

lemma js_insert_insort:
  assumes "\<And>a b. cmp a b \<le> 0 \<longleftrightarrow> key a \<le> key b"
  shows "js_insert cmp x ys = insort_key key x ys"
  by (induction ys) (auto simp: assms)

lemma js_sort_sort_key:
  assumes "\<And>a b. cmp a b \<le> 0 \<longleftrightarrow> key a \<le> key b"
  shows "js_sort cmp xs = sort_key key xs"
  by (induction xs) (simp_all add: js_sort_def js_insert_insort [OF assms])

section \<open>Lists and integers\<close>

lemma sdiv_nonneg: "0 \<le> a \<Longrightarrow> 0 \<le> b \<Longrightarrow> a sdiv b = a div (b :: int)"
  by (cases "a = 0"; cases "b = 0") (simp_all add: signed_divide_int_def)

lemma int_div_less:
  assumes "0 < (t :: int)" "x < c * t"
  shows "x div t < c"
proof -
  have "x div t * t \<le> x" using assms(1) by (metis add.commute div_mult_mod_eq le_add_same_cancel2 pos_mod_sign)
  then have "x div t * t < c * t" using assms(2) by linarith
  then show ?thesis using assms(1) by simp
qed

lemma sum_list_map_ge0: "(\<And>x. x \<in> set xs \<Longrightarrow> 0 \<le> (f x :: int)) \<Longrightarrow> 0 \<le> sum_list (map f xs)"
  by (rule sum_list_nonneg) auto

lemma sum_list_filter_split:
  "sum_list (map f xs) = sum_list (map f (filter P xs)) + sum_list (map (f :: 'a \<Rightarrow> int) (filter (\<lambda>x. \<not> P x) xs))"
  by (induction xs) auto

lemma sum_list_filter_le:
  "(\<And>x. x \<in> set xs \<Longrightarrow> 0 \<le> (f x :: int)) \<Longrightarrow> sum_list (map f (filter P xs)) \<le> sum_list (map f xs)"
  by (induction xs) (auto intro: add_increasing)

lemma sum_list_const_mult: "sum_list (map (\<lambda>x. c * f x) xs) = c * sum_list (map (f :: 'a \<Rightarrow> int) xs)"
  by (induction xs) (simp_all add: distrib_left)

lemma sum_list_diff: "sum_list (map (\<lambda>x. f x - g x) xs) = sum_list (map f xs) - sum_list (map (g :: 'a \<Rightarrow> int) xs)"
  by (induction xs) simp_all

lemma sum_list_perm: "mset xs = mset ys \<Longrightarrow> sum_list (map f xs) = sum_list (map (f :: 'a \<Rightarrow> int) ys)"
  by (metis mset_map sum_mset_sum_list)

text \<open>Looking up every key of a list that covers an association list adds up its values.\<close>

lemma sum_map_of:
  assumes "distinct (map fst ps)" "distinct xs" "fst ` set ps \<subseteq> set xs"
  shows "sum_list (map (\<lambda>x. case map_of ps x of None \<Rightarrow> 0 | Some v \<Rightarrow> v) xs) = sum_list (map (snd :: _ \<Rightarrow> int) ps)"
    (is "sum_list (map ?f xs) = _")
proof -
  have "sum_list (map ?f xs) = (\<Sum>i \<in> set xs. ?f i)" using assms(2) by (rule sum_list_distinct_conv_sum_set)
  also have "\<dots> = (\<Sum>i \<in> fst ` set ps. ?f i)"
    by (rule sum.mono_neutral_right)
      (use assms(3) in \<open>auto split: option.splits dest!: map_of_SomeD intro: rev_image_eqI\<close>)
  also have "\<dots> = sum_list (map ?f (map fst ps))"
    using sum_list_distinct_conv_sum_set [OF assms(1), of ?f] by simp
  also have "\<dots> = sum_list (map snd ps)"
    by (rule arg_cong [where f = sum_list]) (use assms(1) in auto)
  finally show ?thesis .
qed

end
