(* ===== verification/Clearing.thy ===== *)
theory Clearing
  imports Prelude
begin

text \<open>
  \<open>modules/offerings/clearing.ts\<close>: the pure uniform-price clearing algorithm
  (\<open>compute_clearing\<close>), the winners-only allocation map and the fail-fast belt
  (\<open>assert_clearing_invariants\<close>). Money and counts are \<open>int\<close> (BigInt), \<open>createdAt\<close> is the
  instant in milliseconds (the code compares \<open>toISOString()\<close> texts of fixed width, whose
  lexicographic order is the chronological one). Each \<open>throw new RangeError\<close> is a
  constructor of \<open>clearing_error\<close>. Theory \<open>Clearing_Correct\<close> proves the algorithm.
\<close>

section \<open>Constants and data\<close>

definition MAX_STROOPS :: int where
  "MAX_STROOPS = 79228162514264337593543950335"

definition MAX_I128 :: int where
  "MAX_I128 = 170141183460469231731687303715884105727"

definition PLATFORM_FEE_BPS :: int where
  "PLATFORM_FEE_BPS = 300"

record clearing_bid =
  cb_id :: ident
  cb_chain :: int
  cb_collector :: ident
  cb_price :: int
  cb_count :: int
  cb_created :: instant
  cb_escrow :: int

record clearing_winner =
  cw_id :: ident
  cw_chain :: int
  cw_collector :: ident
  cw_price :: int
  cw_count :: int
  cw_allocated :: int
  cw_refund :: int

record snapshot_row =
  sn_chain :: int
  sn_collector :: ident
  sn_price :: int
  sn_count :: int
  sn_created :: instant

record allocation_row =
  al_chain :: int
  al_allocated :: int

record clearing_result =
  cr_price :: "int option"
  cr_fully_subscribed :: bool
  cr_total_demand :: int
  cr_winners :: "clearing_winner list"
  cr_proceeds :: int
  cr_platform_fee :: int
  cr_artist_net :: int
  cr_snapshot :: "snapshot_row list"

record clearing_band =
  band_low :: int
  band_high :: int

datatype clearing_error =
    PublicFloatNotPositive
  | NonPositiveCount int
  | NegativePrice int
  | PriceNotDetermined
  | TooManyBids int int
  | NotFullySubscribed
  | PriceOutOfRange
  | PriceOutsideBand int int int
  | NonPositiveAllocation
  | PaidOverflow
  | NegativeRefund
  | ProceedsOverflow
  | AllocationSumMismatch int int
  | FeeMismatch
  | NetMismatch
  | NotMarginalPrice int "int option"
  | LosingBidAbovePrice int
  | AboveNotFilled int
  | NoBidAtClearing
  | RemainingOutOfRange int int
  | DustOutOfRange int int
  | ZeroShareNotExcluded int
  | ProRataMismatch int

section \<open>computeClearing\<close>

text \<open>The comparator of the sort: price descending, then \<open>createdAt\<close>, then \<open>chainBidId\<close>.\<close>

definition cmp_bids :: "clearing_bid \<Rightarrow> clearing_bid \<Rightarrow> int" where
  "cmp_bids a b =
     (if cb_price a \<noteq> cb_price b then (if cb_price a > cb_price b then -1 else 1)
      else if cb_created a \<noteq> cb_created b then (if cb_created a < cb_created b then -1 else 1)
      else if cb_chain a < cb_chain b then -1
      else if cb_chain a > cb_chain b then 1 else 0)"

definition sort_bids :: "clearing_bid list \<Rightarrow> clearing_bid list" where
  "sort_bids bids = js_sort cmp_bids bids"

definition snapshot_of :: "clearing_bid \<Rightarrow> snapshot_row" where
  "snapshot_of b = \<lparr>sn_chain = cb_chain b, sn_collector = cb_collector b,
     sn_price = cb_price b, sn_count = cb_count b, sn_created = cb_created b\<rparr>"

text \<open>Pass 1a: the price of the tier at which the accumulated demand reaches the float.\<close>

fun walk_price :: "int \<Rightarrow> clearing_bid list \<Rightarrow> int \<Rightarrow> int option \<Rightarrow> int option" where
  "walk_price F [] cumulative p = p"
| "walk_price F (s # ss) cumulative p =
     (if cumulative \<ge> F then p
      else walk_price F ss (cumulative + cb_count s) (Some (cb_price s)))"

text \<open>Pass 1c: \<open>+1\<close> to the first \<open>dust\<close> entries.\<close>

fun add_dust :: "int \<Rightarrow> int list \<Rightarrow> int list" where
  "add_dust dust [] = []"
| "add_dust dust (a # as) = (if dust \<le> 0 then a # as else (a + 1) # add_dust (dust - 1) as)"

definition pro_rata :: "int \<Rightarrow> int list \<Rightarrow> int list" where
  "pro_rata remaining_float counts =
     (let total_at_clearing = sum_list counts;
          bases = map (\<lambda>c. (c * remaining_float) sdiv total_at_clearing) counts;
          dust = remaining_float - sum_list bases
      in add_dust dust bases)"

text \<open>Passes 1b and 1c: the bids above \<open>P\<close> in full, then the positive pro-rata shares at \<open>P\<close>.\<close>

definition takes_at :: "int \<Rightarrow> int \<Rightarrow> clearing_bid list \<Rightarrow> (clearing_bid \<times> int) list" where
  "takes_at public_float P sorted_bids =
     (let above = filter (\<lambda>s. cb_price s > P) sorted_bids;
          filled_above = sum_list (map cb_count above);
          at_p = filter (\<lambda>s. cb_price s = P) sorted_bids;
          remaining_float = public_float - filled_above
      in map (\<lambda>s. (s, cb_count s)) above
         @ filter (\<lambda>(s, a). a > 0) (zip at_p (pro_rata remaining_float (map cb_count at_p))))"

text \<open>Pass 2: the refund of a winner at the uniform price.\<close>

definition winner_of :: "int \<Rightarrow> clearing_bid \<times> int \<Rightarrow> clearing_winner" where
  "winner_of P t = (case t of (bid, allocated) \<Rightarrow>
     \<lparr>cw_id = cb_id bid, cw_chain = cb_chain bid, cw_collector = cb_collector bid,
      cw_price = cb_price bid, cw_count = cb_count bid, cw_allocated = allocated,
      cw_refund = cb_escrow bid - P * allocated\<rparr>)"

text \<open>The defence-in-depth loop over the input.\<close>

definition check_book :: "clearing_bid list \<Rightarrow> clearing_error + unit" where
  "check_book bids =
     eachE (\<lambda>b. if cb_count b \<le> 0 then Inl (NonPositiveCount (cb_chain b))
                else if cb_price b < 0 then Inl (NegativePrice (cb_chain b))
                else Inr ()) bids"

definition compute_clearing :: "clearing_bid list \<Rightarrow> int \<Rightarrow> clearing_error + clearing_result" where
  "compute_clearing bids public_float =
     (if public_float \<le> 0 then Inl PublicFloatNotPositive
      else bindE (check_book bids)
     (\<lambda>_. let sorted_bids = sort_bids bids;
              bids_snapshot = map snapshot_of sorted_bids;
              total_demand = sum_list (map cb_count sorted_bids)
          in if total_demand < public_float then
               Inr \<lparr>cr_price = None, cr_fully_subscribed = False, cr_total_demand = total_demand,
                    cr_winners = [], cr_proceeds = 0, cr_platform_fee = 0, cr_artist_net = 0,
                    cr_snapshot = bids_snapshot\<rparr>
             else (case walk_price public_float sorted_bids 0 None of
               None \<Rightarrow> Inl PriceNotDetermined
             | Some P \<Rightarrow>
                 let takes = takes_at public_float P sorted_bids;
                     winners = map (winner_of P) takes;
                     proceeds = sum_list (map (\<lambda>t. P * snd t) takes);
                     platform_fee = (proceeds * PLATFORM_FEE_BPS) sdiv 10000
                 in Inr \<lparr>cr_price = Some P, cr_fully_subscribed = True,
                      cr_total_demand = total_demand, cr_winners = winners,
                      cr_proceeds = proceeds, cr_platform_fee = platform_fee,
                      cr_artist_net = proceeds - platform_fee,
                      cr_snapshot = bids_snapshot\<rparr>)))"

definition to_allocation_map :: "clearing_result \<Rightarrow> allocation_row list" where
  "to_allocation_map result =
     map (\<lambda>w. \<lparr>al_chain = cw_chain w, al_allocated = cw_allocated w\<rparr>) (cr_winners result)"

section \<open>assertClearingInvariants\<close>

text \<open>The winners loop: positive allocation, no i128 overflow, non-negative refund.\<close>

definition belt_winner :: "int \<Rightarrow> clearing_winner \<Rightarrow> int \<times> int \<Rightarrow> clearing_error + int \<times> int" where
  "belt_winner P w acc = (case acc of (sum_allocated, proceeds) \<Rightarrow>
     if cw_allocated w \<le> 0 then Inl NonPositiveAllocation
     else if P * cw_allocated w > MAX_I128 then Inl PaidOverflow
     else if cw_refund w < 0 then Inl NegativeRefund
     else if proceeds + P * cw_allocated w > MAX_I128 then Inl ProceedsOverflow
     else Inr (sum_allocated + cw_allocated w, proceeds + P * cw_allocated w))"

fun min_winner_price :: "clearing_winner list \<Rightarrow> int option \<Rightarrow> int option" where
  "min_winner_price [] m = m"
| "min_winner_price (w # ws) m =
     min_winner_price ws (case m of None \<Rightarrow> Some (cw_price w)
                          | Some p \<Rightarrow> if cw_price w < p then Some (cw_price w) else Some p)"

text \<open>The \<open>Map\<close> from chain id to allocation: a later entry of the same key wins.\<close>

definition winner_alloc :: "clearing_winner list \<Rightarrow> int \<Rightarrow> int option" where
  "winner_alloc ws = fold (\<lambda>w m. m(cw_chain w \<mapsto> cw_allocated w)) ws (\<lambda>_. None)"

definition cmp_snapshot :: "snapshot_row \<Rightarrow> snapshot_row \<Rightarrow> int" where
  "cmp_snapshot a b =
     (if sn_created a \<noteq> sn_created b then (if sn_created a < sn_created b then -1 else 1)
      else if sn_chain a < sn_chain b then -1
      else if sn_chain a > sn_chain b then 1 else 0)"

definition check_share :: "(int \<Rightarrow> int option) \<Rightarrow> int \<Rightarrow> (snapshot_row \<times> int) \<times> int
    \<Rightarrow> clearing_error + unit" where
  "check_share alloc dust e = (case e of ((b, base), i) \<Rightarrow>
     let expected = base + (if i < dust then 1 else 0) in
     if expected = 0 then guardE (alloc (sn_chain b) = None) (ZeroShareNotExcluded (sn_chain b))
     else guardE (alloc (sn_chain b) = Some expected) (ProRataMismatch (sn_chain b)))"

text \<open>The pro-rata belt, re-derived from the snapshot.\<close>

definition belt_pro_rata ::
  "snapshot_row list \<Rightarrow> clearing_winner list \<Rightarrow> int \<Rightarrow> int \<Rightarrow> clearing_error + unit" where
  "belt_pro_rata snapshot winners P public_float =
     (let alloc = winner_alloc winners in
      bindE (eachE (\<lambda>b. if sn_price b > P
                       then guardE (alloc (sn_chain b) = Some (sn_count b)) (AboveNotFilled (sn_chain b))
                       else Inr ()) snapshot)
     (\<lambda>_. let filled_above = sum_list (map sn_count (filter (\<lambda>b. sn_price b > P) snapshot));
              at_clearing = filter (\<lambda>b. sn_price b = P) snapshot;
              total_at_clearing = sum_list (map sn_count at_clearing);
              remaining_float = public_float - filled_above
          in if total_at_clearing \<le> 0 then Inl NoBidAtClearing
             else if remaining_float \<le> 0 \<or> remaining_float > total_at_clearing
               then Inl (RemainingOutOfRange remaining_float total_at_clearing)
             else let sorted_at = js_sort cmp_snapshot at_clearing;
                      bases = map (\<lambda>b. (sn_count b * remaining_float) sdiv total_at_clearing) sorted_at;
                      dust = remaining_float - sum_list bases
                  in if dust < 0 \<or> dust \<ge> int (length sorted_at)
                       then Inl (DustOutOfRange dust (int (length sorted_at) - 1))
                     else eachE (check_share alloc dust)
                            (zip (zip sorted_at bases) (map int [0..<length sorted_at]))))"

definition assert_clearing_invariants ::
  "clearing_result \<Rightarrow> clearing_band \<Rightarrow> int \<Rightarrow> int \<Rightarrow> int \<Rightarrow> clearing_error + unit" where
  "assert_clearing_invariants result band public_float bid_count max_bids =
     (if bid_count > max_bids then Inl (TooManyBids bid_count max_bids)
      else if \<not> cr_fully_subscribed result then Inl NotFullySubscribed
      else case cr_price result of
        None \<Rightarrow> Inl NotFullySubscribed
      | Some P \<Rightarrow>
          if P \<le> 0 \<or> P > MAX_STROOPS then Inl PriceOutOfRange
          else if P < band_low band \<or> P > band_high band
            then Inl (PriceOutsideBand P (band_low band) (band_high band))
          else bindE (foldE (belt_winner P) (cr_winners result) (0, 0))
            (\<lambda>(sum_allocated, proceeds).
               if sum_allocated \<noteq> public_float
                 then Inl (AllocationSumMismatch sum_allocated public_float)
               else let expected_fee = (proceeds * PLATFORM_FEE_BPS) sdiv 10000 in
               if cr_platform_fee result \<noteq> expected_fee then Inl FeeMismatch
               else if cr_artist_net result \<noteq> proceeds - expected_fee then Inl NetMismatch
               else if min_winner_price (cr_winners result) None \<noteq> Some P
                 then Inl (NotMarginalPrice P (min_winner_price (cr_winners result) None))
               else bindE (eachE (\<lambda>b. guardE (sn_chain b \<in> set (map cw_chain (cr_winners result))
                                             \<or> \<not> sn_price b > P)
                                            (LosingBidAbovePrice (sn_chain b))) (cr_snapshot result))
                 (\<lambda>_. belt_pro_rata (cr_snapshot result) (cr_winners result) P public_float)))"

end
