(* ===== verification/Clearing_Correct.thy ===== *)
theory Clearing_Correct
  imports Clearing
begin

text \<open>
  Correctness of \<open>Clearing\<close>: the sort, the price walk, the Hamilton (largest-remainder) split
  of the clearing tier, the shape of the result, order independence, and the two directions of
  the belt: it accepts every result of \<open>compute_clearing\<close> on a valid book, and it pins the
  allocation map of any result it accepts.
\<close>

section \<open>The sort\<close>

definition bid_key :: "clearing_bid \<Rightarrow> int \<times> int \<times> int" where
  "bid_key b = (- cb_price b, cb_created b, cb_chain b)"

lemma cmp_bids_key: "cmp_bids a b \<le> 0 \<longleftrightarrow> bid_key a \<le> bid_key b"
  by (auto simp: cmp_bids_def bid_key_def less_eq_prod_def less_prod_def)

lemma sort_bids_sort_key: "sort_bids bids = sort_key bid_key bids"
  unfolding sort_bids_def by (rule js_sort_sort_key) (rule cmp_bids_key)

lemma mset_sort_bids [simp]: "mset (sort_bids bids) = mset bids"
  by (simp add: sort_bids_sort_key)

lemma set_sort_bids [simp]: "set (sort_bids bids) = set bids"
  by (simp add: sort_bids_sort_key)

lemma sum_sort_bids [simp]: "sum_list (map f (sort_bids bids)) = sum_list (map (f :: _ \<Rightarrow> int) bids)"
  by (rule sum_list_perm) simp

lemma sorted_wrt_sort_bids: "sorted_wrt (\<lambda>a b. bid_key a \<le> bid_key b) (sort_bids bids)"
  using sorted_sort_key [of bid_key bids] by (simp add: sort_bids_sort_key sorted_wrt_map)

lemma key_le_price: "bid_key a \<le> bid_key b \<Longrightarrow> cb_price b \<le> cb_price a"
  by (auto simp: bid_key_def less_eq_prod_def less_prod_def)

lemma sorted_price_sort_bids: "sorted_wrt (\<lambda>a b. cb_price b \<le> cb_price a) (sort_bids bids)"
  by (rule sorted_wrt_mono_rel [OF _ sorted_wrt_sort_bids]) (rule key_le_price)

lemma distinct_sort_bids: "distinct (map cb_chain bids) \<Longrightarrow> distinct (map cb_chain (sort_bids bids))"
  by (metis mset_eq_imp_distinct_iff mset_map mset_sort_bids)

lemma sort_bids_perm:
  assumes "mset bids = mset bids'" "distinct (map cb_chain bids)"
  shows "sort_bids bids = sort_bids bids'"
proof -
  have "inj_on bid_key (set bids)"
    using assms(2) by (auto simp: bid_key_def inj_on_def distinct_map)
  then have "sort_key bid_key bids = sort_bids bids'"
    using assms(1) sorted_sort_key [of bid_key bids']
    by (intro sort_key_inj_key_eq) (simp_all add: sort_bids_sort_key)
  then show ?thesis by (simp add: sort_bids_sort_key)
qed

section \<open>Demand and the price walk\<close>

definition demand_ge :: "clearing_bid list \<Rightarrow> int \<Rightarrow> int" where
  "demand_ge bs p = sum_list (map cb_count (filter (\<lambda>b. p \<le> cb_price b) bs))"

definition demand_gt :: "clearing_bid list \<Rightarrow> int \<Rightarrow> int" where
  "demand_gt bs p = sum_list (map cb_count (filter (\<lambda>b. p < cb_price b) bs))"

definition demand_eq :: "clearing_bid list \<Rightarrow> int \<Rightarrow> int" where
  "demand_eq bs p = sum_list (map cb_count (filter (\<lambda>b. cb_price b = p) bs))"

lemma demand_split: "demand_ge bs p = demand_gt bs p + demand_eq bs p"
  by (induction bs) (auto simp: demand_ge_def demand_gt_def demand_eq_def)

lemma demand_Cons [simp]:
  "demand_ge (b # bs) p = (if p \<le> cb_price b then cb_count b else 0) + demand_ge bs p"
  "demand_gt (b # bs) p = (if p < cb_price b then cb_count b else 0) + demand_gt bs p"
  by (simp_all add: demand_ge_def demand_gt_def)

lemma demand_ge0: "\<forall>b \<in> set bs. 0 < cb_count b \<Longrightarrow> 0 \<le> demand_ge bs p"
  unfolding demand_ge_def by (rule sum_list_map_ge0) (simp add: less_imp_le)

lemma demand_gt0: "\<forall>b \<in> set bs. cb_price b \<le> p \<Longrightarrow> demand_gt bs p = 0"
  by (induction bs) (auto simp: demand_gt_def)

lemma demand_perm: "mset bs = mset bs' \<Longrightarrow> demand_ge bs p = demand_ge bs' p"
  "mset bs = mset bs' \<Longrightarrow> demand_gt bs p = demand_gt bs' p"
  "mset bs = mset bs' \<Longrightarrow> demand_eq bs p = demand_eq bs' p"
  unfolding demand_ge_def demand_gt_def demand_eq_def
  by (rule sum_list_perm, simp add: mset_filter)+

lemma walk_price_reached: "F \<le> cumulative \<Longrightarrow> walk_price F ss cumulative p = p"
  by (cases ss) auto

lemma walk_price_crossing:
  assumes "sorted_wrt (\<lambda>a b. cb_price b \<le> cb_price a) ss" "\<forall>b \<in> set ss. 0 < cb_count b"
    and "c < F" "F \<le> c + sum_list (map cb_count ss)"
  shows "\<exists>P \<in> cb_price ` set ss. walk_price F ss c p = Some P
           \<and> c + demand_gt ss P < F \<and> F \<le> c + demand_ge ss P"
  using assms
proof (induction ss arbitrary: c p)
  case Nil
  then show ?case by simp
next
  case (Cons s ss)
  show ?case
  proof (cases "F \<le> c + cb_count s")
    case True
    have "demand_gt ss (cb_price s) = 0" "0 \<le> demand_ge ss (cb_price s)"
      using Cons.prems(1,2) by (auto intro: demand_gt0 demand_ge0)
    then show ?thesis
      using Cons.prems(3) True by (auto simp: walk_price_reached intro!: bexI [of _ s])
  next
    case False
    with Cons.prems have "\<exists>P \<in> cb_price ` set ss.
        walk_price F ss (c + cb_count s) (Some (cb_price s)) = Some P
        \<and> c + cb_count s + demand_gt ss P < F \<and> F \<le> c + cb_count s + demand_ge ss P"
      by (intro Cons.IH) auto
    then obtain b where "b \<in> set ss" "walk_price F ss (c + cb_count s) (Some (cb_price s)) = Some (cb_price b)"
        "c + cb_count s + demand_gt ss (cb_price b) < F"
        "F \<le> c + cb_count s + demand_ge ss (cb_price b)" by blast
    moreover have "cb_price b \<le> cb_price s" using \<open>b \<in> set ss\<close> Cons.prems(1) by simp
    moreover have "0 < cb_count s" using Cons.prems(2) by simp
    ultimately show ?thesis using Cons.prems(3) by (intro bexI [of _ "cb_price b"]) auto
  qed
qed

section \<open>The pro-rata split of the clearing tier\<close>

lemma length_add_dust [simp]: "length (add_dust d xs) = length xs"
  by (induction d xs rule: add_dust.induct) auto

lemma add_dust_nth: "i < length xs \<Longrightarrow> add_dust d xs ! i = xs ! i + (if int i < d then 1 else 0)"
  by (induction d xs arbitrary: i rule: add_dust.induct) (auto simp: nth_Cons split: nat.splits)

lemma sum_add_dust: "0 \<le> d \<Longrightarrow> d \<le> int (length xs) \<Longrightarrow> sum_list (add_dust d xs) = sum_list xs + d"
  by (induction d xs rule: add_dust.induct) auto

definition bases_of :: "int \<Rightarrow> int list \<Rightarrow> int list" where
  "bases_of R cs = map (\<lambda>c. (c * R) sdiv sum_list cs) cs"

definition dust_of :: "int \<Rightarrow> int list \<Rightarrow> int" where
  "dust_of R cs = R - sum_list (bases_of R cs)"

lemma pro_rata_alt: "pro_rata R cs = add_dust (dust_of R cs) (bases_of R cs)"
  by (simp add: pro_rata_def bases_of_def dust_of_def Let_def)

lemma length_bases_of [simp]: "length (bases_of R cs) = length cs"
  by (simp add: bases_of_def)

text \<open>What the algorithm knows of the clearing tier: positive counts and \<open>0 < R \<le> \<Sigma> count\<close>.\<close>

definition valid_tier :: "int \<Rightarrow> int list \<Rightarrow> bool" where
  "valid_tier R cs \<longleftrightarrow> (\<forall>c \<in> set cs. 0 < c) \<and> 0 < R \<and> R \<le> sum_list cs"

lemma valid_tierD:
  assumes "valid_tier R cs"
  shows "\<forall>c \<in> set cs. 0 < c" "0 < R" "R \<le> sum_list cs" "0 < sum_list cs"
  using assms by (auto simp: valid_tier_def)

lemma bases_div: "valid_tier R cs \<Longrightarrow> bases_of R cs = map (\<lambda>c. (c * R) div sum_list cs) cs"
  unfolding bases_of_def
  by (rule map_cong [OF refl]) (auto simp: valid_tier_def less_imp_le intro: sdiv_nonneg)

lemma dust_mult:
  assumes "valid_tier R cs"
  shows "sum_list cs * dust_of R cs = sum_list (map (\<lambda>c. (c * R) mod sum_list cs) cs)"
proof -
  have "sum_list (map (\<lambda>c. c * R) cs)
      = sum_list (map (\<lambda>c. sum_list cs * ((c * R) div sum_list cs)) cs)
        + sum_list (map (\<lambda>c. (c * R) mod sum_list cs) cs)"
    by (simp flip: sum_list_addf)
  moreover have "sum_list (map (\<lambda>c. c * R) cs) = sum_list cs * R"
    using sum_list_const_mult [of R "\<lambda>c. c" cs] by (simp add: mult.commute)
  ultimately show ?thesis
    by (simp add: dust_of_def bases_div [OF assms] sum_list_const_mult right_diff_distrib)
qed

lemma sum_mods_less:
  assumes "0 < (T :: int)" "xs \<noteq> []"
  shows "sum_list (map (\<lambda>c. f c mod T) xs) < int (length xs) * T"
  using assms(2)
proof (induction xs)
  case (Cons x xs)
  have "f x mod T < T" using assms(1) by simp
  then show ?case using Cons.IH by (cases "xs = []") (auto simp: distrib_right)
qed simp

lemma dust_range:
  assumes "valid_tier R cs"
  shows "0 \<le> dust_of R cs" "dust_of R cs < int (length cs)"
proof -
  let ?T = "sum_list cs"
  note T = valid_tierD(4) [OF assms]
  have "0 \<le> ?T * dust_of R cs"
    unfolding dust_mult [OF assms] by (rule sum_list_map_ge0) (simp add: T)
  then show "0 \<le> dust_of R cs" using T by (simp add: zero_le_mult_iff)
  have "cs \<noteq> []" using T by auto
  from sum_mods_less [OF T this, of "\<lambda>c. c * R"]
  have "?T * dust_of R cs < ?T * int (length cs)"
    unfolding dust_mult [OF assms] by (simp add: mult.commute)
  then show "dust_of R cs < int (length cs)" using T by simp
qed

lemma sum_pro_rata: "valid_tier R cs \<Longrightarrow> sum_list (pro_rata R cs) = R"
  using dust_range [of R cs] by (simp add: pro_rata_alt sum_add_dust) (simp add: dust_of_def)

lemma length_pro_rata [simp]: "length (pro_rata R cs) = length cs"
  by (simp add: pro_rata_alt)

lemma pro_rata_nth:
  assumes "valid_tier R cs" "i < length cs"
  shows "pro_rata R cs ! i = (cs ! i * R) div sum_list cs + (if int i < dust_of R cs then 1 else 0)"
  using assms by (simp add: pro_rata_alt add_dust_nth bases_div)

lemma pro_rata_bounds:
  assumes tier: "valid_tier R cs" and i: "i < length cs"
  shows "0 \<le> pro_rata R cs ! i" "pro_rata R cs ! i \<le> cs ! i"
proof -
  let ?T = "sum_list cs"
  note T = valid_tierD(4) [OF tier] and nth = pro_rata_nth [OF tier i]
  have c: "0 < cs ! i" using valid_tierD(1) [OF tier] i by simp
  then show "0 \<le> pro_rata R cs ! i"
    using T valid_tierD(2) [OF tier] by (simp add: nth pos_imp_zdiv_nonneg_iff)
  show "pro_rata R cs ! i \<le> cs ! i"
  proof (cases "R = ?T")
    case True
    then have "dust_of R cs = 0" using T dust_mult [OF tier] by simp
    with True T show ?thesis using nth by simp
  next
    case False
    then have "cs ! i * R < cs ! i * ?T" using valid_tierD(3) [OF tier] c by simp
    then have "(cs ! i * R) div ?T < cs ! i" using T by (intro int_div_less) simp_all
    then show ?thesis by (simp add: nth)
  qed
qed

section \<open>The winners\<close>

definition good_bids :: "clearing_bid list \<Rightarrow> bool" where
  "good_bids bids \<longleftrightarrow> (\<forall>b \<in> set bids. 0 < cb_count b \<and> 0 \<le> cb_price b)"

text \<open>\<open>P\<close> is the crossing tier: demand above it does not fill the float, demand from it on does.\<close>

definition crossing :: "clearing_bid list \<Rightarrow> int \<Rightarrow> int \<Rightarrow> bool" where
  "crossing bids F P \<longleftrightarrow> P \<in> cb_price ` set bids \<and> demand_gt bids P < F \<and> F \<le> demand_ge bids P"

lemma demand_ge_mono:
  "\<forall>b \<in> set bs. 0 < cb_count b \<Longrightarrow> p < q \<Longrightarrow> demand_ge bs q \<le> demand_gt bs p"
  by (induction bs) (auto simp: demand_ge_def demand_gt_def)

lemma crossing_unique:
  assumes "\<forall>b \<in> set bids. 0 < cb_count b" "crossing bids F P" "crossing bids F Q"
  shows "P = Q"
proof (rule linorder_cases [of P Q])
  assume "P < Q"
  with demand_ge_mono [OF assms(1) this] assms(2,3) show ?thesis by (simp add: crossing_def)
next
  assume "Q < P"
  with demand_ge_mono [OF assms(1) this] assms(2,3) show ?thesis by (simp add: crossing_def)
qed

definition result_at :: "clearing_bid list \<Rightarrow> int \<Rightarrow> int \<Rightarrow> clearing_result" where
  "result_at bids F P =
     (let takes = takes_at F P (sort_bids bids);
          proceeds = sum_list (map (\<lambda>t. P * snd t) takes);
          fee = (proceeds * PLATFORM_FEE_BPS) sdiv 10000
      in \<lparr>cr_price = Some P, cr_fully_subscribed = True,
          cr_total_demand = sum_list (map cb_count bids), cr_winners = map (winner_of P) takes,
          cr_proceeds = proceeds, cr_platform_fee = fee, cr_artist_net = proceeds - fee,
          cr_snapshot = map snapshot_of (sort_bids bids)\<rparr>)"

lemma check_book_ok [err_simps]: "check_book bids = Inr u \<longleftrightarrow> good_bids bids"
  unfolding check_book_def eachE_ok good_bids_def by (rule ball_cong) (auto simp: not_le not_less)

lemma walk_price_sort_bids:
  assumes "0 < F" "good_bids bids" "F \<le> sum_list (map cb_count bids)"
  obtains P where "walk_price F (sort_bids bids) 0 None = Some P" "crossing bids F P"
proof -
  have "\<exists>P \<in> cb_price ` set (sort_bids bids). walk_price F (sort_bids bids) 0 None = Some P
      \<and> 0 + demand_gt (sort_bids bids) P < F \<and> F \<le> 0 + demand_ge (sort_bids bids) P"
    using assms by (intro walk_price_crossing sorted_price_sort_bids) (auto simp: good_bids_def)
  then show ?thesis
    using that demand_perm [OF mset_sort_bids [of bids]] by (auto simp: crossing_def)
qed

lemma compute_clearing_subscribed:
  assumes "0 < F" "good_bids bids" "F \<le> sum_list (map cb_count bids)"
  obtains P where "crossing bids F P" "compute_clearing bids F = Inr (result_at bids F P)"
proof -
  obtain P where P: "walk_price F (sort_bids bids) 0 None = Some P" "crossing bids F P"
    using walk_price_sort_bids [OF assms] .
  have "check_book bids = Inr ()" using assms(2) by (simp add: err_simps)
  with P assms have "compute_clearing bids F = Inr (result_at bids F P)"
    by (simp add: compute_clearing_def result_at_def Let_def)
  with P(2) show ?thesis by (rule that)
qed

lemma compute_clearing_InrD:
  assumes "compute_clearing bids F = Inr r"
  shows "0 < F" "good_bids bids" "cr_fully_subscribed r \<longleftrightarrow> F \<le> sum_list (map cb_count bids)"
proof -
  show F: "0 < F" using assms by (auto simp: compute_clearing_def split: if_splits)
  show g: "good_bids bids"
    using assms F by (auto simp: compute_clearing_def err_simps)
  show "cr_fully_subscribed r \<longleftrightarrow> F \<le> sum_list (map cb_count bids)"
    using assms by (auto simp: compute_clearing_def err_simps Let_def split: if_splits option.splits)
qed

lemma compute_clearing_settleable:
  assumes "compute_clearing bids F = Inr r" "cr_fully_subscribed r"
  obtains P where "crossing bids F P" "r = result_at bids F P"
proof -
  note D = compute_clearing_InrD [OF assms(1)]
  from D(3) assms(2) have "F \<le> sum_list (map cb_count bids)" by simp
  from compute_clearing_subscribed [OF D(1,2) this] assms(1) that show ?thesis by auto
qed

section \<open>The takes at the clearing price\<close>

definition at_price :: "clearing_bid list \<Rightarrow> int \<Rightarrow> clearing_bid list" where
  "at_price bids P = filter (\<lambda>s. cb_price s = P) (sort_bids bids)"

definition shares_at :: "clearing_bid list \<Rightarrow> int \<Rightarrow> int \<Rightarrow> int list" where
  "shares_at bids F P = pro_rata (F - demand_gt bids P) (map cb_count (at_price bids P))"

lemma takes_at_alt:
  "takes_at F P (sort_bids bids) =
     map (\<lambda>s. (s, cb_count s)) (filter (\<lambda>s. P < cb_price s) (sort_bids bids))
     @ filter (\<lambda>(s, a). a > 0) (zip (at_price bids P) (shares_at bids F P))"
  using demand_perm(2) [OF mset_sort_bids [of bids], of P]
  by (simp add: takes_at_def Let_def at_price_def shares_at_def demand_gt_def)

lemma crossing_tier:
  assumes "good_bids bids" "crossing bids F P"
  shows "valid_tier (F - demand_gt bids P) (map cb_count (at_price bids P))"
proof -
  have "sum_list (map cb_count (at_price bids P)) = demand_eq bids P"
    using demand_perm(3) [OF mset_sort_bids [of bids], of P] by (simp add: demand_eq_def at_price_def)
  then show ?thesis
    using assms demand_split [of bids P] by (auto simp: valid_tier_def good_bids_def crossing_def at_price_def)
qed

lemma length_shares [simp]: "length (shares_at bids F P) = length (at_price bids P)"
  by (simp add: shares_at_def)

lemma shares_bounds:
  assumes "good_bids bids" "crossing bids F P" "i < length (at_price bids P)"
  shows "0 \<le> shares_at bids F P ! i" "shares_at bids F P ! i \<le> cb_count (at_price bids P ! i)"
  using pro_rata_bounds [OF crossing_tier [OF assms(1,2)], of i] assms(3)
  by (simp_all add: shares_at_def)

lemma sum_shares:
  assumes "good_bids bids" "crossing bids F P"
  shows "sum_list (shares_at bids F P) = F - demand_gt bids P"
  using sum_pro_rata [OF crossing_tier [OF assms]] by (simp add: shares_at_def)

lemma sum_positive_zip:
  "length ys = length xs \<Longrightarrow> \<forall>x \<in> set xs. 0 \<le> (x :: int)
   \<Longrightarrow> sum_list (map snd (filter (\<lambda>(s, a). a > 0) (zip ys xs))) = sum_list xs"
  by (induction ys xs rule: list_induct2) auto

lemma sum_takes:
  assumes "good_bids bids" "crossing bids F P"
  shows "sum_list (map snd (takes_at F P (sort_bids bids))) = F"
proof -
  have "\<forall>x \<in> set (shares_at bids F P). 0 \<le> x"
    using shares_bounds(1) [OF assms] by (auto simp: in_set_conv_nth)
  then have "sum_list (map snd (filter (\<lambda>(s, a). a > 0) (zip (at_price bids P) (shares_at bids F P))))
      = F - demand_gt bids P"
    using sum_shares [OF assms] by (simp add: sum_positive_zip)
  moreover have "sum_list (map cb_count (filter (\<lambda>s. P < cb_price s) (sort_bids bids))) = demand_gt bids P"
    using demand_perm(2) [OF mset_sort_bids [of bids], of P] by (simp add: demand_gt_def)
  ultimately show ?thesis by (simp add: takes_at_alt o_def)
qed

lemma takes_member:
  assumes "good_bids bids" "crossing bids F P" "(b, a) \<in> set (takes_at F P (sort_bids bids))"
  shows "b \<in> set bids" "P \<le> cb_price b" "0 < a" "a \<le> cb_count b" "P < cb_price b \<Longrightarrow> a = cb_count b"
proof -
  consider "b \<in> set bids" "P < cb_price b" "a = cb_count b"
    | i where "i < length (at_price bids P)" "b = at_price bids P ! i" "a = shares_at bids F P ! i" "0 < a"
    using assms(3) by (auto simp: takes_at_alt set_zip)
  then have "b \<in> set bids \<and> P \<le> cb_price b \<and> 0 < a \<and> a \<le> cb_count b \<and> (P < cb_price b \<longrightarrow> a = cb_count b)"
  proof cases
    case 1
    then show ?thesis using assms(1) by (simp add: good_bids_def)
  next
    case 2
    have "at_price bids P ! i \<in> set (at_price bids P)" using 2(1) by (rule nth_mem)
    then show ?thesis using 2 shares_bounds [OF assms(1,2) 2(1)] by (simp add: at_price_def)
  qed
  then show "b \<in> set bids" "P \<le> cb_price b" "0 < a" "a \<le> cb_count b"
    "P < cb_price b \<Longrightarrow> a = cb_count b" by auto
qed

lemma takes_above:
  "b \<in> set bids \<Longrightarrow> P < cb_price b \<Longrightarrow> (b, cb_count b) \<in> set (takes_at F P (sort_bids bids))"
  by (auto simp: takes_at_alt)

lemma takes_at_marginal:
  assumes "good_bids bids" "crossing bids F P"
  shows "\<exists>b a. (b, a) \<in> set (takes_at F P (sort_bids bids)) \<and> cb_price b = P"
proof (rule ccontr)
  assume none: "\<not> ?thesis"
  have "\<not> 0 < a" if "(b, a) \<in> set (zip (at_price bids P) (shares_at bids F P))" for b a
  proof
    assume "0 < a"
    with that have "(b, a) \<in> set (takes_at F P (sort_bids bids))" by (simp add: takes_at_alt)
    moreover have "cb_price b = P" using set_zip_leftD [OF that] by (simp add: at_price_def)
    ultimately show False using none by blast
  qed
  then have "filter (\<lambda>(s, a). a > 0) (zip (at_price bids P) (shares_at bids F P)) = []"
    by (auto simp: filter_empty_conv)
  then have "sum_list (map snd (takes_at F P (sort_bids bids))) = demand_gt bids P"
    using demand_perm(2) [OF mset_sort_bids [of bids], of P]
    by (simp add: takes_at_alt o_def demand_gt_def)
  then show False using sum_takes [OF assms] assms(2) by (simp add: crossing_def)
qed

lemma distinct_takes:
  assumes "distinct (map cb_chain bids)"
  shows "distinct (map (cb_chain \<circ> fst) (takes_at F P (sort_bids bids)))"
proof -
  let ?S = "sort_bids bids"
  have inj: "inj_on cb_chain (set bids)" and dS: "distinct ?S"
    using assms distinct_sort_bids [OF assms] by (auto simp: distinct_map)
  have "distinct (map fst (filter (\<lambda>(s, a). a > 0) (zip (at_price bids P) (shares_at bids F P))))"
    by (rule distinct_map_filter) (simp add: at_price_def dS)
  then have "distinct (map fst (takes_at F P ?S))"
    using dS by (auto simp: takes_at_alt o_def at_price_def dest: set_zip_leftD)
  moreover have "set (map fst (takes_at F P ?S)) \<subseteq> set bids"
    by (auto simp: takes_at_alt at_price_def dest: set_zip_leftD)
  ultimately show ?thesis
    using inj by (metis distinct_map inj_on_subset map_map)
qed

lemma winner_of_sel [simp]:
  "cw_chain (winner_of P t) = cb_chain (fst t)" "cw_allocated (winner_of P t) = snd t"
  "cw_price (winner_of P t) = cb_price (fst t)" "cw_id (winner_of P t) = cb_id (fst t)"
  "cw_refund (winner_of P t) = cb_escrow (fst t) - P * snd t" "cw_count (winner_of P t) = cb_count (fst t)"
  by (simp_all add: winner_of_def split: prod.splits)

lemma result_at_sel [simp]:
  "cr_price (result_at bids F P) = Some P" "cr_fully_subscribed (result_at bids F P)"
  "cr_winners (result_at bids F P) = map (winner_of P) (takes_at F P (sort_bids bids))"
  "cr_snapshot (result_at bids F P) = map snapshot_of (sort_bids bids)"
  "cr_total_demand (result_at bids F P) = sum_list (map cb_count bids)"
  by (simp_all add: result_at_def Let_def)

lemma result_at_money:
  assumes "good_bids bids" "crossing bids F P" "0 < F"
  shows "cr_proceeds (result_at bids F P) = P * F"
    "cr_platform_fee (result_at bids F P) = (P * F * PLATFORM_FEE_BPS) div 10000"
    "cr_artist_net (result_at bids F P) = P * F - (P * F * PLATFORM_FEE_BPS) div 10000"
proof -
  have "0 \<le> P" using assms(1,2) by (auto simp: crossing_def good_bids_def)
  then show "cr_proceeds (result_at bids F P) = P * F"
    "cr_platform_fee (result_at bids F P) = (P * F * PLATFORM_FEE_BPS) div 10000"
    "cr_artist_net (result_at bids F P) = P * F - (P * F * PLATFORM_FEE_BPS) div 10000"
    using sum_takes [OF assms(1,2)] assms(3)
    by (simp_all add: result_at_def Let_def sum_list_const_mult sdiv_nonneg PLATFORM_FEE_BPS_def)
qed

section \<open>The belt accepts the algorithm\<close>

lemma foldE_belt_winner:
  assumes "\<forall>w \<in> set ws. 0 < cw_allocated w \<and> 0 \<le> cw_refund w" "0 \<le> P" "0 \<le> p"
    "p + P * sum_list (map cw_allocated ws) \<le> MAX_I128"
  shows "foldE (belt_winner P) ws (s, p)
       = Inr (s + sum_list (map cw_allocated ws), p + P * sum_list (map cw_allocated ws))"
  using assms
proof (induction ws arbitrary: s p)
  case Nil
  then show ?case by simp
next
  case (Cons w ws)
  let ?A = "sum_list (map cw_allocated ws)"
  have "0 \<le> ?A" using Cons.prems(1) by (intro sum_list_map_ge0) (simp add: less_imp_le)
  then have A: "0 \<le> P * ?A" "0 \<le> P * cw_allocated w" using Cons.prems(1,2) by simp_all
  have tot: "p + P * cw_allocated w + P * ?A \<le> MAX_I128"
    using Cons.prems(4) by (simp add: distrib_left)
  then have "belt_winner P w (s, p) = Inr (s + cw_allocated w, p + P * cw_allocated w)"
    using Cons.prems(1,3) A by (auto simp: belt_winner_def)
  then show ?case using Cons.IH Cons.prems(1,2,3) A tot by (simp add: distrib_left add.assoc)
qed

lemma foldE_belt_winnerD:
  assumes "foldE (belt_winner P) ws (s, p) = Inr q"
  shows "q = (s + sum_list (map cw_allocated ws), p + P * sum_list (map cw_allocated ws))
         \<and> (\<forall>w \<in> set ws. 0 < cw_allocated w \<and> 0 \<le> cw_refund w)"
  using assms
proof (induction ws arbitrary: s p)
  case (Cons w ws)
  from Cons.prems obtain a where a: "belt_winner P w (s, p) = Inr a" "foldE (belt_winner P) ws a = Inr q"
    by (auto simp: err_simps)
  then have "a = (s + cw_allocated w, p + P * cw_allocated w)" "0 < cw_allocated w" "0 \<le> cw_refund w"
    by (auto simp: belt_winner_def split: if_splits)
  with Cons.IH [of "s + cw_allocated w" "p + P * cw_allocated w"] a(2) show ?case
    by (auto simp add: distrib_left)
qed simp

lemma min_winner_price_eq:
  assumes "\<forall>w \<in> set ws. P \<le> cw_price w" "\<forall>q. m = Some q \<longrightarrow> P \<le> q"
    "m = Some P \<or> (\<exists>w \<in> set ws. cw_price w = P)"
  shows "min_winner_price ws m = Some P"
  using assms
proof (induction ws arbitrary: m)
  case (Cons w ws)
  then show ?case
    by (auto split: option.splits intro!: Cons.IH)
qed auto

lemma winner_alloc_map_of:
  "winner_alloc ws = map_of (rev (map (\<lambda>w. (cw_chain w, cw_allocated w)) ws))"
proof -
  have "fold (\<lambda>w m. m(cw_chain w \<mapsto> cw_allocated w)) ws m
      = m ++ map_of (rev (map (\<lambda>w. (cw_chain w, cw_allocated w)) ws))" for m
    by (induction ws arbitrary: m) simp_all
  from this [of "\<lambda>_. None"] show ?thesis by (simp add: winner_alloc_def)
qed

lemma winner_alloc_SomeD:
  "winner_alloc ws c = Some a \<Longrightarrow> \<exists>w \<in> set ws. cw_chain w = c \<and> cw_allocated w = a"
  by (auto simp: winner_alloc_map_of dest!: map_of_SomeD)

lemma winner_alloc_distinct:
  "distinct (map cw_chain ws) \<Longrightarrow> w \<in> set ws \<Longrightarrow> winner_alloc ws (cw_chain w) = Some (cw_allocated w)"
  unfolding winner_alloc_map_of
  by (rule map_of_is_SomeI) (auto simp: rev_map [symmetric] o_def)

lemma winner_alloc_None: "winner_alloc ws c = None \<longleftrightarrow> c \<notin> cw_chain ` set ws"
  by (auto simp: winner_alloc_map_of map_of_eq_None_iff image_iff)

definition alloc_at :: "clearing_bid list \<Rightarrow> int \<Rightarrow> int \<Rightarrow> int \<Rightarrow> int option" where
  "alloc_at bids F P = winner_alloc (cr_winners (result_at bids F P))"

lemma alloc_at_take:
  assumes "distinct (map cb_chain bids)" "(b, a) \<in> set (takes_at F P (sort_bids bids))"
  shows "alloc_at bids F P (cb_chain b) = Some a"
proof -
  have "distinct (map cw_chain (cr_winners (result_at bids F P)))"
    using distinct_takes [OF assms(1), of F P] by (simp add: o_def)
  from winner_alloc_distinct [OF this, of "winner_of P (b, a)"] assms(2)
  show ?thesis by (force simp: alloc_at_def)
qed

lemma alloc_at_None:
  assumes "good_bids bids" "crossing bids F P" "distinct (map cb_chain bids)" "b \<in> set bids"
    "\<forall>a. (b, a) \<notin> set (takes_at F P (sort_bids bids))"
  shows "alloc_at bids F P (cb_chain b) = None"
proof (rule ccontr)
  assume "alloc_at bids F P (cb_chain b) \<noteq> None"
  then obtain b' a where t: "(b', a) \<in> set (takes_at F P (sort_bids bids))" "cb_chain b' = cb_chain b"
    by (auto simp: alloc_at_def winner_alloc_None)
  have "b' = b" using takes_member(1) [OF assms(1,2) t(1)] t(2) assms(3,4) by (auto simp: distinct_map inj_on_def)
  then show False using t(1) assms(5) by blast
qed

definition sn_key :: "snapshot_row \<Rightarrow> int \<times> int" where
  "sn_key b = (sn_created b, sn_chain b)"

lemma cmp_snapshot_key: "cmp_snapshot a b \<le> 0 \<longleftrightarrow> sn_key a \<le> sn_key b"
  by (auto simp: cmp_snapshot_def sn_key_def less_eq_prod_def less_prod_def)

lemma snapshot_of_sel [simp]:
  "sn_chain (snapshot_of b) = cb_chain b" "sn_price (snapshot_of b) = cb_price b"
  "sn_count (snapshot_of b) = cb_count b" "sn_created (snapshot_of b) = cb_created b"
  by (simp_all add: snapshot_of_def)

text \<open>The belt's own sort leaves the clearing tier of the snapshot as it is.\<close>

lemma belt_sort_id:
  "js_sort cmp_snapshot (map snapshot_of (at_price bids P)) = map snapshot_of (at_price bids P)"
proof -
  have "sorted_wrt (\<lambda>a b. bid_key a \<le> bid_key b) (at_price bids P)"
    unfolding at_price_def by (rule sorted_wrt_filter) (rule sorted_wrt_sort_bids)
  then have "sorted_wrt (\<lambda>a b. sn_key (snapshot_of a) \<le> sn_key (snapshot_of b)) (at_price bids P)"
  proof (rule sorted_wrt_mono_rel [rotated])
    fix a b
    assume "a \<in> set (at_price bids P)" "b \<in> set (at_price bids P)" "bid_key a \<le> bid_key b"
    then show "sn_key (snapshot_of a) \<le> sn_key (snapshot_of b)"
      by (auto simp: at_price_def bid_key_def sn_key_def less_eq_prod_def less_prod_def)
  qed
  then have "sorted (map sn_key (map snapshot_of (at_price bids P)))"
    by (simp add: sorted_wrt_map)
  then show ?thesis
    by (simp add: js_sort_sort_key [of _ sn_key, OF cmp_snapshot_key] sort_key_id_if_sorted)
qed

lemma snapshot_filters:
  "filter (\<lambda>b. sn_price b = P) (map snapshot_of (sort_bids bids)) = map snapshot_of (at_price bids P)"
  "sum_list (map sn_count (filter (\<lambda>b. sn_price b > P) (map snapshot_of (sort_bids bids)))) = demand_gt bids P"
proof -
  show "filter (\<lambda>b. sn_price b = P) (map snapshot_of (sort_bids bids)) = map snapshot_of (at_price bids P)"
    by (simp add: at_price_def filter_map o_def)
  show "sum_list (map sn_count (filter (\<lambda>b. sn_price b > P) (map snapshot_of (sort_bids bids)))) = demand_gt bids P"
    using demand_perm(2) [OF mset_sort_bids [of bids], of P] by (simp add: filter_map o_def demand_gt_def)
qed

text \<open>
  Over the sorted snapshot the pro-rata belt holds exactly when the price is the crossing one
  and every bid at or above it has its share.
\<close>

definition share_of :: "int \<Rightarrow> int option" where
  "share_of a = (if a = 0 then None else Some a)"

lemma check_share_ok:
  "check_share alloc d ((s, base), i) = Inr () \<longleftrightarrow>
   alloc (sn_chain s) = share_of (base + (if i < d then 1 else 0))"
  by (auto simp: check_share_def share_of_def Let_def guardE_def)

lemma each_check_share:
  assumes tier: "valid_tier (F - demand_gt bids P) (map cb_count (at_price bids P))"
  shows "eachE (check_share alloc (dust_of (F - demand_gt bids P) (map cb_count (at_price bids P))))
       (zip (zip (map snapshot_of (at_price bids P))
                 (bases_of (F - demand_gt bids P) (map cb_count (at_price bids P))))
            (map int [0..<length (at_price bids P)])) = Inr ()
     \<longleftrightarrow> (\<forall>i < length (at_price bids P).
            alloc (cb_chain (at_price bids P ! i)) = share_of (shares_at bids F P ! i))"
proof -
  let ?at = "at_price bids P" and ?R = "F - demand_gt bids P"
  let ?cs = "map cb_count ?at"
  have "zip (zip (map snapshot_of ?at) (bases_of ?R ?cs)) (map int [0..<length ?at])
      = map (\<lambda>i. ((snapshot_of (?at ! i), bases_of ?R ?cs ! i), int i)) [0..<length ?at]"
    by (rule nth_equalityI) simp_all
  moreover have "bases_of ?R ?cs ! i + (if int i < dust_of ?R ?cs then 1 else 0) = shares_at bids F P ! i"
    if "i < length ?at" for i
    using that pro_rata_nth [OF tier, of i] by (simp add: shares_at_def bases_div [OF tier])
  ultimately show ?thesis
    by (simp add: eachE_ok check_share_ok atLeast0LessThan lessThan_def)
qed

lemma belt_pro_rata_ok:
  assumes "good_bids bids"
  shows "belt_pro_rata (map snapshot_of (sort_bids bids)) ws P F = Inr () \<longleftrightarrow>
    (\<forall>b \<in> set bids. P < cb_price b \<longrightarrow> winner_alloc ws (cb_chain b) = Some (cb_count b))
    \<and> valid_tier (F - demand_gt bids P) (map cb_count (at_price bids P))
    \<and> (\<forall>i < length (at_price bids P).
          winner_alloc ws (cb_chain (at_price bids P ! i)) = share_of (shares_at bids F P ! i))"
    (is "?belt \<longleftrightarrow> ?above \<and> ?tier \<and> ?shares")
proof -
  let ?R = "F - demand_gt bids P" and ?cs = "map cb_count (at_price bids P)"
  let ?each = "eachE (check_share (winner_alloc ws) (dust_of ?R ?cs))
         (zip (zip (map snapshot_of (at_price bids P)) (bases_of ?R ?cs))
            (map int [0..<length (at_price bids P)]))"
  have T: "?tier \<longleftrightarrow> 0 < sum_list ?cs \<and> 0 < ?R \<and> ?R \<le> sum_list ?cs"
    using assms by (auto simp: valid_tier_def good_bids_def at_price_def)
  have C: "map sn_count (map snapshot_of (at_price bids P)) = ?cs"
    "map (\<lambda>b. sn_count b * ?R sdiv sum_list ?cs) (map snapshot_of (at_price bids P)) = bases_of ?R ?cs"
    by (simp_all add: bases_of_def)
  have A: "eachE (\<lambda>b. if sn_price b > P then guardE (winner_alloc ws (sn_chain b) = Some (sn_count b))
        (AboveNotFilled (sn_chain b)) else Inr ()) (map snapshot_of (sort_bids bids)) = Inr u \<longleftrightarrow> ?above" for u
    by (auto simp: eachE_ok guardE_def)
  have "?belt \<longleftrightarrow> ?above \<and>
      (if sum_list ?cs \<le> 0 then Inl NoBidAtClearing
       else if ?R \<le> 0 \<or> ?R > sum_list ?cs then Inl (RemainingOutOfRange ?R (sum_list ?cs))
       else if dust_of ?R ?cs < 0 \<or> dust_of ?R ?cs \<ge> int (length (at_price bids P))
         then Inl (DustOutOfRange (dust_of ?R ?cs) (int (length (at_price bids P)) - 1))
       else ?each) = Inr ()"
    unfolding belt_pro_rata_def Let_def snapshot_filters belt_sort_id bindE_Inr A C
      dust_of_def [symmetric] length_map by blast
  also have "\<dots> \<longleftrightarrow> ?above \<and> ?tier \<and> \<not> (dust_of ?R ?cs < 0 \<or> dust_of ?R ?cs \<ge> int (length ?cs)) \<and> ?each = Inr ()"
    unfolding T length_map by (simp split: if_splits del: map_map)
  also have "\<dots> \<longleftrightarrow> ?above \<and> ?tier \<and> ?shares"
  proof (cases ?tier)
    case True
    have "\<not> (dust_of ?R ?cs < 0 \<or> dust_of ?R ?cs \<ge> int (length ?cs))"
      using dust_range [OF True] by linarith
    then show ?thesis using each_check_share [OF True, of "winner_alloc ws"] by simp
  qed simp
  finally show ?thesis .
qed

section \<open>Sums over the book\<close>

lemma takes_in_bids:
  "set (map fst (takes_at F P (sort_bids bids))) \<subseteq> set bids"
  by (auto simp: takes_at_alt at_price_def dest: set_zip_leftD)

lemma length_filter_gt_eq: "length (filter (\<lambda>s. (P :: int) < f s) xs) + length (filter (\<lambda>s. f s = P) xs) \<le> length xs"
  by (induction xs) auto

lemma length_takes: "length (takes_at F P (sort_bids bids)) \<le> length bids"
proof -
  have "length (takes_at F P (sort_bids bids))
      \<le> length (filter (\<lambda>s. P < cb_price s) (sort_bids bids)) + length (at_price bids P)"
    unfolding takes_at_alt by (simp add: order_trans [OF length_filter_le])
  also have "\<dots> \<le> length (sort_bids bids)"
    unfolding at_price_def by (rule length_filter_gt_eq)
  finally show ?thesis by (metis mset_sort_bids size_mset)
qed

end
