(* ===== verification/Clearing_Props.thy ===== *)
theory Clearing_Props
  imports Clearing_Correct
begin

text \<open>
  The properties of the clearing algorithm and of its belt, over the lemmas of
  \<open>Clearing_Correct\<close>: conservation, the uniform price, order independence, the pro-rata rule,
  exact error behaviour, and the two directions of \<open>assertClearingInvariants\<close> (it accepts
  what the algorithm produces, and what it accepts is what the algorithm produces).
\<close>

section \<open>Where the winners come from\<close>

text \<open>A winner carries its bid, its positive allocation and its refund at the uniform price.\<close>

definition wins :: "int \<Rightarrow> clearing_bid \<Rightarrow> clearing_winner \<Rightarrow> bool" where
  "wins P b w \<longleftrightarrow> cw_id w = cb_id b \<and> cw_chain w = cb_chain b \<and> P \<le> cb_price b
     \<and> 0 < cw_allocated w \<and> cw_allocated w \<le> cb_count b
     \<and> (P < cb_price b \<longrightarrow> cw_allocated w = cb_count b)
     \<and> cw_refund w = cb_escrow b - P * cw_allocated w"

lemma winner_wins:
  assumes "good_bids bids" "crossing bids F P" "w \<in> set (cr_winners (result_at bids F P))"
  obtains b where "b \<in> set bids" "wins P b w"
proof -
  from assms(3) obtain b a where t: "(b, a) \<in> set (takes_at F P (sort_bids bids))" "w = winner_of P (b, a)"
    by auto
  have "wins P b w" using takes_member [OF assms(1,2) t(1)] by (simp add: wins_def t(2))
  with takes_member(1) [OF assms(1,2) t(1)] show ?thesis by (rule that)
qed

lemma sum_winners:
  "good_bids bids \<Longrightarrow> crossing bids F P
   \<Longrightarrow> sum_list (map cw_allocated (cr_winners (result_at bids F P))) = F"
  using sum_takes by (simp add: o_def)

lemma distinct_winners:
  "distinct (map cb_chain bids) \<Longrightarrow> distinct (map cw_chain (cr_winners (result_at bids F P)))"
  using distinct_takes [of bids F P] by (simp add: o_def)

text \<open>The bids that receive nothing.\<close>

definition losers :: "clearing_result \<Rightarrow> clearing_bid list \<Rightarrow> clearing_bid list" where
  "losers r bids = filter (\<lambda>b. cb_chain b \<notin> cw_chain ` set (cr_winners r)) bids"

lemma winner_bids_mset:
  assumes "distinct (map cb_chain bids)"
  shows "mset (map fst (takes_at F P (sort_bids bids)))
       = mset (filter (\<lambda>b. cb_chain b \<in> cw_chain ` set (cr_winners (result_at bids F P))) bids)"
proof -
  let ?T = "map fst (takes_at F P (sort_bids bids))"
  have inj: "inj_on cb_chain (set bids)" and d: "distinct bids" using assms by (simp_all add: distinct_map)
  have dT: "distinct ?T" using distinct_takes [OF assms, of F P]
    by (simp add: distinct_map flip: map_map)
  have "b \<in> set ?T \<longleftrightarrow> b \<in> set bids \<and> cb_chain b \<in> cb_chain ` set ?T" for b
    using takes_in_bids [of F P bids] inj by (meson image_eqI inj_on_image_mem_iff subsetD)
  then have "set ?T = set (filter (\<lambda>b. cb_chain b \<in> cw_chain ` set (cr_winners (result_at bids F P))) bids)"
    by (auto simp: image_image)
  with dT d show ?thesis by (intro iffD1 [OF set_eq_iff_mset_eq_distinct]) simp_all
qed

lemma escrow_split:
  assumes "distinct (map cb_chain bids)"
  shows "sum_list (map cb_escrow bids)
       = sum_list (map (\<lambda>t. cb_escrow (fst t)) (takes_at F P (sort_bids bids)))
         + sum_list (map cb_escrow (losers (result_at bids F P) bids))"
proof -
  have "sum_list (map (\<lambda>t. cb_escrow (fst t)) (takes_at F P (sort_bids bids)))
      = sum_list (map cb_escrow (map fst (takes_at F P (sort_bids bids))))" by (simp add: o_def)
  also have "\<dots> = sum_list (map cb_escrow
      (filter (\<lambda>b. cb_chain b \<in> cw_chain ` set (cr_winners (result_at bids F P))) bids))"
    by (rule sum_list_perm) (rule winner_bids_mset [OF assms])
  finally show ?thesis
    using sum_list_filter_split [of cb_escrow bids "\<lambda>b. cb_chain b \<in> cw_chain ` set (cr_winners (result_at bids F P))"]
    by (simp add: losers_def)
qed

lemma sum_refunds:
  assumes "good_bids bids" "crossing bids F P"
  shows "sum_list (map cw_refund (cr_winners (result_at bids F P)))
       = sum_list (map (\<lambda>t. cb_escrow (fst t)) (takes_at F P (sort_bids bids))) - P * F"
  using sum_takes [OF assms] by (simp add: o_def sum_list_diff sum_list_const_mult)

lemma fee_floor:
  assumes "0 \<le> x"
  shows "0 \<le> (x * PLATFORM_FEE_BPS) div 10000" "10000 * ((x * PLATFORM_FEE_BPS) div 10000) \<le> 300 * x"
    "300 * x < 10000 * ((x * PLATFORM_FEE_BPS) div 10000 + 1)"
proof -
  define q m where "q = (x * PLATFORM_FEE_BPS) div 10000" and "m = (x * PLATFORM_FEE_BPS) mod 10000"
  have "10000 * q + m = 300 * x" by (simp only: q_def m_def mult_div_mod_eq) (simp add: PLATFORM_FEE_BPS_def)
  moreover have "0 \<le> m" "m < 10000" by (simp_all add: m_def)
  ultimately have "0 \<le> q \<and> 10000 * q \<le> 300 * x \<and> 300 * x < 10000 * (q + 1)"
    using assms by auto
  then show "0 \<le> (x * PLATFORM_FEE_BPS) div 10000" "10000 * ((x * PLATFORM_FEE_BPS) div 10000) \<le> 300 * x"
    "300 * x < 10000 * ((x * PLATFORM_FEE_BPS) div 10000 + 1)"
    unfolding q_def by blast+
qed

lemma tier_alloc:
  assumes "good_bids bids" "crossing bids F P" "distinct (map cb_chain bids)" "i < length (at_price bids P)"
  shows "alloc_at bids F P (cb_chain (at_price bids P ! i)) = share_of (shares_at bids F P ! i)"
proof -
  let ?at = "at_price bids P" and ?sh = "shares_at bids F P"
  have mem: "?at ! i \<in> set bids" "cb_price (?at ! i) = P"
    using nth_mem [OF assms(4)] by (simp_all add: at_price_def)
  have z: "(?at ! i, ?sh ! i) \<in> set (zip ?at ?sh)" using assms(4) by (auto simp: set_zip)
  have dat: "distinct ?at"
    using distinct_sort_bids [OF assms(3)] by (simp add: at_price_def distinct_map)
  show ?thesis
  proof (cases "?sh ! i = 0")
    case True
    have "(?at ! i, a) \<notin> set (takes_at F P (sort_bids bids))" for a
    proof
      assume t: "(?at ! i, a) \<in> set (takes_at F P (sort_bids bids))"
      then obtain j where "j < length ?at" "?at ! i = ?at ! j" "a = ?sh ! j" "0 < a"
        using mem(2) by (auto simp: takes_at_alt set_zip)
      with dat assms(4) True show False by (simp add: nth_eq_iff_index_eq)
    qed
    with alloc_at_None [OF assms(1,2,3) mem(1)] True show ?thesis by (simp add: share_of_def)
  next
    case False
    with shares_bounds(1) [OF assms(1,2,4)] have "0 < ?sh ! i" by simp
    with z have "(?at ! i, ?sh ! i) \<in> set (takes_at F P (sort_bids bids))" by (simp add: takes_at_alt)
    from alloc_at_take [OF assms(3) this] False show ?thesis by (simp add: share_of_def)
  qed
qed

lemma sum_at_price: "sum_list (map cb_count (at_price bids P)) = demand_eq bids P"
  using demand_perm(3) [OF mset_sort_bids [of bids], of P] by (simp add: at_price_def demand_eq_def)

text \<open>What the uniform price takes from the book fits the contract's 128-bit amounts.\<close>

lemma proceeds_fit:
  assumes "good_bids bids" "crossing bids F P" "int (length bids) \<le> 2 ^ 31"
    "\<forall>b \<in> set bids. cb_price b * cb_count b \<le> MAX_STROOPS"
  shows "P * F \<le> MAX_I128"
proof -
  let ?T = "takes_at F P (sort_bids bids)"
  have each: "P * snd t \<le> MAX_STROOPS" if "t \<in> set ?T" for t
  proof -
    have t: "(fst t, snd t) \<in> set ?T" using that by simp
    note m = takes_member [OF assms(1,2) t]
    have "0 \<le> P" using assms(1,2) by (auto simp: crossing_def good_bids_def)
    with m have "P * snd t \<le> cb_price (fst t) * cb_count (fst t)" by (intro mult_mono) simp_all
    with m(1) assms(4) show ?thesis by fastforce
  qed
  have "P * F = sum_list (map (\<lambda>t. P * snd t) ?T)"
    using sum_takes [OF assms(1,2)] by (simp add: sum_list_const_mult)
  also have "\<dots> \<le> sum_list (map (\<lambda>t. MAX_STROOPS) ?T)" by (rule sum_list_mono) (rule each)
  also have "\<dots> = int (length ?T) * MAX_STROOPS" by (simp add: sum_list_triv)
  also have "\<dots> \<le> 2 ^ 31 * MAX_STROOPS"
    using length_takes [of F P bids] assms(3) by (intro mult_right_mono) (simp_all add: MAX_STROOPS_def)
  also have "\<dots> \<le> MAX_I128" by (simp add: MAX_STROOPS_def MAX_I128_def)
  finally show ?thesis .
qed

lemma sum_pos_empty:
  assumes "sum_mset (image_mset (f :: 'a \<Rightarrow> int) C) = 0" "\<forall>x \<in># C. 0 < f x"
  shows "C = {#}"
proof (rule ccontr)
  assume "C \<noteq> {#}"
  then obtain x D where C: "C = add_mset x D" by (meson multiset_cases)
  have "0 \<le> sum_mset (image_mset f D)"
    using assms(2) unfolding C by (induction D) (auto simp: less_imp_le)
  then show False using assms C by auto
qed

text \<open>The chain-to-allocation pairs of a list of winners, as a multiset.\<close>

definition alloc_pairs :: "clearing_winner list \<Rightarrow> (int \<times> int) list" where
  "alloc_pairs ws = map (\<lambda>w. (cw_chain w, cw_allocated w)) ws"

lemma alloc_pairs_pinned:
  assumes "distinct (map cw_chain ws')" "\<forall>w \<in> set ws'. winner_alloc ws (cw_chain w) = Some (cw_allocated w)"
    "\<forall>w \<in> set ws. 0 < cw_allocated w"
    "sum_list (map cw_allocated ws) = sum_list (map cw_allocated ws')"
  shows "mset (alloc_pairs ws) = mset (alloc_pairs ws')"
proof -
  let ?A = "mset (alloc_pairs ws)" and ?B = "mset (alloc_pairs ws')"
  have sub: "set (alloc_pairs ws') \<subseteq> set (alloc_pairs ws)"
  proof
    fix p assume "p \<in> set (alloc_pairs ws')"
    then obtain w where w: "w \<in> set ws'" "p = (cw_chain w, cw_allocated w)" by (auto simp: alloc_pairs_def)
    then obtain v where "v \<in> set ws" "cw_chain v = cw_chain w" "cw_allocated v = cw_allocated w"
      using assms(2) winner_alloc_SomeD by metis
    then have "p = (\<lambda>w. (cw_chain w, cw_allocated w)) v" "v \<in> set ws" using w(2) by simp_all
    then show "p \<in> set (alloc_pairs ws)" unfolding alloc_pairs_def set_map by (rule image_eqI)
  qed
  have "distinct (alloc_pairs ws')"
    using assms(1) unfolding alloc_pairs_def by (auto simp: distinct_map inj_on_def)
  then have "?B = mset_set (set (alloc_pairs ws'))" by (simp add: mset_set_set)
  also have "\<dots> \<subseteq># mset_set (set (alloc_pairs ws))" using sub by (simp add: subset_imp_msubset_mset_set)
  also have "\<dots> \<subseteq># ?A" by (rule mset_set_set_mset_msubset [of ?A, simplified])
  finally have B: "?B \<subseteq># ?A" .
  then obtain C where C: "?A = ?B + C" by (auto simp: mset_subset_eq_exists_conv)
  have s: "sum_mset (image_mset snd (mset (alloc_pairs vs))) = sum_list (map cw_allocated vs)" for vs
    by (simp add: alloc_pairs_def o_def sum_mset_sum_list [symmetric] image_mset.compositionality)
  have "sum_mset (image_mset snd C) = 0" using s [of ws] s [of ws'] assms(4) by (simp add: C)
  moreover have "\<forall>x \<in># C. 0 < snd x"
  proof
    fix x assume "x \<in># C"
    then have "x \<in> set (alloc_pairs ws)" using C by (metis set_mset_mset union_iff)
    then show "0 < snd x" using assms(3) by (auto simp: alloc_pairs_def)
  qed
  ultimately have "C = {#}" by (rule sum_pos_empty)
  then show ?thesis using C by simp
qed

text \<open>The loop over the input stops at its first bad bid.\<close>

lemma check_book_first:
  "check_book bids = Inl e \<Longrightarrow>
   \<exists>us b vs. bids = us @ b # vs \<and> check_book us = Inr ()
      \<and> (if cb_count b \<le> 0 then e = NonPositiveCount (cb_chain b)
         else cb_price b < 0 \<and> e = NegativePrice (cb_chain b))"
proof (induction bids)
  case (Cons x xs)
  show ?case
  proof (cases "cb_count x \<le> 0 \<or> cb_price x < 0")
    case True
    with Cons.prems have "x # xs = [] @ x # xs \<and> check_book [] = Inr ()
      \<and> (if cb_count x \<le> 0 then e = NonPositiveCount (cb_chain x)
         else cb_price x < 0 \<and> e = NegativePrice (cb_chain x))"
      by (auto simp: check_book_def split: if_splits)
    then show ?thesis by blast
  next
    case False
    with Cons.prems have "check_book xs = Inl e" by (simp add: check_book_def)
    from Cons.IH [OF this] obtain us b vs where b: "xs = us @ b # vs" "check_book us = Inr ()"
      "if cb_count b \<le> 0 then e = NonPositiveCount (cb_chain b)
         else cb_price b < 0 \<and> e = NegativePrice (cb_chain b)" by blast
    with False have "x # xs = (x # us) @ b # vs" "check_book (x # us) = Inr ()"
      by (simp_all add: check_book_def)
    with b(3) show ?thesis by blast
  qed
qed (simp add: check_book_def)

text \<open>What the price of a subscribed result means for the winners.\<close>

lemma clearing_price_facts:
  assumes "compute_clearing bids F = Inr r" "r = result_at bids F P" "crossing bids F P"
    "distinct (map cb_chain bids)"
  shows "min_winner_price (cr_winners r) None = Some P"
    "\<forall>b \<in> set bids. P < cb_price b \<longrightarrow> winner_alloc (cr_winners r) (cb_chain b) = Some (cb_count b)"
    "\<forall>b \<in> set bids. cb_price b < P \<longrightarrow> winner_alloc (cr_winners r) (cb_chain b) = None"
proof -
  note g = compute_clearing_InrD(2) [OF assms(1)] and P = assms(3) and r = assms(2)
  show "\<forall>b \<in> set bids. P < cb_price b \<longrightarrow> winner_alloc (cr_winners r) (cb_chain b) = Some (cb_count b)"
    using alloc_at_take [OF assms(4) takes_above] by (simp add: alloc_at_def r del: result_at_sel(3))
  show "\<forall>b \<in> set bids. cb_price b < P \<longrightarrow> winner_alloc (cr_winners r) (cb_chain b) = None"
    using alloc_at_None [OF g P assms(4)] takes_member(2) [OF g P]
    by (force simp: alloc_at_def r simp del: result_at_sel(3))
  show "min_winner_price (cr_winners r) None = Some P"
  proof (rule min_winner_price_eq)
    show "\<forall>w \<in> set (cr_winners r). P \<le> cw_price w" using takes_member(2) [OF g P] by (force simp: r)
    show "None = Some P \<or> (\<exists>w \<in> set (cr_winners r). cw_price w = P)"
      using takes_at_marginal [OF g P] by (force simp: r)
  qed simp
qed

text \<open>What an accepting belt has established.\<close>

lemma assert_okE:
  assumes "assert_clearing_invariants r band F n m = Inr ()"
  obtains P q where "cr_price r = Some P" "foldE (belt_winner P) (cr_winners r) (0, 0) = Inr q"
    "fst q = F" "cr_platform_fee r = (snd q * PLATFORM_FEE_BPS) sdiv 10000"
    "cr_artist_net r = snd q - cr_platform_fee r"
    "belt_pro_rata (cr_snapshot r) (cr_winners r) P F = Inr ()"
  using assms
  by (auto simp: assert_clearing_invariants_def err_simps Let_def split: if_splits option.splits)

lemma tier_crossing:
  assumes "good_bids bids" "valid_tier (F - demand_gt bids P) (map cb_count (at_price bids P))"
  shows "crossing bids F P"
proof -
  note t = valid_tierD [OF assms(2), unfolded sum_at_price]
  have "at_price bids P \<noteq> []" using t(4) by (auto simp flip: sum_at_price)
  then have "P \<in> cb_price ` set bids" by (auto simp: at_price_def filter_empty_conv)
  then show ?thesis using t demand_split [of bids P] by (simp add: crossing_def)
qed

lemma crossing_float:
  assumes "good_bids bids" "crossing bids F P"
  shows "0 < F" "F \<le> sum_list (map cb_count bids)"
proof -
  have c: "0 \<le> cb_count b" if "b \<in> set bids" for b using that assms(1) by (simp add: good_bids_def less_imp_le)
  have "0 \<le> demand_gt bids P" unfolding demand_gt_def by (rule sum_list_map_ge0) (simp add: c)
  then show "0 < F" using assms(2) by (simp add: crossing_def)
  have "demand_ge bids P \<le> sum_list (map cb_count bids)"
    unfolding demand_ge_def by (rule sum_list_filter_le) (simp add: c)
  then show "F \<le> sum_list (map cb_count bids)" using assms(2) by (simp add: crossing_def)
qed

text \<open>Each take of the algorithm is pinned by the two tests of the pro-rata belt.\<close>

lemma takes_alloc:
  assumes "good_bids bids" "crossing bids F P" "t \<in> set (takes_at F P (sort_bids bids))"
    "\<forall>b \<in> set bids. P < cb_price b \<longrightarrow> al (cb_chain b) = Some (cb_count b)"
    "\<forall>i < length (at_price bids P). al (cb_chain (at_price bids P ! i)) = share_of (shares_at bids F P ! i)"
  shows "al (cb_chain (fst t)) = Some (snd t)"
proof (cases "P < cb_price (fst t)")
  case True
  have t: "(fst t, snd t) \<in> set (takes_at F P (sort_bids bids))" using assms(3) by simp
  from takes_member [OF assms(1,2) t] True assms(4) show ?thesis by simp
next
  case False
  then obtain i where "i < length (at_price bids P)" "t = (at_price bids P ! i, shares_at bids F P ! i)" "0 < snd t"
    using assms(3) by (auto simp: takes_at_alt set_zip)
  with assms(5) show ?thesis by (simp add: share_of_def)
qed

lemma allocation_map_pairs:
  "mset (alloc_pairs (cr_winners r)) = mset (alloc_pairs (cr_winners r'))
   \<Longrightarrow> mset (to_allocation_map r) = mset (to_allocation_map r')"
proof -
  have "to_allocation_map x = map (\<lambda>(c, a). \<lparr>al_chain = c, al_allocated = a\<rparr>) (alloc_pairs (cr_winners x))" for x
    by (simp add: to_allocation_map_def alloc_pairs_def)
  then show "mset (alloc_pairs (cr_winners r)) = mset (alloc_pairs (cr_winners r')) \<Longrightarrow> ?thesis"
    by (simp only: mset_map)
qed

lemma result_at_sdiv:
  assumes "good_bids bids" "crossing bids F P"
  shows "cr_platform_fee (result_at bids F P) = (P * F * PLATFORM_FEE_BPS) sdiv 10000"
    "cr_artist_net (result_at bids F P) = P * F - cr_platform_fee (result_at bids F P)"
  using sum_takes [OF assms] by (simp_all add: result_at_def Let_def sum_list_const_mult)

section \<open>Properties of \<open>computeClearing\<close>\<close>

text \<open>
  C1. Conservation. When the float is subscribed the allocations add up to the float exactly,
  every winner is one bid of the book with \<open>0 < allocated \<le> count\<close> (all of it above the
  price) and a refund of escrow minus uniform price times allocation, and the escrowed USDC of
  the whole book splits into proceeds, winners' refunds and the losers' escrow, with the
  proceeds split into fee and artist net.
\<close>

theorem clearing_conserves:
  assumes "compute_clearing bids F = Inr r" "cr_fully_subscribed r" "distinct (map cb_chain bids)"
  shows "\<exists>P. cr_price r = Some P
    \<and> sum_list (map cw_allocated (cr_winners r)) = F
    \<and> distinct (map cw_chain (cr_winners r))
    \<and> (\<forall>w \<in> set (cr_winners r). \<exists>b \<in> set bids. wins P b w)
    \<and> cr_proceeds r = P * F
    \<and> cr_platform_fee r + cr_artist_net r = cr_proceeds r
    \<and> 0 \<le> cr_platform_fee r \<and> 10000 * cr_platform_fee r \<le> 300 * cr_proceeds r
    \<and> 300 * cr_proceeds r < 10000 * (cr_platform_fee r + 1)
    \<and> sum_list (map cb_escrow bids) = cr_platform_fee r + cr_artist_net r
        + sum_list (map cw_refund (cr_winners r)) + sum_list (map cb_escrow (losers r bids))"
proof -
  obtain P where P: "crossing bids F P" and r: "r = result_at bids F P"
    using compute_clearing_settleable [OF assms(1,2)] .
  note g = compute_clearing_InrD(2) [OF assms(1)] and F = compute_clearing_InrD(1) [OF assms(1)]
  note m = result_at_money [OF g P F]
  have "0 \<le> P" using P g by (auto simp: crossing_def good_bids_def)
  then have pos: "0 \<le> P * F" using F by simp
  have fee: "0 \<le> cr_platform_fee r" "10000 * cr_platform_fee r \<le> 300 * cr_proceeds r"
    "300 * cr_proceeds r < 10000 * (cr_platform_fee r + 1)"
    unfolding r m by (rule fee_floor [OF pos])+
  have esc: "sum_list (map cb_escrow bids) = cr_platform_fee r + cr_artist_net r
      + sum_list (map cw_refund (cr_winners r)) + sum_list (map cb_escrow (losers r bids))"
    using escrow_split [OF assms(3), of F P] sum_refunds [OF g P] by (simp add: r m del: result_at_sel)
  have "\<forall>w \<in> set (cr_winners r). \<exists>b \<in> set bids. wins P b w"
    using winner_wins [OF g P] r by metis
  then show ?thesis
    using sum_winners [OF g P] distinct_winners [OF assms(3), of F P] fee esc
    by (intro exI [of _ P]) (simp add: r m del: result_at_sel(3) map_map)
qed

text \<open>
  C2. Uniform price. The clearing price is a price somebody bid, the highest at which the
  demand covers the float: demand strictly above it does not, and no dearer price of the book
  does. Every bid above it is filled in full, no bid below it receives anything, and it is the
  lowest price any winner offered.
\<close>

theorem clearing_price_is_highest_covering:
  assumes "compute_clearing bids F = Inr r" "cr_fully_subscribed r" "distinct (map cb_chain bids)"
  shows "\<exists>P. cr_price r = Some P \<and> P \<in> cb_price ` set bids
    \<and> demand_gt bids P < F \<and> F \<le> demand_ge bids P
    \<and> (\<forall>Q \<in> cb_price ` set bids. F \<le> demand_ge bids Q \<longrightarrow> Q \<le> P)
    \<and> (\<forall>b \<in> set bids. P < cb_price b \<longrightarrow> winner_alloc (cr_winners r) (cb_chain b) = Some (cb_count b))
    \<and> (\<forall>b \<in> set bids. cb_price b < P \<longrightarrow> winner_alloc (cr_winners r) (cb_chain b) = None)
    \<and> min_winner_price (cr_winners r) None = Some P"
proof -
  obtain P where P: "crossing bids F P" and r: "r = result_at bids F P"
    using compute_clearing_settleable [OF assms(1,2)] .
  note g = compute_clearing_InrD(2) [OF assms(1)]
  have hi: "Q \<le> P" if "F \<le> demand_ge bids Q" for Q
    using that P demand_ge_mono [of bids P Q] g by (force simp: crossing_def good_bids_def)
  show ?thesis using P hi clearing_price_facts [OF assms(1) r P assms(3)] by (auto simp: r crossing_def simp del: result_at_sel(3))
qed

text \<open>
  Order independence. The result is a function of the set of bids: reading the rows of the
  book in another order gives the identical result, winners in the same order included.
\<close>

lemma clearing_order_independent:
  assumes "mset bids = mset bids'" "distinct (map cb_chain bids)" "check_book bids = Inr ()"
  shows "compute_clearing bids F = compute_clearing bids' F"
proof -
  have s: "sort_bids bids = sort_bids bids'" using sort_bids_perm [OF assms(1,2)] .
  have "check_book bids' = Inr ()"
    using assms(3) mset_eq_setD [OF assms(1)] by (simp add: err_simps good_bids_def)
  then show ?thesis using assms(3) by (simp add: compute_clearing_def s)
qed

text \<open>
  C3. The pro-rata rule at the clearing tier. With \<open>R\<close> the float left after the bids above the
  price and \<open>T\<close> the demand at it, the tier ordered by arrival gets \<open>count * R div T\<close> each and
  the dust, fewer than the tier's bids, goes one unit each to the earliest; a bid whose share
  is zero is left out of the winners. The shares add up to \<open>R\<close>.
\<close>

theorem clearing_pro_rata:
  assumes "compute_clearing bids F = Inr r" "cr_fully_subscribed r" "distinct (map cb_chain bids)"
    "cr_price r = Some P"
  shows "let R = F - demand_gt bids P; T = demand_eq bids P; tier = filter (\<lambda>b. cb_price b = P) (sort_bids bids);
             floor_share = (\<lambda>i. (cb_count (tier ! i) * R) div T);
             dust = R - sum_list (map floor_share [0..<length tier]);
             share = (\<lambda>i. floor_share i + (if int i < dust then 1 else 0))
         in 0 < R \<and> R \<le> T \<and> 0 \<le> dust \<and> dust < int (length tier)
          \<and> sum_list (map share [0..<length tier]) = R
          \<and> (\<forall>i \<in> {..<length tier}. winner_alloc (cr_winners r) (cb_chain (tier ! i))
                 = (if share i = 0 then None else Some (share i)))"
proof -
  obtain P' where P': "crossing bids F P'" and r: "r = result_at bids F P'"
    using compute_clearing_settleable [OF assms(1,2)] .
  with assms(4) have P: "crossing bids F P" and r: "r = result_at bids F P" by simp_all
  note g = compute_clearing_InrD(2) [OF assms(1)]
  note tier = crossing_tier [OF g P]
  let ?at = "at_price bids P" and ?R = "F - demand_gt bids P"
  let ?fl = "\<lambda>i. (cb_count (?at ! i) * ?R) div demand_eq bids P"
  have bases: "bases_of ?R (map cb_count ?at) = map ?fl [0..<length ?at]"
    unfolding bases_div [OF tier] sum_at_price by (rule nth_equalityI) simp_all
  then have dust: "dust_of ?R (map cb_count ?at) = ?R - sum_list (map ?fl [0..<length ?at])"
    by (simp add: dust_of_def)
  let ?share = "\<lambda>i. ?fl i + (if int i < ?R - sum_list (map ?fl [0..<length ?at]) then 1 else 0)"
  have sh: "shares_at bids F P ! i = ?share i" if "i < length ?at" for i
    using pro_rata_nth [OF tier, of i] that by (simp add: shares_at_def dust sum_at_price)
  have "shares_at bids F P = map ?share [0..<length ?at]"
    by (rule nth_equalityI) (simp_all add: sh)
  then have sum: "sum_list (map ?share [0..<length ?at]) = ?R" using sum_shares [OF g P] by simp
  have al: "winner_alloc (cr_winners r) (cb_chain (?at ! i)) = (if ?share i = 0 then None else Some (?share i))"
    if "i < length ?at" for i
    using tier_alloc [OF g P assms(3) that] sh [OF that] by (simp add: alloc_at_def r share_of_def del: result_at_sel)
  have "0 < ?R" "?R \<le> demand_eq bids P" using valid_tierD [OF tier] sum_at_price by simp_all
  then show ?thesis
    using dust_range [OF tier] sum al unfolding Let_def at_price_def [symmetric] dust length_map by simp
qed

text \<open>
  Errors and totality. \<open>computeClearing\<close> throws only for a non-positive float or for the
  first bid of the input with a non-positive count or a negative price, never for want of a
  price; otherwise it returns, subscribed exactly when the demand covers the float, and an
  unsubscribed result carries no price, no winner and no money.
\<close>

lemma clearing_total:
  "case compute_clearing bids F of
     Inl e \<Rightarrow> if F \<le> 0 then e = PublicFloatNotPositive
              else \<exists>us b vs. bids = us @ b # vs \<and> check_book us = Inr ()
                \<and> (if cb_count b \<le> 0 then e = NonPositiveCount (cb_chain b)
                   else cb_price b < 0 \<and> e = NegativePrice (cb_chain b))
   | Inr r \<Rightarrow> 0 < F \<and> (\<forall>b \<in> set bids. 0 < cb_count b \<and> 0 \<le> cb_price b)
       \<and> cr_total_demand r = sum_list (map cb_count bids)
       \<and> cr_snapshot r = map snapshot_of (sort_bids bids)
       \<and> cr_fully_subscribed r = (F \<le> sum_list (map cb_count bids))
       \<and> (cr_price r = None) = (\<not> cr_fully_subscribed r)
       \<and> (cr_fully_subscribed r \<or> cr_winners r = [] \<and> cr_proceeds r = 0 \<and> cr_artist_net r = 0)"
proof (cases "compute_clearing bids F")
  case (Inr r)
  note D = compute_clearing_InrD [OF Inr]
  show ?thesis
  proof (cases "F \<le> sum_list (map cb_count bids)")
    case True
    then obtain P where "r = result_at bids F P" using compute_clearing_subscribed [OF D(1,2)] Inr by force
    with D True show ?thesis by (simp add: Inr good_bids_def)
  next
    case False
    moreover have "check_book bids = Inr ()" using D(2) by (simp add: err_simps)
    ultimately show ?thesis using D Inr
      by (auto simp: compute_clearing_def Let_def good_bids_def)
  qed
next
  case (Inl e)
  show ?thesis
  proof (cases "F \<le> 0")
    case False
    have "check_book bids = Inl e"
    proof (cases "check_book bids")
      case (Inl e')
      with \<open>compute_clearing bids F = Inl e\<close> False show ?thesis by (simp add: compute_clearing_def)
    next
      case (Inr u)
      then have g: "good_bids bids" by (simp add: err_simps)
      have "False"
      proof (cases "F \<le> sum_list (map cb_count bids)")
        case True
        with compute_clearing_subscribed [of F bids] g False obtain r where "compute_clearing bids F = Inr r"
          by force
        with Inl show False by simp
      next
        case False
        with Inl Inr \<open>\<not> F \<le> 0\<close> show False by (simp add: compute_clearing_def Let_def)
      qed
      then show ?thesis ..
    qed
    then have "\<exists>us b vs. bids = us @ b # vs \<and> check_book us = Inr ()
                \<and> (if cb_count b \<le> 0 then e = NonPositiveCount (cb_chain b)
                   else cb_price b < 0 \<and> e = NegativePrice (cb_chain b))"
      by (rule check_book_first)
    with False show ?thesis by (simp add: Inl)
  qed (use Inl in \<open>simp add: compute_clearing_def\<close>)
qed

section \<open>The belt and the algorithm\<close>

lemma belt_winners_fold:
  assumes "compute_clearing bids F = Inr r" "r = result_at bids F P" "crossing bids F P" "0 < P"
    "\<forall>b \<in> set bids. cb_escrow b = cb_price b * cb_count b \<and> cb_escrow b \<le> MAX_STROOPS"
    "int (length bids) \<le> 2 ^ 31"
  shows "foldE (belt_winner P) (cr_winners r) (0, 0) = Inr (F, P * F)"
proof -
  note g = compute_clearing_InrD(2) [OF assms(1)]
  have fit: "P * F \<le> MAX_I128" by (rule proceeds_fit [OF g assms(3,6)]) (use assms(5) in fastforce)
  have w: "0 < cw_allocated w \<and> 0 \<le> cw_refund w" if "w \<in> set (cr_winners r)" for w
  proof -
    from that assms(2) obtain b where b: "b \<in> set bids" "wins P b w"
      using winner_wins [OF g assms(3)] by metis
    then have "P * cw_allocated w \<le> cb_price b * cb_count b"
      using assms(4) by (intro mult_mono) (auto simp: wins_def)
    with b assms(5) show ?thesis by (auto simp: wins_def)
  qed
  have s: "sum_list (map cw_allocated (cr_winners r)) = F"
    using sum_winners [OF g assms(3)] assms(2) by simp
  have "foldE (belt_winner P) (cr_winners r) (0, 0)
      = Inr (0 + sum_list (map cw_allocated (cr_winners r)), 0 + P * sum_list (map cw_allocated (cr_winners r)))"
    by (rule foldE_belt_winner) (use w s assms(4) fit in auto)
  with s show ?thesis by simp
qed

text \<open>
  The belt accepts the algorithm. For a book as the handler passes it (distinct chain ids,
  prices inside a positive band, escrow equal to price times count within the storable range,
  no more bids than the cap), \<open>assertClearingInvariants\<close> does not throw on the result of a
  subscribed \<open>computeClearing\<close>.
\<close>

lemma belt_accepts_clearing:
  assumes "compute_clearing bids F = Inr r" "cr_fully_subscribed r" "distinct (map cb_chain bids)"
    "\<forall>b \<in> set bids. band_low band \<le> cb_price b \<and> cb_price b \<le> band_high band"
    "0 < band_low band" "band_high band \<le> MAX_STROOPS"
    "\<forall>b \<in> set bids. cb_escrow b = cb_price b * cb_count b \<and> cb_escrow b \<le> MAX_STROOPS"
    "int (length bids) \<le> max_bids" "max_bids \<le> 2 ^ 31"
  shows "assert_clearing_invariants r band F (int (length bids)) max_bids = Inr ()"
proof -
  obtain P where P: "crossing bids F P" and r: "r = result_at bids F P"
    using compute_clearing_settleable [OF assms(1,2)] .
  note g = compute_clearing_InrD(2) [OF assms(1)] and F = compute_clearing_InrD(1) [OF assms(1)]
  have band: "band_low band \<le> P" "P \<le> band_high band" using P assms(4) by (auto simp: crossing_def)
  then have pos: "0 < P" "P \<le> MAX_STROOPS" using assms(5,6) by simp_all
  have fold: "foldE (belt_winner P) (cr_winners r) (0, 0) = Inr (F, P * F)"
    by (rule belt_winners_fold [OF assms(1) r P pos(1) assms(7)]) (use assms(8,9) in linarith)
  have fee: "(P * F * PLATFORM_FEE_BPS) sdiv 10000 = cr_platform_fee r"
    "cr_artist_net r = P * F - cr_platform_fee r"
    using pos F by (simp_all add: r result_at_money [OF g P F] sdiv_nonneg PLATFORM_FEE_BPS_def)
  note U = clearing_price_facts [OF assms(1) r P assms(3)]
  have mn: "min_winner_price (cr_winners r) None = Some P" by (rule U(1))
  have loss: "eachE (\<lambda>b. guardE (sn_chain b \<in> set (map cw_chain (cr_winners r)) \<or> \<not> sn_price b > P)
        (LosingBidAbovePrice (sn_chain b))) (cr_snapshot r) = Inr ()"
  proof -
    have "cb_chain b \<in> cw_chain ` set (cr_winners r)" if "b \<in> set bids" "P < cb_price b" for b
      using U(2) that winner_alloc_None [of "cr_winners r" "cb_chain b"] by auto
    then show ?thesis unfolding eachE_ok guardE_simps by (auto simp: r not_less simp del: result_at_sel(3))
  qed
  have belt: "belt_pro_rata (cr_snapshot r) (cr_winners r) P F = Inr ()"
    unfolding r result_at_sel(4) belt_pro_rata_ok [OF g]
    using U(2) crossing_tier [OF g P] tier_alloc [OF g P assms(3)]
    by (simp add: r alloc_at_def del: result_at_sel(3))
  have sel: "cr_fully_subscribed r" "cr_price r = Some P" by (simp_all add: r)
  show ?thesis
    unfolding assert_clearing_invariants_def
    by (simp only: sel fold mn fee loss belt option.case bindE.simps prod.case Let_def if_True if_False
        simp_thms refl) (use band pos assms(8) in \<open>simp add: not_less not_le\<close>)
qed

text \<open>
  C4. The belt pins the algorithm. Whatever result it accepts over the snapshot of a well-formed
  book with distinct chain ids, the price, the fee, the net and the allocation map it carries
  (up to the order of the entries) are the ones \<open>computeClearing\<close> computes for that book: a
  tampered allocation between the algorithm and the contract call cannot pass.
\<close>

theorem belt_pins_clearing:
  assumes "assert_clearing_invariants r band F n max_bids = Inr ()"
    "cr_snapshot r = map snapshot_of (sort_bids bids)" "check_book bids = Inr ()"
    "distinct (map cb_chain bids)"
  shows "\<exists>r'. compute_clearing bids F = Inr r' \<and> cr_fully_subscribed r'
     \<and> cr_price r = cr_price r' \<and> cr_platform_fee r = cr_platform_fee r'
     \<and> cr_artist_net r = cr_artist_net r'
     \<and> mset (to_allocation_map r) = mset (to_allocation_map r')"
proof -
  have g: "good_bids bids" using assms(3) by (simp add: err_simps)
  obtain P q where P: "cr_price r = Some P" and q: "foldE (belt_winner P) (cr_winners r) (0, 0) = Inr q"
    and A: "fst q = F" "cr_platform_fee r = (snd q * PLATFORM_FEE_BPS) sdiv 10000"
      "cr_artist_net r = snd q - cr_platform_fee r"
      "belt_pro_rata (cr_snapshot r) (cr_winners r) P F = Inr ()"
    using assms(1) by (rule assert_okE)
  note W = foldE_belt_winnerD [OF q]
  note B = A(4) [unfolded assms(2) belt_pro_rata_ok [OF g]]
  have cr: "crossing bids F P" using B by (intro tier_crossing [OF g]) simp
  have F: "0 < F" "F \<le> sum_list (map cb_count bids)" using crossing_float [OF g cr] by simp_all
  obtain P' where "crossing bids F P'" and r': "compute_clearing bids F = Inr (result_at bids F P')"
    using compute_clearing_subscribed [OF F(1) g F(2)] .
  with crossing_unique [OF _ this(1) cr] g
  have r': "compute_clearing bids F = Inr (result_at bids F P)" by (simp add: good_bids_def)
  let ?ws' = "cr_winners (result_at bids F P)"
  have own: "\<forall>w \<in> set ?ws'. winner_alloc (cr_winners r) (cw_chain w) = Some (cw_allocated w)"
    using B takes_alloc [OF g cr] by auto
  have "mset (alloc_pairs (cr_winners r)) = mset (alloc_pairs ?ws')"
    using W A(1) sum_winners [OF g cr]
    by (intro alloc_pairs_pinned distinct_winners assms(4) own) auto
  then have "mset (to_allocation_map r) = mset (to_allocation_map (result_at bids F P))"
    by (rule allocation_map_pairs)
  moreover have "snd q = P * F" "fst q = F" using W A(1) by auto
  ultimately show ?thesis
    using r' A(2,3) P result_at_sdiv [OF g cr] by (intro exI [of _ "result_at bids F P"]) simp
qed

end
