(* ===== verification/Clearing_Witness.thy ===== *)
theory Clearing_Witness
  imports Clearing_Props
begin

text \<open>
  A concrete book for the properties of the clearing algorithm: three price tiers, the float
  of 8 crosses at 7, where two bids share 5 fractions (one of them dust) and the cheapest bid
  loses.
\<close>

definition sample_bid :: "int \<Rightarrow> int \<Rightarrow> int \<Rightarrow> clearing_bid" where
  "sample_bid c p n = \<lparr>cb_id = ''bid'', cb_chain = c, cb_collector = ''G'', cb_price = p, cb_count = n,
     cb_created = 1000 + c, cb_escrow = p * n\<rparr>"

definition sample_book :: "clearing_bid list" where
  "sample_book = [sample_bid 4 5 2, sample_bid 2 7 4, sample_bid 1 10 3, sample_bid 3 7 5]"

definition sample_band :: clearing_band where
  "sample_band = \<lparr>band_low = 5, band_high = 12\<rparr>"

definition sample_winner :: "int \<Rightarrow> int \<Rightarrow> int \<Rightarrow> int \<Rightarrow> clearing_winner" where
  "sample_winner c p n a = \<lparr>cw_id = ''bid'', cw_chain = c, cw_collector = ''G'', cw_price = p,
     cw_count = n, cw_allocated = a, cw_refund = p * n - 7 * a\<rparr>"

definition sample_result :: clearing_result where
  "sample_result = \<lparr>cr_price = Some 7, cr_fully_subscribed = True, cr_total_demand = 14,
     cr_winners = [sample_winner 1 10 3 3, sample_winner 2 7 4 3, sample_winner 3 7 5 2],
     cr_proceeds = 56, cr_platform_fee = 1, cr_artist_net = 55,
     cr_snapshot = map snapshot_of [sample_bid 1 10 3, sample_bid 2 7 4, sample_bid 3 7 5, sample_bid 4 5 2]\<rparr>"

lemma sample_computed: "compute_clearing sample_book 8 = Inr sample_result"
  by code_simp

lemma sample_subscribed: "cr_fully_subscribed sample_result"
  by (simp add: sample_result_def)

lemma sample_distinct: "distinct (map cb_chain sample_book)"
  by code_simp

lemma sample_sorted: "sort_bids sample_book
    = [sample_bid 1 10 3, sample_bid 2 7 4, sample_bid 3 7 5, sample_bid 4 5 2]"
  by code_simp

lemmas sample_facts = sample_computed sample_subscribed sample_distinct

lemma clearing_conserves_witness:
  "compute_clearing sample_book 8 = Inr sample_result
   \<and> sum_list (map cw_allocated (cr_winners sample_result)) = 8
   \<and> sum_list (map cb_escrow sample_book) = cr_platform_fee sample_result + cr_artist_net sample_result
        + sum_list (map cw_refund (cr_winners sample_result))
        + sum_list (map cb_escrow (losers sample_result sample_book))"
  using clearing_conserves [OF sample_facts] sample_computed by blast

lemma clearing_price_is_highest_covering_witness:
  "\<exists>P. cr_price sample_result = Some P \<and> P = 7 \<and> demand_gt sample_book P < 8 \<and> 8 \<le> demand_ge sample_book P"
  using clearing_price_is_highest_covering [OF sample_facts] by (auto simp: sample_result_def)

lemma clearing_order_independent_witness:
  "compute_clearing (rev sample_book) 8 = Inr sample_result"
proof -
  have "check_book sample_book = Inr ()" by code_simp
  from clearing_order_independent [OF _ sample_distinct this, of "rev sample_book" 8]
  show ?thesis by (simp add: sample_computed)
qed

lemma clearing_pro_rata_witness:
  "winner_alloc (cr_winners sample_result) 2 = Some 3 \<and> winner_alloc (cr_winners sample_result) 3 = Some 2
   \<and> (\<exists>R T. R = 5 \<and> T = 9 \<and> R = 8 - demand_gt sample_book 7 \<and> T = demand_eq sample_book 7)"
proof -
  have P: "cr_price sample_result = Some 7" by (simp add: sample_result_def)
  have "demand_gt sample_book 7 = 3" "demand_eq sample_book 7 = 9" by code_simp+
  moreover have "winner_alloc (cr_winners sample_result) 2 = Some 3 \<and> winner_alloc (cr_winners sample_result) 3 = Some 2"
    using clearing_pro_rata [OF sample_facts P] calculation
    by (simp add: Let_def sample_sorted sample_bid_def lessThan_Suc numeral_2_eq_2)
  ultimately show ?thesis by simp
qed

lemma clearing_total_witness:
  "compute_clearing [sample_bid 1 7 3, sample_bid 2 7 0] 2 = Inl (NonPositiveCount 2)"
proof -
  have "\<not> isOk (compute_clearing [sample_bid 1 7 3, sample_bid 2 7 0] 2)" by code_simp
  then obtain e where e: "compute_clearing [sample_bid 1 7 3, sample_bid 2 7 0] 2 = Inl e"
    by (cases "compute_clearing [sample_bid 1 7 3, sample_bid 2 7 0] 2") simp_all
  with clearing_total [of 2 "[sample_bid 1 7 3, sample_bid 2 7 0]"]
  show ?thesis by (auto simp: Cons_eq_append_conv sample_bid_def check_book_def split: if_splits)
qed

lemma belt_accepts_clearing_witness:
  "compute_clearing sample_book 8 = Inr sample_result
   \<and> assert_clearing_invariants sample_result sample_band 8 (int (length sample_book)) 100 = Inr ()"
  using belt_accepts_clearing [OF sample_facts, of sample_band 100] sample_computed
  by (simp add: sample_book_def sample_bid_def sample_band_def MAX_STROOPS_def)

lemma belt_pins_clearing_witness:
  "\<exists>r'. compute_clearing sample_book 8 = Inr r'
     \<and> mset (to_allocation_map sample_result) = mset (to_allocation_map r')"
proof -
  have "assert_clearing_invariants sample_result sample_band 8 4 100 = Inr ()" by code_simp
  moreover have "cr_snapshot sample_result = map snapshot_of (sort_bids sample_book)"
    by (simp add: sample_sorted sample_result_def)
  moreover have "check_book sample_book = Inr ()" by code_simp
  ultimately show ?thesis using belt_pins_clearing [of sample_result sample_band 8 4 100 sample_book]
      sample_distinct by blast
qed

end
