(* ===== verification/Money.thy ===== *)
theory Money
  imports Clearing
begin

text \<open>
  Amounts as the code carries them: canonical decimal strings outside, \<open>BigInt\<close> inside.
  \<open>STROOPS_RE\<close> and \<open>parseAmount\<close>, \<open>BigInt.toString\<close>, \<open>computeEscrowStroops\<close>, and the planning
  helpers \<open>assertBandValid\<close>, \<open>computePublicFloat\<close>, \<open>resolveOfferableFloat\<close>. The round trip
  proved here is why the tables of the other theories hold \<open>int\<close>.
\<close>

section \<open>HTTP errors\<close>

text \<open>
  \<open>failHttp\<close>: the error code (a string enum whose values are their names) and the status; any
  other exception reaches the client as a 500.
\<close>

datatype http_error = FailHttp string nat | InternalError string

section \<open>Decimal strings\<close>

definition is_digit :: "char \<Rightarrow> bool" where
  "is_digit c \<longleftrightarrow> 48 \<le> (of_char c :: nat) \<and> (of_char c :: nat) \<le> 57"

definition digit_val :: "char \<Rightarrow> nat" where
  "digit_val c = of_char c - 48"

definition digit_char :: "nat \<Rightarrow> char" where
  "digit_char d = char_of (48 + d)"

definition parse_digits :: "string \<Rightarrow> nat" where
  "parse_digits s = foldl (\<lambda>acc c. 10 * acc + digit_val c) 0 s"

fun show_digits :: "nat \<Rightarrow> string" where
  "show_digits n = (if n < 10 then [digit_char n] else show_digits (n div 10) @ [digit_char (n mod 10)])"

declare show_digits.simps [simp del]

text \<open>\<open>/^(0|[1-9]\d*)$/\<close> and \<open>/^-?\d+$/\<close>.\<close>

definition STROOPS_RE :: "string \<Rightarrow> bool" where
  "STROOPS_RE s \<longleftrightarrow> s \<noteq> [] \<and> list_all is_digit s \<and> (s = ''0'' \<or> hd s \<noteq> CHR ''0'')"

definition INTEGER_RE :: "string \<Rightarrow> bool" where
  "INTEGER_RE s = (case s of [] \<Rightarrow> False
     | c # cs \<Rightarrow> if c = CHR ''-'' then cs \<noteq> [] \<and> list_all is_digit cs else list_all is_digit s)"

text \<open>\<open>BigInt(s)\<close> on a string \<open>INTEGER_RE\<close> admits, and \<open>String(n)\<close>.\<close>

definition BigInt :: "string \<Rightarrow> int" where
  "BigInt s = (case s of [] \<Rightarrow> 0
     | c # cs \<Rightarrow> if c = CHR ''-'' then - int (parse_digits cs) else int (parse_digits s))"

definition String_of :: "int \<Rightarrow> string" where
  "String_of n = (if n < 0 then CHR ''-'' # show_digits (nat (- n)) else show_digits (nat n))"

lemma digit_char_simps [simp]:
  assumes "d < 10"
  shows "is_digit (digit_char d)" "digit_val (digit_char d) = d"
  using assms by (simp_all add: is_digit_def digit_val_def digit_char_def)

lemma digit_char_inv: "is_digit c \<Longrightarrow> digit_char (digit_val c) = c"
  by (simp add: is_digit_def digit_val_def digit_char_def)

lemma digit_val_less: "is_digit c \<Longrightarrow> digit_val c < 10"
  unfolding is_digit_def digit_val_def by linarith

lemma char_of_48 [simp]: "char_of (48 :: nat) = CHR ''0''"
  using char_of_char [of "CHR ''0''", where 'a = nat] by simp

lemma digit_char_0: "d < 10 \<Longrightarrow> digit_char d = CHR ''0'' \<longleftrightarrow> d = 0"
proof -
  assume d: "d < 10"
  have "digit_val (CHR ''0'') = 0" by (simp add: digit_val_def)
  then show ?thesis using d digit_char_simps(2) [OF d] by (auto simp: digit_char_def)
qed

lemma parse_digits_snoc: "parse_digits (s @ [c]) = 10 * parse_digits s + digit_val c"
  by (simp add: parse_digits_def)

lemma show_digits_digits: "list_all is_digit (show_digits n) \<and> show_digits n \<noteq> []"
proof (induction n rule: show_digits.induct)
  case (1 n)
  have "show_digits n = (if n < 10 then [digit_char n] else show_digits (n div 10) @ [digit_char (n mod 10)])"
    by (rule show_digits.simps)
  with 1 show ?case by (cases "n < 10") simp_all
qed

lemma parse_show_digits: "parse_digits (show_digits n) = n"
proof (induction n rule: show_digits.induct)
  case (1 n)
  show ?case
  proof (cases "n < 10")
    case True
    then show ?thesis by (subst show_digits.simps) (simp add: parse_digits_def)
  next
    case False
    then show ?thesis using 1 by (subst show_digits.simps) (simp add: parse_digits_snoc)
  qed
qed

lemma show_digits_head: "n \<noteq> 0 \<Longrightarrow> hd (show_digits n) \<noteq> CHR ''0''"
proof (induction n rule: show_digits.induct)
  case (1 n)
  show ?case
  proof (cases "n < 10")
    case True
    then show ?thesis using 1 by (subst show_digits.simps) (simp add: digit_char_0)
  next
    case False
    then have "n div 10 \<noteq> 0" by auto
    with 1 False show ?thesis
      using show_digits_digits [of "n div 10"] by (subst show_digits.simps) simp
  qed
qed

lemma show_parse_digits:
  "list_all is_digit s \<Longrightarrow> s \<noteq> [] \<Longrightarrow> s = ''0'' \<or> hd s \<noteq> CHR ''0'' \<Longrightarrow> show_digits (parse_digits s) = s"
proof (induction s rule: rev_induct)
  case (snoc c s)
  show ?case
  proof (cases "s = []")
    case True
    then show ?thesis using snoc.prems(1) digit_val_less [of c] digit_char_inv [of c]
      by (subst show_digits.simps) (simp add: parse_digits_def)
  next
    case False
    then have hd: "hd s \<noteq> CHR ''0''" using snoc.prems(3) by (cases s) auto
    with False snoc have IH: "show_digits (parse_digits s) = s" by auto
    have pos: "parse_digits s \<noteq> 0"
    proof
      assume "parse_digits s = 0"
      with IH have "s = show_digits 0" by simp
      then show False using hd by (simp add: show_digits.simps digit_char_def)
    qed
    have c: "is_digit c" using snoc.prems(1) by simp
    have "\<not> 10 * parse_digits s + digit_val c < 10" using pos by simp
    then show ?thesis
      using IH digit_val_less [OF c] digit_char_inv [OF c]
      by (subst show_digits.simps) (simp add: parse_digits_snoc)
  qed
qed simp

lemma minus_not_digit: "\<not> is_digit (CHR ''-'')"
  by (simp add: is_digit_def)

lemma show_digits_no_minus: "show_digits n = c # cs \<Longrightarrow> c \<noteq> CHR ''-''"
  using show_digits_digits [of n] minus_not_digit by auto

lemma BigInt_show_digits: "BigInt (show_digits n) = int n"
proof -
  obtain c cs where s: "show_digits n = c # cs" using show_digits_digits [of n] by (cases "show_digits n") auto
  with show_digits_no_minus [OF s] parse_show_digits [of n] show ?thesis by (simp add: BigInt_def)
qed

lemma BigInt_String_of: "BigInt (String_of n) = n"
proof (cases "n < 0")
  case True
  then show ?thesis by (simp add: String_of_def BigInt_def parse_show_digits)
next
  case False
  then show ?thesis by (simp add: String_of_def BigInt_show_digits)
qed

lemma STROOPS_RE_String_of: "0 \<le> n \<Longrightarrow> STROOPS_RE (String_of n)"
proof (cases "n = 0")
  case True
  have "show_digits 0 = ''0''" by (simp add: show_digits.simps digit_char_def)
  with True show ?thesis by (simp add: String_of_def STROOPS_RE_def is_digit_def)
next
  case False
  assume "0 \<le> n"
  with False show ?thesis
    using show_digits_digits [of "nat n"] show_digits_head [of "nat n"]
    by (simp add: String_of_def STROOPS_RE_def)
qed

lemma string_of_canonical: "BigInt (String_of n) = n \<and> (0 \<le> n \<longrightarrow> STROOPS_RE (String_of n))"
  using BigInt_String_of STROOPS_RE_String_of by blast

text \<open>
  Amounts survive the string columns. Reading back the decimal string of any integer gives
  that integer, the string of a non-negative one passes \<open>STROOPS_RE\<close>, and every string
  \<open>STROOPS_RE\<close> admits is the string of its value: equal amounts have equal strings.
\<close>

lemma decimal_round_trip:
  "BigInt (String_of n) = n \<and> INTEGER_RE (String_of n) \<and> (0 \<le> n \<longrightarrow> STROOPS_RE (String_of n))
   \<and> (STROOPS_RE s \<longrightarrow> String_of (BigInt s) = s \<and> 0 \<le> BigInt s)"
proof (intro conjI impI)
  show "BigInt (String_of n) = n" by (rule BigInt_String_of)
  show "INTEGER_RE (String_of n)"
    using show_digits_digits [of "nat n"] show_digits_digits [of "nat (- n)"] show_digits_no_minus [of "nat n"]
    by (auto simp: String_of_def INTEGER_RE_def split: list.splits)
  show "STROOPS_RE (String_of n)" if "0 \<le> n" using that by (rule STROOPS_RE_String_of)
  assume s: "STROOPS_RE s"
  then obtain c cs where cs: "s = c # cs" by (auto simp: STROOPS_RE_def neq_Nil_conv)
  with s have "c \<noteq> CHR ''-''" using minus_not_digit by (auto simp: STROOPS_RE_def)
  then have B: "BigInt s = int (parse_digits s)" by (simp add: BigInt_def cs)
  with s show "String_of (BigInt s) = s" by (simp add: String_of_def STROOPS_RE_def show_parse_digits)
  show "0 \<le> BigInt s" using B by simp
qed

lemma decimal_round_trip_witness:
  "STROOPS_RE ''150'' \<and> BigInt ''150'' = 150 \<and> String_of (BigInt ''150'') = ''150''"
proof -
  have v: "STROOPS_RE ''150''" "BigInt ''150'' = 150"
    by (simp_all add: STROOPS_RE_def is_digit_def BigInt_def parse_digits_def digit_val_def)
  with decimal_round_trip [of 0 "''150''"] show ?thesis by simp
qed

section \<open>Amounts\<close>

text \<open>\<open>fractionalization/amount.ts\<close>: \<open>FractionReadUnavailableError\<close> is the 503 of its callers.\<close>

datatype amount_error = InvalidAmount string | NegativeAmount string

definition parseAmount :: "string option \<Rightarrow> string \<Rightarrow> bool \<Rightarrow> amount_error + int" where
  "parseAmount value field non_negative =
     (case value of
        None \<Rightarrow> Inl (InvalidAmount field)
      | Some v \<Rightarrow> if \<not> INTEGER_RE v then Inl (InvalidAmount field)
                  else if non_negative \<and> BigInt v < 0 then Inl (NegativeAmount field)
                  else Inr (BigInt v))"

text \<open>\<open>offerings/constants/bid-money.ts\<close>: both inputs are \<open>STROOPS_RE\<close> strings.\<close>

datatype range_error = NotPositive | ExceedsMax

definition computeEscrowStroops :: "string \<Rightarrow> string \<Rightarrow> range_error + string" where
  "computeEscrowStroops priceStroops cnt =
     (let price = BigInt priceStroops; qty = BigInt cnt in
      if price \<le> 0 \<or> qty \<le> 0 then Inl NotPositive
      else let escrow = price * qty in
        if escrow > MAX_STROOPS then Inl ExceedsMax else Inr (String_of escrow))"

text \<open>
  The escrow of a bid. \<open>computeEscrowStroops\<close> returns the canonical string of the exact
  product when both factors are positive and the product is within the 96-bit ceiling, and
  otherwise one of its two range errors; the product it returns is at least each factor.
\<close>

lemma escrow_amount_exact:
  "case computeEscrowStroops p c of
     Inr s \<Rightarrow> STROOPS_RE s \<and> BigInt s = BigInt p * BigInt c \<and> 0 < BigInt p \<and> 0 < BigInt c
        \<and> BigInt p \<le> BigInt s \<and> BigInt c \<le> BigInt s \<and> BigInt s \<le> MAX_STROOPS
   | Inl NotPositive \<Rightarrow> BigInt p \<le> 0 \<or> BigInt c \<le> 0
   | Inl ExceedsMax \<Rightarrow> 0 < BigInt p \<and> 0 < BigInt c \<and> MAX_STROOPS < BigInt p * BigInt c"
proof -
  have "BigInt p \<le> BigInt p * BigInt c \<and> BigInt c \<le> BigInt p * BigInt c" if "0 < BigInt p" "0 < BigInt c"
    using that by (simp add: mult_le_cancel_left1 mult_le_cancel_right1)
  then show ?thesis
    using string_of_canonical [of "BigInt p * BigInt c"]
    by (auto simp: computeEscrowStroops_def Let_def)
qed

section \<open>Planning helpers\<close>

datatype contract_status = FC_deploying | FC_deployed | FC_failed

record fraction_contract =
  fc_id :: ident
  fc_artwork :: ident
  fc_status :: contract_status
  fc_token :: "ident option"
  fc_artist_address :: ident
  fc_supply :: int
  fc_artist_retention :: "int option"
  fc_treasury_retention :: "int option"
  fc_deleted :: "instant option"

text \<open>\<open>offerings/offering-planning.helpers.ts\<close> and \<open>fraction-contract.helpers.ts\<close>.\<close>

definition assertBandValid :: "string \<Rightarrow> string \<Rightarrow> http_error + int \<times> int" where
  "assertBandValid lowStr highStr =
     (let low = BigInt lowStr; high = BigInt highStr in
      if low \<le> 0 \<or> high \<le> 0 \<or> low \<ge> high \<or> high > MAX_STROOPS
        then Inl (FailHttp ''OFFERING_BAND_INVALID'' 422) else Inr (low, high))"

definition computePublicFloat :: "int \<Rightarrow> int \<Rightarrow> int \<Rightarrow> int" where
  "computePublicFloat totalSupply artistRetention treasuryRetention =
     totalSupply - artistRetention - treasuryRetention"

record offerable =
  ob_contract :: fraction_contract
  ob_float :: int
  ob_supply :: int
  ob_artist :: int
  ob_treasury :: int

definition resolveOfferableFloat :: "fraction_contract option \<Rightarrow> http_error + offerable" where
  "resolveOfferableFloat fco =
     (case fco of
        None \<Rightarrow> Inl (FailHttp ''OFFERING_ARTWORK_NOT_FRACTIONALIZED'' 409)
      | Some fc \<Rightarrow>
          (if fc_status fc \<noteq> FC_deployed then Inl (FailHttp ''OFFERING_ARTWORK_NOT_FRACTIONALIZED'' 409)
           else case (fc_artist_retention fc, fc_treasury_retention fc) of
             (Some a, Some t) \<Rightarrow>
               let publicFloat = computePublicFloat (fc_supply fc) a t in
               if publicFloat \<le> 0 then Inl (FailHttp ''OFFERING_NO_FLOAT'' 422)
               else Inr \<lparr>ob_contract = fc, ob_float = publicFloat, ob_supply = fc_supply fc,
                         ob_artist = a, ob_treasury = t\<rparr>
           | _ \<Rightarrow> Inl (FailHttp ''OFFERING_ARTWORK_NOT_FRACTIONALIZED'' 409)))"

lemma resolveOfferableFloat_InrD:
  "resolveOfferableFloat fco = Inr x \<Longrightarrow>
     fco = Some (ob_contract x) \<and> fc_status (ob_contract x) = FC_deployed
     \<and> ob_float x = ob_supply x - ob_artist x - ob_treasury x \<and> 0 < ob_float x
     \<and> ob_supply x = fc_supply (ob_contract x) \<and> fc_artist_retention (ob_contract x) = Some (ob_artist x)
     \<and> fc_treasury_retention (ob_contract x) = Some (ob_treasury x)"
  by (auto simp: resolveOfferableFloat_def computePublicFloat_def Let_def
      split: option.splits if_splits)

end
