(* ===== verification/Relayer.thy ===== *)
theory Relayer
  imports Money
begin

text \<open>
  The relayer's passkey submit paths (\<open>modules/relayer/soroban-relayer.service.ts\<close>:
  \<open>assertBidNotExpired\<close>, \<open>submitSignedBid\<close>, \<open>submitSignedCancelBid\<close> with their polls) and what
  their outcomes say of the chain. The RPC server, the clock, the account lock and the off-chain
  signature verification are the fields of an \<open>attempt\<close>; \<open>RpcError\<close> is a call that rejects or
  exceeds its timeout, which surfaces as an untyped error. \<open>at_lands\<close> is the truth the RPC
  observes: whether the transaction of this attempt is applied successfully.
\<close>

section \<open>Errors and answers\<close>

datatype transfer_reason = Simulation_failed | Expired | Signature_required | Signature_invalid
  | Transfer_failed | Unavailable

datatype relayer_throw = RelayerTransferError transfer_reason | UntypedError

datatype 'a rpc = Rpc 'a | RpcError

fun with_timeout :: "'a rpc \<Rightarrow> relayer_throw + 'a" where
  "with_timeout (Rpc x) = Inr x"
| "with_timeout RpcError = Inl UntypedError"

datatype simulation = Sim_success int | Sim_error

datatype send_status = Send_pending ident | Send_duplicate ident | Send_try_again_later | Send_error bool

datatype tx_status = Tx_not_found | Tx_success int "int option" | Tx_failed

definition EXPIRY_MARGIN_LEDGERS :: int where
  "EXPIRY_MARGIN_LEDGERS = 4"

definition BASE_FEE :: int where
  "BASE_FEE = 100"

definition POLL_INTERVAL_MS :: int where
  "POLL_INTERVAL_MS = 1000"

record attempt =
  at_verify :: "relayer_throw + int"
  at_latest :: "int rpc"
  at_sim :: "simulation rpc"
  at_lock :: bool
  at_send :: "send_status rpc"
  at_start :: instant
  at_clock :: "nat \<Rightarrow> instant"
  at_get :: "nat \<Rightarrow> tx_status rpc"
  at_lands :: bool

record relayer_config =
  rc_max_fee :: int
  rc_submit_timeout :: int

section \<open>The submit path\<close>

text \<open>\<open>malformed\<close> is the parse of the transaction: its expiry ledger, or an error.\<close>

definition assertBidNotExpired :: "int option \<Rightarrow> int rpc \<Rightarrow> relayer_throw + unit" where
  "assertBidNotExpired parsed latest = (case parsed of
     None \<Rightarrow> Inl (RelayerTransferError Signature_invalid)
   | Some expiry \<Rightarrow> bindE (with_timeout latest) (\<lambda>l.
       guardE (\<not> expiry \<le> l + EXPIRY_MARGIN_LEDGERS) (RelayerTransferError Expired)))"

fun classify_send :: "send_status \<Rightarrow> relayer_throw + ident" where
  "classify_send (Send_pending h) = Inr h"
| "classify_send (Send_duplicate h) = Inr h"
| "classify_send Send_try_again_later = Inl (RelayerTransferError Unavailable)"
| "classify_send (Send_error seq) =
     Inl (RelayerTransferError (if seq then Unavailable else Transfer_failed))"

text \<open>Up to the send, under the account lock: the verified, fresh and simulated transaction.\<close>

definition before_send :: "relayer_config \<Rightarrow> attempt \<Rightarrow> relayer_throw + unit" where
  "before_send cfg a =
     bindE (at_verify a) (\<lambda>expiry.
     bindE (with_timeout (at_latest a)) (\<lambda>latest.
     bindE (guardE (\<not> expiry \<le> latest + EXPIRY_MARGIN_LEDGERS) (RelayerTransferError Expired)) (\<lambda>_.
     bindE (with_timeout (at_sim a)) (\<lambda>sim. case sim of
         Sim_error \<Rightarrow> Inl (RelayerTransferError Simulation_failed)
       | Sim_success fee \<Rightarrow>
           bindE (guardE (\<not> fee + BASE_FEE > rc_max_fee cfg) (RelayerTransferError Signature_invalid)) (\<lambda>_.
           guardE (at_lock a) UntypedError)))))"

definition send_tx :: "relayer_config \<Rightarrow> attempt \<Rightarrow> relayer_throw + ident" where
  "send_tx cfg a = bindE (before_send cfg a) (\<lambda>_. bindE (with_timeout (at_send a)) classify_send)"

text \<open>The poll: the n-th \<open>getTransaction\<close>, checked against the deadline at the n-th clock reading.\<close>

partial_function (option) poll_from ::
  "attempt \<Rightarrow> instant \<Rightarrow> (tx_status \<Rightarrow> relayer_throw + 'r) \<Rightarrow> nat \<Rightarrow> (relayer_throw + 'r) option" where
  "poll_from a deadline final n = (case at_get a n of
     RpcError \<Rightarrow> Some (Inl UntypedError)
   | Rpc s \<Rightarrow> if s = Tx_not_found
       then if at_clock a n \<ge> deadline then Some (Inl (RelayerTransferError Unavailable))
            else poll_from a deadline final (Suc n)
       else Some (final s))"

definition bid_final :: "tx_status \<Rightarrow> relayer_throw + int \<times> int" where
  "bid_final s = (case s of Tx_success ledger (Some v) \<Rightarrow> Inr (ledger, v)
     | _ \<Rightarrow> Inl (RelayerTransferError Transfer_failed))"

definition cancel_final :: "tx_status \<Rightarrow> relayer_throw + int" where
  "cancel_final s = (case s of Tx_success ledger _ \<Rightarrow> Inr ledger
     | _ \<Rightarrow> Inl (RelayerTransferError Transfer_failed))"

definition pollForBid :: "relayer_config \<Rightarrow> attempt \<Rightarrow> (relayer_throw + int \<times> int) option" where
  "pollForBid cfg a = poll_from a (at_start a + rc_submit_timeout cfg) bid_final 0"

definition pollForCancel :: "relayer_config \<Rightarrow> attempt \<Rightarrow> (relayer_throw + int) option" where
  "pollForCancel cfg a = poll_from a (at_start a + rc_submit_timeout cfg) cancel_final 0"

text \<open>The results: transaction hash, ledger and, for a bid, the contract's bid id.\<close>

definition submitSignedBid :: "relayer_config \<Rightarrow> attempt \<Rightarrow> (relayer_throw + ident \<times> int \<times> int) option" where
  "submitSignedBid cfg a = (case send_tx cfg a of
     Inl e \<Rightarrow> Some (Inl e)
   | Inr h \<Rightarrow> (case pollForBid cfg a of
       None \<Rightarrow> None
     | Some r \<Rightarrow> Some (bindE r (\<lambda>(ledger, bidId). Inr (h, ledger, bidId)))))"

definition submitSignedCancelBid :: "relayer_config \<Rightarrow> attempt \<Rightarrow> (relayer_throw + ident \<times> int) option" where
  "submitSignedCancelBid cfg a = (case send_tx cfg a of
     Inl e \<Rightarrow> Some (Inl e)
   | Inr h \<Rightarrow> (case pollForCancel cfg a of
       None \<Rightarrow> None
     | Some r \<Rightarrow> Some (bindE r (\<lambda>ledger. Inr (h, ledger)))))"

section \<open>The poll ends\<close>

text \<open>
  \<open>sleep(POLL_INTERVAL_MS)\<close> separates two clock readings, so the deadline is reached after at
  most (deadline - first reading) / interval further calls.
\<close>

definition clock_ticks :: "attempt \<Rightarrow> bool" where
  "clock_ticks a \<longleftrightarrow> at_start a \<le> at_clock a 0 \<and> (\<forall>n. at_clock a n + POLL_INTERVAL_MS \<le> at_clock a (Suc n))"

lemma poll_from_ends:
  assumes "\<And>n. at_clock a n + POLL_INTERVAL_MS \<le> at_clock a (Suc n)"
  shows "\<exists>r. poll_from a deadline final n = Some r"
proof (induction "nat (deadline - at_clock a n)" arbitrary: n rule: less_induct)
  case less
  show ?case
  proof (cases "at_get a n = Rpc Tx_not_found \<and> at_clock a n < deadline")
    case True
    then have "nat (deadline - at_clock a (Suc n)) < nat (deadline - at_clock a n)"
      using assms [of n] by (simp add: POLL_INTERVAL_MS_def)
    from less [OF this] True show ?thesis by (simp add: poll_from.simps [of a deadline final n])
  next
    case False
    then show ?thesis by (auto simp: poll_from.simps [of a deadline final n] split: rpc.splits)
  qed
qed

lemma poll_from_result:
  assumes "poll_from a deadline final n = Some r"
  shows "r \<in> {Inl UntypedError, Inl (RelayerTransferError Unavailable)}
     \<or> (\<exists>m s. at_get a m = Rpc s \<and> s \<noteq> Tx_not_found \<and> r = final s)"
proof (rule poll_from.raw_induct [where P = "\<lambda>a deadline final n r.
      r \<in> {Inl UntypedError, Inl (RelayerTransferError Unavailable)}
      \<or> (\<exists>m s. at_get a m = Rpc s \<and> s \<noteq> Tx_not_found \<and> r = final s)", OF _ assms])
qed (auto split: rpc.splits if_splits)

section \<open>What an outcome says of the chain\<close>

text \<open>
  \<open>landed\<close> is whether an earlier attempt with the same signed authorization was applied. The
  network keeps this contract: a consumed authorization does not simulate again; a transaction
  whose send is refused, or which is found failed, is not applied; one found successful is; one
  that was not sent is not applied. The verifier throws its two
  signature errors or an untyped one (theory \<open>Auth_Verify\<close> says when).
\<close>

definition reaches_send :: "relayer_config \<Rightarrow> attempt \<Rightarrow> bool" where
  "reaches_send cfg a \<longleftrightarrow> before_send cfg a = Inr ()"

definition honest_network :: "relayer_config \<Rightarrow> bool \<Rightarrow> attempt \<Rightarrow> bool" where
  "honest_network cfg landed a \<longleftrightarrow>
     (case at_verify a of Inl e \<Rightarrow> e \<in> {RelayerTransferError Signature_required, RelayerTransferError Signature_invalid, UntypedError}
        | Inr _ \<Rightarrow> True)
     \<and> (\<not> landed \<or> (case at_sim a of Rpc (Sim_success _) \<Rightarrow> False | _ \<Rightarrow> True))
     \<and> (\<not> at_lands a \<or> reaches_send cfg a
           \<and> (case at_send a of Rpc Send_try_again_later \<Rightarrow> False | Rpc (Send_error _) \<Rightarrow> False | _ \<Rightarrow> True))
     \<and> (\<forall>n. case at_get a n of
            Rpc (Tx_success _ v) \<Rightarrow> at_lands a \<and> v \<noteq> None
          | Rpc Tx_failed \<Rightarrow> \<not> at_lands a
          | _ \<Rightarrow> True)"

lemma before_send_Inr:
  "before_send cfg a = Inr u \<Longrightarrow> \<exists>expiry latest fee. at_verify a = Inr expiry \<and> at_latest a = Rpc latest
     \<and> latest + EXPIRY_MARGIN_LEDGERS < expiry \<and> at_sim a = Rpc (Sim_success fee)"
  by (cases "at_latest a"; cases "at_sim a")
    (auto simp: before_send_def err_simps split: simulation.splits)

text \<open>Before the send an attempt fails without touching the chain, and never with \<open>transfer_failed\<close>.\<close>

lemma before_send_Inl:
  assumes "before_send cfg a = Inl e" "honest_network cfg landed a"
  shows "\<not> at_lands a" "e \<notin> {RelayerTransferError Transfer_failed, RelayerTransferError Unavailable}"
proof -
  show "\<not> at_lands a" using assms by (auto simp: honest_network_def reaches_send_def)
  show "e \<notin> {RelayerTransferError Transfer_failed, RelayerTransferError Unavailable}"
    using assms by (cases "at_verify a"; cases "at_latest a"; cases "at_sim a")
      (auto simp: before_send_def honest_network_def guardE_def split: simulation.splits if_splits)
qed

text \<open>An outcome other than unavailable or untyped decides whether the attempt was applied.\<close>

definition sound_outcome :: "bool \<Rightarrow> attempt \<Rightarrow> relayer_throw + 'r \<Rightarrow> bool" where
  "sound_outcome landed a r \<longleftrightarrow> (case r of
      Inr _ \<Rightarrow> \<not> landed \<and> at_lands a
    | Inl (RelayerTransferError Transfer_failed) \<Rightarrow> \<not> landed \<and> \<not> at_lands a
    | Inl (RelayerTransferError Unavailable) \<Rightarrow> True
    | Inl UntypedError \<Rightarrow> True
    | Inl (RelayerTransferError _) \<Rightarrow> \<not> at_lands a)"

lemma send_refused_sound:
  assumes "honest_network cfg landed a" "send_tx cfg a = Inl e"
  shows "sound_outcome landed a (Inl e)"
proof (cases "before_send cfg a")
  case (Inl e')
  then have "e = e'" using assms(2) by (simp add: send_tx_def)
  with before_send_Inl [OF Inl assms(1)] show ?thesis
    by (auto simp: sound_outcome_def split: relayer_throw.splits transfer_reason.splits)
next
  case (Inr u)
  from before_send_Inr [OF Inr] assms(1) have "\<not> landed" by (auto simp: honest_network_def)
  moreover have "e \<in> {UntypedError, RelayerTransferError Unavailable}
      \<or> e = RelayerTransferError Transfer_failed \<and> at_send a = Rpc (Send_error False)"
    using Inr assms(2) by (cases "at_send a")
      (auto simp: send_tx_def elim!: classify_send.elims split: if_splits)
  ultimately show ?thesis using assms(1) by (auto simp: sound_outcome_def honest_network_def)
qed

lemma send_tx_fresh:
  assumes "honest_network cfg landed a" "send_tx cfg a = Inr h"
  shows "\<not> landed"
proof -
  obtain u where "before_send cfg a = Inr u" using assms(2) by (auto simp: send_tx_def err_simps)
  from before_send_Inr [OF this] assms(1) show ?thesis by (auto simp: honest_network_def)
qed

lemma poll_sound:
  assumes "honest_network cfg landed a" "\<not> landed" "poll_from a dl final n = Some r"
    "\<And>ledger v. \<exists>x. final (Tx_success ledger (Some v)) = Inr x"
    "final Tx_failed = Inl (RelayerTransferError Transfer_failed)"
  shows "sound_outcome landed a r"
  using poll_from_result [OF assms(3)]
proof (elim disjE exE conjE)
  assume "r \<in> {Inl UntypedError, Inl (RelayerTransferError Unavailable)}"
  then show ?thesis by (auto simp: sound_outcome_def)
next
  fix m s assume g: "at_get a m = Rpc s" "s \<noteq> Tx_not_found" "r = final s"
  show ?thesis
  proof (cases s)
    case (Tx_success ledger v)
    with g(1) assms(1) have "at_lands a" "v \<noteq> None"
      unfolding honest_network_def by (auto dest!: spec [of _ m])
    moreover then obtain x where "r = Inr x" using g(3) Tx_success assms(4) by (metis not_None_eq)
    ultimately show ?thesis using assms(2) by (simp add: sound_outcome_def)
  next
    case Tx_failed
    with g(1) assms(1) have "\<not> at_lands a" unfolding honest_network_def by (auto dest!: spec [of _ m])
    then show ?thesis using assms(2,5) g(3) Tx_failed by (simp add: sound_outcome_def)
  qed (use g in simp)
qed

lemma sound_outcome_map: "sound_outcome landed a r \<Longrightarrow> sound_outcome landed a (bindE r (\<lambda>x. Inr (f x)))"
  by (cases r) (simp_all add: sound_outcome_def)

theorem submitSignedBid_sound:
  assumes "honest_network cfg landed a" "submitSignedBid cfg a = Some r"
  shows "sound_outcome landed a r"
proof (cases "send_tx cfg a")
  case (Inl e)
  with assms send_refused_sound [OF assms(1) Inl] show ?thesis by (auto simp: submitSignedBid_def sound_outcome_def)
next
  case (Inr h)
  then obtain q where q: "pollForBid cfg a = Some q" "r = bindE q (\<lambda>(l, b). Inr (h, l, b))"
    using assms(2) by (auto simp: submitSignedBid_def split: option.splits)
  have "sound_outcome landed a q"
    using poll_sound [OF assms(1) send_tx_fresh [OF assms(1) Inr] q(1) [unfolded pollForBid_def]]
    by (simp add: bid_final_def)
  with sound_outcome_map [of landed a q "\<lambda>(l, b). (h, l, b)"] show ?thesis
    unfolding q(2) by (simp add: case_prod_unfold)
qed

theorem submitSignedCancelBid_sound:
  assumes "honest_network cfg landed a" "submitSignedCancelBid cfg a = Some r"
  shows "sound_outcome landed a r"
proof (cases "send_tx cfg a")
  case (Inl e)
  with assms send_refused_sound [OF assms(1) Inl] show ?thesis by (auto simp: submitSignedCancelBid_def sound_outcome_def)
next
  case (Inr h)
  then obtain q where q: "pollForCancel cfg a = Some q" "r = bindE q (\<lambda>l. Inr (h, l))"
    using assms(2) by (auto simp: submitSignedCancelBid_def split: option.splits)
  have "sound_outcome landed a q"
    using poll_sound [OF assms(1) send_tx_fresh [OF assms(1) Inr] q(1) [unfolded pollForCancel_def]]
    by (simp add: cancel_final_def)
  with sound_outcome_map [of landed a q "\<lambda>l. (h, l)"] show ?thesis unfolding q(2) by simp
qed

section \<open>The interface the job workers rely on\<close>

text \<open>An error other than unavailable or transfer_failed was raised before the send.\<close>

lemma early_errors:
  assumes "e \<notin> {UntypedError, RelayerTransferError Transfer_failed, RelayerTransferError Unavailable}"
  shows "send_tx cfg a = Inl e \<Longrightarrow> before_send cfg a = Inl e"
    "poll_from a dl bid_final n \<noteq> Some (Inl e)" "poll_from a dl cancel_final n \<noteq> Some (Inl e)"
proof -
  show "before_send cfg a = Inl e" if "send_tx cfg a = Inl e"
    using that assms by (cases "at_send a")
      (auto simp: send_tx_def bindE_Inl elim!: classify_send.elims split: if_splits)
  have "bid_final s \<noteq> Inl e" "cancel_final s \<noteq> Inl e" for s
    using assms by (auto simp: bid_final_def cancel_final_def split: tx_status.splits option.splits)
  then show "poll_from a dl bid_final n \<noteq> Some (Inl e)" "poll_from a dl cancel_final n \<noteq> Some (Inl e)"
    using assms by (auto dest!: poll_from_result) metis+
qed

locale relay_submit =
  fixes submit :: "relayer_config \<Rightarrow> attempt \<Rightarrow> (relayer_throw + 'r) option"
  assumes sound: "honest_network cfg landed a \<Longrightarrow> submit cfg a = Some r \<Longrightarrow> sound_outcome landed a r"
    and early: "submit cfg a = Some (Inl e) \<Longrightarrow> e \<notin> {UntypedError, RelayerTransferError Transfer_failed,
      RelayerTransferError Unavailable} \<Longrightarrow> before_send cfg a = Inl e"
    and total: "clock_ticks a \<Longrightarrow> \<exists>r. submit cfg a = Some r"

text \<open>\<open>within_validity\<close>: the ledger the attempt reads is before the signature's expiry, margin included.\<close>

definition within_validity :: "attempt \<Rightarrow> bool" where
  "within_validity a \<longleftrightarrow> (case (at_verify a, at_latest a) of
     (Inr expiry, Rpc l) \<Rightarrow> l + EXPIRY_MARGIN_LEDGERS < expiry | _ \<Rightarrow> True)"

context relay_submit
begin

lemma provable_not_landed:
  assumes "honest_network cfg landed a" "submit cfg a = Some (Inl (RelayerTransferError r))"
    "r \<in> {Signature_required, Signature_invalid, Expired, Transfer_failed}" "within_validity a"
    "\<And>e. at_verify a = Inl e \<Longrightarrow> \<not> landed"
  shows "\<not> landed \<and> \<not> at_lands a"
proof (cases "r = Transfer_failed")
  case True
  with sound [OF assms(1,2)] show ?thesis by (simp add: sound_outcome_def)
next
  case False
  with assms(2,3) have b: "before_send cfg a = Inl (RelayerTransferError r)" by (auto dest: early)
  have "\<not> landed"
  proof (cases "at_verify a")
    case (Inl e)
    then show ?thesis by (rule assms(5))
  next
    case (Inr expiry)
    with b assms(1,3,4) False show ?thesis
      by (cases "at_latest a"; cases "at_sim a")
        (auto simp: before_send_def guardE_def within_validity_def honest_network_def split: simulation.splits if_splits)
  qed
  with before_send_Inl(1) [OF b assms(1)] show ?thesis by blast
qed

lemma unverified_not_landed: "honest_network cfg landed a \<Longrightarrow> at_verify a = Inl e \<Longrightarrow> \<not> at_lands a"
  by (auto simp: honest_network_def reaches_send_def before_send_def)

end

interpretation signed_bid: relay_submit submitSignedBid
proof
  show "before_send cfg a = Inl e" if "submitSignedBid cfg a = Some (Inl e)"
    "e \<notin> {UntypedError, RelayerTransferError Transfer_failed, RelayerTransferError Unavailable}" for cfg a e
    using that(1) early_errors [OF that(2)]
    by (auto simp: submitSignedBid_def pollForBid_def bindE_Inl split: sum.splits option.splits)
  show "\<exists>r. submitSignedBid cfg a = Some r" if "clock_ticks a" for cfg a
  proof -
    have "at_clock a n + POLL_INTERVAL_MS \<le> at_clock a (Suc n)" for n using that by (simp add: clock_ticks_def)
    then obtain r where "pollForBid cfg a = Some r" unfolding pollForBid_def using poll_from_ends by metis
    then show ?thesis by (simp add: submitSignedBid_def split: sum.splits)
  qed
qed (rule submitSignedBid_sound)

interpretation signed_cancel: relay_submit submitSignedCancelBid
proof
  show "before_send cfg a = Inl e" if "submitSignedCancelBid cfg a = Some (Inl e)"
    "e \<notin> {UntypedError, RelayerTransferError Transfer_failed, RelayerTransferError Unavailable}" for cfg a e
    using that(1) early_errors [OF that(2)]
    by (auto simp: submitSignedCancelBid_def pollForCancel_def bindE_Inl split: sum.splits option.splits)
  show "\<exists>r. submitSignedCancelBid cfg a = Some r" if "clock_ticks a" for cfg a
  proof -
    have "at_clock a n + POLL_INTERVAL_MS \<le> at_clock a (Suc n)" for n using that by (simp add: clock_ticks_def)
    then obtain r where "pollForCancel cfg a = Some r" unfolding pollForCancel_def using poll_from_ends by metis
    then show ?thesis by (simp add: submitSignedCancelBid_def split: sum.splits)
  qed
qed (rule submitSignedCancelBid_sound)

text \<open>
  What a submit's outcome proves. With a clock that advances by the poll interval, both submit
  paths return. On an honest network a success means that this attempt's transaction was applied
  and no earlier one; \<open>transfer_failed\<close> that neither was; a signature, expiry or simulation error that
  this attempt's was not; only \<open>unavailable\<close> and an untyped error leave it open.
\<close>

lemma relayer_outcome_sound:
  assumes "honest_network cfg landed a" "clock_ticks a"
  shows "(\<exists>r. submitSignedBid cfg a = Some r \<and> sound_outcome landed a r)
    \<and> (\<exists>r. submitSignedCancelBid cfg a = Some r \<and> sound_outcome landed a r)"
  using signed_bid.total [OF assms(2)] signed_cancel.total [OF assms(2)]
    signed_bid.sound [OF assms(1)] signed_cancel.sound [OF assms(1)] by metis

end
