(* ===== verification/Offering_DB.thy ===== *)
theory Offering_DB
  imports Prelude "HOL-Library.List_Lexorder" "HOL-Library.Char_ord"
begin

text \<open>
  The tables of a primary offering (\<open>offerings\<close>, \<open>offering_bids\<close>, \<open>offering_approvals\<close>) and
  their repositories (\<open>modules/offerings/repositories\<close>), with the guard trigger and the CHECK
  constraints of migrations 032 to 040 as predicates on rows. A compare-and-set is the
  \<open>UPDATE ... WHERE\<close> of the query builder; it returns whether a row was affected. \<open>now\<close> is the
  database clock of the statement, fresh ids are arguments. The \<open>chk_*\<close> predicates state the
  CHECKs on the modelled columns (the address and hash formats of the text columns are not).
\<close>

section \<open>Rows\<close>

datatype offering_status = O_planned | O_approved | O_opened | O_subscribed | O_settled | O_canceled

datatype escrow_deploy_status = D_deploying | D_deployed | D_failed

datatype bid_status = B_submitted | B_escrowed | B_failed | B_canceling | B_canceled | B_won | B_lost

definition ACTIVE_OFFERING_STATUSES :: "offering_status list" where
  "ACTIVE_OFFERING_STATUSES = [O_planned, O_approved, O_opened, O_subscribed]"

definition ACTIVE_BID_STATUSES :: "bid_status list" where
  "ACTIVE_BID_STATUSES = [B_submitted, B_escrowed, B_canceling]"

definition B_SETTLING_INFLIGHT :: "bid_status list" where
  "B_SETTLING_INFLIGHT = [B_submitted, B_canceling]"

record offering =
  of_id :: ident
  of_artwork :: ident
  of_contract :: ident
  of_status :: offering_status
  of_low :: int
  of_high :: int
  of_float :: int
  of_supply :: int
  of_artist_retention :: int
  of_treasury_retention :: int
  of_open_at :: instant
  of_close_at :: instant
  of_created_by :: ident
  of_deploy :: "escrow_deploy_status option"
  of_escrow :: "ident option"
  of_snapshot_artist :: "ident option"
  of_fail_at :: "instant option"
  of_fail_reason :: "string option"
  of_created :: instant
  of_updated :: instant
  of_deleted :: "instant option"

record offering_bid =
  bd_id :: ident
  bd_offering :: ident
  bd_sub :: ident
  bd_wallet :: ident
  bd_price :: int
  bd_count :: int
  bd_status :: bid_status
  bd_chain :: "int option"
  bd_escrow_tx :: "ident option"
  bd_refund_tx :: "ident option"
  bd_canceled_at :: "instant option"
  bd_alloc :: "int option"
  bd_settle_refund :: "int option"
  bd_idem :: ident
  bd_created :: instant
  bd_updated :: instant
  bd_deleted :: "instant option"

text \<open>The STORED generated column.\<close>

definition bd_escrow_amount :: "offering_bid \<Rightarrow> int" where
  "bd_escrow_amount b = bd_price b * bd_count b"

record offering_approval =
  ap_offering :: ident
  ap_admin :: ident
  ap_created :: instant
  ap_updated :: instant
  ap_deleted :: "instant option"

section \<open>OfferingRepository\<close>

definition findActiveByArtworkId :: "ident \<Rightarrow> offering list \<Rightarrow> offering option" where
  "findActiveByArtworkId artwork t = sql_find (\<lambda>r. of_artwork r = artwork
     \<and> of_status r \<in> set ACTIVE_OFFERING_STATUSES \<and> of_deleted r = None) t"

text \<open>\<open>findOneById\<close>: TypeORM leaves soft-deleted rows out of its reads.\<close>

definition find_offering :: "ident \<Rightarrow> offering list \<Rightarrow> offering option" where
  "find_offering i t = sql_find (\<lambda>r. of_id r = i \<and> of_deleted r = None) t"

definition casEscrowDeploying :: "instant \<Rightarrow> ident \<Rightarrow> offering list \<Rightarrow> offering list \<times> bool" where
  "casEscrowDeploying now i = cas_rows
     (\<lambda>r. of_id r = i \<and> of_status r = O_planned \<and> (of_deploy r = None \<or> of_deploy r = Some D_failed))
     (\<lambda>r. r\<lparr>of_deploy := Some D_deploying, of_updated := now\<rparr>)"

definition casEscrowDeployed :: "instant \<Rightarrow> ident \<Rightarrow> ident \<Rightarrow> offering list \<Rightarrow> offering list \<times> bool" where
  "casEscrowDeployed now i address = cas_rows
     (\<lambda>r. of_id r = i \<and> of_deploy r = Some D_deploying \<and> of_status r = O_planned)
     (\<lambda>r. r\<lparr>of_deploy := Some D_deployed, of_escrow := Some address, of_status := O_approved,
            of_updated := now\<rparr>)"

definition casEscrowFailed :: "instant \<Rightarrow> ident \<Rightarrow> offering list \<Rightarrow> offering list \<times> bool" where
  "casEscrowFailed now i = cas_rows
     (\<lambda>r. of_id r = i \<and> of_deploy r = Some D_deploying)
     (\<lambda>r. r\<lparr>of_deploy := Some D_failed, of_updated := now\<rparr>)"

definition casOpened :: "instant \<Rightarrow> ident \<Rightarrow> offering list \<Rightarrow> offering list \<times> bool" where
  "casOpened now i = cas_rows
     (\<lambda>r. of_id r = i \<and> of_status r = O_approved \<and> of_open_at r \<le> now \<and> now < of_close_at r)
     (\<lambda>r. r\<lparr>of_status := O_opened, of_updated := now\<rparr>)"

definition casSubscribed :: "instant \<Rightarrow> ident \<Rightarrow> offering list \<Rightarrow> offering list \<times> bool" where
  "casSubscribed now i = cas_rows
     (\<lambda>r. of_id r = i \<and> of_status r = O_opened \<and> of_close_at r \<le> now)
     (\<lambda>r. r\<lparr>of_status := O_subscribed, of_updated := now\<rparr>)"

definition casSettled :: "instant \<Rightarrow> ident \<Rightarrow> offering list \<Rightarrow> offering list \<times> bool" where
  "casSettled now i = cas_rows
     (\<lambda>r. of_id r = i \<and> of_status r = O_subscribed)
     (\<lambda>r. r\<lparr>of_status := O_settled, of_fail_at := None, of_fail_reason := None, of_updated := now\<rparr>)"

definition setSettleFailureStamp ::
  "instant \<Rightarrow> ident \<Rightarrow> string option \<Rightarrow> offering list \<Rightarrow> offering list \<times> bool" where
  "setSettleFailureStamp now i reason = cas_rows
     (\<lambda>r. of_id r = i \<and> of_status r = O_subscribed \<and> (reason \<noteq> None \<or> of_fail_at r \<noteq> None))
     (\<lambda>r. r\<lparr>of_fail_at := (case reason of None \<Rightarrow> None | Some _ \<Rightarrow> Some now),
            of_fail_reason := reason, of_updated := now\<rparr>)"

definition findStaleSubscribed :: "instant \<Rightarrow> int \<Rightarrow> nat \<Rightarrow> offering list \<Rightarrow> offering list" where
  "findStaleSubscribed now grace batch t = take batch (sort_key of_updated
     (filter (\<lambda>r. of_status r = O_subscribed \<and> of_fail_at r = None
        \<and> of_updated r < now - grace \<and> of_deleted r = None) t))"

definition setSnapshotArtistAddress :: "instant \<Rightarrow> ident \<Rightarrow> ident \<Rightarrow> offering list \<Rightarrow> offering list" where
  "setSnapshotArtistAddress now i addr t = fst (sql_update (\<lambda>r. of_id r = i)
     (\<lambda>r. r\<lparr>of_snapshot_artist := Some addr, of_updated := now\<rparr>) t)"

definition findDueForOpen :: "instant \<Rightarrow> nat \<Rightarrow> offering list \<Rightarrow> offering list" where
  "findDueForOpen now batch t = take batch (sort_key of_open_at
     (filter (\<lambda>r. of_status r = O_approved \<and> of_open_at r \<le> now \<and> now < of_close_at r
        \<and> of_deleted r = None) t))"

definition findStaleDeploying :: "instant \<Rightarrow> int \<Rightarrow> nat \<Rightarrow> offering list \<Rightarrow> offering list" where
  "findStaleDeploying now grace batch t = take batch (sort_key of_updated
     (filter (\<lambda>r. of_deploy r = Some D_deploying \<and> of_updated r < now - grace \<and> of_deleted r = None) t))"

definition listForBackoffice ::
  "offering_status list \<Rightarrow> ident option \<Rightarrow> nat \<Rightarrow> nat \<Rightarrow> offering list \<Rightarrow> offering list \<times> nat" where
  "listForBackoffice statuses artwork page limit t =
     (let rows = filter (\<lambda>r. of_status r \<in> set statuses \<and> of_deleted r = None
                   \<and> (case artwork of None \<Rightarrow> True | Some a \<Rightarrow> of_artwork r = a)) t
      in (take limit (drop ((page - 1) * limit) (sort_key (\<lambda>r. - of_created r) rows)), length rows))"

section \<open>OfferingBidRepository\<close>

record new_bid =
  nb_offering :: ident
  nb_sub :: ident
  nb_wallet :: ident
  nb_price :: int
  nb_count :: int
  nb_idem :: ident

text \<open>The two partial unique indexes, as migration 037 leaves them.\<close>

definition idem_statuses :: "bid_status list" where
  "idem_statuses = [B_submitted, B_escrowed, B_canceling, B_canceled]"

definition bid_conflict :: "new_bid \<Rightarrow> offering_bid \<Rightarrow> bool" where
  "bid_conflict n b \<longleftrightarrow> bd_deleted b = None \<and>
     ((bd_offering b = nb_offering n \<and> bd_sub b = nb_sub n \<and> bd_status b \<in> set ACTIVE_BID_STATUSES)
      \<or> (bd_idem b = nb_idem n \<and> bd_status b \<in> set idem_statuses))"

definition submitted_row :: "instant \<Rightarrow> ident \<Rightarrow> new_bid \<Rightarrow> offering_bid" where
  "submitted_row now i n = \<lparr>bd_id = i, bd_offering = nb_offering n, bd_sub = nb_sub n,
     bd_wallet = nb_wallet n, bd_price = nb_price n, bd_count = nb_count n, bd_status = B_submitted,
     bd_chain = None, bd_escrow_tx = None, bd_refund_tx = None, bd_canceled_at = None, bd_alloc = None,
     bd_settle_refund = None, bd_idem = nb_idem n, bd_created = now, bd_updated = now, bd_deleted = None\<rparr>"

definition insertSubmitted ::
  "instant \<Rightarrow> ident \<Rightarrow> new_bid \<Rightarrow> offering_bid list \<Rightarrow> offering_bid option \<times> offering_bid list" where
  "insertSubmitted now i n t =
     (if list_ex (bid_conflict n) t then (None, t)
      else (Some (submitted_row now i n), t @ [submitted_row now i n]))"

definition find_bid :: "ident \<Rightarrow> offering_bid list \<Rightarrow> offering_bid option" where
  "find_bid i t = sql_find (\<lambda>b. bd_id b = i \<and> bd_deleted b = None) t"

definition casEscrowed ::
  "instant \<Rightarrow> ident \<Rightarrow> int \<Rightarrow> ident \<Rightarrow> offering_bid list \<Rightarrow> offering_bid list \<times> bool" where
  "casEscrowed now i chain tx = cas_rows
     (\<lambda>b. bd_id b = i \<and> bd_status b = B_submitted)
     (\<lambda>b. b\<lparr>bd_status := B_escrowed, bd_chain := Some chain, bd_escrow_tx := Some tx, bd_updated := now\<rparr>)"

definition casFailed :: "instant \<Rightarrow> ident \<Rightarrow> offering_bid list \<Rightarrow> offering_bid list \<times> bool" where
  "casFailed now i = cas_rows
     (\<lambda>b. bd_id b = i \<and> bd_status b = B_submitted)
     (\<lambda>b. b\<lparr>bd_status := B_failed, bd_updated := now\<rparr>)"

definition casCanceling :: "instant \<Rightarrow> ident \<Rightarrow> offering_bid list \<Rightarrow> offering_bid list \<times> bool" where
  "casCanceling now i = cas_rows
     (\<lambda>b. bd_id b = i \<and> bd_status b = B_escrowed)
     (\<lambda>b. b\<lparr>bd_status := B_canceling, bd_updated := now\<rparr>)"

definition casCanceled ::
  "instant \<Rightarrow> ident \<Rightarrow> ident \<Rightarrow> offering_bid list \<Rightarrow> offering_bid list \<times> bool" where
  "casCanceled now i tx = cas_rows
     (\<lambda>b. bd_id b = i \<and> bd_status b = B_canceling)
     (\<lambda>b. b\<lparr>bd_status := B_canceled, bd_refund_tx := Some tx, bd_canceled_at := Some now, bd_updated := now\<rparr>)"

definition casCancelFailedBackToEscrowed ::
  "instant \<Rightarrow> ident \<Rightarrow> offering_bid list \<Rightarrow> offering_bid list \<times> bool" where
  "casCancelFailedBackToEscrowed now i = cas_rows
     (\<lambda>b. bd_id b = i \<and> bd_status b = B_canceling)
     (\<lambda>b. b\<lparr>bd_status := B_escrowed, bd_updated := now\<rparr>)"

definition findMyActiveBid :: "ident \<Rightarrow> ident \<Rightarrow> offering_bid list \<Rightarrow> offering_bid option" where
  "findMyActiveBid off sub t = sql_find (\<lambda>b. bd_offering b = off \<and> bd_sub b = sub
     \<and> bd_status b \<in> set ACTIVE_BID_STATUSES \<and> bd_deleted b = None) t"

definition listBidsForClearing :: "ident \<Rightarrow> offering_bid list \<Rightarrow> offering_bid list" where
  "listBidsForClearing off t = sort_key (\<lambda>b. (- bd_price b, bd_created b, bd_id b))
     (filter (\<lambda>b. bd_offering b = off \<and> bd_status b = B_escrowed \<and> bd_deleted b = None) t)"

definition countInflight :: "ident \<Rightarrow> offering_bid list \<Rightarrow> nat" where
  "countInflight off t = sql_count (\<lambda>b. bd_offering b = off
     \<and> bd_status b \<in> set B_SETTLING_INFLIGHT \<and> bd_deleted b = None) t"

definition countActiveForOffering :: "ident \<Rightarrow> offering_bid list \<Rightarrow> nat" where
  "countActiveForOffering off t = sql_count (\<lambda>b. bd_offering b = off
     \<and> bd_status b \<in> set ACTIVE_BID_STATUSES \<and> bd_deleted b = None) t"

definition casWon ::
  "instant \<Rightarrow> ident \<Rightarrow> int \<Rightarrow> int \<Rightarrow> offering_bid list \<Rightarrow> offering_bid list \<times> bool" where
  "casWon now i allocated refund = cas_rows
     (\<lambda>b. bd_id b = i \<and> bd_status b = B_escrowed)
     (\<lambda>b. b\<lparr>bd_status := B_won, bd_alloc := Some allocated, bd_settle_refund := Some refund,
            bd_updated := now\<rparr>)"

definition flipRemainingEscrowedToLost ::
  "instant \<Rightarrow> ident \<Rightarrow> offering_bid list \<Rightarrow> offering_bid list \<times> nat" where
  "flipRemainingEscrowedToLost now off = sql_update
     (\<lambda>b. bd_offering b = off \<and> bd_status b = B_escrowed \<and> bd_deleted b = None)
     (\<lambda>b. b\<lparr>bd_status := B_lost, bd_alloc := Some 0, bd_settle_refund := Some (bd_escrow_amount b),
            bd_updated := now\<rparr>)"

definition findMyLatestBid :: "ident \<Rightarrow> ident \<Rightarrow> offering_bid list \<Rightarrow> offering_bid option" where
  "findMyLatestBid off sub t =
     (case rev (sort_key (\<lambda>b. (bd_created b, bd_id b))
            (filter (\<lambda>b. bd_offering b = off \<and> bd_sub b = sub \<and> bd_deleted b = None) t)) of
        [] \<Rightarrow> None | b # _ \<Rightarrow> Some b)"

definition findSettledWinnerSubsForArtwork ::
  "ident \<Rightarrow> ident \<Rightarrow> offering list \<Rightarrow> offering_bid list \<Rightarrow> ident list" where
  "findSettledWinnerSubsForArtwork artwork exclude os bs = sort (remdups (map bd_sub
     (filter (\<lambda>b. bd_status b = B_won \<and> (case bd_alloc b of None \<Rightarrow> False | Some a \<Rightarrow> a > 0)
        \<and> bd_deleted b = None \<and> bd_sub b \<noteq> exclude
        \<and> list_ex (\<lambda>r. of_id r = bd_offering b \<and> of_artwork r = artwork \<and> of_deleted r = None) os) bs)))"

section \<open>OfferingApprovalRepository\<close>

definition insertSignature :: "instant \<Rightarrow> ident \<Rightarrow> ident \<Rightarrow> offering_approval list \<Rightarrow> offering_approval list" where
  "insertSignature now off admin t =
     (if list_ex (\<lambda>a. ap_offering a = off \<and> ap_admin a = admin \<and> ap_deleted a = None) t then t
      else t @ [\<lparr>ap_offering = off, ap_admin = admin, ap_created = now, ap_updated = now, ap_deleted = None\<rparr>])"

definition countLiveSigners :: "ident \<Rightarrow> ident list \<Rightarrow> offering_approval list \<Rightarrow> nat" where
  "countLiveSigners off roster t =
     sql_count (\<lambda>a. ap_offering a = off \<and> ap_admin a \<in> set roster \<and> ap_deleted a = None) t"

definition softDeleteAllForOffering :: "instant \<Rightarrow> ident \<Rightarrow> offering_approval list \<Rightarrow> offering_approval list" where
  "softDeleteAllForOffering now off t = fst (sql_update
     (\<lambda>a. ap_offering a = off \<and> ap_deleted a = None) (\<lambda>a. a\<lparr>ap_deleted := Some now, ap_updated := now\<rparr>) t)"

text \<open>\<open>GROUP BY offering ORDER BY MIN(created_at) LIMIT batch\<close>.\<close>

definition expired_rows :: "instant \<Rightarrow> int \<Rightarrow> offering list \<Rightarrow> offering_approval list \<Rightarrow> offering_approval list" where
  "expired_rows now ttl os t = filter (\<lambda>a. ap_deleted a = None \<and> ap_created a < now - ttl
     \<and> list_ex (\<lambda>r. of_id r = ap_offering a \<and> of_status r = O_planned \<and> of_deploy r = None
                  \<and> of_deleted r = None) os) t"

definition findExpiredOfferingIds ::
  "instant \<Rightarrow> int \<Rightarrow> nat \<Rightarrow> offering list \<Rightarrow> offering_approval list \<Rightarrow> ident list" where
  "findExpiredOfferingIds now ttl batch os t =
     take batch (rev (remdups (rev (map ap_offering (sort_key ap_created (expired_rows now ttl os t))))))"

text \<open>One offering's entry of the summary map: the roster count and whether the caller signed.\<close>

definition approvalSummaryFor ::
  "ident \<Rightarrow> ident list \<Rightarrow> ident \<Rightarrow> offering_approval list \<Rightarrow> (nat \<times> bool) option" where
  "approvalSummaryFor off roster caller t =
     (let rows = filter (\<lambda>a. ap_offering a = off \<and> ap_deleted a = None) t
      in if rows = [] then None
         else Some (sql_count (\<lambda>a. ap_admin a \<in> set roster) rows, list_ex (\<lambda>a. ap_admin a = caller) rows))"

end
