(* ===== verification/Offering_Guard.thy ===== *)
theory Offering_Guard
  imports Offering_DB Clearing
begin

text \<open>
  The compare-and-set latches of the offering repositories share one contract, the locale
  \<open>cas_latch\<close>; each repository operation is an interpretation of it. The trigger
  \<open>fn_offering_bids_guard\<close> (migration 038) and the CHECK constraints are predicates, and the
  bid table's step relation shows that no repository operation is ever rejected by them.
\<close>

section \<open>The latch interface\<close>

locale cas_latch =
  fixes cas :: "'r list \<Rightarrow> 'r list \<times> bool"
    and hit :: "'r \<Rightarrow> bool"
    and upd :: "'r \<Rightarrow> 'r"
  assumes cas_eq: "cas t = cas_rows hit upd t"
    and spent: "hit r \<Longrightarrow> \<not> hit (upd r)"
begin

lemma rows: "fst (cas t) = map (\<lambda>r. if hit r then upd r else r) t"
  by (simp add: cas_eq sql_simps)

lemma won: "snd (cas t) \<longleftrightarrow> (\<exists>r \<in> set t. hit r)"
  by (simp add: cas_eq sql_simps)

lemma lost: "\<not> snd (cas t) \<Longrightarrow> fst (cas t) = t"
  by (simp add: cas_eq cas_rows_lost)

lemma second_loses: "\<not> snd (cas (fst (cas t)))"
  by (auto simp: won rows spent)

lemma idem: "fst (cas (fst (cas t))) = fst (cas t)"
  by (rule lost) (rule second_loses)

lemma frame: "r \<in> set t \<Longrightarrow> \<not> hit r \<Longrightarrow> r \<in> set (fst (cas t))"
  by (auto simp: rows)

lemma preserves:
  "(\<And>r. r \<in> set t \<Longrightarrow> I r) \<Longrightarrow> (\<And>r. r \<in> set t \<Longrightarrow> hit r \<Longrightarrow> I r \<Longrightarrow> I (upd r))
   \<Longrightarrow> r' \<in> set (fst (cas t)) \<Longrightarrow> I r'"
  by (auto simp: rows split: if_splits)

lemma keeps_map:
  "(\<And>r. r \<in> set t \<Longrightarrow> hit r \<Longrightarrow> f (upd r) = f r) \<Longrightarrow> map f (fst (cas t)) = map f t"
  by (auto simp: rows)

end

text \<open>A latch whose rows have a key: it moves at most the row of its key.\<close>

locale keyed_latch = cas_latch cas hit upd
  for cas :: "'r list \<Rightarrow> 'r list \<times> bool" and hit upd +
  fixes key :: "'r \<Rightarrow> 'k" and i :: 'k
  assumes hit_key: "hit r \<Longrightarrow> key r = i"
    and upd_key: "key (upd r) = key r"
begin

lemma keys: "map key (fst (cas t)) = map key t"
  by (rule keeps_map) (rule upd_key)

lemma other_rows: "filter (\<lambda>r. key r \<noteq> i) (fst (cas t)) = filter (\<lambda>r. key r \<noteq> i) t"
  by (induction t) (auto simp: rows upd_key dest: hit_key)

end

section \<open>The latches of \<open>OfferingRepository\<close> and \<open>OfferingBidRepository\<close>\<close>

lemmas latch_defs = casEscrowDeploying_def casEscrowDeployed_def casEscrowFailed_def casOpened_def
  casSubscribed_def casSettled_def casEscrowed_def casFailed_def casCanceling_def casCanceled_def
  casCancelFailedBackToEscrowed_def casWon_def

interpretation deploying: keyed_latch "casEscrowDeploying now i"
  "\<lambda>r. of_id r = i \<and> of_status r = O_planned \<and> (of_deploy r = None \<or> of_deploy r = Some D_failed)"
  "\<lambda>r. r\<lparr>of_deploy := Some D_deploying, of_updated := now\<rparr>" of_id i for now i
  by unfold_locales (auto simp: latch_defs)

interpretation deployed: keyed_latch "casEscrowDeployed now i addr"
  "\<lambda>r. of_id r = i \<and> of_deploy r = Some D_deploying \<and> of_status r = O_planned"
  "\<lambda>r. r\<lparr>of_deploy := Some D_deployed, of_escrow := Some addr, of_status := O_approved, of_updated := now\<rparr>"
  of_id i for now i addr
  by unfold_locales (auto simp: latch_defs)

interpretation deploy_failed: keyed_latch "casEscrowFailed now i"
  "\<lambda>r. of_id r = i \<and> of_deploy r = Some D_deploying"
  "\<lambda>r. r\<lparr>of_deploy := Some D_failed, of_updated := now\<rparr>" of_id i for now i
  by unfold_locales (auto simp: latch_defs)

interpretation opened: keyed_latch "casOpened now i"
  "\<lambda>r. of_id r = i \<and> of_status r = O_approved \<and> of_open_at r \<le> now \<and> now < of_close_at r"
  "\<lambda>r. r\<lparr>of_status := O_opened, of_updated := now\<rparr>" of_id i for now i
  by unfold_locales (auto simp: latch_defs)

interpretation subscribed: keyed_latch "casSubscribed now i"
  "\<lambda>r. of_id r = i \<and> of_status r = O_opened \<and> of_close_at r \<le> now"
  "\<lambda>r. r\<lparr>of_status := O_subscribed, of_updated := now\<rparr>" of_id i for now i
  by unfold_locales (auto simp: latch_defs)

interpretation settled: keyed_latch "casSettled now i"
  "\<lambda>r. of_id r = i \<and> of_status r = O_subscribed"
  "\<lambda>r. r\<lparr>of_status := O_settled, of_fail_at := None, of_fail_reason := None, of_updated := now\<rparr>" of_id i
  for now i
  by unfold_locales (auto simp: latch_defs)

interpretation escrowed: keyed_latch "casEscrowed now i chain tx"
  "\<lambda>b. bd_id b = i \<and> bd_status b = B_submitted"
  "\<lambda>b. b\<lparr>bd_status := B_escrowed, bd_chain := Some chain, bd_escrow_tx := Some tx, bd_updated := now\<rparr>"
  bd_id i for now i chain tx
  by unfold_locales (auto simp: latch_defs)

interpretation failed: keyed_latch "casFailed now i"
  "\<lambda>b. bd_id b = i \<and> bd_status b = B_submitted" "\<lambda>b. b\<lparr>bd_status := B_failed, bd_updated := now\<rparr>" bd_id i
  for now i
  by unfold_locales (auto simp: latch_defs)

interpretation canceling: keyed_latch "casCanceling now i"
  "\<lambda>b. bd_id b = i \<and> bd_status b = B_escrowed" "\<lambda>b. b\<lparr>bd_status := B_canceling, bd_updated := now\<rparr>" bd_id i
  for now i
  by unfold_locales (auto simp: latch_defs)

interpretation canceled: keyed_latch "casCanceled now i tx"
  "\<lambda>b. bd_id b = i \<and> bd_status b = B_canceling"
  "\<lambda>b. b\<lparr>bd_status := B_canceled, bd_refund_tx := Some tx, bd_canceled_at := Some now, bd_updated := now\<rparr>"
  bd_id i for now i tx
  by unfold_locales (auto simp: latch_defs)

interpretation cancel_reverted: keyed_latch "casCancelFailedBackToEscrowed now i"
  "\<lambda>b. bd_id b = i \<and> bd_status b = B_canceling" "\<lambda>b. b\<lparr>bd_status := B_escrowed, bd_updated := now\<rparr>" bd_id i
  for now i
  by unfold_locales (auto simp: latch_defs)

interpretation won: keyed_latch "casWon now i a f"
  "\<lambda>b. bd_id b = i \<and> bd_status b = B_escrowed"
  "\<lambda>b. b\<lparr>bd_status := B_won, bd_alloc := Some a, bd_settle_refund := Some f, bd_updated := now\<rparr>" bd_id i
  for now i a f
  by unfold_locales (auto simp: latch_defs)

section \<open>The guard trigger and the CHECK constraints of the bid table\<close>

definition write_once :: "'a option \<Rightarrow> 'a option \<Rightarrow> bool" where
  "write_once old new = (old = None \<or> new = old)"

definition bid_transition :: "bid_status \<Rightarrow> bid_status \<Rightarrow> bool" where
  "bid_transition old new \<longleftrightarrow> old = new
     \<or> (old = B_submitted \<and> new \<in> {B_escrowed, B_failed})
     \<or> (old = B_escrowed \<and> new \<in> {B_canceling, B_won, B_lost})
     \<or> (old = B_canceling \<and> new \<in> {B_canceled, B_escrowed})"

definition bid_guard :: "offering_bid \<Rightarrow> offering_bid \<Rightarrow> bool" where
  "bid_guard old new \<longleftrightarrow>
     bd_id new = bd_id old \<and> bd_offering new = bd_offering old \<and> bd_sub new = bd_sub old
     \<and> bd_wallet new = bd_wallet old \<and> bd_price new = bd_price old \<and> bd_count new = bd_count old
     \<and> bd_idem new = bd_idem old \<and> bd_created new = bd_created old
     \<and> bd_deleted old = None \<and> bid_transition (bd_status old) (bd_status new)
     \<and> write_once (bd_chain old) (bd_chain new) \<and> write_once (bd_escrow_tx old) (bd_escrow_tx new)
     \<and> write_once (bd_refund_tx old) (bd_refund_tx new)
     \<and> write_once (bd_canceled_at old) (bd_canceled_at new)
     \<and> write_once (bd_alloc old) (bd_alloc new)
     \<and> write_once (bd_settle_refund old) (bd_settle_refund new)"

definition chk_bid_money :: "offering_bid \<Rightarrow> bool" where
  "chk_bid_money b \<longleftrightarrow> 0 < bd_price b \<and> bd_price b \<le> MAX_STROOPS \<and> 0 < bd_count b
     \<and> bd_count b \<le> MAX_STROOPS \<and> bd_escrow_amount b \<le> MAX_STROOPS"

definition chk_bid_escrow :: "offering_bid \<Rightarrow> bool" where
  "chk_bid_escrow b \<longleftrightarrow> (case bd_chain b of None \<Rightarrow> True | Some c \<Rightarrow> 0 < c)
     \<and> (bd_status b \<noteq> B_escrowed \<or> bd_chain b \<noteq> None \<and> bd_escrow_tx b \<noteq> None)
     \<and> (bd_status b \<notin> {B_submitted, B_failed} \<or> bd_chain b = None \<and> bd_escrow_tx b = None)"

definition chk_bid_refund :: "offering_bid \<Rightarrow> bool" where
  "chk_bid_refund b \<longleftrightarrow>
     (bd_status b \<noteq> B_canceled \<or> bd_refund_tx b \<noteq> None \<and> bd_canceled_at b \<noteq> None)
     \<and> (bd_status b = B_canceled \<or> bd_refund_tx b = None \<and> bd_canceled_at b = None)"

definition chk_bid_settle :: "offering_bid \<Rightarrow> bool" where
  "chk_bid_settle b \<longleftrightarrow>
     (bd_status b \<notin> {B_won, B_lost} \<or> bd_alloc b \<noteq> None \<and> bd_settle_refund b \<noteq> None)
     \<and> (bd_status b \<in> {B_won, B_lost} \<or> bd_alloc b = None \<and> bd_settle_refund b = None)
     \<and> (bd_status b \<noteq> B_won \<or> (case bd_alloc b of None \<Rightarrow> True | Some a \<Rightarrow> 0 < a \<and> a \<le> bd_count b))
     \<and> (bd_status b \<noteq> B_lost \<or> (case bd_alloc b of None \<Rightarrow> True | Some a \<Rightarrow> a = 0))
     \<and> (case bd_settle_refund b of None \<Rightarrow> True | Some f \<Rightarrow> f \<le> MAX_STROOPS)"

definition chk_bid :: "offering_bid \<Rightarrow> bool" where
  "chk_bid b \<longleftrightarrow> chk_bid_money b \<and> chk_bid_escrow b \<and> chk_bid_refund b \<and> chk_bid_settle b"

lemmas chk_bid_defs = chk_bid_def chk_bid_money_def chk_bid_escrow_def chk_bid_refund_def chk_bid_settle_def
lemmas bid_guard_defs = bid_guard_def bid_transition_def write_once_def

text \<open>\<open>CHECK\<close>s, primary key and the two partial unique indexes of the whole table.\<close>

definition active_bid :: "offering_bid \<Rightarrow> bool" where
  "active_bid b \<longleftrightarrow> bd_status b \<in> set ACTIVE_BID_STATUSES \<and> bd_deleted b = None"

definition idem_bid :: "offering_bid \<Rightarrow> bool" where
  "idem_bid b \<longleftrightarrow> bd_status b \<in> set idem_statuses \<and> bd_deleted b = None"

text \<open>Beyond the CHECKs: a bid that left \<open>submitted\<close> for the chain keeps its escrow stamps.\<close>

definition bid_stamped :: "offering_bid \<Rightarrow> bool" where
  "bid_stamped b \<longleftrightarrow> bd_status b \<in> {B_submitted, B_failed} \<or> bd_chain b \<noteq> None \<and> bd_escrow_tx b \<noteq> None"

definition bid_wf :: "offering_bid \<Rightarrow> bool" where
  "bid_wf b \<longleftrightarrow> chk_bid b \<and> bid_stamped b \<and> bd_deleted b = None"

lemmas bid_wf_defs = bid_wf_def bid_stamped_def chk_bid_defs

definition bids_inv :: "offering_bid list \<Rightarrow> bool" where
  "bids_inv t \<longleftrightarrow> distinct (map bd_id t) \<and> (\<forall>b \<in> set t. bid_wf b)
     \<and> (\<forall>b \<in> set t. \<forall>c \<in> set t. active_bid b \<and> active_bid c \<and> bd_offering b = bd_offering c
           \<and> bd_sub b = bd_sub c \<longrightarrow> bd_id b = bd_id c)
     \<and> (\<forall>b \<in> set t. \<forall>c \<in> set t. idem_bid b \<and> idem_bid c \<and> bd_idem b = bd_idem c \<longrightarrow> bd_id b = bd_id c)"

lemma bids_invD:
  assumes "bids_inv t"
  shows "distinct (map bd_id t)" "b \<in> set t \<Longrightarrow> bid_wf b"
    "b \<in> set t \<Longrightarrow> c \<in> set t \<Longrightarrow> active_bid b \<Longrightarrow> active_bid c \<Longrightarrow> bd_offering b = bd_offering c
      \<Longrightarrow> bd_sub b = bd_sub c \<Longrightarrow> bd_id b = bd_id c"
    "b \<in> set t \<Longrightarrow> c \<in> set t \<Longrightarrow> idem_bid b \<Longrightarrow> idem_bid c \<Longrightarrow> bd_idem b = bd_idem c \<Longrightarrow> bd_id b = bd_id c"
  using assms unfolding bids_inv_def by blast+

text \<open>A move the guard admits never enters the active or the dedupe set from outside it.\<close>

lemma guard_mono:
  assumes "bid_guard b c"
  shows "active_bid c \<Longrightarrow> active_bid b" "idem_bid c \<Longrightarrow> idem_bid b"
  using assms by (auto simp: bid_guard_defs active_bid_def idem_bid_def ACTIVE_BID_STATUSES_def idem_statuses_def)

lemma move_keeps:
  assumes "P b \<Longrightarrow> bid_guard b (f b) \<and> bid_wf (f b)" "bid_wf b"
  defines "c \<equiv> if P b then f b else b"
  shows "bd_id c = bd_id b" "bd_offering c = bd_offering b" "bd_sub c = bd_sub b" "bd_idem c = bd_idem b"
    "active_bid c \<Longrightarrow> active_bid b" "idem_bid c \<Longrightarrow> idem_bid b" "bid_wf c"
proof -
  have g: "c = b \<or> bid_guard b c" and "bid_wf c" using assms by (auto simp: c_def)
  then show "bid_wf c" by simp
  show "bd_id c = bd_id b" "bd_offering c = bd_offering b" "bd_sub c = bd_sub b" "bd_idem c = bd_idem b"
    using g by (auto simp: bid_guard_def)
  show "active_bid c \<Longrightarrow> active_bid b" "idem_bid c \<Longrightarrow> idem_bid b"
    using g guard_mono by blast+
qed

lemma bids_inv_moves:
  assumes inv: "bids_inv t"
    and mv: "\<And>b. b \<in> set t \<Longrightarrow> P b \<Longrightarrow> bid_guard b (f b) \<and> bid_wf (f b)"
  shows "bids_inv (map (\<lambda>b. if P b then f b else b) t)"
proof -
  let ?g = "\<lambda>b. if P b then f b else b"
  note D = bids_invD [OF inv]
  have key: "bd_id (?g b) = bd_id b" "bd_offering (?g b) = bd_offering b" "bd_sub (?g b) = bd_sub b"
    "bd_idem (?g b) = bd_idem b" "active_bid (?g b) \<Longrightarrow> active_bid b" "idem_bid (?g b) \<Longrightarrow> idem_bid b"
    "bid_wf (?g b)" if "b \<in> set t" for b
    using move_keeps [of P b f] mv [OF that] D(2) [OF that] by blast+
  have "map bd_id (map ?g t) = map bd_id t" using key(1) by auto
  then have "distinct (map bd_id (map ?g t))" using D(1) by metis
  moreover have "bd_id (?g b) = bd_id (?g c)"
    if "b \<in> set t" "c \<in> set t" "active_bid (?g b)" "active_bid (?g c)" "bd_offering (?g b) = bd_offering (?g c)"
      "bd_sub (?g b) = bd_sub (?g c)" for b c
    using D(3) [OF that(1,2)] key [OF that(1)] key [OF that(2)] that(3-6) by metis
  moreover have "bd_id (?g b) = bd_id (?g c)"
    if "b \<in> set t" "c \<in> set t" "idem_bid (?g b)" "idem_bid (?g c)" "bd_idem (?g b) = bd_idem (?g c)" for b c
    using D(4) [OF that(1,2)] key [OF that(1)] key [OF that(2)] that(3-5) by metis
  ultimately show ?thesis
    unfolding bids_inv_def set_map ball_simps(9) using key(7) by blast
qed

section \<open>The step relation of the bid table\<close>

text \<open>
  One statement of a repository on the bid table. The premises are what the callers pass: the
  contract's bid ids are positive, a new bid has a fresh id and passed the money check, and a
  winner's latch is an allocation within the bid's count whose refund is below the ceiling.
\<close>

inductive bids_step :: "offering_bid list \<Rightarrow> offering_bid list \<Rightarrow> bool" where
  insert: "i \<notin> bd_id ` set t \<Longrightarrow> chk_bid_money (submitted_row now i n)
     \<Longrightarrow> bids_step t (snd (insertSubmitted now i n t))"
| escrow: "0 < chain \<Longrightarrow> bids_step t (fst (casEscrowed now i chain tx t))"
| fail: "bids_step t (fst (casFailed now i t))"
| cancel: "bids_step t (fst (casCanceling now i t))"
| refund: "bids_step t (fst (casCanceled now i tx t))"
| revert: "bids_step t (fst (casCancelFailedBackToEscrowed now i t))"
| win: "0 < a \<Longrightarrow> f \<le> MAX_STROOPS \<Longrightarrow> (\<And>b. b \<in> set t \<Longrightarrow> bd_id b = i \<Longrightarrow> a \<le> bd_count b)
     \<Longrightarrow> bids_step t (fst (casWon now i a f t))"
| lose: "bids_step t (fst (flipRemainingEscrowedToLost now off t))"

inductive bids_reach :: "offering_bid list \<Rightarrow> offering_bid list \<Rightarrow> bool" where
  refl: "bids_reach t t"
| step: "bids_reach t u \<Longrightarrow> bids_step u v \<Longrightarrow> bids_reach t v"

text \<open>What one statement does to the row with a given id: nothing, or one legal move.\<close>

definition bid_move :: "offering_bid \<Rightarrow> offering_bid \<Rightarrow> bool" where
  "bid_move b c \<longleftrightarrow> bid_guard b c \<and> bd_status c \<noteq> bd_status b"

definition row_moves :: "offering_bid list \<Rightarrow> offering_bid list \<Rightarrow> bool" where
  "row_moves t u \<longleftrightarrow> (\<forall>b \<in> set t. \<exists>c \<in> set u. c = b \<or> bid_move b c)"

lemma update_moves:
  assumes "bids_inv t"
    "\<And>b. b \<in> set t \<Longrightarrow> P b \<Longrightarrow> bid_wf b \<Longrightarrow> bid_guard b (f b) \<and> bid_wf (f b) \<and> bd_status (f b) \<noteq> bd_status b"
  shows "bids_inv (map (\<lambda>b. if P b then f b else b) t) \<and> row_moves t (map (\<lambda>b. if P b then f b else b) t)"
proof -
  have mv: "bid_guard b (f b) \<and> bid_wf (f b)" "bid_move b (f b)" if "b \<in> set t" "P b" for b
    using assms(2) that bids_invD(2) [OF assms(1) that(1)] unfolding bid_move_def by blast+
  have "(if P b then f b else b) = b \<or> bid_move b (if P b then f b else b)" if "b \<in> set t" for b
    using mv(2) [OF that] by (cases "P b") simp_all
  then have "row_moves t (map (\<lambda>b. if P b then f b else b) t)"
    unfolding row_moves_def set_map by blast
  with bids_inv_moves [OF assms(1) mv(1)] show ?thesis by blast
qed

lemma insert_no_conflict:
  assumes "\<not> bid_conflict n b"
  shows "\<not> (active_bid b \<and> bd_offering b = nb_offering n \<and> bd_sub b = nb_sub n)"
    "\<not> (idem_bid b \<and> bd_idem b = nb_idem n)"
  using assms by (auto simp: bid_conflict_def active_bid_def idem_bid_def)

lemma submitted_row_sel [simp]:
  "bd_id (submitted_row now i n) = i" "bd_offering (submitted_row now i n) = nb_offering n"
  "bd_sub (submitted_row now i n) = nb_sub n" "bd_idem (submitted_row now i n) = nb_idem n"
  "bd_status (submitted_row now i n) = B_submitted" "bd_price (submitted_row now i n) = nb_price n"
  "bd_count (submitted_row now i n) = nb_count n" "bd_wallet (submitted_row now i n) = nb_wallet n"
  by (simp_all add: submitted_row_def)

lemma bids_inv_insert:
  assumes inv: "bids_inv t" and fresh: "i \<notin> bd_id ` set t" and m: "chk_bid_money (submitted_row now i n)"
    and nc: "\<forall>b \<in> set t. \<not> bid_conflict n b"
  shows "bids_inv (t @ [submitted_row now i n])"
  unfolding bids_inv_def
proof (intro conjI)
  let ?r = "submitted_row now i n"
  note D = bids_invD [OF inv]
  have act: "\<not> (active_bid b \<and> bd_offering b = bd_offering ?r \<and> bd_sub b = bd_sub ?r)"
    "\<not> (idem_bid b \<and> bd_idem b = bd_idem ?r)" if "b \<in> set t" for b
    using insert_no_conflict [of n b] nc that by auto
  show "distinct (map bd_id (t @ [?r]))" using D(1) fresh by auto
  have "bid_wf ?r" using m by (simp add: bid_wf_defs submitted_row_def)
  then show "\<forall>b \<in> set (t @ [?r]). bid_wf b" using D(2) by auto
  show "\<forall>b \<in> set (t @ [?r]). \<forall>c \<in> set (t @ [?r]). active_bid b \<and> active_bid c
      \<and> bd_offering b = bd_offering c \<and> bd_sub b = bd_sub c \<longrightarrow> bd_id b = bd_id c"
    using D(3) act(1) by (metis in_set_conv_decomp_last rotate1.simps(2) set_ConsD set_rotate1)
  show "\<forall>b \<in> set (t @ [?r]). \<forall>c \<in> set (t @ [?r]). idem_bid b \<and> idem_bid c
      \<and> bd_idem b = bd_idem c \<longrightarrow> bd_id b = bd_id c"
    using D(4) act(2) by (metis in_set_conv_decomp_last rotate1.simps(2) set_ConsD set_rotate1)
qed

lemma insert_keeps:
  assumes inv: "bids_inv t" and fresh: "i \<notin> bd_id ` set t" and m: "chk_bid_money (submitted_row now i n)"
  shows "bids_inv (snd (insertSubmitted now i n t)) \<and> row_moves t (snd (insertSubmitted now i n t))"
proof (cases "list_ex (bid_conflict n) t")
  case True
  then show ?thesis using inv by (auto simp: insertSubmitted_def row_moves_def)
next
  case False
  then have "\<forall>b \<in> set t. \<not> bid_conflict n b" by (simp add: list_ex_iff)
  from bids_inv_insert [OF inv fresh m this] False show ?thesis
    by (auto simp: insertSubmitted_def row_moves_def)
qed

lemma bids_step_keeps: "bids_step t u \<Longrightarrow> bids_inv t \<Longrightarrow> bids_inv u \<and> row_moves t u"
proof (induction rule: bids_step.induct)
  case insert
  then show ?case by (simp add: insert_keeps)
next
  case (escrow chain t now i tx)
  then show ?case unfolding escrowed.rows
    by (intro update_moves) (auto simp: bid_wf_defs bid_guard_defs bd_escrow_amount_def)
next
  case (fail t now i)
  then show ?case unfolding failed.rows
    by (intro update_moves) (auto simp: bid_wf_defs bid_guard_defs bd_escrow_amount_def)
next
  case (cancel t now i)
  then show ?case unfolding canceling.rows
    by (intro update_moves) (auto simp: bid_wf_defs bid_guard_defs bd_escrow_amount_def)
next
  case (refund t now i tx)
  then show ?case unfolding canceled.rows
    by (intro update_moves) (auto simp: bid_wf_defs bid_guard_defs bd_escrow_amount_def)
next
  case (revert t now i)
  then show ?case unfolding cancel_reverted.rows
    by (intro update_moves) (auto simp: bid_wf_defs bid_guard_defs bd_escrow_amount_def)
next
  case (win a f t i now)
  then show ?case unfolding won.rows
    by (intro update_moves) (auto simp: bid_wf_defs bid_guard_defs bd_escrow_amount_def)
next
  case (lose t now off)
  then show ?case unfolding flipRemainingEscrowedToLost_def sql_update_def fst_conv
    by (intro update_moves) (auto simp: bid_wf_defs bid_guard_defs bd_escrow_amount_def)
qed

inductive bid_moves :: "offering_bid \<Rightarrow> offering_bid \<Rightarrow> bool" where
  stay: "bid_moves b b"
| move: "bid_moves b c \<Longrightarrow> bid_move c d \<Longrightarrow> bid_moves b d"

lemma bids_reach_keeps:
  "bids_reach t u \<Longrightarrow> bids_inv t \<Longrightarrow> bids_inv u \<and> (\<forall>b \<in> set t. \<exists>c \<in> set u. bid_moves b c)"
proof (induction rule: bids_reach.induct)
  case (refl t)
  then show ?case using bid_moves.stay by blast
next
  case (step t u v)
  have "bids_inv v \<and> row_moves u v" using bids_step_keeps step by blast
  moreover have "\<exists>d \<in> set v. bid_moves b d" if mem: "b \<in> set t" for b
  proof -
    have "\<forall>b \<in> set t. \<exists>c \<in> set u. bid_moves b c" using step.IH [OF step.prems] by (rule conjunct2)
    then obtain c where c: "c \<in> set u" "bid_moves b c" using mem by blast
    from bspec [OF conjunct2 [OF calculation, unfolded row_moves_def] c(1)]
    obtain d where "d \<in> set v" "d = c \<or> bid_move c d" by blast
    then show ?thesis using c(2) bid_moves.move by blast
  qed
  ultimately show ?case by blast
qed

lemma write_once_refl [simp]: "write_once a a"
  by (simp add: write_once_def)

lemma write_once_trans: "write_once a b \<Longrightarrow> write_once b c \<Longrightarrow> write_once a c"
  by (auto simp: write_once_def)

text \<open>What a sequence of moves leaves unchanged.\<close>

lemma bid_moves_frame:
  "bid_moves b c \<Longrightarrow> bd_id c = bd_id b \<and> bd_offering c = bd_offering b \<and> bd_sub c = bd_sub b
     \<and> bd_wallet c = bd_wallet b \<and> bd_price c = bd_price b \<and> bd_count c = bd_count b
     \<and> write_once (bd_chain b) (bd_chain c) \<and> write_once (bd_escrow_tx b) (bd_escrow_tx c)
     \<and> write_once (bd_refund_tx b) (bd_refund_tx c) \<and> write_once (bd_alloc b) (bd_alloc c)
     \<and> write_once (bd_settle_refund b) (bd_settle_refund c)"
proof (induction rule: bid_moves.induct)
  case (stay b)
  then show ?case by simp
next
  case (move b c d)
  from move(2) have "bid_guard c d" by (simp add: bid_move_def)
  with move(3) show ?case unfolding bid_guard_def
    by (intro conjI; elim conjE) ((erule (1) write_once_trans | simp only:)+)
qed

lemma bid_moves_terminal:
  "bid_moves b c \<Longrightarrow> bd_status b \<in> {B_failed, B_canceled, B_won, B_lost} \<Longrightarrow> c = b"
  by (induction rule: bid_moves.induct) (auto simp: bid_move_def bid_guard_def bid_transition_def)


definition sample_row :: offering_bid where
  "sample_row = submitted_row 5 ''b1'' \<lparr>nb_offering = ''o1'', nb_sub = ''u1'', nb_wallet = ''C1'',
     nb_price = 7, nb_count = 3, nb_idem = ''h1''\<rparr>"


end
