(* ===== verification/Offering_Machine.thy ===== *)
theory Offering_Machine
  imports Offering_Guard
begin

text \<open>
  The lifecycle of an offering row: the CHECK constraints of migrations 032, 034, 038 and 040,
  the step relation of the repository's statements, and its invariant. The statuses are ordered
  along the lifecycle, so that "forward only" is \<open>\<le>\<close>.
\<close>

section \<open>The lifecycle order\<close>

fun status_rank :: "offering_status \<Rightarrow> nat" where
  "status_rank O_planned = 0"
| "status_rank O_approved = 1"
| "status_rank O_opened = 2"
| "status_rank O_subscribed = 3"
| "status_rank O_settled = 4"
| "status_rank O_canceled = 5"

lemma status_rank_inj: "status_rank a = status_rank b \<Longrightarrow> a = b"
  by (cases a; cases b) simp_all

instantiation offering_status :: linorder
begin

definition less_eq_offering_status :: "offering_status \<Rightarrow> offering_status \<Rightarrow> bool" where
  "a \<le> b \<longleftrightarrow> status_rank a \<le> status_rank b"

definition less_offering_status :: "offering_status \<Rightarrow> offering_status \<Rightarrow> bool" where
  "a < b \<longleftrightarrow> status_rank a < status_rank b"

instance
  by standard (auto simp: less_eq_offering_status_def less_offering_status_def dest: status_rank_inj)

end

lemmas status_order = less_eq_offering_status_def less_offering_status_def

section \<open>Constraints\<close>

definition chk_offering :: "offering \<Rightarrow> bool" where
  "chk_offering r \<longleftrightarrow>
     0 < of_low r \<and> 0 < of_high r \<and> of_low r < of_high r \<and> of_high r \<le> MAX_STROOPS
     \<and> 0 < of_float r \<and> of_float r \<le> MAX_STROOPS \<and> of_open_at r < of_close_at r
     \<and> (of_status r \<notin> {O_approved, O_opened, O_subscribed, O_settled} \<or> of_escrow r \<noteq> None)
     \<and> ((of_fail_at r = None) = (of_fail_reason r = None))
     \<and> of_float r = of_supply r - of_artist_retention r - of_treasury_retention r"

definition active_offering :: "offering \<Rightarrow> bool" where
  "active_offering r \<longleftrightarrow> of_status r \<in> set ACTIVE_OFFERING_STATUSES \<and> of_deleted r = None"

text \<open>The escrow address, the deploy latch and the status move together.\<close>

definition offering_wf :: "offering \<Rightarrow> bool" where
  "offering_wf r \<longleftrightarrow> chk_offering r \<and> of_deleted r = None \<and> of_status r \<noteq> O_canceled
     \<and> (of_status r = O_planned \<longleftrightarrow> of_escrow r = None)
     \<and> (of_escrow r = None \<longleftrightarrow> of_deploy r \<noteq> Some D_deployed)
     \<and> (of_fail_at r \<noteq> None \<longrightarrow> of_status r = O_subscribed)"

definition offerings_inv :: "offering list \<Rightarrow> bool" where
  "offerings_inv t \<longleftrightarrow> distinct (map of_id t) \<and> (\<forall>r \<in> set t. offering_wf r)
     \<and> (\<forall>r \<in> set t. \<forall>s \<in> set t. active_offering r \<and> active_offering s \<and> of_artwork r = of_artwork s
           \<longrightarrow> of_id r = of_id s)"

text \<open>One statement's effect on a row.\<close>

definition offering_move :: "offering \<Rightarrow> offering \<Rightarrow> bool" where
  "offering_move r s \<longleftrightarrow>
     of_id s = of_id r \<and> of_artwork s = of_artwork r \<and> of_contract s = of_contract r
     \<and> of_low s = of_low r \<and> of_high s = of_high r \<and> of_float s = of_float r
     \<and> of_supply s = of_supply r \<and> of_artist_retention s = of_artist_retention r
     \<and> of_treasury_retention s = of_treasury_retention r
     \<and> of_open_at s = of_open_at r \<and> of_close_at s = of_close_at r \<and> of_created s = of_created r
     \<and> of_status r \<le> of_status s \<and> write_once (of_escrow r) (of_escrow s)
     \<and> (of_status s = O_opened \<and> of_status r \<noteq> O_opened
          \<longrightarrow> of_open_at s \<le> of_updated s \<and> of_updated s < of_close_at s)
     \<and> (of_status s = O_subscribed \<and> of_status r \<noteq> O_subscribed \<longrightarrow> of_close_at s \<le> of_updated s)"

inductive offerings_step :: "offering list \<Rightarrow> offering list \<Rightarrow> bool" where
  plan: "of_id r \<notin> of_id ` set t \<Longrightarrow> offering_wf r \<Longrightarrow> findActiveByArtworkId (of_artwork r) t = None
     \<Longrightarrow> offerings_step t (t @ [r])"
| deploying: "offerings_step t (fst (casEscrowDeploying now i t))"
| deployed: "offerings_step t (fst (casEscrowDeployed now i addr t))"
| deploy_failed: "offerings_step t (fst (casEscrowFailed now i t))"
| opened: "offerings_step t (fst (casOpened now i t))"
| subscribed: "offerings_step t (fst (casSubscribed now i t))"
| settled: "offerings_step t (fst (casSettled now i t))"
| stamp: "offerings_step t (fst (setSettleFailureStamp now i reason t))"
| snapshot: "offerings_step t (setSnapshotArtistAddress now i addr t)"

inductive offerings_reach :: "offering list \<Rightarrow> offering list \<Rightarrow> bool" where
  refl: "offerings_reach t t"
| step: "offerings_reach t u \<Longrightarrow> offerings_step u v \<Longrightarrow> offerings_reach t v"

lemma offerings_invD:
  assumes "offerings_inv t"
  shows "distinct (map of_id t)" "r \<in> set t \<Longrightarrow> offering_wf r"
    "r \<in> set t \<Longrightarrow> s \<in> set t \<Longrightarrow> active_offering r \<Longrightarrow> active_offering s \<Longrightarrow> of_artwork r = of_artwork s
      \<Longrightarrow> of_id r = of_id s"
  using assms unfolding offerings_inv_def by blast+

lemma move_active:
  assumes "offering_move r s" "offering_wf r" "active_offering s"
  shows "active_offering r"
  using assms by (cases "of_status r"; cases "of_status s")
    (auto simp: offering_move_def active_offering_def ACTIVE_OFFERING_STATUSES_def status_order offering_wf_def)

lemma offering_moveD:
  assumes "offering_move r s"
  shows "of_id s = of_id r" "of_artwork s = of_artwork r"
  using assms by (simp_all add: offering_move_def)

lemma offering_move_refl: "offering_move r r"
  by (simp add: offering_move_def)

lemma offerings_update:
  assumes inv: "offerings_inv t"
    and mv: "\<And>r. r \<in> set t \<Longrightarrow> P r \<Longrightarrow> offering_wf r \<Longrightarrow> offering_move r (f r) \<and> offering_wf (f r)"
  shows "offerings_inv (map (\<lambda>r. if P r then f r else r) t)
    \<and> list_all2 offering_move t (map (\<lambda>r. if P r then f r else r) t)"
proof -
  let ?g = "\<lambda>r. if P r then f r else r"
  note D = offerings_invD [OF inv]
  have g: "offering_move r (?g r)" "offering_wf (?g r)" if "r \<in> set t" for r
    using mv [OF that] D(2) [OF that] offering_move_refl by auto
  have "map of_id (map ?g t) = map of_id t" using g(1) offering_moveD(1) by auto
  then have "distinct (map of_id (map ?g t))" using D(1) by metis
  moreover have "of_id (?g r) = of_id (?g s)" if "r \<in> set t" "s \<in> set t" "active_offering (?g r)"
      "active_offering (?g s)" "of_artwork (?g r) = of_artwork (?g s)" for r s
    using D(3) [OF that(1,2)] move_active [OF g(1) D(2)] offering_moveD [OF g(1)] that by metis
  ultimately have "offerings_inv (map ?g t)"
    unfolding offerings_inv_def set_map ball_simps(9) using g(2) by blast
  moreover have "list_all2 offering_move t (map ?g t)" using g(1) by (auto simp: list_all2_conv_all_nth)
  ultimately show ?thesis by blast
qed

lemma moves_members:
  "offerings_inv u \<and> list_all2 offering_move t u
   \<Longrightarrow> offerings_inv u \<and> (\<forall>r \<in> set t. \<exists>s \<in> set u. offering_move r s)"
  by (metis in_set_conv_nth list_all2_conv_all_nth)

lemma offerings_inv_plan:
  assumes inv: "offerings_inv t" and new: "of_id r \<notin> of_id ` set t" "offering_wf r"
    "findActiveByArtworkId (of_artwork r) t = None"
  shows "offerings_inv (t @ [r])"
proof -
  note D = offerings_invD [OF inv]
  have act: "\<not> (active_offering s \<and> of_artwork s = of_artwork r)" if "s \<in> set t" for s
    using new(3) that by (auto simp: findActiveByArtworkId_def sql_find_None active_offering_def)
  have "of_id x = of_id y" if "x \<in> set (t @ [r])" "y \<in> set (t @ [r])" "active_offering x"
      "active_offering y" "of_artwork x = of_artwork y" for x y
  proof (cases "x \<in> set t \<and> y \<in> set t")
    case True
    then show ?thesis using D(3) that by blast
  next
    case False
    then have "x = r \<and> y = r" using act [of x] act [of y] that by auto
    then show ?thesis by simp
  qed
  moreover have "distinct (map of_id (t @ [r]))" using D(1) new(1) by auto
  moreover have "\<forall>x \<in> set (t @ [r]). offering_wf x" using D(2) new(2) by auto
  ultimately show ?thesis unfolding offerings_inv_def by blast
qed

lemma wf_stamp:
  "offering_wf r \<Longrightarrow> of_status r = O_subscribed \<Longrightarrow>
   offering_wf (r\<lparr>of_fail_at := (case reason of None \<Rightarrow> None | Some _ \<Rightarrow> Some now), of_fail_reason := reason,
     of_updated := now\<rparr>)"
  by (cases reason) (auto simp: offering_wf_def chk_offering_def)

lemma wf_deploying: "offering_wf r \<Longrightarrow> of_deploy r = Some D_deploying \<Longrightarrow> of_status r = O_planned \<and> of_escrow r = None"
  by (auto simp: offering_wf_def)

lemma wf_move_deploy_failed:
  assumes "offering_wf r" "of_deploy r = Some D_deploying"
  shows "offering_move r (r\<lparr>of_deploy := Some D_failed, of_updated := now\<rparr>)
    \<and> offering_wf (r\<lparr>of_deploy := Some D_failed, of_updated := now\<rparr>)"
  using wf_deploying [OF assms] assms(1)
  by (auto simp: offering_move_def offering_wf_def chk_offering_def)

lemma wf_move_snapshot:
  assumes "offering_wf r"
  shows "offering_move r (r\<lparr>of_snapshot_artist := Some a, of_updated := now\<rparr>)
    \<and> offering_wf (r\<lparr>of_snapshot_artist := Some a, of_updated := now\<rparr>)"
  using assms by (auto simp: offering_move_def offering_wf_def chk_offering_def)

lemmas offering_defs = offering_move_def offering_wf_def chk_offering_def write_once_def status_order

lemma offerings_step_keeps:
  "offerings_step t u \<Longrightarrow> offerings_inv t \<Longrightarrow> offerings_inv u
     \<and> (\<forall>r \<in> set t. \<exists>s \<in> set u. offering_move r s)"
proof (induction rule: offerings_step.induct)
  case (plan r t)
  then have "offerings_inv (t @ [r])" by (intro offerings_inv_plan)
  moreover have "\<exists>s \<in> set (t @ [r]). offering_move x s" if "x \<in> set t" for x
    by (rule bexI [of _ x]) (use that offering_move_refl in auto)
  ultimately show ?case by blast
next
  case (deploying t now i)
  then show ?case unfolding deploying.rows
    by (intro moves_members offerings_update) (auto simp: offering_defs)
next
  case (deployed t now i addr)
  then show ?case unfolding deployed.rows
    by (intro moves_members offerings_update) (auto simp: offering_defs)
next
  case (deploy_failed t now i)
  then show ?case unfolding deploy_failed.rows
    by (intro moves_members offerings_update) (use wf_move_deploy_failed in blast)+
next
  case (opened t now i)
  then show ?case unfolding opened.rows
    by (intro moves_members offerings_update) (auto simp: offering_defs)
next
  case (subscribed t now i)
  then show ?case unfolding subscribed.rows
    by (intro moves_members offerings_update) (auto simp: offering_defs)
next
  case (settled t now i)
  then show ?case unfolding settled.rows
    by (intro moves_members offerings_update) (auto simp: offering_defs)
next
  case (stamp t now i reason)
  then show ?case unfolding setSettleFailureStamp_def fst_cas_rows
    by (intro moves_members offerings_update) (auto simp: wf_stamp offering_move_def)
next
  case (snapshot t now i addr)
  then show ?case unfolding setSnapshotArtistAddress_def sql_update_def fst_conv
    by (intro moves_members offerings_update) (use wf_move_snapshot in blast)+
qed

inductive offering_moves :: "offering \<Rightarrow> offering \<Rightarrow> bool" where
  stay: "offering_moves r r"
| move: "offering_moves r s \<Longrightarrow> offering_move s u \<Longrightarrow> offering_moves r u"

lemma offerings_reach_keeps:
  "offerings_reach t u \<Longrightarrow> offerings_inv t \<Longrightarrow> offerings_inv u \<and> (\<forall>r \<in> set t. \<exists>s \<in> set u. offering_moves r s)"
proof (induction rule: offerings_reach.induct)
  case (refl t)
  then show ?case using offering_moves.stay by blast
next
  case (step t u v)
  note IH = step.IH [OF step.prems]
  note st = offerings_step_keeps [OF step.hyps(2) conjunct1 [OF IH]]
  have "\<exists>w \<in> set v. offering_moves r w" if mem: "r \<in> set t" for r
    using conjunct2 [OF IH] conjunct2 [OF st] mem offering_moves.move by meson
  with st show ?case by blast
qed

lemma offering_moves_frame:
  "offering_moves r s \<Longrightarrow> of_id s = of_id r \<and> of_artwork s = of_artwork r \<and> of_contract s = of_contract r
     \<and> of_low s = of_low r \<and> of_high s = of_high r \<and> of_float s = of_float r \<and> of_supply s = of_supply r
     \<and> of_artist_retention s = of_artist_retention r \<and> of_treasury_retention s = of_treasury_retention r
     \<and> of_open_at s = of_open_at r \<and> of_close_at s = of_close_at r
     \<and> of_status r \<le> of_status s \<and> write_once (of_escrow r) (of_escrow s)"
proof (induction rule: offering_moves.induct)
  case (stay r)
  then show ?case by simp
next
  case (move r s u)
  then show ?case unfolding offering_move_def
    by (intro conjI; elim conjE) ((erule (1) write_once_trans | erule (1) order_trans | simp only:)+)
qed

text \<open>
  C6. The offering lifecycle. However the statements of the offering repository are interleaved,
  the table keeps its CHECK constraints and at most one active offering per artwork; an offering
  keeps its price band, float, supply snapshot and window, its status only moves forward along
  planned, approved, opened, subscribed, settled, and its escrow address is present exactly from
  approval on and never changes once stamped.
\<close>

theorem offering_lifecycle:
  assumes "offerings_inv t" "offerings_reach t u" "r \<in> set t"
  shows "offerings_inv u \<and> (\<exists>s \<in> set u. of_id s = of_id r \<and> of_low s = of_low r \<and> of_high s = of_high r
     \<and> of_float s = of_float r \<and> of_supply s = of_supply r \<and> of_open_at s = of_open_at r
     \<and> of_close_at s = of_close_at r \<and> of_status r \<le> of_status s
     \<and> write_once (of_escrow r) (of_escrow s) \<and> (of_escrow s = None \<longleftrightarrow> of_status s = O_planned))"
proof -
  from offerings_reach_keeps [OF assms(2,1)] assms(3) obtain s where
    s: "s \<in> set u" "offering_moves r s" and u: "offerings_inv u" by blast
  then have "offering_wf s" using offerings_invD(2) by blast
  then have "of_escrow s = None \<longleftrightarrow> of_status s = O_planned" by (auto simp: offering_wf_def)
  with s u offering_moves_frame [OF s(2)] show ?thesis by (intro conjI bexI [OF _ s(1)]) simp_all
qed

definition sample_offering :: offering where
  "sample_offering = \<lparr>of_id = ''o1'', of_artwork = ''a1'', of_contract = ''f1'', of_status = O_planned,
     of_low = 5, of_high = 12, of_float = 8, of_supply = 20, of_artist_retention = 7,
     of_treasury_retention = 5, of_open_at = 100, of_close_at = 200, of_created_by = ''adm'',
     of_deploy = None, of_escrow = None, of_snapshot_artist = None, of_fail_at = None,
     of_fail_reason = None, of_created = 1, of_updated = 1, of_deleted = None\<rparr>"

lemma offering_lifecycle_witness:
  "offerings_inv (fst (casEscrowDeployed 7 ''o1'' ''C1'' (fst (casEscrowDeploying 6 ''o1'' [sample_offering]))))"
proof -
  have inv: "offerings_inv [sample_offering]"
    by (simp add: offerings_inv_def offering_wf_def chk_offering_def sample_offering_def MAX_STROOPS_def)
  have "offerings_reach [sample_offering]
      (fst (casEscrowDeployed 7 ''o1'' ''C1'' (fst (casEscrowDeploying 6 ''o1'' [sample_offering]))))"
    by (rule offerings_reach.step [OF offerings_reach.step [OF offerings_reach.refl
        offerings_step.deploying] offerings_step.deployed])
  from offering_lifecycle [OF inv this, of sample_offering] show ?thesis by simp
qed

end
