(* ===== verification/Idempotency.thy ===== *)
theory Idempotency
  imports Money
begin

text \<open>
  \<open>common/idempotency/idempotency-store.ts\<close>: the Redis-backed \<open>Idempotency-Key\<close> store. A Redis
  string with a TTL is a record with an expiry instant; each Lua script is one atomic operation.
  The store's contract towards the handlers is the locale \<open>idem_contract\<close>, interpreted on the
  store itself; \<open>with_idem\<close> is the shape every money handler has around its work (begin, replay
  or reject, run, complete or fail), and its lemmas are proved once, inside the locale.
\<close>

section \<open>The store\<close>

definition INFLIGHT_TTL_MS :: int where
  "INFLIGHT_TTL_MS = 30000"

definition COMPLETED_TTL_MS :: int where
  "COMPLETED_TTL_MS = 24 * 60 * 60 * 1000"

definition MAX_CLAIM_ATTEMPTS :: nat where
  "MAX_CLAIM_ATTEMPTS = 3"

record 'b stored_record =
  sr_done :: bool
  sr_fingerprint :: string
  sr_token :: ident
  sr_body :: "'b option"
  sr_expires :: instant

type_synonym 'b redis = "string \<Rightarrow> 'b stored_record option"

datatype 'b idempotency_begin = Proceed ident | InFlight | Mismatch | Replay "'b option"

definition redis_get :: "instant \<Rightarrow> string \<Rightarrow> 'b redis \<Rightarrow> 'b stored_record option" where
  "redis_get now key r = (case r key of None \<Rightarrow> None | Some x \<Rightarrow> if now < sr_expires x then Some x else None)"

text \<open>
  One round of the claim loop. \<open>BEGIN\<close> is \<open>SET NX PX\<close>, then \<open>GET\<close>; an attempt is the fresh token
  it draws and whether the record it lost to expires between the two calls of the script.
\<close>

datatype 'b begin_reply = R_proceed | R_retry | R_found "'b stored_record"

definition begin_script ::
  "instant \<Rightarrow> string \<Rightarrow> string \<Rightarrow> ident \<Rightarrow> bool \<Rightarrow> 'b redis \<Rightarrow> 'b begin_reply \<times> 'b redis" where
  "begin_script now key fp token mid r =
     (case redis_get now key r of
        None \<Rightarrow> (R_proceed, r(key \<mapsto> \<lparr>sr_done = False, sr_fingerprint = fp, sr_token = token,
                  sr_body = None, sr_expires = now + INFLIGHT_TTL_MS\<rparr>))
      | Some x \<Rightarrow> if mid then (R_retry, r) else (R_found x, r))"

definition classify :: "string \<Rightarrow> 'b stored_record \<Rightarrow> 'b idempotency_begin" where
  "classify fp x = (if sr_fingerprint x \<noteq> fp then Mismatch
                    else if \<not> sr_done x then InFlight else Replay (sr_body x))"

fun begin_loop ::
  "instant \<Rightarrow> string \<Rightarrow> string \<Rightarrow> (ident \<times> bool) list \<Rightarrow> 'b redis \<Rightarrow> 'b idempotency_begin \<times> 'b redis" where
  "begin_loop now key fp [] r = (InFlight, r)"
| "begin_loop now key fp ((token, mid) # atts) r =
     (case begin_script now key fp token mid r of
        (R_proceed, r') \<Rightarrow> (Proceed token, r')
      | (R_retry, r') \<Rightarrow> begin_loop now key fp atts r'
      | (R_found x, r') \<Rightarrow> (classify fp x, r'))"

definition idem_begin ::
  "instant \<Rightarrow> string \<Rightarrow> string \<Rightarrow> (ident \<times> bool) list \<Rightarrow> 'b redis \<Rightarrow> 'b idempotency_begin \<times> 'b redis" where
  "idem_begin now key fp atts r = begin_loop now key fp (take MAX_CLAIM_ATTEMPTS atts) r"

text \<open>\<open>COMPLETE\<close> and \<open>FAIL\<close>: token-guarded; a Redis outage is logged, the call returns.\<close>

definition idem_complete :: "instant \<Rightarrow> string \<Rightarrow> ident \<Rightarrow> 'b \<Rightarrow> bool \<Rightarrow> 'b redis \<Rightarrow> 'b redis" where
  "idem_complete now key token body up r =
     (if \<not> up then r
      else case redis_get now key r of
        None \<Rightarrow> r
      | Some x \<Rightarrow> if sr_token x \<noteq> token then r
                  else r(key \<mapsto> x\<lparr>sr_done := True, sr_body := Some body,
                                  sr_expires := now + COMPLETED_TTL_MS\<rparr>))"

definition idem_fail :: "instant \<Rightarrow> string \<Rightarrow> ident \<Rightarrow> bool \<Rightarrow> 'b redis \<Rightarrow> 'b redis" where
  "idem_fail now key token up r =
     (if \<not> up then r
      else case redis_get now key r of
        None \<Rightarrow> r
      | Some x \<Rightarrow> if sr_token x = token then r(key := None) else r)"

section \<open>The contract of the store\<close>

text \<open>
  \<open>owns now k t s\<close>: the claim of token \<open>t\<close> on key \<open>k\<close> is still pending; \<open>stored now k fp b s\<close>:
  the key answers with the body \<open>b\<close> for the fingerprint \<open>fp\<close>.
\<close>

locale idem_contract =
  fixes begn :: "instant \<Rightarrow> string \<Rightarrow> string \<Rightarrow> (ident \<times> bool) list \<Rightarrow> 's \<Rightarrow> 'b idempotency_begin \<times> 's"
    and complete :: "instant \<Rightarrow> string \<Rightarrow> ident \<Rightarrow> 'b \<Rightarrow> bool \<Rightarrow> 's \<Rightarrow> 's"
    and fail :: "instant \<Rightarrow> string \<Rightarrow> ident \<Rightarrow> bool \<Rightarrow> 's \<Rightarrow> 's"
    and owns :: "instant \<Rightarrow> string \<Rightarrow> string \<Rightarrow> ident \<Rightarrow> 's \<Rightarrow> bool"
    and stored :: "instant \<Rightarrow> string \<Rightarrow> string \<Rightarrow> 'b \<Rightarrow> 's \<Rightarrow> bool"
  assumes begin_claims: "begn now k fp atts s = (Proceed t, s') \<Longrightarrow> now' < now + INFLIGHT_TTL_MS
      \<Longrightarrow> owns now' k fp t s'"
    and begin_answers: "begn now k fp atts s = (out, s') \<Longrightarrow> (\<forall>t. out \<noteq> Proceed t) \<Longrightarrow> s' = s"
    and owned_blocks: "owns now k fp t s \<Longrightarrow> fst (begn now k fp' atts s) \<in> {InFlight, Mismatch}"
    and stored_replays: "stored now k fp b s \<Longrightarrow> fst (begn now k fp ((tok, False) # atts) s) = Replay (Some b)"
    and complete_stores: "owns now k fp t s \<Longrightarrow> now' < now + COMPLETED_TTL_MS
      \<Longrightarrow> stored now' k fp b (complete now k t b True s)"
    and complete_down: "complete now k t b False s = s"
    and fail_releases: "owns now k fp t s \<Longrightarrow>
      fst (begn now' k fp' ((tok, mid) # atts) (fail now k t True s)) = Proceed tok"

text \<open>
  The shape of a handler: \<open>work\<close> is what it does once it owns the key, on the database state; a
  throw releases the key. The two messages of the 409 and the 422 are the handler's. \<open>t1\<close> and
  \<open>t2\<close> are the clock when the request begins and when its work has ended, \<open>up\<close> is whether Redis
  takes the last call.
\<close>

definition with_idem ::
  "(instant \<Rightarrow> string \<Rightarrow> string \<Rightarrow> (ident \<times> bool) list \<Rightarrow> 's \<Rightarrow> 'b idempotency_begin \<times> 's)
   \<Rightarrow> (instant \<Rightarrow> string \<Rightarrow> ident \<Rightarrow> 'b \<Rightarrow> bool \<Rightarrow> 's \<Rightarrow> 's)
   \<Rightarrow> (instant \<Rightarrow> string \<Rightarrow> ident \<Rightarrow> bool \<Rightarrow> 's \<Rightarrow> 's)
   \<Rightarrow> instant \<Rightarrow> instant \<Rightarrow> bool \<Rightarrow> string \<Rightarrow> string \<Rightarrow> (ident \<times> bool) list
   \<Rightarrow> ('d \<Rightarrow> (http_error + 'b) \<times> 'd) \<Rightarrow> 's \<times> 'd \<Rightarrow> (http_error + 'b option) \<times> 's \<times> 'd" where
  "with_idem begn complete fail t1 t2 up key fp atts work sd = (case sd of (s, d) \<Rightarrow>
     case begn t1 key fp atts s of
       (Replay b, s') \<Rightarrow> (Inr b, s', d)
     | (InFlight, s') \<Rightarrow> (Inl (FailHttp ''IDEMPOTENCY_KEY_IN_FLIGHT'' 409), s', d)
     | (Mismatch, s') \<Rightarrow> (Inl (FailHttp ''IDEMPOTENCY_KEY_MISMATCH'' 422), s', d)
     | (Proceed token, s') \<Rightarrow>
         (case work d of
            (Inr body, d') \<Rightarrow> (Inr (Some body), complete t2 key token body up s', d')
          | (Inl e, d') \<Rightarrow> (Inl e, fail t2 key token up s', d')))"

context idem_contract
begin

definition run ::
  "instant \<Rightarrow> instant \<Rightarrow> bool \<Rightarrow> string \<Rightarrow> string \<Rightarrow> (ident \<times> bool) list
   \<Rightarrow> ('d \<Rightarrow> (http_error + 'b) \<times> 'd) \<Rightarrow> 's \<times> 'd \<Rightarrow> (http_error + 'b option) \<times> 's \<times> 'd" where
  "run = with_idem begn complete fail"

text \<open>A retry after a completed request replays its body and does not run the work again.\<close>

lemma retry_replays:
  assumes "begn t1 k fp atts s = (Proceed t, s1)" "work d = (Inr body, d1)"
    "t2 < t1 + INFLIGHT_TTL_MS" "t3 < t2 + COMPLETED_TTL_MS"
  shows "\<exists>s2 s3. run t1 t2 True k fp atts work (s, d) = (Inr (Some body), s2, d1)
     \<and> run t3 t4 up k fp ((tok, False) # atts') work' (s2, d') = (Inr (Some body), s3, d')"
proof -
  let ?s2 = "complete t2 k t body True s1"
  have "owns t2 k fp t s1" using begin_claims [OF assms(1,3)] .
  then have "stored t3 k fp body ?s2" using complete_stores assms(4) by blast
  then have r: "fst (begn t3 k fp ((tok, False) # atts') ?s2) = Replay (Some body)" by (rule stored_replays)
  obtain s3 where s3: "begn t3 k fp ((tok, False) # atts') ?s2 = (Replay (Some body), s3)"
    using r by (cases "begn t3 k fp ((tok, False) # atts') ?s2") auto
  show ?thesis using assms(1,2) s3 by (auto simp: run_def with_idem_def)
qed

text \<open>While a request is in flight no second one with its key runs its work.\<close>

lemma in_flight_rejects:
  assumes "begn t1 k fp atts s = (Proceed t, s1)" "t2 < t1 + INFLIGHT_TTL_MS"
  shows "\<exists>e. run t2 t3 up k fp' atts' work' (s1, d) = (Inl e, s1, d)
     \<and> e \<in> {FailHttp ''IDEMPOTENCY_KEY_IN_FLIGHT'' 409, FailHttp ''IDEMPOTENCY_KEY_MISMATCH'' 422}"
proof -
  have "owns t2 k fp t s1" using begin_claims [OF assms] .
  then have r: "fst (begn t2 k fp' atts' s1) \<in> {InFlight, Mismatch}" by (rule owned_blocks)
  obtain out s2 where b: "begn t2 k fp' atts' s1 = (out, s2)" by (cases "begn t2 k fp' atts' s1")
  with r have out: "out \<in> {InFlight, Mismatch}" by simp
  then have "s2 = s1" using begin_answers [OF b] by auto
  with b out show ?thesis by (auto simp: run_def with_idem_def)
qed

text \<open>After a failed request the same key runs its work again.\<close>

lemma failure_retries:
  assumes "begn t1 k fp atts s = (Proceed t, s1)" "work d = (Inl e, d1)" "t2 < t1 + INFLIGHT_TTL_MS"
  shows "\<exists>s2. run t1 t2 True k fp atts work (s, d) = (Inl e, s2, d1)
     \<and> fst (begn t3 k fp' ((tok, mid) # atts') s2) = Proceed tok"
proof -
  have "owns t2 k fp t s1" using begin_claims [OF assms(1,3)] .
  then have "fst (begn t3 k fp' ((tok, mid) # atts') (fail t2 k t True s1)) = Proceed tok"
    by (rule fail_releases)
  then show ?thesis using assms(1,2) by (auto simp: run_def with_idem_def)
qed

end

section \<open>The store keeps the contract\<close>

definition idem_owns :: "instant \<Rightarrow> string \<Rightarrow> string \<Rightarrow> ident \<Rightarrow> 'b redis \<Rightarrow> bool" where
  "idem_owns now k fp t r = (case redis_get now k r of
     Some x \<Rightarrow> \<not> sr_done x \<and> sr_fingerprint x = fp \<and> sr_token x = t | None \<Rightarrow> False)"

definition idem_stored :: "instant \<Rightarrow> string \<Rightarrow> string \<Rightarrow> 'b \<Rightarrow> 'b redis \<Rightarrow> bool" where
  "idem_stored now k fp b r = (case redis_get now k r of
     Some x \<Rightarrow> sr_done x \<and> sr_fingerprint x = fp \<and> sr_body x = Some b | None \<Rightarrow> False)"

lemma begin_loop_claims:
  "begin_loop now k fp atts r = (Proceed t, r') \<Longrightarrow> redis_get now k r = None
     \<and> r' = r(k \<mapsto> \<lparr>sr_done = False, sr_fingerprint = fp, sr_token = t, sr_body = None,
                     sr_expires = now + INFLIGHT_TTL_MS\<rparr>)"
proof (induction now k fp atts r rule: begin_loop.induct)
  case (2 now k fp token mid atts r)
  show ?case
  proof (cases "redis_get now k r")
    case None
    with "2.prems" show ?thesis by (auto simp: begin_script_def)
  next
    case (Some x)
    show ?thesis
    proof (cases mid)
      case True
      with Some "2.prems" have "begin_loop now k fp atts r = (Proceed t, r')" by (simp add: begin_script_def)
      from "2.IH" [OF _ _ this] Some True show ?thesis by (simp add: begin_script_def)
    next
      case False
      with Some "2.prems" show ?thesis by (simp add: begin_script_def classify_def split: if_splits)
    qed
  qed
qed simp

lemma begin_loop_answers:
  "begin_loop now k fp atts r = (out, r') \<Longrightarrow> (\<forall>t. out \<noteq> Proceed t) \<Longrightarrow> r' = r"
proof (induction now k fp atts r rule: begin_loop.induct)
  case (2 now k fp token mid atts r)
  show ?case
  proof (cases "redis_get now k r")
    case None
    with "2.prems" show ?thesis by (auto simp: begin_script_def)
  next
    case (Some x)
    show ?thesis
    proof (cases mid)
      case True
      with Some "2.prems" have "begin_loop now k fp atts r = (out, r')" by (simp add: begin_script_def)
      from "2.IH" [OF _ _ this "2.prems"(2)] Some True show ?thesis by (simp add: begin_script_def)
    next
      case False
      with Some "2.prems" show ?thesis by (simp add: begin_script_def)
    qed
  qed
qed simp

lemma begin_loop_found:
  "redis_get now k r = Some x \<Longrightarrow> fst (begin_loop now k fp atts r) \<in> {InFlight, classify fp x}"
  by (induction now k fp atts r rule: begin_loop.induct) (auto simp: begin_script_def)

lemma idem_first_attempt:
  "idem_begin now k fp ((tok, mid) # atts) r =
     begin_loop now k fp ((tok, mid) # take (MAX_CLAIM_ATTEMPTS - 1) atts) r"
  by (simp add: idem_begin_def MAX_CLAIM_ATTEMPTS_def numeral_3_eq_3)

interpretation store: idem_contract idem_begin idem_complete idem_fail idem_owns idem_stored
proof
  fix now now' :: instant and k fp :: string and atts :: "(ident \<times> bool) list" and r r' :: "'b redis" and t
  assume b: "idem_begin now k fp atts r = (Proceed t, r')" and l: "now' < now + INFLIGHT_TTL_MS"
  show "idem_owns now' k fp t r'"
    using begin_loop_claims [OF b [unfolded idem_begin_def]] l by (simp add: idem_owns_def redis_get_def)
next
  fix now :: instant and k fp :: string and atts :: "(ident \<times> bool) list" and r r' :: "'b redis" and out
  assume "idem_begin now k fp atts r = (out, r')" "\<forall>t. out \<noteq> Proceed t"
  then show "r' = r" unfolding idem_begin_def by (rule begin_loop_answers)
next
  fix now :: instant and k fp fp' :: string and t and atts :: "(ident \<times> bool) list" and r :: "'b redis"
  assume "idem_owns now k fp t r"
  then obtain x where "redis_get now k r = Some x" "\<not> sr_done x"
    by (auto simp: idem_owns_def split: option.splits)
  then show "fst (idem_begin now k fp' atts r) \<in> {InFlight, Mismatch}"
    using begin_loop_found [of now k r x fp' "take MAX_CLAIM_ATTEMPTS atts"]
    by (auto simp: idem_begin_def classify_def split: if_splits)
next
  fix now :: instant and k fp :: string and tok and atts :: "(ident \<times> bool) list" and b :: 'b and r :: "'b redis"
  assume "idem_stored now k fp b r"
  then show "fst (idem_begin now k fp ((tok, False) # atts) r) = Replay (Some b)"
    unfolding idem_first_attempt
    by (auto simp: idem_stored_def begin_script_def classify_def split: option.splits)
next
  fix now now' :: instant and k fp :: string and t and b :: 'b and r :: "'b redis"
  assume "idem_owns now k fp t r" "now' < now + COMPLETED_TTL_MS"
  then show "idem_stored now' k fp b (idem_complete now k t b True r)"
    by (auto simp: idem_owns_def idem_stored_def idem_complete_def redis_get_def split: option.splits if_splits)
next
  fix now :: instant and k :: string and t and b :: 'b and r :: "'b redis"
  show "idem_complete now k t b False r = r" by (simp add: idem_complete_def)
next
  fix now now' :: instant and k fp fp' :: string and t tok mid and atts :: "(ident \<times> bool) list" and r :: "'b redis"
  assume "idem_owns now k fp t r"
  then have "redis_get now' k (idem_fail now k t True r) = None"
    by (auto simp: idem_owns_def idem_fail_def redis_get_def split: option.splits if_splits)
  then show "fst (idem_begin now' k fp' ((tok, mid) # atts) (idem_fail now k t True r)) = Proceed tok"
    unfolding idem_first_attempt by (simp add: begin_script_def)
qed

section \<open>Properties\<close>

definition handle ::
  "instant \<Rightarrow> instant \<Rightarrow> bool \<Rightarrow> string \<Rightarrow> string \<Rightarrow> (ident \<times> bool) list
   \<Rightarrow> ('d \<Rightarrow> (http_error + 'b) \<times> 'd) \<Rightarrow> 'b redis \<times> 'd \<Rightarrow> (http_error + 'b option) \<times> 'b redis \<times> 'd" where
  "handle = with_idem idem_begin idem_complete idem_fail"

lemma handle_run: "handle = store.run"
  unfolding handle_def store.run_def by (rule refl)


text \<open>
  C8. Mutual exclusion and ownership. While a claim is in flight a second request with the key is
  rejected with a 409 or a 422 and changes nothing, and the completion or the release of an
  earlier claim whose sentinel expired does not touch the record of the claim that followed.
\<close>

theorem idempotent_exclusion:
  assumes "idem_begin t1 k fp atts r = (Proceed t, r1)" "t2 < t1 + INFLIGHT_TTL_MS" "stale \<noteq> t"
  shows "(\<exists>e. handle t2 t3 up k fp' atts' work' (r1, d) = (Inl e, r1, d)
       \<and> e \<in> {FailHttp ''IDEMPOTENCY_KEY_IN_FLIGHT'' 409, FailHttp ''IDEMPOTENCY_KEY_MISMATCH'' 422})
     \<and> idem_complete t2 k stale body up r1 = r1 \<and> idem_fail t2 k stale up r1 = r1"
proof -
  note c = begin_loop_claims [OF assms(1) [unfolded idem_begin_def]]
  have "idem_complete t2 k stale body up r1 = r1" "idem_fail t2 k stale up r1 = r1"
    using c assms(2,3) by (simp_all add: idem_complete_def idem_fail_def redis_get_def)
  with store.in_flight_rejects [where up = up and work' = work' and d = d and fp' = fp' and atts' = atts'
      and ?t3.0 = t3, OF assms(1,2)]
  show ?thesis unfolding handle_run by simp
qed

definition sample_work :: "nat \<Rightarrow> (http_error + nat) \<times> nat" where
  "sample_work d = (Inr (d + 1), d + 1)"


lemma idempotent_exclusion_witness:
  "\<exists>r1 e. idem_begin 0 ''k'' ''f'' [(''t'', False)] (Map.empty :: nat redis) = (Proceed ''t'', r1)
     \<and> handle 10 20 True ''k'' ''f'' [] sample_work (r1, 9) = (Inl e, r1, 9)"
proof -
  obtain r1 where b: "idem_begin 0 ''k'' ''f'' [(''t'', False)] (Map.empty :: nat redis) = (Proceed ''t'', r1)"
    by (simp add: idem_first_attempt begin_script_def redis_get_def)
  from idempotent_exclusion [OF b, of 10 "''old''" 20 True "''f''" "[]" sample_work 9] b show ?thesis
    by (auto simp: INFLIGHT_TTL_MS_def)
qed

end
