(* ===== verification/Offering_State.thy ===== *)
theory Offering_State
  imports Offering_Machine Idempotency
begin

text \<open>
  The database the offering handlers share, as one record of tables, with the append-only audit
  log and the settlement snapshot table; the configuration of the escrow; the jobs of the
  queues. A handler's work is a function on this record, run by \<open>run_txn\<close> where the code opens
  a transaction.
\<close>

record audit_entry =
  ae_kind :: string
  ae_actor :: "ident option"
  ae_subject :: ident

record clearing_audit =
  ca_offering :: ident
  ca_price :: int
  ca_float :: int
  ca_demand :: int
  ca_proceeds :: int
  ca_fee :: int
  ca_net :: int
  ca_cleared :: int
  ca_absorbed :: int
  ca_supply :: int
  ca_artist :: int
  ca_treasury :: int
  ca_snapshot :: "snapshot_row list"
  ca_allocations :: "allocation_row list"
  ca_tx :: "ident option"
  ca_ledger :: "int option"
  ca_adopted :: bool

record odb =
  db_offerings :: "offering list"
  db_bids :: "offering_bid list"
  db_approvals :: "offering_approval list"
  db_contracts :: "fraction_contract list"
  db_artworks :: "ident list"
  db_audit :: "audit_entry list"
  db_clearing :: "clearing_audit list"

record escrow_config =
  cfg_signers :: "ident list"
  cfg_threshold :: nat
  cfg_usdc :: ident
  cfg_treasury :: ident
  cfg_admin :: ident
  cfg_batch :: nat
  cfg_deploy_grace :: int
  cfg_settle_grace :: int
  cfg_max_bids :: nat
  cfg_ttl_days :: int

datatype job = JobDeploy ident | JobSettle ident

section \<open>Table access\<close>

definition audit_record :: "audit_entry \<Rightarrow> odb \<Rightarrow> odb" where
  "audit_record e d = d\<lparr>db_audit := db_audit d @ [e]\<rparr>"

definition on_offerings :: "(offering list \<Rightarrow> offering list \<times> bool) \<Rightarrow> odb \<Rightarrow> bool \<times> odb" where
  "on_offerings cas d = (case cas (db_offerings d) of (t, ok) \<Rightarrow> (ok, d\<lparr>db_offerings := t\<rparr>))"

definition on_bids :: "(offering_bid list \<Rightarrow> offering_bid list \<times> bool) \<Rightarrow> odb \<Rightarrow> bool \<times> odb" where
  "on_bids cas d = (case cas (db_bids d) of (t, ok) \<Rightarrow> (ok, d\<lparr>db_bids := t\<rparr>))"

definition find_contract :: "ident \<Rightarrow> odb \<Rightarrow> fraction_contract option" where
  "find_contract i d = sql_find (\<lambda>f. fc_id f = i \<and> fc_deleted f = None) (db_contracts d)"

definition findActiveContract :: "ident \<Rightarrow> odb \<Rightarrow> fraction_contract option" where
  "findActiveContract artwork d = sql_find (\<lambda>f. fc_artwork f = artwork
     \<and> fc_status f \<in> {FC_deploying, FC_deployed} \<and> fc_deleted f = None) (db_contracts d)"

lemma on_offerings_sel [simp]:
  "fst (on_offerings cas d) = snd (cas (db_offerings d))"
  "db_offerings (snd (on_offerings cas d)) = fst (cas (db_offerings d))"
  "db_bids (snd (on_offerings cas d)) = db_bids d"
  "db_approvals (snd (on_offerings cas d)) = db_approvals d"
  "db_contracts (snd (on_offerings cas d)) = db_contracts d"
  "db_audit (snd (on_offerings cas d)) = db_audit d"
  "db_clearing (snd (on_offerings cas d)) = db_clearing d"
  by (simp_all add: on_offerings_def split: prod.splits)

lemma on_bids_sel [simp]:
  "fst (on_bids cas d) = snd (cas (db_bids d))"
  "db_bids (snd (on_bids cas d)) = fst (cas (db_bids d))"
  "db_offerings (snd (on_bids cas d)) = db_offerings d"
  "db_approvals (snd (on_bids cas d)) = db_approvals d"
  "db_audit (snd (on_bids cas d)) = db_audit d"
  "db_clearing (snd (on_bids cas d)) = db_clearing d"
  by (simp_all add: on_bids_def split: prod.splits)

lemma audit_record_sel [simp]:
  "db_offerings (audit_record e d) = db_offerings d" "db_bids (audit_record e d) = db_bids d"
  "db_approvals (audit_record e d) = db_approvals d" "db_contracts (audit_record e d) = db_contracts d"
  "db_clearing (audit_record e d) = db_clearing d" "db_audit (audit_record e d) = db_audit d @ [e]"
  by (simp_all add: audit_record_def)

section \<open>OfferingClearingAuditRepository and its constraints\<close>

text \<open>
  The plain unique index makes \<open>INSERT ... ON CONFLICT DO NOTHING\<close> affect no row when a snapshot
  of the offering exists, which throws; a violated CHECK throws as well.
\<close>

definition chk_clearing :: "clearing_audit \<Rightarrow> bool" where
  "chk_clearing a \<longleftrightarrow> 0 < ca_price a \<and> ca_price a \<le> MAX_STROOPS \<and> 0 < ca_float a \<and> ca_float a \<le> ca_demand a
     \<and> 0 \<le> ca_proceeds a \<and> ca_proceeds a \<le> MAX_I128 \<and> 0 \<le> ca_fee a \<and> ca_fee a \<le> MAX_I128
     \<and> 0 \<le> ca_net a \<and> ca_net a \<le> MAX_I128
     \<and> ca_fee a = (ca_proceeds a * 300) sdiv 10000 \<and> ca_net a = ca_proceeds a - ca_fee a
     \<and> ca_float a = ca_supply a - ca_artist a - ca_treasury a
     \<and> ca_cleared a = ca_float a \<and> ca_absorbed a = 0"

datatype snapshot_error = SnapshotExists | SnapshotCheck

definition insertSnapshot :: "clearing_audit \<Rightarrow> odb \<Rightarrow> (snapshot_error + unit) \<times> odb" where
  "insertSnapshot row d =
     (if \<not> chk_clearing row then (Inl SnapshotCheck, d)
      else if list_ex (\<lambda>a. ca_offering a = ca_offering row) (db_clearing d) then (Inl SnapshotExists, d)
      else (Inr (), d\<lparr>db_clearing := db_clearing d @ [row]\<rparr>))"

definition findByOfferingId :: "ident \<Rightarrow> odb \<Rightarrow> clearing_audit option" where
  "findByOfferingId off d = sql_find (\<lambda>a. ca_offering a = off) (db_clearing d)"

end
