(* ===== verification/Soroban.thy ===== *)
theory Soroban
  imports Prelude "HOL-Library.Word"
begin

text \<open>
  The Soroban values the relayer reads and writes: contract values, invocations, authorization
  entries and transactions as \<open>@stellar/stellar-sdk\<close> decodes them from XDR. XDR is a canonical
  encoding, so "byte-equal" is equality here. Arms of a union the code never reads are one
  constructor.
\<close>

section \<open>Values\<close>

type_synonym bytes = "8 word list"

datatype scval = ScAddress ident | ScI128 int | ScU32 int | ScBytes bytes | ScSymbol string | ScString string
  | ScVec "scval list" | ScMap "(scval \<times> scval) list" | ScOther

text \<open>
  \<open>scValToNative\<close> where the code asks whether the result is a given JavaScript string: addresses
  decode to their strkey, and symbols and strings to their text.
\<close>

fun native_string :: "scval \<Rightarrow> string option" where
  "native_string (ScAddress a) = Some a"
| "native_string (ScSymbol s) = Some s"
| "native_string (ScString s) = Some s"
| "native_string _ = None"

section \<open>Authorization entries and transactions\<close>

record invocation =
  iv_contract :: ident
  iv_function :: string
  iv_args :: "scval list"

datatype auth_fn = ContractFn invocation | CreateContractFn

datatype auth_tree = AuthTree (tree_fn: auth_fn) (tree_subs: "auth_tree list")

record address_creds =
  ac_address :: ident
  ac_nonce :: int
  ac_expiry :: int
  ac_signature :: "scval option"

datatype credentials = AddressCreds address_creds | SourceAccountCreds

record auth_entry =
  en_creds :: credentials
  en_root :: auth_tree

datatype host_function = InvokeContract invocation | OtherHostFunction

datatype operation = InvokeHostFunction host_function "auth_entry list" | OtherOperation

text \<open>What \<open>TransactionBuilder.fromXDR\<close> gives: an exception, a fee bump, or a transaction.\<close>

datatype parsed_tx = MalformedXdr | FeeBumpTx | TransactionOf "operation list"

text \<open>\<open>new Contract(c).call(f, ...args)\<close>: the operation, without authorization entries yet.\<close>

definition contract_call :: "ident \<Rightarrow> string \<Rightarrow> scval list \<Rightarrow> invocation" where
  "contract_call c f args = \<lparr>iv_contract = c, iv_function = f, iv_args = args\<rparr>"

lemma contract_call_simps [simp]:
  "iv_contract (contract_call c f as) = c" "iv_function (contract_call c f as) = f"
  "iv_args (contract_call c f as) = as"
  by (simp_all add: contract_call_def)

lemma invocation_eqI:
  "iv_contract x = c \<Longrightarrow> iv_function x = f \<Longrightarrow> iv_args x = as \<Longrightarrow> x = contract_call c f as"
  by (simp add: contract_call_def)

lemma native_string_Some:
  "native_string v = Some s \<longleftrightarrow> v \<in> {ScAddress s, ScSymbol s, ScString s}"
  by (cases v) auto

end
