(* ===== verification/Offering_Plan.thy ===== *)
theory Offering_Plan
  imports Offering_State Soroban
begin

text \<open>
  \<open>backoffice/offerings/backoffice-offerings.service.ts\<close> (create, approve, list, getOne), the
  settlement phase view, the escrow deploy worker (\<open>offerings/deploy\<close>) and the reconcile
  sweeps. The escrow service's deploy call is an argument (\<open>deploy\<close>): its outcome is a typed
  error with a retryable flag or a contract address.
\<close>

section \<open>create\<close>

record create_offering_dto =
  cd_artwork :: ident
  cd_low :: string
  cd_high :: string
  cd_open :: "instant option"
  cd_close :: "instant option"

definition planned_row ::
  "instant \<Rightarrow> ident \<Rightarrow> ident \<Rightarrow> create_offering_dto \<Rightarrow> offerable \<Rightarrow> instant \<Rightarrow> instant \<Rightarrow> offering" where
  "planned_row now new_id adminSub dto b opn cls =
     \<lparr>of_id = new_id, of_artwork = cd_artwork dto, of_contract = fc_id (ob_contract b),
      of_status = O_planned, of_low = BigInt (cd_low dto), of_high = BigInt (cd_high dto),
      of_float = ob_float b, of_supply = ob_supply b, of_artist_retention = ob_artist b,
      of_treasury_retention = ob_treasury b, of_open_at = opn, of_close_at = cls,
      of_created_by = adminSub, of_deploy = None, of_escrow = None, of_snapshot_artist = None,
      of_fail_at = None, of_fail_reason = None, of_created = now, of_updated = now, of_deleted = None\<rparr>"

text \<open>\<open>repo.save\<close>: a CHECK violation is a 500, the partial unique index a 409.\<close>

definition save_planned :: "offering \<Rightarrow> odb \<Rightarrow> (http_error + offering) \<times> odb" where
  "save_planned row d =
     (if \<not> chk_offering row then (Inl (InternalError ''23514''), d)
      else if list_ex (\<lambda>r. active_offering r \<and> of_artwork r = of_artwork row) (db_offerings d)
        then (Inl (FailHttp ''OFFERING_ALREADY_ACTIVE'' 409), d)
      else (Inr row, d\<lparr>db_offerings := db_offerings d @ [row]\<rparr>))"

definition create_work ::
  "instant \<Rightarrow> ident \<Rightarrow> ident \<Rightarrow> create_offering_dto \<Rightarrow> instant \<Rightarrow> instant \<Rightarrow> odb
   \<Rightarrow> (http_error + offering) \<times> odb" where
  "create_work now new_id adminSub dto opn cls d =
     (if cd_artwork dto \<notin> set (db_artworks d) then (Inl (FailHttp ''ARTWORK_NOT_FOUND'' 404), d)
      else case resolveOfferableFloat (findActiveContract (cd_artwork dto) d) of
        Inl e \<Rightarrow> (Inl e, d)
      | Inr b \<Rightarrow> run_txn (\<lambda>d. case save_planned (planned_row now new_id adminSub dto b opn cls) d of
            (Inl e, d') \<Rightarrow> (Inl e, d')
          | (Inr row, d') \<Rightarrow> (Inr row, audit_record \<lparr>ae_kind = ''offering.planned'',
               ae_actor = Some adminSub, ae_subject = of_id row\<rparr> d')) d)"

text \<open>
  The handler: band, window, then the idempotency key. \<open>fp\<close> is the sha-256 of the canonical
  request, an argument; the stored body is the created row (\<open>OfferingResponseDto.fromEntity\<close>).
\<close>

definition create_offering ::
  "instant \<Rightarrow> instant \<Rightarrow> bool \<Rightarrow> string \<Rightarrow> (ident \<times> bool) list \<Rightarrow> ident \<Rightarrow> create_offering_dto \<Rightarrow> ident
   \<Rightarrow> string \<Rightarrow> offering redis \<times> odb \<Rightarrow> (http_error + offering option) \<times> offering redis \<times> odb" where
  "create_offering now now2 up fp atts new_id dto adminSub idempotencyKey sd =
     (case sd of (s, d) \<Rightarrow>
      case assertBandValid (cd_low dto) (cd_high dto) of
        Inl e \<Rightarrow> (Inl e, s, d)
      | Inr _ \<Rightarrow>
        (case (cd_open dto, cd_close dto) of
           (Some opn, Some cls) \<Rightarrow>
             if opn \<ge> cls then (Inl (FailHttp ''OFFERING_WINDOW_INVALID'' 422), s, d)
             else handle now now2 up (''idem:offering-plan:'' @ adminSub @ '':'' @ idempotencyKey) fp atts
                    (create_work now new_id adminSub dto opn cls) (s, d)
         | _ \<Rightarrow> (Inl (FailHttp ''OFFERING_WINDOW_INVALID'' 422), s, d)))"

section \<open>approve\<close>

definition approve_txn ::
  "escrow_config \<Rightarrow> instant \<Rightarrow> ident \<Rightarrow> ident \<Rightarrow> odb \<Rightarrow> (http_error + nat \<times> bool) \<times> odb" where
  "approve_txn cfg now offeringId adminSub d =
     (case find_offering offeringId (db_offerings d) of
        None \<Rightarrow> (Inl (FailHttp ''OFFERING_NOT_FOUND'' 404), d)
      | Some off \<Rightarrow>
          if of_status off \<noteq> O_planned then (Inl (FailHttp ''OFFERING_NOT_PLANNED'' 409), d)
          else if of_deploy off = Some D_deploying \<or> of_deploy off = Some D_deployed
            then (Inl (FailHttp ''OFFERING_APPROVAL_IN_PROGRESS'' 409), d)
          else
            let frozen = (if of_snapshot_artist off \<noteq> None then Inr d
                          else case find_contract (of_contract off) d of
                            None \<Rightarrow> Inl (FailHttp ''OFFERING_ARTWORK_NOT_FRACTIONALIZED'' 409)
                          | Some fc \<Rightarrow> Inr (d\<lparr>db_offerings := setSnapshotArtistAddress now (of_id off)
                                               (fc_artist_address fc) (db_offerings d)\<rparr>))
            in case frozen of
                 Inl e \<Rightarrow> (Inl e, d)
               | Inr d1 \<Rightarrow>
                   let d2 = d1\<lparr>db_approvals := insertSignature now (of_id off) adminSub (db_approvals d1)\<rparr>;
                       cnt = countLiveSigners (of_id off) (cfg_signers cfg) (db_approvals d2);
                       (claimed, d3) = (if cnt \<ge> cfg_threshold cfg
                                        then on_offerings (casEscrowDeploying now (of_id off)) d2
                                        else (False, d2))
                   in (Inr (cnt, claimed), audit_record \<lparr>ae_kind = ''offering.approval.signed'',
                         ae_actor = Some adminSub, ae_subject = of_id off\<rparr> d3))"

record approve_body =
  ab_offering :: offering
  ab_count :: nat
  ab_threshold :: nat

text \<open>
  Only the transaction is guarded by \<open>fail\<close>; the key is completed before the enqueue, and a
  failed enqueue (\<open>enq\<close>) is logged.
\<close>

definition approve ::
  "escrow_config \<Rightarrow> instant \<Rightarrow> instant \<Rightarrow> bool \<Rightarrow> bool \<Rightarrow> string \<Rightarrow> (ident \<times> bool) list \<Rightarrow> ident \<Rightarrow> ident
   \<Rightarrow> string \<Rightarrow> approve_body redis \<times> odb
   \<Rightarrow> (http_error + approve_body option) \<times> approve_body redis \<times> odb \<times> job list" where
  "approve cfg now now2 up enq fp atts offeringId adminSub idempotencyKey sd =
     (case sd of (s, d) \<Rightarrow>
      if adminSub \<notin> set (cfg_signers cfg) then (Inl (FailHttp ''OFFERING_APPROVAL_NOT_A_SIGNER'' 403), s, d, [])
      else let key = ''idem:offering-approve:'' @ adminSub @ '':'' @ idempotencyKey in
      case idem_begin now key fp atts s of
        (Replay b, s') \<Rightarrow> (Inr b, s', d, [])
      | (InFlight, s') \<Rightarrow> (Inl (FailHttp ''IDEMPOTENCY_KEY_IN_FLIGHT'' 409), s', d, [])
      | (Mismatch, s') \<Rightarrow> (Inl (FailHttp ''IDEMPOTENCY_KEY_MISMATCH'' 422), s', d, [])
      | (Proceed token, s') \<Rightarrow>
          (case run_txn (approve_txn cfg now offeringId adminSub) d of
             (Inl e, d') \<Rightarrow> (Inl e, idem_fail now2 key token up s', d', [])
           | (Inr (cnt, claimed), d') \<Rightarrow>
               (case find_offering offeringId (db_offerings d') of
                  None \<Rightarrow> (Inl (FailHttp ''OFFERING_NOT_FOUND'' 404), s', d', [])
                | Some off \<Rightarrow>
                    let body = \<lparr>ab_offering = off, ab_count = cnt, ab_threshold = cfg_threshold cfg\<rparr>
                    in (Inr (Some body), idem_complete now2 key token body up s', d',
                        if claimed \<and> enq then [JobDeploy offeringId] else []))))"

section \<open>Reads\<close>

datatype settlement_phase = P_closed | P_settling | P_settled | P_canceled

definition deriveSettlementPhase :: "offering \<Rightarrow> instant \<Rightarrow> settlement_phase option" where
  "deriveSettlementPhase r now = (case of_status r of
     O_canceled \<Rightarrow> Some P_canceled
   | O_settled \<Rightarrow> Some P_settled
   | O_subscribed \<Rightarrow> Some P_settling
   | O_opened \<Rightarrow> if now \<ge> of_close_at r then Some P_closed else None
   | O_planned \<Rightarrow> None
   | O_approved \<Rightarrow> None)"

record offering_detail =
  od_offering :: offering
  od_count :: nat
  od_threshold :: nat
  od_you :: bool
  od_phase :: "settlement_phase option"

definition detail_of :: "escrow_config \<Rightarrow> instant \<Rightarrow> ident \<Rightarrow> odb \<Rightarrow> offering \<Rightarrow> offering_detail" where
  "detail_of cfg now adminSub d r =
     (case (case approvalSummaryFor (of_id r) (cfg_signers cfg) adminSub (db_approvals d) of
              None \<Rightarrow> (0, False) | Some s \<Rightarrow> s) of
        (cnt, you) \<Rightarrow> \<lparr>od_offering = r, od_count = cnt, od_threshold = cfg_threshold cfg, od_you = you,
                       od_phase = deriveSettlementPhase r now\<rparr>)"

definition getOne :: "escrow_config \<Rightarrow> instant \<Rightarrow> ident \<Rightarrow> ident \<Rightarrow> odb \<Rightarrow> http_error + offering_detail" where
  "getOne cfg now offeringId adminSub d = (case find_offering offeringId (db_offerings d) of
     None \<Rightarrow> Inl (FailHttp ''OFFERING_NOT_FOUND'' 404)
   | Some r \<Rightarrow> Inr (detail_of cfg now adminSub d r))"

text \<open>The CSV filter: \<open>parts\<close> are its trimmed, non-empty entries (\<open>None\<close> when the CSV is blank).\<close>

fun status_name :: "offering_status \<Rightarrow> string" where
  "status_name O_planned = ''planned''"
| "status_name O_approved = ''approved''"
| "status_name O_opened = ''opened''"
| "status_name O_subscribed = ''subscribed''"
| "status_name O_settled = ''settled''"
| "status_name O_canceled = ''canceled''"

definition OFFERING_STATUSES :: "offering_status list" where
  "OFFERING_STATUSES = [O_planned, O_approved, O_opened, O_subscribed, O_settled, O_canceled]"

fun split_comma :: "string \<Rightarrow> string \<Rightarrow> string list" where
  "split_comma acc [] = [acc]"
| "split_comma acc (c # cs) = (if c = CHR '','' then acc # split_comma [] cs else split_comma (acc @ [c]) cs)"

definition is_space :: "char \<Rightarrow> bool" where
  "is_space c \<longleftrightarrow> (of_char c :: nat) = 32 \<or> (9 \<le> (of_char c :: nat) \<and> (of_char c :: nat) \<le> 13)"

definition trim :: "string \<Rightarrow> string" where
  "trim s = rev (dropWhile is_space (rev (dropWhile is_space s)))"

definition parseStatuses :: "string option \<Rightarrow> http_error + offering_status list" where
  "parseStatuses csv =
     (let parts = (case csv of None \<Rightarrow> [] | Some s \<Rightarrow> filter (\<lambda>p. p \<noteq> []) (map trim (split_comma [] s))) in
      if parts = [] then Inr ACTIVE_OFFERING_STATUSES
      else if list_ex (\<lambda>p. p \<notin> set (map status_name OFFERING_STATUSES)) parts
        then Inl (FailHttp ''VALIDATION_FAILED'' 400)
      else Inr (map (\<lambda>p. the (find (\<lambda>s. status_name s = p) OFFERING_STATUSES)) parts))"

definition list_offerings ::
  "escrow_config \<Rightarrow> instant \<Rightarrow> string option \<Rightarrow> ident option \<Rightarrow> nat \<Rightarrow> nat \<Rightarrow> ident \<Rightarrow> odb
   \<Rightarrow> http_error + offering_detail list \<times> nat" where
  "list_offerings cfg now csv artwork page limit adminSub d =
     bindE (parseStatuses csv) (\<lambda>statuses.
       case listForBackoffice statuses artwork page limit (db_offerings d) of
         (rows, tot) \<Rightarrow> Inr (map (detail_of cfg now adminSub d) rows, tot))"

section \<open>The deploy worker\<close>

record constructor_args =
  ka_usdc :: ident
  ka_supply :: int
  ka_artist :: ident
  ka_artist_retention :: int
  ka_treasury :: ident
  ka_treasury_retention :: int
  ka_artist_payout :: ident
  ka_admin :: ident

text \<open>\<open>OfferingEscrowError\<close>: the class name and the retryable flag its constructor passes.\<close>

datatype escrow_error =
    Throttled | SequenceError | ParamDrift | WasmMismatch | SettleContractError "int option" | OtherError string

definition retryable :: "escrow_error \<Rightarrow> bool" where
  "retryable e \<longleftrightarrow> e = Throttled \<or> e = SequenceError"

definition requireRetentions :: "fraction_contract \<Rightarrow> escrow_error + int \<times> int" where
  "requireRetentions fc = (case (fc_artist_retention fc, fc_treasury_retention fc) of
     (Some a, Some t) \<Rightarrow> Inr (a, t) | _ \<Rightarrow> Inl ParamDrift)"

definition mapConstructorArgs :: "fraction_contract \<Rightarrow> escrow_config \<Rightarrow> escrow_error + constructor_args" where
  "mapConstructorArgs fc cfg = bindE (requireRetentions fc) (\<lambda>(a, t).
     Inr \<lparr>ka_usdc = cfg_usdc cfg, ka_supply = fc_supply fc, ka_artist = fc_artist_address fc,
          ka_artist_retention = a, ka_treasury = cfg_treasury cfg, ka_treasury_retention = t,
          ka_artist_payout = fc_artist_address fc, ka_admin = cfg_admin cfg\<rparr>)"

definition assertPublicFloatMatches :: "offering \<Rightarrow> fraction_contract \<Rightarrow> escrow_error + unit" where
  "assertPublicFloatMatches off fc = bindE (requireRetentions fc) (\<lambda>(a, t).
     guardE (of_float off = fc_supply fc - a - t) ParamDrift)"

text \<open>The positional ScVal list, in the order \<open>encodeConstructorArgs\<close> gives it.\<close>

definition encodeConstructorArgs :: "constructor_args \<Rightarrow> scval list" where
  "encodeConstructorArgs a =
     [ScAddress (ka_usdc a), ScI128 (ka_supply a), ScAddress (ka_artist a), ScI128 (ka_artist_retention a),
      ScAddress (ka_treasury a), ScI128 (ka_treasury_retention a), ScAddress (ka_artist_payout a),
      ScAddress (ka_admin a)]"

text \<open>How a job ends: returned, thrown (the queue retries), or thrown unrecoverable.\<close>

datatype job_outcome = JobDone | JobRetry | JobUnrecoverable

text \<open>The belts and the deploy call, inside the \<open>try\<close>.\<close>

definition deploy_attempt ::
  "escrow_config \<Rightarrow> (constructor_args \<Rightarrow> escrow_error + ident \<times> ident option) \<Rightarrow> offering
   \<Rightarrow> fraction_contract \<Rightarrow> escrow_error + ident \<times> ident option" where
  "deploy_attempt cfg deployEscrow off fc =
     bindE (assertPublicFloatMatches off fc) (\<lambda>_.
     bindE (guardE (of_snapshot_artist off = Some (fc_artist_address fc)) ParamDrift) (\<lambda>_.
     bindE (mapConstructorArgs fc cfg) deployEscrow))"

definition deploy_latch :: "instant \<Rightarrow> ident \<Rightarrow> ident \<Rightarrow> odb \<Rightarrow> odb" where
  "deploy_latch now i address d =
     (case on_offerings (casEscrowDeployed now i address) d of
        (False, d1) \<Rightarrow> d1
      | (True, d1) \<Rightarrow> audit_record \<lparr>ae_kind = ''offering.escrow.deployed'', ae_actor = None, ae_subject = i\<rparr>
          (d1\<lparr>db_approvals := softDeleteAllForOffering now i (db_approvals d1)\<rparr>))"

definition deploy_fail :: "instant \<Rightarrow> ident \<Rightarrow> odb \<Rightarrow> odb" where
  "deploy_fail now i d = audit_record \<lparr>ae_kind = ''offering.escrow.deploy_failed'', ae_actor = None, ae_subject = i\<rparr>
     (snd (on_offerings (casEscrowFailed now i) d))"

text \<open>
  \<open>OfferingEscrowDeployProcessor.process\<close>. \<open>db_ok\<close> is whether the persisting transaction
  commits: its failure is thrown inside the same \<open>try\<close>, untyped. The missing contract row is
  thrown before it.
\<close>

definition deploy_process ::
  "escrow_config \<Rightarrow> (constructor_args \<Rightarrow> escrow_error + ident \<times> ident option) \<Rightarrow> bool \<Rightarrow> instant \<Rightarrow> ident
   \<Rightarrow> odb \<Rightarrow> job_outcome \<times> odb" where
  "deploy_process cfg deployEscrow db_ok now offeringId d =
     (case find_offering offeringId (db_offerings d) of
        None \<Rightarrow> (JobDone, d)
      | Some off \<Rightarrow>
          if of_deploy off \<noteq> Some D_deploying then (JobDone, d)
          else case find_contract (of_contract off) d of
            None \<Rightarrow> (JobRetry, d)
          | Some fc \<Rightarrow>
              (case bindE (deploy_attempt cfg deployEscrow off fc)
                      (\<lambda>res. if db_ok then Inr res else Inl (OtherError ''QueryFailedError'')) of
                 Inr (address, tx) \<Rightarrow> (JobDone, deploy_latch now (of_id off) address d)
               | Inl e \<Rightarrow> if retryable e then (JobRetry, d)
                          else (JobUnrecoverable, deploy_fail now (of_id off) d)))"

section \<open>The reconcile sweeps\<close>

definition sweepStaleDeploying :: "escrow_config \<Rightarrow> instant \<Rightarrow> (ident \<Rightarrow> bool) \<Rightarrow> odb \<Rightarrow> job list" where
  "sweepStaleDeploying cfg now enq d =
     map (\<lambda>r. JobDeploy (of_id r)) (filter (\<lambda>r. enq (of_id r))
       (findStaleDeploying now (cfg_deploy_grace cfg) (cfg_batch cfg) (db_offerings d)))"

definition open_one :: "instant \<Rightarrow> ident \<Rightarrow> odb \<Rightarrow> odb" where
  "open_one now i d = (case on_offerings (casOpened now i) d of
     (False, d1) \<Rightarrow> d1
   | (True, d1) \<Rightarrow> audit_record \<lparr>ae_kind = ''offering.opened'', ae_actor = None, ae_subject = i\<rparr> d1)"

definition sweepWindowOpen :: "escrow_config \<Rightarrow> instant \<Rightarrow> instant \<Rightarrow> odb \<Rightarrow> odb" where
  "sweepWindowOpen cfg now now2 d =
     fold (\<lambda>r. open_one now2 (of_id r)) (findDueForOpen now (cfg_batch cfg) (db_offerings d)) d"

definition expire_one :: "instant \<Rightarrow> ident \<Rightarrow> odb \<Rightarrow> odb" where
  "expire_one now i d = audit_record \<lparr>ae_kind = ''offering.approval.expired'', ae_actor = None, ae_subject = i\<rparr>
     (d\<lparr>db_approvals := softDeleteAllForOffering now i (db_approvals d)\<rparr>)"

definition sweepExpiry :: "escrow_config \<Rightarrow> instant \<Rightarrow> instant \<Rightarrow> odb \<Rightarrow> odb" where
  "sweepExpiry cfg now now2 d = fold (expire_one now2)
     (findExpiredOfferingIds now (cfg_ttl_days cfg * 24 * 60 * 60 * 1000) (cfg_batch cfg)
        (db_offerings d) (db_approvals d)) d"

definition reconcile_process ::
  "escrow_config \<Rightarrow> instant \<Rightarrow> instant \<Rightarrow> (ident \<Rightarrow> bool) \<Rightarrow> odb \<Rightarrow> odb \<times> job list" where
  "reconcile_process cfg now now2 enq d =
     (let jobs = sweepStaleDeploying cfg now enq d;
          d1 = sweepWindowOpen cfg now now2 d
      in (sweepExpiry cfg now now2 d1, jobs))"

end
