(* ===== verification/Escrow_Service.thy ===== *)
theory Escrow_Service
  imports Relayer Offering_Plan
begin

text \<open>
  The escrow adapter (\<open>offerings/escrow/soroban-offering-escrow.service.ts\<close>, \<open>settle-args.ts\<close>):
  one transaction leg is a \<open>tx_rpc\<close>, the answers of the account lock, the RPC server and the clock;
  \<open>tr_lands\<close> is the truth they observe, whether the transaction was applied successfully. Errors
  are the classes the callers distinguish: an \<open>OfferingEscrowError\<close> with its subclass, a
  \<open>RangeError\<close>, the settle worker's \<open>SettleInvariantError\<close>, any other error.
\<close>

section \<open>Errors and answers\<close>

datatype settle_throw = SE_escrow escrow_error | SE_range | SE_invariant | SE_other

fun rpcE :: "'a rpc \<Rightarrow> settle_throw + 'a" where
  "rpcE (Rpc x) = Inr x"
| "rpcE RpcError = Inl SE_other"

datatype escrow_view = V_open | V_closed | V_settled | V_cancelled | V_unknown

definition decodeEscrowStatus :: "string \<Rightarrow> escrow_view" where
  "decodeEscrowStatus variant =
     (if variant = ''Open'' then V_open else if variant = ''Closed'' then V_closed
      else if variant = ''Settled'' then V_settled else if variant = ''Cancelled'' then V_cancelled else V_unknown)"

text \<open>\<open>/Error\(Contract,\s*#(\d+)\)/.exec\<close>: the first position of the text at which the pattern matches.\<close>

fun strip :: "string \<Rightarrow> string \<Rightarrow> string option" where
  "strip [] s = Some s"
| "strip (p # ps) [] = None"
| "strip (p # ps) (c # cs) = (if p = c then strip ps cs else None)"

definition match_code :: "string \<Rightarrow> int option" where
  "match_code s = (case strip ''Error(Contract,'' s of
     None \<Rightarrow> None
   | Some t \<Rightarrow> (case dropWhile is_space t of
       [] \<Rightarrow> None
     | h # u \<Rightarrow> if h \<noteq> CHR ''#'' then None
         else if takeWhile is_digit u = [] then None
         else (case dropWhile is_digit u of
             [] \<Rightarrow> None
           | k # v \<Rightarrow> if k = CHR '')'' then Some (int (parse_digits (takeWhile is_digit u))) else None)))"

fun parseContractErrorCode :: "string \<Rightarrow> int option" where
  "parseContractErrorCode [] = None"
| "parseContractErrorCode (c # cs) =
     (case match_code (c # cs) of Some n \<Rightarrow> Some n | None \<Rightarrow> parseContractErrorCode cs)"

section \<open>Arguments of the settlement\<close>

definition MAX_U32 :: int where
  "MAX_U32 = 4294967295"

definition encodeClearingPrice :: "int \<Rightarrow> scval" where
  "encodeClearingPrice p = ScI128 p"

text \<open>The loop of \<open>encodeAllocations\<close>; the accumulator is the \<open>Set\<close> of bid ids seen.\<close>

definition check_alloc_arg :: "int \<times> int \<Rightarrow> int set \<Rightarrow> settle_throw + int set" where
  "check_alloc_arg e seen = (case e of (bidId, allocated) \<Rightarrow>
     if bidId < 1 \<or> bidId > MAX_U32 then Inl SE_range
     else if bidId \<in> seen then Inl SE_range
     else if allocated \<le> 0 then Inl SE_range
     else Inr (insert bidId seen))"

definition encodeAllocations :: "(int \<times> int) list \<Rightarrow> settle_throw + scval" where
  "encodeAllocations allocations = bindE (foldE check_alloc_arg allocations {})
     (\<lambda>_. Inr (ScVec (map (\<lambda>(bidId, allocated). ScVec [ScU32 bidId, ScI128 allocated]) allocations)))"

section \<open>One transaction leg\<close>

text \<open>
  A simulation either fails with its error text or gives, per authorization entry, whether it is
  the source account's, and the fee of the assembled transaction.
\<close>

datatype sim_answer = SimFail string | SimOk "bool list" int

record tx_rpc =
  tr_lock :: bool
  tr_account :: "unit rpc"
  tr_sim :: "sim_answer rpc"
  tr_send :: "send_status rpc"
  tr_start :: instant
  tr_clock :: "nat \<Rightarrow> instant"
  tr_get :: "nat \<Rightarrow> tx_status rpc"
  tr_lands :: bool

record adapter_config =
  ac_max_fee :: int
  ac_poll_timeout :: int
  ac_wasm :: string

text \<open>\<open>buildSimulateAssemble\<close>, with the caller's handler of a simulation error.\<close>

definition buildSimulateAssemble :: "adapter_config \<Rightarrow> (string \<Rightarrow> escrow_error) \<Rightarrow> tx_rpc \<Rightarrow> settle_throw + unit" where
  "buildSimulateAssemble cfg onSimError t =
     bindE (rpcE (tr_account t)) (\<lambda>_.
     bindE (rpcE (tr_sim t)) (\<lambda>sim. case sim of
         SimFail err \<Rightarrow> Inl (SE_escrow (onSimError err))
       | SimOk auth fee \<Rightarrow>
           if \<not> list_all (\<lambda>source. source) auth then Inl (SE_escrow (OtherError ''non-source auth''))
           else guardE (\<not> fee > ac_max_fee cfg) (SE_escrow (OtherError ''fee cap''))))"

text \<open>The send of a settlement leg: every refused send is retried.\<close>

fun settle_send :: "send_status \<Rightarrow> settle_throw + ident" where
  "settle_send (Send_pending h) = Inr h"
| "settle_send (Send_duplicate h) = Inr h"
| "settle_send Send_try_again_later = Inl (SE_escrow Throttled)"
| "settle_send (Send_error seq) = Inl (SE_escrow (if seq then SequenceError else Throttled))"

text \<open>The poll of both closures: the n-th \<open>getTransaction\<close> against the deadline.\<close>

partial_function (option) escrow_poll ::
  "tx_rpc \<Rightarrow> instant \<Rightarrow> (tx_status \<Rightarrow> settle_throw + 'r) \<Rightarrow> nat \<Rightarrow> (settle_throw + 'r) option" where
  "escrow_poll t deadline final n = (case tr_get t n of
     RpcError \<Rightarrow> Some (Inl SE_other)
   | Rpc s \<Rightarrow> if s = Tx_not_found
       then if tr_clock t n \<ge> deadline then Some (Inl (SE_escrow Throttled))
            else escrow_poll t deadline final (Suc n)
       else Some (final s))"

definition ledger_final :: "tx_status \<Rightarrow> settle_throw + int" where
  "ledger_final s = (case s of Tx_success ledger _ \<Rightarrow> Inr ledger | _ \<Rightarrow> Inl (SE_escrow Throttled))"

definition pollForLedger :: "adapter_config \<Rightarrow> tx_rpc \<Rightarrow> (settle_throw + int) option" where
  "pollForLedger cfg t = escrow_poll t (tr_start t + ac_poll_timeout cfg) ledger_final 0"

definition sendAndPoll :: "adapter_config \<Rightarrow> tx_rpc \<Rightarrow> (settle_throw + ident \<times> int) option" where
  "sendAndPoll cfg t = (case bindE (rpcE (tr_send t)) settle_send of
     Inl e \<Rightarrow> Some (Inl e)
   | Inr h \<Rightarrow> map_option (\<lambda>r. bindE r (\<lambda>ledger. Inr (h, ledger))) (pollForLedger cfg t))"

section \<open>readStatus, closeOffering, closeAndSettle\<close>

datatype status_sim = StatusFail | StatusNone | StatusVal string

definition readStatus :: "unit rpc \<Rightarrow> status_sim rpc \<Rightarrow> settle_throw + escrow_view" where
  "readStatus account sim =
     bindE (rpcE account) (\<lambda>_.
     bindE (rpcE sim) (\<lambda>s. case s of
         StatusFail \<Rightarrow> Inl (SE_escrow Throttled)
       | StatusNone \<Rightarrow> Inl (SE_escrow Throttled)
       | StatusVal v \<Rightarrow> Inr (decodeEscrowStatus v)))"

definition close_sim_error :: "string \<Rightarrow> escrow_error" where
  "close_sim_error err = (if parseContractErrorCode err = Some 1 then Throttled
     else SettleContractError (parseContractErrorCode err))"

definition closeOffering :: "adapter_config \<Rightarrow> tx_rpc \<Rightarrow> (settle_throw + ident) option" where
  "closeOffering cfg t =
     (if \<not> tr_lock t then Some (Inl SE_other)
      else case buildSimulateAssemble cfg close_sim_error t of
        Inl e \<Rightarrow> Some (Inl e)
      | Inr _ \<Rightarrow> map_option (\<lambda>r. bindE r (\<lambda>(h, ledger). Inr h)) (sendAndPoll cfg t))"

datatype settle_result = AlreadySettled | SettledTx ident int

text \<open>The status is read again inside the lock; the arguments are encoded before the leg starts.\<close>

definition closeAndSettle ::
  "adapter_config \<Rightarrow> settle_throw + escrow_view \<Rightarrow> tx_rpc \<Rightarrow> (int \<times> int) list \<Rightarrow> (settle_throw + settle_result) option" where
  "closeAndSettle cfg status t allocations =
     (if \<not> tr_lock t then Some (Inl SE_other)
      else case status of
        Inl e \<Rightarrow> Some (Inl e)
      | Inr v \<Rightarrow> if v = V_settled then Some (Inr AlreadySettled)
          else case bindE (encodeAllocations allocations) (\<lambda>_.
                 buildSimulateAssemble cfg (\<lambda>err. SettleContractError (parseContractErrorCode err)) t) of
            Inl e \<Rightarrow> Some (Inl e)
          | Inr _ \<Rightarrow> map_option (\<lambda>r. bindE r (\<lambda>(h, ledger). Inr (SettledTx h ledger))) (sendAndPoll cfg t))"

section \<open>deployEscrow\<close>

datatype instance_entry = InstanceWasm string | InstanceOther

fun readInstanceWasmHash :: "instance_entry option rpc \<Rightarrow> settle_throw + string option" where
  "readInstanceWasmHash RpcError = Inl SE_other"
| "readInstanceWasmHash (Rpc None) = Inr None"
| "readInstanceWasmHash (Rpc (Some InstanceOther)) = Inl (SE_escrow WasmMismatch)"
| "readInstanceWasmHash (Rpc (Some (InstanceWasm w))) = Inr (Some w)"

fun deploy_send :: "send_status \<Rightarrow> settle_throw + ident" where
  "deploy_send (Send_pending h) = Inr h"
| "deploy_send (Send_duplicate h) = Inr h"
| "deploy_send Send_try_again_later = Inl (SE_escrow Throttled)"
| "deploy_send (Send_error seq) = Inl (SE_escrow (if seq then SequenceError else OtherError ''send rejected''))"

definition deploy_final :: "tx_status \<Rightarrow> settle_throw + unit" where
  "deploy_final s = (case s of Tx_success _ _ \<Rightarrow> Inr () | _ \<Rightarrow> Inl (SE_escrow (OtherError ''not succeeded'')))"

definition pollToClosure :: "adapter_config \<Rightarrow> tx_rpc \<Rightarrow> (settle_throw + unit) option" where
  "pollToClosure cfg t = escrow_poll t (tr_start t + ac_poll_timeout cfg) deploy_final 0"

text \<open>Up to the send; an auth entry is not inspected here.\<close>

definition deploy_prepare :: "adapter_config \<Rightarrow> tx_rpc \<Rightarrow> settle_throw + ident" where
  "deploy_prepare cfg t =
     bindE (rpcE (tr_account t)) (\<lambda>_.
     bindE (rpcE (tr_sim t)) (\<lambda>sim. case sim of
         SimFail err \<Rightarrow> Inl (SE_escrow (OtherError ''simulation''))
       | SimOk auth fee \<Rightarrow>
           bindE (guardE (\<not> fee > ac_max_fee cfg) (SE_escrow (OtherError ''fee cap''))) (\<lambda>_.
           bindE (rpcE (tr_send t)) deploy_send)))"

text \<open>The address is the deterministic one of the offering; the hash is of the sent transaction.\<close>

definition deployLocked ::
  "adapter_config \<Rightarrow> ident \<Rightarrow> instance_entry option rpc \<Rightarrow> tx_rpc \<Rightarrow> (settle_throw + ident \<times> ident option) option" where
  "deployLocked cfg address inst t = (case readInstanceWasmHash inst of
     Inl e \<Rightarrow> Some (Inl e)
   | Inr (Some w) \<Rightarrow> if w \<noteq> ac_wasm cfg then Some (Inl (SE_escrow WasmMismatch)) else Some (Inr (address, None))
   | Inr None \<Rightarrow> (case deploy_prepare cfg t of
       Inl e \<Rightarrow> Some (Inl e)
     | Inr h \<Rightarrow> map_option (\<lambda>r. bindE r (\<lambda>_. Inr (address, Some h))) (pollToClosure cfg t)))"

definition deployEscrow ::
  "adapter_config \<Rightarrow> ident \<Rightarrow> instance_entry option rpc \<Rightarrow> tx_rpc \<Rightarrow> (settle_throw + ident \<times> ident option) option" where
  "deployEscrow cfg address inst t =
     (if \<not> tr_lock t then Some (Inl SE_other) else deployLocked cfg address inst t)"

text \<open>The lock's crash ceiling: the RPCs before the poll, the poll with its overshoot, a margin.\<close>

definition lock_ttl :: "adapter_config \<Rightarrow> int" where
  "lock_ttl cfg = 4 * 5000 + ac_poll_timeout cfg + POLL_INTERVAL_MS + 5000 + 15000"

end
