(* ===== verification/Offering_Settle.thy ===== *)
theory Offering_Settle
  imports Escrow_Service
begin

text \<open>
  Settlement of a subscribed offering: the backoffice trigger and preview
  (\<open>backoffice-offering-settle.service.ts\<close>), the settle worker (\<open>offering-settle.processor.ts\<close>) and
  the stale sweep. The worker's chain port is \<open>settle_port\<close>, the answers its three calls give;
  theory \<open>Settle_Chain\<close> ties them to the adapter and the contract.
\<close>

section \<open>From the book to the clearing\<close>

definition toClearingInput :: "offering_bid \<Rightarrow> settle_throw + clearing_bid" where
  "toClearingInput b = (case bd_chain b of
     None \<Rightarrow> Inl SE_other
   | Some c \<Rightarrow> Inr \<lparr>cb_id = bd_id b, cb_chain = c, cb_collector = bd_sub b, cb_price = bd_price b, cb_count = bd_count b,
       cb_created = bd_created b, cb_escrow = bd_escrow_amount b\<rparr>)"

fun mapE :: "('a \<Rightarrow> 'e + 'b) \<Rightarrow> 'a list \<Rightarrow> 'e + 'b list" where
  "mapE f [] = Inr []"
| "mapE f (x # xs) = bindE (f x) (\<lambda>y. bindE (mapE f xs) (\<lambda>ys. Inr (y # ys)))"

fun rangeE :: "clearing_error + 'a \<Rightarrow> settle_throw + 'a" where
  "rangeE (Inl _) = Inl SE_range"
| "rangeE (Inr x) = Inr x"

definition clearing_of_book :: "offering \<Rightarrow> offering_bid list \<Rightarrow> settle_throw + clearing_result" where
  "clearing_of_book off bids =
     bindE (mapE toClearingInput bids) (\<lambda>inputs. rangeE (compute_clearing inputs (of_float off)))"

section \<open>BackofficeOfferingSettleService\<close>

text \<open>A throw of the clearing engine is not an HTTP error: the client gets a 500.\<close>

fun internalE :: "settle_throw + 'a \<Rightarrow> http_error + 'a" where
  "internalE (Inl _) = Inl (InternalError ''clearing'')"
| "internalE (Inr x) = Inr x"

definition previewClearing :: "instant \<Rightarrow> bool \<Rightarrow> ident \<Rightarrow> ident \<Rightarrow> odb \<Rightarrow> (http_error + offering \<times> clearing_result) \<times> odb" where
  "previewClearing now audit_ok offeringId adminSub d =
     (case find_offering offeringId (db_offerings d) of
        None \<Rightarrow> (Inl (FailHttp ''OFFERING_NOT_FOUND'' 404), d)
      | Some off \<Rightarrow>
          if of_status off = O_opened \<and> of_close_at off > now then (Inl (FailHttp ''OFFERING_WINDOW_STILL_OPEN'' 409), d)
          else if of_status off \<noteq> O_opened \<and> of_status off \<noteq> O_subscribed then (Inl (FailHttp ''OFFERING_NOT_OPEN'' 409), d)
          else case internalE (clearing_of_book off (listBidsForClearing (of_id off) (db_bids d))) of
            Inl e \<Rightarrow> (Inl e, d)
          | Inr r \<Rightarrow> (Inr (off, r), if audit_ok
              then audit_record \<lparr>ae_kind = ''offering.clearing.previewed'', ae_actor = Some adminSub, ae_subject = of_id off\<rparr> d
              else d))"

text \<open>The gates of \<open>settle\<close> up to the latch: the offering, whether it is a re-drive, and the clearing.\<close>

definition settle_gates :: "escrow_config \<Rightarrow> instant \<Rightarrow> ident \<Rightarrow> odb \<Rightarrow> http_error + offering \<times> bool \<times> int \<times> nat" where
  "settle_gates cfg now offeringId d =
     (case find_offering offeringId (db_offerings d) of
        None \<Rightarrow> Inl (FailHttp ''OFFERING_NOT_FOUND'' 404)
      | Some off \<Rightarrow>
          let isRedrive = (of_status off = O_subscribed \<and> of_fail_at off \<noteq> None) in
          if of_status off = O_settled then Inl (FailHttp ''OFFERING_ALREADY_SETTLED'' 409)
          else if of_status off = O_subscribed \<and> \<not> isRedrive then Inl (FailHttp ''OFFERING_SETTLE_IN_PROGRESS'' 409)
          else if of_status off \<noteq> O_opened \<and> of_status off \<noteq> O_subscribed then Inl (FailHttp ''OFFERING_NOT_OPEN'' 409)
          else if of_status off = O_opened \<and> of_close_at off > now then Inl (FailHttp ''OFFERING_WINDOW_STILL_OPEN'' 409)
          else if of_escrow off \<in> {None, Some ''''} \<or> of_deploy off \<noteq> Some D_deployed
            then Inl (FailHttp ''OFFERING_ESCROW_UNAVAILABLE'' 409)
          else if countInflight (of_id off) (db_bids d) > 0 then Inl (FailHttp ''OFFERING_HAS_INFLIGHT_BIDS'' 409)
          else if countActiveForOffering (of_id off) (db_bids d) > cfg_max_bids cfg
            then Inl (FailHttp ''OFFERING_TOO_MANY_BIDS'' 409)
          else bindE (internalE (clearing_of_book off (listBidsForClearing (of_id off) (db_bids d)))) (\<lambda>r.
            case cr_price r of
              None \<Rightarrow> Inl (FailHttp ''OFFERING_UNDERSUBSCRIBED'' 422)
            | Some P \<Rightarrow> if \<not> cr_fully_subscribed r then Inl (FailHttp ''OFFERING_UNDERSUBSCRIBED'' 422)
                else Inr (off, isRedrive, P, length (cr_winners r))))"

text \<open>The latch, under the row lock.\<close>

definition settle_latch :: "instant \<Rightarrow> ident \<Rightarrow> bool \<Rightarrow> odb \<Rightarrow> bool \<times> odb" where
  "settle_latch now i isRedrive d =
     (if find_offering i (db_offerings d) = None then (False, d)
      else if isRedrive then on_offerings (setSettleFailureStamp now i None) d
      else on_offerings (casSubscribed now i) d)"

record settle_body =
  sb_offering :: offering
  sb_price :: int
  sb_winners :: nat

text \<open>\<open>d2\<close> is the database the latch finds: other requests may run between the gates and the lock.\<close>

definition settle_work ::
  "escrow_config \<Rightarrow> instant \<Rightarrow> instant \<Rightarrow> ident \<Rightarrow> odb \<Rightarrow> odb \<Rightarrow> (http_error + settle_body) \<times> odb" where
  "settle_work cfg now now2 offeringId d d2 =
     (case settle_gates cfg now offeringId d of
        Inl e \<Rightarrow> (Inl e, d2)
      | Inr (off, isRedrive, P, winners) \<Rightarrow>
          (case settle_latch now2 (of_id off) isRedrive d2 of
             (False, d3) \<Rightarrow> (Inl (FailHttp ''OFFERING_SETTLE_IN_PROGRESS'' 409), d3)
           | (True, d3) \<Rightarrow>
               (Inr \<lparr>sb_offering = (case find_offering (of_id off) (db_offerings d3) of None \<Rightarrow> off | Some o' \<Rightarrow> o'),
                     sb_price = P, sb_winners = winners\<rparr>, d3)))"

definition settle ::
  "escrow_config \<Rightarrow> instant \<Rightarrow> instant \<Rightarrow> bool \<Rightarrow> bool \<Rightarrow> string \<Rightarrow> (ident \<times> bool) list \<Rightarrow> (odb \<Rightarrow> odb) \<Rightarrow> ident \<Rightarrow> ident
   \<Rightarrow> string \<Rightarrow> settle_body redis \<times> odb \<Rightarrow> (http_error + settle_body option) \<times> settle_body redis \<times> odb \<times> job list" where
  "settle cfg now now2 up enq fp atts meanwhile offeringId adminSub idempotencyKey sd =
     (case sd of (s, d) \<Rightarrow>
      let key = ''idem:offering-settle:'' @ adminSub @ '':'' @ idempotencyKey in
      case idem_begin now key fp atts s of
        (Replay b, s') \<Rightarrow> (Inr b, s', d, [])
      | (InFlight, s') \<Rightarrow> (Inl (FailHttp ''IDEMPOTENCY_KEY_IN_FLIGHT'' 409), s', d, [])
      | (Mismatch, s') \<Rightarrow> (Inl (FailHttp ''IDEMPOTENCY_KEY_MISMATCH'' 422), s', d, [])
      | (Proceed token, s') \<Rightarrow>
          (case settle_work cfg now now2 offeringId d (meanwhile d) of
             (Inl e, d') \<Rightarrow> (Inl e, idem_fail now2 key token up s', d', [])
           | (Inr body, d') \<Rightarrow> (Inr (Some body), idem_complete now2 key token body up s', d',
               if enq then [JobSettle offeringId] else [])))"

section \<open>The settle worker\<close>

fun isTerminalSettleError :: "settle_throw \<Rightarrow> bool" where
  "isTerminalSettleError (SE_escrow e) = (\<not> retryable e)"
| "isTerminalSettleError SE_range = True"
| "isTerminalSettleError SE_invariant = True"
| "isTerminalSettleError SE_other = False"

record settle_port =
  sp_status :: "settle_throw + escrow_view"
  sp_close :: "settle_throw + ident"
  sp_settle :: "int \<Rightarrow> (int \<times> int) list \<Rightarrow> settle_throw + settle_result"

definition recordClosed :: "bool \<Rightarrow> ident \<Rightarrow> odb \<Rightarrow> odb" where
  "recordClosed audit_ok i d =
     (if audit_ok then audit_record \<lparr>ae_kind = ''offering.closed'', ae_actor = None, ae_subject = i\<rparr> d else d)"

definition assertBookFinal :: "ident \<Rightarrow> odb \<Rightarrow> settle_throw + unit" where
  "assertBookFinal i d = guardE (\<not> countInflight i (db_bids d) > 0) (SE_escrow Throttled)"

text \<open>The self-heal switch: whether the settlement is adopted; the state carries the audit of a close.\<close>

definition settle_heal :: "bool \<Rightarrow> settle_port \<Rightarrow> ident \<Rightarrow> odb \<Rightarrow> (settle_throw + bool) \<times> odb" where
  "settle_heal audit_ok port i d = (case sp_status port of
     Inl e \<Rightarrow> (Inl e, d)
   | Inr V_settled \<Rightarrow> (Inr True, d)
   | Inr V_open \<Rightarrow> (case sp_close port of
       Inl e \<Rightarrow> (Inl e, d)
     | Inr _ \<Rightarrow> let d1 = recordClosed audit_ok i d in (bindE (assertBookFinal i d1) (\<lambda>_. Inr False), d1))
   | Inr V_closed \<Rightarrow> (bindE (assertBookFinal i d) (\<lambda>_. Inr False), d)
   | Inr V_cancelled \<Rightarrow> (Inl (SE_escrow (SettleContractError None)), d)
   | Inr V_unknown \<Rightarrow> (Inl (SE_escrow Throttled), d))"

definition band_of :: "offering \<Rightarrow> clearing_band" where
  "band_of off = \<lparr>band_low = of_low off, band_high = of_high off\<rparr>"

definition settle_clearing :: "escrow_config \<Rightarrow> offering \<Rightarrow> odb \<Rightarrow> settle_throw + clearing_result \<times> nat" where
  "settle_clearing cfg off d =
     (let bids = listBidsForClearing (of_id off) (db_bids d) in
      bindE (clearing_of_book off bids) (\<lambda>result.
      bindE (rangeE (assert_clearing_invariants result (band_of off) (of_float off) (int (length bids)) (int (cfg_max_bids cfg))))
        (\<lambda>_. Inr (result, length bids))))"

definition settle_allocations :: "clearing_result \<Rightarrow> (int \<times> int) list" where
  "settle_allocations result = map (\<lambda>w. (cw_chain w, cw_allocated w)) (cr_winners result)"

text \<open>The chain outcome that the receipt records: hash, ledger, adopted.\<close>

definition settle_on_chain :: "settle_port \<Rightarrow> bool \<Rightarrow> clearing_result \<Rightarrow> settle_throw + (ident \<times> int) option" where
  "settle_on_chain port adopted result =
     (if adopted then Inr None
      else bindE (sp_settle port (the (cr_price result)) (settle_allocations result)) (\<lambda>r. case r of
         AlreadySettled \<Rightarrow> Inr None
       | SettledTx h ledger \<Rightarrow> Inr (Some (h, ledger))))"

definition clearing_row :: "offering \<Rightarrow> clearing_result \<Rightarrow> (ident \<times> int) option \<Rightarrow> clearing_audit" where
  "clearing_row off result tx =
     \<lparr>ca_offering = of_id off, ca_price = the (cr_price result), ca_float = of_float off, ca_demand = cr_total_demand result,
      ca_proceeds = cr_proceeds result, ca_fee = cr_platform_fee result, ca_net = cr_artist_net result,
      ca_cleared = sum_list (map cw_allocated (cr_winners result)), ca_absorbed = 0, ca_supply = of_supply off,
      ca_artist = of_artist_retention off, ca_treasury = of_treasury_retention off, ca_snapshot = cr_snapshot result,
      ca_allocations = to_allocation_map result, ca_tx = map_option fst tx, ca_ledger = map_option snd tx,
      ca_adopted = (tx = None)\<rparr>"

definition win_bid :: "instant \<Rightarrow> clearing_winner \<Rightarrow> odb \<Rightarrow> settle_throw + odb" where
  "win_bid now w d = (case on_bids (casWon now (cw_id w) (cw_allocated w) (cw_refund w)) d of
     (True, d') \<Rightarrow> Inr d' | (False, _) \<Rightarrow> Inl SE_invariant)"

text \<open>The work of \<open>persist\<close> on the transaction's state.\<close>

definition persist_work ::
  "instant \<Rightarrow> offering \<Rightarrow> clearing_result \<Rightarrow> nat \<Rightarrow> (ident \<times> int) option \<Rightarrow> odb \<Rightarrow> (settle_throw + unit) \<times> odb" where
  "persist_work now off result escrowedCount tx d =
     (case on_offerings (casSettled now (of_id off)) d of
        (False, d1) \<Rightarrow> (Inr (), d1)
      | (True, d1) \<Rightarrow>
        (case foldE (win_bid now) (cr_winners result) d1 of
           Inl e \<Rightarrow> (Inl e, d1)
         | Inr d2 \<Rightarrow>
           (case flipRemainingEscrowedToLost now (of_id off) (db_bids d2) of (t, lost) \<Rightarrow>
             let d3 = d2\<lparr>db_bids := t\<rparr> in
             if length (cr_winners result) + lost \<noteq> escrowedCount then (Inl SE_invariant, d3)
             else (case insertSnapshot (clearing_row off result tx) d3 of
                 (Inl _, d4) \<Rightarrow> (Inl SE_other, d4)
               | (Inr _, d4) \<Rightarrow> (Inr (), audit_record
                   \<lparr>ae_kind = ''offering.settled'', ae_actor = None, ae_subject = of_id off\<rparr> d4)))))"

text \<open>\<open>db_ok\<close> is whether the transaction commits.\<close>

definition persist ::
  "bool \<Rightarrow> instant \<Rightarrow> offering \<Rightarrow> clearing_result \<Rightarrow> nat \<Rightarrow> (ident \<times> int) option \<Rightarrow> odb \<Rightarrow> (settle_throw + unit) \<times> odb" where
  "persist db_ok now off result escrowedCount tx d =
     run_txn (\<lambda>d. if db_ok then persist_work now off result escrowedCount tx d else (Inl SE_other, d)) d"

definition settle_fail :: "instant \<Rightarrow> ident \<Rightarrow> string \<Rightarrow> odb \<Rightarrow> odb" where
  "settle_fail now i reason d = (case on_offerings (setSettleFailureStamp now i (Some reason)) d of
     (False, d1) \<Rightarrow> d1
   | (True, d1) \<Rightarrow> audit_record \<lparr>ae_kind = ''offering.settle_failed'', ae_actor = None, ae_subject = i\<rparr> d1)"

text \<open>\<open>sanitizeReason\<close>: runs of white space become one blank; at most 200 characters.\<close>

fun collapse_ws :: "string \<Rightarrow> string" where
  "collapse_ws [] = []"
| "collapse_ws (c # cs) = (if is_space c
     then (case collapse_ws cs of [] \<Rightarrow> '' '' | k # ks \<Rightarrow> if k = CHR '' '' then k # ks else CHR '' '' # k # ks)
     else c # collapse_ws cs)"

definition sanitizeReason :: "string \<Rightarrow> string \<Rightarrow> string" where
  "sanitizeReason name message = take 200 (name @ '': '' @ trim (collapse_ws message))"

text \<open>The body of the \<open>try\<close>.\<close>

definition settle_attempt ::
  "escrow_config \<Rightarrow> bool \<Rightarrow> bool \<Rightarrow> instant \<Rightarrow> settle_port \<Rightarrow> offering \<Rightarrow> odb \<Rightarrow> (settle_throw + unit) \<times> odb" where
  "settle_attempt cfg audit_ok db_ok now port off d =
     (case settle_heal audit_ok port (of_id off) d of
        (Inl e, d1) \<Rightarrow> (Inl e, d1)
      | (Inr adopted, d1) \<Rightarrow>
        (case settle_clearing cfg off d1 of
           Inl e \<Rightarrow> (Inl e, d1)
         | Inr (result, n) \<Rightarrow>
           (case settle_on_chain port adopted result of
              Inl e \<Rightarrow> (Inl e, d1)
            | Inr tx \<Rightarrow> persist db_ok now off result n tx d1)))"

text \<open>\<open>describe\<close> gives the class name and the message of an error.\<close>

definition settle_process ::
  "escrow_config \<Rightarrow> bool \<Rightarrow> bool \<Rightarrow> instant \<Rightarrow> (settle_throw \<Rightarrow> string \<times> string) \<Rightarrow> settle_port \<Rightarrow> ident \<Rightarrow> odb \<Rightarrow> job_outcome \<times> odb" where
  "settle_process cfg audit_ok db_ok now describe port offeringId d =
     (case find_offering offeringId (db_offerings d) of
        None \<Rightarrow> (JobDone, d)
      | Some off \<Rightarrow>
          if of_status off \<noteq> O_subscribed then (JobDone, d)
          else if of_escrow off \<in> {None, Some ''''} then (JobUnrecoverable,
                 settle_fail now (of_id off) ''no escrow contract address on subscribed offering'' d)
          else (case settle_attempt cfg audit_ok db_ok now port off d of
              (Inr _, d') \<Rightarrow> (JobDone, d')
            | (Inl e, d') \<Rightarrow> if \<not> isTerminalSettleError e then (JobRetry, d')
                else (JobUnrecoverable, settle_fail now (of_id off) (case_prod sanitizeReason (describe e)) d')))"

section \<open>The stale sweep\<close>

definition settle_reconcile :: "escrow_config \<Rightarrow> instant \<Rightarrow> (ident \<Rightarrow> bool) \<Rightarrow> odb \<Rightarrow> job list" where
  "settle_reconcile cfg now enq d =
     map (\<lambda>r. JobSettle (of_id r)) (filter (\<lambda>r. enq (of_id r))
       (findStaleSubscribed now (cfg_settle_grace cfg) (cfg_batch cfg) (db_offerings d)))"

end
