(* ===== verification/Settle_Props.thy ===== *)
theory Settle_Props
  imports Offering_Settle Clearing_Props
begin

text \<open>
  What a settle job does to the database: it settles the offering, every bid of the book and the
  snapshot together, or leaves the books as they were. The trigger latches only a settleable book.
\<close>

section \<open>The persisting transaction\<close>

definition won_row :: "instant \<Rightarrow> clearing_winner list \<Rightarrow> offering_bid \<Rightarrow> offering_bid" where
  "won_row now ws b = (case find (\<lambda>w. cw_id w = bd_id b \<and> bd_status b = B_escrowed) ws of
     None \<Rightarrow> b
   | Some w \<Rightarrow> b\<lparr>bd_status := B_won, bd_alloc := Some (cw_allocated w), bd_settle_refund := Some (cw_refund w),
       bd_updated := now\<rparr>)"

text \<open>A row of the table after the settlement of offering \<open>i\<close>.\<close>

definition settled_row :: "instant \<Rightarrow> ident \<Rightarrow> clearing_winner list \<Rightarrow> offering_bid \<Rightarrow> offering_bid" where
  "settled_row now i ws b = (let c = won_row now ws b in
     if bd_offering c = i \<and> bd_status c = B_escrowed \<and> bd_deleted c = None
     then c\<lparr>bd_status := B_lost, bd_alloc := Some 0, bd_settle_refund := Some (bd_escrow_amount c), bd_updated := now\<rparr>
     else c)"

definition same_but_bids :: "odb \<Rightarrow> odb \<Rightarrow> bool" where
  "same_but_bids d d' \<longleftrightarrow> db_offerings d' = db_offerings d \<and> db_approvals d' = db_approvals d
     \<and> db_contracts d' = db_contracts d \<and> db_artworks d' = db_artworks d \<and> db_audit d' = db_audit d
     \<and> db_clearing d' = db_clearing d"

lemma win_bid_Inr:
  assumes "win_bid now w d = Inr d'"
  shows "db_bids d' = map (won_row now [w]) (db_bids d) \<and> same_but_bids d d'"
  using assms
  by (auto simp: win_bid_def on_bids_def casWon_def cas_rows_def sql_update_def won_row_def same_but_bids_def
      split: bool.splits)

lemma won_row_other: "bd_status b \<noteq> B_escrowed \<Longrightarrow> won_row now ws b = b"
proof -
  assume "bd_status b \<noteq> B_escrowed"
  then have "find (\<lambda>w. cw_id w = bd_id b \<and> bd_status b = B_escrowed) ws = None" by (simp add: find_None_iff)
  then show ?thesis by (simp only: won_row_def option.case)
qed

lemma won_row_skip: "cw_id w \<noteq> bd_id b \<Longrightarrow> won_row now (w # ws) b = won_row now ws b"
  by (simp only: won_row_def find.simps simp_thms if_False)

lemma won_row_Nil: "won_row now [] b = b"
  by (simp only: won_row_def find.simps option.case)

lemma won_row_Cons: "won_row now ws (won_row now [w] b) = won_row now (w # ws) b"
proof (cases "bd_status b = B_escrowed")
  case True
  show ?thesis
  proof (cases "cw_id w = bd_id b")
    case hit: True
    define c where "c = b\<lparr>bd_status := B_won, bd_alloc := Some (cw_allocated w),
      bd_settle_refund := Some (cw_refund w), bd_updated := now\<rparr>"
    have "won_row now (w # vs) b = c" for vs
      using True hit by (simp only: won_row_def find.simps simp_thms if_True option.case c_def)
    moreover have "won_row now ws c = c" by (rule won_row_other) (simp add: c_def)
    ultimately show ?thesis by (simp only:)
  qed (simp only: won_row_skip won_row_Nil not_False_eq_True)
qed (simp only: won_row_other not_False_eq_True)

lemma win_bids_Inr:
  "foldE (win_bid now) ws d = Inr d' \<Longrightarrow> db_bids d' = map (won_row now ws) (db_bids d) \<and> same_but_bids d d'"
proof (induction ws arbitrary: d)
  case Nil
  then show ?case by (simp add: won_row_def same_but_bids_def)
next
  case (Cons w ws)
  then obtain d1 where d1: "win_bid now w d = Inr d1" "foldE (win_bid now) ws d1 = Inr d'"
    by (auto simp: err_simps)
  with Cons.IH [OF d1(2)] win_bid_Inr [OF d1(1)] show ?case
    by (simp add: same_but_bids_def won_row_Cons comp_def)
qed

text \<open>A committed \<open>persist\<close> of a subscribed offering.\<close>

lemma persist_Inr:
  assumes "persist db_ok now off result n tx d = (Inr (), d')" "find_offering (of_id off) (db_offerings d) = Some off"
    "of_status off = O_subscribed"
  shows "db_offerings d' = fst (casSettled now (of_id off) (db_offerings d))
     \<and> db_bids d' = map (settled_row now (of_id off) (cr_winners result)) (db_bids d)
     \<and> db_clearing d' = db_clearing d @ [clearing_row off result tx] \<and> chk_clearing (clearing_row off result tx)
     \<and> (\<forall>a \<in> set (db_clearing d). ca_offering a \<noteq> of_id off)
     \<and> db_approvals d' = db_approvals d \<and> db_contracts d' = db_contracts d
     \<and> db_audit d' = db_audit d @ [\<lparr>ae_kind = ''offering.settled'', ae_actor = None, ae_subject = of_id off\<rparr>]"
proof -
  have won: "snd (casSettled now (of_id off) (db_offerings d))"
    using sql_find_Some [OF assms(2) [unfolded find_offering_def]] assms(3) by (auto simp: casSettled_def snd_cas_rows)
  define d1 where "d1 = d\<lparr>db_offerings := fst (casSettled now (of_id off) (db_offerings d))\<rparr>"
  have cas: "on_offerings (casSettled now (of_id off)) d = (True, d1)"
    using won by (cases "casSettled now (of_id off) (db_offerings d)") (simp add: on_offerings_def d1_def)
  have w: "persist_work now off result n tx d = (Inr (), d')"
    using assms(1) by (cases db_ok) (simp_all add: persist_def run_txn_commit)
  obtain d2 where d2: "foldE (win_bid now) (cr_winners result) d1 = Inr d2"
    using w by (cases "foldE (win_bid now) (cr_winners result) d1") (simp_all add: persist_work_def cas)
  note W = win_bids_Inr [OF d2]
  define d3 where "d3 = d2\<lparr>db_bids := fst (flipRemainingEscrowedToLost now (of_id off) (db_bids d2))\<rparr>"
  obtain d4 where ins: "insertSnapshot (clearing_row off result tx) d3 = (Inr (), d4)"
    and d': "d' = audit_record \<lparr>ae_kind = ''offering.settled'', ae_actor = None, ae_subject = of_id off\<rparr> d4"
    using w unfolding persist_work_def cas prod.case bool.case d2 sum.case Let_def d3_def
    by (auto split: prod.splits if_splits sum.splits)
  have d4: "d4 = d3\<lparr>db_clearing := db_clearing d3 @ [clearing_row off result tx]\<rparr>"
    and chk: "chk_clearing (clearing_row off result tx)" "\<forall>a \<in> set (db_clearing d3). ca_offering a \<noteq> of_id off"
    using ins by (auto simp: insertSnapshot_def clearing_row_def list_ex_iff split: if_splits)
  have bids: "db_bids d3 = map (settled_row now (of_id off) (cr_winners result)) (db_bids d)"
    using W by (simp add: d3_def flipRemainingEscrowedToLost_def sql_update_def settled_row_def Let_def d1_def comp_def)
  show ?thesis using W bids chk by (simp add: d' d4 d3_def d1_def same_but_bids_def)
qed

lemma persist_Inl: "persist db_ok now off result n tx d = (Inl e, d') \<Longrightarrow> d' = d"
  using run_txn_rollback by (metis fst_conv persist_def snd_conv)

section \<open>The job\<close>

lemma settle_heal_state: "settle_heal audit_ok port i d = (r, d1) \<Longrightarrow> d1 = d \<or> d1 = recordClosed audit_ok i d"
  by (auto simp: settle_heal_def Let_def split: sum.splits escrow_view.splits)

lemma heal_adopted: "settle_heal audit_ok port i d = (Inr True, d1) \<Longrightarrow> sp_status port = Inr V_settled"
  by (auto simp: settle_heal_def Let_def err_simps split: sum.splits escrow_view.splits)

lemma settle_on_chain_Inr:
  assumes "settle_on_chain port adopted r = Inr tx"
  shows "case tx of None \<Rightarrow> adopted \<or> sp_settle port (the (cr_price r)) (settle_allocations r) = Inr AlreadySettled
    | Some (h, l) \<Rightarrow> \<not> adopted \<and> sp_settle port (the (cr_price r)) (settle_allocations r) = Inr (SettledTx h l)"
proof (cases "adopted")
  case False
  with assms obtain x where x: "sp_settle port (the (cr_price r)) (settle_allocations r) = Inr x"
    and "(case x of AlreadySettled \<Rightarrow> Inr None | SettledTx h l \<Rightarrow> Inr (Some (h, l))) = (Inr tx :: settle_throw + (ident \<times> int) option)"
    by (auto simp: settle_on_chain_def err_simps)
  with False show ?thesis by (cases x) auto
qed (use assms in \<open>auto simp: settle_on_chain_def\<close>)

lemma recordClosed_sel [simp]:
  "db_offerings (recordClosed audit_ok i d) = db_offerings d" "db_bids (recordClosed audit_ok i d) = db_bids d"
  "db_clearing (recordClosed audit_ok i d) = db_clearing d" "db_approvals (recordClosed audit_ok i d) = db_approvals d"
  "db_contracts (recordClosed audit_ok i d) = db_contracts d"
  by (simp_all add: recordClosed_def)

lemma settle_clearing_cong: "db_bids d1 = db_bids d \<Longrightarrow> settle_clearing cfg off d1 = settle_clearing cfg off d"
  by (simp add: settle_clearing_def)

lemma settle_attempt_cases:
  assumes "settle_attempt cfg audit_ok db_ok now port off d = (res, d')"
  obtains (failed) e where "res = Inl e" "d' = d \<or> d' = recordClosed audit_ok (of_id off) d"
  | (settled) adopted d1 result n tx where "res = Inr ()" "settle_heal audit_ok port (of_id off) d = (Inr adopted, d1)"
    "d1 = d \<or> d1 = recordClosed audit_ok (of_id off) d" "settle_clearing cfg off d = Inr (result, n)"
    "settle_on_chain port adopted result = Inr tx" "persist db_ok now off result n tx d1 = (Inr (), d')"
proof -
  obtain h d1 where h: "settle_heal audit_ok port (of_id off) d = (h, d1)" by fastforce
  note D = settle_heal_state [OF h]
  have c: "settle_clearing cfg off d1 = settle_clearing cfg off d" by (rule settle_clearing_cong) (use D in auto)
  show ?thesis
  proof (cases h)
    case (Inl e)
    with assms h have "res = Inl e" "d' = d1" by (auto simp: settle_attempt_def)
    with D failed show ?thesis by blast
  next
    case (Inr adopted)
    show ?thesis
    proof (cases "settle_clearing cfg off d")
      case (Inl e)
      with assms h Inr c have "res = Inl e" "d' = d1" by (auto simp: settle_attempt_def)
    with D failed show ?thesis by blast
    next
      case cl: (Inr p)
      obtain result n where p: "p = (result, n)" by (cases p)
      show ?thesis
      proof (cases "settle_on_chain port adopted result")
        case (Inl e)
        with assms h Inr c cl p have "res = Inl e" "d' = d1" by (auto simp: settle_attempt_def)
    with D failed show ?thesis by blast
      next
        case tx: (Inr tx)
        have ps: "persist db_ok now off result n tx d1 = (res, d')"
          using assms h Inr c cl p tx by (simp add: settle_attempt_def)
        show ?thesis
        proof (cases res)
          case (Inl e)
          with persist_Inl ps D failed show ?thesis by blast
        next
          case res: (Inr u)
          then show ?thesis using settled [OF _ h [unfolded Inr] D cl [unfolded p] tx] ps by simp
        qed
      qed
    qed
  qed
qed

lemma find_offering_map:
  assumes "find_offering i t = Some r" "\<And>c. of_id (f c) = of_id c" "\<And>c. of_deleted (f c) = of_deleted c"
  shows "find_offering i (map f t) = Some (f r)"
  using assms(1) by (induction t) (auto simp: find_offering_def sql_find_def assms(2,3) split: if_splits)

lemma find_offering_SomeD: "find_offering i t = Some r \<Longrightarrow> r \<in> set t \<and> of_id r = i \<and> of_deleted r = None"
  unfolding find_offering_def by (drule sql_find_Some) simp

lemma find_offering_settled:
  assumes "find_offering i t = Some off" "of_status off = O_subscribed"
  shows "find_offering i (fst (casSettled now i t))
    = Some (off\<lparr>of_status := O_settled, of_fail_at := None, of_fail_reason := None, of_updated := now\<rparr>)"
  unfolding casSettled_def fst_cas_rows
  by (subst find_offering_map [OF assms(1)]) (use find_offering_SomeD [OF assms(1)] assms(2) in auto)

lemma settle_fail_stamps:
  assumes "find_offering i (db_offerings d) = Some off" "of_status off = O_subscribed"
  shows "find_offering i (db_offerings (settle_fail now i reason d))
      = Some (off\<lparr>of_fail_at := Some now, of_fail_reason := Some reason, of_updated := now\<rparr>)
    \<and> db_bids (settle_fail now i reason d) = db_bids d \<and> db_clearing (settle_fail now i reason d) = db_clearing d"
proof -
  have F: "find_offering i (fst (setSettleFailureStamp now i (Some reason) (db_offerings d)))
      = Some (off\<lparr>of_fail_at := Some now, of_fail_reason := Some reason, of_updated := now\<rparr>)"
    unfolding setSettleFailureStamp_def fst_cas_rows
    by (subst find_offering_map [OF assms(1)]) (use find_offering_SomeD [OF assms(1)] assms(2) in auto)
  obtain ok d1 where p: "on_offerings (setSettleFailureStamp now i (Some reason)) d = (ok, d1)" by fastforce
  have "db_offerings d1 = fst (setSettleFailureStamp now i (Some reason) (db_offerings d))"
    "db_bids d1 = db_bids d" "db_clearing d1 = db_clearing d"
    using on_offerings_sel(2,3,7) [of "setSettleFailureStamp now i (Some reason)" d] p by simp_all
  then show ?thesis using F by (cases ok) (simp_all add: settle_fail_def p)
qed

lemma settle_process_eq:
  assumes "find_offering i (db_offerings d) = Some off" "of_status off = O_subscribed"
  shows "of_escrow off \<in> {None, Some []} \<Longrightarrow> settle_process cfg audit_ok db_ok now describe port i d
      = (JobUnrecoverable, settle_fail now (of_id off) ''no escrow contract address on subscribed offering'' d)"
    "of_escrow off \<notin> {None, Some []} \<Longrightarrow> settle_attempt cfg audit_ok db_ok now port off d = (Inr u, d1)
      \<Longrightarrow> settle_process cfg audit_ok db_ok now describe port i d = (JobDone, d1)"
    "of_escrow off \<notin> {None, Some []} \<Longrightarrow> settle_attempt cfg audit_ok db_ok now port off d = (Inl e, d1)
      \<Longrightarrow> settle_process cfg audit_ok db_ok now describe port i d = (if \<not> isTerminalSettleError e then (JobRetry, d1)
            else (JobUnrecoverable, settle_fail now (of_id off) (case_prod sanitizeReason (describe e)) d1))"
  using assms by (simp_all only: settle_process_def option.case if_True if_False prod.case sum.case simp_thms)

lemma settle_done:
  assumes "settle_process cfg audit_ok db_ok now describe port i d = (JobDone, d')"
    "find_offering i (db_offerings d) = Some off" "of_status off = O_subscribed"
  shows "\<exists>r n tx. settle_clearing cfg off d = Inr (r, n)
       \<and> db_offerings d' = fst (casSettled now i (db_offerings d))
       \<and> db_bids d' = map (settled_row now i (cr_winners r)) (db_bids d)
       \<and> db_clearing d' = db_clearing d @ [clearing_row off r tx] \<and> chk_clearing (clearing_row off r tx)
       \<and> (case tx of None \<Rightarrow> sp_status port = Inr V_settled
              \<or> sp_settle port (the (cr_price r)) (settle_allocations r) = Inr AlreadySettled
            | Some (h, l) \<Rightarrow> sp_settle port (the (cr_price r)) (settle_allocations r) = Inr (SettledTx h l))"
proof -
  have id: "of_id off = i" using find_offering_SomeD [OF assms(2)] by simp
  have esc: "of_escrow off \<notin> {None, Some []}"
  proof
    assume "of_escrow off \<in> {None, Some []}"
    with settle_process_eq(1) [OF assms(2,3)] assms(1) show False by simp
  qed
  obtain res d1 where at: "settle_attempt cfg audit_ok db_ok now port off d = (res, d1)" by fastforce
  from at show ?thesis
  proof (cases rule: settle_attempt_cases)
    case (failed e)
    with assms(1) settle_process_eq(3) [OF assms(2,3) esc at [unfolded failed(1)]] show ?thesis by (simp split: if_splits)
  next
    case (settled adopted d0 result n tx)
    have find0: "find_offering (of_id off) (db_offerings d0) = Some off" using settled(3) assms(2) id by auto
    note P = persist_Inr [OF settled(6) find0 assms(3)]
    have same: "db_offerings d0 = db_offerings d" "db_bids d0 = db_bids d" "db_clearing d0 = db_clearing d"
      using settled(3) by auto
    have out: "d' = d1" using assms(1) settle_process_eq(2) [OF assms(2,3) esc at [unfolded settled(1)]] by simp
    have port: "case tx of None \<Rightarrow> sp_status port = Inr V_settled
              \<or> sp_settle port (the (cr_price result)) (settle_allocations result) = Inr AlreadySettled
            | Some (h, l) \<Rightarrow> sp_settle port (the (cr_price result)) (settle_allocations result) = Inr (SettledTx h l)"
      using settle_on_chain_Inr [OF settled(5)] heal_adopted [of audit_ok port i d d0] settled(2) id
      by (cases tx; cases adopted) auto
    show ?thesis using P settled(4) port by (simp add: out id same) blast
  qed
qed

lemma settle_not_done:
  assumes "settle_process cfg audit_ok db_ok now describe port i d = (out, d')" "out \<noteq> JobDone"
    "find_offering i (db_offerings d) = Some off" "of_status off = O_subscribed"
  shows "db_bids d' = db_bids d \<and> db_clearing d' = db_clearing d
    \<and> (out = JobRetry \<longrightarrow> db_offerings d' = db_offerings d)
    \<and> (out = JobUnrecoverable \<longrightarrow> (\<exists>reason. find_offering i (db_offerings d')
           = Some (off\<lparr>of_fail_at := Some now, of_fail_reason := Some reason, of_updated := now\<rparr>)))"
proof (cases "of_escrow off \<in> {None, Some []}")
  case True
  have id: "of_id off = i" using find_offering_SomeD [OF assms(3)] by simp
  obtain reason where "d' = settle_fail now i reason d" "out = JobUnrecoverable"
    using assms(1) settle_process_eq(1) [OF assms(3,4) True] unfolding id prod.inject by (metis prod.inject)
  then show ?thesis using settle_fail_stamps [OF assms(3,4), of now reason] by blast
next
  case False
  have id: "of_id off = i" using find_offering_SomeD [OF assms(3)] by simp
  obtain res d1 where at: "settle_attempt cfg audit_ok db_ok now port off d = (res, d1)" by fastforce
  from at show ?thesis
  proof (cases rule: settle_attempt_cases)
    case (failed e)
    have same: "db_offerings d1 = db_offerings d" "db_bids d1 = db_bids d" "db_clearing d1 = db_clearing d"
      using failed(2) by auto
    have find1: "find_offering i (db_offerings d1) = Some off" by (simp add: same assms(3))
    note E = settle_process_eq(3) [OF assms(3,4) False at [unfolded failed(1)]]
    show ?thesis
    proof (cases "isTerminalSettleError e")
      case True
      obtain reason where "d' = settle_fail now i reason d1" "out = JobUnrecoverable"
        using assms(1) E True unfolding id by (metis prod.inject)
      then show ?thesis using settle_fail_stamps [OF find1 assms(4), of now reason] same by (metis job_outcome.distinct(5))
    next
      case False
      then show ?thesis using assms(1) E same by simp
    qed
  next
    case (settled adopted d0 result n tx)
    then show ?thesis using assms(1,2) settle_process_eq(2) [OF assms(3,4) False at [unfolded settled(1)]] by simp
  qed
qed

section \<open>Properties\<close>


section \<open>The receipts\<close>

definition input_of :: "offering_bid \<Rightarrow> clearing_bid" where
  "input_of b = \<lparr>cb_id = bd_id b, cb_chain = the (bd_chain b), cb_collector = bd_sub b, cb_price = bd_price b,
     cb_count = bd_count b, cb_created = bd_created b, cb_escrow = bd_escrow_amount b\<rparr>"

lemma toClearingInput_Inr: "toClearingInput b = Inr c \<longleftrightarrow> bd_chain b \<noteq> None \<and> c = input_of b"
  by (auto simp: toClearingInput_def input_of_def split: option.splits)

lemma mapE_inputs: "mapE toClearingInput bs = Inr cs \<longleftrightarrow> (\<forall>b \<in> set bs. bd_chain b \<noteq> None) \<and> cs = map input_of bs"
  by (induction bs arbitrary: cs) (auto simp: err_simps toClearingInput_Inr)

lemma rangeE_Inr [err_simps]: "rangeE m = Inr x \<longleftrightarrow> m = Inr x"
  by (cases m) auto

lemma belt_subscribed: "assert_clearing_invariants r band F n m = Inr () \<Longrightarrow> cr_fully_subscribed r"
  by (auto simp: assert_clearing_invariants_def split: if_splits)

lemma settle_clearing_Inr:
  assumes "settle_clearing cfg off d = Inr (r, n)"
  defines "book \<equiv> listBidsForClearing (of_id off) (db_bids d)"
  shows "(\<forall>b \<in> set book. bd_chain b \<noteq> None) \<and> compute_clearing (map input_of book) (of_float off) = Inr r
    \<and> cr_fully_subscribed r \<and> n = length book
    \<and> assert_clearing_invariants r (band_of off) (of_float off) (int (length book)) (int (cfg_max_bids cfg)) = Inr ()"
  using assms(1) belt_subscribed
  by (auto simp: settle_clearing_def clearing_of_book_def err_simps mapE_inputs book_def Let_def)

lemma distinct_inputs:
  assumes "\<forall>b \<in> set book. bd_chain b \<noteq> None" "distinct (map bd_chain book)"
  shows "distinct (map cb_chain (map input_of book))"
proof -
  have "map bd_chain book = map Some (map cb_chain (map input_of book))"
    using assms(1) by (auto simp: input_of_def)
  then show ?thesis using assms(2) distinct_map by metis
qed

lemma set_listBids: "b \<in> set (listBidsForClearing i t)
    \<longleftrightarrow> b \<in> set t \<and> bd_offering b = i \<and> bd_status b = B_escrowed \<and> bd_deleted b = None"
  by (auto simp: listBidsForClearing_def)

text \<open>Within a book with unique ids and chain ids a winner is one bid.\<close>

lemma book_clearing:
  assumes "compute_clearing (map input_of book) F = Inr r" "cr_fully_subscribed r" "distinct (map cb_chain (map input_of book))"
  obtains P where "cr_price r = Some P" "\<And>w. w \<in> set (cr_winners r) \<Longrightarrow> \<exists>b \<in> set book. wins P (input_of b) w"
    "sum_list (map cw_allocated (cr_winners r)) = F" "distinct (map cw_chain (cr_winners r))" "cr_proceeds r = P * F"
    "cr_artist_net r = cr_proceeds r - cr_platform_fee r" "0 < F" "\<And>b. b \<in> set book \<Longrightarrow> 0 < bd_count b \<and> 0 \<le> bd_price b"
    "0 \<le> P"
proof -
  obtain P where P: "crossing (map input_of book) F P" and r: "r = result_at (map input_of book) F P"
    using compute_clearing_settleable [OF assms(1,2)] .
  note g = compute_clearing_InrD(2) [OF assms(1)] and F = compute_clearing_InrD(1) [OF assms(1)]
  note m = result_at_money [OF g P F]
  have W: "\<exists>b \<in> set book. wins P (input_of b) w" if "w \<in> set (cr_winners r)" for w
    using winner_wins [OF g P that [unfolded r]] by force
  have pos: "0 < bd_count b \<and> 0 \<le> bd_price b" if "b \<in> set book" for b
    using g that by (force simp: good_bids_def input_of_def)
  have "0 \<le> P" using P g by (auto simp: crossing_def good_bids_def)
  then show ?thesis
    using that [of P] W sum_winners [OF g P] distinct_winners [OF assms(3), of F P] m F pos by (simp add: r)
qed

lemma winner_ids:
  assumes W: "\<And>w. w \<in> set (cr_winners r) \<Longrightarrow> \<exists>b \<in> set book. wins P (input_of b) w"
    and D: "distinct (map cw_chain (cr_winners r))" and ids: "distinct (map bd_id book)"
  shows "distinct (map cw_id (cr_winners r)) \<and> cw_id ` set (cr_winners r) \<subseteq> bd_id ` set book"
proof -
  have w: "\<exists>b \<in> set book. cw_id w = bd_id b \<and> cw_chain w = cb_chain (input_of b)" if "w \<in> set (cr_winners r)" for w
    using W that by (fastforce simp: wins_def input_of_def)
  have "inj_on cw_id (set (cr_winners r))"
  proof (rule inj_onI)
    fix v w assume vw: "v \<in> set (cr_winners r)" "w \<in> set (cr_winners r)" "cw_id v = cw_id w"
    obtain b c where "b \<in> set book" "c \<in> set book" "bd_id b = bd_id c"
      "cw_chain v = cb_chain (input_of b)" "cw_chain w = cb_chain (input_of c)" using w [OF vw(1)] w [OF vw(2)] vw(3) by auto
    moreover from this have "b = c" using ids by (auto simp: distinct_map inj_on_def)
    ultimately show "v = w" using D vw by (auto simp: distinct_map inj_on_def)
  qed
  moreover have "distinct (cr_winners r)" using D by (simp add: distinct_map)
  ultimately show ?thesis using w by (fastforce simp: distinct_map)
qed

definition alloc_by_id :: "clearing_winner list \<Rightarrow> ident \<Rightarrow> int" where
  "alloc_by_id ws i = (case map_of (map (\<lambda>w. (cw_id w, cw_allocated w)) ws) i of None \<Rightarrow> 0 | Some a \<Rightarrow> a)"

lemma alloc_by_id_find:
  "alloc_by_id ws i = (case find (\<lambda>w. cw_id w = i) ws of None \<Rightarrow> 0 | Some w \<Rightarrow> cw_allocated w)"
  by (induction ws) (auto simp: alloc_by_id_def)

lemma sum_alloc_by_id:
  assumes "distinct (map cw_id ws)" "cw_id ` set ws \<subseteq> bd_id ` set book" "distinct (map bd_id book)"
  shows "sum_list (map (\<lambda>b. alloc_by_id ws (bd_id b)) book) = sum_list (map cw_allocated ws)"
proof -
  have "sum_list (map (alloc_by_id ws) (map bd_id book)) = sum_list (map snd (map (\<lambda>w. (cw_id w, cw_allocated w)) ws))"
    unfolding alloc_by_id_def [abs_def] by (rule sum_map_of) (use assms in \<open>auto simp: comp_def\<close>)
  then show ?thesis by (simp add: comp_def)
qed

text \<open>The settled row of a bid of the book.\<close>

lemma settled_row_of_book:
  assumes W: "\<And>w. w \<in> set ws \<Longrightarrow> \<exists>b \<in> set book. wins P (input_of b) w" and ids: "distinct (map bd_id book)"
    and b: "b \<in> set book" "bd_status b = B_escrowed" "bd_offering b = i" "bd_deleted b = None" "0 < bd_count b"
  shows "\<exists>a. a = alloc_by_id ws (bd_id b) \<and> 0 \<le> a \<and> a \<le> bd_count b \<and> bd_id (settled_row now i ws b) = bd_id b
    \<and> bd_deleted (settled_row now i ws b) = None \<and> bd_alloc (settled_row now i ws b) = Some a
    \<and> bd_settle_refund (settled_row now i ws b) = Some (bd_escrow_amount b - P * a)
    \<and> (if a > 0 then bd_status (settled_row now i ws b) = B_won \<and> P \<le> bd_price b
       else bd_status (settled_row now i ws b) = B_lost)"
proof (cases "find (\<lambda>w. cw_id w = bd_id b) ws")
  case None
  then have "won_row now ws b = b" using b(2) by (simp add: won_row_def)
  with None b show ?thesis
    by (simp add: settled_row_def Let_def alloc_by_id_find bd_escrow_amount_def)
next
  case (Some w)
  then have w: "w \<in> set ws" "cw_id w = bd_id b" using find_in_set by fastforce+
  obtain c where c: "c \<in> set book" "wins P (input_of c) w" using W w(1) by blast
  then have "bd_id c = bd_id b" using w(2) by (simp add: wins_def input_of_def)
  then have "c = b" using c(1) b(1) ids by (auto simp: distinct_map inj_on_def)
  with c have win: "P \<le> bd_price b" "0 < cw_allocated w" "cw_allocated w \<le> bd_count b"
    "cw_refund w = bd_escrow_amount b - P * cw_allocated w" by (auto simp: wins_def input_of_def)
  have "won_row now ws b = b\<lparr>bd_status := B_won, bd_alloc := Some (cw_allocated w), bd_settle_refund := Some (cw_refund w),
      bd_updated := now\<rparr>" using Some b(2) by (simp add: won_row_def)
  with win Some b show ?thesis by (simp add: settled_row_def Let_def alloc_by_id_find)
qed

lemma map_find_bid:
  assumes "find_bid (bd_id b) t = Some b" "bd_id (f b) = bd_id b" "bd_deleted (f b) = bd_deleted b"
    "\<And>c. bd_id (f c) = bd_id c" "\<And>c. bd_deleted (f c) = bd_deleted c"
  shows "find_bid (bd_id b) (map f t) = Some (f b)"
  using assms(1) by (induction t) (auto simp: find_bid_def sql_find_def assms(4,5) split: if_splits)

lemma won_row_keys [simp]: "bd_id (won_row now ws b) = bd_id b" "bd_deleted (won_row now ws b) = bd_deleted b"
  by (simp_all add: won_row_def split: option.splits)

lemma settled_row_keys: "bd_id (settled_row now i ws b) = bd_id b" "bd_deleted (settled_row now i ws b) = bd_deleted b"
  by (simp_all add: settled_row_def Let_def)

lemma find_bid_unique: "distinct (map bd_id t) \<Longrightarrow> b \<in> set t \<Longrightarrow> bd_deleted b = None \<Longrightarrow> find_bid (bd_id b) t = Some b"
  by (induction t) (auto simp: find_bid_def sql_find_def rev_image_eqI)

lemma distinct_book: "distinct (map bd_id t) \<Longrightarrow> distinct (map bd_id (listBidsForClearing i t))"
proof -
  assume "distinct (map bd_id t)"
  then have "inj_on bd_id (set t)" "distinct t" by (simp_all add: distinct_map)
  then show ?thesis by (auto simp: distinct_map listBidsForClearing_def intro: inj_on_subset)
qed

lemma settled_sums:
  assumes "\<And>b. b \<in> set book \<Longrightarrow> f b = Some (a b)" "\<And>b. b \<in> set book \<Longrightarrow> g b = Some (e b - P * a b)"
  shows "sum_list (map (\<lambda>b. the (f b)) book) = sum_list (map a book)
     \<and> sum_list (map (\<lambda>b. the (g b)) book) = sum_list (map e book) - P * sum_list (map (a :: _ \<Rightarrow> int) book)"
  using assms by (induction book) (simp_all add: distrib_left)

text \<open>
  The receipts of a settlement balance. When the job settles an offering whose bids have unique
  ids and chain ids, every bid of its book ends won with a positive allocation within its count at
  a price it accepted, or lost with none; its refund is its escrow minus the uniform price times
  the allocation; the allocations add up to the float, and the refunds, the fee and the artist's
  net of the snapshot to the escrowed USDC.
\<close>

lemma settlement_receipts_balance:
  assumes "settle_process cfg audit_ok db_ok now describe port i d = (JobDone, d')"
    "find_offering i (db_offerings d) = Some off" "of_status off = O_subscribed"
    "distinct (map bd_id (db_bids d))" "distinct (map bd_chain (listBidsForClearing i (db_bids d)))"
  shows "\<exists>P snap. db_clearing d' = db_clearing d @ [snap] \<and> ca_price snap = P \<and> ca_proceeds snap = P * of_float off
     \<and> ca_fee snap + ca_net snap = ca_proceeds snap
     \<and> (let book = listBidsForClearing i (db_bids d); after = (\<lambda>b. the (find_bid (bd_id b) (db_bids d'))) in
          (\<forall>b \<in> set book. \<exists>a. bd_alloc (after b) = Some a \<and> 0 \<le> a \<and> a \<le> bd_count b
             \<and> bd_settle_refund (after b) = Some (bd_escrow_amount b - P * a)
             \<and> (if a > 0 then bd_status (after b) = B_won \<and> P \<le> bd_price b else bd_status (after b) = B_lost))
        \<and> sum_list (map (\<lambda>b. the (bd_alloc (after b))) book) = of_float off
        \<and> sum_list (map (\<lambda>b. the (bd_settle_refund (after b))) book) + ca_fee snap + ca_net snap
            = sum_list (map bd_escrow_amount book))"
proof -
  have id: "of_id off = i" using find_offering_SomeD [OF assms(2)] by simp
  define book where "book = listBidsForClearing i (db_bids d)"
  obtain r n tx where cl: "settle_clearing cfg off d = Inr (r, n)"
    and d': "db_bids d' = map (settled_row now i (cr_winners r)) (db_bids d)"
      "db_clearing d' = db_clearing d @ [clearing_row off r tx]"
    using settle_done [OF assms(1-3)] by blast
  note C = settle_clearing_Inr [OF cl, unfolded id, folded book_def]
  have dist: "distinct (map cb_chain (map input_of book))"
    by (rule distinct_inputs) (use C assms(5) in \<open>simp_all add: book_def\<close>)
  have ids: "distinct (map bd_id book)" unfolding book_def by (rule distinct_book [OF assms(4)])
  obtain P where P: "cr_price r = Some P" "\<And>w. w \<in> set (cr_winners r) \<Longrightarrow> \<exists>b \<in> set book. wins P (input_of b) w"
    "sum_list (map cw_allocated (cr_winners r)) = of_float off" "distinct (map cw_chain (cr_winners r))"
    "cr_proceeds r = P * of_float off" "cr_artist_net r = cr_proceeds r - cr_platform_fee r"
    "\<And>b. b \<in> set book \<Longrightarrow> 0 < bd_count b \<and> 0 \<le> bd_price b"
    by (rule book_clearing [OF C [THEN conjunct2, THEN conjunct1] C [THEN conjunct2, THEN conjunct2, THEN conjunct1] dist]) blast
  let ?f = "settled_row now i (cr_winners r)" and ?a = "\<lambda>b. alloc_by_id (cr_winners r) (bd_id b)"
  have fnd: "find_bid (bd_id b) (db_bids d') = Some (?f b)" if "b \<in> set book" for b
  proof -
    have "b \<in> set (db_bids d)" "bd_deleted b = None" using that by (simp_all add: book_def set_listBids)
    then show ?thesis unfolding d' by (intro map_find_bid find_bid_unique settled_row_keys assms(4))
  qed
  have row: "0 \<le> ?a b \<and> ?a b \<le> bd_count b \<and> bd_alloc (?f b) = Some (?a b)
      \<and> bd_settle_refund (?f b) = Some (bd_escrow_amount b - P * ?a b)
      \<and> (if ?a b > 0 then bd_status (?f b) = B_won \<and> P \<le> bd_price b else bd_status (?f b) = B_lost)"
    if "b \<in> set book" for b
    using settled_row_of_book [OF P(2) ids that, where i = i and now = now] that P(7) [OF that] by (auto simp: book_def set_listBids)
  have sa: "sum_list (map ?a book) = of_float off"
    using winner_ids [OF P(2,4) ids] sum_alloc_by_id [OF _ _ ids] P(3) by simp
  have sums: "sum_list (map (\<lambda>b. the (bd_alloc (?f b))) book) = of_float off"
    "sum_list (map (\<lambda>b. the (bd_settle_refund (?f b))) book) = sum_list (map bd_escrow_amount book) - P * of_float off"
    using settled_sums [of book "\<lambda>b. bd_alloc (?f b)" ?a "\<lambda>b. bd_settle_refund (?f b)" bd_escrow_amount P] row sa by simp_all
  have maps: "map (\<lambda>b. the (bd_alloc (the (find_bid (bd_id b) (db_bids d'))))) book = map (\<lambda>b. the (bd_alloc (?f b))) book"
    "map (\<lambda>b. the (bd_settle_refund (the (find_bid (bd_id b) (db_bids d'))))) book = map (\<lambda>b. the (bd_settle_refund (?f b))) book"
    using fnd by simp_all
  have rows: "\<forall>b \<in> set book. \<exists>a. bd_alloc (the (find_bid (bd_id b) (db_bids d'))) = Some a \<and> 0 \<le> a \<and> a \<le> bd_count b
      \<and> bd_settle_refund (the (find_bid (bd_id b) (db_bids d'))) = Some (bd_escrow_amount b - P * a)
      \<and> (if a > 0 then bd_status (the (find_bid (bd_id b) (db_bids d'))) = B_won \<and> P \<le> bd_price b
         else bd_status (the (find_bid (bd_id b) (db_bids d'))) = B_lost)"
    using fnd row by (metis option.sel)
  show ?thesis
    using P(1,5,6) rows unfolding Let_def book_def [symmetric] maps sums d'(2)
    by (intro exI [of _ P] exI [of _ "clearing_row off r tx"]) (simp add: clearing_row_def)
qed

section \<open>The trigger\<close>

lemma settle_latch_cases:
  assumes "settle_latch now i rd d = (ok, d')"
  obtains "ok = False" "d' = d"
  | P f where "ok = snd (cas_rows P f (db_offerings d))" "d' = d\<lparr>db_offerings := fst (cas_rows P f (db_offerings d))\<rparr>"
      "\<And>r :: offering. of_id (f r) = of_id r"
proof (cases "find_offering i (db_offerings d) = None")
  case True
  with assms that(1) show ?thesis by (simp add: settle_latch_def)
next
  case False
  have on: "on_offerings cas d = (snd (cas (db_offerings d)), d\<lparr>db_offerings := fst (cas (db_offerings d))\<rparr>)" for cas
    by (simp add: on_offerings_def split: prod.splits)
  define upd :: "offering \<Rightarrow> offering" where "upd = (if rd then (\<lambda>r. r\<lparr>of_fail_at := None, of_fail_reason := None, of_updated := now\<rparr>)
      else (\<lambda>r. r\<lparr>of_status := O_subscribed, of_updated := now\<rparr>))"
  define P :: "offering \<Rightarrow> bool" where "P = (if rd then (\<lambda>r. of_id r = i \<and> of_status r = O_subscribed \<and> (None \<noteq> (None :: string option) \<or> of_fail_at r \<noteq> None))
      else (\<lambda>r. of_id r = i \<and> of_status r = O_opened \<and> of_close_at r \<le> now))"
  have "(if rd then setSettleFailureStamp now i None else casSubscribed now i) = cas_rows P upd"
    by (simp only: setSettleFailureStamp_def casSubscribed_def P_def upd_def option.case if_distrib [where f = cas_rows])
      (cases rd, simp_all only: if_True if_False)
  moreover have "settle_latch now i rd d = on_offerings (if rd then setSettleFailureStamp now i None else casSubscribed now i) d"
    by (cases rd) (simp_all only: settle_latch_def False if_True if_False)
  ultimately have "(ok, d') = (snd (cas_rows P upd (db_offerings d)), d\<lparr>db_offerings := fst (cas_rows P upd (db_offerings d))\<rparr>)"
    using assms on by metis
  moreover have "of_id (upd r) = of_id r" for r by (simp add: upd_def)
  ultimately show ?thesis using that(2) by blast
qed

lemma settle_latch_lost: "settle_latch now i rd d = (False, d') \<Longrightarrow> d' = d"
  by (erule settle_latch_cases) (simp_all add: cas_rows_lost)

text \<open>What the gates established on the database they read.\<close>

definition settleable :: "escrow_config \<Rightarrow> instant \<Rightarrow> offering \<Rightarrow> bool \<Rightarrow> int \<Rightarrow> nat \<Rightarrow> odb \<Rightarrow> bool" where
  "settleable cfg now off rd P w d \<longleftrightarrow>
     (if rd then of_status off = O_subscribed \<and> of_fail_at off \<noteq> None else of_status off = O_opened \<and> of_close_at off \<le> now)
     \<and> of_deploy off = Some D_deployed \<and> of_escrow off \<noteq> None
     \<and> countInflight (of_id off) (db_bids d) = 0 \<and> countActiveForOffering (of_id off) (db_bids d) \<le> cfg_max_bids cfg
     \<and> (\<exists>r. clearing_of_book off (listBidsForClearing (of_id off) (db_bids d)) = Inr r
          \<and> cr_fully_subscribed r \<and> cr_price r = Some P \<and> length (cr_winners r) = w)"

lemma internalE_Inr [err_simps]: "internalE m = Inr x \<longleftrightarrow> m = Inr x"
  by (cases m) auto

lemma if_Inl_Inr: "(if c then Inl e else m) = Inr y \<longleftrightarrow> \<not> c \<and> m = Inr y"
  by simp

lemma settle_gates_Inr:
  assumes "settle_gates cfg now i d = Inr (off, rd, P, w)"
  shows "find_offering i (db_offerings d) = Some off \<and> settleable cfg now off rd P w d"
proof -
  obtain o' where o': "find_offering i (db_offerings d) = Some o'"
    using assms by (cases "find_offering i (db_offerings d)") (simp_all add: settle_gates_def)
  define book where "book = listBidsForClearing (of_id o') (db_bids d)"
  have "\<not> (of_status o' = O_subscribed \<and> \<not> (of_status o' = O_subscribed \<and> of_fail_at o' \<noteq> None))"
    "\<not> (of_status o' \<noteq> O_opened \<and> of_status o' \<noteq> O_subscribed)" "\<not> (of_status o' = O_opened \<and> of_close_at o' > now)"
    "\<not> (of_escrow o' \<in> {None, Some []} \<or> of_deploy o' \<noteq> Some D_deployed)" "\<not> countInflight (of_id o') (db_bids d) > 0"
    "\<not> countActiveForOffering (of_id o') (db_bids d) > cfg_max_bids cfg"
    and tail: "bindE (internalE (clearing_of_book o' book)) (\<lambda>r. case cr_price r of
              None \<Rightarrow> Inl (FailHttp ''OFFERING_UNDERSUBSCRIBED'' 422)
            | Some P \<Rightarrow> if \<not> cr_fully_subscribed r then Inl (FailHttp ''OFFERING_UNDERSUBSCRIBED'' 422)
                else Inr (o', of_status o' = O_subscribed \<and> of_fail_at o' \<noteq> None, P, length (cr_winners r)))
        = Inr (off, rd, P, w)"
    using assms unfolding settle_gates_def o' option.case Let_def if_Inl_Inr book_def by blast+
  moreover obtain r where "clearing_of_book o' book = Inr r" "cr_price r = Some P" "cr_fully_subscribed r" "off = o'"
    "rd \<longleftrightarrow> of_status o' = O_subscribed \<and> of_fail_at o' \<noteq> None" "length (cr_winners r) = w"
    using tail by (auto simp: err_simps split: option.splits if_splits)
  ultimately show ?thesis unfolding settleable_def book_def [symmetric] using o'
    by (cases "of_status o'") (auto simp: book_def)
qed

lemma latched_offering:
  assumes "settle_latch now i rd d = (True, d')" "find_offering i (db_offerings d) = Some off"
    "distinct (map of_id (db_offerings d))"
  shows "find_offering i (db_offerings d') = Some (if rd
      then off\<lparr>of_fail_at := None, of_fail_reason := None, of_updated := now\<rparr>
      else off\<lparr>of_status := O_subscribed, of_updated := now\<rparr>)
    \<and> (if rd then of_status off = O_subscribed \<and> of_fail_at off \<noteq> None else of_status off = O_opened \<and> of_close_at off \<le> now)
    \<and> db_bids d' = db_bids d \<and> db_clearing d' = db_clearing d \<and> db_audit d' = db_audit d
    \<and> (\<forall>r \<in> set (db_offerings d). of_id r \<noteq> i \<longrightarrow> r \<in> set (db_offerings d'))"
proof -
  note F = find_offering_SomeD [OF assms(2)]
  have same: "r = off" if "r \<in> set (db_offerings d)" "of_id r = i" for r
    using that F assms(3) by (metis (no_types, lifting) distinct_map inj_on_def)
  define cas where "cas = (if rd then setSettleFailureStamp now i None else casSubscribed now i)"
  have L: "on_offerings cas d = (True, d')" using assms(1,2) by (simp add: settle_latch_def cas_def split: if_splits)
  have won: "snd (cas (db_offerings d))" and t: "db_offerings d' = fst (cas (db_offerings d))"
    and rest: "db_bids d' = db_bids d" "db_clearing d' = db_clearing d" "db_audit d' = db_audit d"
    using on_offerings_sel [of cas d] L by simp_all
  have guard: "if rd then of_status off = O_subscribed \<and> of_fail_at off \<noteq> None else of_status off = O_opened \<and> of_close_at off \<le> now"
    using won same by (auto simp: cas_def setSettleFailureStamp_def casSubscribed_def snd_cas_rows split: if_splits)
  have fnd: "find_offering i (db_offerings d') = Some (if rd
      then off\<lparr>of_fail_at := None, of_fail_reason := None, of_updated := now\<rparr>
      else off\<lparr>of_status := O_subscribed, of_updated := now\<rparr>)"
  proof (cases rd)
    case True
    then show ?thesis unfolding t cas_def setSettleFailureStamp_def if_P [OF True] fst_cas_rows
      by (subst find_offering_map [OF assms(2)]) (use F guard in auto)
  next
    case False
    then show ?thesis unfolding t cas_def casSubscribed_def if_not_P [OF False] fst_cas_rows
      by (subst find_offering_map [OF assms(2)]) (use F guard in auto)
  qed
  have frame: "r \<in> set (db_offerings d')" if "r \<in> set (db_offerings d)" "of_id r \<noteq> i" for r
    using that unfolding t cas_def setSettleFailureStamp_def casSubscribed_def by (force simp: fst_cas_rows)
  show ?thesis using fnd guard rest frame by blast
qed

lemma latch_ids: "settle_latch now i rd d = (ok, d') \<Longrightarrow> map of_id (db_offerings d') = map of_id (db_offerings d)"
proof -
  assume "settle_latch now i rd d = (ok, d')"
  then show ?thesis by (rule settle_latch_cases) (simp_all add: fst_cas_rows)
qed

text \<open>
  The settle trigger. A request either changes nothing that others did not change and queues
  nothing, or it latches exactly its offering: on the state it read, the offering was past its
  window (or a terminally failed re-drive), its escrow deployed, no bid in flight, the book within
  the cap and fully subscribed; under the lock it moved \<open>opened \<rightarrow> subscribed\<close> (or cleared the stamp),
  and a second latch of the same kind finds nothing to claim.
\<close>

lemma settle_trigger_latches:
  assumes "settle cfg now now2 up enq fp atts meanwhile i adminSub key (s, d) = (res, s', d', jobs)"
    "distinct (map of_id (db_offerings (meanwhile d)))"
  shows "(jobs = [] \<and> (d' = d \<or> d' = meanwhile d))
     \<or> (\<exists>off rd P w off2. find_offering i (db_offerings d) = Some off \<and> settleable cfg now off rd P w d
          \<and> find_offering i (db_offerings (meanwhile d)) = Some off2
          \<and> (if rd then of_status off2 = O_subscribed \<and> of_fail_at off2 \<noteq> None
             else of_status off2 = O_opened \<and> of_close_at off2 \<le> now2)
          \<and> find_offering i (db_offerings d') = Some (if rd
              then off2\<lparr>of_fail_at := None, of_fail_reason := None, of_updated := now2\<rparr>
              else off2\<lparr>of_status := O_subscribed, of_updated := now2\<rparr>)
          \<and> db_bids d' = db_bids (meanwhile d) \<and> db_clearing d' = db_clearing (meanwhile d)
          \<and> (\<forall>r \<in> set (db_offerings (meanwhile d)). of_id r \<noteq> i \<longrightarrow> r \<in> set (db_offerings d'))
          \<and> jobs = (if enq then [JobSettle i] else [])
          \<and> \<not> fst (settle_latch now2 i rd d'))"
proof -
  obtain b s1 where b: "idem_begin now (''idem:offering-settle:'' @ adminSub @ '':'' @ key) fp atts s = (b, s1)" by fastforce
  show ?thesis
  proof (cases b)
    case (Proceed token)
    show ?thesis
    proof (cases "settle_gates cfg now i d")
      case (Inl e)
      then show ?thesis using assms(1) b Proceed by (auto simp: settle_def settle_work_def Let_def)
    next
      case (Inr q)
      obtain off rd P w where q: "q = (off, rd, P, w)" by (cases q)
      note G = settle_gates_Inr [OF Inr [unfolded q]]
      have id: "of_id off = i" using find_offering_SomeD G by blast
      obtain ok d3 where l: "settle_latch now2 i rd (meanwhile d) = (ok, d3)" by fastforce
      show ?thesis
      proof (cases ok)
        case False
        have "d3 = meanwhile d" by (rule settle_latch_lost) (use l False in simp)
        then show ?thesis using assms(1) b Proceed Inr q l False by (auto simp: settle_def settle_work_def Let_def id)
      next
        case True
        obtain off2 where off2: "find_offering i (db_offerings (meanwhile d)) = Some off2"
          using l True by (auto simp: settle_latch_def split: if_splits)
        have lt: "settle_latch now2 i rd (meanwhile d) = (True, d3)" using l True by simp
        note L = latched_offering [OF lt off2 assms(2)]
        have out: "d' = d3" "jobs = (if enq then [JobSettle i] else [])"
          using assms(1) b Proceed Inr q lt by (auto simp: settle_def settle_work_def Let_def id)
        have dist: "distinct (map of_id (db_offerings d3))" using latch_ids [OF l] assms(2) by simp
        have again: "\<not> fst (settle_latch now2 i rd d3)"
        proof
          assume "fst (settle_latch now2 i rd d3)"
          then obtain d4 where "settle_latch now2 i rd d3 = (True, d4)" by (cases "settle_latch now2 i rd d3") auto
          from latched_offering [OF this conjunct1 [OF L] dist] show False by (cases rd) auto
        qed
        show ?thesis using G off2 L again unfolding out by blast
      qed
    qed
  qed (use assms(1) b in \<open>auto simp: settle_def Let_def\<close>)
qed

end
