(* ===== verification/Escrow_Contract.thy ===== *)
theory Escrow_Contract
  imports Prelude
begin

text \<open>
  The \<open>OfferingEscrow\<close> contract (\<open>apps/contracts/contracts/tove-offering-escrow/src/contract.rs\<close>),
  the chain side of a primary offering: its storage with the USDC balances it moves, its entry
  points in the order of the source, and the host's atomicity. Amounts are \<open>i128\<close> and the crate is
  built with overflow checks, so an operation that leaves the range traps (\<open>i128\<close>); a bid id is a
  \<open>u32\<close>. USDC is a Stellar asset contract: \<open>transfer\<close> needs a non-negative amount and the
  balance. \<open>mint\<close>, whether the bound token's one-shot \<open>mint_settle\<close> accepts a list of
  recipients, and \<open>auths\<close>, the addresses that authorized the call, are arguments. TTL extensions
  and events are not modelled.
\<close>

section \<open>Storage\<close>

datatype contract_error = Contract nat | Trap

datatype esc_status = Esc_open | Esc_closed | Esc_settled | Esc_cancelled

record esc_params =
  ep_token :: "ident option"
  ep_usdc :: ident
  ep_supply :: int
  ep_artist :: ident
  ep_artist_retention :: int
  ep_treasury :: ident
  ep_treasury_retention :: int
  ep_leftover :: int
  ep_payout :: ident
  ep_admin :: ident

record esc_bid =
  eb_bidder :: ident
  eb_price :: int
  eb_count :: int
  eb_escrow :: int
  eb_active :: bool

record escrow =
  es_self :: ident
  es_params :: esc_params
  es_status :: esc_status
  es_bids :: "nat \<rightharpoonup> esc_bid"
  es_seq :: nat
  es_idem :: "string \<rightharpoonup> nat"
  es_total :: int
  es_usdc :: "ident \<Rightarrow> int"
  es_minted :: "(ident \<times> int) list"

section \<open>Arithmetic, authorization and the token\<close>

definition I128_MAX :: int where
  "I128_MAX = 170141183460469231731687303715884105727"

definition U32_MAX :: nat where
  "U32_MAX = 4294967295"

definition i128 :: "int \<Rightarrow> contract_error + int" where
  "i128 x = (if - I128_MAX - 1 \<le> x \<and> x \<le> I128_MAX then Inr x else Inl Trap)"

definition require_auth :: "ident set \<Rightarrow> ident \<Rightarrow> contract_error + unit" where
  "require_auth auths a = guardE (a \<in> auths) Trap"

definition usdc_transfer :: "ident \<Rightarrow> ident \<Rightarrow> int \<Rightarrow> escrow \<Rightarrow> contract_error + escrow" where
  "usdc_transfer src dst amount s =
     (if amount < 0 \<or> es_usdc s src < amount then Inl Trap
      else let u = (es_usdc s)(src := es_usdc s src - amount)
           in Inr (s\<lparr>es_usdc := u(dst := u dst + amount)\<rparr>))"

text \<open>Host atomicity: an invocation that fails leaves the ledger as it was.\<close>

definition invoke :: "(escrow \<Rightarrow> contract_error + 'a \<times> escrow) \<Rightarrow> escrow \<Rightarrow> (contract_error + 'a) \<times> escrow" where
  "invoke f s = (case f s of Inl e \<Rightarrow> (Inl e, s) | Inr (x, s') \<Rightarrow> (Inr x, s'))"

section \<open>Construction and bidding\<close>

definition esc_constructor ::
  "ident \<Rightarrow> (ident \<Rightarrow> int) \<Rightarrow> ident \<Rightarrow> int \<Rightarrow> ident \<Rightarrow> int \<Rightarrow> ident \<Rightarrow> int \<Rightarrow> int \<Rightarrow> ident \<Rightarrow> ident
   \<Rightarrow> contract_error + escrow" where
  "esc_constructor self balances usdc total_supply artist artist_retention treasury treasury_retention
     leftover_to_artist artist_payout admin =
     bindE (if total_supply \<le> 0 \<or> artist_retention < 0 \<or> treasury_retention < 0 \<or> leftover_to_artist < 0
            then Inl (Contract 14) else Inr ()) (\<lambda>_.
     bindE (i128 (artist_retention + treasury_retention)) (\<lambda>r. bindE (i128 (r + leftover_to_artist)) (\<lambda>r2.
     bindE (guardE (\<not> r2 > total_supply) (Contract 14)) (\<lambda>_.
       Inr \<lparr>es_self = self, es_params = \<lparr>ep_token = None, ep_usdc = usdc, ep_supply = total_supply,
              ep_artist = artist, ep_artist_retention = artist_retention, ep_treasury = treasury,
              ep_treasury_retention = treasury_retention, ep_leftover = leftover_to_artist,
              ep_payout = artist_payout, ep_admin = admin\<rparr>,
            es_status = Esc_open, es_bids = Map.empty, es_seq = 0, es_idem = Map.empty, es_total = 0,
            es_usdc = balances, es_minted = []\<rparr>))))"

definition bind_token :: "ident set \<Rightarrow> ident \<Rightarrow> escrow \<Rightarrow> contract_error + unit \<times> escrow" where
  "bind_token auths token s =
     bindE (require_auth auths (ep_admin (es_params s))) (\<lambda>_.
     bindE (guardE (ep_token (es_params s) = None) (Contract 12)) (\<lambda>_.
       Inr ((), s\<lparr>es_params := (es_params s)\<lparr>ep_token := Some token\<rparr>\<rparr>)))"

definition require_open :: "escrow \<Rightarrow> contract_error + unit" where
  "require_open s = guardE (es_status s = Esc_open) (Contract 1)"

definition submit_bid ::
  "ident set \<Rightarrow> ident \<Rightarrow> int \<Rightarrow> int \<Rightarrow> string \<Rightarrow> escrow \<Rightarrow> contract_error + nat \<times> escrow" where
  "submit_bid auths bidder price cnt key s =
     bindE (require_auth auths bidder) (\<lambda>_.
     bindE (require_open s) (\<lambda>_.
     bindE (guardE (\<not> (price \<le> 0 \<or> cnt \<le> 0)) (Contract 3)) (\<lambda>_.
     bindE (guardE (es_idem s key = None) (Contract 2)) (\<lambda>_.
     bindE (i128 (price * cnt)) (\<lambda>esc.
     bindE (guardE (es_seq s < U32_MAX) Trap) (\<lambda>_.
     bindE (i128 (es_total s + esc)) (\<lambda>tot.
       let i = es_seq s + 1;
           s1 = s\<lparr>es_seq := i, es_idem := (es_idem s)(key \<mapsto> i), es_total := tot,
                  es_bids := (es_bids s)(i \<mapsto> \<lparr>eb_bidder = bidder, eb_price = price, eb_count = cnt,
                    eb_escrow = esc, eb_active = True\<rparr>)\<rparr>
       in bindE (usdc_transfer bidder (es_self s) esc s1) (\<lambda>s2. Inr (i, s2)))))))))"

definition cancel_bid :: "ident set \<Rightarrow> ident \<Rightarrow> nat \<Rightarrow> escrow \<Rightarrow> contract_error + unit \<times> escrow" where
  "cancel_bid auths caller i s =
     bindE (require_auth auths caller) (\<lambda>_.
     bindE (require_open s) (\<lambda>_.
     (case es_bids s i of
        None \<Rightarrow> Inl (Contract 4)
      | Some b \<Rightarrow>
          if eb_bidder b \<noteq> caller then Inl (Contract 5)
          else if \<not> eb_active b then Inl (Contract 6)
          else bindE (i128 (es_total s - eb_escrow b)) (\<lambda>tot.
            let s1 = s\<lparr>es_bids := (es_bids s)(i \<mapsto> b\<lparr>eb_active := False\<rparr>), es_total := tot\<rparr>
            in bindE (usdc_transfer (es_self s) (eb_bidder b) (eb_escrow b) s1) (\<lambda>s2. Inr ((), s2))))))"

section \<open>Admin lifecycle\<close>

definition close_offering :: "ident set \<Rightarrow> escrow \<Rightarrow> contract_error + unit \<times> escrow" where
  "close_offering auths s =
     bindE (require_auth auths (ep_admin (es_params s))) (\<lambda>_.
     bindE (require_open s) (\<lambda>_. Inr ((), s\<lparr>es_status := Esc_closed\<rparr>)))"

definition cancel_offering :: "ident set \<Rightarrow> escrow \<Rightarrow> contract_error + unit \<times> escrow" where
  "cancel_offering auths s =
     bindE (require_auth auths (ep_admin (es_params s))) (\<lambda>_.
     bindE (guardE (es_status s \<noteq> Esc_settled) (Contract 10)) (\<lambda>_.
     bindE (guardE (\<not> es_total s > 0) (Contract 11)) (\<lambda>_. Inr ((), s\<lparr>es_status := Esc_cancelled\<rparr>))))"

section \<open>Settlement\<close>

text \<open>Step 1: one allocation against the stored bid; the accumulator is the map, \<open>\<Sigma>\<close> allocated and the proceeds.\<close>

definition check_allocation ::
  "(nat \<rightharpoonup> esc_bid) \<Rightarrow> int \<Rightarrow> nat \<times> int \<Rightarrow> (nat \<rightharpoonup> int) \<times> int \<times> int \<Rightarrow> contract_error + (nat \<rightharpoonup> int) \<times> int \<times> int" where
  "check_allocation bids price e acc = (case (e, acc) of ((i, allocated), (alloc, sum_allocated, proceeds)) \<Rightarrow>
     (case bids i of
        None \<Rightarrow> Inl (Contract 8)
      | Some b \<Rightarrow>
          if \<not> eb_active b then Inl (Contract 8)
          else if allocated < 0 \<or> allocated > eb_count b then Inl (Contract 8)
          else if alloc i \<noteq> None then Inl (Contract 8)
          else if allocated > 0 \<and> (price \<le> 0 \<or> price > eb_price b) then Inl (Contract 8)
          else bindE (i128 (price * allocated)) (\<lambda>paid.
               bindE (i128 (eb_escrow b - paid)) (\<lambda>refund.
               if refund < 0 then Inl (Contract 8)
               else bindE (i128 (sum_allocated + allocated)) (\<lambda>sa.
                    bindE (i128 (proceeds + paid)) (\<lambda>pr. Inr (alloc(i \<mapsto> allocated), sa, pr)))))))"

text \<open>Step 2: the mint recipients.\<close>

definition recipients :: "esc_params \<Rightarrow> (nat \<rightharpoonup> esc_bid) \<Rightarrow> (nat \<times> int) list \<Rightarrow> (ident \<times> int) list" where
  "recipients p bids allocations =
     map (\<lambda>(i, a). (eb_bidder (the (bids i)), a)) (filter (\<lambda>(i, a). a > 0) allocations)
     @ (if ep_artist_retention p + ep_leftover p > 0 then [(ep_artist p, ep_artist_retention p + ep_leftover p)] else [])
     @ (if ep_treasury_retention p > 0 then [(ep_treasury p, ep_treasury_retention p)] else [])"

text \<open>Step 3: one id of the refund loop; the accumulator carries the state and the two sums.\<close>

definition refund_bid ::
  "int \<Rightarrow> (nat \<rightharpoonup> int) \<Rightarrow> nat \<Rightarrow> escrow \<times> int \<times> int \<Rightarrow> contract_error + escrow \<times> int \<times> int" where
  "refund_bid price alloc i acc = (case acc of (s, sum_refund, sum_escrow) \<Rightarrow>
     (case es_bids s i of
        None \<Rightarrow> Inl (Contract 4)
      | Some b \<Rightarrow>
          if \<not> eb_active b then Inr (s, sum_refund, sum_escrow)
          else bindE (i128 (price * (case alloc i of None \<Rightarrow> 0 | Some a \<Rightarrow> a))) (\<lambda>paid.
               bindE (i128 (eb_escrow b - paid)) (\<lambda>refund.
               bindE (if refund > 0 then usdc_transfer (es_self s) (eb_bidder b) refund s else Inr s) (\<lambda>s1.
               bindE (i128 (sum_refund + refund)) (\<lambda>sr.
               bindE (i128 (sum_escrow + eb_escrow b)) (\<lambda>se.
                 Inr (s1\<lparr>es_bids := (es_bids s1)(i \<mapsto> b\<lparr>eb_active := False\<rparr>)\<rparr>, sr, se))))))))"

definition pay_if :: "ident \<Rightarrow> int \<Rightarrow> escrow \<Rightarrow> contract_error + escrow" where
  "pay_if dst amount s = (if amount > 0 then usdc_transfer (es_self s) dst amount s else Inr s)"

text \<open>Steps 3 to 5, after the mint: refunds, the 3% / 97% split and the conservation belt.\<close>

definition settle_payouts ::
  "int \<Rightarrow> (nat \<rightharpoonup> int) \<Rightarrow> int \<Rightarrow> escrow \<Rightarrow> contract_error + unit \<times> escrow" where
  "settle_payouts price alloc proceeds s =
     bindE (foldE (refund_bid price alloc) [1..<es_seq s + 1] (s, 0, 0)) (\<lambda>(s1, sum_refund, sum_escrow).
     bindE (i128 (proceeds * 300)) (\<lambda>scaled.
       let platform_fee = scaled sdiv 10000; artist_net = proceeds - platform_fee in
     bindE (pay_if (ep_treasury (es_params s)) platform_fee s1) (\<lambda>s2.
     bindE (pay_if (ep_payout (es_params s)) artist_net s2) (\<lambda>s3.
     bindE (i128 (sum_refund + platform_fee)) (\<lambda>o1. bindE (i128 (o1 + artist_net)) (\<lambda>out.
     bindE (guardE (\<not> (out \<noteq> sum_escrow \<or> es_usdc s (es_self s) - es_usdc s3 (es_self s) \<noteq> sum_escrow)) (Contract 9))
       (\<lambda>_. Inr ((), s3))))))))"

definition close_and_settle ::
  "ident set \<Rightarrow> ((ident \<times> int) list \<Rightarrow> bool) \<Rightarrow> int \<Rightarrow> (nat \<times> int) list \<Rightarrow> escrow \<Rightarrow> contract_error + unit \<times> escrow" where
  "close_and_settle auths mint price allocations s =
     (let p = es_params s in
      bindE (require_auth auths (ep_admin p)) (\<lambda>_.
      bindE (case es_status s of Esc_settled \<Rightarrow> Inl (Contract 10) | Esc_closed \<Rightarrow> Inr () | _ \<Rightarrow> Inl (Contract 7)) (\<lambda>_.
      bindE (guardE (ep_token p \<noteq> None) (Contract 13)) (\<lambda>_.
      bindE (foldE (check_allocation (es_bids s) price) allocations (Map.empty, 0, 0)) (\<lambda>(alloc, sum_allocated, proceeds).
      bindE (i128 (sum_allocated + ep_artist_retention p)) (\<lambda>t1.
      bindE (i128 (t1 + ep_treasury_retention p)) (\<lambda>t2.
      bindE (i128 (t2 + ep_leftover p)) (\<lambda>t3.
      bindE (guardE (\<not> t3 \<noteq> ep_supply p) (Contract 8)) (\<lambda>_.
      bindE (i128 (ep_artist_retention p + ep_leftover p)) (\<lambda>_.
      bindE (guardE (mint (recipients p (es_bids s) allocations)) Trap) (\<lambda>_.
        settle_payouts price alloc proceeds
          (s\<lparr>es_status := Esc_settled, es_total := 0, es_minted := recipients p (es_bids s) allocations\<rparr>))))))))))))"

end
