(* ===== verification/Escrow_Contract_Props.thy ===== *)
theory Escrow_Contract_Props
  imports Escrow_Contract
begin

text \<open>
  The escrow contract's accounting: at every reachable state the stored total is the sum of the
  active bids' escrows and is covered by the contract's USDC balance; a settlement pays every
  refund, the fee and the net exactly and mints the whole supply.
\<close>

section \<open>Sums over the book\<close>

definition alloc_of :: "(nat \<rightharpoonup> int) \<Rightarrow> nat \<Rightarrow> int" where
  "alloc_of alloc i = (case alloc i of None \<Rightarrow> 0 | Some a \<Rightarrow> a)"

definition held_of :: "(nat \<rightharpoonup> esc_bid) \<Rightarrow> nat \<Rightarrow> int" where
  "held_of bids i = (case bids i of Some b \<Rightarrow> if eb_active b then eb_escrow b else 0 | None \<Rightarrow> 0)"

definition refund_of :: "(nat \<rightharpoonup> esc_bid) \<Rightarrow> int \<Rightarrow> (nat \<rightharpoonup> int) \<Rightarrow> nat \<Rightarrow> int" where
  "refund_of bids price alloc i =
     (case bids i of Some b \<Rightarrow> if eb_active b then eb_escrow b - price * alloc_of alloc i else 0 | None \<Rightarrow> 0)"

definition refund_to :: "(nat \<rightharpoonup> esc_bid) \<Rightarrow> int \<Rightarrow> (nat \<rightharpoonup> int) \<Rightarrow> ident \<Rightarrow> nat \<Rightarrow> int" where
  "refund_to bids price alloc x i =
     (case bids i of Some b \<Rightarrow> if eb_bidder b = x then refund_of bids price alloc i else 0 | None \<Rightarrow> 0)"

definition held :: "escrow \<Rightarrow> int" where
  "held s = sum_list (map (held_of (es_bids s)) [1..<es_seq s + 1])"

lemma i128_Inr [err_simps]: "i128 x = Inr y \<longleftrightarrow> y = x \<and> - I128_MAX - 1 \<le> x \<and> x \<le> I128_MAX"
  by (auto simp: i128_def)

lemma i128_ok: "- I128_MAX - 1 \<le> x \<Longrightarrow> x \<le> I128_MAX \<Longrightarrow> i128 x = Inr x"
  by (simp add: i128_def)

lemma usdc_transfer_Inr [err_simps]:
  "usdc_transfer a b n s = Inr s' \<longleftrightarrow> 0 \<le> n \<and> n \<le> es_usdc s a
     \<and> s' = s\<lparr>es_usdc := (\<lambda>x. es_usdc s x - (if x = a then n else 0) + (if x = b then n else 0))\<rparr>"
proof -
  have "((es_usdc s)(a := es_usdc s a - n))(b := ((es_usdc s)(a := es_usdc s a - n)) b + n)
      = (\<lambda>x. es_usdc s x - (if x = a then n else 0) + (if x = b then n else 0))" by auto
  then show ?thesis by (auto simp: usdc_transfer_def Let_def)
qed

section \<open>The settlement's parts\<close>

lemma check_allocation_Inr [err_simps]:
  "check_allocation bids P (i, a) (al, sa, pr) = Inr r \<longleftrightarrow>
     (\<exists>b. bids i = Some b \<and> eb_active b \<and> 0 \<le> a \<and> a \<le> eb_count b \<and> al i = None
        \<and> (a > 0 \<longrightarrow> 0 < P \<and> P \<le> eb_price b) \<and> P * a \<le> eb_escrow b
        \<and> - I128_MAX - 1 \<le> P * a \<and> P * a \<le> I128_MAX \<and> eb_escrow b - P * a \<le> I128_MAX
        \<and> sa + a \<le> I128_MAX \<and> - I128_MAX - 1 \<le> sa + a \<and> pr + P * a \<le> I128_MAX \<and> - I128_MAX - 1 \<le> pr + P * a
        \<and> r = (al(i \<mapsto> a), sa + a, pr + P * a))"
  by (auto simp: check_allocation_def err_simps I128_MAX_def split: option.splits if_splits)

text \<open>What an accepted allocation list is.\<close>

definition valid_allocs :: "(nat \<rightharpoonup> esc_bid) \<Rightarrow> int \<Rightarrow> (nat \<times> int) list \<Rightarrow> bool" where
  "valid_allocs bids P allocs \<longleftrightarrow> distinct (map fst allocs)
     \<and> (\<forall>(i, a) \<in> set allocs. \<exists>b. bids i = Some b \<and> eb_active b \<and> 0 \<le> a \<and> a \<le> eb_count b
          \<and> (a > 0 \<longrightarrow> 0 < P \<and> P \<le> eb_price b) \<and> P * a \<le> eb_escrow b)"

lemma check_allocations_Inr:
  "foldE (check_allocation bids P) allocs (al, sa, pr) = Inr (al', sa', pr')
   \<Longrightarrow> al' = al ++ map_of (rev allocs) \<and> sa' = sa + sum_list (map snd allocs) \<and> pr' = pr + P * sum_list (map snd allocs)
     \<and> (\<forall>i \<in> fst ` set allocs. al i = None) \<and> valid_allocs bids P allocs"
proof (induction allocs arbitrary: al sa pr)
  case Nil
  then show ?case by (simp add: valid_allocs_def)
next
  case (Cons e allocs)
  obtain i a where e: "e = (i, a)" by (cases e)
  from Cons.prems obtain b where b: "bids i = Some b" "eb_active b" "0 \<le> a" "a \<le> eb_count b" "al i = None"
      "a > 0 \<longrightarrow> 0 < P \<and> P \<le> eb_price b" "P * a \<le> eb_escrow b"
    and rest: "foldE (check_allocation bids P) allocs (al(i \<mapsto> a), sa + a, pr + P * a) = Inr (al', sa', pr')"
    by (auto simp: e err_simps)
  from Cons.IH [OF rest] b show ?case
    by (auto simp: e valid_allocs_def map_add_def distrib_left fun_eq_iff split: option.splits if_splits)
qed

lemma check_allocations_ok:
  assumes "valid_allocs bids P allocs" "0 \<le> P" "\<forall>i \<in> fst ` set allocs. al i = None" "0 \<le> sa" "0 \<le> pr"
    "\<And>i b. bids i = Some b \<Longrightarrow> 0 \<le> eb_escrow b \<and> eb_escrow b \<le> I128_MAX"
    "sa + sum_list (map snd allocs) \<le> I128_MAX" "pr + P * sum_list (map snd allocs) \<le> I128_MAX"
  shows "\<exists>al'. foldE (check_allocation bids P) allocs (al, sa, pr)
     = Inr (al', sa + sum_list (map snd allocs), pr + P * sum_list (map snd allocs))"
  using assms
proof (induction allocs arbitrary: al sa pr)
  case (Cons e allocs)
  obtain i a where e: "e = (i, a)" by (cases e)
  from Cons.prems(1) obtain b where b: "bids i = Some b" "eb_active b" "0 \<le> a" "a \<le> eb_count b"
      "a > 0 \<longrightarrow> 0 < P \<and> P \<le> eb_price b" "P * a \<le> eb_escrow b"
    and v: "valid_allocs bids P allocs" "i \<notin> fst ` set allocs" by (auto simp: e valid_allocs_def)
  have "0 \<le> snd p" if "p \<in> set allocs" for p using v(1) that by (auto simp: valid_allocs_def)
  then have rest: "0 \<le> sum_list (map snd allocs)" by (rule sum_list_map_ge0)
  then have Pr: "0 \<le> P * sum_list (map snd allocs)" "0 \<le> P * a" using Cons.prems(2) b(3) by simp_all
  have esc: "0 \<le> eb_escrow b" "eb_escrow b \<le> I128_MAX" using Cons.prems(6) [OF b(1)] by simp_all
  have step: "check_allocation bids P (i, a) (al, sa, pr) = Inr (al(i \<mapsto> a), sa + a, pr + P * a)"
    unfolding check_allocation_Inr
    using Cons.prems(3-5,7,8) b esc rest Pr by (auto simp: e distrib_left I128_MAX_def)
  have "\<exists>al'. foldE (check_allocation bids P) allocs (al(i \<mapsto> a), sa + a, pr + P * a)
     = Inr (al', (sa + a) + sum_list (map snd allocs), (pr + P * a) + P * sum_list (map snd allocs))"
    using Cons.prems v b(3) Pr(2) by (intro Cons.IH) (auto simp: e distrib_left add.assoc)
  then show ?case by (simp add: e step distrib_left add.assoc)
qed simp

definition deactivate :: "(nat \<rightharpoonup> esc_bid) \<Rightarrow> nat set \<Rightarrow> (nat \<rightharpoonup> esc_bid)" where
  "deactivate bids I = (\<lambda>i. if i \<in> I then map_option (\<lambda>b. b\<lparr>eb_active := False\<rparr>) (bids i) else bids i)"

lemma refund_bid_inactive:
  "es_bids s i = Some b \<Longrightarrow> \<not> eb_active b \<Longrightarrow> refund_bid P alloc i (s, sr, se) = Inr (s, sr, se)"
  by (simp add: refund_bid_def)

definition after_refund :: "escrow \<Rightarrow> nat \<Rightarrow> esc_bid \<Rightarrow> int \<Rightarrow> escrow" where
  "after_refund s i b r = s\<lparr>es_usdc := (\<lambda>x. es_usdc s x - (if x = es_self s then r else 0)
       + (if x = eb_bidder b then r else 0)), es_bids := (es_bids s)(i \<mapsto> b\<lparr>eb_active := False\<rparr>)\<rparr>"

lemma refund_bid_active:
  assumes "es_bids s i = Some b" "eb_active b" "0 \<le> eb_escrow b - P * alloc_of alloc i"
  shows "refund_bid P alloc i (s, sr, se) = Inr q \<longleftrightarrow>
    (let r = eb_escrow b - P * alloc_of alloc i in
     - I128_MAX - 1 \<le> P * alloc_of alloc i \<and> P * alloc_of alloc i \<le> I128_MAX \<and> r \<le> I128_MAX
     \<and> (r > 0 \<longrightarrow> r \<le> es_usdc s (es_self s))
     \<and> - I128_MAX - 1 \<le> sr + r \<and> sr + r \<le> I128_MAX \<and> - I128_MAX - 1 \<le> se + eb_escrow b \<and> se + eb_escrow b \<le> I128_MAX
     \<and> q = (after_refund s i b r, sr + r, se + eb_escrow b))"
proof (cases "eb_escrow b - P * alloc_of alloc i > 0")
  case True
  with assms show ?thesis
    by (auto simp: refund_bid_def err_simps alloc_of_def [symmetric] after_refund_def Let_def I128_MAX_def)
next
  case False
  with assms(3) have "eb_escrow b - P * alloc_of alloc i = 0" by simp
  with assms(1,2) show ?thesis
    by (auto simp: refund_bid_def err_simps alloc_of_def [symmetric] after_refund_def Let_def I128_MAX_def)
qed

text \<open>The payouts touch the book and the balances only.\<close>

definition same_frame :: "escrow \<Rightarrow> escrow \<Rightarrow> bool" where
  "same_frame s s' \<longleftrightarrow> es_self s' = es_self s \<and> es_params s' = es_params s \<and> es_status s' = es_status s
     \<and> es_seq s' = es_seq s \<and> es_idem s' = es_idem s \<and> es_total s' = es_total s \<and> es_minted s' = es_minted s"

text \<open>The refund loop, forwards: the sums, the deactivated book and every balance.\<close>

lemma refund_loop:
  assumes "foldE (refund_bid P alloc) xs (s, sr, se) = Inr (s', sr', se')" "distinct xs"
    "\<forall>i \<in> set xs. 0 \<le> refund_of (es_bids s) P alloc i" "\<forall>i b. es_bids s i = Some b \<longrightarrow> eb_bidder b \<noteq> es_self s"
  shows "same_frame s s' \<and> es_bids s' = deactivate (es_bids s) (set xs)
    \<and> se' = se + sum_list (map (held_of (es_bids s)) xs)
    \<and> sr' = sr + sum_list (map (refund_of (es_bids s) P alloc) xs)
    \<and> (\<forall>x. x \<noteq> es_self s \<longrightarrow> es_usdc s' x = es_usdc s x + sum_list (map (refund_to (es_bids s) P alloc x) xs))"
  using assms
proof (induction xs arbitrary: s sr se)
  case Nil
  then show ?case by (simp add: deactivate_def same_frame_def)
next
  case (Cons i xs)
  obtain b where b: "es_bids s i = Some b" using Cons.prems(1) by (auto simp: refund_bid_def split: option.splits)
  show ?case
  proof (cases "eb_active b")
    case False
    then have "foldE (refund_bid P alloc) xs (s, sr, se) = Inr (s', sr', se')"
      using Cons.prems(1) refund_bid_inactive [OF b] by simp
    note IH = Cons.IH [OF this]
    have "b\<lparr>eb_active := False\<rparr> = b" using False by (cases b) simp
    then have de: "deactivate (es_bids s) (set (i # xs)) = deactivate (es_bids s) (set xs)"
      using b by (auto simp: deactivate_def fun_eq_iff)
    have z: "held_of (es_bids s) i = 0" "refund_of (es_bids s) P alloc i = 0" "refund_to (es_bids s) P alloc x i = 0" for x
      using b False by (simp_all add: held_of_def refund_of_def refund_to_def)
    show ?thesis unfolding de using IH Cons.prems(2-4) by (simp add: z)
  next
    case True
    let ?r = "eb_escrow b - P * alloc_of alloc i"
    have r: "refund_of (es_bids s) P alloc i = ?r" "held_of (es_bids s) i = eb_escrow b"
      using b True by (simp_all add: refund_of_def held_of_def)
    have nself: "eb_bidder b \<noteq> es_self s" using Cons.prems(4) b by blast
    define s1 where "s1 = after_refund s i b ?r"
    have rest: "foldE (refund_bid P alloc) xs (s1, sr + ?r, se + eb_escrow b) = Inr (s', sr', se')"
      using Cons.prems(1,3) r(1) refund_bid_active [OF b True, of P alloc sr se]
      by (auto simp: err_simps Let_def s1_def)
    have same: "refund_of (es_bids s1) P alloc j = refund_of (es_bids s) P alloc j"
      "held_of (es_bids s1) j = held_of (es_bids s) j" "refund_to (es_bids s1) P alloc x j = refund_to (es_bids s) P alloc x j"
      if "j \<in> set xs" for j x
      using that Cons.prems(2) by (auto simp: s1_def after_refund_def refund_of_def held_of_def refund_to_def split: option.splits)
    have p1: "distinct xs" "\<forall>j \<in> set xs. 0 \<le> refund_of (es_bids s1) P alloc j" using Cons.prems(2,3) same(1) by simp_all
    have p2: "\<forall>j c. es_bids s1 j = Some c \<longrightarrow> eb_bidder c \<noteq> es_self s1"
      using Cons.prems(4) b by (simp add: s1_def after_refund_def)
    have IH: "same_frame s1 s' \<and> es_bids s' = deactivate (es_bids s1) (set xs)
      \<and> se' = (se + eb_escrow b) + sum_list (map (held_of (es_bids s1)) xs)
      \<and> sr' = (sr + ?r) + sum_list (map (refund_of (es_bids s1) P alloc) xs)
      \<and> (\<forall>x. x \<noteq> es_self s1 \<longrightarrow> es_usdc s' x = es_usdc s1 x + sum_list (map (refund_to (es_bids s1) P alloc x) xs))"
      by (rule Cons.IH [OF rest p1 p2])
    have sums: "map (held_of (es_bids s1)) xs = map (held_of (es_bids s)) xs"
      "map (refund_of (es_bids s1) P alloc) xs = map (refund_of (es_bids s) P alloc) xs"
      "map (refund_to (es_bids s1) P alloc x) xs = map (refund_to (es_bids s) P alloc x) xs" for x
      using same by auto
    have de: "deactivate (es_bids s1) (set xs) = deactivate (es_bids s) (set (i # xs))"
      using b Cons.prems(2) by (auto simp: s1_def after_refund_def deactivate_def fun_eq_iff)
    have to_i: "refund_to (es_bids s) P alloc x i = (if x = eb_bidder b then ?r else 0)" for x
      using b r(1) by (auto simp: refund_to_def)
    show ?thesis
      using IH r nself unfolding sums de by (auto simp: s1_def after_refund_def same_frame_def to_i)
  qed
qed

section \<open>The invariant\<close>

definition bid_ok :: "ident \<Rightarrow> esc_bid \<Rightarrow> bool" where
  "bid_ok self b \<longleftrightarrow> 0 < eb_price b \<and> 0 < eb_count b \<and> eb_escrow b = eb_price b * eb_count b
     \<and> eb_escrow b \<le> I128_MAX \<and> eb_bidder b \<noteq> self"

definition esc_inv :: "escrow \<Rightarrow> bool" where
  "esc_inv s \<longleftrightarrow> (\<forall>i. es_bids s i \<noteq> None \<longleftrightarrow> 1 \<le> i \<and> i \<le> es_seq s)
     \<and> (\<forall>i b. es_bids s i = Some b \<longrightarrow> bid_ok (es_self s) b)
     \<and> es_total s = held s \<and> held s \<le> es_usdc s (es_self s)
     \<and> (es_status s \<in> {Esc_settled, Esc_cancelled} \<longrightarrow> held s = 0)"

lemma bid_ok_pos: "bid_ok self b \<Longrightarrow> 0 < eb_escrow b"
  unfolding bid_ok_def using mult_pos_pos [of "eb_price b" "eb_count b"] by simp

lemma bid_ok_inactive [simp]: "bid_ok self (b\<lparr>eb_active := a\<rparr>) = bid_ok self b"
  by (simp add: bid_ok_def)

lemma esc_invD:
  assumes "esc_inv s"
  shows "es_bids s i \<noteq> None \<longleftrightarrow> 1 \<le> i \<and> i \<le> es_seq s"
    "es_bids s i = Some b \<Longrightarrow> bid_ok (es_self s) b"
    "es_total s = held s" "held s \<le> es_usdc s (es_self s)"
    "es_status s \<in> {Esc_settled, Esc_cancelled} \<Longrightarrow> held s = 0"
  using assms by (auto simp: esc_inv_def)

lemma held_of_ge0: "esc_inv s \<Longrightarrow> 0 \<le> held_of (es_bids s) i"
  using esc_invD(2) [of s i] bid_ok_pos [of "es_self s"] by (force simp: held_of_def split: option.splits)

lemma held_ge0: "esc_inv s \<Longrightarrow> 0 \<le> held s"
  unfolding held_def by (rule sum_list_map_ge0) (rule held_of_ge0)

lemma sum_list_upd:
  assumes "distinct xs" "i \<in> set xs" "\<And>j. j \<in> set xs \<Longrightarrow> j \<noteq> i \<Longrightarrow> g j = f j"
  shows "sum_list (map g xs) = sum_list (map f xs) - f i + (g i :: int)"
  using assms
proof (induction xs)
  case (Cons x xs)
  show ?case
  proof (cases "x = i")
    case True
    have "sum_list (map g xs) = sum_list (map f xs)"
      by (rule arg_cong [where f = sum_list], rule map_cong) (use Cons.prems True in auto)
    with True show ?thesis by simp
  next
    case False
    have "sum_list (map g xs) = sum_list (map f xs) - f i + g i"
      by (rule Cons.IH) (use Cons.prems False in auto)
    then show ?thesis using Cons.prems(3) [of x] False by simp
  qed
qed simp

lemma held_update:
  assumes "1 \<le> i" "i \<le> es_seq s"
  shows "held (s\<lparr>es_bids := (es_bids s)(i \<mapsto> c), es_total := t, es_usdc := u\<rparr>)
    = held s - held_of (es_bids s) i + (if eb_active c then eb_escrow c else 0)"
proof -
  have "sum_list (map (held_of ((es_bids s)(i \<mapsto> c))) [1..<es_seq s + 1])
    = sum_list (map (held_of (es_bids s)) [1..<es_seq s + 1]) - held_of (es_bids s) i + held_of ((es_bids s)(i \<mapsto> c)) i"
  proof (rule sum_list_upd)
    show "i \<in> set [1..<es_seq s + 1]" using assms by (simp del: upt_Suc)
  qed (simp_all add: held_of_def del: upt_Suc)
  then show ?thesis by (simp add: held_def held_of_def del: upt_Suc)
qed

lemma held_extend:
  assumes "es_seq s' = es_seq s + 1" "es_bids s' = (es_bids s)(es_seq s + 1 \<mapsto> c)"
  shows "held s' = held s + (if eb_active c then eb_escrow c else 0)"
proof -
  have u: "[1..<es_seq s + 1 + 1] = [1..<es_seq s + 1] @ [es_seq s + 1]" by simp
  have m: "map (held_of (es_bids s')) [1..<es_seq s + 1] = map (held_of (es_bids s)) [1..<es_seq s + 1]"
    by (rule map_cong) (auto simp: held_of_def assms(2) simp del: upt_Suc)
  show ?thesis unfolding held_def assms(1) u map_append m by (simp add: assms(2) held_of_def)
qed

lemma submit_bid_keeps:
  assumes "esc_inv s" "submit_bid auths bidder price cnt key s = Inr (i, s')" "bidder \<noteq> es_self s"
  shows "esc_inv s' \<and> es_status s' = Esc_open"
proof -
  define b where "b = \<lparr>eb_bidder = bidder, eb_price = price, eb_count = cnt, eb_escrow = price * cnt, eb_active = True\<rparr>"
  define u where "u = (\<lambda>x. es_usdc s x - (if x = bidder then price * cnt else 0) + (if x = es_self s then price * cnt else 0))"
  have ok: "bid_ok (es_self s) b" and o: "es_status s = Esc_open"
    and s': "s' = s\<lparr>es_seq := es_seq s + 1, es_idem := (es_idem s)(key \<mapsto> es_seq s + 1),
        es_total := es_total s + price * cnt, es_bids := (es_bids s)(es_seq s + 1 \<mapsto> b), es_usdc := u\<rparr>"
    using assms(2,3) by (auto simp: submit_bid_def err_simps require_open_def Let_def bid_ok_def b_def u_def)
  have h: "held s' = held s + price * cnt" by (subst held_extend [where s = s and c = b]) (simp_all add: s' b_def)
  have 1: "es_bids s' j \<noteq> None \<longleftrightarrow> 1 \<le> j \<and> j \<le> es_seq s'" for j
    using esc_invD(1) [OF assms(1), of j] by (auto simp: s')
  have 2: "bid_ok (es_self s') c" if "es_bids s' j = Some c" for j c
    using that ok esc_invD(2) [OF assms(1), of j c] by (auto simp: s' split: if_splits)
  have self: "es_usdc s' (es_self s') = es_usdc s (es_self s) + price * cnt" using assms(3) by (auto simp: s' u_def)
  have t: "es_total s' = held s'" using esc_invD(3) [OF assms(1)] by (simp add: h) (simp add: s')
  have st: "es_status s' = Esc_open" using o by (simp add: s')
  show ?thesis
    unfolding esc_inv_def using 1 2 t h self st esc_invD(4) [OF assms(1)] by auto
qed

lemma cancel_bid_keeps:
  assumes "esc_inv s" "cancel_bid auths caller i s = Inr (x, s')"
  shows "esc_inv s' \<and> es_status s' = Esc_open"
proof -
  obtain b where b: "es_bids s i = Some b" "eb_active b" and o: "es_status s = Esc_open"
    and s': "s' = s\<lparr>es_bids := (es_bids s)(i \<mapsto> b\<lparr>eb_active := False\<rparr>), es_total := es_total s - eb_escrow b,
        es_usdc := (\<lambda>x. es_usdc s x - (if x = es_self s then eb_escrow b else 0) + (if x = eb_bidder b then eb_escrow b else 0))\<rparr>"
    using assms(2) by (auto simp: cancel_bid_def err_simps require_open_def Let_def split: option.splits if_splits)
  have B: "bid_ok (es_self s) b" by (rule esc_invD(2) [OF assms(1) b(1)])
  have i: "1 \<le> i" "i \<le> es_seq s" using esc_invD(1) [OF assms(1), of i] b(1) by simp_all
  have h: "held s' = held s - eb_escrow b" unfolding s' held_update [OF i] using b by (simp add: held_of_def)
  have 1: "es_bids s' j \<noteq> None \<longleftrightarrow> 1 \<le> j \<and> j \<le> es_seq s'" for j
    using esc_invD(1) [OF assms(1), of j] i by (auto simp: s')
  have 2: "bid_ok (es_self s') c" if "es_bids s' j = Some c" for j c
    using that B esc_invD(2) [OF assms(1), of j c] by (auto simp: s' split: if_splits)
  have self: "es_usdc s' (es_self s') = es_usdc s (es_self s) - eb_escrow b" using B by (auto simp: s' bid_ok_def)
  have t: "es_total s' = held s'" using esc_invD(3) [OF assms(1)] by (simp add: h) (simp add: s')
  have st: "es_status s' = Esc_open" using o by (simp add: s')
  show ?thesis
    unfolding esc_inv_def using 1 2 t h self st esc_invD(4) [OF assms(1)] by auto
qed

lemma close_offering_keeps:
  assumes "esc_inv s" "close_offering auths s = Inr (x, s')"
  shows "esc_inv s'"
  using assms by (auto simp: close_offering_def err_simps require_open_def esc_inv_def held_def simp del: upt_Suc)

lemma cancel_offering_keeps:
  assumes "esc_inv s" "cancel_offering auths s = Inr (x, s')"
  shows "esc_inv s'"
  using assms held_ge0 [OF assms(1)]
  by (auto simp: cancel_offering_def err_simps esc_inv_def held_def simp del: upt_Suc)

lemma bind_token_keeps:
  assumes "esc_inv s" "bind_token auths token s = Inr (x, s')"
  shows "esc_inv s'"
  using assms by (auto simp: bind_token_def err_simps esc_inv_def held_def simp del: upt_Suc)

lemma constructor_inv:
  "esc_constructor self balances usdc total_supply artist ar treasury tr lo payout admin = Inr s \<Longrightarrow> 0 \<le> balances self
   \<Longrightarrow> esc_inv s"
  by (auto simp: esc_constructor_def err_simps esc_inv_def held_def split: if_splits)

section \<open>Settlement\<close>

lemma pay_if_frame:
  "pay_if dst n s = Inr s' \<Longrightarrow> 0 \<le> n \<Longrightarrow> same_frame s s' \<and> es_bids s' = es_bids s
     \<and> (\<forall>x. x \<noteq> es_self s \<longrightarrow> es_usdc s' x = es_usdc s x + (if x = dst then n else 0))"
  by (auto simp: pay_if_def err_simps same_frame_def split: if_splits)

lemma fee_ge0: "0 \<le> p \<Longrightarrow> 0 \<le> (p * 300) sdiv 10000 \<and> (p * 300) sdiv 10000 \<le> (p :: int)"
  by (simp add: signed_divide_int_def sgn_if) linarith

lemma deactivate_inactive: "i \<in> I \<Longrightarrow> held_of (deactivate bids I) i = 0"
  by (auto simp: deactivate_def held_of_def split: option.splits)

lemma valid_alloc_of:
  assumes "valid_allocs bids P allocs"
  shows "alloc_of (map_of (rev allocs)) i = 0 \<or>
    (\<exists>b. bids i = Some b \<and> eb_active b \<and> (i, alloc_of (map_of (rev allocs)) i) \<in> set allocs
       \<and> 0 < P \<and> P * alloc_of (map_of (rev allocs)) i \<le> eb_escrow b)"
proof (cases "map_of (rev allocs) i")
  case None
  then show ?thesis by (simp add: alloc_of_def)
next
  case (Some a)
  then have m: "(i, a) \<in> set allocs" using map_of_SomeD by fastforce
  then obtain b where "bids i = Some b" "eb_active b" "0 \<le> a" "a > 0 \<longrightarrow> 0 < P" "P * a \<le> eb_escrow b"
    using assms by (auto simp: valid_allocs_def)
  then show ?thesis using m Some by (auto simp: alloc_of_def)
qed

lemma valid_refund_ge0:
  assumes "valid_allocs (es_bids s) P allocs" "esc_inv s"
  shows "0 \<le> refund_of (es_bids s) P (map_of (rev allocs)) i"
  using valid_alloc_of [OF assms(1), of i] bid_ok_pos [OF esc_invD(2) [OF assms(2)], of i]
  by (force simp: refund_of_def split: option.splits)

lemma valid_proceeds_ge0:
  assumes "valid_allocs bids P allocs"
  shows "0 \<le> P * sum_list (map snd allocs)"
proof -
  have "P * sum_list (map snd allocs) = sum_list (map (\<lambda>e. P * snd e) allocs)" by (simp add: sum_list_const_mult)
  also have "0 \<le> \<dots>" by (rule sum_list_map_ge0) (use assms in \<open>force simp: valid_allocs_def\<close>)
  finally show ?thesis by simp
qed

text \<open>A settlement that the contract accepts.\<close>

lemma close_and_settle_Inr:
  assumes "esc_inv s" "close_and_settle auths mint P allocs s = Inr (x, s')"
  defines "A \<equiv> sum_list (map snd allocs)"
  defines "fee \<equiv> (P * A * 300) sdiv 10000"
  shows "es_status s = Esc_closed \<and> ep_token (es_params s) \<noteq> None \<and> valid_allocs (es_bids s) P allocs
     \<and> A + ep_artist_retention (es_params s) + ep_treasury_retention (es_params s) + ep_leftover (es_params s)
         = ep_supply (es_params s)
     \<and> mint (recipients (es_params s) (es_bids s) allocs)
     \<and> es_status s' = Esc_settled \<and> es_total s' = 0 \<and> es_self s' = es_self s \<and> es_seq s' = es_seq s
     \<and> es_minted s' = recipients (es_params s) (es_bids s) allocs
     \<and> es_bids s' = deactivate (es_bids s) {1..es_seq s}
     \<and> es_usdc s' (es_self s) = es_usdc s (es_self s) - held s
     \<and> (\<forall>y. y \<noteq> es_self s \<longrightarrow> es_usdc s' y = es_usdc s y
          + sum_list (map (refund_to (es_bids s) P (map_of (rev allocs)) y) [1..<es_seq s + 1])
          + (if y = ep_treasury (es_params s) then fee else 0) + (if y = ep_payout (es_params s) then P * A - fee else 0))"
proof -
  define p where "p = es_params s"
  define s0 where "s0 = s\<lparr>es_status := Esc_settled, es_total := 0, es_minted := recipients p (es_bids s) allocs\<rparr>"
  obtain alloc sa pr where chk: "foldE (check_allocation (es_bids s) P) allocs (Map.empty, 0, 0) = Inr (alloc, sa, pr)"
    and st: "es_status s = Esc_closed" "ep_token p \<noteq> None" "sa + ep_artist_retention p + ep_treasury_retention p + ep_leftover p = ep_supply p"
      "mint (recipients p (es_bids s) allocs)"
    and pay: "settle_payouts P alloc pr s0 = Inr (x, s')"
    using assms(2) by (auto simp: close_and_settle_def err_simps Let_def p_def s0_def split: esc_status.splits)
  have al: "alloc = map_of (rev allocs)" "sa = A" "pr = P * A" and v: "valid_allocs (es_bids s) P allocs"
    using check_allocations_Inr [OF chk] by (simp_all add: A_def)
  obtain s1 sr se s2 s3 where loop: "foldE (refund_bid P alloc) [1..<es_seq s0 + 1] (s0, 0, 0) = Inr (s1, sr, se)"
    and p1: "pay_if (ep_treasury p) fee s1 = Inr s2" and p2: "pay_if (ep_payout p) (P * A - fee) s2 = Inr s3"
    and belt: "es_usdc s0 (es_self s0) - es_usdc s3 (es_self s0) = se" and s': "s' = s3"
    using pay by (auto simp: settle_payouts_def err_simps Let_def al fee_def p_def s0_def)
  have allocge: "0 \<le> a" if "(i, a) \<in> set allocs" for i a using v that by (auto simp: valid_allocs_def)
  have "0 \<le> A" unfolding A_def by (rule sum_list_map_ge0) (use allocge in force)
  moreover have "0 \<le> P * A" unfolding A_def by (rule valid_proceeds_ge0 [OF v])
  ultimately have fee: "0 \<le> fee" "0 \<le> P * A - fee" using fee_ge0 [of "P * A"] by (simp_all add: fee_def)
  have refunds: "\<forall>i \<in> set [1..<es_seq s0 + 1]. 0 \<le> refund_of (es_bids s0) P alloc i"
  proof
    fix i
    show "0 \<le> refund_of (es_bids s0) P alloc i"
      using valid_refund_ge0 [OF v assms(1), of i] by (simp add: s0_def al)
  qed
  have nself: "\<forall>i b. es_bids s0 i = Some b \<longrightarrow> eb_bidder b \<noteq> es_self s0"
    using esc_invD(2) [OF assms(1)] by (auto simp: s0_def bid_ok_def)
  define xs where "xs = [1..<es_seq s + 1]"
  have Z: "es_bids s0 = es_bids s" "es_self s0 = es_self s" "es_seq s0 = es_seq s" "es_usdc s0 = es_usdc s" "es_params s0 = p"
    "es_status s0 = Esc_settled" "es_total s0 = 0" "es_minted s0 = recipients p (es_bids s) allocs"
    by (simp_all add: s0_def p_def)
  have X: "set xs = {1..es_seq s}" by (auto simp: xs_def simp del: upt_Suc)
  have L: "same_frame s0 s1" "es_bids s1 = deactivate (es_bids s) (set xs)" "se = sum_list (map (held_of (es_bids s)) xs)"
    "y \<noteq> es_self s \<Longrightarrow> es_usdc s1 y = es_usdc s y + sum_list (map (refund_to (es_bids s) P alloc y) xs)" for y
    using refund_loop [OF loop distinct_upt refunds nself] unfolding Z xs_def [symmetric] by simp_all
  note F1 = pay_if_frame [OF p1 fee(1)] and F2 = pay_if_frame [OF p2 fee(2)]
  have fr: "same_frame s0 s'" "es_self s1 = es_self s" "es_self s2 = es_self s"
    using L(1) F1 F2 Z(2) by (auto simp: same_frame_def s')
  have B: "es_bids s' = deactivate (es_bids s) {1..es_seq s}" using L(2) F1 F2 X s' by simp
  have self: "es_usdc s' (es_self s) = es_usdc s (es_self s) - held s"
    using belt L(3) by (simp add: Z s' held_def xs_def del: upt_Suc)
  have others: "es_usdc s' y = es_usdc s y + sum_list (map (refund_to (es_bids s) P alloc y) xs)
      + (if y = ep_treasury p then fee else 0) + (if y = ep_payout p then P * A - fee else 0)" if "y \<noteq> es_self s" for y
    using that L(4) [OF that] F1 F2 fr s' by simp
  show ?thesis
    using st v fr(1) B self others by (simp add: same_frame_def Z p_def al xs_def del: upt_Suc)
qed

lemma foldE_refund_frame:
  "foldE (refund_bid P alloc) xs (s, sr, se) = Inr (s', sr', se') \<Longrightarrow> same_frame s s'"
proof (induction xs arbitrary: s sr se)
  case Nil
  then show ?case by (simp add: same_frame_def)
next
  case (Cons i xs)
  obtain s1 sr1 se1 where 1: "refund_bid P alloc i (s, sr, se) = Inr (s1, sr1, se1)"
    and 2: "foldE (refund_bid P alloc) xs (s1, sr1, se1) = Inr (s', sr', se')"
    using Cons.prems by (auto simp: err_simps)
  from 1 have "same_frame s s1"
    by (auto simp: refund_bid_def err_simps same_frame_def split: option.splits if_splits)
  with Cons.IH [OF 2] show ?case by (simp add: same_frame_def)
qed

lemma pay_if_same: "pay_if dst n s = Inr s' \<Longrightarrow> same_frame s s'"
  by (auto simp: pay_if_def err_simps same_frame_def split: if_splits)

lemma close_and_settle_frame:
  assumes "close_and_settle auths mint P allocs s = Inr (x, s')"
  shows "es_params s' = es_params s \<and> es_idem s' = es_idem s \<and> es_status s = Esc_closed \<and> es_status s' = Esc_settled"
proof -
  define s0 where "s0 = s\<lparr>es_status := Esc_settled, es_total := 0, es_minted := recipients (es_params s) (es_bids s) allocs\<rparr>"
  have s0: "es_params s0 = es_params s" "es_idem s0 = es_idem s" "es_status s0 = Esc_settled" by (simp_all add: s0_def)
  obtain alloc pr where st: "es_status s = Esc_closed" and pay: "settle_payouts P alloc pr s0 = Inr (x, s')"
    using assms by (auto simp: close_and_settle_def err_simps Let_def s0_def split: esc_status.splits)
  obtain s1 sr se s2 d1 n1 d2 n2 where 1: "foldE (refund_bid P alloc) [1..<es_seq s0 + 1] (s0, 0, 0) = Inr (s1, sr, se)"
    and 2: "pay_if d1 n1 s1 = Inr s2" and 3: "pay_if d2 n2 s2 = Inr s'"
    using pay unfolding settle_payouts_def by (auto simp: err_simps Let_def simp del: upt_Suc)
  have "same_frame s1 s2" "same_frame s2 s'" using 2 3 pay_if_same by blast+
  then show ?thesis using foldE_refund_frame [OF 1] s0 st by (simp add: same_frame_def)
qed

end
