(* ===== verification/Escrow_Contract_Main.thy ===== *)
theory Escrow_Contract_Main
  imports Escrow_Contract_Props
begin

text \<open>
  The escrow contract as a transition system: every entry point with any arguments, and USDC moved
  by others. The accounting invariant and the lifecycle hold at every reachable ledger state; a
  settlement the contract accepts pays exactly what it promises.
\<close>

section \<open>Reachable ledger states\<close>

text \<open>
  A contract address does not sign as a bidder; nobody but the contract moves the contract's USDC out
  (the token requires its authorization).
\<close>

inductive esc_step :: "escrow \<Rightarrow> escrow \<Rightarrow> bool" where
  step_bid: "submit_bid auths bidder price cnt key s = Inr (i, s') \<Longrightarrow> bidder \<noteq> es_self s \<Longrightarrow> esc_step s s'"
| step_cancel: "cancel_bid auths caller i s = Inr (x, s') \<Longrightarrow> esc_step s s'"
| step_close: "close_offering auths s = Inr (x, s') \<Longrightarrow> esc_step s s'"
| step_abort: "cancel_offering auths s = Inr (x, s') \<Longrightarrow> esc_step s s'"
| step_bind: "bind_token auths token s = Inr (x, s') \<Longrightarrow> esc_step s s'"
| step_settle: "close_and_settle auths mint price allocs s = Inr (x, s') \<Longrightarrow> esc_step s s'"
| step_usdc: "es_usdc s (es_self s) \<le> u (es_self s) \<Longrightarrow> esc_step s (s\<lparr>es_usdc := u\<rparr>)"

inductive esc_reach :: "escrow \<Rightarrow> bool" where
  genesis: "esc_constructor self balances usdc total_supply artist ar treasury tr lo payout admin = Inr s
     \<Longrightarrow> 0 \<le> balances self \<Longrightarrow> total_supply \<le> I128_MAX \<Longrightarrow> esc_reach s"
| step: "esc_reach s \<Longrightarrow> esc_step s s' \<Longrightarrow> esc_reach s'"

definition params_ok :: "esc_params \<Rightarrow> bool" where
  "params_ok p \<longleftrightarrow> 0 < ep_supply p \<and> ep_supply p \<le> I128_MAX \<and> 0 \<le> ep_artist_retention p
     \<and> 0 \<le> ep_treasury_retention p \<and> 0 \<le> ep_leftover p"

lemma settle_keeps:
  assumes "esc_inv s" "close_and_settle auths mint P allocs s = Inr (x, s')"
  shows "esc_inv s'"
proof -
  note S = close_and_settle_Inr [OF assms]
  have b: "es_bids s' = deactivate (es_bids s) {1..es_seq s}" "es_seq s' = es_seq s" "es_self s' = es_self s"
    using S by auto
  have 1: "es_bids s' i \<noteq> None \<longleftrightarrow> 1 \<le> i \<and> i \<le> es_seq s'" for i
    using esc_invD(1) [OF assms(1), of i] by (auto simp: b deactivate_def)
  have 2: "bid_ok (es_self s') c" if "es_bids s' i = Some c" for i c
    using that esc_invD(2) [OF assms(1), of i] by (auto simp: b deactivate_def split: if_splits)
  have z: "map (held_of (es_bids s')) [1..<es_seq s + 1] = map (\<lambda>_. 0) [1..<es_seq s + 1]"
    unfolding b(1) by (rule map_cong) (auto intro!: deactivate_inactive simp del: upt_Suc)
  have h: "held s' = 0" unfolding held_def b(2) z by (simp add: map_replicate_const sum_list_replicate)
  show ?thesis unfolding esc_inv_def
    using 1 2 h S esc_invD(4) [OF assms(1)] by (simp add: b)
qed

lemma usdc_keeps: "esc_inv s \<Longrightarrow> es_usdc s (es_self s) \<le> u (es_self s) \<Longrightarrow> esc_inv (s\<lparr>es_usdc := u\<rparr>)"
  unfolding esc_inv_def held_def by (auto simp del: upt_Suc)

lemma esc_step_keeps: "esc_step s s' \<Longrightarrow> esc_inv s \<Longrightarrow> esc_inv s'"
  by (induction rule: esc_step.induct)
    (blast intro: submit_bid_keeps [THEN conjunct1] cancel_bid_keeps [THEN conjunct1] close_offering_keeps
      cancel_offering_keeps bind_token_keeps settle_keeps usdc_keeps)+

lemma esc_reach_inv: "esc_reach s \<Longrightarrow> esc_inv s"
  by (induction rule: esc_reach.induct) (blast intro: constructor_inv esc_step_keeps)+

section \<open>The lifecycle\<close>

definition bid_le :: "esc_bid \<Rightarrow> esc_bid \<Rightarrow> bool" where
  "bid_le b c \<longleftrightarrow> eb_bidder c = eb_bidder b \<and> eb_price c = eb_price b \<and> eb_count c = eb_count b
     \<and> eb_escrow c = eb_escrow b \<and> (eb_active c \<longrightarrow> eb_active b)"

definition status_le :: "esc_status \<Rightarrow> esc_status \<Rightarrow> bool" where
  "status_le a b \<longleftrightarrow> a = b \<or> a = Esc_open \<or> a = Esc_closed \<and> b \<in> {Esc_settled, Esc_cancelled}"

definition esc_le :: "escrow \<Rightarrow> escrow \<Rightarrow> bool" where
  "esc_le s t \<longleftrightarrow> es_self t = es_self s \<and> status_le (es_status s) (es_status t)
     \<and> (\<forall>i b. es_bids s i = Some b \<longrightarrow> (\<exists>c. es_bids t i = Some c \<and> bid_le b c))
     \<and> (\<forall>k i. es_idem s k = Some i \<longrightarrow> es_idem t k = Some i)
     \<and> (es_status s \<noteq> Esc_open \<longrightarrow> dom (es_bids t) = dom (es_bids s))
     \<and> (es_status s = Esc_settled \<longrightarrow> es_minted t = es_minted s)
     \<and> es_params t\<lparr>ep_token := None\<rparr> = es_params s\<lparr>ep_token := None\<rparr>
     \<and> (\<forall>a. ep_token (es_params s) = Some a \<longrightarrow> ep_token (es_params t) = Some a)"

lemma bid_le_refl [simp]: "bid_le b b" "bid_le b (b\<lparr>eb_active := False\<rparr>)"
  by (simp_all add: bid_le_def)

lemma bid_le_trans: "bid_le a b \<Longrightarrow> bid_le b c \<Longrightarrow> bid_le a c"
  by (simp add: bid_le_def)

lemma status_le_trans: "status_le a b \<Longrightarrow> status_le b c \<Longrightarrow> status_le a c"
  by (auto simp: status_le_def)

lemma esc_le_refl [simp]: "esc_le s s"
  by (simp add: esc_le_def status_le_def)

lemma esc_leD:
  assumes "esc_le s t"
  shows "es_self t = es_self s" "status_le (es_status s) (es_status t)"
    "es_bids s i = Some b \<Longrightarrow> \<exists>c. es_bids t i = Some c \<and> bid_le b c"
    "es_idem s k = Some i \<Longrightarrow> es_idem t k = Some i"
    "es_status s \<noteq> Esc_open \<Longrightarrow> dom (es_bids t) = dom (es_bids s)"
    "es_status s = Esc_settled \<Longrightarrow> es_minted t = es_minted s"
    "es_params t\<lparr>ep_token := None\<rparr> = es_params s\<lparr>ep_token := None\<rparr>"
    "ep_token (es_params s) = Some a \<Longrightarrow> ep_token (es_params t) = Some a"
  using assms by (simp_all only: esc_le_def, blast+)

lemma status_leD:
  "status_le a b \<Longrightarrow> a \<noteq> Esc_open \<Longrightarrow> b \<noteq> Esc_open" "status_le a b \<Longrightarrow> a = Esc_settled \<Longrightarrow> b = Esc_settled"
  by (auto simp: status_le_def)

lemma esc_le_trans:
  assumes "esc_le a b" "esc_le b c"
  shows "esc_le a c"
proof -
  note A = esc_leD [OF assms(1)] and B = esc_leD [OF assms(2)]
  have bids: "\<exists>z. es_bids c i = Some z \<and> bid_le x z" if "es_bids a i = Some x" for i x
    using A(3) [OF that] B(3) bid_le_trans by blast
  have dom: "dom (es_bids c) = dom (es_bids a)" if "es_status a \<noteq> Esc_open"
    using A(5) [OF that] B(5) [OF status_leD(1) [OF A(2) that]] by simp
  have mint: "es_minted c = es_minted a" if "es_status a = Esc_settled"
    using A(6) [OF that] B(6) [OF status_leD(2) [OF A(2) that]] by simp
  show ?thesis unfolding esc_le_def
  proof (intro conjI allI impI)
    show "es_self c = es_self a" using A(1) B(1) by simp
    show "status_le (es_status a) (es_status c)" using status_le_trans [OF A(2) B(2)] .
    show "es_params c\<lparr>ep_token := None\<rparr> = es_params a\<lparr>ep_token := None\<rparr>" using A(7) B(7) by simp
  qed (use bids dom mint A(4,8) B(4,8) in blast)+
qed

lemma submit_le:
  assumes "esc_inv s" "submit_bid auths bidder price cnt key s = Inr (i, s')"
  shows "esc_le s s'"
proof -
  have "es_bids s (es_seq s + 1) = None" using esc_invD(1) [OF assms(1), of "es_seq s + 1"] by simp
  then show ?thesis
    using assms(2) by (auto simp: submit_bid_def err_simps require_open_def Let_def esc_le_def status_le_def)
qed

lemma cancel_le: "cancel_bid auths caller i s = Inr (x, s') \<Longrightarrow> esc_le s s'"
  by (auto simp: cancel_bid_def err_simps require_open_def Let_def esc_le_def status_le_def split: option.splits if_splits)

lemma admin_le:
  "close_offering auths s = Inr (x, s') \<Longrightarrow> esc_le s s'"
  "bind_token auths token s = Inr (x, s') \<Longrightarrow> esc_le s s'"
  by (auto simp: close_offering_def bind_token_def err_simps require_open_def esc_le_def status_le_def)

lemma abort_le:
  "cancel_offering auths s = Inr (x, s') \<Longrightarrow> esc_le s s'"
  by (cases "es_status s") (auto simp: cancel_offering_def err_simps esc_le_def status_le_def)

lemma settle_le:
  assumes "esc_inv s" "close_and_settle auths mint P allocs s = Inr (x, s')"
  shows "esc_le s s' \<and> es_status s = Esc_closed \<and> es_status s' = Esc_settled"
proof -
  note S = close_and_settle_Inr [OF assms]
  have f: "es_params s' = es_params s" "es_idem s' = es_idem s"
    using close_and_settle_frame [OF assms(2)] by simp_all
  have "dom (es_bids s') = dom (es_bids s)" using S by (auto simp: deactivate_def dom_def)
  moreover have "\<exists>c. es_bids s' i = Some c \<and> bid_le b c" if "es_bids s i = Some b" for i b
    using S that by (auto simp: deactivate_def)
  ultimately show ?thesis using S f by (simp add: esc_le_def status_le_def)
qed

lemma esc_step_le: "esc_step s s' \<Longrightarrow> esc_inv s \<Longrightarrow> esc_le s s'"
proof (induction rule: esc_step.induct)
  case (step_settle auths mint price allocs s x s')
  then show ?case using settle_le by blast
next
  case (step_usdc s u)
  then show ?case by (simp add: esc_le_def status_le_def)
qed (blast intro: submit_le cancel_le admin_le abort_le)+

section \<open>Progress\<close>

lemma alloc_sum:
  assumes "distinct (map fst allocs)" "distinct xs" "fst ` set allocs \<subseteq> set xs"
  shows "sum_list (map (alloc_of (map_of (rev allocs))) xs) = sum_list (map snd allocs)"
proof -
  have m: "map_of (rev allocs) = map_of allocs"
    using assms(1) by (intro map_of_inject_set [THEN iffD2]) (simp_all add: rev_map [symmetric])
  have "alloc_of (map_of allocs) = (\<lambda>i. case map_of allocs i of None \<Rightarrow> 0 | Some v \<Rightarrow> v)"
    by (simp add: alloc_of_def fun_eq_iff)
  then show ?thesis using sum_map_of [OF assms] by (simp add: m)
qed

lemma sum_held_split:
  assumes "esc_inv s" "valid_allocs (es_bids s) P allocs"
  shows "held s = sum_list (map (refund_of (es_bids s) P (map_of (rev allocs))) [1..<es_seq s + 1])
    + P * sum_list (map snd allocs)"
proof -
  let ?xs = "[1..<es_seq s + 1]" and ?al = "map_of (rev allocs)"
  have in_xs: "fst ` set allocs \<subseteq> set ?xs"
  proof
    fix i assume "i \<in> fst ` set allocs"
    then have "es_bids s i \<noteq> None" using assms(2) by (auto simp: valid_allocs_def)
    then show "i \<in> set ?xs" using esc_invD(1) [OF assms(1), of i] by (simp del: upt_Suc)
  qed
  have p: "held_of (es_bids s) i = refund_of (es_bids s) P ?al i + P * alloc_of ?al i" for i
  proof -
    have "alloc_of ?al i = 0 \<or> (\<exists>b. es_bids s i = Some b \<and> eb_active b)"
      using valid_alloc_of [OF assms(2), of i] by blast
    then show ?thesis by (cases "es_bids s i") (auto simp: held_of_def refund_of_def)
  qed
  have "held s = sum_list (map (\<lambda>i. refund_of (es_bids s) P ?al i + P * alloc_of ?al i) ?xs)"
    unfolding held_def by (rule arg_cong [where f = sum_list], rule map_cong) (simp_all only: p)
  also have "\<dots> = sum_list (map (refund_of (es_bids s) P ?al) ?xs) + P * sum_list (map (alloc_of ?al) ?xs)"
    by (simp only: sum_list_addf sum_list_const_mult)
  also have "sum_list (map (alloc_of ?al) ?xs) = sum_list (map snd allocs)"
    by (rule alloc_sum) (use assms(2) in_xs in \<open>simp_all only: valid_allocs_def distinct_upt\<close>)
  finally show ?thesis .
qed

lemma sum_list_member_le: "i \<in> set xs \<Longrightarrow> (\<And>j. j \<in> set xs \<Longrightarrow> 0 \<le> (f j :: int)) \<Longrightarrow> f i \<le> sum_list (map f xs)"
  by (rule member_le_sum_list) auto

text \<open>The refund loop, forwards: it does not trap while the balance covers the refunds.\<close>

lemma refund_loop_ok:
  assumes "distinct xs" "\<forall>i \<in> set xs. \<exists>b. es_bids s i = Some b \<and> eb_bidder b \<noteq> es_self s \<and> 0 \<le> eb_escrow b
      \<and> 0 \<le> P * alloc_of alloc i \<and> P * alloc_of alloc i \<le> I128_MAX \<and> (eb_active b \<longrightarrow> P * alloc_of alloc i \<le> eb_escrow b)"
    "sum_list (map (refund_of (es_bids s) P alloc) xs) \<le> es_usdc s (es_self s)"
    "0 \<le> sr" "0 \<le> se" "sr + sum_list (map (refund_of (es_bids s) P alloc) xs) \<le> I128_MAX"
    "se + sum_list (map (held_of (es_bids s)) xs) \<le> I128_MAX"
  shows "\<exists>s' sr' se'. foldE (refund_bid P alloc) xs (s, sr, se) = Inr (s', sr', se')
    \<and> es_usdc s' (es_self s) = es_usdc s (es_self s) - sum_list (map (refund_of (es_bids s) P alloc) xs)"
  using assms
proof (induction xs arbitrary: s sr se)
  case (Cons i xs)
  obtain b where b: "es_bids s i = Some b" "eb_bidder b \<noteq> es_self s" "0 \<le> eb_escrow b" "0 \<le> P * alloc_of alloc i"
      "P * alloc_of alloc i \<le> I128_MAX" "eb_active b \<longrightarrow> P * alloc_of alloc i \<le> eb_escrow b"
    using Cons.prems(2) by auto
  have ge: "0 \<le> refund_of (es_bids s) P alloc j" "0 \<le> held_of (es_bids s) j" if "j \<in> set xs" for j
    using Cons.prems(2) that by (auto simp: refund_of_def held_of_def)
  have tail: "0 \<le> sum_list (map (refund_of (es_bids s) P alloc) xs)" "0 \<le> sum_list (map (held_of (es_bids s)) xs)"
    by (rule sum_list_map_ge0, rule ge, assumption)+
  show ?case
  proof (cases "eb_active b")
    case False
    then have z: "refund_of (es_bids s) P alloc i = 0" "held_of (es_bids s) i = 0"
      using b(1) by (simp_all add: refund_of_def held_of_def)
    have "refund_bid P alloc i (s, sr, se) = Inr (s, sr, se)" using refund_bid_inactive b(1) False by blast
    then show ?thesis using Cons.IH [of s sr se] Cons.prems z by simp
  next
    case True
    let ?r = "eb_escrow b - P * alloc_of alloc i"
    have r: "refund_of (es_bids s) P alloc i = ?r" "held_of (es_bids s) i = eb_escrow b" "0 \<le> ?r"
      using b True by (simp_all add: refund_of_def held_of_def)
    define s1 where "s1 = after_refund s i b ?r"
    have bounds: "?r \<le> es_usdc s (es_self s)" "sr + ?r \<le> I128_MAX" "se + eb_escrow b \<le> I128_MAX" "0 \<le> I128_MAX"
      using Cons.prems(3,6,7) r tail b by (simp_all add: I128_MAX_def)
    have go: "refund_bid P alloc i (s, sr, se) = Inr (s1, sr + ?r, se + eb_escrow b)"
      unfolding refund_bid_active [OF b(1) True r(3)] Let_def s1_def
      using b bounds r(3) Cons.prems(4,5) by (simp add: I128_MAX_def)
    have same: "refund_of (es_bids s1) P alloc j = refund_of (es_bids s) P alloc j"
      "held_of (es_bids s1) j = held_of (es_bids s) j" if "j \<in> set xs" for j
      using that Cons.prems(1) by (auto simp: s1_def after_refund_def refund_of_def held_of_def split: option.splits)
    have maps: "map (refund_of (es_bids s1) P alloc) xs = map (refund_of (es_bids s) P alloc) xs"
      "map (held_of (es_bids s1)) xs = map (held_of (es_bids s)) xs" using same by auto
    have self: "es_self s1 = es_self s" "es_usdc s1 (es_self s) = es_usdc s (es_self s) - ?r"
      using b(2) by (auto simp: s1_def after_refund_def)
    have pre: "\<forall>j \<in> set xs. \<exists>c. es_bids s1 j = Some c \<and> eb_bidder c \<noteq> es_self s1 \<and> 0 \<le> eb_escrow c
      \<and> 0 \<le> P * alloc_of alloc j \<and> P * alloc_of alloc j \<le> I128_MAX \<and> (eb_active c \<longrightarrow> P * alloc_of alloc j \<le> eb_escrow c)"
      using Cons.prems(1,2) by (auto simp: s1_def after_refund_def)
    have IH: "\<exists>s' sr' se'. foldE (refund_bid P alloc) xs (s1, sr + ?r, se + eb_escrow b) = Inr (s', sr', se')
      \<and> es_usdc s' (es_self s1) = es_usdc s1 (es_self s1) - sum_list (map (refund_of (es_bids s1) P alloc) xs)"
      by (rule Cons.IH [OF _ pre]) (use Cons.prems r b in \<open>simp_all add: maps self add.assoc\<close>)
    then show ?thesis using go r(1) by (auto simp: maps self)
  qed
qed simp

lemma pay_if_ok:
  "0 \<le> n \<Longrightarrow> n \<le> es_usdc s (es_self s) \<Longrightarrow> dst \<noteq> es_self s
   \<Longrightarrow> \<exists>s'. pay_if dst n s = Inr s' \<and> es_self s' = es_self s \<and> es_usdc s' (es_self s) = es_usdc s (es_self s) - n"
  by (auto simp: pay_if_def err_simps)

lemma close_and_settle_ok:
  assumes inv: "esc_inv s" and st: "es_status s = Esc_closed" "ep_admin (es_params s) \<in> auths" "ep_token (es_params s) \<noteq> None"
    and p: "params_ok (es_params s)" "ep_treasury (es_params s) \<noteq> es_self s" "ep_payout (es_params s) \<noteq> es_self s"
    and v: "valid_allocs (es_bids s) P allocs" "0 \<le> P"
    and mint: "mint (recipients (es_params s) (es_bids s) allocs)"
    and sum: "sum_list (map snd allocs) + ep_artist_retention (es_params s) + ep_treasury_retention (es_params s)
        + ep_leftover (es_params s) = ep_supply (es_params s)"
    and bound: "held s * 300 \<le> I128_MAX"
  shows "\<exists>s'. close_and_settle auths mint P allocs s = Inr ((), s')"
proof -
  let ?xs = "[1..<es_seq s + 1]" and ?al = "map_of (rev allocs)"
  define A where "A = sum_list (map snd allocs)"
  define fee where "fee = (P * A * 300) sdiv 10000"
  define s0 where "s0 = s\<lparr>es_status := Esc_settled, es_total := 0, es_minted := recipients (es_params s) (es_bids s) allocs\<rparr>"
  have A0: "0 \<le> A" unfolding A_def by (rule sum_list_map_ge0) (use v(1) in \<open>auto simp: valid_allocs_def\<close>)
  have PA: "0 \<le> P * A" using A0 v(2) by simp
  have split: "held s = sum_list (map (refund_of (es_bids s) P ?al) ?xs) + P * A"
    unfolding A_def by (rule sum_held_split [OF inv v(1)])
  have ref0: "0 \<le> sum_list (map (refund_of (es_bids s) P ?al) ?xs)"
    by (rule sum_list_map_ge0) (rule valid_refund_ge0 [OF v(1) inv])
  have h: "0 \<le> held s" "held s \<le> I128_MAX" "P * A * 300 \<le> I128_MAX"
    using held_ge0 [OF inv] bound split ref0 PA by (simp_all add: I128_MAX_def)
  have esc: "0 \<le> eb_escrow b \<and> eb_escrow b \<le> I128_MAX" if "es_bids s i = Some b" for i b
    using esc_invD(2) [OF inv that] bid_ok_pos [OF esc_invD(2) [OF inv that]] by (simp add: bid_ok_def)
  have par: "0 \<le> ep_artist_retention (es_params s)" "0 \<le> ep_treasury_retention (es_params s)" "0 \<le> ep_leftover (es_params s)"
    "ep_supply (es_params s) \<le> I128_MAX" using p(1) by (simp_all add: params_ok_def)
  obtain al where chk: "foldE (check_allocation (es_bids s) P) allocs (Map.empty, 0, 0) = Inr (al, A, P * A)"
    using check_allocations_ok [where bids = "es_bids s" and al = Map.empty and sa = 0 and pr = 0, OF v] esc sum par h PA
    by (auto simp: A_def I128_MAX_def)
  have al: "al = ?al" using check_allocations_Inr [OF chk] by simp
  have pre: "\<forall>i \<in> set ?xs. \<exists>b. es_bids s0 i = Some b \<and> eb_bidder b \<noteq> es_self s0 \<and> 0 \<le> eb_escrow b
      \<and> 0 \<le> P * alloc_of al i \<and> P * alloc_of al i \<le> I128_MAX \<and> (eb_active b \<longrightarrow> P * alloc_of al i \<le> eb_escrow b)"
  proof
    fix i assume "i \<in> set ?xs"
    then obtain b where b: "es_bids s i = Some b" using esc_invD(1) [OF inv, of i] by (auto simp del: upt_Suc)
    have "0 \<le> P * alloc_of al i \<and> P * alloc_of al i \<le> eb_escrow b"
      using valid_alloc_of [OF v(1), of i] b esc [OF b] v(2) v(1) unfolding al
      by (fastforce simp: valid_allocs_def)
    then show "\<exists>b. es_bids s0 i = Some b \<and> eb_bidder b \<noteq> es_self s0 \<and> 0 \<le> eb_escrow b
      \<and> 0 \<le> P * alloc_of al i \<and> P * alloc_of al i \<le> I128_MAX \<and> (eb_active b \<longrightarrow> P * alloc_of al i \<le> eb_escrow b)"
      using b esc [OF b] esc_invD(2) [OF inv b] by (auto simp: s0_def bid_ok_def)
  qed
  have Z: "es_bids s0 = es_bids s" "es_self s0 = es_self s" "es_seq s0 = es_seq s" "es_usdc s0 = es_usdc s"
    "es_params s0 = es_params s" by (simp_all add: s0_def)
  have bal: "held s \<le> es_usdc s (es_self s)" by (rule esc_invD(4) [OF inv])
  obtain s1 sr se where loop: "foldE (refund_bid P al) [1..<es_seq s0 + 1] (s0, 0, 0) = Inr (s1, sr, se)"
    and self1: "es_usdc s1 (es_self s) = es_usdc s (es_self s) - sum_list (map (refund_of (es_bids s) P al) ?xs)"
    using refund_loop_ok [OF distinct_upt pre, of 0 0] split bal PA h ref0 unfolding Z al held_def [symmetric]
    by auto
  have ref: "\<forall>i \<in> set ?xs. 0 \<le> refund_of (es_bids s0) P al i"
    unfolding al using valid_refund_ge0 [OF v(1) inv] by (simp only: Z ball_triv) blast
  have nself: "\<forall>i b. es_bids s0 i = Some b \<longrightarrow> eb_bidder b \<noteq> es_self s0"
    unfolding Z using esc_invD(2) [OF inv] by (auto simp: bid_ok_def)
  note L = refund_loop [OF loop [unfolded Z(3)] distinct_upt ref nself]
  have sums: "se = held s" "sr = held s - P * A" and f1: "es_self s1 = es_self s"
    using L split unfolding Z al held_def [symmetric] same_frame_def by simp_all
  have fee: "0 \<le> fee" "0 \<le> P * A - fee" using fee_ge0 [OF PA] by (simp_all add: fee_def)
  obtain s2 where s2: "pay_if (ep_treasury (es_params s)) fee s1 = Inr s2" "es_self s2 = es_self s"
      "es_usdc s2 (es_self s) = es_usdc s1 (es_self s) - fee"
    using pay_if_ok [of fee s1 "ep_treasury (es_params s)"] fee p(2) f1 self1 split bal unfolding al by auto
  obtain s3 where s3: "pay_if (ep_payout (es_params s)) (P * A - fee) s2 = Inr s3"
      "es_usdc s3 (es_self s) = es_usdc s2 (es_self s) - (P * A - fee)"
    using pay_if_ok [of "P * A - fee" s2 "ep_payout (es_params s)"] fee p(3) s2 self1 split bal unfolding al by auto
  have delta: "es_usdc s (es_self s) - es_usdc s3 (es_self s) = held s"
    using s3(2) s2(3) self1 split unfolding al by simp
  have ge: "0 \<le> sr" "sr + P * A \<le> I128_MAX" "0 \<le> I128_MAX"
    using sums split ref0 h(2) by (simp_all add: I128_MAX_def del: upt_Suc)
  have fits: "i128 (P * A * 300) = Inr (P * A * 300)" "i128 (sr + fee) = Inr (sr + fee)"
    "i128 (sr + fee + (P * A - fee)) = Inr (sr + fee + (P * A - fee))"
    by (rule i128_ok; use ge h(3) PA fee in linarith)+
  have belt: "sr + fee + (P * A - fee) = se" using sums by simp
  have pay: "settle_payouts P al (P * A) s0 = Inr ((), s3)"
    unfolding settle_payouts_def loop using s2(1) s3(1) delta [folded sums(1)]
    by (simp add: fits(1,2) fits(3) [unfolded belt] belt Let_def fee_def [symmetric] Z guardE_def del: add_diff_eq diff_add_eq)
  have sup: "i128 (A + ep_artist_retention (es_params s)) = Inr (A + ep_artist_retention (es_params s))"
    "i128 (A + ep_artist_retention (es_params s) + ep_treasury_retention (es_params s))
      = Inr (A + ep_artist_retention (es_params s) + ep_treasury_retention (es_params s))"
    "i128 (ep_supply (es_params s)) = Inr (ep_supply (es_params s))"
    "i128 (ep_artist_retention (es_params s) + ep_leftover (es_params s))
      = Inr (ep_artist_retention (es_params s) + ep_leftover (es_params s))"
    using par A0 sum unfolding A_def [symmetric] by (auto simp: I128_MAX_def intro!: i128_ok)
  show ?thesis
    unfolding close_and_settle_def Let_def
    using st mint pay by (simp add: require_auth_def guardE_def chk sup sum [folded A_def] s0_def)
qed

section \<open>Properties\<close>

lemma sum_recipients:
  "(\<And>e. e \<in> set allocs \<Longrightarrow> 0 \<le> snd e) \<Longrightarrow> params_ok p \<Longrightarrow>
   sum_list (map snd (recipients p bids allocs))
     = sum_list (map snd allocs) + ep_artist_retention p + ep_leftover p + ep_treasury_retention p"
proof -
  assume a: "\<And>e. e \<in> set allocs \<Longrightarrow> 0 \<le> snd e" and p: "params_ok p"
  have "sum_list (map snd (map (\<lambda>(i, a). (eb_bidder (the (bids i)), a)) (filter (\<lambda>(i, a). a > 0) xs))) = sum_list (map snd xs)"
    if "\<And>e. e \<in> set xs \<Longrightarrow> 0 \<le> snd e" for xs :: "(nat \<times> int) list"
    using that by (induction xs) force+
  from this [OF a] p show ?thesis by (auto simp: recipients_def params_ok_def)
qed

lemma esc_reach_params: "esc_reach s \<Longrightarrow> params_ok (es_params s)"
proof (induction rule: esc_reach.induct)
  case (genesis self balances usdc total_supply artist ar treasury tr lo payout admin s)
  then show ?case by (auto simp: esc_constructor_def err_simps params_ok_def split: if_splits)
next
  case (step s s')
  have "es_params s'\<lparr>ep_token := None\<rparr> = es_params s\<lparr>ep_token := None\<rparr>"
    using esc_leD(7) [OF esc_step_le [OF step.hyps(2) esc_reach_inv [OF step.hyps(1)]]] .
  then show ?case using step.IH by (cases "es_params s"; cases "es_params s'") (simp add: params_ok_def)
qed

lemma escrow_book_final:
  assumes "esc_reach s" "es_status s = Esc_settled \<or> es_status s = Esc_cancelled" "es_bids s i = Some b"
  shows "\<not> eb_active b"
proof
  assume act: "eb_active b"
  note inv = esc_reach_inv [OF assms(1)] and D = esc_invD [OF esc_reach_inv [OF assms(1)]]
  have "i \<in> set [1..<es_seq s + 1]" using D(1) [of i] assms(3) by (simp del: upt_Suc)
  then have "held_of (es_bids s) i \<le> held s"
    unfolding held_def by (rule sum_list_member_le) (rule held_of_ge0 [OF inv])
  then show False using D(5) bid_ok_pos [OF D(2) [OF assms(3)]] assms(2,3) act by (auto simp: held_of_def)
qed

text \<open>
  C16. Accounting of the escrow contract. At every reachable ledger state, whatever calls were made
  and whoever else moved USDC, the stored total is the sum of the escrows of the active bids, that
  sum is non-negative and covered by the contract's USDC balance, every bid id up to the counter
  exists and holds \<open>price * count\<close>, and a settled or cancelled offering has no active bid left: no
  bidder's USDC is stranded.
\<close>

theorem escrow_contract_accounting:
  assumes "esc_reach s"
  shows "es_total s = sum_list (map (held_of (es_bids s)) [1..<es_seq s + 1])
     \<and> 0 \<le> es_total s \<and> es_total s \<le> es_usdc s (es_self s)
     \<and> (\<forall>i. es_bids s i \<noteq> None \<longleftrightarrow> 1 \<le> i \<and> i \<le> es_seq s)
     \<and> (\<forall>i b. es_bids s i = Some b \<longrightarrow> eb_escrow b = eb_price b * eb_count b \<and> 0 < eb_escrow b)
     \<and> (es_status s \<in> {Esc_settled, Esc_cancelled} \<longrightarrow> (\<forall>i b. es_bids s i = Some b \<longrightarrow> \<not> eb_active b))"
proof -
  note inv = esc_reach_inv [OF assms] and D = esc_invD [OF esc_reach_inv [OF assms]]
  have "\<not> eb_active b" if "es_status s \<in> {Esc_settled, Esc_cancelled}" "es_bids s i = Some b" for i b
    using escrow_book_final [OF assms] that by blast
  moreover have "eb_escrow b = eb_price b * eb_count b \<and> 0 < eb_escrow b" if "es_bids s i = Some b" for i b
    using D(2) [OF that] bid_ok_pos [OF D(2) [OF that]] by (simp add: bid_ok_def)
  moreover have "0 \<le> es_total s" "es_total s \<le> es_usdc s (es_self s)" using D(3,4) held_ge0 [OF inv] by simp_all
  ultimately show ?thesis using D(1,3) unfolding held_def [symmetric] by blast
qed

text \<open>
  C17. Lifecycle of the escrow contract. From a reachable state no sequence of calls reopens a
  closed offering or leaves a settled or cancelled one, removes a bid, changes its bidder, price,
  count or escrow, reactivates it, forgets an idempotency key, changes the economic parameters or
  rebinds the token; after close no bid is added, after settlement the minted list is final.
\<close>

theorem escrow_contract_lifecycle:
  assumes "esc_reach s" "esc_step\<^sup>*\<^sup>* s t"
  shows "esc_reach t \<and> esc_le s t"
  using assms(2)
proof (induction rule: rtranclp_induct)
  case base
  then show ?case using assms(1) by simp
next
  case (step y z)
  then have y: "esc_reach y" "esc_le s y" by blast+
  have "esc_le y z" by (rule esc_step_le [OF step.hyps(2) esc_reach_inv [OF y(1)]])
  then show ?case using y step.hyps(2) esc_reach.step esc_le_trans by blast
qed

text \<open>
  C18. An accepted settlement is exact. The allocations pass the fairness checks, the mint list adds
  up to the supply, the contract pays out exactly the escrow it held, and every other address gets
  its refunds, the treasury the 3% fee and the payout address the rest; every bid is inactive.
\<close>

theorem settlement_pays_exactly:
  assumes "esc_reach s" "close_and_settle auths mint P allocs s = Inr (x, s')"
  shows "let A = sum_list (map snd allocs); fee = (P * A * 300) sdiv 10000; p = es_params s in
     es_status s = Esc_closed \<and> es_status s' = Esc_settled \<and> ep_admin p \<in> auths
     \<and> valid_allocs (es_bids s) P allocs
     \<and> sum_list (map snd (es_minted s')) = ep_supply p
     \<and> es_usdc s' (es_self s) = es_usdc s (es_self s) - es_total s
     \<and> (\<forall>y. y \<noteq> es_self s \<longrightarrow> es_usdc s' y = es_usdc s y
          + sum_list (map (refund_to (es_bids s) P (map_of (rev allocs)) y) [1..<es_seq s + 1])
          + (if y = ep_treasury p then fee else 0) + (if y = ep_payout p then P * A - fee else 0))
     \<and> (\<forall>i b. es_bids s' i = Some b \<longrightarrow> \<not> eb_active b)"
proof -
  note inv = esc_reach_inv [OF assms(1)]
  note S = close_and_settle_Inr [OF inv assms(2)]
  have auth: "ep_admin (es_params s) \<in> auths"
    using assms(2) by (auto simp: close_and_settle_def require_auth_def err_simps Let_def)
  have pos: "0 \<le> snd e" if "e \<in> set allocs" for e using S that by (auto simp: valid_allocs_def)
  have mint: "sum_list (map snd (es_minted s')) = ep_supply (es_params s)"
    using S sum_recipients [OF pos esc_reach_params [OF assms(1)], of allocs "es_bids s"] by simp
  have "esc_reach s'" using assms esc_reach.step step_settle by blast
  then have inact: "\<forall>i b. es_bids s' i = Some b \<longrightarrow> \<not> eb_active b"
    using escrow_book_final S by blast
  show ?thesis unfolding Let_def esc_invD(3) [OF inv] using S auth mint inact by blast
qed

section \<open>A concrete offering\<close>

text \<open>
  Supply 10, retentions 2 and 1, leftover 1, so a float of 6; Alice bids 4 at 10, Bob 4 at 8 and
  Carol 3 at 5, who cancels; the uniform price is 8 and Bob gets 2.
\<close>

definition run_op :: "(escrow \<Rightarrow> contract_error + 'a \<times> escrow) \<Rightarrow> escrow \<Rightarrow> escrow" where
  "run_op f s = (case f s of Inl _ \<Rightarrow> s | Inr (x, s') \<Rightarrow> s')"

definition demo_params :: "ident option \<Rightarrow> esc_params" where
  "demo_params tok = \<lparr>ep_token = tok, ep_usdc = ''usdc'', ep_supply = 10, ep_artist = ''artist'', ep_artist_retention = 2,
     ep_treasury = ''treasury'', ep_treasury_retention = 1, ep_leftover = 1, ep_payout = ''payout'', ep_admin = ''admin''\<rparr>"

definition demo_new :: escrow where
  "demo_new = \<lparr>es_self = ''escrow'', es_params = demo_params None, es_status = Esc_open, es_bids = Map.empty, es_seq = 0,
     es_idem = Map.empty, es_total = 0, es_usdc = (\<lambda>_. 100), es_minted = []\<rparr>"

definition demo_bid :: "ident \<Rightarrow> int \<Rightarrow> int \<Rightarrow> bool \<Rightarrow> esc_bid" where
  "demo_bid who p n act = \<lparr>eb_bidder = who, eb_price = p, eb_count = n, eb_escrow = p * n, eb_active = act\<rparr>"

definition demo_book :: escrow where
  "demo_book = run_op (submit_bid {''carol''} ''carol'' 5 3 ''k3'') (run_op (submit_bid {''bob''} ''bob'' 8 4 ''k2'')
     (run_op (submit_bid {''alice''} ''alice'' 10 4 ''k1'') demo_new))"

definition demo_closed :: escrow where
  "demo_closed = run_op (close_offering {''admin''}) (run_op (bind_token {''admin''} ''token'')
     (run_op (cancel_bid {''carol''} ''carol'' 3) demo_book))"

definition demo_settled :: escrow where
  "demo_settled = run_op (close_and_settle {''admin''} (\<lambda>_. True) 8 [(1, 4), (2, 2)]) demo_closed"

lemma run_op_reach: "esc_reach s \<Longrightarrow> (\<And>x s'. f s = Inr (x, s') \<Longrightarrow> esc_step s s') \<Longrightarrow> esc_reach (run_op f s)"
  by (auto simp: run_op_def intro: esc_reach.step split: sum.splits)

lemma demo_new_reach: "esc_reach demo_new"
  by (rule genesis [of "''escrow''" "\<lambda>_. 100" "''usdc''" 10 "''artist''" 2 "''treasury''" 1 1 "''payout''" "''admin''"])
    (simp_all add: esc_constructor_def i128_def guardE_def I128_MAX_def demo_new_def demo_params_def)

lemma run_submit_self [simp]: "es_self (run_op (submit_bid auths bidder price cnt key) s) = es_self s"
  by (auto simp: run_op_def submit_bid_def err_simps Let_def split: sum.splits)

lemma demo_book_reach: "esc_reach demo_book"
proof -
  have "''alice'' \<noteq> es_self demo_new" "''bob'' \<noteq> es_self demo_new" "''carol'' \<noteq> es_self demo_new"
    by (simp_all add: demo_new_def)
  then show ?thesis unfolding demo_book_def
    by (intro run_op_reach demo_new_reach step_bid) (assumption | simp)+
qed

lemma demo_closed_reach: "esc_reach demo_closed"
  unfolding demo_closed_def
  by (intro run_op_reach demo_book_reach) (rule step_cancel step_close step_bind, assumption)+

lemmas esc_eval = submit_bid_def cancel_bid_def close_offering_def bind_token_def require_auth_def require_open_def guardE_def
  i128_def I128_MAX_def U32_MAX_def usdc_transfer_def run_op_def

definition demo_usdc :: "int \<Rightarrow> int \<Rightarrow> int \<Rightarrow> int \<Rightarrow> ident \<Rightarrow> int" where
  "demo_usdc a b c e = (\<lambda>x. if x = ''alice'' then a else if x = ''bob'' then b else if x = ''carol'' then c
     else if x = ''escrow'' then e else 100)"

lemma demo_usdc_simps [simp]:
  "demo_usdc a b c e ''alice'' = a" "demo_usdc a b c e ''bob'' = b" "demo_usdc a b c e ''carol'' = c"
  "demo_usdc a b c e ''escrow'' = e"
  "(demo_usdc a b c e)(''alice'' := x) = demo_usdc x b c e" "(demo_usdc a b c e)(''bob'' := x) = demo_usdc a x c e"
  "(demo_usdc a b c e)(''carol'' := x) = demo_usdc a b x e" "(demo_usdc a b c e)(''escrow'' := x) = demo_usdc a b c x"
  by (simp_all add: demo_usdc_def fun_eq_iff)

definition demo_at :: "ident option \<Rightarrow> esc_status \<Rightarrow> (nat \<rightharpoonup> esc_bid) \<Rightarrow> nat \<Rightarrow> (string \<rightharpoonup> nat) \<Rightarrow> int \<Rightarrow> (ident \<Rightarrow> int) \<Rightarrow> escrow" where
  "demo_at tok st bids n idem tot u = \<lparr>es_self = ''escrow'', es_params = demo_params tok, es_status = st, es_bids = bids,
     es_seq = n, es_idem = idem, es_total = tot, es_usdc = u, es_minted = []\<rparr>"

lemma demo_new_at: "demo_new = demo_at None Esc_open Map.empty 0 Map.empty 0 (demo_usdc 100 100 100 100)"
  by (simp add: demo_new_def demo_at_def demo_usdc_def fun_eq_iff)

lemma demo_book_eval: "demo_book = demo_at None Esc_open
    [1 \<mapsto> demo_bid ''alice'' 10 4 True, 2 \<mapsto> demo_bid ''bob'' 8 4 True, 3 \<mapsto> demo_bid ''carol'' 5 3 True] 3
    [''k1'' \<mapsto> 1, ''k2'' \<mapsto> 2, ''k3'' \<mapsto> 3] 87 (demo_usdc 60 68 85 187)"
proof -
  have a: "run_op (submit_bid {''alice''} ''alice'' 10 4 ''k1'') demo_new
    = demo_at None Esc_open [1 \<mapsto> demo_bid ''alice'' 10 4 True] 1 [''k1'' \<mapsto> 1] 40 (demo_usdc 60 100 100 140)"
    unfolding demo_new_at by (simp add: esc_eval demo_at_def demo_bid_def)
  have b: "run_op (submit_bid {''bob''} ''bob'' 8 4 ''k2'')
      (demo_at None Esc_open [1 \<mapsto> demo_bid ''alice'' 10 4 True] 1 [''k1'' \<mapsto> 1] 40 (demo_usdc 60 100 100 140))
    = demo_at None Esc_open [1 \<mapsto> demo_bid ''alice'' 10 4 True, 2 \<mapsto> demo_bid ''bob'' 8 4 True] 2
        [''k1'' \<mapsto> 1, ''k2'' \<mapsto> 2] 72 (demo_usdc 60 68 100 172)"
    by (simp add: esc_eval demo_at_def demo_bid_def numeral_2_eq_2)
  show ?thesis unfolding demo_book_def a b by (simp add: esc_eval demo_at_def demo_bid_def)
qed

lemma demo_closed_eval: "demo_closed = demo_at (Some ''token'') Esc_closed
    [1 \<mapsto> demo_bid ''alice'' 10 4 True, 2 \<mapsto> demo_bid ''bob'' 8 4 True, 3 \<mapsto> demo_bid ''carol'' 5 3 False] 3
    [''k1'' \<mapsto> 1, ''k2'' \<mapsto> 2, ''k3'' \<mapsto> 3] 72 (demo_usdc 60 68 100 172)"
proof -
  have c: "run_op (cancel_bid {''carol''} ''carol'' 3) demo_book = demo_at None Esc_open
    [1 \<mapsto> demo_bid ''alice'' 10 4 True, 2 \<mapsto> demo_bid ''bob'' 8 4 True, 3 \<mapsto> demo_bid ''carol'' 5 3 False] 3
    [''k1'' \<mapsto> 1, ''k2'' \<mapsto> 2, ''k3'' \<mapsto> 3] 72 (demo_usdc 60 68 100 172)"
    unfolding demo_book_eval by (simp add: esc_eval demo_at_def demo_bid_def)
  show ?thesis unfolding demo_closed_def c by (simp add: esc_eval demo_at_def demo_params_def)
qed

lemma demo_accepted: "\<exists>s'. close_and_settle {''admin''} (\<lambda>_. True) 8 [(1, 4), (2, 2)] demo_closed = Inr ((), s')"
proof (rule close_and_settle_ok)
  have h: "held demo_closed = 72"
    using esc_invD(3) [OF esc_reach_inv [OF demo_closed_reach]] by (simp add: demo_closed_eval demo_at_def)
  then show "held demo_closed * 300 \<le> I128_MAX" by (simp add: I128_MAX_def)
  show "valid_allocs (es_bids demo_closed) 8 [(1, 4), (2, 2)]"
    by (simp add: demo_closed_eval demo_at_def valid_allocs_def demo_bid_def)
  show "esc_inv demo_closed" by (rule esc_reach_inv [OF demo_closed_reach])
qed (simp_all add: demo_closed_eval demo_at_def demo_params_def params_ok_def I128_MAX_def)

theorem escrow_contract_accounting_witness:
  "es_total demo_closed = 72 \<and> es_total demo_closed \<le> es_usdc demo_closed ''escrow''
   \<and> (\<exists>b. es_bids demo_closed 3 = Some b \<and> \<not> eb_active b)
   \<and> es_total demo_closed = sum_list (map (held_of (es_bids demo_closed)) [1..<es_seq demo_closed + 1])"
proof -
  have "es_total demo_closed = sum_list (map (held_of (es_bids demo_closed)) [1..<es_seq demo_closed + 1])"
    using escrow_contract_accounting [OF demo_closed_reach] by blast
  then show ?thesis by (simp add: demo_closed_eval demo_at_def demo_bid_def del: upt_Suc)
qed

theorem escrow_contract_lifecycle_witness:
  "\<exists>t. close_and_settle {''admin''} (\<lambda>_. True) 8 [(1, 4), (2, 2)] demo_closed = Inr ((), t)
     \<and> es_status demo_closed = Esc_closed \<and> es_status t = Esc_settled \<and> esc_reach t \<and> esc_le demo_closed t"
proof -
  obtain t where t: "close_and_settle {''admin''} (\<lambda>_. True) 8 [(1, 4), (2, 2)] demo_closed = Inr ((), t)"
    using demo_accepted by blast
  have "esc_step\<^sup>*\<^sup>* demo_closed t" using step_settle [OF t] by blast
  from escrow_contract_lifecycle [OF demo_closed_reach this] t
    close_and_settle_Inr [OF esc_reach_inv [OF demo_closed_reach] t]
  show ?thesis by blast
qed

lemma demo_refunds:
  "sum_list (map (refund_to (es_bids demo_closed) 8 (map_of (rev [(1, 4), (2, 2)])) y) [1..<es_seq demo_closed + 1])
    = (if y = ''alice'' then 8 else 0) + (if y = ''bob'' then 16 else 0)"
  by (simp add: demo_closed_eval demo_at_def demo_bid_def refund_to_def refund_of_def alloc_of_def upt_rec numeral_3_eq_3 numeral_2_eq_2)

theorem settlement_pays_exactly_witness:
  "\<exists>t. close_and_settle {''admin''} (\<lambda>_. True) 8 [(1, 4), (2, 2)] demo_closed = Inr ((), t)
     \<and> sum_list (map snd (es_minted t)) = 10 \<and> es_usdc t ''alice'' = 68 \<and> es_usdc t ''bob'' = 84
     \<and> es_usdc t ''treasury'' = 101 \<and> es_usdc t ''payout'' = 147 \<and> es_usdc t ''escrow'' = 100"
proof -
  obtain t where t: "close_and_settle {''admin''} (\<lambda>_. True) 8 [(1, 4), (2, 2)] demo_closed = Inr ((), t)"
    using demo_accepted by blast
  note S = settlement_pays_exactly [OF demo_closed_reach t, unfolded Let_def demo_refunds]
  have v: "es_self demo_closed = ''escrow''" "ep_supply (es_params demo_closed) = 10" "es_total demo_closed = 72"
    "es_usdc demo_closed = demo_usdc 60 68 100 172" "ep_treasury (es_params demo_closed) = ''treasury''"
    "ep_payout (es_params demo_closed) = ''payout''"
    by (simp_all add: demo_closed_eval demo_at_def demo_params_def)
  have fee: "(8 * sum_list (map snd [(1 :: nat, 4), (2, 2)]) * 300) sdiv (10000 :: int) = 1"
    by (simp add: signed_divide_int_def)
  have y: "es_usdc t y = demo_usdc 60 68 100 172 y + ((if y = ''alice'' then 8 else 0) + (if y = ''bob'' then 16 else 0))
      + (if y = ''treasury'' then 1 else 0) + (if y = ''payout'' then 47 else 0)" if "y \<noteq> ''escrow''" for y
    using S that unfolding v fee by simp
  have "sum_list (map snd (es_minted t)) = 10" "es_usdc t ''escrow'' = 100"
    using S unfolding v by simp_all
  with t y [of "''alice''"] y [of "''bob''"] y [of "''treasury''"] y [of "''payout''"]
  show ?thesis by (simp add: demo_usdc_def)
qed

end
