(* ===== verification/Settle_Chain.thy ===== *)
theory Settle_Chain
  imports Settle_Props Escrow_Contract_Main
begin

text \<open>
  One transaction leg of the settle worker against the ledger, under what the network documents of a
  transaction: success means applied, a terminal error that nothing was applied. And the persisting
  transaction never breaks on the belt's own checks while the book is frozen.
\<close>

section \<open>A leg and the ledger\<close>

text \<open>
  What the network documents of one transaction: it is applied only if it was signed and sent and
  the send was not refused, it is reported successful only if applied and failed only if not; and
  a transaction that was applied successfully is one the contract accepts at that ledger.
\<close>

definition sent :: "tx_rpc \<Rightarrow> bool" where
  "sent t \<longleftrightarrow> tr_lock t \<and> tr_account t = Rpc () \<and> (case tr_sim t of Rpc (SimOk _ _) \<Rightarrow> True | _ \<Rightarrow> False)
     \<and> (case tr_send t of Rpc Send_try_again_later \<Rightarrow> False | Rpc (Send_error _) \<Rightarrow> False | _ \<Rightarrow> True)"

definition honest_tx :: "adapter_config \<Rightarrow> bool \<Rightarrow> tx_rpc \<Rightarrow> bool" where
  "honest_tx cfg accepted t \<longleftrightarrow> (tr_lands t \<longrightarrow> accepted \<and> sent t
       \<and> (case tr_sim t of Rpc (SimOk auth fee) \<Rightarrow> list_all (\<lambda>b. b) auth \<and> fee \<le> ac_max_fee cfg | _ \<Rightarrow> False))
     \<and> (\<forall>n. case tr_get t n of Rpc (Tx_success _ _) \<Rightarrow> tr_lands t | Rpc Tx_failed \<Rightarrow> \<not> tr_lands t | _ \<Rightarrow> True)"

fun view_of :: "esc_status \<Rightarrow> escrow_view" where
  "view_of Esc_open = V_open"
| "view_of Esc_closed = V_closed"
| "view_of Esc_settled = V_settled"
| "view_of Esc_cancelled = V_cancelled"

definition honest_status :: "escrow \<Rightarrow> settle_throw + escrow_view \<Rightarrow> bool" where
  "honest_status L r \<longleftrightarrow> (case r of Inl e \<Rightarrow> \<not> isTerminalSettleError e | Inr v \<Rightarrow> v = view_of (es_status L))"

lemma readStatus_error: "readStatus acc sim = Inl e \<Longrightarrow> \<not> isTerminalSettleError e"
  by (cases acc; cases sim) (auto simp: readStatus_def retryable_def split: status_sim.splits)

text \<open>A poll's answer.\<close>

lemma escrow_poll_result:
  assumes "escrow_poll t deadline final n = Some r"
  shows "r \<in> {Inl SE_other, Inl (SE_escrow Throttled)} \<or> (\<exists>m s. tr_get t m = Rpc s \<and> s \<noteq> Tx_not_found \<and> r = final s)"
proof (rule escrow_poll.raw_induct [where P = "\<lambda>t deadline final n r. r \<in> {Inl SE_other, Inl (SE_escrow Throttled)}
      \<or> (\<exists>m s. tr_get t m = Rpc s \<and> s \<noteq> Tx_not_found \<and> r = final s)", OF _ assms])
qed (auto split: rpc.splits if_splits)

lemma sendAndPoll_result:
  assumes "sendAndPoll cfg t = Some r" "honest_tx acfg accepted t"
  shows "case r of Inl e \<Rightarrow> \<not> isTerminalSettleError e | Inr _ \<Rightarrow> tr_lands t"
proof (cases "bindE (rpcE (tr_send t)) settle_send")
  case (Inl e)
  then have "\<not> isTerminalSettleError e"
    by (auto simp: bindE_Inl retryable_def elim!: rpcE.elims settle_send.elims split: if_splits)
  with Inl assms(1) show ?thesis by (auto simp: sendAndPoll_def)
next
  case (Inr h)
  with assms(1) obtain q where q: "pollForLedger cfg t = Some q" "r = bindE q (\<lambda>ledger. Inr (h, ledger))"
    by (auto simp: sendAndPoll_def)
  from escrow_poll_result [OF q(1) [unfolded pollForLedger_def]] consider
    (lost) "q \<in> {Inl SE_other, Inl (SE_escrow Throttled)}"
    | (final) m s where "tr_get t m = Rpc s" "s \<noteq> Tx_not_found" "q = ledger_final s" by blast
  then show ?thesis
  proof cases
    case lost
    then show ?thesis by (auto simp: q(2) retryable_def)
  next
    case final
    have "case tr_get t m of Rpc (Tx_success _ _) \<Rightarrow> tr_lands t | Rpc Tx_failed \<Rightarrow> \<not> tr_lands t | _ \<Rightarrow> True"
      using assms(2) by (simp add: honest_tx_def)
    with final show ?thesis by (cases s) (auto simp: q(2) ledger_final_def retryable_def)
  qed
qed

text \<open>The two legs: success means applied, a terminal error that nothing was applied.\<close>

lemma build_terminal:
  assumes "buildSimulateAssemble cfg onErr t = Inl e" "honest_tx cfg accepted t"
  shows "\<not> tr_lands t"
proof
  assume "tr_lands t"
  with assms(2) obtain auth fee where "tr_account t = Rpc ()" "tr_sim t = Rpc (SimOk auth fee)" "list_all (\<lambda>b. b) auth"
    "fee \<le> ac_max_fee cfg" by (auto simp: honest_tx_def sent_def split: rpc.splits sim_answer.splits)
  with assms(1) show False by (simp add: buildSimulateAssemble_def guardE_def)
qed

lemma closeOffering_result:
  assumes "closeOffering cfg t = Some r" "honest_tx cfg accepted t"
  shows "case r of Inl e \<Rightarrow> isTerminalSettleError e \<longrightarrow> \<not> tr_lands t | Inr _ \<Rightarrow> tr_lands t"
proof (cases "tr_lock t")
  case False
  with assms(1) show ?thesis by (auto simp: closeOffering_def)
next
  case True
  show ?thesis
  proof (cases "buildSimulateAssemble cfg close_sim_error t")
    case (Inl e)
    with assms(1) True build_terminal [OF Inl assms(2)] show ?thesis by (auto simp: closeOffering_def)
  next
    case (Inr u)
    with assms(1) True obtain q where q: "sendAndPoll cfg t = Some q" "r = bindE q (\<lambda>(h, ledger). Inr h)"
      by (auto simp: closeOffering_def)
    from sendAndPoll_result [OF q(1) assms(2)] show ?thesis by (cases q) (auto simp: q(2))
  qed
qed

lemma closeAndSettle_result:
  assumes "closeAndSettle cfg st t al = Some r" "honest_tx cfg accepted t" "honest_status L st"
    and enc: "accepted \<Longrightarrow> isOk (encodeAllocations al)"
  shows "case r of Inl e \<Rightarrow> isTerminalSettleError e \<longrightarrow> \<not> tr_lands t \<and> es_status L \<noteq> Esc_settled
    | Inr AlreadySettled \<Rightarrow> es_status L = Esc_settled
    | Inr (SettledTx h l) \<Rightarrow> tr_lands t \<and> es_status L \<noteq> Esc_settled"
proof (cases "tr_lock t")
  case False
  with assms(1) show ?thesis by (auto simp: closeAndSettle_def)
next
  case True
  show ?thesis
  proof (cases st)
    case (Inl e)
    with assms True show ?thesis by (auto simp: closeAndSettle_def honest_status_def)
  next
    case (Inr v)
    then have v: "v = view_of (es_status L)" using assms(3) by (simp add: honest_status_def)
    show ?thesis
    proof (cases "v = V_settled")
      case True
      then have "es_status L = Esc_settled" using v by (cases "es_status L") simp_all
      with True Inr assms(1) \<open>tr_lock t\<close> show ?thesis by (auto simp: closeAndSettle_def)
    next
      case no: False
      then have ns: "es_status L \<noteq> Esc_settled" using v by auto
      show ?thesis
      proof (cases "bindE (encodeAllocations al) (\<lambda>_. buildSimulateAssemble cfg
          (\<lambda>err. SettleContractError (parseContractErrorCode err)) t)")
        case (Inl e)
        then have r: "r = Inl e" using assms(1) True Inr no by (simp add: closeAndSettle_def)
        have "\<not> tr_lands t"
        proof
          assume l: "tr_lands t"
          then have "accepted" using assms(2) by (simp add: honest_tx_def)
          with enc Inl have "buildSimulateAssemble cfg (\<lambda>err. SettleContractError (parseContractErrorCode err)) t = Inl e"
            by (cases "encodeAllocations al") (auto simp: isOk_def)
          from build_terminal [OF this assms(2)] l show False by simp
        qed
        with ns show ?thesis by (simp add: r)
      next
        case ok: (Inr u)
        with assms(1) True Inr no obtain q where q: "sendAndPoll cfg t = Some q"
          "r = bindE q (\<lambda>(h, ledger). Inr (SettledTx h ledger))"
          by (auto simp: closeAndSettle_def)
        from sendAndPoll_result [OF q(1) assms(2)] ns show ?thesis by (cases q) (auto simp: q(2))
      qed
    qed
  qed
qed

section \<open>The persisting transaction does not break on a frozen book\<close>

lemma win_bids_ok:
  assumes "distinct (map cw_id ws)" "\<forall>w \<in> set ws. \<exists>b \<in> set (db_bids d). bd_id b = cw_id w \<and> bd_status b = B_escrowed"
  shows "\<exists>d'. foldE (win_bid now) ws d = Inr d'"
  using assms
proof (induction ws arbitrary: d)
  case (Cons w ws)
  obtain b where b: "b \<in> set (db_bids d)" "bd_id b = cw_id w" "bd_status b = B_escrowed" using Cons.prems(2) by auto
  have "snd (casWon now (cw_id w) (cw_allocated w) (cw_refund w) (db_bids d))"
    using b by (auto simp: casWon_def snd_cas_rows)
  then obtain d1 where d1: "win_bid now w d = Inr d1"
    by (cases "casWon now (cw_id w) (cw_allocated w) (cw_refund w) (db_bids d)") (simp add: win_bid_def on_bids_def)
  have "\<exists>c \<in> set (db_bids d1). bd_id c = cw_id v \<and> bd_status c = B_escrowed" if "v \<in> set ws" for v
  proof -
    obtain c where c: "c \<in> set (db_bids d)" "bd_id c = cw_id v" "bd_status c = B_escrowed" using Cons.prems(2) \<open>v \<in> set ws\<close> by auto
    have "cw_id w \<noteq> bd_id c" using Cons.prems(1) that c(2) by auto
    then have "won_row now [w] c = c" by (simp add: won_row_skip won_row_Nil)
    then have "c \<in> set (db_bids d1)" using win_bid_Inr [OF d1] c(1) by (metis image_eqI list.set_map)
    with c show ?thesis by blast
  qed
  then obtain d' where "foldE (win_bid now) ws d1 = Inr d'" using Cons.IH [of d1] Cons.prems(1) by auto
  with d1 show ?case by simp
qed simp

lemma length_filter_ids:
  assumes "distinct (map f xs)" "distinct (map g ws)" "g ` set ws \<subseteq> f ` {x \<in> set xs. P x}"
  shows "length (filter (\<lambda>x. P x \<and> f x \<in> g ` set ws) xs) = length ws"
proof -
  let ?F = "filter (\<lambda>x. P x \<and> f x \<in> g ` set ws) xs"
  have d: "distinct (map f ?F)" using assms(1) by (simp add: distinct_map_filter)
  have "f ` set ?F = g ` set ws"
  proof
    show "g ` set ws \<subseteq> f ` set ?F"
    proof
      fix y assume y: "y \<in> g ` set ws"
      then obtain x where "x \<in> set xs" "P x" "f x = y" using assms(3) by auto
      with y show "y \<in> f ` set ?F" by auto
    qed
  qed auto
  then have "card (set (map f ?F)) = card (set (map g ws))" by simp
  then show ?thesis using distinct_card [OF d] distinct_card [OF assms(2)] by simp
qed

lemma length_filter_split: "length (filter P xs) = length (filter (\<lambda>x. P x \<and> Q x) xs) + length (filter (\<lambda>x. P x \<and> \<not> Q x) xs)"
  by (induction xs) auto

lemma won_row_find: "won_row now ws b = (if bd_status b = B_escrowed then (case find (\<lambda>w. cw_id w = bd_id b) ws of
     None \<Rightarrow> b | Some w \<Rightarrow> b\<lparr>bd_status := B_won, bd_alloc := Some (cw_allocated w), bd_settle_refund := Some (cw_refund w),
       bd_updated := now\<rparr>) else b)"
proof (cases "bd_status b = B_escrowed")
  case True
  then show ?thesis by (simp add: won_row_def)
qed (simp add: won_row_other)

definition in_book :: "ident \<Rightarrow> offering_bid \<Rightarrow> bool" where
  "in_book i b \<longleftrightarrow> bd_offering b = i \<and> bd_status b = B_escrowed \<and> bd_deleted b = None"

lemma in_book_won: "in_book i (won_row now ws b) \<longleftrightarrow> in_book i b \<and> bd_id b \<notin> cw_id ` set ws"
proof (cases "find (\<lambda>w. cw_id w = bd_id b) ws")
  case None
  then have "won_row now ws b = b" by (simp only: won_row_find option.case if_cancel)
  moreover have "bd_id b \<notin> cw_id ` set ws" using None by (force simp: find_None_iff)
  ultimately show ?thesis by simp
next
  case (Some w)
  have "bd_id b \<in> cw_id ` set ws" using find_in_set [OF Some] by (metis imageI)
  moreover have "\<not> in_book i (won_row now ws b)"
    by (cases "bd_status b = B_escrowed") (simp_all add: won_row_find Some in_book_def)
  ultimately show ?thesis by simp
qed

lemma lost_count:
  assumes "distinct (map bd_id t)" "distinct (map cw_id ws)" "cw_id ` set ws \<subseteq> bd_id ` {b \<in> set t. in_book i b}"
  shows "length ws + snd (flipRemainingEscrowedToLost now i (map (won_row now ws) t)) = length (listBidsForClearing i t)"
proof -
  have "snd (flipRemainingEscrowedToLost now i (map (won_row now ws) t)) = length (filter (in_book i \<circ> won_row now ws) t)"
    by (simp add: flipRemainingEscrowedToLost_def sql_update_def in_book_def [abs_def] filter_map comp_def)
  also have "in_book i \<circ> won_row now ws = (\<lambda>b. in_book i b \<and> \<not> bd_id b \<in> cw_id ` set ws)"
    by (simp add: fun_eq_iff in_book_won)
  finally have "length ws + snd (flipRemainingEscrowedToLost now i (map (won_row now ws) t)) = length (filter (in_book i) t)"
    using length_filter_ids [OF assms] length_filter_split [of "in_book i" t "\<lambda>b. bd_id b \<in> cw_id ` set ws"] by simp
  then show ?thesis by (simp add: listBidsForClearing_def in_book_def [abs_def])
qed

lemma persist_breaks_only_in_the_database:
  assumes "persist db_ok now off r n tx d = (Inl e, d')" "settle_clearing cfg off d = Inr (r, n)"
    "distinct (map bd_id (db_bids d))" "distinct (map bd_chain (listBidsForClearing (of_id off) (db_bids d)))"
  shows "e = SE_other"
proof -
  define book where "book = listBidsForClearing (of_id off) (db_bids d)"
  note C = settle_clearing_Inr [OF assms(2), folded book_def]
  have dist: "distinct (map cb_chain (map input_of book))"
    by (rule distinct_inputs) (use C assms(4) in \<open>simp_all add: book_def\<close>)
  have ids: "distinct (map bd_id book)" unfolding book_def by (rule distinct_book [OF assms(3)])
  obtain P where "\<And>w. w \<in> set (cr_winners r) \<Longrightarrow> \<exists>b \<in> set book. wins P (input_of b) w" "distinct (map cw_chain (cr_winners r))"
    by (rule book_clearing [OF C [THEN conjunct2, THEN conjunct1] C [THEN conjunct2, THEN conjunct2, THEN conjunct1] dist]) blast
  note W = winner_ids [OF this ids]
  have sub: "cw_id ` set (cr_winners r) \<subseteq> bd_id ` {b \<in> set (db_bids d). in_book (of_id off) b}"
    using W by (auto simp: book_def set_listBids in_book_def)
  have work: "\<exists>u d1. persist_work now off r n tx d = (u, d1) \<and> (\<forall>x. u = Inl x \<longrightarrow> x = SE_other)"
  proof (cases "on_offerings (casSettled now (of_id off)) d")
    case (Pair won d1)
    have b1: "db_bids d1 = db_bids d" using on_offerings_sel(3) [of "casSettled now (of_id off)" d] Pair by simp
    show ?thesis
    proof (cases won)
      case False
      then show ?thesis using Pair by (simp add: persist_work_def)
    next
      case True
      have "\<exists>b \<in> set (db_bids d1). bd_id b = cw_id w \<and> bd_status b = B_escrowed" if "w \<in> set (cr_winners r)" for w
      proof -
        have "cw_id w \<in> bd_id ` {b \<in> set (db_bids d). in_book (of_id off) b}" using sub that by blast
        then obtain b where "cw_id w = bd_id b" "b \<in> {b \<in> set (db_bids d). in_book (of_id off) b}" by (rule imageE)
        then show ?thesis by (intro bexI [of _ b]) (simp_all add: b1 in_book_def)
      qed
      then have "\<forall>w \<in> set (cr_winners r). \<exists>b \<in> set (db_bids d1). bd_id b = cw_id w \<and> bd_status b = B_escrowed" ..
      from win_bids_ok [OF conjunct1 [OF W] this] obtain d2 where d2: "foldE (win_bid now) (cr_winners r) d1 = Inr d2" ..
      have cnt: "length (cr_winners r) + snd (flipRemainingEscrowedToLost now (of_id off) (db_bids d2)) = n"
        using win_bids_Inr [OF d2] lost_count [OF assms(3) conjunct1 [OF W] sub] C by (simp add: b1 book_def)
      obtain t lost where fl: "flipRemainingEscrowedToLost now (of_id off) (db_bids d2) = (t, lost)" by fastforce
      obtain u d4 where ins: "insertSnapshot (clearing_row off r tx) (d2\<lparr>db_bids := t\<rparr>) = (u, d4)" by fastforce
      have "length (cr_winners r) + lost = n" using cnt fl by simp
      then have "persist_work now off r n tx d = (case u of Inl _ \<Rightarrow> (Inl SE_other, d4) | Inr _ \<Rightarrow> (Inr (),
          audit_record \<lparr>ae_kind = ''offering.settled'', ae_actor = None, ae_subject = of_id off\<rparr> d4))"
        using Pair True by (simp add: persist_work_def d2 fl ins Let_def)
      then show ?thesis by (cases u) simp_all
    qed
  qed
  show ?thesis
    using assms(1) work by (auto simp: persist_def run_txn_def split: sum.splits if_splits)
qed

end
