(* ===== verification/Settle_Run.thy ===== *)
theory Settle_Run
  imports Settle_Chain
begin

text \<open>
  The settle worker against the contract. A run interleaves attempts of the job, late landings of
  transactions an earlier attempt gave up on, other activity on the ledger and on the database. The
  ledger remembers the arguments of every settlement sent and of every one the contract accepted;
  the books of the database refine it: what they record as settled is what was paid, once.
\<close>

section \<open>Runs of the worker\<close>

type_synonym payment = "int \<times> (nat \<times> int) list"

record ledger =
  lg_escrow :: escrow
  lg_sent :: "payment list"
  lg_paid :: "payment list"

text \<open>What the network answers to one attempt, and what lands on the ledger meanwhile.\<close>

record settle_rpc =
  sr_status :: "settle_throw + escrow_view"
  sr_close :: tx_rpc
  sr_late :: "payment option"
  sr_status2 :: "settle_throw + escrow_view"
  sr_tx :: tx_rpc

definition chain_args :: "clearing_result \<Rightarrow> payment" where
  "chain_args r = (the (cr_price r), map (\<lambda>(c, a). (nat c, a)) (settle_allocations r))"

text \<open>The arguments the worker sends for the offering's current book, if the belt accepts it and they encode.\<close>

definition args_of :: "escrow_config \<Rightarrow> offering \<Rightarrow> odb \<Rightarrow> payment option" where
  "args_of cfg off d = (case settle_clearing cfg off d of
     Inl _ \<Rightarrow> None
   | Inr (r, _) \<Rightarrow> if isOk (encodeAllocations (settle_allocations r)) then Some (chain_args r) else None)"

text \<open>The ledger after a settlement with the arguments \<open>p\<close> is applied; a refused one changes nothing.\<close>

definition settle_exec :: "ident set \<Rightarrow> ((ident \<times> int) list \<Rightarrow> bool) \<Rightarrow> payment \<Rightarrow> ledger \<Rightarrow> ledger" where
  "settle_exec auths mint p G = (case close_and_settle auths mint (fst p) (snd p) (lg_escrow G) of
     Inl _ \<Rightarrow> G | Inr (_, L') \<Rightarrow> G\<lparr>lg_escrow := L', lg_paid := lg_paid G @ [p]\<rparr>)"

definition late_exec :: "ident set \<Rightarrow> ((ident \<times> int) list \<Rightarrow> bool) \<Rightarrow> payment option \<Rightarrow> ledger \<Rightarrow> ledger" where
  "late_exec auths mint q G = (case q of
     Some p \<Rightarrow> if p \<in> set (lg_sent G) then settle_exec auths mint p G else G | None \<Rightarrow> G)"

definition close_exec :: "ident set \<Rightarrow> ledger \<Rightarrow> ledger" where
  "close_exec auths G = G\<lparr>lg_escrow := snd (invoke (close_offering auths) (lg_escrow G))\<rparr>"

text \<open>
  One attempt on the ledger: the close leg, a late landing of an earlier attempt before the lock of
  the settlement leg is taken, the settlement leg.
\<close>

definition before_settle :: "ident set \<Rightarrow> ((ident \<times> int) list \<Rightarrow> bool) \<Rightarrow> settle_rpc \<Rightarrow> ledger \<Rightarrow> ledger" where
  "before_settle auths mint a G =
     late_exec auths mint (sr_late a) (if tr_lands (sr_close a) then close_exec auths G else G)"

definition after_settle :: "ident set \<Rightarrow> ((ident \<times> int) list \<Rightarrow> bool) \<Rightarrow> payment option \<Rightarrow> settle_rpc \<Rightarrow> ledger \<Rightarrow> ledger" where
  "after_settle auths mint p a G = (let G1 = before_settle auths mint a G in
     case p of None \<Rightarrow> G1 | Some q \<Rightarrow> let G2 = G1\<lparr>lg_sent := lg_sent G1 @ [q]\<rparr> in
       if tr_lands (sr_tx a) then settle_exec auths mint q G2 else G2)"

text \<open>
  The network is honest in an attempt: the status reads are those of the ledger when they are made,
  a leg lands only if the contract accepts it there, and answers report what landed.
\<close>

definition honest_attempt ::
  "adapter_config \<Rightarrow> ident set \<Rightarrow> ((ident \<times> int) list \<Rightarrow> bool) \<Rightarrow> payment option \<Rightarrow> settle_rpc \<Rightarrow> ledger \<Rightarrow> bool" where
  "honest_attempt acfg auths mint p a G \<longleftrightarrow>
     honest_status (lg_escrow G) (sr_status a)
     \<and> honest_tx acfg (sr_status a = Inr V_open \<and> isOk (close_offering auths (lg_escrow G))) (sr_close a)
     \<and> (let L1 = lg_escrow (before_settle auths mint a G) in
          honest_status L1 (sr_status2 a)
          \<and> honest_tx acfg (case p of None \<Rightarrow> False
              | Some q \<Rightarrow> isOk (close_and_settle auths mint (fst q) (snd q) L1)) (sr_tx a))"

text \<open>The port of the worker is the adapter run on those answers.\<close>

definition port_answers :: "adapter_config \<Rightarrow> settle_rpc \<Rightarrow> settle_port \<Rightarrow> bool" where
  "port_answers acfg a port \<longleftrightarrow> sp_status port = sr_status a \<and> closeOffering acfg (sr_close a) = Some (sp_close port)
     \<and> (\<forall>P al. closeAndSettle acfg (sr_status2 a) (sr_tx a) al = Some (sp_settle port P al))"

text \<open>
  What else may happen to the database while the offering is subscribed or settled: its failure
  stamp may be cleared by a re-drive; its terms, its book and its snapshots stay.
\<close>

definition terms_of :: "offering \<Rightarrow> offering" where
  "terms_of off = off\<lparr>of_fail_at := None, of_fail_reason := None, of_updated := 0\<rparr>"

definition snapshots :: "ident \<Rightarrow> odb \<Rightarrow> clearing_audit list" where
  "snapshots i d = filter (\<lambda>a. ca_offering a = i) (db_clearing d)"

definition frozen :: "ident \<Rightarrow> odb \<Rightarrow> odb \<Rightarrow> bool" where
  "frozen i d d' \<longleftrightarrow> map_option terms_of (find_offering i (db_offerings d')) = map_option terms_of (find_offering i (db_offerings d))
     \<and> listBidsForClearing i (db_bids d') = listBidsForClearing i (db_bids d)
     \<and> snapshots i d' = snapshots i d \<and> distinct (map bd_id (db_bids d'))"

text \<open>A run from the database \<open>d0\<close> and the escrow \<open>L0\<close>, with the outcome of its last step if that was an attempt.\<close>

inductive settle_run ::
  "escrow_config \<Rightarrow> adapter_config \<Rightarrow> ident set \<Rightarrow> ((ident \<times> int) list \<Rightarrow> bool) \<Rightarrow> (settle_throw \<Rightarrow> string \<times> string)
   \<Rightarrow> ident \<Rightarrow> odb \<Rightarrow> escrow \<Rightarrow> job_outcome option \<Rightarrow> odb \<Rightarrow> ledger \<Rightarrow> bool"
  for cfg acfg auths mint describe i d0 L0 where
  start: "settle_run cfg acfg auths mint describe i d0 L0 None d0 \<lparr>lg_escrow = L0, lg_sent = [], lg_paid = []\<rparr>"
| attempt: "settle_run cfg acfg auths mint describe i d0 L0 res d G \<Longrightarrow> find_offering i (db_offerings d) = Some off
     \<Longrightarrow> of_status off = O_subscribed \<Longrightarrow> port_answers acfg a port
     \<Longrightarrow> honest_attempt acfg auths mint (args_of cfg off d) a G
     \<Longrightarrow> settle_process cfg audit_ok db_ok now describe port i d = (out, d')
     \<Longrightarrow> settle_run cfg acfg auths mint describe i d0 L0 (Some out) d' (after_settle auths mint (args_of cfg off d) a G)"
| late: "settle_run cfg acfg auths mint describe i d0 L0 res d G
     \<Longrightarrow> settle_run cfg acfg auths mint describe i d0 L0 None d (late_exec auths mint q G)"
| elsewhere: "settle_run cfg acfg auths mint describe i d0 L0 res d G \<Longrightarrow> frozen i d d'
     \<Longrightarrow> (es_status L' = Esc_settled \<longleftrightarrow> es_status (lg_escrow G) = Esc_settled)
     \<Longrightarrow> settle_run cfg acfg auths mint describe i d0 L0 None d' (G\<lparr>lg_escrow := L'\<rparr>)"

section \<open>The ledger\<close>

lemma close_and_settle_status:
  "close_and_settle auths mint P al L = Inr (x, L') \<Longrightarrow> es_status L = Esc_closed \<and> es_status L' = Esc_settled"
  using close_and_settle_frame by blast

lemma close_exec_sel [simp]:
  "lg_paid (close_exec auths G) = lg_paid G" "lg_sent (close_exec auths G) = lg_sent G"
  "es_status (lg_escrow (close_exec auths G)) = Esc_settled \<longleftrightarrow> es_status (lg_escrow G) = Esc_settled"
proof -
  show "es_status (lg_escrow (close_exec auths G)) = Esc_settled \<longleftrightarrow> es_status (lg_escrow G) = Esc_settled"
  proof (cases "close_offering auths (lg_escrow G)")
    case (Inr r)
    obtain x L' where r: "r = (x, L')" by (cases r)
    have "es_status (lg_escrow G) = Esc_open" "L' = (lg_escrow G)\<lparr>es_status := Esc_closed\<rparr>"
      using Inr by (auto simp: r close_offering_def require_open_def err_simps)
    then show ?thesis by (simp add: close_exec_def invoke_def Inr r)
  qed (simp add: close_exec_def invoke_def)
qed (simp_all add: close_exec_def)

text \<open>The payments of a ledger: none, and the escrow not settled, or exactly \<open>A\<close>, and the escrow settled.\<close>

definition paid_once :: "payment option \<Rightarrow> ledger \<Rightarrow> bool" where
  "paid_once A G \<longleftrightarrow> (case A of None \<Rightarrow> lg_sent G = [] | Some p \<Rightarrow> set (lg_sent G) \<subseteq> {p})
     \<and> (if es_status (lg_escrow G) = Esc_settled then (\<exists>p. A = Some p \<and> lg_paid G = [p]) else lg_paid G = [])"

lemma paid_once_settle_exec:
  assumes "paid_once (Some p) G" shows "paid_once (Some p) (settle_exec auths mint p G)"
proof (cases "close_and_settle auths mint (fst p) (snd p) (lg_escrow G)")
  case (Inr r)
  obtain x L' where r: "r = (x, L')" by (cases r)
  with close_and_settle_status Inr have "es_status (lg_escrow G) = Esc_closed" "es_status L' = Esc_settled" by blast+
  with assms show ?thesis by (simp add: paid_once_def settle_exec_def Inr r)
qed (use assms in \<open>simp add: settle_exec_def\<close>)

lemma paid_once_late: "paid_once A G \<Longrightarrow> paid_once A (late_exec auths mint q G)"
proof (cases "q = None \<or> the q \<notin> set (lg_sent G)")
  case False
  assume P: "paid_once A G"
  obtain p where p: "q = Some p" "p \<in> set (lg_sent G)" using False by auto
  moreover have "A = Some p"
  proof (cases A)
    case None
    then show ?thesis using P p(2) by (simp add: paid_once_def)
  next
    case (Some x)
    then have "set (lg_sent G) \<subseteq> {x}" using P by (simp add: paid_once_def)
    with p(2) Some show ?thesis by blast
  qed
  ultimately show ?thesis using P by (simp add: late_exec_def paid_once_settle_exec)
qed (cases q; simp add: late_exec_def)

lemma paid_once_close: "paid_once A G \<Longrightarrow> paid_once A (close_exec auths G)"
  by (auto simp: paid_once_def split: if_splits option.splits)

lemma paid_once_before: "paid_once A G \<Longrightarrow> paid_once A (before_settle auths mint a G)"
  by (simp add: before_settle_def paid_once_late paid_once_close)

lemma paid_once_after:
  assumes "paid_once A G" shows "paid_once A (after_settle auths mint A a G)"
proof (cases A)
  case None
  then show ?thesis using paid_once_before [OF assms] by (simp add: after_settle_def)
next
  case (Some p)
  define G2 where "G2 = (let G1 = before_settle auths mint a G in G1\<lparr>lg_sent := lg_sent G1 @ [p]\<rparr>)"
  have G2: "paid_once (Some p) G2" using paid_once_before [OF assms, of auths mint a]
    by (auto simp: Some G2_def paid_once_def Let_def split: if_splits)
  have "after_settle auths mint A a G = (if tr_lands (sr_tx a) then settle_exec auths mint p G2 else G2)"
    by (simp add: after_settle_def Some G2_def Let_def)
  then show ?thesis using G2 paid_once_settle_exec by (simp add: Some)
qed

lemma paid_once_elsewhere:
  "paid_once A G \<Longrightarrow> (es_status L' = Esc_settled \<longleftrightarrow> es_status (lg_escrow G) = Esc_settled) \<Longrightarrow> paid_once A (G\<lparr>lg_escrow := L'\<rparr>)"
  by (auto simp: paid_once_def split: if_splits option.splits)

text \<open>A settled escrow stays settled, and one that is not closed does not settle.\<close>

lemma settle_exec_status:
  "es_status (lg_escrow G) \<noteq> Esc_closed \<Longrightarrow> settle_exec auths mint p G = G"
proof (cases "close_and_settle auths mint (fst p) (snd p) (lg_escrow G)")
  case (Inr r)
  moreover obtain x L' where "r = (x, L')" by (cases r)
  moreover assume "es_status (lg_escrow G) \<noteq> Esc_closed"
  ultimately show ?thesis using close_and_settle_status by blast
qed (simp add: settle_exec_def)

lemma settle_exec_settled: "es_status (lg_escrow G) = Esc_settled \<Longrightarrow> settle_exec auths mint p G = G"
  by (simp add: settle_exec_status)

lemma settled_before: "es_status (lg_escrow G) = Esc_settled \<Longrightarrow> es_status (lg_escrow (before_settle auths mint a G)) = Esc_settled"
  by (auto simp: before_settle_def late_exec_def settle_exec_settled split: option.splits)

lemma settled_after:
  assumes "es_status (lg_escrow (before_settle auths mint a G)) = Esc_settled"
  shows "es_status (lg_escrow (after_settle auths mint A a G)) = Esc_settled"
  using assms by (auto simp: after_settle_def Let_def settle_exec_status split: option.splits)

lemma untouched:
  assumes "es_status (lg_escrow G) \<noteq> Esc_closed" "\<not> tr_lands (sr_close a)"
  shows "before_settle auths mint a G = G"
    "lg_escrow (after_settle auths mint A a G) = lg_escrow G"
  using assms by (auto simp: before_settle_def late_exec_def after_settle_def Let_def settle_exec_status split: option.splits)

section \<open>One attempt\<close>

lemma attempt_args:
  "settle_clearing cfg off d = Inr (r, n) \<Longrightarrow> honest_attempt acfg auths mint (args_of cfg off d) a G
     \<Longrightarrow> port_answers acfg a port \<Longrightarrow>
   (case sp_settle port P (settle_allocations r) of
      Inl e \<Rightarrow> isTerminalSettleError e \<longrightarrow> es_status (lg_escrow (after_settle auths mint (args_of cfg off d) a G)) \<noteq> Esc_settled
    | Inr _ \<Rightarrow> es_status (lg_escrow (after_settle auths mint (args_of cfg off d) a G)) = Esc_settled)"
proof -
  assume c: "settle_clearing cfg off d = Inr (r, n)" and h: "honest_attempt acfg auths mint (args_of cfg off d) a G"
    and p: "port_answers acfg a port"
  define A where "A = args_of cfg off d"
  define G1 where "G1 = before_settle auths mint a G"
  define acc where "acc = (case A of None \<Rightarrow> False
    | Some q \<Rightarrow> isOk (close_and_settle auths mint (fst q) (snd q) (lg_escrow G1)))"
  have tx: "honest_tx acfg acc (sr_tx a)" and st: "honest_status (lg_escrow G1) (sr_status2 a)"
    using h by (simp_all add: honest_attempt_def acc_def Let_def flip: A_def G1_def)
  have enc: "isOk (encodeAllocations (settle_allocations r))" if "acc"
    using that by (auto simp: acc_def A_def args_of_def c split: if_splits)
  have cs: "closeAndSettle acfg (sr_status2 a) (sr_tx a) (settle_allocations r) = Some (sp_settle port P (settle_allocations r))"
    using p by (simp add: port_answers_def)
  note R = closeAndSettle_result [OF cs tx st enc]
  show ?thesis unfolding A_def [symmetric]
  proof (cases "sp_settle port P (settle_allocations r)")
    case (Inl e)
    have "es_status (lg_escrow (after_settle auths mint A a G)) \<noteq> Esc_settled" if "isTerminalSettleError e"
      using R that by (simp add: Inl after_settle_def Let_def G1_def [symmetric] split: option.splits)
    then show "case sp_settle port P (settle_allocations r) of
      Inl e \<Rightarrow> isTerminalSettleError e \<longrightarrow> es_status (lg_escrow (after_settle auths mint A a G)) \<noteq> Esc_settled
    | Inr _ \<Rightarrow> es_status (lg_escrow (after_settle auths mint A a G)) = Esc_settled" by (simp add: Inl)
  next
    case (Inr res)
    have "es_status (lg_escrow (after_settle auths mint A a G)) = Esc_settled"
    proof (cases res)
      case AlreadySettled
      then show ?thesis using R settled_after by (simp add: Inr G1_def)
    next
      case (SettledTx hsh l)
      then have lands: "tr_lands (sr_tx a)" and "acc" using R tx by (simp_all add: Inr honest_tx_def)
      then obtain q where q: "A = Some q" "isOk (close_and_settle auths mint (fst q) (snd q) (lg_escrow G1))"
        by (auto simp: acc_def split: option.splits)
      then obtain x L' where L': "close_and_settle auths mint (fst q) (snd q) (lg_escrow G1) = Inr (x, L')"
        by (cases "close_and_settle auths mint (fst q) (snd q) (lg_escrow G1)") (auto simp: isOk_def)
      then have "es_status L' = Esc_settled" using close_and_settle_status by blast
      then show ?thesis using lands q L' by (simp add: after_settle_def Let_def G1_def [symmetric] settle_exec_def)
    qed
    then show "case sp_settle port P (settle_allocations r) of
      Inl e \<Rightarrow> isTerminalSettleError e \<longrightarrow> es_status (lg_escrow (after_settle auths mint A a G)) \<noteq> Esc_settled
    | Inr _ \<Rightarrow> es_status (lg_escrow (after_settle auths mint A a G)) = Esc_settled" by (simp add: Inr)
  qed
qed

lemma settle_attempt_terminal:
  assumes "settle_attempt cfg audit_ok db_ok now port off d = (Inl e, d')" "isTerminalSettleError e"
  obtains (heal) "sp_status port = Inl e" | (close) "sp_status port = Inr V_open" "sp_close port = Inl e"
  | (cancelled) "sp_status port = Inr V_cancelled"
  | (belt) "settle_clearing cfg off d = Inl e"
  | (chain) r n where "settle_clearing cfg off d = Inr (r, n)"
      "sp_settle port (the (cr_price r)) (settle_allocations r) = Inl e"
  | (persist) r n tx d1 where "settle_clearing cfg off d = Inr (r, n)" "persist db_ok now off r n tx d1 = (Inl e, d')"
      "db_bids d1 = db_bids d"
proof -
  obtain h d1 where h: "settle_heal audit_ok port (of_id off) d = (h, d1)" by fastforce
  have b: "db_bids d1 = db_bids d" using settle_heal_state [OF h] by auto
  note c = settle_clearing_cong [OF b, of cfg off]
  show ?thesis
  proof (cases h)
    case (Inl x)
    then have "x = e" using assms(1) h by (simp add: settle_attempt_def)
    then show ?thesis using h Inl assms(2) heal close cancelled
      by (auto simp: settle_heal_def Let_def assertBookFinal_def bindE_Inl err_simps retryable_def split: sum.splits escrow_view.splits)
  next
    case (Inr adopted)
    show ?thesis
    proof (cases "settle_clearing cfg off d")
      case (Inl x)
      then show ?thesis using assms(1) h Inr c belt by (simp add: settle_attempt_def)
    next
      case cl: (Inr p)
      obtain r n where p: "settle_clearing cfg off d = Inr (r, n)" using cl by (cases p) simp
      show ?thesis
      proof (cases "settle_on_chain port adopted r")
        case (Inl x)
        then have "x = e" using assms(1) h Inr c p by (simp add: settle_attempt_def)
        then have "sp_settle port (the (cr_price r)) (settle_allocations r) = Inl e"
          using Inl by (cases "sp_settle port (the (cr_price r)) (settle_allocations r)"; cases adopted)
            (auto simp: settle_on_chain_def split: settle_result.splits)
        then show ?thesis by (rule chain [OF p])
      next
        case tx: (Inr tx)
        then show ?thesis using assms(1) h Inr c p persist [OF p _ b] by (simp add: settle_attempt_def)
      qed
    qed
  qed
qed

lemma attempt_verdict:
  assumes "settle_process cfg audit_ok db_ok now describe port i d = (out, d')" "find_offering i (db_offerings d) = Some off"
    "of_status off = O_subscribed" "of_escrow off \<notin> {None, Some []}" "port_answers acfg a port"
    "honest_attempt acfg auths mint (args_of cfg off d) a G" "paid_once (args_of cfg off d) G"
    "distinct (map bd_id (db_bids d))" "distinct (map bd_chain (listBidsForClearing i (db_bids d)))"
  shows "case out of JobDone \<Rightarrow> es_status (lg_escrow (after_settle auths mint (args_of cfg off d) a G)) = Esc_settled
    | JobUnrecoverable \<Rightarrow> es_status (lg_escrow (after_settle auths mint (args_of cfg off d) a G)) \<noteq> Esc_settled
    | JobRetry \<Rightarrow> True"
proof -
  let ?S = "\<lambda>G. es_status (lg_escrow G) = Esc_settled"
  let ?G' = "after_settle auths mint (args_of cfg off d) a G"
  have st: "honest_status (lg_escrow G) (sr_status a)" and p1: "sp_status port = sr_status a"
    and cl: "honest_tx acfg (sr_status a = Inr V_open \<and> isOk (close_offering auths (lg_escrow G))) (sr_close a)"
    and pc: "closeOffering acfg (sr_close a) = Some (sp_close port)"
    using assms(5,6) by (simp_all add: honest_attempt_def port_answers_def)
  have id: "of_id off = i" using find_offering_SomeD [OF assms(2)] by simp
  have settles: "?S ?G'" if out: "out = JobDone"
  proof -
    obtain r n tx where c: "settle_clearing cfg off d = Inr (r, n)"
      and "case tx of None \<Rightarrow> sp_status port = Inr V_settled
              \<or> sp_settle port (the (cr_price r)) (settle_allocations r) = Inr AlreadySettled
            | Some (h, l) \<Rightarrow> sp_settle port (the (cr_price r)) (settle_allocations r) = Inr (SettledTx h l)"
      using settle_done [OF assms(1) [unfolded out] assms(2,3)] by blast
    then consider (adopted) "sr_status a = Inr V_settled"
      | (leg) x where "sp_settle port (the (cr_price r)) (settle_allocations r) = Inr x"
      using p1 by (cases tx) auto
    then show ?thesis
    proof cases
      case adopted
      with st have "?S G" by (cases "es_status (lg_escrow G)") (simp_all add: honest_status_def)
      then show ?thesis by (rule settled_after [OF settled_before])
    next
      case leg
      with attempt_args [OF c assms(6,5), of "the (cr_price r)"] show ?thesis by simp
    qed
  qed
  have undone: "\<not> ?S ?G'" if out: "out = JobUnrecoverable"
  proof -
    obtain res d1 where at: "settle_attempt cfg audit_ok db_ok now port off d = (res, d1)" by fastforce
    obtain e where e: "res = Inl e" "isTerminalSettleError e"
    proof (cases res)
      case (Inl e)
      with settle_process_eq(3) [OF assms(2-4), of cfg audit_ok db_ok now port e d1 describe] at assms(1) out show ?thesis
        using that by (simp split: if_splits)
    next
      case (Inr u)
      with settle_process_eq(2) [OF assms(2-4), of cfg audit_ok db_ok now port u d1 describe] at assms(1) out show ?thesis
        by simp
    qed
    have quiet: "\<not> ?S ?G'" if "es_status (lg_escrow G) \<in> {Esc_open, Esc_cancelled}" "\<not> tr_lands (sr_close a)"
    proof -
      have "es_status (lg_escrow G) \<noteq> Esc_closed" using that(1) by auto
      from untouched(2) [OF this that(2), of auths mint "args_of cfg off d"] that(1) show ?thesis by auto
    qed
    from at [unfolded e(1)] e(2) show ?thesis
    proof (cases rule: settle_attempt_terminal)
      case heal
      then show ?thesis using st e(2) p1 by (simp add: honest_status_def)
    next
      case close
      then have "\<not> tr_lands (sr_close a)" using closeOffering_result [OF pc cl] e(2) by simp
      moreover have "es_status (lg_escrow G) = Esc_open"
        using close(1) st p1 by (cases "es_status (lg_escrow G)") (simp_all add: honest_status_def)
      ultimately show ?thesis using quiet by simp
    next
      case cancelled
      then have "\<not> tr_lands (sr_close a)" using cl p1 by (simp add: honest_tx_def)
      moreover have "es_status (lg_escrow G) = Esc_cancelled"
        using cancelled st p1 by (cases "es_status (lg_escrow G)") (simp_all add: honest_status_def)
      ultimately show ?thesis using quiet by simp
    next
      case belt
      then have "args_of cfg off d = None" by (simp add: args_of_def)
      with paid_once_after [OF assms(7), of auths mint a] show ?thesis by (auto simp: paid_once_def)
    next
      case (chain r n)
      with attempt_args [OF chain(1) assms(6,5), of "the (cr_price r)"] e(2) show ?thesis by simp
    next
      case (persist r n tx d2)
      have "settle_clearing cfg off d2 = Inr (r, n)" using settle_clearing_cong [OF persist(3)] persist(1) by simp
      from persist_breaks_only_in_the_database [OF persist(2) this] assms(8,9) e(2) persist(3) id show ?thesis by simp
    qed
  qed
  show ?thesis using settles undone by (cases out) simp_all
qed

section \<open>Every run\<close>

lemma terms_of_sel:
  assumes "terms_of a = terms_of b"
  shows "of_id a = of_id b" "of_status a = of_status b" "of_escrow a = of_escrow b" "of_float a = of_float b"
    "of_low a = of_low b" "of_high a = of_high b"
  using assms [THEN arg_cong [of _ _ of_id]] assms [THEN arg_cong [of _ _ of_status]] assms [THEN arg_cong [of _ _ of_escrow]]
    assms [THEN arg_cong [of _ _ of_float]] assms [THEN arg_cong [of _ _ of_low]] assms [THEN arg_cong [of _ _ of_high]]
  by (simp_all add: terms_of_def)

lemma settle_clearing_frozen:
  assumes "terms_of off = terms_of off0"
    "listBidsForClearing (of_id off0) (db_bids d) = listBidsForClearing (of_id off0) (db_bids d0)"
  shows "settle_clearing cfg off d = settle_clearing cfg off0 d0"
  using terms_of_sel [OF assms(1)] assms(2) by (simp add: settle_clearing_def clearing_of_book_def band_of_def)

text \<open>The database while the offering is subscribed, and after it settled.\<close>

definition books_open :: "ident \<Rightarrow> offering \<Rightarrow> odb \<Rightarrow> odb \<Rightarrow> bool" where
  "books_open i off0 d0 d \<longleftrightarrow> map_option terms_of (find_offering i (db_offerings d)) = Some (terms_of off0)
     \<and> listBidsForClearing i (db_bids d) = listBidsForClearing i (db_bids d0) \<and> snapshots i d = []"

definition books_settled :: "ident \<Rightarrow> clearing_result \<Rightarrow> odb \<Rightarrow> bool" where
  "books_settled i r d \<longleftrightarrow> map_option of_status (find_offering i (db_offerings d)) = Some O_settled
     \<and> map (\<lambda>a. (ca_price a, ca_allocations a)) (snapshots i d) = [(the (cr_price r), to_allocation_map r)]"

definition run_inv :: "escrow_config \<Rightarrow> ident \<Rightarrow> offering \<Rightarrow> odb \<Rightarrow> odb \<Rightarrow> ledger \<Rightarrow> bool" where
  "run_inv cfg i off0 d0 d G \<longleftrightarrow> paid_once (args_of cfg off0 d0) G \<and> distinct (map bd_id (db_bids d))
     \<and> (books_open i off0 d0 d
        \<or> es_status (lg_escrow G) = Esc_settled \<and> (\<exists>r n. settle_clearing cfg off0 d0 = Inr (r, n) \<and> books_settled i r d))"

lemma run_inv_frozen:
  assumes "run_inv cfg i off0 d0 d G" "frozen i d d'" "es_status L' = Esc_settled \<longleftrightarrow> es_status (lg_escrow G) = Esc_settled"
  shows "run_inv cfg i off0 d0 d' (G\<lparr>lg_escrow := L'\<rparr>)"
proof -
  have t: "map_option terms_of (find_offering i (db_offerings d')) = map_option terms_of (find_offering i (db_offerings d))"
    using assms(2) by (simp add: frozen_def)
  have "map_option of_status (find_offering i (db_offerings d')) = map_option of_status (find_offering i (db_offerings d))"
    using arg_cong [OF t, of "map_option of_status"] by (simp add: option.map_comp comp_def terms_of_def)
  moreover have "paid_once (args_of cfg off0 d0) (G\<lparr>lg_escrow := L'\<rparr>)"
    by (rule paid_once_elsewhere) (use assms in \<open>simp_all add: run_inv_def\<close>)
  ultimately show ?thesis using assms t
    by (simp only: run_inv_def books_open_def books_settled_def frozen_def ledger.select_convs ledger.update_convs)
      (auto simp: ledger.defs)
qed

lemma run_inv_attempt:
  assumes "run_inv cfg i off0 d0 d G" "find_offering i (db_offerings d) = Some off" "of_status off = O_subscribed"
    "port_answers acfg a port" "honest_attempt acfg auths mint (args_of cfg off d) a G"
    "settle_process cfg audit_ok db_ok now describe port i d = (out, d')"
    "of_id off0 = i" "of_escrow off0 \<notin> {None, Some []}" "distinct (map bd_chain (listBidsForClearing i (db_bids d0)))"
  shows "run_inv cfg i off0 d0 d' (after_settle auths mint (args_of cfg off d) a G)"
    "case out of JobDone \<Rightarrow> es_status (lg_escrow (after_settle auths mint (args_of cfg off d) a G)) = Esc_settled
    | JobUnrecoverable \<Rightarrow> es_status (lg_escrow (after_settle auths mint (args_of cfg off d) a G)) \<noteq> Esc_settled
    | JobRetry \<Rightarrow> True"
proof -
  have op: "books_open i off0 d0 d"
    using assms(1-3) by (auto simp: run_inv_def books_settled_def)
  then have T: "terms_of off = terms_of off0" and B: "listBidsForClearing i (db_bids d) = listBidsForClearing i (db_bids d0)"
    and sn: "snapshots i d = []" using assms(2) by (simp_all add: books_open_def)
  have C: "settle_clearing cfg off d = settle_clearing cfg off0 d0"
    by (rule settle_clearing_frozen [OF T]) (simp add: assms(7) B)
  have A: "args_of cfg off d = args_of cfg off0 d0" by (simp add: args_of_def C)
  have P: "paid_once (args_of cfg off d) G" and dist: "distinct (map bd_id (db_bids d))"
    using assms(1) by (simp_all add: run_inv_def A)
  have esc: "of_escrow off \<notin> {None, Some []}" using terms_of_sel(3) [OF T] assms(8) by simp
  show V: "case out of JobDone \<Rightarrow> es_status (lg_escrow (after_settle auths mint (args_of cfg off d) a G)) = Esc_settled
    | JobUnrecoverable \<Rightarrow> es_status (lg_escrow (after_settle auths mint (args_of cfg off d) a G)) \<noteq> Esc_settled
    | JobRetry \<Rightarrow> True"
    by (rule attempt_verdict [OF assms(6,2,3) esc assms(4,5) P dist]) (simp add: B assms(9))
  have P': "paid_once (args_of cfg off0 d0) (after_settle auths mint (args_of cfg off d) a G)"
    using paid_once_after [OF P] by (simp add: A)
  show "run_inv cfg i off0 d0 d' (after_settle auths mint (args_of cfg off d) a G)"
  proof (cases "out = JobDone")
    case True
    obtain r n tx where D: "settle_clearing cfg off d = Inr (r, n)"
       "db_offerings d' = fst (casSettled now i (db_offerings d))"
       "db_bids d' = map (settled_row now i (cr_winners r)) (db_bids d)"
       "db_clearing d' = db_clearing d @ [clearing_row off r tx]"
      using settle_done [OF assms(6) [unfolded True] assms(2,3)] by blast
    have "books_settled i r d'"
      using find_offering_settled [OF assms(2,3), of now] sn find_offering_SomeD [OF assms(2)]
      by (simp add: books_settled_def D(2,4) snapshots_def clearing_row_def)
    moreover have "map bd_id (db_bids d') = map bd_id (db_bids d)" by (simp add: D(3) settled_row_keys)
    ultimately show ?thesis using P' V D(1) C dist True by (simp add: run_inv_def)
  next
    case False
    note N = settle_not_done [OF assms(6) False assms(2,3)]
    have "map_option terms_of (find_offering i (db_offerings d')) = Some (terms_of off0)"
    proof (cases out)
      case JobRetry
      then show ?thesis using N assms(2) T by simp
    next
      case JobUnrecoverable
      then obtain reason where "find_offering i (db_offerings d')
           = Some (off\<lparr>of_fail_at := Some now, of_fail_reason := Some reason, of_updated := now\<rparr>)" using N by blast
      then show ?thesis using T by (simp add: terms_of_def)
    qed (use False in simp)
    then have "books_open i off0 d0 d'" using N sn B by (simp add: books_open_def snapshots_def)
    then show ?thesis using P' dist N by (simp add: run_inv_def)
  qed
qed

lemma run_inv_late:
  assumes "run_inv cfg i off0 d0 d G" shows "run_inv cfg i off0 d0 d (late_exec auths mint q G)"
proof -
  have "paid_once (args_of cfg off0 d0) (late_exec auths mint q G)"
    by (rule paid_once_late) (use assms in \<open>simp add: run_inv_def\<close>)
  moreover have "es_status (lg_escrow (late_exec auths mint q G)) = Esc_settled" if "es_status (lg_escrow G) = Esc_settled"
    using that by (simp add: late_exec_def settle_exec_settled split: option.splits)
  ultimately show ?thesis using assms unfolding run_inv_def by blast
qed

lemma settle_run_inv:
  assumes "settle_run cfg acfg auths mint describe i d0 L0 res d G"
    "find_offering i (db_offerings d0) = Some off0" "of_escrow off0 \<notin> {None, Some []}" "snapshots i d0 = []"
    "distinct (map bd_id (db_bids d0))" "distinct (map bd_chain (listBidsForClearing i (db_bids d0)))"
    "es_status L0 \<noteq> Esc_settled"
  shows "run_inv cfg i off0 d0 d G \<and> (case res of None \<Rightarrow> True
    | Some out \<Rightarrow> (out = JobDone \<longrightarrow> es_status (lg_escrow G) = Esc_settled)
        \<and> (out = JobUnrecoverable \<longrightarrow> es_status (lg_escrow G) \<noteq> Esc_settled))"
  using assms(1)
proof (induction rule: settle_run.induct)
  case start
  show ?case using assms(2,4-7) by (simp add: run_inv_def books_open_def paid_once_def split: option.split)
next
  case (attempt res d G off port a audit_ok db_ok now out d')
  have id: "of_id off0 = i" using find_offering_SomeD [OF assms(2)] by simp
  note R = run_inv_attempt [OF attempt.IH [THEN conjunct1] attempt.hyps(2-6) id assms(3,6)]
  show ?case using R by (cases out) simp_all
next
  case (late res d G q)
  then show ?case using run_inv_late by simp
next
  case (elsewhere res d G d' L')
  show ?case using run_inv_frozen [OF elsewhere.IH [THEN conjunct1] elsewhere.hyps(2,3)] by simp
qed


section \<open>The contract accepts what the engine computes\<close>

text \<open>The contract's book is the database's: every escrowed bid of the offering is active on the chain.\<close>

definition mirrors :: "offering_bid list \<Rightarrow> escrow \<Rightarrow> bool" where
  "mirrors book L \<longleftrightarrow> (\<forall>b \<in> set book. \<exists>c e. bd_chain b = Some c \<and> 0 \<le> c \<and> es_bids L (nat c) = Some e \<and> eb_active e
     \<and> eb_price e = bd_price b \<and> eb_count e = bd_count b)"

lemma belt_price_pos:
  "assert_clearing_invariants r band F n m = Inr () \<Longrightarrow> cr_price r = Some P \<Longrightarrow> 0 < P"
  by (simp add: assert_clearing_invariants_def split: if_splits)

lemma chain_args_valid:
  assumes "settle_clearing cfg off d = Inr (r, n)" "esc_inv L"
    "mirrors (listBidsForClearing (of_id off) (db_bids d)) L"
    "distinct (map bd_chain (listBidsForClearing (of_id off) (db_bids d)))"
  shows "valid_allocs (es_bids L) (fst (chain_args r)) (snd (chain_args r)) \<and> 0 \<le> fst (chain_args r)
    \<and> sum_list (map snd (snd (chain_args r))) = of_float off"
proof -
  define book where "book = listBidsForClearing (of_id off) (db_bids d)"
  note C = settle_clearing_Inr [OF assms(1), folded book_def]
  have dist: "distinct (map cb_chain (map input_of book))"
    by (rule distinct_inputs) (use C assms(4) in \<open>simp_all add: book_def\<close>)
  obtain P where P: "cr_price r = Some P" "\<And>w. w \<in> set (cr_winners r) \<Longrightarrow> \<exists>b \<in> set book. wins P (input_of b) w"
    "sum_list (map cw_allocated (cr_winners r)) = of_float off" "distinct (map cw_chain (cr_winners r))"
    by (rule book_clearing [OF C [THEN conjunct2, THEN conjunct1] C [THEN conjunct2, THEN conjunct2, THEN conjunct1] dist]) blast
  have P0: "0 < P" using belt_price_pos P(1) C by blast
  have W: "0 \<le> cw_chain w \<and> (\<exists>e. es_bids L (nat (cw_chain w)) = Some e \<and> eb_active e \<and> 0 \<le> cw_allocated w
      \<and> cw_allocated w \<le> eb_count e \<and> P \<le> eb_price e \<and> P * cw_allocated w \<le> eb_escrow e)" if mem: "w \<in> set (cr_winners r)" for w
  proof -
    obtain b where b: "b \<in> set book" "wins P (input_of b) w" using P(2) [OF mem] by blast
    obtain c e where e: "bd_chain b = Some c" "0 \<le> c" "es_bids L (nat c) = Some e" "eb_active e"
      "eb_price e = bd_price b" "eb_count e = bd_count b"
      using assms(3) b(1) by (auto simp: mirrors_def book_def)
    have w: "cw_chain w = c" "P \<le> eb_price e" "0 < cw_allocated w" "cw_allocated w \<le> eb_count e"
      using b(2) e by (simp_all add: wins_def input_of_def)
    have "eb_escrow e = eb_price e * eb_count e" using esc_invD(2) [OF assms(2) e(3)] by (simp add: bid_ok_def)
    moreover have "P * cw_allocated w \<le> eb_price e * eb_count e" by (rule mult_mono) (use w P0 in simp_all)
    ultimately show ?thesis using w e by simp
  qed
  have "inj_on nat (cw_chain ` set (cr_winners r))"
  proof (rule inj_onI)
    fix x y assume "x \<in> cw_chain ` set (cr_winners r)" "y \<in> cw_chain ` set (cr_winners r)" "nat x = nat y"
    moreover have "0 \<le> z" if "z \<in> cw_chain ` set (cr_winners r)" for z using that W by blast
    ultimately show "x = y" by (simp add: eq_nat_nat_iff)
  qed
  then have "distinct (map nat (map cw_chain (cr_winners r)))"
    using P(4) by (simp only: distinct_map [of nat] list.set_map)
  then have D: "distinct (map fst (snd (chain_args r)))"
    by (simp add: chain_args_def settle_allocations_def comp_def case_prod_beta)
  have "valid_allocs (es_bids L) P (snd (chain_args r))"
    unfolding valid_allocs_def using D W P0
    by (auto simp: chain_args_def settle_allocations_def)
  then show ?thesis using P(1,3) P0 by (simp add: chain_args_def settle_allocations_def comp_def)
qed


end
