(* ===== verification/Bids.thy ===== *)
theory Bids
  imports Offering_Plan Relayer
begin

text \<open>
  The public bid surface (\<open>offerings/bids/offering-bids.service.ts\<close>: prepare, submit, getMyBid,
  prepareCancel, cancel) and its two workers (\<open>bids/escrow\<close>, \<open>bids/cancel\<close>). The relayer calls
  are arguments (theory \<open>Relayer\<close> says what their outcomes mean), as are the COSE decoder, the
  sha-256 function, fresh ids and whether an enqueue or the database takes a call.
\<close>

section \<open>Identity\<close>

datatype kyc_status = K_not_submitted | K_pending_review | K_whitelisted | K_frozen | K_removed

record wallet_row =
  wl_id :: ident
  wl_user :: ident
  wl_embedded :: bool
  wl_contract :: "ident option"
  wl_created :: instant
  wl_deleted :: "instant option"

record credential_row =
  cr_credential :: ident
  cr_wallet :: ident
  cr_transports :: "string option"
  cr_key :: string
  cr_deleted :: "instant option"

record identity =
  idn_users :: "(ident \<times> kyc_status) list"
  idn_wallets :: "wallet_row list"
  idn_credentials :: "credential_row list"

record bid_env =
  be_identity :: identity
  be_decode :: "string \<Rightarrow> string option"
  be_sha :: "string \<Rightarrow> string"
  be_usdc :: ident
  be_max_bids :: nat
  be_max_cost :: string
  be_rp :: ident
  be_origins :: "ident list"

definition findKycStatusByUserId :: "ident \<Rightarrow> identity \<Rightarrow> kyc_status option" where
  "findKycStatusByUserId u t = map_of (idn_users t) u"

definition findEmbeddedWalletByUserId :: "ident \<Rightarrow> identity \<Rightarrow> wallet_row option" where
  "findEmbeddedWalletByUserId u t =
     (case sort_key wl_created (filter (\<lambda>w. wl_user w = u \<and> wl_embedded w \<and> wl_deleted w = None) (idn_wallets t)) of
        [] \<Rightarrow> None | w # _ \<Rightarrow> Some w)"

text \<open>\<open>None\<close> is \<open>EmbeddedWalletNotFoundError\<close>; the result is the contract address and the credential.\<close>

definition resolveEmbeddedWalletForUser :: "ident \<Rightarrow> identity \<Rightarrow> (ident \<times> credential_row) option" where
  "resolveEmbeddedWalletForUser u t = (case findEmbeddedWalletByUserId u t of
     None \<Rightarrow> None
   | Some w \<Rightarrow> (case wl_contract w of
       None \<Rightarrow> None
     | Some c \<Rightarrow> if c = [] then None
         else map_option (Pair c) (sql_find (\<lambda>k. cr_wallet k = wl_id w \<and> cr_deleted k = None) (idn_credentials t))))"

definition resolveWallet :: "bid_env \<Rightarrow> ident \<Rightarrow> http_error + ident \<times> credential_row" where
  "resolveWallet env u = (case resolveEmbeddedWalletForUser u (be_identity env) of
     None \<Rightarrow> Inl (FailHttp ''WALLET_NOT_FOUND'' 404) | Some r \<Rightarrow> Inr r)"

definition decodeBoundKey :: "bid_env \<Rightarrow> credential_row \<Rightarrow> http_error + string" where
  "decodeBoundKey env c = (case be_decode env (cr_key c) of
     None \<Rightarrow> Inl (FailHttp ''BID_SIGNATURE_INVALID'' 422) | Some k \<Rightarrow> Inr k)"

section \<open>Relayer errors\<close>

fun mapRelayerErrorTo :: "string \<Rightarrow> relayer_throw \<Rightarrow> http_error" where
  "mapRelayerErrorTo rejected (RelayerTransferError Signature_required) = FailHttp ''BID_SIGNATURE_REQUIRED'' 422"
| "mapRelayerErrorTo rejected (RelayerTransferError Signature_invalid) = FailHttp ''BID_SIGNATURE_INVALID'' 422"
| "mapRelayerErrorTo rejected (RelayerTransferError Expired) = FailHttp ''BID_CHALLENGE_EXPIRED'' 422"
| "mapRelayerErrorTo rejected (RelayerTransferError Simulation_failed) = FailHttp rejected 422"
| "mapRelayerErrorTo rejected (RelayerTransferError Transfer_failed) = FailHttp rejected 422"
| "mapRelayerErrorTo rejected (RelayerTransferError Unavailable) = FailHttp ''BID_UNAVAILABLE'' 503"
| "mapRelayerErrorTo rejected UntypedError = FailHttp ''BID_UNAVAILABLE'' 503"

definition mapRelayerError :: "relayer_throw \<Rightarrow> http_error" where
  "mapRelayerError = mapRelayerErrorTo ''BID_ESCROW_REJECTED''"

definition mapCancelRelayerError :: "relayer_throw \<Rightarrow> http_error" where
  "mapCancelRelayerError = mapRelayerErrorTo ''BID_CANCEL_REJECTED''"

fun mapE :: "('e \<Rightarrow> 'f) \<Rightarrow> 'e + 'a \<Rightarrow> 'f + 'a" where
  "mapE g (Inl e) = Inl (g e)"
| "mapE g (Inr x) = Inr x"

section \<open>Guards\<close>

record prepare_bid_dto =
  pb_price :: string
  pb_count :: int

definition assertBiddable ::
  "bid_env \<Rightarrow> instant \<Rightarrow> ident \<Rightarrow> ident \<Rightarrow> prepare_bid_dto \<Rightarrow> odb \<Rightarrow> http_error + ident \<times> string" where
  "assertBiddable env now userId offeringId dto d =
     (case find_offering offeringId (db_offerings d) of
        None \<Rightarrow> Inl (FailHttp ''OFFERING_NOT_FOUND'' 404)
      | Some off \<Rightarrow>
        (case (of_status off, of_escrow off) of
           (O_opened, Some escrowContract) \<Rightarrow>
             if now < of_open_at off then Inl (FailHttp ''OFFERING_WINDOW_NOT_OPEN'' 422)
             else if now \<ge> of_close_at off then Inl (FailHttp ''OFFERING_WINDOW_CLOSED'' 422)
             else if BigInt (pb_price dto) < of_low off then Inl (FailHttp ''BID_BELOW_LOW_PRICE'' 422)
             else if BigInt (pb_price dto) > of_high off then Inl (FailHttp ''BID_ABOVE_HIGH_PRICE'' 422)
             else if pb_count dto > of_float off then Inl (FailHttp ''BID_COUNT_EXCEEDS_FLOAT'' 422)
             else if countActiveForOffering offeringId (db_bids d) \<ge> be_max_bids env
               then Inl (FailHttp ''OFFERING_TOO_MANY_BIDS'' 409)
             else if findKycStatusByUserId userId (be_identity env) \<noteq> Some K_whitelisted
               then Inl (FailHttp ''BID_NOT_WHITELISTED'' 403)
             else (case computeEscrowStroops (pb_price dto) (String_of (pb_count dto)) of
                 Inl _ \<Rightarrow> Inl (FailHttp ''BID_COST_EXCEEDS_LIMIT'' 422)
               | Inr escrowStroops \<Rightarrow>
                   if BigInt escrowStroops > BigInt (be_max_cost env)
                   then Inl (FailHttp ''BID_COST_EXCEEDS_LIMIT'' 422)
                   else Inr (escrowContract, escrowStroops))
         | _ \<Rightarrow> Inl (FailHttp ''OFFERING_NOT_OPEN'' 409)))"

definition assertCancelable ::
  "ident \<Rightarrow> ident \<Rightarrow> odb \<Rightarrow> http_error + offering_bid \<times> ident \<times> int \<times> ident" where
  "assertCancelable userId offeringId d =
     (case find_offering offeringId (db_offerings d) of
        None \<Rightarrow> Inl (FailHttp ''OFFERING_NOT_FOUND'' 404)
      | Some off \<Rightarrow>
        (case (of_status off, of_escrow off) of
           (O_opened, Some escrowContract) \<Rightarrow>
             (case findMyActiveBid offeringId userId (db_bids d) of
                None \<Rightarrow> Inl (FailHttp ''BID_NOT_FOUND'' 404)
              | Some b \<Rightarrow> (case (bd_status b, bd_chain b) of
                    (B_escrowed, Some chainBidId) \<Rightarrow> Inr (b, escrowContract, chainBidId, bd_wallet b)
                  | _ \<Rightarrow> Inl (FailHttp ''BID_NOT_CANCELABLE'' 409)))
         | _ \<Rightarrow> Inl (FailHttp ''OFFERING_NOT_OPEN'' 409)))"

definition resolveCancelWallet :: "bid_env \<Rightarrow> ident \<Rightarrow> ident \<Rightarrow> http_error + ident \<times> credential_row" where
  "resolveCancelWallet env userId expected = bindE (resolveWallet env userId) (\<lambda>r.
     if fst r \<noteq> expected then Inl (FailHttp ''BID_NOT_CANCELABLE'' 409) else Inr r)"

text \<open>\<open>holdings\<close> is the relayer's read: the first holding's amount, if there is one.\<close>

definition assertSufficientBalance :: "(relayer_throw + string option) \<Rightarrow> string \<Rightarrow> http_error + unit" where
  "assertSufficientBalance holdings escrowStroops = bindE (mapE mapRelayerError holdings) (\<lambda>a.
     guardE (\<not> BigInt (case a of None \<Rightarrow> ''0'' | Some s \<Rightarrow> s) < BigInt escrowStroops)
       (FailHttp ''BID_INSUFFICIENT_BALANCE'' 422))"

section \<open>prepare and prepareCancel\<close>

record built_tx =
  bt_xdr :: string
  bt_challenge :: string
  bt_expires :: int

record prepared_bid =
  pr_built :: built_tx
  pr_credential :: credential_row
  pr_escrow :: ident
  pr_amount :: string
  pr_price :: string
  pr_count :: int

definition deriveOnChainIdemKey :: "bid_env \<Rightarrow> ident \<Rightarrow> ident \<Rightarrow> string \<Rightarrow> string" where
  "deriveOnChainIdemKey env offeringId sub httpKey = be_sha env (offeringId @ ''|'' @ sub @ ''|'' @ httpKey)"

text \<open>
  \<open>Promise.all\<close> rejects with the first rejection; \<open>balance_first\<close> says which of the two calls
  settles first when both reject.
\<close>

definition prepare ::
  "bid_env \<Rightarrow> instant \<Rightarrow> bool \<Rightarrow> (ident \<Rightarrow> relayer_throw + string option)
   \<Rightarrow> (ident \<Rightarrow> ident \<Rightarrow> string \<Rightarrow> string \<Rightarrow> string \<Rightarrow> relayer_throw + built_tx)
   \<Rightarrow> ident \<Rightarrow> ident \<Rightarrow> prepare_bid_dto \<Rightarrow> string \<Rightarrow> odb \<Rightarrow> http_error + prepared_bid" where
  "prepare env now balance_first holdings buildBid userId offeringId dto httpKey d =
     bindE (assertBiddable env now userId offeringId dto d) (\<lambda>(escrowContract, escrowStroops).
     bindE (resolveWallet env userId) (\<lambda>(wallet, cred).
       let balance = assertSufficientBalance (holdings wallet) escrowStroops;
           built = mapE mapRelayerError (buildBid wallet escrowContract (pb_price dto)
                     (String_of (pb_count dto)) (deriveOnChainIdemKey env offeringId userId httpKey))
       in case (balance, built) of
            (Inr _, Inr b) \<Rightarrow> Inr \<lparr>pr_built = b, pr_credential = cred, pr_escrow = escrowContract,
                 pr_amount = escrowStroops, pr_price = pb_price dto, pr_count = pb_count dto\<rparr>
          | (Inl e, Inr _) \<Rightarrow> Inl e
          | (Inr _, Inl e) \<Rightarrow> Inl e
          | (Inl e, Inl f) \<Rightarrow> Inl (if balance_first then e else f)))"

record prepared_cancel =
  pc_built :: built_tx
  pc_credential :: credential_row
  pc_escrow :: ident
  pc_bid :: int

definition prepareCancel ::
  "bid_env \<Rightarrow> (ident \<Rightarrow> ident \<Rightarrow> int \<Rightarrow> relayer_throw + built_tx) \<Rightarrow> ident \<Rightarrow> ident \<Rightarrow> odb
   \<Rightarrow> http_error + prepared_cancel" where
  "prepareCancel env buildCancelBid userId offeringId d =
     bindE (assertCancelable userId offeringId d) (\<lambda>(b, escrowContract, chainBidId, collectorWallet).
     bindE (resolveCancelWallet env userId collectorWallet) (\<lambda>(_, cred).
     bindE (mapE mapCancelRelayerError (buildCancelBid collectorWallet escrowContract chainBidId)) (\<lambda>t.
       Inr \<lparr>pc_built = t, pc_credential = cred, pc_escrow = escrowContract, pc_bid = chainBidId\<rparr>)))"

section \<open>submit\<close>

record assertion =
  as_xdr :: string
  as_authenticator :: string
  as_client_data :: string
  as_signature :: string

record bid_escrow_job =
  bj_bid :: ident
  bj_wallet :: ident
  bj_escrow :: ident
  bj_token :: ident
  bj_price :: string
  bj_count :: string
  bj_max_cost :: string
  bj_idem :: string
  bj_key :: string
  bj_credential :: ident
  bj_assertion :: assertion
  bj_rp :: ident
  bj_origins :: "ident list"

text \<open>The insert transaction, under the offering's advisory lock; a CHECK violation would be a 500.\<close>

definition submit_txn ::
  "bid_env \<Rightarrow> instant \<Rightarrow> ident \<Rightarrow> new_bid \<Rightarrow> odb \<Rightarrow> (http_error + offering_bid) \<times> odb" where
  "submit_txn env now new_id n d =
     (if countActiveForOffering (nb_offering n) (db_bids d) \<ge> be_max_bids env
        then (Inl (FailHttp ''OFFERING_TOO_MANY_BIDS'' 409), d)
      else if \<not> chk_bid_money (submitted_row now new_id n) then (Inl (InternalError ''23514''), d)
      else case insertSubmitted now new_id n (db_bids d) of
        (None, _) \<Rightarrow> (Inl (FailHttp ''BID_ALREADY_ACTIVE'' 409), d)
      | (Some row, t) \<Rightarrow> (Inr row, audit_record \<lparr>ae_kind = ''offering.bid.submitted'', ae_actor = Some (nb_sub n),
            ae_subject = bd_id row\<rparr> (d\<lparr>db_bids := t\<rparr>)))"

text \<open>The region guarded by \<open>fail\<close>. \<open>fresh\<close> is the relayer's \<open>assertBidNotExpired\<close>.\<close>

definition submit_work ::
  "bid_env \<Rightarrow> instant \<Rightarrow> ident \<Rightarrow> (string \<Rightarrow> relayer_throw + unit) \<Rightarrow> ident \<Rightarrow> ident \<Rightarrow> prepare_bid_dto
   \<Rightarrow> assertion \<Rightarrow> string \<Rightarrow> odb \<Rightarrow> (http_error + offering_bid \<times> bid_escrow_job) \<times> odb" where
  "submit_work env now new_id fresh userId offeringId dto a httpKey d =
     (case bindE (assertBiddable env now userId offeringId dto d) (\<lambda>(escrowContract, _).
           bindE (resolveWallet env userId) (\<lambda>(wallet, cred).
           bindE (decodeBoundKey env cred) (\<lambda>key.
           bindE (mapE mapRelayerError (fresh (as_xdr a))) (\<lambda>_. Inr (escrowContract, wallet, cred, key))))) of
        Inl e \<Rightarrow> (Inl e, d)
      | Inr (escrowContract, wallet, cred, key) \<Rightarrow>
          (let idem = deriveOnChainIdemKey env offeringId userId httpKey in
           case run_txn (submit_txn env now new_id \<lparr>nb_offering = offeringId, nb_sub = userId, nb_wallet = wallet,
                   nb_price = BigInt (pb_price dto), nb_count = pb_count dto, nb_idem = idem\<rparr>) d of
             (Inl e, d') \<Rightarrow> (Inl e, d')
           | (Inr row, d') \<Rightarrow> (Inr (row, \<lparr>bj_bid = bd_id row, bj_wallet = wallet, bj_escrow = escrowContract,
                 bj_token = be_usdc env, bj_price = pb_price dto, bj_count = String_of (pb_count dto),
                 bj_max_cost = be_max_cost env, bj_idem = idem, bj_key = key, bj_credential = cr_credential cred,
                 bj_assertion = a, bj_rp = be_rp env, bj_origins = be_origins env\<rparr>), d')))"

definition submit ::
  "bid_env \<Rightarrow> instant \<Rightarrow> instant \<Rightarrow> bool \<Rightarrow> bool \<Rightarrow> (ident \<times> bool) list \<Rightarrow> ident
   \<Rightarrow> (string \<Rightarrow> relayer_throw + unit) \<Rightarrow> ident \<Rightarrow> ident \<Rightarrow> prepare_bid_dto \<Rightarrow> assertion \<Rightarrow> string
   \<Rightarrow> offering_bid redis \<times> odb
   \<Rightarrow> (http_error + offering_bid option) \<times> offering_bid redis \<times> odb \<times> bid_escrow_job list" where
  "submit env now now2 up enq atts new_id fresh userId offeringId dto a httpKey sd =
     (case sd of (s, d) \<Rightarrow>
      let key = ''idem:offering-bid:'' @ userId @ '':'' @ offeringId @ '':'' @ httpKey;
          fp = be_sha env (userId @ ''|'' @ offeringId @ ''|'' @ pb_price dto @ ''|''
                 @ String_of (pb_count dto) @ ''|'' @ as_xdr a)
      in case idem_begin now key fp atts s of
        (Replay b, s') \<Rightarrow> (Inr b, s', d, [])
      | (InFlight, s') \<Rightarrow> (Inl (FailHttp ''IDEMPOTENCY_KEY_IN_FLIGHT'' 409), s', d, [])
      | (Mismatch, s') \<Rightarrow> (Inl (FailHttp ''IDEMPOTENCY_KEY_MISMATCH'' 422), s', d, [])
      | (Proceed token, s') \<Rightarrow>
          (case submit_work env now new_id fresh userId offeringId dto a httpKey d of
             (Inl e, d') \<Rightarrow> (Inl e, idem_fail now2 key token up s', d', [])
           | (Inr (row, j), d') \<Rightarrow> (Inr (Some row), idem_complete now2 key token row up s', d',
                if enq then [j] else [])))"

definition getMyBid :: "ident \<Rightarrow> ident \<Rightarrow> odb \<Rightarrow> offering_bid option" where
  "getMyBid userId offeringId d = findMyLatestBid offeringId userId (db_bids d)"

section \<open>cancel\<close>

record bid_cancel_job =
  cj_bid :: ident
  cj_wallet :: ident
  cj_escrow :: ident
  cj_chain :: int
  cj_key :: string
  cj_credential :: ident
  cj_assertion :: assertion
  cj_rp :: ident
  cj_origins :: "ident list"

definition cancel_txn :: "instant \<Rightarrow> ident \<Rightarrow> ident \<Rightarrow> odb \<Rightarrow> (http_error + unit) \<times> odb" where
  "cancel_txn now userId i d = (case on_bids (casCanceling now i) d of
     (False, d1) \<Rightarrow> (Inl (FailHttp ''BID_NOT_CANCELABLE'' 409), d1)
   | (True, d1) \<Rightarrow> (Inr (), audit_record \<lparr>ae_kind = ''offering.bid.canceling'', ae_actor = Some userId, ae_subject = i\<rparr> d1))"

text \<open>
  The guarded region in two halves, because other requests may run between its reads and its
  transaction: the checks on \<open>d0\<close>, the transaction on \<open>d\<close>.
\<close>

definition cancel_checks ::
  "bid_env \<Rightarrow> (string \<Rightarrow> relayer_throw + unit) \<Rightarrow> ident \<Rightarrow> ident \<Rightarrow> assertion \<Rightarrow> odb
   \<Rightarrow> http_error + offering_bid \<times> bid_cancel_job" where
  "cancel_checks env fresh userId offeringId a d0 =
     bindE (assertCancelable userId offeringId d0) (\<lambda>(b, escrowContract, chainBidId, collectorWallet).
     bindE (resolveCancelWallet env userId collectorWallet) (\<lambda>(_, cred).
     bindE (decodeBoundKey env cred) (\<lambda>key.
     bindE (mapE mapCancelRelayerError (fresh (as_xdr a))) (\<lambda>_.
       Inr (b, \<lparr>cj_bid = bd_id b, cj_wallet = collectorWallet, cj_escrow = escrowContract, cj_chain = chainBidId,
                cj_key = key, cj_credential = cr_credential cred, cj_assertion = a, cj_rp = be_rp env,
                cj_origins = be_origins env\<rparr>)))))"

definition cancel_work ::
  "instant \<Rightarrow> ident \<Rightarrow> (http_error + offering_bid \<times> bid_cancel_job) \<Rightarrow> odb
   \<Rightarrow> (http_error + offering_bid \<times> bid_cancel_job) \<times> odb" where
  "cancel_work now userId checked d = (case checked of
     Inl e \<Rightarrow> (Inl e, d)
   | Inr (b, j) \<Rightarrow> (case run_txn (cancel_txn now userId (bd_id b)) d of
       (Inl e, d') \<Rightarrow> (Inl e, d')
     | (Inr _, d') \<Rightarrow> (Inr (b\<lparr>bd_status := B_canceling\<rparr>, j), d')))"

text \<open>
  A failed enqueue (\<open>\<not> enq\<close>) reverts the row, unless the database refuses that too
  (\<open>\<not> revert_ok\<close>), and releases the key.
\<close>

definition cancel ::
  "bid_env \<Rightarrow> instant \<Rightarrow> instant \<Rightarrow> bool \<Rightarrow> bool \<Rightarrow> bool \<Rightarrow> (ident \<times> bool) list
   \<Rightarrow> (string \<Rightarrow> relayer_throw + unit) \<Rightarrow> ident \<Rightarrow> ident \<Rightarrow> assertion \<Rightarrow> string
   \<Rightarrow> offering_bid redis \<times> odb
   \<Rightarrow> (http_error + offering_bid option) \<times> offering_bid redis \<times> odb \<times> bid_cancel_job list" where
  "cancel env now now2 up enq revert_ok atts fresh userId offeringId a httpKey sd =
     (case sd of (s, d) \<Rightarrow>
      let key = ''idem:offering-bid-cancel:'' @ userId @ '':'' @ offeringId @ '':'' @ httpKey;
          fp = be_sha env (userId @ ''|'' @ offeringId @ ''|'' @ as_xdr a)
      in case idem_begin now key fp atts s of
        (Replay b, s') \<Rightarrow> (Inr b, s', d, [])
      | (InFlight, s') \<Rightarrow> (Inl (FailHttp ''IDEMPOTENCY_KEY_IN_FLIGHT'' 409), s', d, [])
      | (Mismatch, s') \<Rightarrow> (Inl (FailHttp ''IDEMPOTENCY_KEY_MISMATCH'' 422), s', d, [])
      | (Proceed token, s') \<Rightarrow>
          (case cancel_work now userId (cancel_checks env fresh userId offeringId a d) d of
             (Inl e, d') \<Rightarrow> (Inl e, idem_fail now2 key token up s', d', [])
           | (Inr (b, j), d') \<Rightarrow>
               if enq then (Inr (Some b), idem_complete now2 key token b up s', d', [j])
               else (Inl (FailHttp ''BID_UNAVAILABLE'' 503), idem_fail now2 key token up s',
                     if revert_ok then snd (on_bids (casCancelFailedBackToEscrowed now2 (bd_id b)) d') else d', [])))"

section \<open>The workers\<close>

definition to_lower :: "string \<Rightarrow> string" where
  "to_lower = map (\<lambda>c. if 65 \<le> (of_char c :: nat) \<and> (of_char c :: nat) \<le> 90 then char_of (of_char c + 32 :: nat) else c)"

fun isProvablyNoFundsMoved :: "relayer_throw \<Rightarrow> bool \<Rightarrow> bool" where
  "isProvablyNoFundsMoved UntypedError firstAttempt = False"
| "isProvablyNoFundsMoved (RelayerTransferError r) firstAttempt =
     (case r of Signature_required \<Rightarrow> True | Signature_invalid \<Rightarrow> True | Expired \<Rightarrow> True | Transfer_failed \<Rightarrow> True
        | Simulation_failed \<Rightarrow> firstAttempt | Unavailable \<Rightarrow> False)"

text \<open>\<open>isProvablyRefundNotSent\<close> is the same allowlist, written out again in the cancel worker.\<close>

fun isProvablyRefundNotSent :: "relayer_throw \<Rightarrow> bool \<Rightarrow> bool" where
  "isProvablyRefundNotSent UntypedError firstAttempt = False"
| "isProvablyRefundNotSent (RelayerTransferError r) firstAttempt =
     (case r of Signature_required \<Rightarrow> True | Signature_invalid \<Rightarrow> True | Expired \<Rightarrow> True | Transfer_failed \<Rightarrow> True
        | Simulation_failed \<Rightarrow> firstAttempt | Unavailable \<Rightarrow> False)"

definition latch_bid ::
  "(offering_bid list \<Rightarrow> offering_bid list \<times> bool) \<Rightarrow> string \<Rightarrow> ident \<Rightarrow> odb \<Rightarrow> odb" where
  "latch_bid cas kind i d = (case on_bids cas d of
     (False, d1) \<Rightarrow> d1
   | (True, d1) \<Rightarrow> audit_record \<lparr>ae_kind = kind, ae_actor = None, ae_subject = i\<rparr> d1)"

text \<open>
  One run of a job: \<open>res\<close> is the relayer's answer, \<open>made\<close> the attempts made before it, \<open>db_ok\<close>
  whether the transaction that latches the outcome commits (a failure is thrown and retried).
\<close>

definition escrow_process ::
  "nat \<Rightarrow> bool \<Rightarrow> instant \<Rightarrow> (relayer_throw + ident \<times> int \<times> int) \<Rightarrow> ident \<Rightarrow> odb \<Rightarrow> job_outcome \<times> odb" where
  "escrow_process made db_ok now res bidId d =
     (case find_bid bidId (db_bids d) of
        None \<Rightarrow> (JobDone, d)
      | Some b \<Rightarrow>
          if bd_status b \<noteq> B_submitted then (JobDone, d)
          else case res of
            Inl e \<Rightarrow>
              if isProvablyNoFundsMoved e (made = 0)
              then (if db_ok then (JobUnrecoverable, latch_bid (casFailed now (bd_id b)) ''offering.bid.escrow_failed'' (bd_id b) d)
                    else (JobRetry, d))
              else (JobRetry, d)
          | Inr (h, ledger, chainBidId) \<Rightarrow>
              if db_ok then (JobDone, latch_bid (casEscrowed now (bd_id b) chainBidId (to_lower h))
                ''offering.bid.escrowed'' (bd_id b) d)
              else (JobRetry, d))"

definition cancel_process ::
  "nat \<Rightarrow> bool \<Rightarrow> instant \<Rightarrow> (relayer_throw + ident \<times> int) \<Rightarrow> ident \<Rightarrow> odb \<Rightarrow> job_outcome \<times> odb" where
  "cancel_process made db_ok now res bidId d =
     (case find_bid bidId (db_bids d) of
        None \<Rightarrow> (JobDone, d)
      | Some b \<Rightarrow>
          if bd_status b \<noteq> B_canceling then (JobDone, d)
          else case res of
            Inl e \<Rightarrow>
              if isProvablyRefundNotSent e (made = 0)
              then (if db_ok then (JobUnrecoverable, latch_bid (casCancelFailedBackToEscrowed now (bd_id b))
                      ''offering.bid.cancel_failed'' (bd_id b) d)
                    else (JobRetry, d))
              else (JobRetry, d)
          | Inr (h, ledger) \<Rightarrow>
              if db_ok then (JobDone, latch_bid (casCanceled now (bd_id b) (to_lower h)) ''offering.bid.canceled'' (bd_id b) d)
              else (JobRetry, d))"

end
