(* ===== verification/Bid_Jobs.thy ===== *)
theory Bid_Jobs
  imports Bids
begin

text \<open>
  The runs of the two bid workers against the relayer: a job is retried with the same signed
  transaction until it ends, and what it latches in the database is compared with whether that
  transaction was applied. The locale \<open>relay_job\<close> is the shape both workers share; its one
  theorem is proved once and interpreted for each.
\<close>

section \<open>A job and its attempts\<close>

text \<open>
  \<open>relay_run proc pending submit cfg v s0 as landed out s\<close>: after the attempts \<open>as\<close> the job ended
  with \<open>out\<close> in state \<open>s\<close>, and \<open>landed\<close> is whether the signed transaction was applied. The
  verifier's answer \<open>v\<close> is a function of the job's payload and the same for every attempt; BullMQ's
  \<open>attemptsMade\<close> is the number of attempts before the current one.
\<close>

inductive relay_run ::
  "(nat \<Rightarrow> bool \<Rightarrow> instant \<Rightarrow> relayer_throw + 'r \<Rightarrow> 's \<Rightarrow> job_outcome \<times> 's) \<Rightarrow> ('s \<Rightarrow> bool)
   \<Rightarrow> (relayer_config \<Rightarrow> attempt \<Rightarrow> (relayer_throw + 'r) option) \<Rightarrow> relayer_config \<Rightarrow> relayer_throw + int \<Rightarrow> 's
   \<Rightarrow> attempt list \<Rightarrow> bool \<Rightarrow> job_outcome \<Rightarrow> 's \<Rightarrow> bool"
  for proc pending submit cfg v s0 where
  start: "relay_run proc pending submit cfg v s0 [] False JobRetry s0"
| attempt: "relay_run proc pending submit cfg v s0 as landed JobRetry s \<Longrightarrow> pending s \<Longrightarrow> at_verify a = v
     \<Longrightarrow> honest_network cfg landed a \<Longrightarrow> submit cfg a = Some res
     \<Longrightarrow> proc (length as) db_ok now res s = (out, s')
     \<Longrightarrow> relay_run proc pending submit cfg v s0 (as @ [a]) (landed \<or> at_lands a) out s'"

text \<open>The errors a worker may treat as final.\<close>

definition provable :: "relayer_throw \<Rightarrow> bool \<Rightarrow> bool" where
  "provable e firstAttempt \<longleftrightarrow> e \<in> RelayerTransferError ` {Signature_required, Signature_invalid, Expired, Transfer_failed}
     \<or> e = RelayerTransferError Simulation_failed \<and> firstAttempt"

lemma allowlists:
  "isProvablyNoFundsMoved e f = provable e f" "isProvablyRefundNotSent e f = provable e f"
  by (cases e; auto simp: provable_def split: transfer_reason.splits)+

locale relay_job = relay_submit submit
  for submit :: "relayer_config \<Rightarrow> attempt \<Rightarrow> (relayer_throw + 'r) option" +
  fixes proc :: "nat \<Rightarrow> bool \<Rightarrow> instant \<Rightarrow> relayer_throw + 'r \<Rightarrow> 's \<Rightarrow> job_outcome \<times> 's"
    and pending reverted latched :: "'s \<Rightarrow> bool"
  assumes proc_ok: "pending s \<Longrightarrow> proc n ok now (Inr r) s = (out, s')
      \<Longrightarrow> out = JobDone \<and> latched s' \<or> out = JobRetry \<and> s' = s"
    and proc_err: "pending s \<Longrightarrow> proc n ok now (Inl e) s = (out, s')
      \<Longrightarrow> provable e (n = 0) \<and> out = JobUnrecoverable \<and> reverted s' \<or> out = JobRetry \<and> s' = s"
    and disjoint: "pending s \<Longrightarrow> \<not> reverted s \<and> \<not> latched s" "reverted s \<Longrightarrow> \<not> latched s"
begin

text \<open>
  Within the validity of the signature a job never ends against the chain: a reverted row means
  the transaction was not applied, a latched one that it was.
\<close>

lemma run_sound:
  assumes "relay_run proc pending submit cfg v s0 as landed out s" "pending s0"
    "\<forall>a \<in> set as. within_validity a"
  shows "(as = [] \<longrightarrow> \<not> landed) \<and> (\<forall>e. v = Inl e \<longrightarrow> \<not> landed)
    \<and> (case out of JobRetry \<Rightarrow> pending s | JobUnrecoverable \<Rightarrow> reverted s \<and> \<not> landed | JobDone \<Rightarrow> latched s \<and> landed)"
  using assms(1,3)
proof (induction rule: relay_run.induct)
  case start
  then show ?case using assms(2) by simp
next
  case (attempt as landed s a res db_ok now out s')
  have IH: "as = [] \<longrightarrow> \<not> landed" "\<forall>e. v = Inl e \<longrightarrow> \<not> landed" using attempt.IH attempt.prems by simp_all
  have valid: "within_validity a" using attempt.prems by simp
  have v: "\<not> landed" "\<not> at_lands a" if "at_verify a = Inl e" for e
    using that IH(2) attempt.hyps(3,4) unverified_not_landed by auto
  have snd: "sound_outcome landed a res" using sound [OF attempt.hyps(4,5)] .
  have "case out of JobRetry \<Rightarrow> pending s' | JobUnrecoverable \<Rightarrow> reverted s' \<and> \<not> (landed \<or> at_lands a)
      | JobDone \<Rightarrow> latched s' \<and> (landed \<or> at_lands a)"
  proof (cases res)
    case (Inr r)
    with snd proc_ok [OF attempt.hyps(2) attempt.hyps(6) [unfolded Inr]] attempt.hyps(2)
    show ?thesis by (auto simp: sound_outcome_def)
  next
    case (Inl e)
    from proc_err [OF attempt.hyps(2) attempt.hyps(6) [unfolded Inl]] consider
      (final) "provable e (as = [])" "out = JobUnrecoverable" "reverted s'" | (again) "out = JobRetry" "s' = s"
      by auto
    then show ?thesis
    proof cases
      case final
      have "\<not> landed \<and> \<not> at_lands a"
      proof (cases "e = RelayerTransferError Simulation_failed")
        case True
        with final(1) IH(1) snd Inl show ?thesis by (auto simp: provable_def sound_outcome_def)
      next
        case False
        with final(1) obtain r where "e = RelayerTransferError r"
          "r \<in> {Signature_required, Signature_invalid, Expired, Transfer_failed}" by (auto simp: provable_def)
        with provable_not_landed [OF attempt.hyps(4) _ _ valid v(1), of r] attempt.hyps(5) Inl show ?thesis by auto
      qed
      with final show ?thesis by simp
    qed (use attempt.hyps(2) in simp)
  qed
  moreover have "\<forall>e. v = Inl e \<longrightarrow> \<not> (landed \<or> at_lands a)" using v attempt.hyps(3) by auto
  ultimately show ?case by simp
qed

end

section \<open>The two workers\<close>

definition bid_is :: "bid_status \<Rightarrow> ident \<Rightarrow> odb \<Rightarrow> bool" where
  "bid_is st i d \<longleftrightarrow> (\<exists>b. find_bid i (db_bids d) = Some b \<and> bd_status b = st)"

lemma bid_is_unique: "bid_is s i d \<Longrightarrow> bid_is t i d \<Longrightarrow> s = t"
  by (auto simp: bid_is_def)

lemma find_bid_map:
  assumes "find_bid i t = Some b" "bd_status b = st"
    "\<And>c. bd_id (f c) = bd_id c" "\<And>c. bd_deleted (f c) = bd_deleted c"
  shows "find_bid i (map (\<lambda>c. if bd_id c = i \<and> bd_status c = st then f c else c) t) = Some (f b)"
  using assms(1,2) by (induction t) (auto simp: find_bid_def sql_find_def assms(3,4) split: if_splits)

lemma find_bid_Some: "find_bid i t = Some b \<Longrightarrow> b \<in> set t \<and> bd_id b = i \<and> bd_deleted b = None"
  unfolding find_bid_def by (drule sql_find_Some) simp

lemma latch_bid_bids: "db_bids (latch_bid cas kind i d) = fst (cas (db_bids d))"
proof (cases "cas (db_bids d)")
  case (Pair t ok)
  then show ?thesis by (cases ok) (simp_all add: latch_bid_def on_bids_def)
qed

lemma latch_moves:
  assumes "find_bid i (db_bids d) = Some b" "bd_status b = st"
    "fst (cas (db_bids d)) = map (\<lambda>c. if bd_id c = i \<and> bd_status c = st then f c else c) (db_bids d)"
    "\<And>c. bd_id (f c) = bd_id c" "\<And>c. bd_deleted (f c) = bd_deleted c" "bd_status (f b) = st'"
  shows "bid_is st' i (latch_bid cas kind i d)"
  using find_bid_map [OF assms(1,2), of f] assms(3-6) by (auto simp: bid_is_def latch_bid_bids)

interpretation escrow_job: relay_job submitSignedBid "\<lambda>n ok now res. escrow_process n ok now res i"
  "bid_is B_submitted i" "bid_is B_failed i" "bid_is B_escrowed i" for i
proof
  fix s :: odb and n ok now r out s'
  assume p: "bid_is B_submitted i s" and r: "escrow_process n ok now (Inr r) i s = (out, s')"
  obtain b where b: "find_bid i (db_bids s) = Some b" "bd_status b = B_submitted" using p by (auto simp: bid_is_def)
  have "bid_is B_escrowed i (latch_bid (casEscrowed now i c h) k i s)" for c h k
    by (rule latch_moves [OF b, where f = "\<lambda>b. b\<lparr>bd_status := B_escrowed, bd_chain := Some c,
        bd_escrow_tx := Some h, bd_updated := now\<rparr>"], rule escrowed.rows) simp_all
  with b r find_bid_Some [OF b(1)] show "out = JobDone \<and> bid_is B_escrowed i s' \<or> out = JobRetry \<and> s' = s"
    by (cases r) (auto simp: escrow_process_def split: if_splits)
next
  fix s :: odb and n ok now e out s'
  assume p: "bid_is B_submitted i s" and r: "escrow_process n ok now (Inl e) i s = (out, s')"
  obtain b where b: "find_bid i (db_bids s) = Some b" "bd_status b = B_submitted" using p by (auto simp: bid_is_def)
  have "bid_is B_failed i (latch_bid (casFailed now i) k i s)" for k
    by (rule latch_moves [OF b, where f = "\<lambda>b. b\<lparr>bd_status := B_failed, bd_updated := now\<rparr>"],
        rule failed.rows) simp_all
  with b r find_bid_Some [OF b(1)] show
    "provable e (n = 0) \<and> out = JobUnrecoverable \<and> bid_is B_failed i s' \<or> out = JobRetry \<and> s' = s"
    by (auto simp: escrow_process_def allowlists split: if_splits)
qed (auto dest: bid_is_unique)

interpretation cancel_job: relay_job submitSignedCancelBid "\<lambda>n ok now res. cancel_process n ok now res i"
  "bid_is B_canceling i" "bid_is B_escrowed i" "bid_is B_canceled i" for i
proof
  fix s :: odb and n ok now r out s'
  assume p: "bid_is B_canceling i s" and r: "cancel_process n ok now (Inr r) i s = (out, s')"
  obtain b where b: "find_bid i (db_bids s) = Some b" "bd_status b = B_canceling" using p by (auto simp: bid_is_def)
  have "bid_is B_canceled i (latch_bid (casCanceled now i h) k i s)" for h k
    by (rule latch_moves [OF b, where f = "\<lambda>b. b\<lparr>bd_status := B_canceled, bd_refund_tx := Some h,
        bd_canceled_at := Some now, bd_updated := now\<rparr>"], rule canceled.rows) simp_all
  with b r find_bid_Some [OF b(1)] show "out = JobDone \<and> bid_is B_canceled i s' \<or> out = JobRetry \<and> s' = s"
    by (cases r) (auto simp: cancel_process_def split: if_splits)
next
  fix s :: odb and n ok now e out s'
  assume p: "bid_is B_canceling i s" and r: "cancel_process n ok now (Inl e) i s = (out, s')"
  obtain b where b: "find_bid i (db_bids s) = Some b" "bd_status b = B_canceling" using p by (auto simp: bid_is_def)
  have "bid_is B_escrowed i (latch_bid (casCancelFailedBackToEscrowed now i) k i s)" for k
    by (rule latch_moves [OF b, where f = "\<lambda>b. b\<lparr>bd_status := B_escrowed, bd_updated := now\<rparr>"],
        rule cancel_reverted.rows) simp_all
  with b r find_bid_Some [OF b(1)] show
    "provable e (n = 0) \<and> out = JobUnrecoverable \<and> bid_is B_escrowed i s' \<or> out = JobRetry \<and> s' = s"
    by (auto simp: cancel_process_def allowlists split: if_splits)
qed (auto dest: bid_is_unique)

end
