(* ===== verification/Offering_Plan_Props.thy ===== *)
theory Offering_Plan_Props
  imports Offering_Plan
begin

text \<open>
  Properties of the planning, approval and deploy handlers: what a plan request creates, the
  quorum and its single claim, and what the deploy worker attests before it calls the chain.
\<close>

section \<open>Planning\<close>

lemma assertBandValid_Inr:
  "assertBandValid lo hi = Inr b \<longleftrightarrow> b = (BigInt lo, BigInt hi) \<and> 0 < BigInt lo \<and> BigInt lo < BigInt hi
     \<and> BigInt hi \<le> MAX_STROOPS"
  by (auto simp: assertBandValid_def Let_def)

text \<open>CHECKs of \<open>fraction_contracts\<close> (migration 028) that planning relies on.\<close>

definition chk_contract :: "fraction_contract \<Rightarrow> bool" where
  "chk_contract f \<longleftrightarrow> 0 < fc_supply f \<and> fc_supply f \<le> MAX_STROOPS
     \<and> (case fc_artist_retention f of None \<Rightarrow> True | Some a \<Rightarrow> 0 \<le> a)
     \<and> (case fc_treasury_retention f of None \<Rightarrow> True | Some t \<Rightarrow> 0 \<le> t)"

lemma planned_row_wf:
  assumes "resolveOfferableFloat (Some f) = Inr b" "chk_contract f"
    "assertBandValid (cd_low dto) (cd_high dto) = Inr x" "opn < cls"
  shows "offering_wf (planned_row now i sub dto b opn cls)"
  using resolveOfferableFloat_InrD [OF assms(1)] assms(2,3,4)
  by (auto simp: planned_row_def offering_wf_def chk_offering_def chk_contract_def assertBandValid_Inr)

lemma planned_row_sel [simp]:
  "of_id (planned_row now i sub dto b opn cls) = i"
  "of_artwork (planned_row now i sub dto b opn cls) = cd_artwork dto"
  "of_status (planned_row now i sub dto b opn cls) = O_planned"
  "of_float (planned_row now i sub dto b opn cls) = ob_float b"
  by (simp_all add: planned_row_def)

lemma findActiveContract_Some:
  "findActiveContract a d = Some f \<Longrightarrow> f \<in> set (db_contracts d) \<and> fc_artwork f = a"
  unfolding findActiveContract_def by (drule sql_find_Some) simp

lemma no_active_find:
  "\<not> list_ex (\<lambda>r. active_offering r \<and> of_artwork r = a) t \<Longrightarrow> findActiveByArtworkId a t = None"
  by (auto simp: findActiveByArtworkId_def sql_find_None list_ex_iff active_offering_def)

text \<open>
  Planning an offering. With a valid band and window, a plan request either fails with one of
  its four business errors and changes nothing, or inserts exactly one planned offering whose
  float is supply minus retentions and positive, and audits it; the table keeps its constraints,
  at most one active offering per artwork included, and a 500 is impossible.
\<close>

lemma create_plans_offering:
  assumes "offerings_inv (db_offerings d)" "new_id \<notin> of_id ` set (db_offerings d)"
    "\<forall>f \<in> set (db_contracts d). chk_contract f"
    "assertBandValid (cd_low dto) (cd_high dto) = Inr x" "opn < cls"
  shows "case create_work now new_id sub dto opn cls d of
      (Inr row, d') \<Rightarrow> db_offerings d' = db_offerings d @ [row] \<and> offerings_inv (db_offerings d')
        \<and> of_status row = O_planned \<and> of_artwork row = cd_artwork dto \<and> 0 < of_float row
        \<and> of_float row = of_supply row - of_artist_retention row - of_treasury_retention row
        \<and> db_audit d' = db_audit d @ [\<lparr>ae_kind = ''offering.planned'', ae_actor = Some sub, ae_subject = new_id\<rparr>]
    | (Inl e, d') \<Rightarrow> d' = d \<and> e \<in> {FailHttp ''ARTWORK_NOT_FOUND'' 404,
        FailHttp ''OFFERING_ARTWORK_NOT_FRACTIONALIZED'' 409, FailHttp ''OFFERING_NO_FLOAT'' 422,
        FailHttp ''OFFERING_ALREADY_ACTIVE'' 409}"
proof (cases "cd_artwork dto \<in> set (db_artworks d)")
  case False
  then show ?thesis by (simp add: create_work_def)
next
  case art: True
  show ?thesis
  proof (cases "resolveOfferableFloat (findActiveContract (cd_artwork dto) d)")
    case (Inl e)
    then have "e \<in> {FailHttp ''OFFERING_ARTWORK_NOT_FRACTIONALIZED'' 409, FailHttp ''OFFERING_NO_FLOAT'' 422}"
      by (auto simp: resolveOfferableFloat_def Let_def split: option.splits if_splits)
    with Inl art show ?thesis by (auto simp: create_work_def)
  next
    case (Inr b)
    from resolveOfferableFloat_InrD [OF Inr] obtain f where
      f: "findActiveContract (cd_artwork dto) d = Some f" by blast
    let ?row = "planned_row now new_id sub dto b opn cls"
    have "chk_contract f" using findActiveContract_Some [OF f] assms(3) by blast
    then have wf: "offering_wf ?row"
      by (intro planned_row_wf [of f, OF _ _ assms(4,5)]) (use Inr f in simp_all)
    then have chk: "chk_offering ?row" by (simp add: offering_wf_def)
    show ?thesis
    proof (cases "list_ex (\<lambda>r. active_offering r \<and> of_artwork r = cd_artwork dto) (db_offerings d)")
      case True
      then show ?thesis using art Inr chk by (simp add: create_work_def run_txn_def save_planned_def)
    next
      case False
      have "offerings_inv (db_offerings d @ [?row])"
        using assms(1,2) wf no_active_find [OF False] by (intro offerings_inv_plan) simp_all
      moreover have "0 < of_float ?row
          \<and> of_float ?row = of_supply ?row - of_artist_retention ?row - of_treasury_retention ?row"
        using chk by (simp add: chk_offering_def)
      ultimately show ?thesis
        using art Inr chk False by (simp add: create_work_def run_txn_def save_planned_def)
    qed
  qed
qed

section \<open>Approval\<close>

definition live_approval :: "offering_approval \<Rightarrow> bool" where
  "live_approval a \<longleftrightarrow> ap_deleted a = None"

text \<open>\<open>UQ_offering_approvals_signer\<close>: one live signature per offering and admin.\<close>

definition approvals_inv :: "offering_approval list \<Rightarrow> bool" where
  "approvals_inv t \<longleftrightarrow> distinct (map (\<lambda>a. (ap_offering a, ap_admin a)) (filter live_approval t))"

definition live_signers :: "ident \<Rightarrow> ident list \<Rightarrow> offering_approval list \<Rightarrow> ident set" where
  "live_signers off roster t = {s \<in> set roster. \<exists>a \<in> set t. live_approval a \<and> ap_offering a = off \<and> ap_admin a = s}"

lemma approvals_inv_insert: "approvals_inv t \<Longrightarrow> approvals_inv (insertSignature now off s t)"
  by (auto simp: approvals_inv_def insertSignature_def live_approval_def list_ex_iff)

lemma countLiveSigners_card:
  assumes "approvals_inv t"
  shows "countLiveSigners off roster t = card (live_signers off roster t)"
proof -
  let ?L = "filter (\<lambda>a. ap_offering a = off \<and> ap_admin a \<in> set roster \<and> ap_deleted a = None) t"
  have "?L = filter (\<lambda>a. ap_offering a = off \<and> ap_admin a \<in> set roster) (filter live_approval t)"
    unfolding filter_filter live_approval_def by (rule filter_cong) auto
  then have "distinct (map (\<lambda>a. (ap_offering a, ap_admin a)) ?L)"
    using distinct_map_filter [OF assms [unfolded approvals_inv_def]] by metis
  moreover have "map (\<lambda>a. (ap_offering a, ap_admin a)) ?L = map (Pair off) (map ap_admin ?L)"
    by (simp add: comp_def)
  ultimately have "distinct (map (Pair off) (map ap_admin ?L))" by (rule subst [rotated])
  then have "distinct (map ap_admin ?L)" by (rule conjunct1 [OF iffD1 [OF distinct_map]])
  then have "length (map ap_admin ?L) = card (set (map ap_admin ?L))" by (rule distinct_card [symmetric])
  moreover have "set (map ap_admin ?L) = live_signers off roster t"
    by (auto simp: live_signers_def live_approval_def)
  ultimately show ?thesis by (simp add: countLiveSigners_def sql_count_def)
qed

lemma find_offering_Some:
  "find_offering i t = Some r \<Longrightarrow> r \<in> set t \<and> of_id r = i \<and> of_deleted r = None"
  unfolding find_offering_def by (drule sql_find_Some) simp

lemma signer_counted:
  "s \<in> set roster \<Longrightarrow> s \<in> live_signers off roster (insertSignature now off s t)"
  by (auto simp: live_signers_def insertSignature_def live_approval_def list_ex_iff)

lemma find_offering_unique:
  "distinct (map of_id t) \<Longrightarrow> r \<in> set t \<Longrightarrow> of_deleted r = None \<Longrightarrow> find_offering (of_id r) t = Some r"
  by (induction t) (auto simp: find_offering_def sql_find_def)

lemma setSnapshotArtistAddress_rows:
  "setSnapshotArtistAddress now i a t
     = map (\<lambda>r. if of_id r = i then r\<lparr>of_snapshot_artist := Some a, of_updated := now\<rparr> else r) t"
  by (simp add: setSnapshotArtistAddress_def sql_update_def)

text \<open>The two branches of the snapshot freeze, as one update of the offerings.\<close>

definition frozen_offerings :: "instant \<Rightarrow> offering \<Rightarrow> odb \<Rightarrow> offering list option" where
  "frozen_offerings now off d =
     (if of_snapshot_artist off \<noteq> None then Some (db_offerings d)
      else map_option (\<lambda>fc. setSnapshotArtistAddress now (of_id off) (fc_artist_address fc) (db_offerings d))
        (find_contract (of_contract off) d))"

lemma frozen_offerings_row:
  assumes "frozen_offerings now off d = Some t" "off \<in> set (db_offerings d)"
  shows "map of_id t = map of_id (db_offerings d)
    \<and> (\<exists>r \<in> set t. of_id r = of_id off \<and> of_status r = of_status off \<and> of_deploy r = of_deploy off
         \<and> of_deleted r = of_deleted off \<and> of_snapshot_artist r \<noteq> None)"
proof (cases "of_snapshot_artist off = None")
  case True
  with assms(1) obtain fc where "find_contract (of_contract off) d = Some fc" and t: "t = setSnapshotArtistAddress now (of_id off) (fc_artist_address fc) (db_offerings d)"
    by (auto simp: frozen_offerings_def)
  have "off\<lparr>of_snapshot_artist := Some (fc_artist_address fc), of_updated := now\<rparr> \<in> set t"
    using assms(2) by (force simp: t setSnapshotArtistAddress_rows)
  then have "\<exists>r \<in> set t. of_id r = of_id off \<and> of_status r = of_status off \<and> of_deploy r = of_deploy off
         \<and> of_deleted r = of_deleted off \<and> of_snapshot_artist r \<noteq> None" by (rule rev_bexI) simp
  moreover have "map of_id t = map of_id (db_offerings d)" by (auto simp: t setSnapshotArtistAddress_rows)
  ultimately show ?thesis by blast
next
  case False
  with assms show ?thesis by (auto simp: frozen_offerings_def)
qed

lemma approve_txn_Inr:
  assumes "approve_txn cfg now i sub d = (Inr (cnt, claimed), d')"
  obtains off t where "find_offering i (db_offerings d) = Some off" "of_status off = O_planned"
    "of_deploy off = None \<or> of_deploy off = Some D_failed"
    "frozen_offerings now off d = Some t"
    "db_approvals d' = insertSignature now i sub (db_approvals d)"
    "cnt = countLiveSigners i (cfg_signers cfg) (db_approvals d')"
    "claimed = (cfg_threshold cfg \<le> cnt \<and> snd (casEscrowDeploying now i t))"
    "db_offerings d' = (if cfg_threshold cfg \<le> cnt then fst (casEscrowDeploying now i t) else t)"
proof -
  obtain off where off: "find_offering i (db_offerings d) = Some off"
    using assms by (auto simp: approve_txn_def split: option.splits)
  have i: "of_id off = i" using find_offering_Some [OF off] by simp
  have ns: "of_status off = O_planned" "\<not> (of_deploy off = Some D_deploying \<or> of_deploy off = Some D_deployed)"
    using assms off by (auto simp: approve_txn_def split: if_splits)
  then have dep: "of_deploy off = None \<or> of_deploy off = Some D_failed"
    by (metis escrow_deploy_status.exhaust not_None_eq)
  obtain t where t: "frozen_offerings now off d = Some t"
    using assms off ns
    by (auto simp: approve_txn_def frozen_offerings_def Let_def split: option.splits if_splits)
  show ?thesis
    by (rule that [OF off ns(1) dep t])
      (use assms off ns t i in \<open>auto simp: approve_txn_def frozen_offerings_def Let_def on_offerings_def
        audit_record_def split: option.splits if_splits prod.splits\<close>)
qed

end
