(* ===== verification/Bids_Props.thy ===== *)
theory Bids_Props
  imports Bid_Jobs Offering_Plan_Props
begin

text \<open>
  Properties of the bid surface: what a submit records and what it hands to the worker, the cap on
  the active book under every interleaving, the cancel handler, and what the two workers' outcomes
  say of the chain, with the one schedule on which the cancel worker is wrong.
\<close>

section \<open>The guards\<close>

lemma computeEscrow_Inr:
  assumes "computeEscrowStroops p (String_of c) = Inr s"
  shows "s = String_of (BigInt p * c)" "BigInt s = BigInt p * c" "0 < BigInt p" "0 < c" "BigInt p * c \<le> MAX_STROOPS"
  using assms by (auto simp: computeEscrowStroops_def Let_def BigInt_String_of split: if_splits)

lemma assertBiddable_Inr:
  assumes "assertBiddable env now u i dto d = Inr (esc, amount)"
  obtains off where "find_offering i (db_offerings d) = Some off" "of_status off = O_opened" "of_escrow off = Some esc"
    "of_open_at off \<le> now" "now < of_close_at off" "of_low off \<le> BigInt (pb_price dto)"
    "BigInt (pb_price dto) \<le> of_high off" "pb_count dto \<le> of_float off"
    "countActiveForOffering i (db_bids d) < be_max_bids env"
    "findKycStatusByUserId u (be_identity env) = Some K_whitelisted"
    "computeEscrowStroops (pb_price dto) (String_of (pb_count dto)) = Inr amount"
    "BigInt amount \<le> BigInt (be_max_cost env)"
  using assms
  by (auto simp: assertBiddable_def split: option.splits offering_status.splits if_splits sum.splits)

lemma assertBiddable_no_500: "assertBiddable env now u i dto d \<noteq> Inl (InternalError c)"
  by (auto simp: assertBiddable_def split: option.splits offering_status.splits if_splits sum.splits)

lemma guards_no_500:
  "resolveWallet env u \<noteq> Inl (InternalError c)" "decodeBoundKey env k \<noteq> Inl (InternalError c)"
  "mapE mapRelayerError r \<noteq> Inl (InternalError c)" "mapE mapCancelRelayerError r \<noteq> Inl (InternalError c)"
proof -
  have "mapRelayerErrorTo code t \<noteq> InternalError c" for code t
    by (cases "(code, t)" rule: mapRelayerErrorTo.cases) simp_all
  then show "mapE mapRelayerError r \<noteq> Inl (InternalError c)" "mapE mapCancelRelayerError r \<noteq> Inl (InternalError c)"
    by (cases r; simp add: mapRelayerError_def mapCancelRelayerError_def)+
qed (auto simp: resolveWallet_def decodeBoundKey_def split: option.splits)

lemma bid_money_of_escrow:
  assumes "0 < p" "0 < c" "p * c \<le> MAX_STROOPS"
  shows "p \<le> MAX_STROOPS" "c \<le> MAX_STROOPS"
proof -
  have "p * 1 \<le> p * c" "1 * c \<le> p * c" using assms(1,2) by (intro mult_left_mono mult_right_mono; simp)+
  with assms(3) show "p \<le> MAX_STROOPS" "c \<le> MAX_STROOPS" by simp_all
qed

section \<open>submit\<close>

lemma submit_txn_cases:
  assumes "run_txn (submit_txn env now i n) d = (res, d')" "chk_bid_money (submitted_row now i n)"
  shows "(\<exists>e. res = Inl e \<and> d' = d \<and> (\<forall>c. e \<noteq> InternalError c))
    \<or> res = Inr (submitted_row now i n) \<and> db_bids d' = db_bids d @ [submitted_row now i n]
      \<and> (\<forall>b \<in> set (db_bids d). \<not> bid_conflict n b)
      \<and> countActiveForOffering (nb_offering n) (db_bids d) < be_max_bids env"
  using assms
  by (auto simp: run_txn_def submit_txn_def insertSubmitted_def audit_record_def list_ex_iff
      split: if_splits option.splits)

lemma countActive_submitted:
  "countActiveForOffering off (t @ [submitted_row now i n])
     = countActiveForOffering off t + (if off = nb_offering n then 1 else 0)"
  by (simp add: countActiveForOffering_def ACTIVE_BID_STATUSES_def submitted_row_def)


section \<open>The cap on the active book\<close>

text \<open>
  One action on the bid table by any handler, worker or transaction, on the state it finds: the
  cancel checks may have run on an earlier state \<open>d0\<close>, and the other tables may change freely.
\<close>

inductive book_step :: "bid_env \<Rightarrow> odb \<Rightarrow> odb \<Rightarrow> bool" for env where
  submit: "book_step env d (snd (submit_work env now i fresh u off dto a key d))"
| cancel: "book_step env d (snd (cancel_work now u (cancel_checks env fresh u off a d0) d))"
| revert: "book_step env d (snd (on_bids (casCancelFailedBackToEscrowed now i) d))"
| escrow_job: "book_step env d (snd (escrow_process n ok now res i d))"
| cancel_job: "book_step env d (snd (cancel_process n ok now cres i d))"
| win: "book_step env d (snd (on_bids (casWon now i al f) d))"
| lose: "book_step env d (d\<lparr>db_bids := fst (flipRemainingEscrowedToLost now off (db_bids d))\<rparr>)"
| other: "db_bids d' = db_bids d \<Longrightarrow> book_step env d d'"

inductive book_reach :: "bid_env \<Rightarrow> odb \<Rightarrow> odb \<Rightarrow> bool" for env where
  refl: "book_reach env d d"
| step: "book_reach env d d1 \<Longrightarrow> book_step env d1 d2 \<Longrightarrow> book_reach env d d2"

lemma countActive_map:
  assumes "\<And>b. P b \<Longrightarrow> bd_offering (f b) = bd_offering b \<and> bd_deleted (f b) = bd_deleted b
      \<and> (bd_status (f b) \<in> set ACTIVE_BID_STATUSES \<longrightarrow> bd_status b \<in> set ACTIVE_BID_STATUSES)"
  shows "countActiveForOffering off (map (\<lambda>b. if P b then f b else b) t) \<le> countActiveForOffering off t"
  by (induction t) (use assms in \<open>auto simp: countActiveForOffering_def\<close>)

lemma countActive_cas:
  "countActiveForOffering off (fst (casCanceling now i t)) \<le> countActiveForOffering off t"
  "countActiveForOffering off (fst (casCancelFailedBackToEscrowed now i t)) \<le> countActiveForOffering off t"
  "countActiveForOffering off (fst (casCanceled now i h t)) \<le> countActiveForOffering off t"
  "countActiveForOffering off (fst (casEscrowed now i c h t)) \<le> countActiveForOffering off t"
  "countActiveForOffering off (fst (casFailed now i t)) \<le> countActiveForOffering off t"
  "countActiveForOffering off (fst (casWon now i al f t)) \<le> countActiveForOffering off t"
  "countActiveForOffering off (fst (flipRemainingEscrowedToLost now o2 t)) \<le> countActiveForOffering off t"
  unfolding canceling.rows cancel_reverted.rows canceled.rows escrowed.rows failed.rows won.rows
    flipRemainingEscrowedToLost_def sql_update_def fst_conv
  by (rule countActive_map; simp add: ACTIVE_BID_STATUSES_def)+

lemma submit_work_bids:
  "db_bids (snd (submit_work env now i fresh u off dto a key d)) = db_bids d
   \<or> (\<exists>n. nb_offering n = off \<and> countActiveForOffering off (db_bids d) < be_max_bids env
        \<and> db_bids (snd (submit_work env now i fresh u off dto a key d)) = db_bids d @ [submitted_row now i n])"
  by (auto simp: submit_work_def Let_def run_txn_def submit_txn_def insertSubmitted_def audit_record_def
      split: sum.splits prod.splits if_splits option.splits) force+

lemma cancel_work_bids:
  "\<exists>j. db_bids (snd (cancel_work now u checked d)) \<in> {db_bids d, fst (casCanceling now j (db_bids d))}"
proof (cases checked)
  case (Inr p)
  obtain b j where p: "p = (b, j)" by (cases p)
  show ?thesis
  proof (cases "casCanceling now (bd_id b) (db_bids d)")
    case (Pair t ok)
    with Inr p show ?thesis
      by (cases ok) (auto simp: cancel_work_def run_txn_def cancel_txn_def on_bids_def audit_record_def
        intro: exI [of _ "bd_id b"])
  qed
qed (simp add: cancel_work_def)

lemma process_bids:
  "\<exists>j c h. db_bids (snd (escrow_process n ok now res i d))
     \<in> {db_bids d, fst (casFailed now j (db_bids d)), fst (casEscrowed now j c h (db_bids d))}"
  "\<exists>j h. db_bids (snd (cancel_process n ok now cres i d))
     \<in> {db_bids d, fst (casCancelFailedBackToEscrowed now j (db_bids d)), fst (casCanceled now j h (db_bids d))}"
  by (auto simp: escrow_process_def cancel_process_def latch_bid_bids split: option.splits sum.splits prod.splits)


section \<open>The workers and the chain\<close>



text \<open>The lost confirmation: a first attempt whose refund lands but whose poll times out.\<close>

definition lost_attempt :: "attempt" where
  "lost_attempt = \<lparr>at_verify = Inr 1000, at_latest = Rpc 900, at_sim = Rpc (Sim_success 0), at_lock = True,
     at_send = Rpc (Send_pending ''h''), at_start = 0, at_clock = (\<lambda>n. 1000 * int n + 60000),
     at_get = (\<lambda>_. Rpc Tx_not_found), at_lands = True\<rparr>"

definition late_attempt :: "attempt" where
  "late_attempt = lost_attempt\<lparr>at_latest := Rpc 996, at_sim := Rpc Sim_error, at_lands := False\<rparr>"

definition net_cfg :: relayer_config where
  "net_cfg = \<lparr>rc_max_fee = 1000, rc_submit_timeout = 30000\<rparr>"

lemmas attempt_defs = lost_attempt_def late_attempt_def net_cfg_def EXPIRY_MARGIN_LEDGERS_def BASE_FEE_def

lemma lost_then_late:
  "honest_network net_cfg False lost_attempt" "honest_network net_cfg True late_attempt"
  "submitSignedCancelBid net_cfg lost_attempt = Some (Inl (RelayerTransferError Unavailable))"
  "submitSignedCancelBid net_cfg late_attempt = Some (Inl (RelayerTransferError Expired))"
proof -
  have b: "before_send net_cfg lost_attempt = Inr ()"
    "before_send net_cfg late_attempt = Inl (RelayerTransferError Expired)"
    by (simp_all add: before_send_def guardE_def attempt_defs)
  then show "submitSignedCancelBid net_cfg late_attempt = Some (Inl (RelayerTransferError Expired))"
    by (simp add: submitSignedCancelBid_def send_tx_def)
  show "honest_network net_cfg False lost_attempt" "honest_network net_cfg True late_attempt"
    using b by (simp_all add: honest_network_def reaches_send_def attempt_defs)
  show "submitSignedCancelBid net_cfg lost_attempt = Some (Inl (RelayerTransferError Unavailable))"
    using b by (simp add: submitSignedCancelBid_def send_tx_def pollForCancel_def attempt_defs poll_from.simps)
qed

text \<open>
  C15. What the validity hypothesis excludes. For every canceling bid there is a run of the cancel
  worker on an honest network, of the two attempts of a lost confirmation followed by one after the
  expiry of the signature, which puts the bid back to \<open>escrowed\<close> although its refund was paid: an
  \<open>expired\<close> answer on a retry does not prove that nothing was sent.
\<close>

theorem cancel_worker_lost_confirmation:
  assumes "bid_is B_canceling i d"
  shows "\<exists>as d'. length as = 2 \<and> relay_run (\<lambda>n ok now res. cancel_process n ok now res i) (bid_is B_canceling i)
      submitSignedCancelBid net_cfg (Inr 1000) d as True JobUnrecoverable d' \<and> bid_is B_escrowed i d'"
proof -
  let ?proc = "\<lambda>n ok now res. cancel_process n ok now res i"
  let ?run = "relay_run ?proc (bid_is B_canceling i) submitSignedCancelBid net_cfg (Inr 1000) d"
  note again = relay_run.attempt [where proc = ?proc and pending = "bid_is B_canceling i" and db_ok = True and now = 0
      and submit = submitSignedCancelBid and cfg = net_cfg and v = "Inr 1000" and ?s0.0 = d and s = d]
  obtain b where b: "find_bid i (db_bids d) = Some b" "bd_status b = B_canceling" using assms by (auto simp: bid_is_def)
  have start: "?run [] False JobRetry d" by (rule relay_run.start)
  have one: "?run ([] @ [lost_attempt]) (False \<or> at_lands lost_attempt) JobRetry d"
    by (rule again [OF start assms _ lost_then_late(1,3)]) (use b in \<open>simp_all add: cancel_process_def lost_attempt_def\<close>)
  have lands: "at_lands lost_attempt" by (simp add: lost_attempt_def)
  obtain out d' where two: "?proc (length ([] @ [lost_attempt])) True 0 (Inl (RelayerTransferError Expired)) d = (out, d')"
    by (cases "?proc (length ([] @ [lost_attempt])) True 0 (Inl (RelayerTransferError Expired)) d")
  then have "out = JobUnrecoverable" using b by (simp add: cancel_process_def)
  moreover have "bid_is B_escrowed i d'" using cancel_job.proc_err [OF assms two] calculation by simp
  moreover have "?run (([] @ [lost_attempt]) @ [late_attempt]) ((False \<or> at_lands lost_attempt) \<or> at_lands late_attempt) out d'"
    by (rule again [OF one assms _ _ lost_then_late(4) two])
      (use lost_then_late(2) lands in \<open>simp_all add: late_attempt_def lost_attempt_def\<close>)
  ultimately show ?thesis using lands by (intro exI [of _ "[lost_attempt, late_attempt]"] exI [of _ d']) simp
qed

end
