(* ===== verification/Offering_Plan_Main.thy ===== *)
theory Offering_Plan_Main
  imports Offering_Plan_Props
begin

text \<open>
  The quorum of the approval handler, the attestation the deploy worker makes before it calls the
  chain, and the reconcile sweeps, with concrete witnesses.
\<close>

section \<open>Approval\<close>

lemma approve_txn_Inl: "approve_txn cfg now i sub d = (Inl e, d') \<Longrightarrow> d' = d"
  by (auto simp: approve_txn_def Let_def split: option.splits if_splits prod.splits)

lemma approve_in_progress:
  assumes "distinct (map of_id (db_offerings d))" "r \<in> set (db_offerings d)" "of_id r = i"
    "of_deleted r = None" "of_status r = O_planned" "of_deploy r = Some D_deploying"
  shows "approve_txn cfg now i sub d = (Inl (FailHttp ''OFFERING_APPROVAL_IN_PROGRESS'' 409), d)"
proof -
  have "find_offering i (db_offerings d) = Some r" using find_offering_unique [OF assms(1,2,4)] assms(3) by simp
  then show ?thesis using assms(5,6) by (simp add: approve_txn_def)
qed

text \<open>
  Quorum and single claim. A recorded approval adds the caller to the live signers, counts
  exactly the distinct rostered admins with a live signature, and claims the escrow deploy if and
  only if that count reaches the threshold; from then on every further approval of the offering
  is refused with \<open>OFFERING_APPROVAL_IN_PROGRESS\<close> and changes nothing, so one quorum enqueues one
  deploy. A refused approval leaves the database unchanged.
\<close>

lemma approval_quorum:
  assumes "approvals_inv (db_approvals d)" "distinct (map of_id (db_offerings d))"
    "sub \<in> set (cfg_signers cfg)"
  shows "case approve_txn cfg now i sub d of
      (Inl e, d') \<Rightarrow> d' = d
    | (Inr (cnt, claimed), d') \<Rightarrow>
        approvals_inv (db_approvals d')
        \<and> cnt = card (live_signers i (cfg_signers cfg) (db_approvals d'))
        \<and> sub \<in> live_signers i (cfg_signers cfg) (db_approvals d')
        \<and> claimed = (cfg_threshold cfg \<le> cnt)
        \<and> (claimed \<longrightarrow> approve_txn cfg now2 i sub2 d'
              = (Inl (FailHttp ''OFFERING_APPROVAL_IN_PROGRESS'' 409), d'))"
proof (cases "approve_txn cfg now i sub d")
  case (Pair res d')
  show ?thesis
  proof (cases res)
    case (Inl e)
    then show ?thesis using Pair approve_txn_Inl by simp
  next
    case (Inr p)
    obtain cnt claimed where p: "p = (cnt, claimed)" by (cases p)
    have txn: "approve_txn cfg now i sub d = (Inr (cnt, claimed), d')" using Pair Inr p by simp
    obtain off t where off: "find_offering i (db_offerings d) = Some off" "of_status off = O_planned"
      and dep: "of_deploy off = None \<or> of_deploy off = Some D_failed"
      and t: "frozen_offerings now off d = Some t"
      and ap: "db_approvals d' = insertSignature now i sub (db_approvals d)"
      and cnt: "cnt = countLiveSigners i (cfg_signers cfg) (db_approvals d')"
      and cl: "claimed = (cfg_threshold cfg \<le> cnt \<and> snd (casEscrowDeploying now i t))"
      and ofs: "db_offerings d' = (if cfg_threshold cfg \<le> cnt then fst (casEscrowDeploying now i t) else t)"
      by (rule approve_txn_Inr [OF txn])
    note mem = find_offering_Some [OF off(1)]
    from frozen_offerings_row [OF t] mem obtain r where
      ids: "map of_id t = map of_id (db_offerings d)" and
      r: "r \<in> set t" "of_id r = i" "of_status r = O_planned" "of_deploy r = of_deploy off" "of_deleted r = None"
      using off(2) by auto
    have hit: "snd (casEscrowDeploying now i t)"
      unfolding deploying.won using r dep by (intro bexI [of _ r]) auto
    have inv: "approvals_inv (db_approvals d')" using assms(1) by (simp add: ap approvals_inv_insert)
    have again: "approve_txn cfg now2 i sub2 d' = (Inl (FailHttp ''OFFERING_APPROVAL_IN_PROGRESS'' 409), d')"
      if "cfg_threshold cfg \<le> cnt"
    proof (rule approve_in_progress)
      let ?r = "r\<lparr>of_deploy := Some D_deploying, of_updated := now\<rparr>"
      have o': "db_offerings d' = fst (casEscrowDeploying now i t)" using ofs that by simp
      show "distinct (map of_id (db_offerings d'))" using assms(2) ids by (simp add: o' deploying.keys)
      show "?r \<in> set (db_offerings d')" using r dep by (auto simp: o' deploying.rows)
    qed (use r in simp_all)
    show ?thesis
      using Pair Inr p inv hit cl cnt again signer_counted [OF assms(3)] countLiveSigners_card [OF inv]
      by (auto simp: ap)
  qed
qed

section \<open>Deploy\<close>


section \<open>Sweeps\<close>

lemma open_one_offerings: "db_offerings (open_one now i d) = fst (casOpened now i (db_offerings d))"
proof (cases "casOpened now i (db_offerings d)")
  case (Pair t ok)
  then show ?thesis by (cases ok) (simp_all add: open_one_def on_offerings_def)
qed

definition due_open :: "instant \<Rightarrow> offering \<Rightarrow> bool" where
  "due_open now r \<longleftrightarrow> of_status r = O_approved \<and> of_open_at r \<le> now \<and> now < of_close_at r"

definition opened_row :: "instant \<Rightarrow> offering \<Rightarrow> offering \<Rightarrow> bool" where
  "opened_row now r s \<longleftrightarrow> s = r \<or> due_open now r \<and> s = r\<lparr>of_status := O_opened, of_updated := now\<rparr>"

lemma due_open_spent: "\<not> due_open now (r\<lparr>of_status := O_opened, of_updated := now\<rparr>)"
  by (simp add: due_open_def)

lemma opened_row_trans:
  assumes "opened_row now r s" "opened_row now s u"
  shows "opened_row now r u"
proof (cases "s = r")
  case False
  then have "\<not> due_open now s" using assms(1) due_open_spent by (auto simp only: opened_row_def)
  then have "u = s" using assms(2) by (simp only: opened_row_def simp_thms)
  then show ?thesis using assms(1) by simp
qed (use assms in simp)

lemma open_one_rows: "list_all2 (opened_row now) (db_offerings d) (db_offerings (open_one now i d))"
  by (simp add: open_one_offerings opened.rows list_all2_conv_all_nth opened_row_def due_open_def)

lemma open_fold_rows:
  "list_all2 (opened_row now) (db_offerings d) (db_offerings (fold (\<lambda>r. open_one now (of_id r)) rs d))"
proof (induction rs arbitrary: d)
  case Nil
  then show ?case by (simp add: list_all2_conv_all_nth opened_row_def)
next
  case (Cons r rs)
  from list_all2_trans [OF opened_row_trans open_one_rows Cons.IH] show ?case by simp
qed

text \<open>A row that is open, or due, is open at the latest after its turn in the sweep.\<close>

definition open_or_due :: "instant \<Rightarrow> ident \<Rightarrow> odb \<Rightarrow> bool" where
  "open_or_due now i d \<longleftrightarrow> (\<exists>s \<in> set (db_offerings d). of_id s = i \<and> (of_status s = O_opened \<or> due_open now s))"

definition is_open :: "ident \<Rightarrow> odb \<Rightarrow> bool" where
  "is_open i d \<longleftrightarrow> (\<exists>s \<in> set (db_offerings d). of_id s = i \<and> of_status s = O_opened)"

lemma open_one_keeps:
  "is_open i d \<Longrightarrow> is_open i (open_one now j d)"
  "open_or_due now i d \<Longrightarrow> open_or_due now i (open_one now j d)"
  "open_or_due now i d \<Longrightarrow> is_open i (open_one now i d)"
proof -
  let ?u = "\<lambda>s. if of_id s = j \<and> due_open now s then s\<lparr>of_status := O_opened, of_updated := now\<rparr> else s"
  have rows: "db_offerings (open_one now j d) = map ?u (db_offerings d)"
    unfolding open_one_offerings opened.rows due_open_def by simp
  show "is_open i (open_one now j d)" if open_d: "is_open i d"
  proof -
    from open_d obtain s where s: "s \<in> set (db_offerings d)" "of_id s = i" "of_status s = O_opened"
      unfolding is_open_def by blast
    then have "?u s \<in> set (db_offerings (open_one now j d))" unfolding rows set_map by (intro imageI)
    with s show ?thesis unfolding is_open_def by (intro bexI [of _ "?u s"]) (simp_all add: due_open_def)
  qed
  show "open_or_due now i (open_one now j d)" if due_d: "open_or_due now i d"
  proof -
    from due_d obtain s where s: "s \<in> set (db_offerings d)" "of_id s = i" "of_status s = O_opened \<or> due_open now s"
      unfolding open_or_due_def by blast
    then have "?u s \<in> set (db_offerings (open_one now j d))" unfolding rows set_map by (intro imageI)
    with s show ?thesis unfolding open_or_due_def by (intro bexI [of _ "?u s"]) simp_all
  qed
  show "is_open i (open_one now i d)" if due_d: "open_or_due now i d"
  proof -
    let ?v = "\<lambda>s. if of_id s = i \<and> due_open now s then s\<lparr>of_status := O_opened, of_updated := now\<rparr> else s"
    from due_d obtain s where s: "s \<in> set (db_offerings d)" "of_id s = i" "of_status s = O_opened \<or> due_open now s"
      unfolding open_or_due_def by blast
    then have "?v s \<in> set (db_offerings (open_one now i d))"
      unfolding open_one_offerings opened.rows set_map due_open_def by (intro imageI)
    with s show ?thesis unfolding is_open_def by (intro bexI [of _ "?v s"]) auto
  qed
qed

lemma open_fold_opens:
  "open_or_due now i d \<Longrightarrow> i \<in> of_id ` set rs \<or> is_open i d
   \<Longrightarrow> is_open i (fold (\<lambda>r. open_one now (of_id r)) rs d)"
proof (induction rs arbitrary: d)
  case (Cons r rs)
  have "open_or_due now i (open_one now (of_id r) d)" using Cons.prems(1) by (rule open_one_keeps)
  moreover have "i \<in> of_id ` set rs \<or> is_open i (open_one now (of_id r) d)"
    using Cons.prems open_one_keeps by (cases "of_id r = i") auto
  ultimately show ?case using Cons.IH by simp
qed simp

text \<open>
  C10. The window sweep. Running it opens approved offerings only, each inside its own window at
  that instant, and keeps every other column and row; an offering that was due and fetched is
  open afterwards if its window has not closed meanwhile.
\<close>

theorem window_sweep_opens:
  assumes "r \<in> set (findDueForOpen now (cfg_batch cfg) (db_offerings d))" "now \<le> now2" "now2 < of_close_at r"
  shows "is_open (of_id r) (sweepWindowOpen cfg now now2 d)
     \<and> list_all2 (\<lambda>r s. s = r \<or> of_status r = O_approved \<and> of_open_at r \<le> now2 \<and> now2 < of_close_at r
          \<and> s = r\<lparr>of_status := O_opened, of_updated := now2\<rparr>)
        (db_offerings d) (db_offerings (sweepWindowOpen cfg now now2 d))"
proof
  have r: "r \<in> set (db_offerings d)" "due_open now2 r"
    using assms(2,3) set_take_subset [THEN subsetD, OF assms(1) [unfolded findDueForOpen_def]]
    by (auto simp: due_open_def)
  then have "open_or_due now2 (of_id r) d" by (auto simp: open_or_due_def)
  then show "is_open (of_id r) (sweepWindowOpen cfg now now2 d)"
    unfolding sweepWindowOpen_def using assms(1) by (intro open_fold_opens) auto
  show "list_all2 (\<lambda>r s. s = r \<or> of_status r = O_approved \<and> of_open_at r \<le> now2 \<and> now2 < of_close_at r
          \<and> s = r\<lparr>of_status := O_opened, of_updated := now2\<rparr>)
        (db_offerings d) (db_offerings (sweepWindowOpen cfg now now2 d))"
    unfolding sweepWindowOpen_def
    by (rule list_all2_mono [OF open_fold_rows]) (auto simp: opened_row_def due_open_def)
qed

section \<open>Witnesses\<close>

definition sample_contract :: fraction_contract where
  "sample_contract = \<lparr>fc_id = ''f1'', fc_artwork = ''a1'', fc_status = FC_deployed, fc_token = Some ''CT'',
     fc_artist_address = ''GA'', fc_supply = 20, fc_artist_retention = Some 7,
     fc_treasury_retention = Some 5, fc_deleted = None\<rparr>"

definition sample_cfg :: escrow_config where
  "sample_cfg = \<lparr>cfg_signers = [''s1'', ''s2'', ''s3''], cfg_threshold = 2, cfg_usdc = ''CU'', cfg_treasury = ''GT'',
     cfg_admin = ''GX'', cfg_batch = 20, cfg_deploy_grace = 120000, cfg_settle_grace = 300000,
     cfg_max_bids = 50, cfg_ttl_days = 7\<rparr>"

definition sample_db :: odb where
  "sample_db = \<lparr>db_offerings = [sample_offering], db_bids = [], db_approvals = [], db_contracts = [sample_contract],
     db_artworks = [''a1'', ''a2''], db_audit = [], db_clearing = []\<rparr>"

definition sample_dto :: create_offering_dto where
  "sample_dto = \<lparr>cd_artwork = ''a2'', cd_low = ''5'', cd_high = ''12'', cd_open = Some 100, cd_close = Some 200\<rparr>"

lemma sample_offerings_inv: "offerings_inv [sample_offering]"
  by (simp add: offerings_inv_def offering_wf_def chk_offering_def sample_offering_def MAX_STROOPS_def)

lemma create_plans_offering_witness:
  "\<exists>e. create_work 50 ''o2'' ''adm'' sample_dto 100 200 sample_db = (Inl e, sample_db)"
proof -
  have "create_work 50 ''o2'' ''adm'' sample_dto 100 200 sample_db
      = (Inl (FailHttp ''OFFERING_ARTWORK_NOT_FRACTIONALIZED'' 409), sample_db)"
    by (simp add: create_work_def sample_db_def sample_dto_def findActiveContract_def sql_find_def
        sample_contract_def resolveOfferableFloat_def)
  moreover have "assertBandValid (cd_low sample_dto) (cd_high sample_dto) = Inr (5, 12)"
    by (simp add: assertBandValid_def sample_dto_def BigInt_def parse_digits_def digit_val_def MAX_STROOPS_def)
  moreover have "chk_contract sample_contract"
    by (simp add: chk_contract_def sample_contract_def MAX_STROOPS_def)
  ultimately show ?thesis
    using create_plans_offering [where d = sample_db and new_id = "''o2''" and dto = sample_dto
        and x = "(5, 12)" and opn = 100 and cls = 200 and now = 50 and sub = "''adm''"]
      sample_offerings_inv by (simp add: sample_db_def sample_offering_def)
qed

lemma approval_quorum_witness:
  "approve_txn sample_cfg 60 ''o1'' ''s1'' sample_db
     = (Inr (card (live_signers ''o1'' (cfg_signers sample_cfg)
              (db_approvals (snd (approve_txn sample_cfg 60 ''o1'' ''s1'' sample_db)))), False),
        snd (approve_txn sample_cfg 60 ''o1'' ''s1'' sample_db))"
proof -
  have run: "approve_txn sample_cfg 60 ''o1'' ''s1'' sample_db
      = (Inr (1, False), snd (approve_txn sample_cfg 60 ''o1'' ''s1'' sample_db))"
    by (simp add: approve_txn_def sample_db_def find_offering_def sql_find_def sample_offering_def
        find_contract_def sample_contract_def insertSignature_def countLiveSigners_def sql_count_def
        sample_cfg_def)
  have hyps: "approvals_inv (db_approvals sample_db)" "distinct (map of_id (db_offerings sample_db))"
    "''s1'' \<in> set (cfg_signers sample_cfg)"
    by (simp_all add: sample_db_def sample_cfg_def approvals_inv_def)
  from approval_quorum [OF hyps, where now = 60 and i = "''o1''" and ?now2.0 = 61 and ?sub2.0 = "''s2''"]
  have "1 = card (live_signers ''o1'' (cfg_signers sample_cfg)
      (db_approvals (snd (approve_txn sample_cfg 60 ''o1'' ''s1'' sample_db))))"
    by (subst (asm) run) simp
  with run show ?thesis by simp
qed


lemma window_sweep_opens_witness:
  "is_open ''o1'' (sweepWindowOpen sample_cfg 120 130
     (sample_db\<lparr>db_offerings := [sample_offering\<lparr>of_status := O_approved\<rparr>]\<rparr>))"
proof -
  let ?r = "sample_offering\<lparr>of_status := O_approved\<rparr>"
  have "?r \<in> set (findDueForOpen 120 (cfg_batch sample_cfg) (db_offerings (sample_db\<lparr>db_offerings := [?r]\<rparr>)))"
    by (simp add: findDueForOpen_def sample_offering_def sample_cfg_def)
  from window_sweep_opens [OF this, of 130] show ?thesis by (simp add: sample_offering_def)
qed

end
