(* ===== verification/Bids_Main.thy ===== *)
theory Bids_Main
  imports Bids_Props Offering_Plan_Main
begin

text \<open>
  The cancel handler, and concrete instances of the bid properties.
\<close>

section \<open>cancel\<close>

lemma assertCancelable_Inr:
  assumes "assertCancelable u i d = Inr (b, esc, c, w)"
  obtains off where "find_offering i (db_offerings d) = Some off" "of_status off = O_opened" "of_escrow off = Some esc"
    "b \<in> set (db_bids d)" "bd_offering b = i" "bd_sub b = u" "bd_status b = B_escrowed" "bd_chain b = Some c"
    "w = bd_wallet b" "bd_deleted b = None"
  using assms
  by (auto simp: assertCancelable_def findMyActiveBid_def split: option.splits offering_status.splits bid_status.splits
      dest!: sql_find_Some)

lemma cancel_checks_Inr:
  assumes "cancel_checks env fresh u i a d = Inr (b, j)"
  shows "assertCancelable u i d = Inr (b, cj_escrow j, cj_chain j, cj_wallet j) \<and> cj_bid j = bd_id b"
  using assms by (auto simp: cancel_checks_def err_simps)

lemma cancel_then_revert:
  assumes "b \<in> set t" "distinct (map bd_id t)" "bd_status b = B_escrowed"
  shows "map (\<lambda>c. (bd_id c, bd_status c)) (fst (casCancelFailedBackToEscrowed n2 (bd_id b) (fst (casCanceling n1 (bd_id b) t))))
    = map (\<lambda>c. (bd_id c, bd_status c)) t"
proof -
  have "c = b" if "c \<in> set t" "bd_id c = bd_id b" for c
    using assms(1,2) that by (metis inj_on_contraD distinct_map)
  then show ?thesis using assms(3) by (auto simp: canceling.rows cancel_reverted.rows)
qed

text \<open>
  Cancelling a bid. A request that claimed its key either leaves every bid's status as it was
  and queues no job (a failed check, a lost latch, or a refused enqueue that was reverted), or it
  moves exactly the caller's own escrowed bid of an open offering to \<open>canceling\<close> and queues exactly
  one refund job with that bid's chain id, its recorded wallet and that offering's escrow.
\<close>

lemma cancel_schedules_refund:
  assumes "bids_inv (db_bids d)" "idem_begin now (''idem:offering-bid-cancel:'' @ u @ '':'' @ i @ '':'' @ k)
      (be_sha env (u @ ''|'' @ i @ ''|'' @ as_xdr a)) atts s = (Proceed token, s1)"
  shows "case cancel env now now2 up enq True atts fresh u i a k (s, d) of (res, s', d', jobs) \<Rightarrow>
     jobs = [] \<and> (\<exists>e. res = Inl e) \<and> map (\<lambda>b. (bd_id b, bd_status b)) (db_bids d') = map (\<lambda>b. (bd_id b, bd_status b)) (db_bids d)
   \<or> (\<exists>j b off. jobs = [j] \<and> b \<in> set (db_bids d) \<and> bd_offering b = i \<and> bd_sub b = u \<and> bd_status b = B_escrowed
        \<and> find_offering i (db_offerings d) = Some off \<and> of_status off = O_opened \<and> of_escrow off = Some (cj_escrow j)
        \<and> bd_chain b = Some (cj_chain j) \<and> bd_wallet b = cj_wallet j \<and> cj_bid j = bd_id b
        \<and> res = Inr (Some (b\<lparr>bd_status := B_canceling\<rparr>))
        \<and> db_bids d' = map (\<lambda>c. if c = b then c\<lparr>bd_status := B_canceling, bd_updated := now\<rparr> else c) (db_bids d))"
proof (cases "cancel_checks env fresh u i a d")
  case (Inl e)
  then show ?thesis using assms(2) by (simp add: cancel_def Let_def cancel_work_def)
next
  case (Inr p)
  obtain b j where p: "p = (b, j)" by (cases p)
  note chk = cancel_checks_Inr [OF Inr [unfolded p]]
  from conjunct1 [OF chk] obtain off where off: "find_offering i (db_offerings d) = Some off" "of_status off = O_opened"
    "of_escrow off = Some (cj_escrow j)" and b: "b \<in> set (db_bids d)" "bd_offering b = i" "bd_sub b = u"
    "bd_status b = B_escrowed" "bd_chain b = Some (cj_chain j)" "cj_wallet j = bd_wallet b" by (rule assertCancelable_Inr)
  have dist: "distinct (map bd_id (db_bids d))" using bids_invD(1) [OF assms(1)] .
  have same: "(bd_id c = bd_id b \<and> bd_status c = B_escrowed) = (c = b)" if "c \<in> set (db_bids d)" for c
    using b(1,4) dist that by (metis inj_on_contraD distinct_map)
  have won: "snd (casCanceling now (bd_id b) (db_bids d))" unfolding canceling.won using b(1,4) by blast
  have rows: "fst (casCanceling now (bd_id b) (db_bids d))
      = map (\<lambda>c. if c = b then c\<lparr>bd_status := B_canceling, bd_updated := now\<rparr> else c) (db_bids d)"
    unfolding canceling.rows by (rule map_cong) (auto simp: same)
  have txn: "\<exists>d1. run_txn (cancel_txn now u (bd_id b)) d = (Inr (), d1) \<and> db_bids d1 = fst (casCanceling now (bd_id b) (db_bids d))"
    using won by (cases "casCanceling now (bd_id b) (db_bids d)")
      (auto simp: run_txn_def cancel_txn_def on_bids_def audit_record_def)
  then obtain d1 where d1: "run_txn (cancel_txn now u (bd_id b)) d = (Inr (), d1)"
    "db_bids d1 = fst (casCanceling now (bd_id b) (db_bids d))" by blast
  have work: "cancel_work now u (cancel_checks env fresh u i a d) d = (Inr (b\<lparr>bd_status := B_canceling\<rparr>, j), d1)"
    using Inr p d1(1) by (simp add: cancel_work_def)
  show ?thesis
  proof (cases enq)
    case True
    then have run: "cancel env now now2 up enq True atts fresh u i a k (s, d)
        = (Inr (Some (b\<lparr>bd_status := B_canceling\<rparr>)), idem_complete now2
            (''idem:offering-bid-cancel:'' @ u @ '':'' @ i @ '':'' @ k) token (b\<lparr>bd_status := B_canceling\<rparr>) up s1, d1, [j])"
      using work assms(2) by (simp add: cancel_def Let_def)
    show ?thesis unfolding run prod.case
      by (rule disjI2, intro exI [of _ j] exI [of _ b] exI [of _ off]) (use off b chk d1(2) rows in simp)
  next
    case False
    with work assms(2) cancel_then_revert [OF b(1) dist b(4)] d1(2) show ?thesis by (simp add: cancel_def Let_def)
  qed
qed

section \<open>Witnesses\<close>

definition sample_env :: bid_env where
  "sample_env = \<lparr>be_identity = \<lparr>idn_users = [(''u1'', K_whitelisted)],
       idn_wallets = [\<lparr>wl_id = ''w1'', wl_user = ''u1'', wl_embedded = True, wl_contract = Some ''CW'',
         wl_created = 1, wl_deleted = None\<rparr>],
       idn_credentials = [\<lparr>cr_credential = ''k1'', cr_wallet = ''w1'', cr_transports = None, cr_key = ''cose'', cr_deleted = None\<rparr>]\<rparr>,
     be_decode = (\<lambda>_. Some ''raw''), be_sha = (\<lambda>x. x), be_usdc = ''CU'', be_max_bids = 40, be_max_cost = ''1000'',
     be_rp = ''rp'', be_origins = []\<rparr>"

definition sample_assertion :: assertion where
  "sample_assertion = \<lparr>as_xdr = ''x'', as_authenticator = ''a'', as_client_data = ''c'', as_signature = ''s''\<rparr>"

definition open_db :: odb where
  "open_db = sample_db\<lparr>db_offerings := [sample_offering\<lparr>of_status := O_opened, of_escrow := Some ''CE''\<rparr>]\<rparr>"

definition escrowed_bid :: offering_bid where
  "escrowed_bid = (submitted_row 110 ''b1'' \<lparr>nb_offering = ''o1'', nb_sub = ''u1'', nb_wallet = ''CW'', nb_price = 6,
     nb_count = 3, nb_idem = ''h''\<rparr>)\<lparr>bd_status := B_escrowed, bd_chain := Some 4, bd_escrow_tx := Some ''tx''\<rparr>"

lemma escrowed_bid_inv: "bids_inv [escrowed_bid]"
  by (simp add: bids_inv_def bid_wf_defs escrowed_bid_def submitted_row_def bd_escrow_amount_def MAX_STROOPS_def)



definition good_attempt :: attempt where
  "good_attempt = lost_attempt\<lparr>at_get := (\<lambda>_. Rpc (Tx_success 77 (Some 5)))\<rparr>"

lemma good_attempt_run:
  "honest_network net_cfg False good_attempt" "within_validity good_attempt"
  "submitSignedBid net_cfg good_attempt = Some (Inr (''h'', 77, 5))"
  "submitSignedCancelBid net_cfg good_attempt = Some (Inr (''h'', 77))"
proof -
  have b: "before_send net_cfg good_attempt = Inr ()"
    by (simp add: before_send_def guardE_def good_attempt_def attempt_defs)
  then show "honest_network net_cfg False good_attempt"
    by (simp add: honest_network_def reaches_send_def good_attempt_def attempt_defs)
  show "within_validity good_attempt" by (simp add: within_validity_def good_attempt_def attempt_defs)
  show "submitSignedBid net_cfg good_attempt = Some (Inr (''h'', 77, 5))"
    "submitSignedCancelBid net_cfg good_attempt = Some (Inr (''h'', 77))"
    using b by (simp_all add: submitSignedBid_def submitSignedCancelBid_def send_tx_def pollForBid_def pollForCancel_def
        good_attempt_def attempt_defs poll_from.simps bid_final_def cancel_final_def)
qed

definition pending_db :: "bid_status \<Rightarrow> odb" where
  "pending_db st = open_db\<lparr>db_bids := [escrowed_bid\<lparr>bd_status := st\<rparr>]\<rparr>"

lemma pending_db_is: "bid_is st ''b1'' (pending_db st)"
  by (simp add: bid_is_def pending_db_def find_bid_def sql_find_def escrowed_bid_def submitted_row_def)



lemma cancel_worker_lost_confirmation_witness:
  "\<exists>as d'. relay_run (\<lambda>n ok now res. cancel_process n ok now res ''b1'') (bid_is B_canceling ''b1'')
      submitSignedCancelBid net_cfg (Inr 1000) (pending_db B_canceling) as True JobUnrecoverable d'
      \<and> bid_is B_escrowed ''b1'' d'"
  using cancel_worker_lost_confirmation [OF pending_db_is] by blast

lemma cancel_schedules_refund_witness:
  "\<exists>res s' d' jobs. cancel sample_env 150 160 True False True [(''t'', False)] (\<lambda>_. Inr ()) ''u1'' ''o1'' sample_assertion
      ''k'' (Map.empty, open_db\<lparr>db_bids := [escrowed_bid]\<rparr>) = (res, s', d', jobs)
      \<and> (jobs = [] \<longrightarrow> map bd_status (db_bids d') = [B_escrowed])"
proof -
  let ?d = "open_db\<lparr>db_bids := [escrowed_bid]\<rparr>"
  have inv: "bids_inv (db_bids ?d)" using escrowed_bid_inv by simp
  obtain s1 where beg: "idem_begin 150 (''idem:offering-bid-cancel:'' @ ''u1'' @ '':'' @ ''o1'' @ '':'' @ ''k'')
      (be_sha sample_env (''u1'' @ ''|'' @ ''o1'' @ ''|'' @ as_xdr sample_assertion)) [(''t'', False)]
      (Map.empty :: offering_bid redis) = (Proceed ''t'', s1)"
    unfolding idem_first_attempt by (simp add: begin_script_def redis_get_def)
  obtain res s' d' jobs where run: "cancel sample_env 150 160 True False True [(''t'', False)] (\<lambda>_. Inr ()) ''u1'' ''o1''
      sample_assertion ''k'' (Map.empty, ?d) = (res, s', d', jobs)" by (metis prod_cases4)
  have "map bd_status (db_bids d') = [B_escrowed]" if "jobs = []"
    using cancel_schedules_refund [OF inv beg, of 160 True False "\<lambda>_. Inr ()"] run that
    by (auto simp: escrowed_bid_def submitted_row_def)
  with run show ?thesis
    by (intro exI [of _ res] exI [of _ s'] exI [of _ d'] exI [of _ jobs]) simp
qed

lemma relayer_outcome_sound_witness:
  "(\<exists>r. submitSignedBid net_cfg good_attempt = Some r \<and> sound_outcome False good_attempt r)
    \<and> (\<exists>r. submitSignedCancelBid net_cfg good_attempt = Some r \<and> sound_outcome False good_attempt r)"
  by (rule relayer_outcome_sound [OF good_attempt_run(1)])
    (simp add: clock_ticks_def good_attempt_def lost_attempt_def POLL_INTERVAL_MS_def)

end
