(* ===== verification/Account_Lock.thy ===== *)
theory Account_Lock
  imports Escrow_Service
begin

text \<open>
  The Redis lock of the shared source account: acquisition spins on \<open>SET NX PX\<close>, release is a
  compare-and-delete. No two holders overlap as long as a holder leaves within the lifetime of its
  key, and the legs of the escrow adapter do: the lock's lifetime covers their worst case.
\<close>

section \<open>RedisRelayerAccountLock\<close>

text \<open>One key: the holder's token and when Redis drops it.\<close>

type_synonym lock_cell = "(ident \<times> instant) option"

definition RETRY_MS :: int where
  "RETRY_MS = 75"

definition cell_get :: "instant \<Rightarrow> lock_cell \<Rightarrow> ident option" where
  "cell_get now c = (case c of None \<Rightarrow> None | Some (t, expires) \<Rightarrow> if now < expires then Some t else None)"

text \<open>\<open>SET key token PX ttl NX\<close>: whether it was set.\<close>

definition cell_acquire :: "instant \<Rightarrow> ident \<Rightarrow> int \<Rightarrow> lock_cell \<Rightarrow> bool \<times> lock_cell" where
  "cell_acquire now token ttlMs c =
     (if cell_get now c = None then (True, Some (token, now + ttlMs)) else (False, c))"

text \<open>The release script.\<close>

definition cell_release :: "instant \<Rightarrow> ident \<Rightarrow> lock_cell \<Rightarrow> lock_cell" where
  "cell_release now token c = (if cell_get now c = Some token then None else c)"

text \<open>
  The spin of \<open>withLock\<close>: attempt \<open>n\<close> meets the cell \<open>cells n\<close> at \<open>clock n\<close>; the result is the
  attempt that won, or none when the deadline has passed.
\<close>

partial_function (option) acquire_loop :: "int \<Rightarrow> instant \<Rightarrow> (nat \<Rightarrow> instant) \<Rightarrow> (nat \<Rightarrow> lock_cell) \<Rightarrow> nat \<Rightarrow> nat option option" where
  "acquire_loop ttlMs deadline clock cells n =
     (if cell_get (clock n) (cells n) = None then Some (Some n)
      else if clock n \<ge> deadline then Some None
      else acquire_loop ttlMs deadline clock cells (Suc n))"

definition withLock ::
  "int \<Rightarrow> instant \<Rightarrow> (nat \<Rightarrow> instant) \<Rightarrow> (nat \<Rightarrow> lock_cell) \<Rightarrow> (nat \<Rightarrow> 'e + 'a) \<Rightarrow> 'e \<Rightarrow> ('e + 'a) option" where
  "withLock ttlMs start clock cells fn timeout =
     (case acquire_loop ttlMs (start + ttlMs * 2) clock cells 0 of
        None \<Rightarrow> None
      | Some None \<Rightarrow> Some (Inl timeout)
      | Some (Some n) \<Rightarrow> Some (fn n))"

text \<open>The attempt at which the spin stops.\<close>

definition spin_stops :: "instant \<Rightarrow> (nat \<Rightarrow> instant) \<Rightarrow> (nat \<Rightarrow> lock_cell) \<Rightarrow> nat \<Rightarrow> bool" where
  "spin_stops deadline clock cells n \<longleftrightarrow> (cell_get (clock n) (cells n) = None \<or> clock n \<ge> deadline)
     \<and> (\<forall>m < n. cell_get (clock m) (cells m) \<noteq> None \<and> clock m < deadline)"

lemma first_index:
  fixes clock :: "nat \<Rightarrow> instant"
  assumes "\<And>n. clock n + 1 \<le> clock (Suc n)" "\<And>n. deadline \<le> clock n \<Longrightarrow> Q n"
  obtains n where "Q n" "\<And>m. m < n \<Longrightarrow> \<not> Q m"
proof -
  have grow: "clock 0 + int n \<le> clock n" for n
  proof (induction n)
    case (Suc n)
    then show ?case using assms(1) [of n] by simp
  qed simp
  define N where "N = nat (deadline - clock 0)"
  have "deadline \<le> clock 0 + int N" by (simp add: N_def)
  with grow [of N] have "Q N" by (intro assms(2)) simp
  then show ?thesis using that LeastI [of Q] not_less_Least [of _ Q] by blast
qed

lemma acquire_loop_stops:
  assumes "\<And>n. clock n + RETRY_MS \<le> clock (Suc n)"
  shows "\<exists>n. spin_stops deadline clock cells n
    \<and> acquire_loop ttlMs deadline clock cells 0 = Some (if cell_get (clock n) (cells n) = None then Some n else None)"
proof -
  have tick: "clock n + 1 \<le> clock (Suc n)" for n using assms [of n] by (simp add: RETRY_MS_def)
  obtain n where n: "cell_get (clock n) (cells n) = None \<or> clock n \<ge> deadline"
    "\<And>m. m < n \<Longrightarrow> \<not> (cell_get (clock m) (cells m) = None \<or> clock m \<ge> deadline)"
    by (rule first_index [of clock deadline "\<lambda>n. cell_get (clock n) (cells n) = None \<or> clock n \<ge> deadline"]) (use tick in blast)+
  have "acquire_loop ttlMs deadline clock cells (n - k) = Some (if cell_get (clock n) (cells n) = None then Some n else None)"
    if "k \<le> n" for k
    using that
  proof (induction k)
    case 0
    then show ?case using n(1) by (subst acquire_loop.simps) auto
  next
    case (Suc k)
    then have "n - Suc k < n" "Suc (n - Suc k) = n - k" by simp_all
    with Suc n(2) [of "n - Suc k"] show ?case by (subst acquire_loop.simps) auto
  qed
  from this [of n] n show ?thesis by (intro exI [of _ n]) (auto simp: spin_stops_def not_le [symmetric])
qed

section \<open>Any number of instances on one key\<close>

text \<open>
  The holders inside their critical section, with the times at which they entered and their
  lifetimes. Time passes only while every holder is within its lifetime; a holder leaves by
  releasing, or by crashing and its release failing; a release may also come late, from a holder long gone.
\<close>

record lock_state =
  lk_now :: instant
  lk_cell :: lock_cell
  lk_inside :: "(ident \<times> instant) list"

inductive lock_step :: "lock_state \<Rightarrow> lock_state \<Rightarrow> bool" where
  tick: "lk_now s \<le> t \<Longrightarrow> \<forall>(k, ends) \<in> set (lk_inside s). t < ends \<Longrightarrow> lock_step s (s\<lparr>lk_now := t\<rparr>)"
| enter: "cell_acquire (lk_now s) k ttlMs (lk_cell s) = (True, c) \<Longrightarrow> 0 < ttlMs \<Longrightarrow> k \<notin> fst ` set (lk_inside s)
     \<Longrightarrow> lock_step s (s\<lparr>lk_cell := c, lk_inside := (k, lk_now s + ttlMs) # lk_inside s\<rparr>)"
| leave: "(k, ends) \<in> set (lk_inside s)
     \<Longrightarrow> lock_step s (s\<lparr>lk_cell := cell_release (lk_now s) k (lk_cell s), lk_inside := filter (\<lambda>h. fst h \<noteq> k) (lk_inside s)\<rparr>)"
| crash: "(k, ends) \<in> set (lk_inside s)
     \<Longrightarrow> lock_step s (s\<lparr>lk_inside := filter (\<lambda>h. fst h \<noteq> k) (lk_inside s)\<rparr>)"
| stale: "k \<notin> fst ` set (lk_inside s) \<Longrightarrow> lock_step s (s\<lparr>lk_cell := cell_release (lk_now s) k (lk_cell s)\<rparr>)"

definition lock_inv :: "lock_state \<Rightarrow> bool" where
  "lock_inv s \<longleftrightarrow> (lk_inside s = [] \<or> (\<exists>k ends. lk_inside s = [(k, ends)] \<and> lk_cell s = Some (k, ends) \<and> lk_now s < ends))"

lemma lock_step_inv: "lock_step s s' \<Longrightarrow> lock_inv s \<Longrightarrow> lock_inv s'"
  by (induction rule: lock_step.induct)
    (auto simp: lock_inv_def cell_acquire_def cell_get_def cell_release_def split: option.splits if_splits)

lemma lock_steps_inv: "lock_step\<^sup>*\<^sup>* s s' \<Longrightarrow> lock_inv s \<Longrightarrow> lock_inv s'"
  by (induction rule: rtranclp_induct) (auto intro: lock_step_inv)

section \<open>The legs of the escrow adapter\<close>

text \<open>
  Worst case of a leg that took the lock at \<open>t0\<close> and makes \<open>k\<close> RPCs before the poll starts, under
  \<open>withTimeout\<close>: every RPC ends within five seconds, the poll sleeps one second between two reads.
\<close>

definition leg_timed :: "tx_rpc \<Rightarrow> instant \<Rightarrow> nat \<Rightarrow> bool" where
  "leg_timed t t0 k \<longleftrightarrow> tr_start t \<le> t0 + int k * 5000 \<and> tr_clock t 0 \<le> tr_start t + 5000
     \<and> (\<forall>n. tr_clock t n + POLL_INTERVAL_MS \<le> tr_clock t (Suc n)
          \<and> tr_clock t (Suc n) \<le> tr_clock t n + POLL_INTERVAL_MS + 5000)"

text \<open>The poll makes its last read at index \<open>n\<close>.\<close>

definition poll_stops :: "tx_rpc \<Rightarrow> instant \<Rightarrow> nat \<Rightarrow> bool" where
  "poll_stops t deadline n \<longleftrightarrow> (\<forall>m < n. tr_get t m = Rpc Tx_not_found \<and> tr_clock t m < deadline)
     \<and> \<not> (tr_get t n = Rpc Tx_not_found \<and> tr_clock t n < deadline)"

lemma escrow_poll_stops:
  assumes "\<And>n. tr_clock t n + POLL_INTERVAL_MS \<le> tr_clock t (Suc n)"
  shows "\<exists>n r. poll_stops t deadline n \<and> escrow_poll t deadline final 0 = Some r"
proof -
  have tick: "tr_clock t n + 1 \<le> tr_clock t (Suc n)" for n using assms [of n] by (simp add: POLL_INTERVAL_MS_def)
  let ?Q = "\<lambda>n. \<not> (tr_get t n = Rpc Tx_not_found \<and> tr_clock t n < deadline)"
  obtain n where n: "?Q n" "\<And>m. m < n \<Longrightarrow> \<not> ?Q m" by (rule first_index [of "tr_clock t" deadline ?Q]) (use tick in auto)
  have "\<exists>r. escrow_poll t deadline final (n - k) = Some r" if "k \<le> n" for k
    using that
  proof (induction k)
    case 0
    then show ?case using n(1) by (subst escrow_poll.simps) (auto split: rpc.splits)
  next
    case (Suc k)
    then have "n - Suc k < n" "Suc (n - Suc k) = n - k" by simp_all
    with Suc n(2) [of "n - Suc k"] show ?case by (subst escrow_poll.simps) simp
  qed
  from this [of n] n show ?thesis by (auto simp: poll_stops_def)
qed

lemma poll_stops_in_time:
  assumes "leg_timed t t0 k" "poll_stops t (tr_start t + T) n" "0 \<le> T"
  shows "tr_clock t n \<le> t0 + int k * 5000 + T + POLL_INTERVAL_MS + 5000"
proof (cases n)
  case (Suc m)
  then have "tr_clock t m < tr_start t + T" using assms(2) by (simp add: poll_stops_def)
  moreover have "tr_clock t (Suc m) \<le> tr_clock t m + POLL_INTERVAL_MS + 5000" "tr_start t \<le> t0 + int k * 5000"
    using assms(1) by (simp_all add: leg_timed_def)
  ultimately show ?thesis using Suc by simp
qed (use assms in \<open>simp add: leg_timed_def POLL_INTERVAL_MS_def\<close>)

text \<open>
  C26. The lock's lifetime covers a leg. Every settlement and deploy leg returns, and with at most
  five RPCs before the poll (a settlement reads the status first, one more than \<open>PRE_POLL_RPC_COUNT\<close>
  says) the last read of its poll happens before the key of its lock expires, with at least ten seconds left.
\<close>

theorem escrow_leg_ends_within_lock:
  assumes "leg_timed t t0 k" "k \<le> 5" "0 \<le> ac_poll_timeout cfg"
  shows "closeOffering cfg t \<noteq> None \<and> closeAndSettle cfg status t allocations \<noteq> None \<and> deployEscrow cfg address inst t \<noteq> None
     \<and> (\<exists>n. poll_stops t (tr_start t + ac_poll_timeout cfg) n \<and> tr_clock t n + 10000 \<le> t0 + lock_ttl cfg)"
proof -
  have tick: "tr_clock t n + POLL_INTERVAL_MS \<le> tr_clock t (Suc n)" for n using assms(1) by (simp add: leg_timed_def)
  obtain n where n: "poll_stops t (tr_start t + ac_poll_timeout cfg) n"
    using escrow_poll_stops [OF tick] by blast
  have sp: "\<exists>r. sendAndPoll cfg t = Some r"
    using escrow_poll_stops [OF tick, of "tr_start t + ac_poll_timeout cfg" ledger_final]
    by (auto simp: sendAndPoll_def pollForLedger_def split: sum.splits)
  have dp: "\<exists>r. pollToClosure cfg t = Some r"
    using escrow_poll_stops [OF tick, of "tr_start t + ac_poll_timeout cfg" deploy_final] by (auto simp: pollToClosure_def)
  have "tr_clock t n + 10000 \<le> t0 + lock_ttl cfg"
    using poll_stops_in_time [OF assms(1) n assms(3)] assms(2) by (simp add: lock_ttl_def)
  then show ?thesis using n sp dp
    by (auto simp: closeOffering_def closeAndSettle_def deployEscrow_def deployLocked_def split: sum.splits option.splits)
qed

text \<open>
  C27. The lock excludes. Start with nobody inside and let any number of instances enter, leave,
  crash, release late and lose their release, in any order, while no holder stays beyond the
  lifetime of its key. Then at most one is inside; the key holds its token, so every other attempt
  to enter fails and no foreign release frees it.
\<close>

theorem account_lock_excludes:
  assumes "lock_step\<^sup>*\<^sup>* s s'" "lk_inside s = []"
  shows "length (lk_inside s') \<le> 1
     \<and> (\<forall>k ends. (k, ends) \<in> set (lk_inside s') \<longrightarrow> cell_get (lk_now s') (lk_cell s') = Some k
          \<and> (\<forall>j ttlMs. \<not> fst (cell_acquire (lk_now s') j ttlMs (lk_cell s')))
          \<and> (\<forall>j. j \<noteq> k \<longrightarrow> cell_release (lk_now s') j (lk_cell s') = lk_cell s'))"
proof -
  have "lock_inv s'" by (rule lock_steps_inv [OF assms(1)]) (use assms(2) in \<open>simp add: lock_inv_def\<close>)
  then show ?thesis by (auto simp: lock_inv_def cell_get_def cell_acquire_def cell_release_def)
qed

text \<open>
  Acquisition ends. Under a clock that ticks at least \<open>RETRY_MS\<close> per attempt \<open>withLock\<close> returns: it runs the
  critical section at the first attempt that meets a free or expired key, or it times out having
  met a held key at every attempt before the deadline.
\<close>

lemma with_lock_returns:
  assumes "\<And>n. clock n + RETRY_MS \<le> clock (Suc n)"
  shows "\<exists>n. spin_stops (start + ttlMs * 2) clock cells n
     \<and> withLock ttlMs start clock cells fn timeout = Some (if cell_get (clock n) (cells n) = None then fn n else Inl timeout)"
proof -
  obtain n where n: "spin_stops (start + ttlMs * 2) clock cells n"
    "acquire_loop ttlMs (start + ttlMs * 2) clock cells 0 = Some (if cell_get (clock n) (cells n) = None then Some n else None)"
    using acquire_loop_stops [of clock, OF assms] by blast
  then show ?thesis by (intro exI [of _ n]) (simp add: withLock_def)
qed

section \<open>Instances\<close>

text \<open>A leg whose transaction is never found: the poll gives up after the last read.\<close>

definition lost_tx :: tx_rpc where
  "lost_tx = \<lparr>tr_lock = True, tr_account = Rpc (), tr_sim = Rpc (SimOk [True] 200), tr_send = Rpc (Send_pending ''tx9''),
     tr_start = 20000, tr_clock = (\<lambda>n. 25000 + int n * 6000), tr_get = (\<lambda>n. Rpc Tx_not_found), tr_lands = False\<rparr>"

lemma escrow_leg_ends_within_lock_witness:
  "closeOffering \<lparr>ac_max_fee = 1000, ac_poll_timeout = 30000, ac_wasm = ''w''\<rparr> lost_tx \<noteq> None
   \<and> (\<exists>n. poll_stops lost_tx 50000 n \<and> tr_clock lost_tx n + 10000 \<le> 71000)"
proof -
  let ?cfg = "\<lparr>ac_max_fee = 1000, ac_poll_timeout = 30000, ac_wasm = ''w''\<rparr>"
  have "leg_timed lost_tx 0 4" by (simp add: leg_timed_def lost_tx_def POLL_INTERVAL_MS_def)
  from escrow_leg_ends_within_lock [OF this, of ?cfg] show ?thesis
    by (simp add: lock_ttl_def POLL_INTERVAL_MS_def lost_tx_def)
qed

lemma account_lock_excludes_witness:
  "\<exists>s'. lock_step\<^sup>*\<^sup>* \<lparr>lk_now = 0, lk_cell = None, lk_inside = []\<rparr> s' \<and> lk_inside s' = [(''t1'', 50)] \<and> lk_now s' = 20
     \<and> \<not> fst (cell_acquire 20 ''t2'' 50 (lk_cell s'))"
proof -
  let ?s0 = "\<lparr>lk_now = 0, lk_cell = None, lk_inside = []\<rparr>"
  have "lock_step ?s0 (?s0\<lparr>lk_cell := Some (''t1'', 0 + 50), lk_inside := [(''t1'', 0 + 50)]\<rparr>)"
    using lock_step.enter [of ?s0 "''t1''" 50 "Some (''t1'', 0 + 50)"] by (simp add: cell_acquire_def cell_get_def)
  then have e: "lock_step ?s0 \<lparr>lk_now = 0, lk_cell = Some (''t1'', 50), lk_inside = [(''t1'', 50)]\<rparr>" by simp
  have "lock_step \<lparr>lk_now = 0, lk_cell = Some (''t1'', 50), lk_inside = [(''t1'', 50)]\<rparr>
      \<lparr>lk_now = 20, lk_cell = Some (''t1'', 50), lk_inside = [(''t1'', 50)]\<rparr>"
    using lock_step.tick [of "\<lparr>lk_now = 0, lk_cell = Some (''t1'', 50), lk_inside = [(''t1'', 50)]\<rparr>" 20] by simp
  with e have r: "lock_step\<^sup>*\<^sup>* ?s0 \<lparr>lk_now = 20, lk_cell = Some (''t1'', 50), lk_inside = [(''t1'', 50)]\<rparr>"
    by (meson r_into_rtranclp rtranclp.rtrancl_into_rtrancl)
  from account_lock_excludes [OF this] have "\<not> fst (cell_acquire 20 ''t2'' 50 (Some (''t1'', 50)))" by simp
  with r show ?thesis by (intro exI [of _ "\<lparr>lk_now = 20, lk_cell = Some (''t1'', 50), lk_inside = [(''t1'', 50)]\<rparr>"]) simp
qed

lemma with_lock_returns_witness:
  "\<exists>n. spin_stops 200 (\<lambda>n. int n * 75) (\<lambda>_. Some (''t1'', 150)) n
     \<and> withLock 100 0 (\<lambda>n. int n * 75) (\<lambda>_. Some (''t1'', 150)) (\<lambda>n. Inr n) ''timeout'' = Some (Inr n)"
proof -
  have "\<And>n. int n * 75 + RETRY_MS \<le> int (Suc n) * 75" by (simp add: RETRY_MS_def)
  from with_lock_returns [of "\<lambda>n. int n * 75" 0 100 "\<lambda>_. Some (''t1'', 150)" "\<lambda>n. Inr n" "''timeout''", OF this] obtain n where
    n: "spin_stops 200 (\<lambda>n. int n * 75) (\<lambda>_. Some (''t1'', 150)) n"
    "withLock 100 0 (\<lambda>n. int n * 75) (\<lambda>_. Some (''t1'', 150)) (\<lambda>n. Inr n) ''timeout''
      = Some (if cell_get (int n * 75) (Some (''t1'', 150)) = None then Inr n else Inl ''timeout'')"
    by auto
  then have "cell_get (int n * 75) (Some (''t1'', 150)) = None" by (auto simp: spin_stops_def cell_get_def split: if_splits)
  with n show ?thesis by auto
qed

end
