(* ===== verification/Settle_Main.thy ===== *)
theory Settle_Main
  imports Settle_Run Bids_Main Account_Lock
begin

text \<open>
  Concrete settlements: the offering and the book that mirror the contract of \<open>Escrow_Contract_Main\<close>,
  a settle job on them, and a run against the contract.
\<close>

section \<open>A sold-out offering\<close>

definition sold_offering :: offering where
  "sold_offering = sample_offering\<lparr>of_status := O_subscribed, of_float := 6, of_supply := 10, of_artist_retention := 3,
     of_treasury_retention := 1, of_deploy := Some D_deployed, of_escrow := Some ''CE''\<rparr>"

definition sold_bid :: "ident \<Rightarrow> int \<Rightarrow> int \<Rightarrow> int \<Rightarrow> offering_bid" where
  "sold_bid b c p n = escrowed_bid\<lparr>bd_id := b, bd_sub := b, bd_price := p, bd_count := n, bd_chain := Some c\<rparr>"

definition sold_db :: odb where
  "sold_db = sample_db\<lparr>db_offerings := [sold_offering], db_bids := [sold_bid ''b1'' 1 10 4, sold_bid ''b2'' 2 8 4]\<rparr>"

text \<open>The settlement leg succeeds at once: simulated, sent, found in ledger 77.\<close>

definition sample_adapter :: adapter_config where
  "sample_adapter = \<lparr>ac_max_fee = 1000, ac_poll_timeout = 30000, ac_wasm = ''w''\<rparr>"

definition good_tx :: tx_rpc where
  "good_tx = \<lparr>tr_lock = True, tr_account = Rpc (), tr_sim = Rpc (SimOk [True] 200), tr_send = Rpc (Send_pending ''tx9''),
     tr_start = 300, tr_clock = (\<lambda>n. 300), tr_get = (\<lambda>n. Rpc (Tx_success 77 None)), tr_lands = True\<rparr>"

definition good_rpc :: settle_rpc where
  "good_rpc = \<lparr>sr_status = Inr V_closed, sr_close = good_tx\<lparr>tr_lock := False, tr_lands := False, tr_get := (\<lambda>n. RpcError)\<rparr>,
     sr_late = None, sr_status2 = Inr V_closed, sr_tx = good_tx\<rparr>"

definition good_port :: settle_port where
  "good_port = \<lparr>sp_status = Inr V_closed, sp_close = Inl SE_other,
     sp_settle = (\<lambda>P al. bindE (encodeAllocations al) (\<lambda>_. Inr (SettledTx ''tx9'' 77)))\<rparr>"

definition settle_sold :: "job_outcome \<times> odb" where
  "settle_sold = settle_process sample_cfg True True 300 (\<lambda>_. (''Error'', '''')) good_port ''o1'' sold_db"

lemma sold_facts:
  "find_offering ''o1'' (db_offerings sold_db) = Some sold_offering" "of_status sold_offering = O_subscribed"
  "distinct (map bd_id (db_bids sold_db))" "distinct (map bd_chain (listBidsForClearing ''o1'' (db_bids sold_db)))"
  by code_simp+

lemma settle_sold_done: "fst settle_sold = JobDone"
  by code_simp

lemma settle_sold_eq: "settle_process sample_cfg True True 300 (\<lambda>_. (''Error'', '''')) good_port ''o1'' sold_db
    = (JobDone, snd settle_sold)"
  using settle_sold_done by (metis prod.collapse settle_sold_def)


lemma settlement_receipts_balance_witness:
  "\<exists>snap. db_clearing (snd settle_sold) = [snap] \<and> ca_proceeds snap = ca_price snap * 6
     \<and> ca_fee snap + ca_net snap = ca_proceeds snap"
proof -
  have "db_clearing sold_db = []" "of_float sold_offering = 6" by code_simp+
  with settlement_receipts_balance [OF settle_sold_eq sold_facts] show ?thesis by auto
qed

definition open_sold_db :: odb where
  "open_sold_db = sold_db\<lparr>db_offerings := [sold_offering\<lparr>of_status := O_opened\<rparr>]\<rparr>"

section \<open>A run against the contract\<close>

lemma good_port_answers: "port_answers sample_adapter good_rpc good_port"
proof -
  have "closeAndSettle sample_adapter (Inr V_closed) good_tx al
      = Some (bindE (encodeAllocations al) (\<lambda>_. Inr (SettledTx ''tx9'' 77)))" for al
    by (cases "encodeAllocations al") (simp_all add: closeAndSettle_def good_tx_def sample_adapter_def
        buildSimulateAssemble_def guardE_def sendAndPoll_def pollForLedger_def escrow_poll.simps ledger_final_def)
  then show ?thesis
    by (simp add: port_answers_def good_rpc_def good_port_def closeOffering_def)
qed

lemma sold_args: "args_of sample_cfg sold_offering sold_db = Some (8, [(1, 4), (2, 2)])"
  by code_simp

lemma good_attempt_honest:
  "honest_attempt sample_adapter {''admin''} (\<lambda>_. True) (args_of sample_cfg sold_offering sold_db) good_rpc
     \<lparr>lg_escrow = demo_closed, lg_sent = [], lg_paid = []\<rparr>"
proof -
  obtain t where "close_and_settle {''admin''} (\<lambda>_. True) 8 [(1, 4), (2, 2)] demo_closed = Inr ((), t)"
    using demo_accepted by blast
  moreover have "es_status demo_closed = Esc_closed" by (simp add: demo_closed_eval demo_at_def)
  ultimately show ?thesis
    by (simp add: honest_attempt_def honest_status_def honest_tx_def good_rpc_def good_tx_def before_settle_def late_exec_def
        sold_args sample_adapter_def sent_def)
qed



end
