(* ===== verification/Market_DB.thy ===== *)
theory Market_DB
  imports Bids
begin

text \<open>
  The secondary market's tables (\<open>rfqs\<close>, \<open>rfq_quotes\<close>, \<open>secondary_trades\<close>) and repositories
  (\<open>modules/marketplace/*/repositories\<close>), with the guard triggers of migrations 042 and 045 as
  predicates on the old and the new row. \<open>now\<close> is the database clock of the transaction; a
  conflicting insert affects no row.
\<close>

section \<open>Rows\<close>

datatype rfq_status = RS_open | RS_filled | RS_canceled | RS_expired

datatype quote_status = QS_open | QS_accepted | QS_canceled | QS_expired | QS_superseded

datatype trade_status = TS_pending | TS_settled | TS_failed

record rfq =
  rq_id :: ident
  rq_collector :: ident
  rq_artwork :: ident
  rq_contract :: ident
  rq_count :: int
  rq_max_price :: int
  rq_expires :: instant
  rq_status :: rfq_status
  rq_idem :: string
  rq_fanned :: "instant option"
  rq_created :: instant
  rq_updated :: instant
  rq_deleted :: "instant option"

record rfq_quote =
  qt_id :: ident
  qt_rfq :: ident
  qt_holder :: ident
  qt_contract :: ident
  qt_count :: int
  qt_price :: int
  qt_valid_until :: instant
  qt_status :: quote_status
  qt_reason :: "string option"
  qt_auth :: "string option"
  qt_auth_ledger :: "int option"
  qt_wallet :: "ident option"
  qt_authorized_at :: "instant option"
  qt_idem :: string
  qt_created :: instant
  qt_updated :: instant
  qt_deleted :: "instant option"

record trade =
  td_id :: ident
  td_rfq :: ident
  td_quote :: ident
  td_buyer :: ident
  td_seller :: ident
  td_contract :: ident
  td_count :: int
  td_price :: int
  td_status :: trade_status
  td_failure :: "string option"
  td_tx :: "ident option"
  td_settled_at :: "instant option"
  td_idem :: string
  td_created :: instant
  td_updated :: instant
  td_deleted :: "instant option"

text \<open>The STORED generated column.\<close>

definition td_gross :: "trade \<Rightarrow> int" where
  "td_gross t = td_count t * td_price t"

record mdb =
  mk_rfqs :: "rfq list"
  mk_quotes :: "rfq_quote list"
  mk_trades :: "trade list"
  mk_contracts :: "fraction_contract list"
  mk_artworks :: "ident list"
  mk_audit :: "audit_entry list"

text \<open>\<open>FractionContractRepository\<close>'s two reads and \<open>ArtworkRepository.findOneById\<close> as these handlers use them.\<close>

definition mk_find_contract :: "ident \<Rightarrow> mdb \<Rightarrow> fraction_contract option" where
  "mk_find_contract i d = sql_find (\<lambda>f. fc_id f = i \<and> fc_deleted f = None) (mk_contracts d)"

definition mk_active_contract :: "ident \<Rightarrow> mdb \<Rightarrow> fraction_contract option" where
  "mk_active_contract artwork d = sql_find (\<lambda>f. fc_artwork f = artwork
     \<and> fc_status f \<in> {FC_deploying, FC_deployed} \<and> fc_deleted f = None) (mk_contracts d)"

definition mk_record :: "audit_entry \<Rightarrow> mdb \<Rightarrow> mdb" where
  "mk_record e d = d\<lparr>mk_audit := mk_audit d @ [e]\<rparr>"

section \<open>RfqRepository\<close>

record new_rfq =
  nr_collector :: ident
  nr_artwork :: ident
  nr_contract :: ident
  nr_count :: int
  nr_max_price :: int
  nr_expires :: instant
  nr_idem :: string

definition rfq_row :: "instant \<Rightarrow> ident \<Rightarrow> new_rfq \<Rightarrow> rfq" where
  "rfq_row now i n = \<lparr>rq_id = i, rq_collector = nr_collector n, rq_artwork = nr_artwork n, rq_contract = nr_contract n,
     rq_count = nr_count n, rq_max_price = nr_max_price n, rq_expires = nr_expires n, rq_status = RS_open,
     rq_idem = nr_idem n, rq_fanned = None, rq_created = now, rq_updated = now, rq_deleted = None\<rparr>"

definition rfq_insertOpen :: "instant \<Rightarrow> ident \<Rightarrow> new_rfq \<Rightarrow> rfq list \<Rightarrow> rfq option \<times> rfq list" where
  "rfq_insertOpen now i n t =
     (if list_ex (\<lambda>r. rq_collector r = nr_collector n \<and> rq_idem r = nr_idem n) t then (None, t)
      else (Some (rfq_row now i n), t @ [rfq_row now i n]))"

definition countActiveOpenByCollector :: "ident \<Rightarrow> rfq list \<Rightarrow> nat" where
  "countActiveOpenByCollector u t =
     sql_count (\<lambda>r. rq_collector r = u \<and> rq_status r = RS_open \<and> rq_deleted r = None) t"

definition latchFannedOut :: "instant \<Rightarrow> ident \<Rightarrow> rfq list \<Rightarrow> rfq list \<times> bool" where
  "latchFannedOut now i = cas_rows (\<lambda>r. rq_id r = i \<and> rq_fanned r = None)
     (\<lambda>r. r\<lparr>rq_fanned := Some now, rq_updated := now\<rparr>)"

definition findUnfannedSince :: "instant \<Rightarrow> int \<Rightarrow> int \<Rightarrow> nat \<Rightarrow> rfq list \<Rightarrow> ident list" where
  "findUnfannedSince now window grace limit t = map rq_id (take limit (sort_key rq_created
     (filter (\<lambda>r. rq_fanned r = None \<and> rq_deleted r = None
        \<and> rq_created r \<ge> now - window \<and> rq_created r < now - grace) t)))"

definition casFilled :: "instant \<Rightarrow> ident \<Rightarrow> rfq list \<Rightarrow> rfq list \<times> bool" where
  "casFilled now i = cas_rows (\<lambda>r. rq_id r = i \<and> rq_status r = RS_open)
     (\<lambda>r. r\<lparr>rq_status := RS_filled, rq_updated := now\<rparr>)"

definition find_rfq :: "ident \<Rightarrow> rfq list \<Rightarrow> rfq option" where
  "find_rfq i t = sql_find (\<lambda>r. rq_id r = i \<and> rq_deleted r = None) t"

section \<open>QuoteRepository\<close>

record new_quote =
  nq_rfq :: ident
  nq_holder :: ident
  nq_contract :: ident
  nq_count :: int
  nq_price :: int
  nq_valid_until :: instant
  nq_idem :: string

definition quote_row :: "instant \<Rightarrow> ident \<Rightarrow> new_quote \<Rightarrow> rfq_quote" where
  "quote_row now i n = \<lparr>qt_id = i, qt_rfq = nq_rfq n, qt_holder = nq_holder n, qt_contract = nq_contract n,
     qt_count = nq_count n, qt_price = nq_price n, qt_valid_until = nq_valid_until n, qt_status = QS_open,
     qt_reason = None, qt_auth = None, qt_auth_ledger = None, qt_wallet = None, qt_authorized_at = None,
     qt_idem = nq_idem n, qt_created = now, qt_updated = now, qt_deleted = None\<rparr>"

text \<open>\<open>None\<close> is the violated CHECK \<open>CHK_quotes_validity\<close>.\<close>

definition quote_insertOpen ::
  "instant \<Rightarrow> ident \<Rightarrow> new_quote \<Rightarrow> rfq_quote list \<Rightarrow> (rfq_quote option \<times> rfq_quote list) option" where
  "quote_insertOpen now i n t =
     (if \<not> nq_valid_until n > now then None
      else if list_ex (\<lambda>q. qt_holder q = nq_holder n \<and> qt_rfq q = nq_rfq n \<and> qt_idem q = nq_idem n) t
        then Some (None, t)
      else Some (Some (quote_row now i n), t @ [quote_row now i n]))"

definition hasOpenQuoteForRfq :: "instant option \<Rightarrow> ident \<Rightarrow> ident \<Rightarrow> rfq_quote list \<Rightarrow> bool" where
  "hasOpenQuoteForRfq excludeLapsed rfqId holder t = list_ex (\<lambda>q. qt_rfq q = rfqId \<and> qt_holder q = holder
     \<and> qt_status q = QS_open \<and> qt_deleted q = None
     \<and> (case excludeLapsed of None \<Rightarrow> True | Some now \<Rightarrow> qt_valid_until q > now)) t"

definition open_locked :: "instant \<Rightarrow> ident \<Rightarrow> ident \<Rightarrow> rfq_quote \<Rightarrow> bool" where
  "open_locked now holder contract q \<longleftrightarrow> qt_holder q = holder \<and> qt_contract q = contract \<and> qt_status q = QS_open
     \<and> qt_valid_until q > now \<and> qt_deleted q = None"

definition sumOpenLockedCount :: "instant \<Rightarrow> ident \<Rightarrow> ident \<Rightarrow> rfq_quote list \<Rightarrow> int" where
  "sumOpenLockedCount now holder contract t = sum_list (map qt_count (filter (open_locked now holder contract) t))"

definition reapLapsed :: "instant \<Rightarrow> ident \<Rightarrow> ident \<Rightarrow> rfq_quote list \<Rightarrow> rfq_quote list \<times> nat" where
  "reapLapsed now holder contract = sql_update
     (\<lambda>q. qt_holder q = holder \<and> qt_contract q = contract \<and> qt_status q = QS_open \<and> qt_valid_until q \<le> now
        \<and> qt_deleted q = None)
     (\<lambda>q. q\<lparr>qt_status := QS_expired, qt_updated := now\<rparr>)"

definition quote_findByIdempotency :: "ident \<Rightarrow> ident \<Rightarrow> string \<Rightarrow> rfq_quote list \<Rightarrow> rfq_quote option" where
  "quote_findByIdempotency holder rfqId idem t =
     sql_find (\<lambda>q. qt_holder q = holder \<and> qt_rfq q = rfqId \<and> qt_idem q = idem \<and> qt_deleted q = None) t"

definition find_quote :: "ident \<Rightarrow> rfq_quote list \<Rightarrow> rfq_quote option" where
  "find_quote i t = sql_find (\<lambda>q. qt_id q = i \<and> qt_deleted q = None) t"

text \<open>The open quotes of an RFQ as its buyer sees them, with the derived flag \<open>acceptable\<close>.\<close>

definition findOpenQuotesForRfq :: "instant \<Rightarrow> ident \<Rightarrow> rfq_quote list \<Rightarrow> (ident \<times> int \<times> int \<times> int \<times> bool) list" where
  "findOpenQuotesForRfq now rfqId t = map (\<lambda>q. (qt_id q, qt_count q, qt_price q, qt_count q * qt_price q,
       qt_status q = QS_open \<and> qt_auth q \<noteq> None \<and> qt_valid_until q > now))
     (sort_key (\<lambda>q. (qt_price q, qt_created q))
        (filter (\<lambda>q. qt_rfq q = rfqId \<and> qt_status q = QS_open \<and> qt_deleted q = None) t))"

definition markAuthorized ::
  "instant \<Rightarrow> ident \<Rightarrow> string \<Rightarrow> int \<Rightarrow> ident \<Rightarrow> rfq_quote list \<Rightarrow> rfq_quote list \<times> bool" where
  "markAuthorized now i entry ledger wallet = cas_rows (\<lambda>q. qt_id q = i \<and> qt_status q = QS_open)
     (\<lambda>q. q\<lparr>qt_auth := Some entry, qt_auth_ledger := Some ledger, qt_wallet := Some wallet,
            qt_authorized_at := Some now, qt_updated := now\<rparr>)"

definition sumAuthorizedLockedCount :: "instant \<Rightarrow> ident \<Rightarrow> ident \<Rightarrow> ident \<Rightarrow> rfq_quote list \<Rightarrow> int" where
  "sumAuthorizedLockedCount now holder contract exclude t = sum_list (map qt_count
     (filter (\<lambda>q. open_locked now holder contract q \<and> qt_auth q \<noteq> None \<and> qt_id q \<noteq> exclude) t))"

definition findAcceptable :: "instant \<Rightarrow> ident \<Rightarrow> ident \<Rightarrow> rfq_quote list \<Rightarrow> rfq_quote option" where
  "findAcceptable now rfqId i t = sql_find (\<lambda>q. qt_id q = i \<and> qt_rfq q = rfqId \<and> qt_status q = QS_open
     \<and> qt_auth q \<noteq> None \<and> qt_valid_until q > now \<and> qt_deleted q = None) t"

definition casAccepted :: "instant \<Rightarrow> ident \<Rightarrow> rfq_quote list \<Rightarrow> rfq_quote list \<times> bool" where
  "casAccepted now i = cas_rows (\<lambda>q. qt_id q = i \<and> qt_status q = QS_open)
     (\<lambda>q. q\<lparr>qt_status := QS_accepted, qt_updated := now\<rparr>)"

definition expireWithReason :: "instant \<Rightarrow> ident \<Rightarrow> string \<Rightarrow> rfq_quote list \<Rightarrow> rfq_quote list \<times> bool" where
  "expireWithReason now i reason = cas_rows (\<lambda>q. qt_id q = i \<and> qt_status q = QS_open)
     (\<lambda>q. q\<lparr>qt_status := QS_expired, qt_reason := Some reason, qt_updated := now\<rparr>)"

definition supersedeOpenRivals :: "instant \<Rightarrow> ident \<Rightarrow> ident \<Rightarrow> rfq_quote list \<Rightarrow> rfq_quote list \<times> nat" where
  "supersedeOpenRivals now rfqId except = sql_update (\<lambda>q. qt_rfq q = rfqId \<and> qt_id q \<noteq> except \<and> qt_status q = QS_open)
     (\<lambda>q. q\<lparr>qt_status := QS_superseded, qt_updated := now\<rparr>)"

section \<open>SecondaryTradeRepository\<close>

record new_trade =
  nt_rfq :: ident
  nt_quote :: ident
  nt_buyer :: ident
  nt_seller :: ident
  nt_contract :: ident
  nt_count :: int
  nt_price :: int
  nt_idem :: string

definition trade_row :: "instant \<Rightarrow> ident \<Rightarrow> new_trade \<Rightarrow> trade" where
  "trade_row now i n = \<lparr>td_id = i, td_rfq = nt_rfq n, td_quote = nt_quote n, td_buyer = nt_buyer n,
     td_seller = nt_seller n, td_contract = nt_contract n, td_count = nt_count n, td_price = nt_price n,
     td_status = TS_pending, td_failure = None, td_tx = None, td_settled_at = None, td_idem = nt_idem n,
     td_created = now, td_updated = now, td_deleted = None\<rparr>"

definition insertPending :: "instant \<Rightarrow> ident \<Rightarrow> new_trade \<Rightarrow> trade list \<Rightarrow> trade option \<times> trade list" where
  "insertPending now i n t =
     (if list_ex (\<lambda>x. td_buyer x = nt_buyer n \<and> td_rfq x = nt_rfq n \<and> td_idem x = nt_idem n) t then (None, t)
      else (Some (trade_row now i n), t @ [trade_row now i n]))"

definition findPendingByRfq :: "ident \<Rightarrow> trade list \<Rightarrow> trade option" where
  "findPendingByRfq rfqId t = sql_find (\<lambda>x. td_rfq x = rfqId \<and> td_status x = TS_pending \<and> td_deleted x = None) t"

definition trade_findByIdempotency :: "ident \<Rightarrow> ident \<Rightarrow> string \<Rightarrow> trade list \<Rightarrow> trade option" where
  "trade_findByIdempotency buyer rfqId idem t =
     sql_find (\<lambda>x. td_buyer x = buyer \<and> td_rfq x = rfqId \<and> td_idem x = idem \<and> td_deleted x = None) t"

definition find_trade :: "ident \<Rightarrow> trade list \<Rightarrow> trade option" where
  "find_trade i t = sql_find (\<lambda>x. td_id x = i \<and> td_deleted x = None) t"

definition trade_casSettled :: "instant \<Rightarrow> ident \<Rightarrow> ident option \<Rightarrow> trade list \<Rightarrow> trade list \<times> bool" where
  "trade_casSettled now i tx = cas_rows (\<lambda>x. td_id x = i \<and> td_status x = TS_pending)
     (\<lambda>x. x\<lparr>td_status := TS_settled, td_tx := tx, td_settled_at := Some now, td_updated := now\<rparr>)"

definition trade_casFailed :: "instant \<Rightarrow> ident \<Rightarrow> string \<Rightarrow> trade list \<Rightarrow> trade list \<times> bool" where
  "trade_casFailed now i reason = cas_rows (\<lambda>x. td_id x = i \<and> td_status x = TS_pending)
     (\<lambda>x. x\<lparr>td_status := TS_failed, td_failure := Some reason, td_updated := now\<rparr>)"

definition findLatestForBuyerRfq :: "ident \<Rightarrow> ident \<Rightarrow> trade list \<Rightarrow> trade option" where
  "findLatestForBuyerRfq buyer rfqId t = (case rev (sort_key (\<lambda>x. (td_created x, td_id x))
       (filter (\<lambda>x. td_buyer x = buyer \<and> td_rfq x = rfqId \<and> td_deleted x = None) t)) of
     [] \<Rightarrow> None | x # _ \<Rightarrow> Some x)"

definition findStalePending :: "instant \<Rightarrow> int \<Rightarrow> nat \<Rightarrow> trade list \<Rightarrow> trade list" where
  "findStalePending now grace batch t = take batch (sort_key td_created
     (filter (\<lambda>x. td_status x = TS_pending \<and> td_deleted x = None \<and> td_created x < now - grace) t))"

section \<open>CHECK constraints\<close>

definition chk_rfq :: "rfq \<Rightarrow> bool" where
  "chk_rfq r \<longleftrightarrow> 0 < rq_count r \<and> rq_count r \<le> MAX_STROOPS \<and> 0 < rq_max_price r \<and> rq_max_price r \<le> MAX_STROOPS
     \<and> rq_expires r > rq_created r"

definition chk_quote :: "rfq_quote \<Rightarrow> bool" where
  "chk_quote q \<longleftrightarrow> 0 < qt_count q \<and> qt_count q \<le> MAX_STROOPS \<and> 0 < qt_price q \<and> qt_price q \<le> MAX_STROOPS
     \<and> qt_valid_until q > qt_created q"

definition chk_trade :: "trade \<Rightarrow> bool" where
  "chk_trade t \<longleftrightarrow> 0 < td_count t \<and> td_count t \<le> MAX_STROOPS \<and> 0 < td_price t \<and> td_price t \<le> MAX_STROOPS
     \<and> td_gross t \<le> MAX_I128"

section \<open>The guard triggers\<close>

definition rfqs_guard :: "rfq \<Rightarrow> rfq \<Rightarrow> bool" where
  "rfqs_guard r s \<longleftrightarrow> rq_deleted s = rq_deleted r
     \<and> rq_id s = rq_id r \<and> rq_collector s = rq_collector r \<and> rq_artwork s = rq_artwork r \<and> rq_contract s = rq_contract r
     \<and> rq_count s = rq_count r \<and> rq_max_price s = rq_max_price r \<and> rq_idem s = rq_idem r \<and> rq_expires s = rq_expires r
     \<and> rq_created s = rq_created r
     \<and> (rq_fanned r \<noteq> None \<longrightarrow> rq_fanned s = rq_fanned r)
     \<and> (rq_status r \<noteq> rq_status s \<longrightarrow> rq_status r = RS_open \<and> rq_status s \<in> {RS_filled, RS_canceled, RS_expired})"

definition quotes_guard :: "rfq_quote \<Rightarrow> rfq_quote \<Rightarrow> bool" where
  "quotes_guard r s \<longleftrightarrow> qt_deleted s = qt_deleted r
     \<and> qt_id s = qt_id r \<and> qt_rfq s = qt_rfq r \<and> qt_holder s = qt_holder r \<and> qt_contract s = qt_contract r
     \<and> qt_count s = qt_count r \<and> qt_price s = qt_price r \<and> qt_valid_until s = qt_valid_until r
     \<and> qt_idem s = qt_idem r \<and> qt_created s = qt_created r
     \<and> (qt_status r \<noteq> qt_status s \<longrightarrow> qt_status r = QS_open
          \<and> qt_status s \<in> {QS_accepted, QS_canceled, QS_expired, QS_superseded})"

definition trades_guard :: "trade \<Rightarrow> trade \<Rightarrow> bool" where
  "trades_guard r s \<longleftrightarrow> td_deleted s = td_deleted r
     \<and> td_id s = td_id r \<and> td_rfq s = td_rfq r \<and> td_quote s = td_quote r \<and> td_buyer s = td_buyer r
     \<and> td_seller s = td_seller r \<and> td_contract s = td_contract r \<and> td_count s = td_count r \<and> td_price s = td_price r
     \<and> td_idem s = td_idem r \<and> td_created s = td_created r
     \<and> (td_tx r \<noteq> None \<longrightarrow> td_tx s = td_tx r) \<and> (td_settled_at r \<noteq> None \<longrightarrow> td_settled_at s = td_settled_at r)
     \<and> (td_status r \<noteq> td_status s \<longrightarrow> td_status r = TS_pending \<and> td_status s \<in> {TS_settled, TS_failed})"

end
