(* ===== verification/Market_Quotes.thy ===== *)
theory Market_Quotes
  imports Market_DB
begin

text \<open>
  Requests and quotes of the secondary market: \<open>RfqsService.create\<close> with its balance advisor,
  \<open>RfqDetailService.getDetail\<close> and \<open>QuotesService.submit\<close>. Each handler is split where other
  requests may run, between its reads and its transaction. Chain reads, the digest, fresh ids and
  the enqueue's success are arguments; \<open>json\<close> is \<open>JSON.stringify\<close> of the body's fields in order.
\<close>

section \<open>Constants\<close>

definition DEFAULT_EXPIRY_HOURS :: int where
  "DEFAULT_EXPIRY_HOURS = 48"

definition MAX_ACTIVE_OPEN_RFQS :: nat where
  "MAX_ACTIVE_OPEN_RFQS = 25"

definition MS_PER_HOUR :: int where
  "MS_PER_HOUR = 3600000"

section \<open>RfqBalanceAdvisor\<close>

text \<open>\<open>holdings\<close>: \<open>None\<close> is a failed or late read, \<open>Some None\<close> a wallet without the token.\<close>

definition warnIfInsufficient ::
  "bid_env \<Rightarrow> (ident \<Rightarrow> string option option) \<Rightarrow> ident \<Rightarrow> int \<Rightarrow> (int \<times> string) option" where
  "warnIfInsufficient env holdings userId required =
     (case resolveEmbeddedWalletForUser userId (be_identity env) of
        None \<Rightarrow> None
      | Some (wallet, _) \<Rightarrow> (case holdings wallet of
          None \<Rightarrow> None
        | Some h \<Rightarrow>
            let available = (case h of None \<Rightarrow> ''0'' | Some s \<Rightarrow> s)
            in if BigInt available < required then Some (required, available) else None))"

section \<open>RfqsService.create\<close>

record create_rfq_dto =
  cr_artwork_id :: ident
  cr_fractions :: int
  cr_max_price :: string
  cr_hours :: "int option"

text \<open>The pipe's constraints on the two bodies (\<open>MAX_SAFE_INTEGER\<close> is \<open>2 ^ 53 - 1\<close>).\<close>

definition create_rfq_dto_ok :: "create_rfq_dto \<Rightarrow> bool" where
  "create_rfq_dto_ok dto \<longleftrightarrow> STROOPS_RE (cr_max_price dto) \<and> length (cr_max_price dto) \<le> 39
     \<and> 1 \<le> cr_fractions dto \<and> cr_fractions dto \<le> 2 ^ 53 - 1
     \<and> (case cr_hours dto of None \<Rightarrow> True | Some h \<Rightarrow> 1 \<le> h \<and> h \<le> 168)"

definition expiry_hours :: "create_rfq_dto \<Rightarrow> int" where
  "expiry_hours dto = (case cr_hours dto of None \<Rightarrow> DEFAULT_EXPIRY_HOURS | Some h \<Rightarrow> h)"

text \<open>The gates, up to the soft warning: the total price and the contract.\<close>

definition rfq_gates :: "bid_env \<Rightarrow> ident \<Rightarrow> create_rfq_dto \<Rightarrow> mdb \<Rightarrow> http_error + int \<times> ident" where
  "rfq_gates env userId dto d =
     (let price = BigInt (cr_max_price dto); required = price * cr_fractions dto in
      if findKycStatusByUserId userId (be_identity env) \<noteq> Some K_whitelisted
        then Inl (FailHttp ''RFQ_NOT_WHITELISTED'' 403)
      else if countActiveOpenByCollector userId (mk_rfqs d) \<ge> MAX_ACTIVE_OPEN_RFQS
        then Inl (FailHttp ''RFQ_TOO_MANY_ACTIVE'' 422)
      else if price < 1 \<or> price > MAX_STROOPS then Inl (FailHttp ''RFQ_INVALID_PRICE'' 422)
      else if required > MAX_I128 then Inl (FailHttp ''RFQ_AMOUNT_OVERFLOW'' 422)
      else if cr_artwork_id dto \<notin> set (mk_artworks d) then Inl (FailHttp ''ARTWORK_NOT_FOUND'' 404)
      else case mk_active_contract (cr_artwork_id dto) d of
        None \<Rightarrow> Inl (FailHttp ''RFQ_ARTWORK_NOT_FRACTIONALIZED'' 422)
      | Some c \<Rightarrow> if fc_status c \<noteq> FC_deployed then Inl (FailHttp ''RFQ_ARTWORK_NOT_FRACTIONALIZED'' 422)
          else Inr (required, fc_id c))"

text \<open>The insert transaction; \<open>None\<close> is the conflict with an earlier request of the same key.\<close>

definition rfq_txn :: "instant \<Rightarrow> ident \<Rightarrow> new_rfq \<Rightarrow> mdb \<Rightarrow> (http_error + rfq option) \<times> mdb" where
  "rfq_txn now new_id n d =
     (if \<not> chk_rfq (rfq_row now new_id n) then (Inl (InternalError ''23514''), d)
      else case rfq_insertOpen now new_id n (mk_rfqs d) of
        (None, _) \<Rightarrow> (Inr None, d)
      | (Some row, t) \<Rightarrow> (Inr (Some row), mk_record \<lparr>ae_kind = ''rfq.created'', ae_actor = Some (nr_collector n),
            ae_subject = rq_id row\<rparr> (d\<lparr>mk_rfqs := t\<rparr>)))"

text \<open>A response: the row and the warning. The work also says which row is new, for the fan-out job.\<close>

type_synonym rfq_body = "rfq \<times> (int \<times> string) option"

definition rfq_work ::
  "bid_env \<Rightarrow> (ident \<Rightarrow> string option option) \<Rightarrow> instant \<Rightarrow> instant \<Rightarrow> ident \<Rightarrow> ident \<Rightarrow> create_rfq_dto \<Rightarrow> string
   \<Rightarrow> mdb \<Rightarrow> mdb \<Rightarrow> (http_error + rfq_body \<times> ident option) \<times> mdb" where
  "rfq_work env holdings now dbnow new_id userId dto idem d d2 =
     (case rfq_gates env userId dto d of
        Inl e \<Rightarrow> (Inl e, d2)
      | Inr (required, contract) \<Rightarrow>
          (case run_txn (rfq_txn dbnow new_id \<lparr>nr_collector = userId, nr_artwork = cr_artwork_id dto,
                  nr_contract = contract, nr_count = cr_fractions dto, nr_max_price = BigInt (cr_max_price dto),
                  nr_expires = now + expiry_hours dto * MS_PER_HOUR, nr_idem = idem\<rparr>) d2 of
             (Inl e, d3) \<Rightarrow> (Inl e, d3)
           | (Inr (Some row), d3) \<Rightarrow> (Inr ((row, warnIfInsufficient env holdings userId required), Some (rq_id row)), d3)
           | (Inr None, d3) \<Rightarrow>
               (case sql_find (\<lambda>r. rq_collector r = userId \<and> rq_idem r = idem \<and> rq_deleted r = None) (mk_rfqs d3) of
                  None \<Rightarrow> (Inl (FailHttp ''IDEMPOTENCY_KEY_IN_FLIGHT'' 409), d3)
                | Some existing \<Rightarrow> (Inr ((existing, None), None), d3))))"

definition rfq_create ::
  "bid_env \<Rightarrow> (string list \<Rightarrow> string) \<Rightarrow> (ident \<Rightarrow> string option option) \<Rightarrow> instant \<Rightarrow> instant \<Rightarrow> bool \<Rightarrow> bool
   \<Rightarrow> (ident \<times> bool) list \<Rightarrow> (mdb \<Rightarrow> mdb) \<Rightarrow> ident \<Rightarrow> ident \<Rightarrow> create_rfq_dto \<Rightarrow> string \<Rightarrow> rfq_body redis \<times> mdb
   \<Rightarrow> (http_error + rfq_body option) \<times> rfq_body redis \<times> mdb \<times> ident list" where
  "rfq_create env json holdings now dbnow up enq atts meanwhile new_id userId dto idempotencyKey sd =
     (case sd of (s, d) \<Rightarrow>
      let key = ''idem:rfq:'' @ userId @ '':'' @ idempotencyKey;
          fp = be_sha env (json [cr_artwork_id dto, String_of (cr_fractions dto), cr_max_price dto,
                 String_of (expiry_hours dto)])
      in case idem_begin now key fp atts s of
        (Replay b, s') \<Rightarrow> (Inr b, s', d, [])
      | (InFlight, s') \<Rightarrow> (Inl (FailHttp ''IDEMPOTENCY_KEY_IN_FLIGHT'' 409), s', d, [])
      | (Mismatch, s') \<Rightarrow> (Inl (FailHttp ''IDEMPOTENCY_KEY_MISMATCH'' 422), s', d, [])
      | (Proceed token, s') \<Rightarrow>
          (case rfq_work env holdings now dbnow new_id userId dto (be_sha env (userId @ ''|'' @ idempotencyKey))
                  d (meanwhile d) of
             (Inl e, d') \<Rightarrow> (Inl e, idem_fail dbnow key token up s', d', [])
           | (Inr ((row, warning), fresh), d') \<Rightarrow>
               (Inr (Some (row, warning)), idem_complete dbnow key token (row, None) up s', d',
                if enq then (case fresh of None \<Rightarrow> [] | Some i \<Rightarrow> [i]) else [])))"

section \<open>RfqDetailService\<close>

text \<open>\<open>slug\<close> is \<open>slugFallback\<close> of the artwork's title and id.\<close>

definition getDetail ::
  "(ident \<Rightarrow> string) \<Rightarrow> instant \<Rightarrow> ident \<Rightarrow> ident \<Rightarrow> mdb
   \<Rightarrow> http_error + rfq \<times> string option \<times> (ident \<times> int \<times> int \<times> int \<times> bool) list" where
  "getDetail slug now callerSub rfqId d = (case find_rfq rfqId (mk_rfqs d) of
     None \<Rightarrow> Inl (FailHttp ''QUOTE_RFQ_NOT_FOUND'' 404)
   | Some r \<Rightarrow>
       if rq_collector r \<noteq> callerSub then Inl (FailHttp ''QUOTE_RFQ_NOT_FOUND'' 404)
       else Inr (r, if rq_artwork r \<in> set (mk_artworks d) then Some (slug (rq_artwork r)) else None,
              findOpenQuotesForRfq now rfqId (mk_quotes d)))"

section \<open>QuotesService.submit\<close>

record create_quote_dto =
  cq_price :: string
  cq_count :: int
  cq_valid_until :: instant

definition create_quote_dto_ok :: "create_quote_dto \<Rightarrow> bool" where
  "create_quote_dto_ok dto \<longleftrightarrow> STROOPS_RE (cq_price dto) \<and> length (cq_price dto) \<le> 39
     \<and> 1 \<le> cq_count dto \<and> cq_count dto \<le> 2 ^ 53 - 1"

definition loadQuotableRfq :: "instant \<Rightarrow> ident \<Rightarrow> mdb \<Rightarrow> http_error + rfq" where
  "loadQuotableRfq now rfqId d = (case find_rfq rfqId (mk_rfqs d) of
     None \<Rightarrow> Inl (FailHttp ''QUOTE_RFQ_NOT_FOUND'' 404)
   | Some r \<Rightarrow> if rq_status r \<noteq> RS_open then Inl (FailHttp ''QUOTE_RFQ_NOT_OPEN'' 422)
       else if rq_expires r \<le> now then Inl (FailHttp ''QUOTE_RFQ_EXPIRED'' 422)
       else Inr r)"

text \<open>\<open>parseAmount\<close> with \<open>nonNegative\<close>; \<open>None\<close> is \<open>FractionReadUnavailableError\<close>.\<close>

definition parseBalance :: "string option \<Rightarrow> int option" where
  "parseBalance v = (case v of None \<Rightarrow> None
     | Some s \<Rightarrow> if \<not> INTEGER_RE s then None else if BigInt s < 0 then None else Some (BigInt s))"

text \<open>
  \<open>balance token wallet\<close> is \<open>balancesOf\<close>: \<open>None\<close> when the read fails, else what the map holds for
  the token.
\<close>

definition read_fraction_balance :: "(ident \<Rightarrow> ident \<Rightarrow> string option option) \<Rightarrow> ident \<Rightarrow> ident \<Rightarrow> http_error + int" where
  "read_fraction_balance balance token wallet =
     (case Option.bind (balance token wallet) parseBalance of
        None \<Rightarrow> Inl (FailHttp ''QUOTE_BALANCE_UNAVAILABLE'' 503) | Some n \<Rightarrow> Inr n)"

definition resolveContractAndReadBalance ::
  "bid_env \<Rightarrow> (ident \<Rightarrow> ident \<Rightarrow> string option option) \<Rightarrow> ident \<Rightarrow> ident \<Rightarrow> mdb \<Rightarrow> http_error + int" where
  "resolveContractAndReadBalance env balance userId contractId d =
     (case resolveEmbeddedWalletForUser userId (be_identity env) of
        None \<Rightarrow> Inl (FailHttp ''QUOTE_NO_SETTLEMENT_WALLET'' 422)
      | Some (wallet, _) \<Rightarrow> (case mk_find_contract contractId d of
          None \<Rightarrow> Inl (FailHttp ''QUOTE_RFQ_NOT_OPEN'' 422)
        | Some c \<Rightarrow> (case (fc_status c, fc_token c) of
            (FC_deployed, Some token) \<Rightarrow>
              if token = [] then Inl (FailHttp ''QUOTE_RFQ_NOT_OPEN'' 422) else read_fraction_balance balance token wallet
          | _ \<Rightarrow> Inl (FailHttp ''QUOTE_RFQ_NOT_OPEN'' 422))))"

text \<open>Up to the transaction: the RFQ, the validity (capped or not) and the balance read.\<close>

definition quote_gates ::
  "bid_env \<Rightarrow> (ident \<Rightarrow> ident \<Rightarrow> string option option) \<Rightarrow> instant \<Rightarrow> ident \<Rightarrow> ident \<Rightarrow> create_quote_dto \<Rightarrow> mdb
   \<Rightarrow> http_error + rfq \<times> instant \<times> bool \<times> int" where
  "quote_gates env balance now userId rfqId dto d =
     bindE (guardE (findKycStatusByUserId userId (be_identity env) = Some K_whitelisted)
              (FailHttp ''QUOTE_NOT_WHITELISTED'' 403)) (\<lambda>_.
     bindE (loadQuotableRfq now rfqId d) (\<lambda>r.
     bindE (guardE (rq_collector r \<noteq> userId) (FailHttp ''QUOTE_ON_OWN_RFQ'' 422)) (\<lambda>_.
     let price = BigInt (cq_price dto); required = cq_count dto in
     bindE (guardE (\<not> (price < 1 \<or> price > MAX_STROOPS)) (FailHttp ''QUOTE_INVALID_PRICE'' 422)) (\<lambda>_.
     bindE (guardE (\<not> price * required > MAX_I128) (FailHttp ''QUOTE_AMOUNT_OVERFLOW'' 422)) (\<lambda>_.
     bindE (guardE (\<not> cq_valid_until dto \<le> now) (FailHttp ''QUOTE_INVALID_VALIDITY'' 422)) (\<lambda>_.
     let capped = (cq_valid_until dto > rq_expires r);
         validUntil = (if capped then rq_expires r else cq_valid_until dto) in
     bindE (guardE (\<not> hasOpenQuoteForRfq (Some now) rfqId userId (mk_quotes d)) (FailHttp ''QUOTE_ALREADY_OPEN'' 409)) (\<lambda>_.
     bindE (resolveContractAndReadBalance env balance userId (rq_contract r) d) (\<lambda>onchain.
       Inr (r, validUntil, capped, onchain)))))))))"

text \<open>
  The transaction, under the advisory lock of the holder and the token: \<open>now\<close> is the server's
  clock, \<open>dbnow\<close> the database's.
\<close>

definition quote_txn :: "instant \<Rightarrow> instant \<Rightarrow> ident \<Rightarrow> int \<Rightarrow> new_quote \<Rightarrow> mdb \<Rightarrow> (http_error + rfq_quote option) \<times> mdb" where
  "quote_txn now dbnow new_id onchain n d =
     (let t = fst (reapLapsed dbnow (nq_holder n) (nq_contract n) (mk_quotes d)) in
      if hasOpenQuoteForRfq None (nq_rfq n) (nq_holder n) t
        then (Inl (FailHttp ''QUOTE_ALREADY_OPEN'' 409), d\<lparr>mk_quotes := t\<rparr>)
      else if onchain - sumOpenLockedCount dbnow (nq_holder n) (nq_contract n) t < nq_count n
        then (Inl (FailHttp ''QUOTE_INSUFFICIENT_FREE_BALANCE'' 422), d\<lparr>mk_quotes := t\<rparr>)
      else if nq_valid_until n \<le> now then (Inl (FailHttp ''QUOTE_RFQ_EXPIRED'' 422), d\<lparr>mk_quotes := t\<rparr>)
      else case quote_insertOpen dbnow new_id n t of
        None \<Rightarrow> (Inl (FailHttp ''QUOTE_RFQ_EXPIRED'' 422), d\<lparr>mk_quotes := t\<rparr>)
      | Some (None, _) \<Rightarrow> (Inr None, d\<lparr>mk_quotes := t\<rparr>)
      | Some (Some row, t') \<Rightarrow> (Inr (Some row), mk_record \<lparr>ae_kind = ''quote.submitted'', ae_actor = Some (nq_holder n),
            ae_subject = qt_id row\<rparr> (d\<lparr>mk_quotes := t'\<rparr>)))"

text \<open>A response: the row and, for a fresh one, whether its validity was capped.\<close>

type_synonym quote_body = "rfq_quote \<times> bool option"

definition quote_work ::
  "bid_env \<Rightarrow> (ident \<Rightarrow> ident \<Rightarrow> string option option) \<Rightarrow> instant \<Rightarrow> instant \<Rightarrow> instant \<Rightarrow> ident \<Rightarrow> ident \<Rightarrow> ident
   \<Rightarrow> create_quote_dto \<Rightarrow> string \<Rightarrow> mdb \<Rightarrow> mdb \<Rightarrow> (http_error + quote_body) \<times> mdb" where
  "quote_work env balance now now2 dbnow new_id userId rfqId dto idem d d2 =
     (case quote_gates env balance now userId rfqId dto d of
        Inl e \<Rightarrow> (Inl e, d2)
      | Inr (r, validUntil, capped, onchain) \<Rightarrow>
          (case run_txn (quote_txn now2 dbnow new_id onchain \<lparr>nq_rfq = rfqId, nq_holder = userId,
                  nq_contract = rq_contract r, nq_count = cq_count dto, nq_price = BigInt (cq_price dto),
                  nq_valid_until = validUntil, nq_idem = idem\<rparr>) d2 of
             (Inl e, d3) \<Rightarrow> (Inl e, d3)
           | (Inr (Some row), d3) \<Rightarrow> (Inr (row, Some capped), d3)
           | (Inr None, d3) \<Rightarrow> (case quote_findByIdempotency userId rfqId idem (mk_quotes d3) of
               None \<Rightarrow> (Inl (FailHttp ''IDEMPOTENCY_KEY_IN_FLIGHT'' 409), d3)
             | Some existing \<Rightarrow> (Inr (existing, None), d3))))"

definition quote_submit ::
  "bid_env \<Rightarrow> (string list \<Rightarrow> string) \<Rightarrow> (ident \<Rightarrow> ident \<Rightarrow> string option option) \<Rightarrow> instant \<Rightarrow> instant \<Rightarrow> instant
   \<Rightarrow> bool \<Rightarrow> (ident \<times> bool) list \<Rightarrow> (mdb \<Rightarrow> mdb) \<Rightarrow> ident \<Rightarrow> ident \<Rightarrow> ident \<Rightarrow> create_quote_dto \<Rightarrow> string
   \<Rightarrow> quote_body redis \<times> mdb \<Rightarrow> (http_error + quote_body option) \<times> quote_body redis \<times> mdb" where
  "quote_submit env json balance now now2 dbnow up atts meanwhile new_id userId rfqId dto idempotencyKey sd =
     (case sd of (s, d) \<Rightarrow>
      let key = ''idem:quote:'' @ userId @ '':'' @ rfqId @ '':'' @ idempotencyKey;
          fp = be_sha env (json [rfqId, cq_price dto, String_of (cq_count dto), String_of (cq_valid_until dto)]);
          idem = be_sha env (userId @ ''|'' @ rfqId @ ''|'' @ idempotencyKey)
      in case idem_begin now key fp atts s of
        (Replay b, s') \<Rightarrow> (Inr b, s', d)
      | (InFlight, s') \<Rightarrow> (Inl (FailHttp ''IDEMPOTENCY_KEY_IN_FLIGHT'' 409), s', d)
      | (Mismatch, s') \<Rightarrow> (Inl (FailHttp ''IDEMPOTENCY_KEY_MISMATCH'' 422), s', d)
      | (Proceed token, s') \<Rightarrow>
          (case quote_work env balance now now2 dbnow new_id userId rfqId dto idem d (meanwhile d) of
             (Inl e, d') \<Rightarrow> (Inl e, idem_fail now2 key token up s', d')
           | (Inr body, d') \<Rightarrow> (Inr (Some body), idem_complete now2 key token body up s', d')))"

end
