(* ===== verification/Market_Accept.thy ===== *)
theory Market_Accept
  imports Market_Quotes
begin

text \<open>
  The two signatures of a secondary trade: \<open>AuthorizeService\<close> (the seller signs the quote ahead)
  and \<open>AcceptService\<close> (the buyer accepts it, which records the pending trade and queues its
  settlement). The relayer's builds and verifications are arguments; theory \<open>Quote_Settle\<close> models
  its submit path, \<open>Auth_Build\<close> its builds and verifiers.
\<close>

section \<open>The trade tuple\<close>

record accept_args =
  aq_rfq :: string
  aq_quote :: string
  aq_artwork :: string
  aq_buyer :: ident
  aq_seller :: ident
  aq_count :: int
  aq_gross :: int

record settle_cfg =
  ms_settler :: ident
  ms_usdc :: ident
  ms_sig_ledgers :: int
  ms_grace :: int
  ms_batch :: nat

text \<open>\<open>BytesN<32>\<close> of a uuid.\<close>

definition key32 :: "bid_env \<Rightarrow> ident \<Rightarrow> string" where
  "key32 env i = be_sha env i"

section \<open>AuthorizeService\<close>

definition LEDGER_MS :: int where
  "LEDGER_MS = 5000"

record auth_ctx =
  ac_quote :: rfq_quote
  ac_token :: ident
  ac_args :: accept_args

definition resolveSellerWallet :: "bid_env \<Rightarrow> ident \<Rightarrow> http_error + ident \<times> credential_row" where
  "resolveSellerWallet env u = (case resolveEmbeddedWalletForUser u (be_identity env) of
     None \<Rightarrow> Inl (FailHttp ''QUOTE_NO_SETTLEMENT_WALLET'' 422) | Some r \<Rightarrow> Inr r)"

definition resolveBuyerWallet :: "bid_env \<Rightarrow> ident \<Rightarrow> http_error + ident" where
  "resolveBuyerWallet env u = (case resolveEmbeddedWalletForUser u (be_identity env) of
     None \<Rightarrow> Inl (FailHttp ''QUOTE_NOT_AUTHORIZABLE'' 422) | Some (w, _) \<Rightarrow> Inr w)"

text \<open>The token of a deployed contract, if it has one.\<close>

definition deployed_token :: "ident \<Rightarrow> mdb \<Rightarrow> ident option" where
  "deployed_token i d = (case mk_find_contract i d of None \<Rightarrow> None
     | Some c \<Rightarrow> (case (fc_status c, fc_token c) of
         (FC_deployed, Some t) \<Rightarrow> if t = [] then None else Some t | _ \<Rightarrow> None))"

definition auth_context ::
  "bid_env \<Rightarrow> instant \<Rightarrow> ident \<Rightarrow> ident \<Rightarrow> ident \<Rightarrow> ident \<Rightarrow> mdb \<Rightarrow> http_error + auth_ctx" where
  "auth_context env now userId rfqId quoteId sellerWallet d =
     (case find_quote quoteId (mk_quotes d) of
        None \<Rightarrow> Inl (FailHttp ''QUOTE_NOT_FOUND'' 404)
      | Some q \<Rightarrow>
          if qt_holder q \<noteq> userId \<or> qt_rfq q \<noteq> rfqId then Inl (FailHttp ''QUOTE_NOT_FOUND'' 404)
          else if qt_status q \<noteq> QS_open \<or> qt_valid_until q \<le> now then Inl (FailHttp ''QUOTE_NOT_AUTHORIZABLE'' 422)
          else if findKycStatusByUserId userId (be_identity env) \<noteq> Some K_whitelisted
            then Inl (FailHttp ''QUOTE_NOT_WHITELISTED'' 403)
          else (case find_rfq (qt_rfq q) (mk_rfqs d) of
              None \<Rightarrow> Inl (FailHttp ''QUOTE_NOT_FOUND'' 404)
            | Some r \<Rightarrow> bindE (resolveBuyerWallet env (rq_collector r)) (\<lambda>buyerWallet.
                case deployed_token (qt_contract q) d of
                  None \<Rightarrow> Inl (FailHttp ''QUOTE_NOT_AUTHORIZABLE'' 422)
                | Some token \<Rightarrow> Inr \<lparr>ac_quote = q, ac_token = token,
                    ac_args = \<lparr>aq_rfq = key32 env rfqId, aq_quote = key32 env quoteId,
                      aq_artwork = key32 env (rq_artwork r), aq_buyer = buyerWallet, aq_seller = sellerWallet,
                      aq_count = qt_count q, aq_gross = qt_count q * qt_price q\<rparr>\<rparr>)))"

definition sigValidityLedgers :: "instant \<Rightarrow> instant \<Rightarrow> int" where
  "sigValidityLedgers now validUntil = max 1 ((validUntil - now) div LEDGER_MS)"

text \<open>Any failure of the build or of the verifier is one client error.\<close>

definition mapAuthorizeError :: "relayer_throw \<Rightarrow> http_error" where
  "mapAuthorizeError e = FailHttp ''QUOTE_AUTH_INVALID'' 422"

record prepared_auth =
  pa_challenge :: string
  pa_expires :: int
  pa_credential :: credential_row
  pa_entry :: string
  pa_count :: int
  pa_gross :: int
  pa_price :: int

text \<open>A build answers the challenge, the ledger it expires at and the unsigned entry.\<close>

definition authorize_prepare ::
  "bid_env \<Rightarrow> instant \<Rightarrow> (ident \<Rightarrow> ident \<Rightarrow> string option option)
   \<Rightarrow> (accept_args \<Rightarrow> int \<Rightarrow> relayer_throw + string \<times> int \<times> string) \<Rightarrow> ident \<Rightarrow> ident \<Rightarrow> ident \<Rightarrow> mdb
   \<Rightarrow> http_error + prepared_auth" where
  "authorize_prepare env now balance buildSeller userId rfqId quoteId d =
     bindE (resolveSellerWallet env userId) (\<lambda>(wallet, cred).
     bindE (auth_context env now userId rfqId quoteId wallet d) (\<lambda>ctx.
     bindE (read_fraction_balance balance (ac_token ctx) wallet) (\<lambda>onchain.
     bindE (guardE (\<not> onchain < qt_count (ac_quote ctx)) (FailHttp ''QUOTE_OVER_AUTHORIZED'' 422)) (\<lambda>_.
     bindE (mapE mapAuthorizeError (buildSeller (ac_args ctx) (sigValidityLedgers now (qt_valid_until (ac_quote ctx)))))
       (\<lambda>(challenge, expires, entry).
       Inr \<lparr>pa_challenge = challenge, pa_expires = expires, pa_credential = cred, pa_entry = entry,
            pa_count = qt_count (ac_quote ctx), pa_gross = aq_gross (ac_args ctx), pa_price = qt_price (ac_quote ctx)\<rparr>)))))"

text \<open>Up to the transaction; \<open>attach\<close> verifies the assertion and answers the signed entry and its expiry.\<close>

definition authorize_gates ::
  "bid_env \<Rightarrow> instant \<Rightarrow> (ident \<Rightarrow> ident \<Rightarrow> string option option)
   \<Rightarrow> (accept_args \<Rightarrow> string \<Rightarrow> credential_row \<Rightarrow> assertion \<Rightarrow> relayer_throw + string \<times> int)
   \<Rightarrow> ident \<Rightarrow> ident \<Rightarrow> ident \<Rightarrow> assertion \<Rightarrow> mdb \<Rightarrow> http_error + auth_ctx \<times> string \<times> int \<times> int" where
  "authorize_gates env now balance attach userId rfqId quoteId a d =
     bindE (resolveSellerWallet env userId) (\<lambda>(wallet, cred).
     bindE (auth_context env now userId rfqId quoteId wallet d) (\<lambda>ctx.
     case be_decode env (cr_key cred) of
       None \<Rightarrow> Inl (InternalError ''cose'')
     | Some key \<Rightarrow>
         bindE (mapE mapAuthorizeError (attach (ac_args ctx) key cred a)) (\<lambda>(entry, ledger).
         bindE (read_fraction_balance balance (ac_token ctx) wallet) (\<lambda>onchain. Inr (ctx, entry, ledger, onchain)))))"

definition authorize_txn ::
  "instant \<Rightarrow> ident \<Rightarrow> ident \<Rightarrow> ident \<Rightarrow> int \<Rightarrow> int \<Rightarrow> string \<Rightarrow> int \<Rightarrow> ident \<Rightarrow> mdb \<Rightarrow> (http_error + instant) \<times> mdb" where
  "authorize_txn now userId quoteId contract required onchain entry ledger wallet d =
     (if onchain - sumAuthorizedLockedCount now userId contract quoteId (mk_quotes d) < required
        then (Inl (FailHttp ''QUOTE_OVER_AUTHORIZED'' 422), d)
      else case markAuthorized now quoteId entry ledger wallet (mk_quotes d) of
        (t, False) \<Rightarrow> (Inl (FailHttp ''QUOTE_NOT_AUTHORIZABLE'' 422), d\<lparr>mk_quotes := t\<rparr>)
      | (t, True) \<Rightarrow> (Inr now, mk_record \<lparr>ae_kind = ''quote.authorized'', ae_actor = Some userId, ae_subject = quoteId\<rparr>
            (d\<lparr>mk_quotes := t\<rparr>)))"

type_synonym authorize_body = "ident \<times> instant \<times> int"

definition authorize_work ::
  "bid_env \<Rightarrow> instant \<Rightarrow> instant \<Rightarrow> (ident \<Rightarrow> ident \<Rightarrow> string option option)
   \<Rightarrow> (accept_args \<Rightarrow> string \<Rightarrow> credential_row \<Rightarrow> assertion \<Rightarrow> relayer_throw + string \<times> int)
   \<Rightarrow> ident \<Rightarrow> ident \<Rightarrow> ident \<Rightarrow> assertion \<Rightarrow> mdb \<Rightarrow> mdb \<Rightarrow> (http_error + authorize_body) \<times> mdb" where
  "authorize_work env now now2 balance attach userId rfqId quoteId a d d2 =
     (case authorize_gates env now balance attach userId rfqId quoteId a d of
        Inl e \<Rightarrow> (Inl e, d2)
      | Inr (ctx, entry, ledger, onchain) \<Rightarrow>
          (case run_txn (authorize_txn now2 userId quoteId (qt_contract (ac_quote ctx)) (qt_count (ac_quote ctx)) onchain
                  entry ledger (aq_seller (ac_args ctx))) d2 of
             (Inl e, d3) \<Rightarrow> (Inl e, d3)
           | (Inr at, d3) \<Rightarrow> (Inr (quoteId, at, ledger), d3)))"

definition authorize ::
  "bid_env \<Rightarrow> instant \<Rightarrow> instant \<Rightarrow> bool \<Rightarrow> (ident \<times> bool) list \<Rightarrow> (ident \<Rightarrow> ident \<Rightarrow> string option option)
   \<Rightarrow> (accept_args \<Rightarrow> string \<Rightarrow> credential_row \<Rightarrow> assertion \<Rightarrow> relayer_throw + string \<times> int) \<Rightarrow> (mdb \<Rightarrow> mdb)
   \<Rightarrow> ident \<Rightarrow> ident \<Rightarrow> ident \<Rightarrow> assertion \<Rightarrow> string \<Rightarrow> authorize_body redis \<times> mdb
   \<Rightarrow> (http_error + authorize_body option) \<times> authorize_body redis \<times> mdb" where
  "authorize env now now2 up atts balance attach meanwhile userId rfqId quoteId a idempotencyKey sd =
     (case sd of (s, d) \<Rightarrow>
      let key = ''idem:quote-authorize:'' @ userId @ '':'' @ quoteId @ '':'' @ idempotencyKey;
          fp = be_sha env (userId @ ''|'' @ quoteId @ ''|'' @ as_xdr a)
      in case idem_begin now key fp atts s of
        (Replay b, s') \<Rightarrow> (Inr b, s', d)
      | (InFlight, s') \<Rightarrow> (Inl (FailHttp ''IDEMPOTENCY_KEY_IN_FLIGHT'' 409), s', d)
      | (Mismatch, s') \<Rightarrow> (Inl (FailHttp ''IDEMPOTENCY_KEY_MISMATCH'' 422), s', d)
      | (Proceed token, s') \<Rightarrow>
          (case authorize_work env now now2 balance attach userId rfqId quoteId a d (meanwhile d) of
             (Inl e, d') \<Rightarrow> (Inl e, idem_fail now2 key token up s', d')
           | (Inr body, d') \<Rightarrow> (Inr (Some body), idem_complete now2 key token body up s', d')))"

section \<open>AcceptService\<close>

record accept_ctx =
  ax_quote :: rfq_quote
  ax_args :: accept_args

definition assertPartyWhitelisted :: "bid_env \<Rightarrow> ident \<Rightarrow> http_error + unit" where
  "assertPartyWhitelisted env u = guardE (findKycStatusByUserId u (be_identity env) = Some K_whitelisted)
     (FailHttp ''ACCEPT_NOT_WHITELISTED'' 403)"

definition accept_context ::
  "bid_env \<Rightarrow> instant \<Rightarrow> ident \<Rightarrow> ident \<Rightarrow> ident \<Rightarrow> ident \<Rightarrow> mdb \<Rightarrow> http_error + accept_ctx" where
  "accept_context env now userId rfqId quoteId buyerWallet d =
     (case find_rfq rfqId (mk_rfqs d) of
        None \<Rightarrow> Inl (FailHttp ''ACCEPT_NOT_RFQ_BUYER'' 403)
      | Some r \<Rightarrow>
          if rq_collector r \<noteq> userId then Inl (FailHttp ''ACCEPT_NOT_RFQ_BUYER'' 403)
          else if rq_status r \<noteq> RS_open then Inl (FailHttp ''ACCEPT_RFQ_NOT_OPEN'' 422)
          else (case findAcceptable now rfqId quoteId (mk_quotes d) of
              None \<Rightarrow> Inl (case find_quote quoteId (mk_quotes d) of
                  Some q \<Rightarrow> if qt_rfq q = rfqId \<and> qt_status q = QS_open \<and> qt_auth q = None
                    then FailHttp ''ACCEPT_QUOTE_NOT_AUTHORIZED'' 422 else FailHttp ''ACCEPT_QUOTE_NOT_ACCEPTABLE'' 422
                | None \<Rightarrow> FailHttp ''ACCEPT_QUOTE_NOT_ACCEPTABLE'' 422)
            | Some q \<Rightarrow>
                bindE (assertPartyWhitelisted env userId) (\<lambda>_.
                bindE (assertPartyWhitelisted env (qt_holder q)) (\<lambda>_.
                if qt_wallet q \<in> {None, Some ''''} \<or> deployed_token (qt_contract q) d = None
                then Inl (FailHttp ''ACCEPT_QUOTE_NOT_ACCEPTABLE'' 422)
                else Inr \<lparr>ax_quote = q, ax_args = \<lparr>aq_rfq = key32 env rfqId, aq_quote = key32 env quoteId,
                  aq_artwork = key32 env (rq_artwork r), aq_buyer = buyerWallet, aq_seller = the (qt_wallet q),
                  aq_count = qt_count q, aq_gross = qt_count q * qt_price q\<rparr>\<rparr>))))"

definition resolveAcceptWallet :: "bid_env \<Rightarrow> ident \<Rightarrow> http_error + ident \<times> credential_row" where
  "resolveAcceptWallet env u = (case resolveEmbeddedWalletForUser u (be_identity env) of
     None \<Rightarrow> Inl (FailHttp ''ACCEPT_NOT_RFQ_BUYER'' 403) | Some r \<Rightarrow> Inr r)"

text \<open>\<open>holdings\<close>: \<open>None\<close> is a failed read, \<open>Some None\<close> a wallet without the token.\<close>

definition assertSufficientUsdc :: "string option option \<Rightarrow> int \<Rightarrow> http_error + unit" where
  "assertSufficientUsdc holdings gross = (case holdings of
     None \<Rightarrow> Inl (FailHttp ''ACCEPT_SETTLEMENT_UNAVAILABLE'' 503)
   | Some h \<Rightarrow> guardE (\<not> BigInt (case h of None \<Rightarrow> ''0'' | Some s \<Rightarrow> s) < gross)
       (FailHttp ''ACCEPT_INSUFFICIENT_USDC'' 422))"

definition mapAcceptError :: "bool \<Rightarrow> relayer_throw \<Rightarrow> http_error" where
  "mapAcceptError atPrepare e =
     (if e \<in> {RelayerTransferError Unavailable, RelayerTransferError Simulation_failed} \<or> atPrepare
      then FailHttp ''ACCEPT_SETTLEMENT_UNAVAILABLE'' 503 else FailHttp ''ACCEPT_CHALLENGE_EXPIRED'' 422)"

definition BPS_DENOM :: int where
  "BPS_DENOM = 10000"

definition ROYALTY_BPS :: int where
  "ROYALTY_BPS = 150"

definition SETTLE_FEE_BPS :: int where
  "SETTLE_FEE_BPS = 150"

text \<open>Platform cut, artist cut, seller's net.\<close>

definition computeUsdcSplit :: "int \<Rightarrow> int \<times> int \<times> int" where
  "computeUsdcSplit gross =
     (let platformCut = (gross * SETTLE_FEE_BPS) sdiv BPS_DENOM; artistCut = (gross * ROYALTY_BPS) sdiv BPS_DENOM
      in (platformCut, artistCut, gross - platformCut - artistCut))"

record prepared_accept =
  px_entry :: string
  px_challenge :: string
  px_expires :: int
  px_credential :: credential_row
  px_count :: int
  px_gross :: int
  px_split :: "int \<times> int \<times> int"

definition accept_prepare ::
  "bid_env \<Rightarrow> settle_cfg \<Rightarrow> instant \<Rightarrow> (ident \<Rightarrow> string option option)
   \<Rightarrow> (accept_args \<Rightarrow> int \<Rightarrow> relayer_throw + string \<times> int \<times> string) \<Rightarrow> ident \<Rightarrow> ident \<Rightarrow> ident \<Rightarrow> mdb
   \<Rightarrow> http_error + prepared_accept" where
  "accept_prepare env cfg now holdings buildAccept userId rfqId quoteId d =
     bindE (resolveAcceptWallet env userId) (\<lambda>(wallet, cred).
     bindE (accept_context env now userId rfqId quoteId wallet d) (\<lambda>ctx.
     bindE (assertSufficientUsdc (holdings wallet) (aq_gross (ax_args ctx))) (\<lambda>_.
     bindE (mapE (mapAcceptError True) (buildAccept (ax_args ctx) (ms_sig_ledgers cfg))) (\<lambda>(challenge, expires, entry).
       Inr \<lparr>px_entry = entry, px_challenge = challenge, px_expires = expires, px_credential = cred,
            px_count = aq_count (ax_args ctx), px_gross = aq_gross (ax_args ctx),
            px_split = computeUsdcSplit (aq_gross (ax_args ctx))\<rparr>))))"

record quote_settle_job =
  qj_trade :: ident
  qj_rfq :: ident
  qj_quote :: ident
  qj_settler :: ident
  qj_usdc :: ident
  qj_args :: accept_args
  qj_buyer_entry :: string
  qj_seller_entry :: string
  qj_key :: string
  qj_credential :: ident
  qj_assertion :: assertion
  qj_rp :: ident
  qj_origins :: "ident list"

text \<open>\<open>fresh\<close> is \<open>assertAcceptQuoteNotExpired\<close>; the assertion's \<open>as_xdr\<close> is the buyer's entry.\<close>

definition accept_gates ::
  "bid_env \<Rightarrow> (string \<Rightarrow> relayer_throw + unit) \<Rightarrow> instant \<Rightarrow> ident \<Rightarrow> ident \<Rightarrow> ident \<Rightarrow> assertion \<Rightarrow> mdb
   \<Rightarrow> http_error + accept_ctx \<times> credential_row \<times> string" where
  "accept_gates env fresh now userId rfqId quoteId a d =
     bindE (resolveAcceptWallet env userId) (\<lambda>(wallet, cred).
     bindE (accept_context env now userId rfqId quoteId wallet d) (\<lambda>ctx.
     bindE (mapE (mapAcceptError False) (fresh (as_xdr a))) (\<lambda>_.
     case be_decode env (cr_key cred) of
       None \<Rightarrow> Inl (InternalError ''cose'') | Some key \<Rightarrow> Inr (ctx, cred, key))))"

text \<open>The transaction, under the RFQ's advisory lock; \<open>None\<close> is the conflict of the durable key.\<close>

definition accept_txn :: "instant \<Rightarrow> ident \<Rightarrow> new_trade \<Rightarrow> mdb \<Rightarrow> (http_error + trade option) \<times> mdb" where
  "accept_txn now new_id n d =
     (if findPendingByRfq (nt_rfq n) (mk_trades d) \<noteq> None then (Inl (FailHttp ''TRADE_ALREADY_IN_FLIGHT'' 409), d)
      else if \<not> chk_trade (trade_row now new_id n) then (Inl (InternalError ''23514''), d)
      else case insertPending now new_id n (mk_trades d) of (row, t) \<Rightarrow> (Inr row, d\<lparr>mk_trades := t\<rparr>))"

definition accept_work ::
  "bid_env \<Rightarrow> settle_cfg \<Rightarrow> (string \<Rightarrow> relayer_throw + unit) \<Rightarrow> instant \<Rightarrow> instant \<Rightarrow> ident \<Rightarrow> ident \<Rightarrow> ident \<Rightarrow> ident
   \<Rightarrow> assertion \<Rightarrow> string \<Rightarrow> mdb \<Rightarrow> mdb \<Rightarrow> (http_error + ident \<times> quote_settle_job option) \<times> mdb" where
  "accept_work env cfg fresh now now2 new_id userId rfqId quoteId a idem d d2 =
     (case accept_gates env fresh now userId rfqId quoteId a d of
        Inl e \<Rightarrow> (Inl e, d2)
      | Inr (ctx, cred, key) \<Rightarrow>
          let q = ax_quote ctx in
          (case run_txn (accept_txn now2 new_id \<lparr>nt_rfq = rfqId, nt_quote = qt_id q, nt_buyer = userId,
                  nt_seller = qt_holder q, nt_contract = qt_contract q, nt_count = qt_count q, nt_price = qt_price q,
                  nt_idem = idem\<rparr>) d2 of
             (Inl e, d3) \<Rightarrow> (Inl e, d3)
           | (Inr (Some row), d3) \<Rightarrow> (case qt_auth q of
               None \<Rightarrow> (Inl (FailHttp ''ACCEPT_QUOTE_NOT_ACCEPTABLE'' 422), d3)
             | Some sellerEntry \<Rightarrow> (Inr (td_id row, Some \<lparr>qj_trade = td_id row, qj_rfq = rfqId, qj_quote = qt_id q,
                 qj_settler = ms_settler cfg, qj_usdc = ms_usdc cfg, qj_args = ax_args ctx, qj_buyer_entry = as_xdr a,
                 qj_seller_entry = sellerEntry, qj_key = key, qj_credential = cr_credential cred, qj_assertion = a,
                 qj_rp = be_rp env, qj_origins = be_origins env\<rparr>), d3))
           | (Inr None, d3) \<Rightarrow> (case trade_findByIdempotency userId rfqId idem (mk_trades d3) of
               None \<Rightarrow> (Inl (FailHttp ''IDEMPOTENCY_KEY_IN_FLIGHT'' 409), d3)
             | Some existing \<Rightarrow> (Inr (td_id existing, None), d3))))"

definition accept ::
  "bid_env \<Rightarrow> settle_cfg \<Rightarrow> (string \<Rightarrow> relayer_throw + unit) \<Rightarrow> instant \<Rightarrow> instant \<Rightarrow> bool \<Rightarrow> bool \<Rightarrow> (ident \<times> bool) list
   \<Rightarrow> (mdb \<Rightarrow> mdb) \<Rightarrow> ident \<Rightarrow> ident \<Rightarrow> ident \<Rightarrow> ident \<Rightarrow> assertion \<Rightarrow> string \<Rightarrow> ident redis \<times> mdb
   \<Rightarrow> (http_error + ident option) \<times> ident redis \<times> mdb \<times> quote_settle_job list" where
  "accept env cfg fresh now now2 up enq atts meanwhile new_id userId rfqId quoteId a idempotencyKey sd =
     (case sd of (s, d) \<Rightarrow>
      let key = ''idem:trade:'' @ userId @ '':'' @ rfqId @ '':'' @ idempotencyKey;
          fp = be_sha env (userId @ ''|'' @ rfqId @ ''|'' @ quoteId @ ''|'' @ as_xdr a);
          idem = be_sha env (userId @ ''|'' @ rfqId @ ''|'' @ idempotencyKey)
      in case idem_begin now key fp atts s of
        (Replay b, s') \<Rightarrow> (Inr b, s', d, [])
      | (InFlight, s') \<Rightarrow> (Inl (FailHttp ''IDEMPOTENCY_KEY_IN_FLIGHT'' 409), s', d, [])
      | (Mismatch, s') \<Rightarrow> (Inl (FailHttp ''IDEMPOTENCY_KEY_MISMATCH'' 422), s', d, [])
      | (Proceed token, s') \<Rightarrow>
          (case accept_work env cfg fresh now now2 new_id userId rfqId quoteId a idem d (meanwhile d) of
             (Inl e, d') \<Rightarrow> (Inl e, idem_fail now2 key token up s', d', [])
           | (Inr (tradeId, j), d') \<Rightarrow> (Inr (Some tradeId), idem_complete now2 key token tradeId up s', d',
               if enq then (case j of None \<Rightarrow> [] | Some j' \<Rightarrow> [j']) else [])))"

definition getMe :: "ident \<Rightarrow> ident \<Rightarrow> mdb \<Rightarrow> http_error + trade" where
  "getMe userId rfqId d = (case findLatestForBuyerRfq userId rfqId (mk_trades d) of
     None \<Rightarrow> Inl (FailHttp ''TRADE_NOT_FOUND'' 404) | Some t \<Rightarrow> Inr t)"

end
