(* ===== verification/Quote_Settle.thy ===== *)
theory Quote_Settle
  imports Market_Accept
begin

text \<open>
  Settlement of an accepted quote: the relayer's \<open>assertAcceptQuoteNotExpired\<close> and
  \<open>submitSignedAcceptQuote\<close>, the failure classifier, \<open>SettlePersistenceService\<close>, the settle
  worker and the stale sweep, and the contract's one-shot marker (\<open>accept_quote\<close>, \<open>is_settled\<close>).
\<close>

section \<open>The relayer\<close>

text \<open>
  An attempt: whether the two entries parse, the account read, the verifier's two expiry ledgers
  (buyer, seller), the simulation (its fee, or the contract's error code if there is one), and
  under \<open>aa_base\<close> the latest ledger, the lock, the send and the poll of theory \<open>Relayer\<close>.
\<close>

datatype accept_sim = Accept_fee int | Accept_revert "int option"

record accept_attempt =
  aa_parses :: bool
  aa_account :: "unit rpc"
  aa_verify :: "relayer_throw + int \<times> int"
  aa_sim :: "accept_sim rpc"
  aa_base :: attempt

datatype accept_outcome = AO_success ident int | AO_reverted int | AO_failed transfer_reason bool

text \<open>\<open>AO_failed r s\<close>: \<open>s\<close> is \<open>expiredParty = 'seller'\<close>. \<open>parsed\<close> is the entry's expiry ledger.\<close>

definition assertAcceptQuoteNotExpired :: "int option \<Rightarrow> int rpc \<Rightarrow> relayer_throw + unit" where
  "assertAcceptQuoteNotExpired parsed latest = (case parsed of
     None \<Rightarrow> Inl (RelayerTransferError Signature_invalid)
   | Some expiry \<Rightarrow> bindE (with_timeout latest) (\<lambda>l.
       guardE (\<not> expiry \<le> l + EXPIRY_MARGIN_LEDGERS) (RelayerTransferError Expired)))"

text \<open>Up to the send: \<open>Inr None\<close> is a simulated, payable transaction, \<open>Inr (Some r)\<close> an early return.\<close>

definition accept_before_send :: "relayer_config \<Rightarrow> accept_attempt \<Rightarrow> relayer_throw + accept_outcome option" where
  "accept_before_send cfg a =
     bindE (guardE (aa_parses a) (RelayerTransferError Signature_invalid)) (\<lambda>_.
     bindE (with_timeout (aa_account a)) (\<lambda>_.
     bindE (aa_verify a) (\<lambda>(buyerExpiry, sellerExpiry).
     bindE (with_timeout (at_latest (aa_base a))) (\<lambda>latest.
     let sellerExpired = (sellerExpiry \<le> latest + EXPIRY_MARGIN_LEDGERS);
         buyerExpired = (buyerExpiry \<le> latest + EXPIRY_MARGIN_LEDGERS)
     in if sellerExpired \<or> buyerExpired then Inr (Some (AO_failed Expired sellerExpired))
     else bindE (with_timeout (aa_sim a)) (\<lambda>sim. case sim of
         Accept_revert (Some code) \<Rightarrow> Inr (Some (AO_reverted code))
       | Accept_revert None \<Rightarrow> Inr (Some (AO_failed Simulation_failed False))
       | Accept_fee fee \<Rightarrow> if fee + BASE_FEE > rc_max_fee cfg then Inr (Some (AO_failed Signature_invalid False))
           else Inr None)))))"

definition accept_send :: "accept_attempt \<Rightarrow> relayer_throw + ident" where
  "accept_send a = bindE (guardE (at_lock (aa_base a)) UntypedError) (\<lambda>_.
     bindE (with_timeout (at_send (aa_base a))) classify_send)"

text \<open>The \<open>catch\<close> turns a typed error into an outcome and lets any other through.\<close>

fun catch_typed :: "relayer_throw + accept_outcome \<Rightarrow> relayer_throw + accept_outcome" where
  "catch_typed (Inl (RelayerTransferError r)) = Inr (AO_failed r False)"
| "catch_typed (Inl UntypedError) = Inl UntypedError"
| "catch_typed (Inr x) = Inr x"

definition submitSignedAcceptQuote :: "relayer_config \<Rightarrow> accept_attempt \<Rightarrow> (relayer_throw + accept_outcome) option" where
  "submitSignedAcceptQuote cfg a = (case accept_before_send cfg a of
     Inl e \<Rightarrow> Some (catch_typed (Inl e))
   | Inr (Some r) \<Rightarrow> Some (Inr r)
   | Inr None \<Rightarrow> (case accept_send a of
       Inl e \<Rightarrow> Some (catch_typed (Inl e))
     | Inr h \<Rightarrow> (case poll_from (aa_base a) (at_start (aa_base a) + rc_submit_timeout cfg) cancel_final 0 of
         None \<Rightarrow> None
       | Some r \<Rightarrow> Some (catch_typed (bindE r (\<lambda>ledger. Inr (AO_success h ledger)))))))"

section \<open>The classifier\<close>

datatype disposition = Expire | KeepOpen

datatype classification = Retry | Terminal string disposition

definition classifySettleFailure :: "accept_outcome \<Rightarrow> classification" where
  "classifySettleFailure outcome = (case outcome of
     AO_success _ _ \<Rightarrow> Retry
   | AO_reverted code \<Rightarrow>
       if code = 100 then Terminal ''seller_balance_insufficient'' Expire
       else if code = 7 \<or> code = 8 then Terminal ''seller_lockup'' Expire
       else if code = 6 then Terminal ''party_frozen'' KeepOpen
       else if code = 5 then Terminal ''buyer_not_whitelisted'' KeepOpen
       else if code = 10 then Terminal ''invalid_trade'' KeepOpen
       else if code = 2 then Terminal ''token_not_found'' KeepOpen
       else if code = 11 then Retry
       else Terminal ''settlement_reverted'' KeepOpen
   | AO_failed r sellerExpired \<Rightarrow> (case r of
       Expired \<Rightarrow> if sellerExpired then Terminal ''seller_auth_lapsed'' Expire
                  else Terminal ''buyer_signature_expired'' KeepOpen
     | Signature_required \<Rightarrow> Terminal ''signature_invalid'' KeepOpen
     | Signature_invalid \<Rightarrow> Terminal ''signature_invalid'' KeepOpen
     | Transfer_failed \<Rightarrow> Terminal ''settlement_reverted'' KeepOpen
     | Simulation_failed \<Rightarrow> Terminal ''settlement_reverted'' KeepOpen
     | Unavailable \<Rightarrow> Retry))"

section \<open>SettlePersistenceService\<close>

definition sys_audit :: "string \<Rightarrow> ident \<Rightarrow> mdb \<Rightarrow> mdb" where
  "sys_audit kind i = mk_record \<lparr>ae_kind = kind, ae_actor = None, ae_subject = i\<rparr>"

definition persistSettled :: "instant \<Rightarrow> trade \<Rightarrow> ident option \<Rightarrow> mdb \<Rightarrow> mdb" where
  "persistSettled now t txHash d = (case trade_casSettled now (td_id t) txHash (mk_trades d) of
     (_, False) \<Rightarrow> d
   | (ts, True) \<Rightarrow>
       let rs = fst (casFilled now (td_rfq t) (mk_rfqs d));
           (q1, accepted) = casAccepted now (td_quote t) (mk_quotes d);
           (q2, superseded) = supersedeOpenRivals now (td_rfq t) (td_quote t) q1;
           d1 = sys_audit ''trade.settled'' (td_id t) (d\<lparr>mk_trades := ts, mk_rfqs := rs, mk_quotes := q2\<rparr>);
           d2 = (if accepted then sys_audit ''quote.accepted'' (td_quote t) d1 else d1)
       in if superseded > 0 then sys_audit ''quote.superseded'' (td_quote t) d2 else d2)"

definition failTrade :: "instant \<Rightarrow> trade \<Rightarrow> string \<Rightarrow> disposition \<Rightarrow> mdb \<Rightarrow> mdb" where
  "failTrade now t reason disp d = (case trade_casFailed now (td_id t) reason (mk_trades d) of
     (_, False) \<Rightarrow> d
   | (ts, True) \<Rightarrow>
       let (q1, expired) = (if disp = Expire then expireWithReason now (td_quote t) reason (mk_quotes d)
             else (mk_quotes d, False));
           d1 = sys_audit ''trade.failed'' (td_id t) (d\<lparr>mk_trades := ts, mk_quotes := q1\<rparr>)
       in if expired then sys_audit ''quote.expired'' (td_quote t) d1 else d1)"

section \<open>The settle worker\<close>

text \<open>
  What one run of a job observes, in this order: \<open>so_first\<close> the self-heal read (skipped on the
  first attempt), \<open>so_usdc\<close> the buyer's balance (\<open>RpcError\<close> a failed read, \<open>Rpc None\<close> no entry),
  \<open>so_outcome\<close> the relayer's answer, \<open>so_fresh\<close> the read before a decision. \<open>so_db_pre\<close> and
  \<open>so_db\<close> are whether the transaction of the pre-check and the last one commit; a failure is
  thrown.
\<close>

record settle_obs =
  so_first :: "bool rpc"
  so_usdc :: "int option rpc"
  so_outcome :: "relayer_throw + accept_outcome"
  so_fresh :: "bool rpc"
  so_db_pre :: bool
  so_db :: bool

definition terminalFail :: "instant \<Rightarrow> bool \<Rightarrow> trade \<Rightarrow> string \<Rightarrow> disposition \<Rightarrow> mdb \<Rightarrow> job_outcome \<times> mdb" where
  "terminalFail now db_ok t reason disp d =
     (if db_ok then (JobUnrecoverable, failTrade now t reason disp d) else (JobRetry, d))"

definition adopt :: "instant \<Rightarrow> settle_obs \<Rightarrow> trade \<Rightarrow> ident option \<Rightarrow> mdb \<Rightarrow> job_outcome \<times> mdb" where
  "adopt now ob t tx d = (if so_db ob then (JobDone, persistSettled now t tx d) else (JobRetry, d))"

text \<open>
  After the pre-check. A database failure inside the pre-check's \<open>terminalFail\<close> is swallowed by
  the \<open>catch\<close> around it and the run goes on to the submission.
\<close>

definition settle_submit :: "instant \<Rightarrow> settle_obs \<Rightarrow> trade \<Rightarrow> mdb \<Rightarrow> job_outcome \<times> mdb" where
  "settle_submit now ob t d = (case so_outcome ob of
     Inl _ \<Rightarrow> (JobRetry, d)
   | Inr (AO_success h _) \<Rightarrow> adopt now ob t (Some h) d
   | Inr outcome \<Rightarrow> (case so_fresh ob of
       RpcError \<Rightarrow> (JobRetry, d)
     | Rpc True \<Rightarrow> adopt now ob t None d
     | Rpc False \<Rightarrow> (case classifySettleFailure outcome of
         Retry \<Rightarrow> (JobRetry, d)
       | Terminal reason disp \<Rightarrow> terminalFail now (so_db ob) t reason disp d)))"

definition quote_settle_process :: "nat \<Rightarrow> instant \<Rightarrow> settle_obs \<Rightarrow> quote_settle_job \<Rightarrow> mdb \<Rightarrow> job_outcome \<times> mdb" where
  "quote_settle_process made now ob j d = (case find_trade (qj_trade j) (mk_trades d) of
     None \<Rightarrow> (JobDone, d)
   | Some t \<Rightarrow>
       if td_status t \<noteq> TS_pending then (JobDone, d)
       else if made > 0 \<and> so_first ob = RpcError then (JobRetry, d)
       else if made > 0 \<and> so_first ob = Rpc True then adopt now ob t None d
       else (case so_usdc ob of
           Rpc (Some usdc) \<Rightarrow>
             if usdc < aq_gross (qj_args j) \<and> so_db_pre ob
             then terminalFail now True t ''buyer_usdc_insufficient'' KeepOpen d
             else settle_submit now ob t d
         | _ \<Rightarrow> settle_submit now ob t d))"

section \<open>The stale sweep\<close>

definition SETTLE_RETRY_HORIZON_MS :: int where
  "SETTLE_RETRY_HORIZON_MS = 700000"

text \<open>One stale row: \<open>settled\<close> is the read of its pair, \<open>db_ok\<close> whether its transaction commits.\<close>

definition reconcile_trade ::
  "settle_cfg \<Rightarrow> instant \<Rightarrow> (trade \<Rightarrow> bool rpc) \<Rightarrow> (trade \<Rightarrow> bool) \<Rightarrow> trade \<Rightarrow> mdb \<Rightarrow> mdb" where
  "reconcile_trade cfg now settled db_ok t d = (case settled t of
     RpcError \<Rightarrow> d
   | Rpc True \<Rightarrow> if db_ok t then persistSettled now t None d else d
   | Rpc False \<Rightarrow>
       if now - td_created t \<ge> max (ms_grace cfg) SETTLE_RETRY_HORIZON_MS \<and> db_ok t
       then failTrade now t ''settle_abandoned'' KeepOpen d else d)"

definition quote_settle_reconcile ::
  "settle_cfg \<Rightarrow> instant \<Rightarrow> (trade \<Rightarrow> bool rpc) \<Rightarrow> (trade \<Rightarrow> bool) \<Rightarrow> mdb \<Rightarrow> mdb" where
  "quote_settle_reconcile cfg now settled db_ok d =
     fold (reconcile_trade cfg now settled db_ok) (findStalePending now (ms_grace cfg) (ms_batch cfg) (mk_trades d)) d"

end
