(* ===== verification/Market_Machine.thy ===== *)
theory Market_Machine
  imports Quote_Settle
begin

text \<open>
  The secondary market as a machine: every transaction of its handlers and workers is one step on
  the tables, in any order and with any arguments. Rows only move along the guard triggers, new
  rows are appended, and the invariant of the three tables is kept.
\<close>

named_theorems market_defs \<open>definitions of the repository statements\<close>

declare rfq_insertOpen_def [market_defs] latchFannedOut_def [market_defs] casFilled_def [market_defs]
  quote_insertOpen_def [market_defs] reapLapsed_def [market_defs] markAuthorized_def [market_defs]
  casAccepted_def [market_defs] expireWithReason_def [market_defs] supersedeOpenRivals_def [market_defs]
  insertPending_def [market_defs] trade_casSettled_def [market_defs] trade_casFailed_def [market_defs]

section \<open>Rows in place\<close>

text \<open>The rows of a table evolve in place and new ones are appended.\<close>

definition forward :: "('r \<Rightarrow> 'r \<Rightarrow> bool) \<Rightarrow> 'r list \<Rightarrow> 'r list \<Rightarrow> bool" where
  "forward G t t' \<longleftrightarrow> (\<exists>u v. t' = u @ v \<and> list_all2 G t u)"

lemma forward_rows: "list_all2 G t u \<Longrightarrow> forward G t u"
  unfolding forward_def by (metis append_Nil2)

lemma forward_append: "list_all2 G t u \<Longrightarrow> forward G t (u @ v)"
  unfolding forward_def by blast

lemma forward_refl: "(\<And>r. G r r) \<Longrightarrow> forward G t t"
  by (rule forward_rows) (simp add: list.rel_refl)

lemma forward_trans:
  assumes "\<And>a b c. G a b \<Longrightarrow> G b c \<Longrightarrow> G a c" "forward G t u" "forward G u v"
  shows "forward G t v"
proof -
  obtain u1 u2 v1 v2 where u: "u = u1 @ u2" "list_all2 G t u1" and v: "v = v1 @ v2" "list_all2 G u v1"
    using assms(2,3) unfolding forward_def by blast
  obtain w1 w2 where w: "v1 = w1 @ w2" "list_all2 G u1 w1"
    using v(2) u(1) by (auto simp: list_all2_append1)
  have "list_all2 G t w1" using assms(1) u(2) w(2) by (rule list_all2_trans)
  then show ?thesis unfolding forward_def using v(1) w(1) by auto
qed

lemma rows_map: "(\<And>r. r \<in> set t \<Longrightarrow> G r (f r)) \<Longrightarrow> list_all2 G t (map f t)"
  by (simp add: list_all2_conv_all_nth)

lemma rows_from:
  assumes "list_all2 G t u" "s \<in> set u"
  shows "\<exists>r \<in> set t. G r s"
  using assms by (metis in_set_conv_nth list_all2_conv_all_nth)

lemma rows_to:
  assumes "list_all2 G t u" "r \<in> set t"
  shows "\<exists>s \<in> set u. G r s"
  using assms by (metis in_set_conv_nth list_all2_conv_all_nth)

lemma rows_key: "list_all2 G t u \<Longrightarrow> (\<And>r s. G r s \<Longrightarrow> key s = key r) \<Longrightarrow> map key u = map key t"
  by (induction rule: list_all2_induct) auto

section \<open>The guards are preorders\<close>

lemma guards_refl [simp]: "rfqs_guard r r" "quotes_guard q q" "trades_guard x x"
  by (simp_all add: rfqs_guard_def quotes_guard_def trades_guard_def)

lemma rfqs_guard_trans: "rfqs_guard a b \<Longrightarrow> rfqs_guard b c \<Longrightarrow> rfqs_guard a c"
  unfolding rfqs_guard_def by (cases "rq_status a = rq_status b"; cases "rq_status b = rq_status c") auto

lemma quotes_guard_trans: "quotes_guard a b \<Longrightarrow> quotes_guard b c \<Longrightarrow> quotes_guard a c"
  unfolding quotes_guard_def by (cases "qt_status a = qt_status b"; cases "qt_status b = qt_status c") auto

lemma trades_guard_trans: "trades_guard a b \<Longrightarrow> trades_guard b c \<Longrightarrow> trades_guard a c"
  unfolding trades_guard_def by (cases "td_status a = td_status b"; cases "td_status b = td_status c") auto

section \<open>The statements move rows along the guards\<close>

text \<open>Outside a settlement no quote becomes accepted and no RFQ filled.\<close>

definition quote_calm :: "rfq_quote \<Rightarrow> rfq_quote \<Rightarrow> bool" where
  "quote_calm q s \<longleftrightarrow> quotes_guard q s \<and> (qt_status s = QS_accepted \<longrightarrow> qt_status q = QS_accepted)"

definition rfq_calm :: "rfq \<Rightarrow> rfq \<Rightarrow> bool" where
  "rfq_calm r s \<longleftrightarrow> rfqs_guard r s \<and> rq_status s = rq_status r"

lemma calm_guard: "quote_calm q s \<Longrightarrow> quotes_guard q s" "rfq_calm r r' \<Longrightarrow> rfqs_guard r r'"
  by (simp_all add: quote_calm_def rfq_calm_def)

lemma calm_refl [simp]: "quote_calm q q" "rfq_calm r r"
  by (simp_all add: quote_calm_def rfq_calm_def)

lemma quote_statements:
  "list_all2 quote_calm t (fst (reapLapsed now h k t))"
  "list_all2 quote_calm t (fst (markAuthorized now i entry ledger wallet t))"
  "list_all2 quote_calm t (fst (expireWithReason now i reason t))"
  "list_all2 quote_calm t (fst (supersedeOpenRivals now rfqId except t))"
  "list_all2 quotes_guard t (fst (casAccepted now i t))"
  by (simp_all add: market_defs fst_cas_rows sql_update_def,
      (rule rows_map; simp add: quote_calm_def quotes_guard_def)+)

lemma rfq_statements:
  "list_all2 rfq_calm t (fst (latchFannedOut now i t))"
  "list_all2 rfqs_guard t (fst (casFilled now i t))"
  by (simp_all add: market_defs fst_cas_rows, (rule rows_map; simp add: rfq_calm_def rfqs_guard_def)+)

lemma trade_statements:
  "(\<And>x. x \<in> set t \<Longrightarrow> td_status x = TS_pending \<Longrightarrow> td_tx x = None \<and> td_settled_at x = None)
     \<Longrightarrow> list_all2 trades_guard t (fst (trade_casSettled now i tx t))"
  "list_all2 trades_guard t (fst (trade_casFailed now i reason t))"
  by (simp_all add: market_defs fst_cas_rows, (rule rows_map; simp add: trades_guard_def)+)

section \<open>The invariant of the tables\<close>

definition quotes_ok :: "rfq_quote list \<Rightarrow> bool" where
  "quotes_ok t \<longleftrightarrow> distinct (map qt_id t) \<and> (\<forall>q \<in> set t. chk_quote q \<and> qt_deleted q = None)
     \<and> (\<forall>q \<in> set t. \<forall>s \<in> set t. qt_status q = QS_open \<and> qt_status s = QS_open \<and> qt_rfq q = qt_rfq s
          \<and> qt_holder q = qt_holder s \<longrightarrow> qt_id q = qt_id s)"

definition rfqs_ok :: "rfq list \<Rightarrow> bool" where
  "rfqs_ok t \<longleftrightarrow> distinct (map rq_id t) \<and> (\<forall>r \<in> set t. chk_rfq r \<and> rq_deleted r = None)"

definition trades_ok :: "trade list \<Rightarrow> bool" where
  "trades_ok t \<longleftrightarrow> distinct (map td_id t) \<and> (\<forall>x \<in> set t. chk_trade x \<and> td_deleted x = None
       \<and> (td_status x = TS_pending \<longrightarrow> td_tx x = None \<and> td_settled_at x = None))
     \<and> (\<forall>x \<in> set t. \<forall>y \<in> set t. td_status x = TS_pending \<and> td_status y = TS_pending \<and> td_rfq x = td_rfq y
          \<longrightarrow> td_id x = td_id y)"

text \<open>
  A trade refers to an RFQ and to one of its quotes (the two foreign keys). A settled trade's RFQ
  and quote are no longer open; an RFQ is filled and a quote accepted only by a settled trade.
\<close>

definition trades_linked :: "rfq list \<Rightarrow> rfq_quote list \<Rightarrow> trade list \<Rightarrow> bool" where
  "trades_linked rs qs ts \<longleftrightarrow> (\<forall>x \<in> set ts. td_rfq x \<in> rq_id ` set rs \<and> td_quote x \<in> qt_id ` set qs
      \<and> (td_status x = TS_settled \<longrightarrow>
           (\<forall>r \<in> set rs. rq_id r = td_rfq x \<longrightarrow> rq_status r \<noteq> RS_open)
           \<and> (\<forall>q \<in> set qs. qt_id q = td_quote x \<longrightarrow> qt_status q \<noteq> QS_open)))
    \<and> (\<forall>r \<in> set rs. rq_status r = RS_filled \<longrightarrow> (\<exists>x \<in> set ts. td_rfq x = rq_id r \<and> td_status x = TS_settled))
    \<and> (\<forall>q \<in> set qs. qt_status q = QS_accepted \<longrightarrow> (\<exists>x \<in> set ts. td_quote x = qt_id q \<and> td_status x = TS_settled))"

definition market_ok :: "mdb \<Rightarrow> bool" where
  "market_ok d \<longleftrightarrow> rfqs_ok (mk_rfqs d) \<and> quotes_ok (mk_quotes d) \<and> trades_ok (mk_trades d)
     \<and> trades_linked (mk_rfqs d) (mk_quotes d) (mk_trades d)"

lemma quotes_ok_rows:
  assumes "quotes_ok t" "list_all2 quotes_guard t u"
  shows "quotes_ok u"
proof -
  have ids: "map qt_id u = map qt_id t" by (rule rows_key [OF assms(2)]) (simp add: quotes_guard_def)
  have from_t: "\<exists>q \<in> set t. quotes_guard q s" if "s \<in> set u" for s using rows_from [OF assms(2) that] .
  have rows: "chk_quote s \<and> qt_deleted s = None" if su: "s \<in> set u" for s
  proof -
    obtain q where "q \<in> set t" "quotes_guard q s" using from_t [OF su] by blast
    moreover from this(1) have "chk_quote q" "qt_deleted q = None" using assms(1) by (simp_all add: quotes_ok_def)
    ultimately show ?thesis by (simp add: chk_quote_def quotes_guard_def)
  qed
  have uniq: "qt_id q = qt_id s" if u: "q \<in> set u" "s \<in> set u" "qt_status q = QS_open" "qt_status s = QS_open"
    "qt_rfq q = qt_rfq s" "qt_holder q = qt_holder s" for q s
  proof -
    obtain q0 s0 where "q0 \<in> set t" "quotes_guard q0 q" "s0 \<in> set t" "quotes_guard s0 s"
      using from_t u(1,2) by blast
    moreover from calculation have "qt_status q0 = QS_open" "qt_status s0 = QS_open"
      using u(3,4) by (auto simp: quotes_guard_def)
    ultimately show ?thesis using assms(1) u(5,6) unfolding quotes_ok_def quotes_guard_def by metis
  qed
  have dist: "distinct (map qt_id u)" using assms(1) by (simp only: ids quotes_ok_def)
  show ?thesis unfolding quotes_ok_def using dist rows uniq by blast
qed

lemma rfqs_ok_rows:
  assumes "rfqs_ok t" "list_all2 rfqs_guard t u"
  shows "rfqs_ok u"
proof -
  have ids: "map rq_id u = map rq_id t" by (rule rows_key [OF assms(2)]) (simp add: rfqs_guard_def)
  have "chk_rfq s \<and> rq_deleted s = None" if su: "s \<in> set u" for s
  proof -
    obtain r where "r \<in> set t" "rfqs_guard r s" using rows_from [OF assms(2) su] by blast
    moreover from this(1) have "chk_rfq r" "rq_deleted r = None" using assms(1) by (simp_all add: rfqs_ok_def)
    ultimately show ?thesis by (simp add: chk_rfq_def rfqs_guard_def)
  qed
  with ids assms(1) show ?thesis by (simp add: rfqs_ok_def)
qed

lemma trades_ok_rows:
  assumes "trades_ok t" "list_all2 trades_guard t u" "\<And>x. x \<in> set u \<Longrightarrow> td_status x = TS_pending \<Longrightarrow> x \<in> set t"
  shows "trades_ok u"
proof -
  have ids: "map td_id u = map td_id t" by (rule rows_key [OF assms(2)]) (simp add: trades_guard_def)
  have rows: "chk_trade s \<and> td_deleted s = None" if su: "s \<in> set u" for s
  proof -
    obtain x where "x \<in> set t" "trades_guard x s" using rows_from [OF assms(2) su] by blast
    moreover from this(1) have "chk_trade x" "td_deleted x = None" using assms(1) by (simp_all add: trades_ok_def)
    ultimately show ?thesis by (simp add: chk_trade_def trades_guard_def td_gross_def)
  qed
  have dist: "distinct (map td_id u)" using assms(1) by (simp only: ids trades_ok_def)
  have blank: "td_tx s = None \<and> td_settled_at s = None" if "s \<in> set u" "td_status s = TS_pending" for s
    using assms(1) assms(3) [OF that] that(2) by (simp add: trades_ok_def)
  have "td_id x = td_id y" if "x \<in> set u" "y \<in> set u" "td_status x = TS_pending" "td_status y = TS_pending"
    "td_rfq x = td_rfq y" for x y
    using assms(1) assms(3) [OF that(1,3)] assms(3) [OF that(2,4)] that(3-5) unfolding trades_ok_def by blast
  then show ?thesis unfolding trades_ok_def using dist rows blank by blast
qed

text \<open>Steps without a settlement keep the links.\<close>

lemma linked_rows:
  assumes "trades_linked rs qs ts" "list_all2 rfq_calm rs rs'" "list_all2 quote_calm qs qs'"
  shows "trades_linked rs' qs' ts"
proof -
  have r: "\<exists>r \<in> set rs. rq_id s = rq_id r \<and> rq_status s = rq_status r" if "s \<in> set rs'" for s
    using rows_from [OF assms(2) that] by (auto simp: rfq_calm_def rfqs_guard_def)
  have q: "\<exists>q \<in> set qs. qt_id s = qt_id q \<and> (qt_status s = QS_open \<longrightarrow> qt_status q = QS_open)
      \<and> (qt_status s = QS_accepted \<longrightarrow> qt_status q = QS_accepted)" if "s \<in> set qs'" for s
    using rows_from [OF assms(3) that] by (auto simp: quote_calm_def quotes_guard_def)
  have "map rq_id rs' = map rq_id rs"
    by (rule rows_key [OF assms(2)]) (simp add: rfq_calm_def rfqs_guard_def)
  then have ri: "rq_id ` set rs' = rq_id ` set rs" by (metis list.set_map)
  have "map qt_id qs' = map qt_id qs"
    by (rule rows_key [OF assms(3)]) (simp add: quote_calm_def quotes_guard_def)
  then have qi: "qt_id ` set qs' = qt_id ` set qs" by (metis list.set_map)
  have links: "td_rfq x \<in> rq_id ` set rs' \<and> td_quote x \<in> qt_id ` set qs'" if "x \<in> set ts" for x
    using assms(1) that by (simp add: trades_linked_def ri qi)
  have closed: "rq_status s \<noteq> RS_open" if "x \<in> set ts" "td_status x = TS_settled" "s \<in> set rs'" "rq_id s = td_rfq x" for x s
    using r [OF that(3)] assms(1) that(1,2,4) unfolding trades_linked_def by metis
  have taken: "qt_status s \<noteq> QS_open" if "x \<in> set ts" "td_status x = TS_settled" "s \<in> set qs'" "qt_id s = td_quote x" for x s
    using q [OF that(3)] assms(1) that(1,2,4) unfolding trades_linked_def by metis
  have filled: "\<exists>x \<in> set ts. td_rfq x = rq_id s \<and> td_status x = TS_settled" if "s \<in> set rs'" "rq_status s = RS_filled" for s
    using r [OF that(1)] assms(1) that(2) unfolding trades_linked_def by metis
  have accepted: "\<exists>x \<in> set ts. td_quote x = qt_id s \<and> td_status x = TS_settled" if "s \<in> set qs'" "qt_status s = QS_accepted" for s
    using q [OF that(1)] assms(1) that(2) unfolding trades_linked_def by metis
  show ?thesis unfolding trades_linked_def using links closed taken filled accepted by blast
qed

lemma linked_new_rfq:
  assumes "trades_linked rs qs ts" "rq_id r \<notin> rq_id ` set rs" "rq_status r = RS_open"
  shows "trades_linked (rs @ [r]) qs ts"
  using assms unfolding trades_linked_def by (auto 0 3)

lemma linked_new_quote:
  assumes "trades_linked rs qs ts" "qt_id q \<notin> qt_id ` set qs" "qt_status q = QS_open"
  shows "trades_linked rs (qs @ [q]) ts"
  using assms unfolding trades_linked_def by (auto 0 3)

lemma linked_new_trade:
  assumes "trades_linked rs qs ts" "td_status x = TS_pending" "td_rfq x \<in> rq_id ` set rs" "td_quote x \<in> qt_id ` set qs"
  shows "trades_linked rs qs (ts @ [x])"
  using assms unfolding trades_linked_def by (auto 0 3)

section \<open>The transactions\<close>

definition market_forward :: "mdb \<Rightarrow> mdb \<Rightarrow> bool" where
  "market_forward d d' \<longleftrightarrow> forward rfqs_guard (mk_rfqs d) (mk_rfqs d')
     \<and> forward quotes_guard (mk_quotes d) (mk_quotes d') \<and> forward trades_guard (mk_trades d) (mk_trades d')"

lemma market_forward_refl [simp]: "market_forward d d"
  by (simp add: market_forward_def forward_refl)

lemma market_forward_trans: "market_forward a b \<Longrightarrow> market_forward b c \<Longrightarrow> market_forward a c"
  unfolding market_forward_def
  by (meson forward_trans rfqs_guard_trans quotes_guard_trans trades_guard_trans)

lemma rows_mono: "list_all2 G t u \<Longrightarrow> (\<And>a b. G a b \<Longrightarrow> H a b) \<Longrightarrow> list_all2 H t u"
  by (rule list.rel_mono_strong)

lemma calm_rows: "list_all2 quote_calm t u \<Longrightarrow> list_all2 quotes_guard t u"
  "list_all2 rfq_calm t' u' \<Longrightarrow> list_all2 rfqs_guard t' u'"
  by (auto elim: rows_mono simp: calm_guard)

lemma quotes_ok_append:
  assumes "quotes_ok t" "qt_id q \<notin> qt_id ` set t" "chk_quote q" "qt_deleted q = None"
    "\<not> hasOpenQuoteForRfq None (qt_rfq q) (qt_holder q) t"
  shows "quotes_ok (t @ [q])"
proof -
  have none: "\<not> (qt_status s = QS_open \<and> qt_rfq s = qt_rfq q \<and> qt_holder s = qt_holder q)" if "s \<in> set t" for s
    using assms(1,5) that by (auto simp: hasOpenQuoteForRfq_def list_ex_iff quotes_ok_def)
  have old: "qt_id a = qt_id b" if "a \<in> set t" "b \<in> set t" "qt_status a = QS_open" "qt_status b = QS_open"
    "qt_rfq a = qt_rfq b" "qt_holder a = qt_holder b" for a b
    using assms(1) that unfolding quotes_ok_def by blast
  have dist: "distinct (map qt_id (t @ [q]))" using assms(1,2) by (simp add: quotes_ok_def)
  have rows: "chk_quote s \<and> qt_deleted s = None" if "s \<in> set (t @ [q])" for s
    using assms(1,3,4) that unfolding quotes_ok_def by auto
  have "qt_id a = qt_id b" if "a \<in> set (t @ [q])" "b \<in> set (t @ [q])" "qt_status a = QS_open" "qt_status b = QS_open"
    "qt_rfq a = qt_rfq b" "qt_holder a = qt_holder b" for a b
    using that none [of a] none [of b] old [of a b] by auto
  then show ?thesis unfolding quotes_ok_def using dist rows by blast
qed

lemma rfqs_ok_append:
  "rfqs_ok t \<Longrightarrow> rq_id r \<notin> rq_id ` set t \<Longrightarrow> chk_rfq r \<Longrightarrow> rq_deleted r = None \<Longrightarrow> rfqs_ok (t @ [r])"
  by (simp add: rfqs_ok_def)

lemma trades_ok_append:
  assumes "trades_ok t" "td_id x \<notin> td_id ` set t" "chk_trade x" "td_deleted x = None" "td_tx x = None"
    "td_settled_at x = None" "findPendingByRfq (td_rfq x) t = None"
  shows "trades_ok (t @ [x])"
proof -
  have none: "\<not> (td_status y = TS_pending \<and> td_rfq y = td_rfq x)" if "y \<in> set t" for y
    using assms(1,7) that by (auto simp: findPendingByRfq_def sql_find_None trades_ok_def)
  have old: "td_id a = td_id b" if "a \<in> set t" "b \<in> set t" "td_status a = TS_pending" "td_status b = TS_pending"
    "td_rfq a = td_rfq b" for a b
    using assms(1) that unfolding trades_ok_def by blast
  have dist: "distinct (map td_id (t @ [x]))" using assms(1,2) by (simp add: trades_ok_def)
  have rows: "chk_trade s \<and> td_deleted s = None \<and> (td_status s = TS_pending \<longrightarrow> td_tx s = None \<and> td_settled_at s = None)"
    if "s \<in> set (t @ [x])" for s
    using assms(1,3-6) that unfolding trades_ok_def by auto
  have "td_id a = td_id b" if "a \<in> set (t @ [x])" "b \<in> set (t @ [x])" "td_status a = TS_pending" "td_status b = TS_pending"
    "td_rfq a = td_rfq b" for a b
    using that none [of a] none [of b] old [of a b] by auto
  then show ?thesis unfolding trades_ok_def using dist rows by blast
qed

text \<open>A step that settles nothing and inserts nothing.\<close>

lemma calm_step:
  assumes "market_ok d" "list_all2 rfq_calm (mk_rfqs d) (mk_rfqs d')" "list_all2 quote_calm (mk_quotes d) (mk_quotes d')"
    "mk_trades d' = mk_trades d"
  shows "market_ok d' \<and> market_forward d d'"
proof -
  have r: "list_all2 rfqs_guard (mk_rfqs d) (mk_rfqs d')" and q: "list_all2 quotes_guard (mk_quotes d) (mk_quotes d')"
    using assms(2,3) by (auto elim: rows_mono simp: calm_guard)
  have "rfqs_ok (mk_rfqs d')" "quotes_ok (mk_quotes d')"
    using assms(1) rfqs_ok_rows [OF _ r] quotes_ok_rows [OF _ q] by (simp_all add: market_ok_def)
  moreover have "trades_linked (mk_rfqs d') (mk_quotes d') (mk_trades d)"
    using assms(1) linked_rows [OF _ assms(2,3)] by (simp add: market_ok_def)
  ultimately show ?thesis
    using assms(1,4) forward_rows [OF r] forward_rows [OF q] by (simp add: market_ok_def market_forward_def forward_refl)
qed

lemma rows_calm_refl [simp]: "list_all2 rfq_calm t t" "list_all2 quote_calm u u"
  by (simp_all add: list.rel_refl)

lemma mk_record_sel [simp]:
  "mk_rfqs (mk_record e d) = mk_rfqs d" "mk_quotes (mk_record e d) = mk_quotes d" "mk_trades (mk_record e d) = mk_trades d"
  "mk_contracts (mk_record e d) = mk_contracts d" "mk_artworks (mk_record e d) = mk_artworks d"
  "mk_audit (mk_record e d) = mk_audit d @ [e]"
  by (simp_all add: mk_record_def)

lemma sys_audit_sel [simp]:
  "mk_rfqs (sys_audit k i d) = mk_rfqs d" "mk_quotes (sys_audit k i d) = mk_quotes d"
  "mk_trades (sys_audit k i d) = mk_trades d"
  by (simp_all add: sys_audit_def)

lemma rfq_txn_cases:
  assumes "run_txn (rfq_txn now i n) d = (r, d')"
  obtains (same) "d' = d" | (inserted) "chk_rfq (rfq_row now i n)"
    "d' = mk_record \<lparr>ae_kind = ''rfq.created'', ae_actor = Some (nr_collector n), ae_subject = i\<rparr>
       (d\<lparr>mk_rfqs := mk_rfqs d @ [rfq_row now i n]\<rparr>)"
  using assms
  by (auto simp: run_txn_def rfq_txn_def rfq_insertOpen_def rfq_row_def split: prod.splits if_splits sum.splits)

lemma rfq_txn_step:
  assumes "market_ok d" "i \<notin> rq_id ` set (mk_rfqs d)" "run_txn (rfq_txn now i n) d = (r, d')"
  shows "market_ok d' \<and> market_forward d d'"
  using assms(3)
proof (cases rule: rfq_txn_cases)
  case inserted
  have row: "rq_id (rfq_row now i n) = i" "rq_status (rfq_row now i n) = RS_open" "rq_deleted (rfq_row now i n) = None"
    by (simp_all add: rfq_row_def)
  have "rfqs_ok (mk_rfqs d @ [rfq_row now i n])"
    by (rule rfqs_ok_append) (use assms(1,2) inserted(1) row in \<open>simp_all add: market_ok_def\<close>)
  moreover have "trades_linked (mk_rfqs d @ [rfq_row now i n]) (mk_quotes d) (mk_trades d)"
    by (rule linked_new_rfq) (use assms(1,2) row in \<open>simp_all add: market_ok_def\<close>)
  ultimately show ?thesis using assms(1) unfolding inserted(2)
    by (simp add: market_ok_def market_forward_def forward_refl forward_append list.rel_refl)
qed (use assms(1) in simp)

lemma latch_step: "market_ok d \<Longrightarrow> market_ok (d\<lparr>mk_rfqs := fst (latchFannedOut now i (mk_rfqs d))\<rparr>)
    \<and> market_forward d (d\<lparr>mk_rfqs := fst (latchFannedOut now i (mk_rfqs d))\<rparr>)"
  by (rule calm_step) (simp_all add: rfq_statements)

text \<open>What the submit transaction does.\<close>

definition terms_ok :: "int \<Rightarrow> int \<Rightarrow> bool" where
  "terms_ok n p \<longleftrightarrow> 0 < n \<and> n \<le> MAX_STROOPS \<and> 0 < p \<and> p \<le> MAX_STROOPS"

lemma quote_txn_cases:
  assumes "run_txn (quote_txn now dbnow i onchain n) d = (r, d')"
  obtains (fails) e where "r = Inl e" "d' = d" "\<And>c. e \<noteq> InternalError c"
  | (replay) "r = Inr None" "d' = d\<lparr>mk_quotes := fst (reapLapsed dbnow (nq_holder n) (nq_contract n) (mk_quotes d))\<rparr>"
  | (inserted) t where "r = Inr (Some (quote_row dbnow i n))"
    "t = fst (reapLapsed dbnow (nq_holder n) (nq_contract n) (mk_quotes d))"
    "\<not> hasOpenQuoteForRfq None (nq_rfq n) (nq_holder n) t"
    "nq_count n \<le> onchain - sumOpenLockedCount dbnow (nq_holder n) (nq_contract n) t"
    "now < nq_valid_until n" "dbnow < nq_valid_until n"
    "d' = mk_record \<lparr>ae_kind = ''quote.submitted'', ae_actor = Some (nq_holder n), ae_subject = i\<rparr>
       (d\<lparr>mk_quotes := t @ [quote_row dbnow i n]\<rparr>)"
proof -
  define t where "t = fst (reapLapsed dbnow (nq_holder n) (nq_contract n) (mk_quotes d))"
  have id: "qt_id (quote_row dbnow i n) = i" by (simp add: quote_row_def)
  consider "hasOpenQuoteForRfq None (nq_rfq n) (nq_holder n) t"
    | "onchain - sumOpenLockedCount dbnow (nq_holder n) (nq_contract n) t < nq_count n"
    | "nq_valid_until n \<le> now" | "nq_valid_until n \<le> dbnow"
    | "\<not> hasOpenQuoteForRfq None (nq_rfq n) (nq_holder n) t"
      "nq_count n \<le> onchain - sumOpenLockedCount dbnow (nq_holder n) (nq_contract n) t"
      "now < nq_valid_until n" "dbnow < nq_valid_until n"
    by linarith
  then show thesis
  proof cases
    case 5
    show thesis
    proof (cases "list_ex (\<lambda>q. qt_holder q = nq_holder n \<and> qt_rfq q = nq_rfq n \<and> qt_idem q = nq_idem n) t")
      case True
      with 5 assms show thesis
        by (intro replay) (simp_all add: run_txn_def quote_txn_def quote_insertOpen_def Let_def t_def)
    next
      case False
      with 5 assms id show thesis
        by (intro inserted [of t]) (simp_all add: run_txn_def quote_txn_def quote_insertOpen_def Let_def t_def)
    qed
  qed (use assms fails in \<open>auto simp: run_txn_def quote_txn_def quote_insertOpen_def Let_def t_def split: if_splits\<close>)
qed

lemma quote_row_chk: "terms_ok (nq_count n) (nq_price n) \<Longrightarrow> now < nq_valid_until n \<Longrightarrow> chk_quote (quote_row now i n)"
  by (simp add: chk_quote_def quote_row_def terms_ok_def)

lemma quote_row_sel [simp]:
  "qt_id (quote_row now i n) = i" "qt_status (quote_row now i n) = QS_open" "qt_deleted (quote_row now i n) = None"
  "qt_rfq (quote_row now i n) = nq_rfq n" "qt_holder (quote_row now i n) = nq_holder n"
  "qt_contract (quote_row now i n) = nq_contract n" "qt_count (quote_row now i n) = nq_count n"
  "qt_valid_until (quote_row now i n) = nq_valid_until n" "qt_price (quote_row now i n) = nq_price n"
  by (simp_all add: quote_row_def)

lemma quote_txn_step:
  assumes "market_ok d" "i \<notin> qt_id ` set (mk_quotes d)" "terms_ok (nq_count n) (nq_price n)"
    "run_txn (quote_txn now dbnow i onchain n) d = (r, d')"
  shows "market_ok d' \<and> market_forward d d'"
  using assms(4)
proof (cases rule: quote_txn_cases)
  case replay
  show ?thesis unfolding replay(2) by (rule calm_step) (simp_all add: assms(1) quote_statements)
next
  case (inserted t)
  have t: "list_all2 quote_calm (mk_quotes d) t" unfolding inserted(2) by (rule quote_statements)
  have step: "market_ok (d\<lparr>mk_quotes := t\<rparr>)" using calm_step [OF assms(1), of "d\<lparr>mk_quotes := t\<rparr>"] t by simp
  have "map qt_id t = map qt_id (mk_quotes d)"
    by (rule rows_key [OF t]) (simp add: quote_calm_def quotes_guard_def)
  then have fresh: "i \<notin> qt_id ` set t" using assms(2) by (metis list.set_map)
  have "quotes_ok (t @ [quote_row dbnow i n])"
    by (rule quotes_ok_append) (use step fresh inserted(3,6) assms(3) quote_row_chk in \<open>simp_all add: market_ok_def\<close>)
  moreover have "trades_linked (mk_rfqs d) (t @ [quote_row dbnow i n]) (mk_trades d)"
    by (rule linked_new_quote) (use step fresh in \<open>simp_all add: market_ok_def\<close>)
  moreover have "forward quotes_guard (mk_quotes d) (t @ [quote_row dbnow i n])"
    by (rule forward_append) (use t calm_guard(1) in \<open>rule rows_mono\<close>)
  ultimately show ?thesis using assms(1) unfolding inserted(7)
    by (simp add: market_ok_def market_forward_def forward_refl)
qed (use assms(1) in simp)

lemma authorize_txn_cases:
  assumes "run_txn (authorize_txn now u q k req onchain entry ledger w) d = (r, d')"
  obtains (fails) e where "r = Inl e" "d' = d"
  | (marked) "r = Inr now" "req \<le> onchain - sumAuthorizedLockedCount now u k q (mk_quotes d)"
    "snd (markAuthorized now q entry ledger w (mk_quotes d))"
    "d' = mk_record \<lparr>ae_kind = ''quote.authorized'', ae_actor = Some u, ae_subject = q\<rparr>
       (d\<lparr>mk_quotes := fst (markAuthorized now q entry ledger w (mk_quotes d))\<rparr>)"
  using assms by (auto simp: run_txn_def authorize_txn_def split: prod.splits if_splits sum.splits bool.splits)

lemma authorize_txn_step:
  assumes "market_ok d" "run_txn (authorize_txn now u q k req onchain entry ledger w) d = (r, d')"
  shows "market_ok d' \<and> market_forward d d'"
  using assms(2)
proof (cases rule: authorize_txn_cases)
  case marked
  show ?thesis unfolding marked(4) by (rule calm_step) (simp_all add: assms(1) quote_statements)
qed (use assms(1) in simp)

lemma accept_txn_cases:
  assumes "run_txn (accept_txn now i n) d = (r, d')"
  obtains (fails) e where "r = Inl e" "d' = d"
  | (replay) "r = Inr None" "d' = d"
  | (inserted) "r = Inr (Some (trade_row now i n))" "findPendingByRfq (nt_rfq n) (mk_trades d) = None"
    "chk_trade (trade_row now i n)" "d' = d\<lparr>mk_trades := mk_trades d @ [trade_row now i n]\<rparr>"
  using assms
  by (auto simp: run_txn_def accept_txn_def insertPending_def split: prod.splits if_splits sum.splits)

lemma trade_row_sel [simp]:
  "td_id (trade_row now i n) = i" "td_status (trade_row now i n) = TS_pending" "td_deleted (trade_row now i n) = None"
  "td_tx (trade_row now i n) = None" "td_settled_at (trade_row now i n) = None"
  "td_rfq (trade_row now i n) = nt_rfq n" "td_quote (trade_row now i n) = nt_quote n"
  by (simp_all add: trade_row_def)

lemma accept_txn_step:
  assumes "market_ok d" "i \<notin> td_id ` set (mk_trades d)" "nt_rfq n \<in> rq_id ` set (mk_rfqs d)"
    "nt_quote n \<in> qt_id ` set (mk_quotes d)" "run_txn (accept_txn now i n) d = (r, d')"
  shows "market_ok d' \<and> market_forward d d'"
  using assms(5)
proof (cases rule: accept_txn_cases)
  case inserted
  have "trades_ok (mk_trades d @ [trade_row now i n])"
    by (rule trades_ok_append) (use assms(1,2) inserted(2,3) in \<open>simp_all add: market_ok_def\<close>)
  moreover have "trades_linked (mk_rfqs d) (mk_quotes d) (mk_trades d @ [trade_row now i n])"
    by (rule linked_new_trade) (use assms(1,3,4) in \<open>simp_all add: market_ok_def\<close>)
  ultimately show ?thesis using assms(1) unfolding inserted(4)
    by (simp add: market_ok_def market_forward_def forward_refl forward_append list.rel_refl)
qed (use assms(1) in simp_all)

section \<open>The two ends of a trade\<close>

lemma failTrade_tables:
  assumes "failTrade now t reason disp d = d'"
  shows "d' = d \<or> mk_rfqs d' = mk_rfqs d \<and> mk_trades d' = fst (trade_casFailed now (td_id t) reason (mk_trades d))
    \<and> (mk_quotes d' = mk_quotes d \<or> mk_quotes d' = fst (expireWithReason now (td_quote t) reason (mk_quotes d)))"
  using assms by (auto simp: failTrade_def Let_def split: prod.splits bool.splits if_splits)

lemma failTrade_step:
  assumes "market_ok d"
  shows "market_ok (failTrade now t reason disp d) \<and> market_forward d (failTrade now t reason disp d)"
proof -
  define d' where "d' = failTrade now t reason disp d"
  let ?ts = "fst (trade_casFailed now (td_id t) reason (mk_trades d))"
  have ts: "list_all2 trades_guard (mk_trades d) ?ts" by (rule trade_statements)
  have ok: "trades_ok ?ts"
    by (rule trades_ok_rows [OF _ ts]) (use assms in \<open>auto simp: market_ok_def trade_casFailed_def fst_cas_rows split: if_splits\<close>)
  have linked: "trades_linked (mk_rfqs d) qs ?ts" if "trades_linked (mk_rfqs d) qs (mk_trades d)" for qs
  proof -
    have old: "\<exists>x \<in> set (mk_trades d). td_rfq y = td_rfq x \<and> td_quote y = td_quote x
        \<and> (td_status y = TS_settled \<longrightarrow> td_status x = TS_settled)" if "y \<in> set ?ts" for y
      using that by (auto simp: trade_casFailed_def fst_cas_rows split: if_splits)
    have new: "\<exists>y \<in> set ?ts. td_rfq y = td_rfq x \<and> td_quote y = td_quote x \<and> td_status y = TS_settled"
      if "x \<in> set (mk_trades d)" "td_status x = TS_settled" for x
      using that by (auto simp: trade_casFailed_def fst_cas_rows intro!: rev_image_eqI [of x])
    show ?thesis using that old new unfolding trades_linked_def by (safe; metis)
  qed
  from failTrade_tables [of now t reason disp d d'] d'_def
  consider "d' = d" | "mk_rfqs d' = mk_rfqs d" "mk_trades d' = ?ts"
    "list_all2 quote_calm (mk_quotes d) (mk_quotes d')"
    by (auto simp: quote_statements)
  then have "market_ok d' \<and> market_forward d d'"
  proof cases
    case 2
    have q: "list_all2 quotes_guard (mk_quotes d) (mk_quotes d')" using 2(3) calm_guard(1) by (rule rows_mono)
    have "quotes_ok (mk_quotes d')" using assms q quotes_ok_rows by (auto simp: market_ok_def)
    moreover have "trades_linked (mk_rfqs d) (mk_quotes d') (mk_trades d)"
      using assms linked_rows [OF _ rows_calm_refl(1) 2(3)] by (simp add: market_ok_def)
    ultimately show ?thesis using assms ok linked 2(1,2) forward_rows [OF q] forward_rows [OF ts]
      by (simp add: market_ok_def market_forward_def forward_refl)
  qed (use assms in simp)
  then show ?thesis by (simp only: d'_def)
qed

text \<open>A settlement of a stored trade: what each row becomes.\<close>

definition settled_trade :: "instant \<Rightarrow> trade \<Rightarrow> ident option \<Rightarrow> trade \<Rightarrow> trade" where
  "settled_trade now t tx x = (if td_id x = td_id t \<and> td_status x = TS_pending
     then x\<lparr>td_status := TS_settled, td_tx := tx, td_settled_at := Some now, td_updated := now\<rparr> else x)"

definition settled_rfq :: "instant \<Rightarrow> trade \<Rightarrow> rfq \<Rightarrow> rfq" where
  "settled_rfq now t r = (if rq_id r = td_rfq t \<and> rq_status r = RS_open
     then r\<lparr>rq_status := RS_filled, rq_updated := now\<rparr> else r)"

definition settled_quote :: "instant \<Rightarrow> trade \<Rightarrow> rfq_quote \<Rightarrow> rfq_quote" where
  "settled_quote now t q =
     (if qt_id q = td_quote t \<and> qt_status q = QS_open then q\<lparr>qt_status := QS_accepted, qt_updated := now\<rparr>
      else if qt_rfq q = td_rfq t \<and> qt_id q \<noteq> td_quote t \<and> qt_status q = QS_open
        then q\<lparr>qt_status := QS_superseded, qt_updated := now\<rparr>
      else q)"

lemma persistSettled_tables:
  "snd (trade_casSettled now (td_id t) tx (mk_trades d)) \<Longrightarrow>
     mk_trades (persistSettled now t tx d) = map (settled_trade now t tx) (mk_trades d)
     \<and> mk_rfqs (persistSettled now t tx d) = map (settled_rfq now t) (mk_rfqs d)
     \<and> mk_quotes (persistSettled now t tx d) = map (settled_quote now t) (mk_quotes d)"
  "\<not> snd (trade_casSettled now (td_id t) tx (mk_trades d)) \<Longrightarrow> persistSettled now t tx d = d"
  by (auto simp: persistSettled_def market_defs cas_rows_def sql_update_def Let_def comp_def settled_trade_def
      settled_rfq_def settled_quote_def split: prod.splits)

lemma persistSettled_step:
  assumes "market_ok d" "\<And>x. x \<in> set (mk_trades d) \<Longrightarrow> td_id x = td_id t \<Longrightarrow> td_rfq x = td_rfq t \<and> td_quote x = td_quote t"
  shows "market_ok (persistSettled now t tx d) \<and> market_forward d (persistSettled now t tx d)"
proof (cases "snd (trade_casSettled now (td_id t) tx (mk_trades d))")
  case True
  note P = persistSettled_tables(1) [OF True]
  from True obtain x0 where x0: "x0 \<in> set (mk_trades d)" "td_id x0 = td_id t" "td_status x0 = TS_pending"
    by (auto simp: trade_casSettled_def snd_cas_rows)
  have blank: "td_tx x = None \<and> td_settled_at x = None" if "x \<in> set (mk_trades d)" "td_status x = TS_pending" for x
    using assms(1) that by (simp add: market_ok_def trades_ok_def)
  have ts: "list_all2 trades_guard (mk_trades d) (map (settled_trade now t tx) (mk_trades d))"
    by (rule rows_map) (use blank in \<open>simp add: settled_trade_def trades_guard_def\<close>)
  have rs: "list_all2 rfqs_guard (mk_rfqs d) (map (settled_rfq now t) (mk_rfqs d))"
    by (rule rows_map) (simp add: settled_rfq_def rfqs_guard_def)
  have qs: "list_all2 quotes_guard (mk_quotes d) (map (settled_quote now t) (mk_quotes d))"
    by (rule rows_map) (simp add: settled_quote_def quotes_guard_def)
  have "trades_ok (map (settled_trade now t tx) (mk_trades d))"
    by (rule trades_ok_rows [OF _ ts]) (use assms(1) in \<open>auto simp: market_ok_def settled_trade_def split: if_splits\<close>)
  moreover have "rfqs_ok (map (settled_rfq now t) (mk_rfqs d))" "quotes_ok (map (settled_quote now t) (mk_quotes d))"
    using assms(1) rfqs_ok_rows [OF _ rs] quotes_ok_rows [OF _ qs] by (simp_all add: market_ok_def)
  moreover have "trades_linked (map (settled_rfq now t) (mk_rfqs d)) (map (settled_quote now t) (mk_quotes d))
      (map (settled_trade now t tx) (mk_trades d))"
  proof -
    have L: "trades_linked (mk_rfqs d) (mk_quotes d) (mk_trades d)" using assms(1) by (simp add: market_ok_def)
    have sel: "td_rfq (settled_trade now t tx x) = td_rfq x" "td_quote (settled_trade now t tx x) = td_quote x"
      "rq_id (settled_rfq now t r) = rq_id r" "qt_id (settled_quote now t q) = qt_id q" for x r q
      by (simp_all add: settled_trade_def settled_rfq_def settled_quote_def)
    have ends: "td_status (settled_trade now t tx x) = TS_settled \<longleftrightarrow>
        td_status x = TS_settled \<or> td_id x = td_id t \<and> td_status x = TS_pending" for x
      by (auto simp: settled_trade_def)
    have closed: "rq_status (settled_rfq now t r) = RS_open \<longleftrightarrow> rq_status r = RS_open \<and> rq_id r \<noteq> td_rfq t"
      "rq_status (settled_rfq now t r) = RS_filled \<longleftrightarrow> rq_status r = RS_filled \<or> rq_status r = RS_open \<and> rq_id r = td_rfq t" for r
      by (auto simp: settled_rfq_def)
    have taken: "qt_status (settled_quote now t q) = QS_open \<longrightarrow> qt_status q = QS_open \<and> qt_id q \<noteq> td_quote t"
      "qt_status (settled_quote now t q) = QS_accepted \<longleftrightarrow> qt_status q = QS_accepted \<or> qt_status q = QS_open \<and> qt_id q = td_quote t" for q
      by (auto simp: settled_quote_def)
    have x0': "td_rfq x0 = td_rfq t" "td_quote x0 = td_quote t" using assms(2) x0 by blast+
    show ?thesis unfolding trades_linked_def ball_simps bex_simps list.set_map sel ends closed taken image_image
    proof (intro conjI ballI impI)
      fix x assume x: "x \<in> set (mk_trades d)"
      show "td_rfq x \<in> rq_id ` set (mk_rfqs d)" "td_quote x \<in> qt_id ` set (mk_quotes d)"
        using L x by (simp_all add: trades_linked_def)
      assume e: "td_status x = TS_settled \<or> td_id x = td_id t \<and> td_status x = TS_pending"
      show "\<not> (rq_status r = RS_open \<and> rq_id r \<noteq> td_rfq t)" if "r \<in> set (mk_rfqs d)" "rq_id r = td_rfq x" for r
        using e L x that assms(2) [OF x] unfolding trades_linked_def by metis
      show "qt_status (settled_quote now t q) \<noteq> QS_open" if "q \<in> set (mk_quotes d)" "qt_id q = td_quote x" for q
        using e L x that assms(2) [OF x] taken(1) [of q] unfolding trades_linked_def by metis
    next
      fix r assume "r \<in> set (mk_rfqs d)" "rq_status r = RS_filled \<or> rq_status r = RS_open \<and> rq_id r = td_rfq t"
      then show "\<exists>x \<in> set (mk_trades d). td_rfq x = rq_id r \<and> (td_status x = TS_settled \<or> td_id x = td_id t \<and> td_status x = TS_pending)"
        using L x0 x0' unfolding trades_linked_def by metis
    next
      fix q assume "q \<in> set (mk_quotes d)" "qt_status q = QS_accepted \<or> qt_status q = QS_open \<and> qt_id q = td_quote t"
      then show "\<exists>x \<in> set (mk_trades d). td_quote x = qt_id q \<and> (td_status x = TS_settled \<or> td_id x = td_id t \<and> td_status x = TS_pending)"
        using L x0 x0' unfolding trades_linked_def by metis
    qed
  qed
  ultimately show ?thesis using forward_rows [OF ts] forward_rows [OF rs] forward_rows [OF qs]
    by (simp add: market_ok_def market_forward_def P)
qed (use assms(1) persistSettled_tables(2) in simp)

section \<open>The free balance\<close>

definition sums_within :: "(ident \<Rightarrow> ident \<Rightarrow> int) \<Rightarrow> instant \<Rightarrow> rfq_quote list \<Rightarrow> bool" where
  "sums_within B c t \<longleftrightarrow> (\<forall>now \<ge> c. \<forall>h k. sumOpenLockedCount now h k t \<le> B h k)"

lemma sumOpenLocked_simps [simp]:
  "sumOpenLockedCount now h k [] = 0"
  "sumOpenLockedCount now h k (q # t) = (if open_locked now h k q then qt_count q else 0) + sumOpenLockedCount now h k t"
  "sumOpenLockedCount now h k (t @ u) = sumOpenLockedCount now h k t + sumOpenLockedCount now h k u"
  by (simp_all add: sumOpenLockedCount_def)

lemma sumOpenLocked_rows:
  "list_all2 quotes_guard t u \<Longrightarrow> \<forall>q \<in> set t. 0 \<le> qt_count q
     \<Longrightarrow> sumOpenLockedCount now h k u \<le> sumOpenLockedCount now h k t"
proof (induction rule: list_all2_induct)
  case (Cons q t s u)
  have "(if open_locked now h k s then qt_count s else 0) \<le> (if open_locked now h k q then qt_count q else 0)"
    using Cons.hyps(1) Cons.prems by (auto simp: open_locked_def quotes_guard_def)
  then show ?case using Cons by simp
qed simp

lemma sumOpenLocked_later:
  "\<forall>q \<in> set t. 0 \<le> qt_count q \<Longrightarrow> now \<le> now' \<Longrightarrow> sumOpenLockedCount now' h k t \<le> sumOpenLockedCount now h k t"
proof (induction t)
  case (Cons q t)
  have "(if open_locked now' h k q then qt_count q else 0) \<le> (if open_locked now h k q then qt_count q else 0)"
    using Cons.prems by (auto simp: open_locked_def)
  then show ?case using Cons by simp
qed simp

lemma quotes_ok_counts: "quotes_ok t \<Longrightarrow> \<forall>q \<in> set t. 0 \<le> qt_count q"
  by (auto simp: quotes_ok_def chk_quote_def)

lemma sums_within_rows:
  assumes "sums_within B c t" "quotes_ok t" "list_all2 quotes_guard t u" "c \<le> c'"
  shows "sums_within B c' u"
  unfolding sums_within_def
proof (intro allI impI)
  fix now h k assume "c' \<le> now"
  then have "sumOpenLockedCount now h k t \<le> B h k" using assms(1,4) by (simp add: sums_within_def)
  then show "sumOpenLockedCount now h k u \<le> B h k"
    using sumOpenLocked_rows [OF assms(3) quotes_ok_counts [OF assms(2)], of now h k] by linarith
qed

lemma sums_within_quote:
  assumes "sums_within B c t" "quotes_ok t" "c \<le> dbnow" "0 \<le> nq_count n"
    "nq_count n \<le> onchain - sumOpenLockedCount dbnow (nq_holder n) (nq_contract n) t"
    "onchain \<le> B (nq_holder n) (nq_contract n)"
  shows "sums_within B dbnow (t @ [quote_row dbnow i n])"
  unfolding sums_within_def
proof (intro allI impI)
  fix now h k assume now: "dbnow \<le> now"
  have old: "sumOpenLockedCount now h k t \<le> B h k" using assms(1,3) now by (simp add: sums_within_def)
  show "sumOpenLockedCount now h k (t @ [quote_row dbnow i n]) \<le> B h k"
  proof (cases "open_locked now h k (quote_row dbnow i n)")
    case True
    then have "h = nq_holder n" "k = nq_contract n" by (simp_all add: open_locked_def)
    with True assms(5,6) sumOpenLocked_later [OF quotes_ok_counts [OF assms(2)] now, of h k] show ?thesis by simp
  qed (use old in simp)
qed

lemma authorized_within: "\<forall>q \<in> set t. 0 \<le> qt_count q \<Longrightarrow>
    sumAuthorizedLockedCount now h k i t \<le> sumOpenLockedCount now h k t"
  by (induction t) (auto simp: sumAuthorizedLockedCount_def)

section \<open>The machine\<close>

text \<open>
  A step is a handler's transaction on the tables \<open>d\<close>, after gates on whatever tables \<open>d0\<close> it read
  before; \<open>B h k\<close> bounds what a balance read answers for the holder \<open>h\<close> and the token of contract
  \<open>k\<close>. Ids are fresh, the foreign keys of a trade are enforced by the database, and a worker's
  trade is a row it read.
\<close>

definition reads_within :: "(ident \<Rightarrow> ident \<Rightarrow> int) \<Rightarrow> bid_env \<Rightarrow> (ident \<Rightarrow> ident \<Rightarrow> string option option) \<Rightarrow> ident \<Rightarrow> mdb \<Rightarrow> bool" where
  "reads_within B env balance u d0 \<longleftrightarrow>
     (\<forall>k n. resolveContractAndReadBalance env balance u k d0 = Inr n \<longrightarrow> n \<le> B u k)"

inductive market_step :: "(ident \<Rightarrow> ident \<Rightarrow> int) \<Rightarrow> instant \<times> mdb \<Rightarrow> instant \<times> mdb \<Rightarrow> bool" for B where
  tick: "c \<le> c' \<Longrightarrow> market_step B (c, d) (c', d)"
| request: "c \<le> c' \<Longrightarrow> i \<notin> rq_id ` set (mk_rfqs d)
    \<Longrightarrow> rfq_work env holdings now c' i u dto idem d0 d = (r, d') \<Longrightarrow> market_step B (c, d) (c', d')"
| fan_out: "c \<le> c' \<Longrightarrow> market_step B (c, d) (c', d\<lparr>mk_rfqs := fst (latchFannedOut c' i (mk_rfqs d))\<rparr>)"
| quote: "c \<le> c' \<Longrightarrow> i \<notin> qt_id ` set (mk_quotes d) \<Longrightarrow> create_quote_dto_ok qdto \<Longrightarrow> reads_within B env balance u d0
    \<Longrightarrow> quote_work env balance now now2 c' i u rfqId qdto idem d0 d = (q, d') \<Longrightarrow> market_step B (c, d) (c', d')"
| authorise: "c \<le> c' \<Longrightarrow> authorize_work env now c' balance attach u rfqId quoteId a d0 d = (b, d')
    \<Longrightarrow> market_step B (c, d) (c', d')"
| accept: "c \<le> c' \<Longrightarrow> i \<notin> td_id ` set (mk_trades d) \<Longrightarrow> rfqId \<in> rq_id ` set (mk_rfqs d)
    \<Longrightarrow> quoteId \<in> qt_id ` set (mk_quotes d)
    \<Longrightarrow> accept_work env cfg fresh now c' i u rfqId quoteId a idem d0 d = (t, d') \<Longrightarrow> market_step B (c, d) (c', d')"
| settle: "c \<le> c' \<Longrightarrow> (\<And>x. x \<in> set (mk_trades d) \<Longrightarrow> td_id x = td_id y \<Longrightarrow> td_rfq x = td_rfq y \<and> td_quote x = td_quote y)
    \<Longrightarrow> market_step B (c, d) (c', persistSettled c' y tx d)"
| abandon: "c \<le> c' \<Longrightarrow> market_step B (c, d) (c', failTrade c' y reason disp d)"

subsection \<open>From a handler to its transaction\<close>

lemma rfq_work_txn:
  assumes "rfq_work env holdings now dbnow i u dto idem d0 d = (r, d')"
  shows "d' = d \<or> (\<exists>n x. run_txn (rfq_txn dbnow i n) d = (x, d'))"
proof (cases "rfq_gates env u dto d0")
  case (Inr p)
  obtain required k where p: "p = (required, k)" by (cases p)
  obtain x d3 where t: "run_txn (rfq_txn dbnow i \<lparr>nr_collector = u, nr_artwork = cr_artwork_id dto, nr_contract = k,
      nr_count = cr_fractions dto, nr_max_price = BigInt (cr_max_price dto),
      nr_expires = now + expiry_hours dto * MS_PER_HOUR, nr_idem = idem\<rparr>) d = (x, d3)" (is "run_txn (rfq_txn _ _ ?n) _ = _")
    by fastforce
  have "d' = d3" using assms t by (auto simp: rfq_work_def Inr p split: sum.splits option.splits)
  then show ?thesis using t by blast
qed (use assms in \<open>simp add: rfq_work_def\<close>)

lemma quote_gates_Inr:
  assumes "quote_gates env balance now u rfqId dto d0 = Inr (r, validUntil, capped, onchain)"
  shows "find_rfq rfqId (mk_rfqs d0) = Some r" "rq_status r = RS_open" "now < rq_expires r" "rq_collector r \<noteq> u"
    "1 \<le> BigInt (cq_price dto)" "BigInt (cq_price dto) \<le> MAX_STROOPS" "BigInt (cq_price dto) * cq_count dto \<le> MAX_I128"
    "validUntil = min (cq_valid_until dto) (rq_expires r)"
    "findKycStatusByUserId u (be_identity env) = Some K_whitelisted"
    "resolveContractAndReadBalance env balance u (rq_contract r) d0 = Inr onchain"
proof -
  have load: "loadQuotableRfq now rfqId d0 = Inr r" and rest:
    "findKycStatusByUserId u (be_identity env) = Some K_whitelisted" "rq_collector r \<noteq> u"
    "1 \<le> BigInt (cq_price dto)" "BigInt (cq_price dto) \<le> MAX_STROOPS" "BigInt (cq_price dto) * cq_count dto \<le> MAX_I128"
    "resolveContractAndReadBalance env balance u (rq_contract r) d0 = Inr onchain"
    "validUntil = min (cq_valid_until dto) (rq_expires r)"
    using assms by (auto simp: quote_gates_def err_simps Let_def)
  show "find_rfq rfqId (mk_rfqs d0) = Some r" "rq_status r = RS_open" "now < rq_expires r"
    using load by (auto simp: loadQuotableRfq_def split: option.splits if_splits)
qed (use assms in \<open>auto simp: quote_gates_def err_simps Let_def\<close>)

lemma quote_work_txn:
  assumes "quote_work env balance now now2 dbnow i u rfqId dto idem d0 d = (q, d')" "create_quote_dto_ok dto"
  obtains (none) e where "q = Inl e" "d' = d"
  | (txn) onchain n x where "run_txn (quote_txn now2 dbnow i onchain n) d = (x, d')"
    "terms_ok (nq_count n) (nq_price n)" "resolveContractAndReadBalance env balance u (nq_contract n) d0 = Inr onchain"
    "nq_holder n = u"
proof (cases "quote_gates env balance now u rfqId dto d0")
  case (Inl e)
  then show thesis using assms(1) none [of e] by (simp add: quote_work_def)
next
  case (Inr p)
  obtain r v cap onchain where p: "p = (r, v, cap, onchain)" by (cases p) auto
  note G = quote_gates_Inr [OF Inr [unfolded p]]
  let ?n = "\<lparr>nq_rfq = rfqId, nq_holder = u, nq_contract = rq_contract r, nq_count = cq_count dto,
     nq_price = BigInt (cq_price dto), nq_valid_until = v, nq_idem = idem\<rparr>"
  obtain x d3 where t: "run_txn (quote_txn now2 dbnow i onchain ?n) d = (x, d3)" by fastforce
  have "d' = d3" using assms(1) t by (auto simp: quote_work_def Inr p split: sum.splits option.splits)
  moreover have "terms_ok (cq_count dto) (BigInt (cq_price dto))"
    using assms(2) G(5,6) by (simp add: terms_ok_def create_quote_dto_ok_def MAX_STROOPS_def)
  ultimately show thesis using t G(10) by (intro txn [of onchain ?n x]) simp_all
qed

lemma authorize_work_txn:
  assumes "authorize_work env now now2 balance attach u rfqId quoteId a d0 d = (b, d')"
  shows "d' = d \<or> (\<exists>k req onchain entry ledger w x. run_txn (authorize_txn now2 u quoteId k req onchain entry ledger w) d = (x, d'))"
proof (cases "authorize_gates env now balance attach u rfqId quoteId a d0")
  case (Inr p)
  obtain ctx entry ledger onchain where p: "p = (ctx, entry, ledger, onchain)" by (cases p) auto
  obtain x d3 where t: "run_txn (authorize_txn now2 u quoteId (qt_contract (ac_quote ctx)) (qt_count (ac_quote ctx)) onchain
      entry ledger (aq_seller (ac_args ctx))) d = (x, d3)" by fastforce
  have "d' = d3" using assms t by (auto simp: authorize_work_def Inr p split: sum.splits)
  then show ?thesis using t by blast
qed (use assms in \<open>simp add: authorize_work_def\<close>)

lemma accept_context_Inr:
  assumes "accept_context env now u rfqId quoteId w d0 = Inr ctx"
  shows "\<exists>r. find_rfq rfqId (mk_rfqs d0) = Some r \<and> rq_collector r = u \<and> rq_status r = RS_open"
    "findAcceptable now rfqId quoteId (mk_quotes d0) = Some (ax_quote ctx)"
    "aq_gross (ax_args ctx) = qt_count (ax_quote ctx) * qt_price (ax_quote ctx)" "aq_buyer (ax_args ctx) = w"
  using assms
  by (auto simp: accept_context_def err_simps split: option.splits if_splits)

lemma accept_work_txn:
  assumes "accept_work env cfg fresh now now2 i u rfqId quoteId a idem d0 d = (t, d')"
  shows "d' = d \<or> (\<exists>n x. run_txn (accept_txn now2 i n) d = (x, d') \<and> nt_rfq n = rfqId \<and> nt_quote n = quoteId)"
proof (cases "accept_gates env fresh now u rfqId quoteId a d0")
  case (Inr p)
  obtain ctx cred key where p: "p = (ctx, cred, key)" by (cases p) auto
  obtain w where "accept_context env now u rfqId quoteId w d0 = Inr ctx"
    using Inr unfolding p accept_gates_def by (auto simp: err_simps split: option.splits)
  from accept_context_Inr(2) [OF this] have q: "qt_id (ax_quote ctx) = quoteId"
    by (auto simp: findAcceptable_def dest!: sql_find_Some)
  let ?q = "ax_quote ctx"
  let ?n = "\<lparr>nt_rfq = rfqId, nt_quote = qt_id ?q, nt_buyer = u, nt_seller = qt_holder ?q, nt_contract = qt_contract ?q,
     nt_count = qt_count ?q, nt_price = qt_price ?q, nt_idem = idem\<rparr>"
  obtain x d3 where t: "run_txn (accept_txn now2 i ?n) d = (x, d3)" by fastforce
  have "d' = d3" using assms t by (auto simp: accept_work_def Inr p Let_def split: sum.splits option.splits)
  moreover have "nt_rfq ?n = rfqId \<and> nt_quote ?n = quoteId" using q by simp
  ultimately show ?thesis using t by blast
qed (use assms in \<open>simp add: accept_work_def\<close>)

end
