(* ===== verification/Market_Props.thy ===== *)
theory Market_Props
  imports Market_Machine
begin

text \<open>
  The secondary market under every interleaving of its handlers and workers: rows move along the
  guard triggers, one pending trade per RFQ, settled trades close their RFQ and quote, and the
  open quotes of a holder stay within the balance that was read.
\<close>

section \<open>One step\<close>

lemma market_step_ok:
  assumes "market_step B s s'" "market_ok (snd s)"
  shows "market_ok (snd s') \<and> market_forward (snd s) (snd s')"
  using assms
proof (cases rule: market_step.cases)
  case (request c c' i d env holdings now u dto idem d0 r d')
  with rfq_work_txn [OF request(5)] rfq_txn_step assms(2) show ?thesis by (auto simp del: fst_conv)
next
  case (fan_out c c' d i)
  with latch_step assms(2) show ?thesis by simp
next
  case (quote c c' i d qdto env balance u d0 now now2 rfqId idem q d')
  from quote(7,5) show ?thesis
  proof (cases rule: quote_work_txn)
    case (txn onchain n x)
    with quote_txn_step [OF _ quote(4)] quote(1,2) assms(2) show ?thesis by simp
  qed (use quote(1,2) assms(2) in simp)
next
  case (authorise c c' env now balance attach u rfqId quoteId a d0 d b d')
  from authorize_work_txn [OF authorise(4)] show ?thesis
    using authorize_txn_step [of d] authorise(1,2) assms(2) by auto
next
  case (accept c c' i d rfqId quoteId env cfg fresh now u a idem d0 t d')
  have ok: "market_ok d" using accept(1) assms(2) by simp
  from accept_work_txn [OF accept(7)] show ?thesis
  proof (elim disjE exE conjE)
    fix n x assume "run_txn (accept_txn c' i n) d = (x, d')" "nt_rfq n = rfqId" "nt_quote n = quoteId"
    with accept_txn_step [OF ok accept(4), of n c' x d'] accept(1,2,5,6) show ?thesis by simp
  qed (use ok accept(1,2) in simp)
next
  case (settle c c' d y tx)
  then show ?thesis using persistSettled_step [of d y] assms(2) by simp
next
  case (abandon c c' d y reason disp)
  then show ?thesis using failTrade_step [of d] assms(2) by simp
qed (use assms(2) in simp)

lemma market_run_ok:
  assumes "(market_step B)\<^sup>*\<^sup>* s s'" "market_ok (snd s)"
  shows "market_ok (snd s') \<and> market_forward (snd s) (snd s')"
  using assms
proof (induction rule: rtranclp_induct)
  case (step y z)
  with market_step_ok [OF step.hyps(2)] show ?case by (blast intro: market_forward_trans)
qed simp

definition no_rows :: "mdb \<Rightarrow> bool" where
  "no_rows d \<longleftrightarrow> mk_rfqs d = [] \<and> mk_quotes d = [] \<and> mk_trades d = []"

lemma no_rows_ok: "no_rows d \<Longrightarrow> market_ok d"
  by (simp add: no_rows_def market_ok_def rfqs_ok_def quotes_ok_def trades_ok_def trades_linked_def)

text \<open>
  C22. The secondary market's life cycle. From empty tables, in any interleaving of requests,
  quotes, authorizations, accepts, settlements, abandonments and sweeps: between any two states
  every row is kept and moves along the guard triggers only; an RFQ has at most one pending trade
  and a holder at most one open quote on it; a settled trade's RFQ and quote are not open any more,
  and an RFQ is filled, or a quote accepted, only by a settled trade of it.
\<close>

theorem market_lifecycle:
  assumes "no_rows d0" "(market_step B)\<^sup>*\<^sup>* (c0, d0) (c, d)" "(market_step B)\<^sup>*\<^sup>* (c, d) (c', d')"
  shows "forward rfqs_guard (mk_rfqs d) (mk_rfqs d') \<and> forward quotes_guard (mk_quotes d) (mk_quotes d')
      \<and> forward trades_guard (mk_trades d) (mk_trades d')
    \<and> (\<forall>x \<in> set (mk_trades d'). \<forall>y \<in> set (mk_trades d'). td_status x = TS_pending \<and> td_status y = TS_pending
        \<and> td_rfq x = td_rfq y \<longrightarrow> td_id x = td_id y)
    \<and> (\<forall>p \<in> set (mk_quotes d'). \<forall>q \<in> set (mk_quotes d'). qt_status p = QS_open \<and> qt_status q = QS_open
        \<and> qt_rfq p = qt_rfq q \<and> qt_holder p = qt_holder q \<longrightarrow> qt_id p = qt_id q)
    \<and> (\<forall>x \<in> set (mk_trades d'). td_status x = TS_settled \<longrightarrow>
        (\<forall>r \<in> set (mk_rfqs d'). rq_id r = td_rfq x \<longrightarrow> rq_status r \<noteq> RS_open)
        \<and> (\<forall>q \<in> set (mk_quotes d'). qt_id q = td_quote x \<longrightarrow> qt_status q \<noteq> QS_open))
    \<and> (\<forall>r \<in> set (mk_rfqs d'). rq_status r = RS_filled
        \<longrightarrow> (\<exists>x \<in> set (mk_trades d'). td_rfq x = rq_id r \<and> td_status x = TS_settled))
    \<and> (\<forall>q \<in> set (mk_quotes d'). qt_status q = QS_accepted
        \<longrightarrow> (\<exists>x \<in> set (mk_trades d'). td_quote x = qt_id q \<and> td_status x = TS_settled))"
proof -
  have ok: "market_ok d" using market_run_ok [OF assms(2)] no_rows_ok [OF assms(1)] by simp
  note run = market_run_ok [OF assms(3), unfolded snd_conv, OF ok]
  have q: "quotes_ok (mk_quotes d')" and t: "trades_ok (mk_trades d')"
    and l: "trades_linked (mk_rfqs d') (mk_quotes d') (mk_trades d')"
    using run by (simp_all only: market_ok_def)
  show ?thesis
    using run q [unfolded quotes_ok_def] t [unfolded trades_ok_def] l [unfolded trades_linked_def]
    unfolding market_forward_def by (intro conjI) blast+
qed

section \<open>Balances\<close>

lemma market_step_sums:
  assumes "market_step B s s'" "market_ok (snd s)" "sums_within B (fst s) (mk_quotes (snd s))"
  shows "sums_within B (fst s') (mk_quotes (snd s'))"
proof -
  have rows: "sums_within B c' u" if "list_all2 quotes_guard (mk_quotes (snd s)) u" "fst s \<le> c'" for c' u
    using sums_within_rows [OF assms(3) _ that] assms(2) by (simp add: market_ok_def)
  have same: "sums_within B c' (mk_quotes (snd s))" if "fst s \<le> c'" for c'
    using rows [OF _ that] by (simp add: list.rel_refl)
  show ?thesis using assms(1)
  proof (cases rule: market_step.cases)
    case (request c c' i d env holdings now u dto idem d0 r d')
    have "mk_quotes d' = mk_quotes d" using rfq_work_txn [OF request(5)]
      by (auto elim: rfq_txn_cases)
    then show ?thesis using same request(1-3) by simp
  next
    case (quote c c' i d qdto env balance u d0 now now2 rfqId idem q d')
    from quote(7,5) show ?thesis
    proof (cases rule: quote_work_txn)
      case none
      then show ?thesis using same quote(1-3) by simp
    next
      case (txn onchain n x)
      from txn(1) show ?thesis
      proof (cases rule: quote_txn_cases)
        case fails
        then show ?thesis using same quote(1-3) by simp
      next
        case replay
        have "list_all2 quotes_guard (mk_quotes d) (mk_quotes d')"
          using calm_rows(1) [OF quote_statements(1)] unfolding replay by simp
        then show ?thesis using rows quote(1-3) by simp
      next
        case (inserted t)
        have t: "list_all2 quotes_guard (mk_quotes d) t"
          unfolding inserted(2) by (rule calm_rows(1) [OF quote_statements(1)])
        have "quotes_ok (mk_quotes d)" using assms(2) quote(1) by (simp add: market_ok_def)
        then have tok: "quotes_ok t" using t by (rule quotes_ok_rows)
        have "sums_within B c' t" using rows [of t c'] t quote(1,3) by simp
        moreover have "onchain \<le> B (nq_holder n) (nq_contract n)"
          using quote(6) txn(3,4) by (simp add: reads_within_def)
        moreover have "0 \<le> nq_count n" using txn(2) by (simp add: terms_ok_def)
        ultimately have "sums_within B c' (t @ [quote_row c' i n])"
          using sums_within_quote [of B c' t c' n onchain i] tok inserted(4) by simp
        then show ?thesis using inserted(7) quote(2) by simp
      qed
    qed
  next
    case (authorise c c' env now balance attach u rfqId quoteId a d0 d b d')
    have "list_all2 quotes_guard (mk_quotes d) (mk_quotes d')"
      using authorize_work_txn [OF authorise(4)]
      by (auto elim!: authorize_txn_cases simp: list.rel_refl calm_rows(1) [OF quote_statements(2)])
    then show ?thesis using rows authorise(1-3) by simp
  next
    case (accept c c' i d rfqId quoteId env cfg fresh now u a idem d0 t d')
    have "mk_quotes d' = mk_quotes d" using accept_work_txn [OF accept(7)]
      by (auto elim: accept_txn_cases)
    then show ?thesis using same accept(1-3) by simp
  next
    case (settle c c' d y tx)
    have "list_all2 quotes_guard (mk_quotes d) (map (settled_quote c' y) (mk_quotes d))"
      by (rule rows_map) (simp add: settled_quote_def quotes_guard_def)
    then show ?thesis using rows same settle(1-3) persistSettled_tables [of c' y tx d] by (metis fst_conv snd_conv)
  next
    case (abandon c c' d y reason disp)
    have "list_all2 quotes_guard (mk_quotes d) (mk_quotes (failTrade c' y reason disp d))"
      using failTrade_tables [of c' y reason disp d, OF HOL.refl] calm_rows(1) [OF quote_statements(3)]
      by (auto simp: list.rel_refl)
    then show ?thesis using rows abandon(1-3) by simp
  qed (use same in auto)
qed

lemma market_run_sums:
  assumes "(market_step B)\<^sup>*\<^sup>* s s'" "market_ok (snd s)" "sums_within B (fst s) (mk_quotes (snd s))"
  shows "sums_within B (fst s') (mk_quotes (snd s'))"
  using assms
proof (induction rule: rtranclp_induct)
  case (step y z)
  then show ?case using market_step_sums [OF step.hyps(2)] market_run_ok [OF step.hyps(1)] by blast
qed simp

text \<open>
  C23. Quotes never oversell. If every balance read for a holder and a token answers at most
  \<open>B\<close>, then at every reachable state, for every later instant, the open unexpired quotes of that
  holder on that token, over all RFQs and under any interleaving of submits, add up to at most
  \<open>B\<close>; so do, whichever quote is left out, the quotes the holder has signed.
\<close>

theorem quotes_never_oversell:
  assumes "no_rows d0" "\<forall>h k. 0 \<le> B h k" "(market_step B)\<^sup>*\<^sup>* (c0, d0) (c, d)" "c \<le> now"
  shows "sumOpenLockedCount now holder contract (mk_quotes d) \<le> B holder contract
    \<and> sumAuthorizedLockedCount now holder contract except (mk_quotes d) \<le> B holder contract"
proof -
  have "sums_within B c0 (mk_quotes d0)" using assms(1,2) by (simp add: sums_within_def no_rows_def)
  then have s: "sums_within B c (mk_quotes d)"
    using market_run_sums [OF assms(3)] no_rows_ok [OF assms(1)] by simp
  then have open_sum: "sumOpenLockedCount now holder contract (mk_quotes d) \<le> B holder contract"
    using assms(4) by (simp add: sums_within_def)
  have "quotes_ok (mk_quotes d)" using market_run_ok [OF assms(3)] no_rows_ok [OF assms(1)] by (simp add: market_ok_def)
  from authorized_within [OF quotes_ok_counts [OF this], of now holder contract except] open_sum show ?thesis by linarith
qed

end
