(* ===== verification/Quote_Run.thy ===== *)
theory Quote_Run
  imports Market_Props
begin

text \<open>
  Runs of the settle worker and the stale sweep against the chain. The world is the database, the
  attempts made, whether the contract has settled the pair, and whether a sent transaction may
  still be applied (\<open>moving\<close>). A quiet run is one whose attempts and sweeps begin when nothing is
  in flight.
\<close>

section \<open>A trade under the two terminal writes\<close>

lemma find_trade_map:
  assumes "find_trade i t = Some x" "\<And>y. td_id (f y) = td_id y" "\<And>y. td_deleted (f y) = td_deleted y"
  shows "find_trade i (map f t) = Some (f x)"
  using assms(1) by (induction t) (auto simp: find_trade_def sql_find_def assms(2,3) split: if_splits)

lemma find_trade_SomeD: "find_trade i t = Some x \<Longrightarrow> x \<in> set t \<and> td_id x = i \<and> td_deleted x = None"
  unfolding find_trade_def by (drule sql_find_Some) simp

lemma persistSettled_trade:
  assumes "find_trade i (mk_trades d) = Some t" "td_status t = TS_pending"
  shows "find_trade i (mk_trades (persistSettled now t tx d)) = Some (settled_trade now t tx t)"
    "td_status (settled_trade now t tx t) = TS_settled"
proof -
  have "snd (trade_casSettled now (td_id t) tx (mk_trades d))"
    using find_trade_SomeD [OF assms(1)] assms(2) by (auto simp: trade_casSettled_def snd_cas_rows)
  then have "mk_trades (persistSettled now t tx d) = map (settled_trade now t tx) (mk_trades d)"
    using persistSettled_tables(1) by blast
  then show "find_trade i (mk_trades (persistSettled now t tx d)) = Some (settled_trade now t tx t)"
    using find_trade_map [OF assms(1), of "settled_trade now t tx"] by (simp add: settled_trade_def)
  show "td_status (settled_trade now t tx t) = TS_settled" using assms(2) by (simp add: settled_trade_def)
qed

lemma failTrade_trade:
  assumes "find_trade i (mk_trades d) = Some t" "td_status t = TS_pending"
  shows "\<exists>x. find_trade i (mk_trades (failTrade now t reason disp d)) = Some x \<and> td_status x = TS_failed
     \<and> td_failure x = Some reason"
proof -
  have hit: "snd (trade_casFailed now (td_id t) reason (mk_trades d))"
    using find_trade_SomeD [OF assms(1)] assms(2) by (auto simp: trade_casFailed_def snd_cas_rows)
  then have "mk_trades (failTrade now t reason disp d) = fst (trade_casFailed now (td_id t) reason (mk_trades d))"
    by (cases "trade_casFailed now (td_id t) reason (mk_trades d)") (simp add: failTrade_def Let_def split: prod.splits)
  then show ?thesis
    using find_trade_map [OF assms(1), of "\<lambda>x. if td_id x = td_id t \<and> td_status x = TS_pending
        then x\<lparr>td_status := TS_failed, td_failure := Some reason, td_updated := now\<rparr> else x"] assms(2)
    by (simp add: trade_casFailed_def fst_cas_rows)
qed

section \<open>What one attempt does\<close>

text \<open>The ways a run of the job can leave a pending trade.\<close>

lemma settle_submit_cases:
  assumes "settle_submit now ob t d = (out, d')"
  obtains (kept) "d' = d"
  | (success) h l where "so_outcome ob = Inr (AO_success h l)" "d' = persistSettled now t (Some h) d" "out = JobDone"
  | (adopted) "so_fresh ob = Rpc True" "d' = persistSettled now t None d" "out = JobDone"
  | (failed) outcome reason disp where "so_outcome ob = Inr outcome" "so_fresh ob = Rpc False"
    "classifySettleFailure outcome = Terminal reason disp" "d' = failTrade now t reason disp d" "out = JobUnrecoverable"
proof (cases "so_outcome ob")
  case (Inr x)
  show thesis
  proof (cases "\<exists>h l. x = AO_success h l")
    case True
    then show thesis using assms Inr success kept by (auto simp: settle_submit_def adopt_def split: if_splits)
  next
    case False
    then have s: "settle_submit now ob t d = (case so_fresh ob of
         RpcError \<Rightarrow> (JobRetry, d)
       | Rpc True \<Rightarrow> adopt now ob t None d
       | Rpc False \<Rightarrow> (case classifySettleFailure x of
           Retry \<Rightarrow> (JobRetry, d)
         | Terminal reason disp \<Rightarrow> terminalFail now (so_db ob) t reason disp d))"
      using Inr by (cases x) (auto simp: settle_submit_def split: rpc.split bool.split)
    show thesis
    proof (cases "so_fresh ob")
      case (Rpc v)
      show thesis
      proof (cases v)
        case True
        then show thesis using assms s Rpc adopted kept by (auto simp: adopt_def split: if_splits)
      next
        case False
        then show thesis using assms s Rpc Inr failed kept
          by (cases "classifySettleFailure x") (auto simp: terminalFail_def split: if_splits)
      qed
    qed (use assms s kept in simp)
  qed
qed (use assms kept in \<open>simp add: settle_submit_def\<close>)

lemma quote_settle_cases:
  assumes "quote_settle_process made now ob j d = (out, d')" "find_trade (qj_trade j) (mk_trades d) = Some t"
    "td_status t = TS_pending"
  obtains (kept) "d' = d"
  | (healed) "made > 0" "so_first ob = Rpc True" "d' = persistSettled now t None d"
  | (short) usdc where "made > 0 \<longrightarrow> so_first ob = Rpc False" "so_usdc ob = Rpc (Some usdc)"
    "usdc < aq_gross (qj_args j)" "so_db_pre ob" "d' = failTrade now t ''buyer_usdc_insufficient'' KeepOpen d"
  | (submitted) "made > 0 \<longrightarrow> so_first ob = Rpc False" "settle_submit now ob t d = (out, d')"
    "\<not> (\<exists>usdc. so_usdc ob = Rpc (Some usdc) \<and> usdc < aq_gross (qj_args j) \<and> so_db_pre ob)"
proof -
  consider "made > 0" "so_first ob = RpcError" | "made > 0" "so_first ob = Rpc True"
    | "made > 0 \<longrightarrow> so_first ob = Rpc False"
    by (cases "so_first ob") auto
  then show thesis
  proof cases
    case 3
    then have s: "quote_settle_process made now ob j d = (case so_usdc ob of
         Rpc (Some usdc) \<Rightarrow> if usdc < aq_gross (qj_args j) \<and> so_db_pre ob
           then terminalFail now True t ''buyer_usdc_insufficient'' KeepOpen d else settle_submit now ob t d
       | _ \<Rightarrow> settle_submit now ob t d)"
      using assms(2,3) by (auto simp: quote_settle_process_def)
    show thesis
    proof (cases "\<exists>usdc. so_usdc ob = Rpc (Some usdc) \<and> usdc < aq_gross (qj_args j) \<and> so_db_pre ob")
      case True
      then show thesis using assms(1) s 3 short by (auto simp: terminalFail_def)
    next
      case False
      then have "quote_settle_process made now ob j d = settle_submit now ob t d"
        unfolding s by (auto split: rpc.splits option.splits)
      then show thesis using assms(1) 3 submitted False by simp
    qed
  qed (use assms kept healed in \<open>auto simp: quote_settle_process_def adopt_def split: if_splits\<close>)
qed

lemma quote_settle_ended:
  assumes "find_trade (qj_trade j) (mk_trades d) = Some t" "td_status t \<noteq> TS_pending"
  shows "snd (quote_settle_process made now ob j d) = d"
  using assms by (simp add: quote_settle_process_def)

section \<open>The relayer's outcomes\<close>

text \<open>
  \<open>landed\<close>: the pair is settled already. The network keeps the contract of theory \<open>Relayer\<close>: a
  settled pair does not simulate; a transaction that was not sent, or whose send was refused, or
  which is found failed, is not applied; one found successful is.
\<close>

definition honest_accept :: "relayer_config \<Rightarrow> bool \<Rightarrow> accept_attempt \<Rightarrow> bool" where
  "honest_accept cfg landed a \<longleftrightarrow>
     (case aa_verify a of Inl e \<Rightarrow> e \<in> {RelayerTransferError Signature_required, RelayerTransferError Signature_invalid}
        | Inr _ \<Rightarrow> True)
     \<and> (\<not> landed \<or> (case aa_sim a of Rpc (Accept_fee _) \<Rightarrow> False | _ \<Rightarrow> True))
     \<and> (\<not> at_lands (aa_base a) \<or> accept_before_send cfg a = Inr None \<and> at_lock (aa_base a)
           \<and> (case at_send (aa_base a) of Rpc Send_try_again_later \<Rightarrow> False | Rpc (Send_error _) \<Rightarrow> False | _ \<Rightarrow> True))
     \<and> (\<forall>n. case at_get (aa_base a) n of
            Rpc (Tx_success _ _) \<Rightarrow> at_lands (aa_base a)
          | Rpc Tx_failed \<Rightarrow> \<not> at_lands (aa_base a)
          | _ \<Rightarrow> True)"

text \<open>Every typed outcome but \<open>unavailable\<close> decides whether this attempt is applied.\<close>

definition decides :: "relayer_throw + accept_outcome \<Rightarrow> bool \<Rightarrow> bool" where
  "decides r lands \<longleftrightarrow> (case r of
      Inl _ \<Rightarrow> True
    | Inr (AO_success _ _) \<Rightarrow> lands
    | Inr (AO_reverted _) \<Rightarrow> \<not> lands
    | Inr (AO_failed reason _) \<Rightarrow> reason = Unavailable \<or> \<not> lands)"

lemma catch_typed_decides:
  assumes "e \<in> {UntypedError, RelayerTransferError Unavailable} \<or> \<not> lands"
  shows "decides (catch_typed (Inl e)) lands"
  using assms by (cases e) (auto simp: decides_def)

lemma accept_early: "accept_before_send cfg a = Inr (Some r) \<Longrightarrow> \<not> (\<exists>h l. r = AO_success h l)"
  by (cases "aa_sim a"; cases "\<exists>fee. aa_sim a = Rpc (Accept_fee fee)")
    (auto simp: accept_before_send_def err_simps Let_def split: if_splits accept_sim.splits option.splits)

lemma submitSignedAcceptQuote_sound:
  assumes "honest_accept cfg landed a" "submitSignedAcceptQuote cfg a = Some r"
  shows "decides r (at_lands (aa_base a))"
proof (cases "accept_before_send cfg a")
  case (Inl e)
  then have "\<not> at_lands (aa_base a)" using assms(1) by (simp add: honest_accept_def)
  then show ?thesis using assms(2) Inl catch_typed_decides by (auto simp: submitSignedAcceptQuote_def)
next
  case (Inr q)
  show ?thesis
  proof (cases q)
    case (Some x)
    then have "\<not> at_lands (aa_base a)" using assms(1) Inr by (simp add: honest_accept_def)
    then show ?thesis using assms(2) Inr Some accept_early [of cfg a x]
      by (cases x) (auto simp: submitSignedAcceptQuote_def decides_def)
  next
    case None
    show ?thesis
    proof (cases "accept_send a")
      case (Inl e)
      then have "e \<in> {UntypedError, RelayerTransferError Unavailable} \<or> \<not> at_lands (aa_base a)"
        using assms(1) by (cases "at_send (aa_base a)")
          (auto simp: accept_send_def honest_accept_def bindE_Inl guardE_def elim!: classify_send.elims split: if_splits)
      then have "decides (catch_typed (Inl e)) (at_lands (aa_base a))" by (rule catch_typed_decides)
      then show ?thesis using assms(2) Inr None Inl by (simp add: submitSignedAcceptQuote_def)
    next
      case (Inr h)
      then obtain p where p: "poll_from (aa_base a) (at_start (aa_base a) + rc_submit_timeout cfg) cancel_final 0 = Some p"
        "r = catch_typed (bindE p (\<lambda>ledger. Inr (AO_success h ledger)))"
        using assms(2) None \<open>accept_before_send cfg a = Inr q\<close>
        by (auto simp: submitSignedAcceptQuote_def split: option.splits)
      from poll_from_result [OF p(1)] show ?thesis
      proof (elim disjE exE conjE)
        assume "p \<in> {Inl UntypedError, Inl (RelayerTransferError Unavailable)}"
        then show ?thesis using p(2) by (auto simp: decides_def)
      next
        fix m s assume s: "at_get (aa_base a) m = Rpc s" "s \<noteq> Tx_not_found" "p = cancel_final s"
        have "case s of Tx_success _ _ \<Rightarrow> at_lands (aa_base a) | Tx_failed \<Rightarrow> \<not> at_lands (aa_base a) | _ \<Rightarrow> True"
          using assms(1) s(1) unfolding honest_accept_def by (auto dest!: spec [of _ m] split: tx_status.splits)
        then show ?thesis using s(2,3) p(2) by (cases s) (simp_all add: cancel_final_def decides_def)
      qed
    qed
  qed
qed

lemma submitSignedAcceptQuote_returns: "clock_ticks (aa_base a) \<Longrightarrow> \<exists>r. submitSignedAcceptQuote cfg a = Some r"
  using poll_from_ends [of "aa_base a" "at_start (aa_base a) + rc_submit_timeout cfg" cancel_final 0]
  by (auto simp: submitSignedAcceptQuote_def clock_ticks_def split: sum.splits option.splits)

section \<open>The world\<close>

record quote_world =
  qw_db :: mdb
  qw_made :: nat
  qw_settled :: bool
  qw_moving :: bool

text \<open>The trade of the job, and whether an attempt reaches the submission.\<close>

definition qw_trade :: "quote_settle_job \<Rightarrow> quote_world \<Rightarrow> trade option" where
  "qw_trade j w = find_trade (qj_trade j) (mk_trades (qw_db w))"

definition submits :: "quote_settle_job \<Rightarrow> quote_world \<Rightarrow> settle_obs \<Rightarrow> bool" where
  "submits j w ob \<longleftrightarrow> (case qw_trade j w of None \<Rightarrow> False | Some t \<Rightarrow> td_status t = TS_pending)
     \<and> (qw_made w > 0 \<longrightarrow> so_first ob = Rpc False)
     \<and> \<not> (case so_usdc ob of Rpc (Some usdc) \<Rightarrow> usdc < aq_gross (qj_args j) \<and> so_db_pre ob | _ \<Rightarrow> False)"

text \<open>
  What an attempt sees when the pair is settled (\<open>s\<close>) and something is in flight (\<open>mv\<close>) after it:
  the reads are values between, a success is applied, and nothing changes but by a transaction
  that was in flight or that it sent.
\<close>

definition honest_obs :: "relayer_config \<Rightarrow> accept_attempt \<Rightarrow> quote_settle_job \<Rightarrow> quote_world \<Rightarrow> bool \<Rightarrow> bool \<Rightarrow> settle_obs \<Rightarrow> bool" where
  "honest_obs cfg a j w s mv ob \<longleftrightarrow>
     (let sent = submits j w ob \<and> at_lands (aa_base a) in
     (qw_settled w \<longrightarrow> s)
     \<and> (case so_first ob of Rpc v \<Rightarrow> (qw_settled w \<longrightarrow> v) \<and> (v \<longrightarrow> s) | RpcError \<Rightarrow> True)
     \<and> (case so_fresh ob of Rpc v \<Rightarrow> (qw_settled w \<longrightarrow> v) \<and> (v \<longrightarrow> s) | RpcError \<Rightarrow> True)
     \<and> honest_accept cfg (qw_settled w) a \<and> submitSignedAcceptQuote cfg a = Some (so_outcome ob)
     \<and> (submits j w ob \<longrightarrow> (case so_outcome ob of Inr (AO_success _ _) \<Rightarrow> s | _ \<Rightarrow> True))
     \<and> (s \<longrightarrow> qw_settled w \<or> qw_moving w \<or> sent) \<and> (mv \<longrightarrow> qw_moving w \<or> sent))"

inductive quote_step :: "bool \<Rightarrow> relayer_config \<Rightarrow> settle_cfg \<Rightarrow> quote_settle_job \<Rightarrow> quote_world \<Rightarrow> quote_world \<Rightarrow> bool"
  for quiet cfg mcfg j where
  land: "qw_moving w \<Longrightarrow> quote_step quiet cfg mcfg j w (w\<lparr>qw_settled := True, qw_moving := False\<rparr>)"
| drop: "quote_step quiet cfg mcfg j w (w\<lparr>qw_moving := False\<rparr>)"
| others: "find_trade (qj_trade j) (mk_trades d') = find_trade (qj_trade j) (mk_trades (qw_db w))
    \<Longrightarrow> quote_step quiet cfg mcfg j w (w\<lparr>qw_db := d'\<rparr>)"
| attempt: "(quiet \<Longrightarrow> \<not> qw_moving w) \<Longrightarrow> honest_obs cfg a j w s mv ob
    \<Longrightarrow> quote_settle_process (qw_made w) now ob j (qw_db w) = (out, d')
    \<Longrightarrow> quote_step quiet cfg mcfg j w \<lparr>qw_db = d', qw_made = Suc (qw_made w), qw_settled = s, qw_moving = mv\<rparr>"
| sweep: "(quiet \<Longrightarrow> \<not> qw_moving w) \<Longrightarrow> read \<in> {RpcError, Rpc (qw_settled w)}
    \<Longrightarrow> find_trade (qj_trade j) (mk_trades (qw_db w)) = Some t \<Longrightarrow> td_status t = TS_pending
    \<Longrightarrow> quote_step quiet cfg mcfg j w (w\<lparr>qw_db := reconcile_trade mcfg now (\<lambda>_. read) (\<lambda>_. ok) t (qw_db w)\<rparr>)"

section \<open>What a run keeps\<close>

definition qw_inv :: "bool \<Rightarrow> quote_settle_job \<Rightarrow> quote_world \<Rightarrow> bool" where
  "qw_inv quiet j w \<longleftrightarrow> (\<exists>t. qw_trade j w = Some t
     \<and> (td_status t = TS_settled \<longrightarrow> qw_settled w)
     \<and> (quiet \<and> td_status t = TS_failed \<longrightarrow> \<not> qw_settled w \<and> \<not> qw_moving w))
     \<and> (qw_made w = 0 \<longrightarrow> \<not> qw_settled w \<and> \<not> qw_moving w)"

lemma terminal_decided: "classifySettleFailure r = Terminal reason disp \<Longrightarrow> decides (Inr r) lands
    \<Longrightarrow> (\<forall>h l. r \<noteq> AO_success h l) \<Longrightarrow> \<not> lands"
  by (cases r) (auto simp: classifySettleFailure_def decides_def split: if_splits transfer_reason.splits)

lemma terminal_no_success: "classifySettleFailure r = Terminal reason disp \<Longrightarrow> r \<noteq> AO_success h l"
  by (auto simp: classifySettleFailure_def)

lemma quote_attempt_inv:
  assumes "qw_inv quiet j w" "quiet \<Longrightarrow> \<not> qw_moving w" "honest_obs cfg a j w s mv ob"
    "quote_settle_process (qw_made w) now ob j (qw_db w) = (out, d')"
  shows "qw_inv quiet j \<lparr>qw_db = d', qw_made = Suc (qw_made w), qw_settled = s, qw_moving = mv\<rparr>"
proof -
  obtain t where t: "find_trade (qj_trade j) (mk_trades (qw_db w)) = Some t"
    "td_status t = TS_settled \<longrightarrow> qw_settled w" "quiet \<and> td_status t = TS_failed \<longrightarrow> \<not> qw_settled w \<and> \<not> qw_moving w"
    "qw_made w = 0 \<longrightarrow> \<not> qw_settled w" using assms(1) by (auto simp: qw_inv_def qw_trade_def)
  define sent where "sent \<longleftrightarrow> submits j w ob \<and> at_lands (aa_base a)"
  have H: "qw_settled w \<longrightarrow> s" "so_first ob = Rpc v \<Longrightarrow> (qw_settled w \<longrightarrow> v) \<and> (v \<longrightarrow> s)"
    "so_fresh ob = Rpc v \<Longrightarrow> (qw_settled w \<longrightarrow> v) \<and> (v \<longrightarrow> s)"
    "s \<longrightarrow> qw_settled w \<or> qw_moving w \<or> sent" "mv \<longrightarrow> qw_moving w \<or> sent"
    "submits j w ob \<Longrightarrow> so_outcome ob = Inr (AO_success h l) \<Longrightarrow> s"
    "decides (so_outcome ob) (at_lands (aa_base a))" for v h l
    using assms(3) submitSignedAcceptQuote_sound by (auto simp: honest_obs_def Let_def sent_def split: rpc.splits)
  have keep: ?thesis if "find_trade (qj_trade j) (mk_trades d') = Some x"
    "td_status x = TS_settled \<Longrightarrow> s" "quiet \<Longrightarrow> td_status x = TS_failed \<Longrightarrow> \<not> s \<and> \<not> mv" for x
    using that by (auto simp: qw_inv_def qw_trade_def)
  show ?thesis
  proof (cases "td_status t = TS_pending")
    case False
    then have "d' = qw_db w" using quote_settle_ended [OF t(1)] assms(4) by (metis snd_conv)
    moreover have "\<not> sent" using False t(1) by (simp add: sent_def submits_def qw_trade_def)
    ultimately show ?thesis by (intro keep [of t]) (use t H in auto)
  next
    case True
    show ?thesis using assms(4) t(1) True
    proof (cases rule: quote_settle_cases)
      case kept
      with t True show ?thesis by (intro keep [of t]) auto
    next
      case healed
      note P = persistSettled_trade [OF t(1) True, of now None]
      show ?thesis by (rule keep [OF P(1) [folded healed(3)]]) (use H(2) [OF healed(2)] P(2) in auto)
    next
      case (short usdc)
      from failTrade_trade [OF t(1) True] short(5) obtain x where x: "find_trade (qj_trade j) (mk_trades d') = Some x"
        "td_status x = TS_failed" by metis
      have "\<not> qw_settled w" using short(1) t(4) H(2) [of False] by (cases "qw_made w") auto
      moreover have "\<not> sent" using short(2-4) by (simp add: sent_def submits_def)
      ultimately show ?thesis by (intro keep [OF x(1)]) (use x(2) assms(2) H(4,5) in auto)
    next
      case submitted
      have sub: "submits j w ob"
        using submitted(1,3) t(1) True by (auto simp: submits_def qw_trade_def split: rpc.splits option.splits)
      have nt: "d' = qw_db w \<Longrightarrow> ?thesis" using t True by (intro keep [of t]) auto
      from submitted(2) show ?thesis
      proof (cases rule: settle_submit_cases)
        case (success h l)
        note P = persistSettled_trade [OF t(1) True, of now "Some h"]
        show ?thesis by (rule keep [OF P(1) [folded success(2)]]) (use H(6) [OF sub success(1)] P(2) in auto)
      next
        case adopted
        note P = persistSettled_trade [OF t(1) True, of now None]
        show ?thesis by (rule keep [OF P(1) [folded adopted(2)]]) (use H(3) [OF adopted(1)] P(2) in auto)
      next
        case (failed outcome reason disp)
        from failTrade_trade [OF t(1) True] failed(4) obtain x where x: "find_trade (qj_trade j) (mk_trades d') = Some x"
          "td_status x = TS_failed" by metis
        have "\<not> at_lands (aa_base a)"
          using terminal_decided [OF failed(3)] terminal_no_success [OF failed(3)] H(7) failed(1) by metis
        moreover have "\<not> qw_settled w" using H(3) [OF failed(2)] by simp
        ultimately show ?thesis by (intro keep [OF x(1)]) (use x(2) assms(2) H(4,5) in \<open>auto simp: sent_def\<close>)
      qed (rule nt)
    qed
  qed
qed

lemma reconcile_trade_cases:
  "reconcile_trade mcfg now rd ok t d = d
   \<or> rd t = Rpc True \<and> reconcile_trade mcfg now rd ok t d = persistSettled now t None d
   \<or> rd t = Rpc False \<and> reconcile_trade mcfg now rd ok t d = failTrade now t ''settle_abandoned'' KeepOpen d"
  by (simp add: reconcile_trade_def split: rpc.split bool.split)

lemma quote_sweep_inv:
  assumes "qw_inv quiet j w" "quiet \<Longrightarrow> \<not> qw_moving w" "read \<in> {RpcError, Rpc (qw_settled w)}"
    "qw_trade j w = Some t" "td_status t = TS_pending"
  shows "qw_inv quiet j (w\<lparr>qw_db := reconcile_trade mcfg now (\<lambda>_. read) (\<lambda>_. ok) t (qw_db w)\<rparr>)"
proof -
  let ?d = "reconcile_trade mcfg now (\<lambda>_. read) (\<lambda>_. ok) t (qw_db w)"
  have t: "find_trade (qj_trade j) (mk_trades (qw_db w)) = Some t" using assms(4) by (simp add: qw_trade_def)
  have keep: ?thesis if "find_trade (qj_trade j) (mk_trades ?d) = Some x"
    "td_status x = TS_settled \<Longrightarrow> qw_settled w" "quiet \<Longrightarrow> td_status x = TS_failed \<Longrightarrow> \<not> qw_settled w \<and> \<not> qw_moving w" for x
    using that assms(1) by (auto simp: qw_inv_def qw_trade_def)
  consider "?d = qw_db w" | "read = Rpc True" "?d = persistSettled now t None (qw_db w)"
    | "read = Rpc False" "?d = failTrade now t ''settle_abandoned'' KeepOpen (qw_db w)"
    using reconcile_trade_cases [of mcfg now "\<lambda>_. read" "\<lambda>_. ok" t "qw_db w"] by blast
  then show ?thesis
  proof cases
    case 1
    then show ?thesis using t assms(5) by (intro keep [of t]) auto
  next
    case 2
    note P = persistSettled_trade [OF t assms(5), of now None]
    show ?thesis by (rule keep [OF P(1) [folded 2(2)]]) (use 2(1) assms(3) P(2) in auto)
  next
    case 3
    from failTrade_trade [OF t assms(5)] 3(2) obtain x where "find_trade (qj_trade j) (mk_trades ?d) = Some x"
      "td_status x = TS_failed" by metis
    then show ?thesis by (intro keep [of x]) (use 3(1) assms(2,3) in auto)
  qed
qed

lemma quote_step_inv: "quote_step quiet cfg mcfg j w w' \<Longrightarrow> qw_inv quiet j w \<Longrightarrow> qw_inv quiet j w'"
proof (induction rule: quote_step.induct)
  case (land w)
  then show ?case by (auto simp: qw_inv_def qw_trade_def)
next
  case (drop w)
  then show ?case by (auto simp: qw_inv_def qw_trade_def)
next
  case (others d' w)
  then show ?case by (auto simp: qw_inv_def qw_trade_def)
next
  case (attempt w a s mv ob now out d')
  then show ?case using quote_attempt_inv by blast
next
  case (sweep w read t now ok)
  then show ?case using quote_sweep_inv [of quiet j w read t] by (simp add: qw_trade_def)
qed


end
