(* ===== verification/Market_Main.thy ===== *)
theory Market_Main
  imports Quote_Run
begin

text \<open>
  Two schedules on which the secondary market goes wrong, and concrete instances of its
  properties: a sample market with one buyer and two sellers, run from empty tables.
\<close>

section \<open>A paid trade marked failed\<close>

definition refused_attempt :: accept_attempt where
  "refused_attempt = \<lparr>aa_parses = False, aa_account = RpcError, aa_verify = Inl (RelayerTransferError Signature_invalid),
     aa_sim = RpcError, aa_base = \<lparr>at_verify = Inl UntypedError, at_latest = RpcError, at_sim = RpcError, at_lock = False,
       at_send = RpcError, at_start = 0, at_clock = (\<lambda>_. 0), at_get = (\<lambda>_. Rpc Tx_not_found), at_lands = False\<rparr>\<rparr>"

definition late_short_obs :: settle_obs where
  "late_short_obs = \<lparr>so_first = Rpc False, so_usdc = Rpc (Some 0), so_outcome = Inr (AO_failed Signature_invalid False),
     so_fresh = RpcError, so_db_pre = True, so_db = True\<rparr>"

lemma refused_attempt_run:
  "honest_accept cfg landed refused_attempt"
  "submitSignedAcceptQuote cfg refused_attempt = Some (Inr (AO_failed Signature_invalid False))"
  by (simp_all add: honest_accept_def refused_attempt_def submitSignedAcceptQuote_def accept_before_send_def guardE_def)

text \<open>
  C25. The pre-check can fail a paid trade. On any retry of a pending trade whose earlier
  transaction is still in flight there is a honest schedule, the landing of that transaction
  between the \<open>is_settled\<close> read and the read of the buyer's balance, after which the contract has
  settled the pair and the trade is marked failed, while its RFQ and every quote are as before, so
  that the buyer can accept and pay once more.
\<close>

theorem quote_settle_false_failure:
  assumes "qw_trade j w = Some t" "td_status t = TS_pending" "0 < qw_made w" "\<not> qw_settled w" "qw_moving w"
    "0 < aq_gross (qj_args j)"
  shows "\<exists>w' x. quote_step False cfg mcfg j w w' \<and> qw_settled w'
     \<and> qw_trade j w' = Some x \<and> td_status x = TS_failed
     \<and> mk_rfqs (qw_db w') = mk_rfqs (qw_db w) \<and> mk_quotes (qw_db w') = mk_quotes (qw_db w)"
proof -
  let ?d = "failTrade 0 t ''buyer_usdc_insufficient'' KeepOpen (qw_db w)"
  let ?w = "\<lparr>qw_db = ?d, qw_made = Suc (qw_made w), qw_settled = True, qw_moving = False\<rparr>"
  have t: "find_trade (qj_trade j) (mk_trades (qw_db w)) = Some t" using assms(1) by (simp add: qw_trade_def)
  have obs: "honest_obs cfg refused_attempt j w True False late_short_obs"
    using assms(4,5,6) refused_attempt_run
    by (simp add: honest_obs_def late_short_obs_def submits_def refused_attempt_def Let_def)
  have "quote_settle_process (qw_made w) 0 late_short_obs j (qw_db w) = (JobUnrecoverable, ?d)"
    using t assms(2,3,6) by (simp add: quote_settle_process_def late_short_obs_def terminalFail_def)
  then have "quote_step False cfg mcfg j w ?w" using obs by (intro quote_step.attempt) simp_all
  moreover obtain x where "find_trade (qj_trade j) (mk_trades ?d) = Some x" "td_status x = TS_failed"
    using failTrade_trade [OF t assms(2)] by metis
  moreover have "mk_rfqs ?d = mk_rfqs (qw_db w)" "mk_quotes ?d = mk_quotes (qw_db w)"
    by (auto simp: failTrade_def split: prod.splits bool.splits)
  ultimately show ?thesis by (intro exI [of _ ?w] exI [of _ x]) (simp add: qw_trade_def)
qed

section \<open>A sample market\<close>

definition market_env :: bid_env where
  "market_env = \<lparr>be_identity = \<lparr>idn_users = [(''b'', K_whitelisted), (''s1'', K_whitelisted), (''s2'', K_whitelisted)],
       idn_wallets = map (\<lambda>(i, u, c). \<lparr>wl_id = i, wl_user = u, wl_embedded = True, wl_contract = Some c, wl_created = 0,
          wl_deleted = None\<rparr>) [(''w0'', ''b'', ''CB''), (''w1'', ''s1'', ''CS1''), (''w2'', ''s2'', ''CS2'')],
       idn_credentials = map (\<lambda>w. \<lparr>cr_credential = ''c'' @ w, cr_wallet = w, cr_transports = None, cr_key = ''k'',
          cr_deleted = None\<rparr>) [''w0'', ''w1'', ''w2'']\<rparr>,
     be_decode = Some, be_sha = (\<lambda>s. s), be_usdc = ''USDC'', be_max_bids = 10, be_max_cost = ''1000'', be_rp = ''rp'',
     be_origins = [''o'']\<rparr>"

definition market_cfg :: settle_cfg where
  "market_cfg = \<lparr>ms_settler = ''SETTLER'', ms_usdc = ''USDC'', ms_sig_ledgers = 120, ms_grace = 180000, ms_batch = 100\<rparr>"

definition ten_fractions :: "ident \<Rightarrow> ident \<Rightarrow> string option option" where
  "ten_fractions token wallet = Some (Some ''10'')"

definition any_assertion :: assertion where
  "any_assertion = \<lparr>as_xdr = ''x'', as_authenticator = ''a'', as_client_data = ''d'', as_signature = ''s''\<rparr>"

definition mk0 :: mdb where
  "mk0 = \<lparr>mk_rfqs = [], mk_quotes = [], mk_trades = [], mk_contracts = [\<lparr>fc_id = ''f'', fc_artwork = ''art'',
     fc_status = FC_deployed, fc_token = Some ''T'', fc_artist_address = ''A'', fc_supply = 100, fc_artist_retention = None,
     fc_treasury_retention = None, fc_deleted = None\<rparr>], mk_artworks = [''art''], mk_audit = []\<rparr>"

definition r1 :: "rfq_status \<Rightarrow> instant \<Rightarrow> rfq" where
  "r1 st u = \<lparr>rq_id = ''r'', rq_collector = ''b'', rq_artwork = ''art'', rq_contract = ''f'', rq_count = 5, rq_max_price = 20,
     rq_expires = 172800000, rq_status = st, rq_idem = ''k'', rq_fanned = None, rq_created = 0, rq_updated = u, rq_deleted = None\<rparr>"

text \<open>The quote of the n-th seller, authorized at \<open>a\<close> if at all.\<close>

definition qn :: "ident \<Rightarrow> ident \<Rightarrow> ident \<Rightarrow> instant \<Rightarrow> quote_status \<Rightarrow> instant option \<Rightarrow> instant \<Rightarrow> rfq_quote" where
  "qn i h w c st a u = \<lparr>qt_id = i, qt_rfq = ''r'', qt_holder = h, qt_contract = ''f'', qt_count = 5, qt_price = 10,
     qt_valid_until = 1000000, qt_status = st, qt_reason = None, qt_auth = map_option (\<lambda>_. ''e'') a,
     qt_auth_ledger = map_option (\<lambda>_. 1000) a, qt_wallet = map_option (\<lambda>_. w) a, qt_authorized_at = a, qt_idem = ''k'',
     qt_created = c, qt_updated = u, qt_deleted = None\<rparr>"

definition tn :: "ident \<Rightarrow> ident \<Rightarrow> ident \<Rightarrow> string \<Rightarrow> instant \<Rightarrow> (ident \<times> instant) option \<Rightarrow> trade" where
  "tn i q s k c e = \<lparr>td_id = i, td_rfq = ''r'', td_quote = q, td_buyer = ''b'', td_seller = s, td_contract = ''f'', td_count = 5,
     td_price = 10, td_status = (if e = None then TS_pending else TS_settled), td_failure = None,
     td_tx = map_option fst e, td_settled_at = map_option snd e, td_idem = k, td_created = c,
     td_updated = (case e of None \<Rightarrow> c | Some (h, u) \<Rightarrow> u), td_deleted = None\<rparr>"

definition entry :: "string \<Rightarrow> string \<Rightarrow> ident \<Rightarrow> audit_entry" where
  "entry k a i = \<lparr>ae_kind = k, ae_actor = if a = [] then None else Some a, ae_subject = i\<rparr>"

abbreviation q1_open where "q1_open a u \<equiv> qn ''q1'' ''s1'' ''CS1'' 1 QS_open a u"

abbreviation q2_open where "q2_open a u \<equiv> qn ''q2'' ''s2'' ''CS2'' 2 QS_open a u"

definition mk1 :: mdb where
  "mk1 = mk0\<lparr>mk_rfqs := [r1 RS_open 0], mk_audit := [entry ''rfq.created'' ''b'' ''r'']\<rparr>"

definition mk2 :: mdb where
  "mk2 = mk1\<lparr>mk_quotes := [q1_open None 1], mk_audit := mk_audit mk1 @ [entry ''quote.submitted'' ''s1'' ''q1'']\<rparr>"

definition mk3 :: mdb where
  "mk3 = mk2\<lparr>mk_quotes := [q1_open None 1, q2_open None 2],
     mk_audit := mk_audit mk2 @ [entry ''quote.submitted'' ''s2'' ''q2'']\<rparr>"

definition mk4 :: mdb where
  "mk4 = mk3\<lparr>mk_quotes := [q1_open (Some 3) 3, q2_open None 2],
     mk_audit := mk_audit mk3 @ [entry ''quote.authorized'' ''s1'' ''q1'']\<rparr>"

definition mk5 :: mdb where
  "mk5 = mk4\<lparr>mk_quotes := [q1_open (Some 3) 3, q2_open (Some 4) 4],
     mk_audit := mk_audit mk4 @ [entry ''quote.authorized'' ''s2'' ''q2'']\<rparr>"

definition mk6 :: mdb where
  "mk6 = mk5\<lparr>mk_trades := [tn ''t1'' ''q1'' ''s1'' ''k1'' 5 None]\<rparr>"

definition mk7 :: mdb where
  "mk7 = mk6\<lparr>mk_trades := [tn ''t1'' ''q1'' ''s1'' ''k1'' 5 (Some (''h1'', 6))], mk_rfqs := [r1 RS_filled 6],
     mk_quotes := [qn ''q1'' ''s1'' ''CS1'' 1 QS_accepted (Some 3) 6, qn ''q2'' ''s2'' ''CS2'' 2 QS_superseded (Some 4) 6],
     mk_audit := mk_audit mk6 @ [entry ''trade.settled'' [] ''t1'', entry ''quote.accepted'' [] ''q1'',
       entry ''quote.superseded'' [] ''q1'']\<rparr>"

definition mk8 :: mdb where
  "mk8 = mk7\<lparr>mk_trades := mk_trades mk7 @ [tn ''t2'' ''q2'' ''s2'' ''k2'' 7 None]\<rparr>"

definition mk9 :: mdb where
  "mk9 = mk8\<lparr>mk_trades := mk_trades mk7 @ [tn ''t2'' ''q2'' ''s2'' ''k2'' 7 (Some (''h2'', 8))],
     mk_audit := mk_audit mk8 @ [entry ''trade.settled'' [] ''t2'']\<rparr>"

definition ask :: create_quote_dto where
  "ask = \<lparr>cq_price = ''10'', cq_count = 5, cq_valid_until = 1000000\<rparr>"

definition signed :: "accept_args \<Rightarrow> string \<Rightarrow> credential_row \<Rightarrow> assertion \<Rightarrow> relayer_throw + string \<times> int" where
  "signed args key cred a = Inr (''e'', 1000)"

text \<open>The steps; the second accept read the market before the first trade was settled.\<close>

lemma sample_requests:
  "snd (rfq_work market_env (\<lambda>_. None) 0 0 ''r'' ''b'' \<lparr>cr_artwork_id = ''art'', cr_fractions = 5,
     cr_max_price = ''20'', cr_hours = None\<rparr> ''k'' mk0 mk0) = mk1"
  "snd (quote_work market_env ten_fractions 1 1 1 ''q1'' ''s1'' ''r'' ask ''k'' mk1 mk1) = mk2"
  "snd (quote_work market_env ten_fractions 2 2 2 ''q2'' ''s2'' ''r'' ask ''k'' mk2 mk2) = mk3"
  "snd (authorize_work market_env 3 3 ten_fractions signed ''s1'' ''r'' ''q1'' any_assertion mk3 mk3) = mk4"
  "snd (authorize_work market_env 4 4 ten_fractions signed ''s2'' ''r'' ''q2'' any_assertion mk4 mk4) = mk5"
  by code_simp+

lemma sample_accepts:
  "snd (accept_work market_env market_cfg (\<lambda>_. Inr ()) 5 5 ''t1'' ''b'' ''r'' ''q1'' any_assertion ''k1'' mk5 mk5) = mk6"
  "snd (accept_work market_env market_cfg (\<lambda>_. Inr ()) 5 7 ''t2'' ''b'' ''r'' ''q2'' any_assertion ''k2'' mk6 mk7) = mk8"
  by code_simp+

lemma sample_settles:
  "persistSettled 6 (tn ''t1'' ''q1'' ''s1'' ''k1'' 5 None) (Some ''h1'') mk6 = mk7"
  "persistSettled 8 (tn ''t2'' ''q2'' ''s2'' ''k2'' 7 None) (Some ''h2'') mk8 = mk9"
  by code_simp+


section \<open>The sample run\<close>

lemma ten_read: "read_fraction_balance ten_fractions t a = Inr 10"
proof -
  have "parseBalance (Some ''10'') = Some 10" by code_simp
  then show ?thesis by (simp add: read_fraction_balance_def ten_fractions_def)
qed

lemma sample_reads: "reads_within (\<lambda>_ _. 10) market_env ten_fractions u d"
  by (auto simp: reads_within_def resolveContractAndReadBalance_def ten_read
      split: option.splits if_splits contract_status.splits)

lemma ask_ok: "create_quote_dto_ok ask"
  by code_simp

lemma sample_fresh:
  "''r'' \<notin> rq_id ` set (mk_rfqs mk0)" "''q1'' \<notin> qt_id ` set (mk_quotes mk1)" "''q2'' \<notin> qt_id ` set (mk_quotes mk2)"
  "''t1'' \<notin> td_id ` set (mk_trades mk5)" "''t2'' \<notin> td_id ` set (mk_trades mk7)"
  "''r'' \<in> rq_id ` set (mk_rfqs mk5)" "''r'' \<in> rq_id ` set (mk_rfqs mk7)"
  "''q1'' \<in> qt_id ` set (mk_quotes mk5)" "''q2'' \<in> qt_id ` set (mk_quotes mk7)"
  by code_simp+

lemma snd_pair: "snd p = y \<Longrightarrow> p = (fst p, y)"
  by (metis prod.collapse)

lemma sample_steps:
  "market_step (\<lambda>_ _. 10) (0, mk0) (0, mk1)" "market_step (\<lambda>_ _. 10) (0, mk1) (1, mk2)"
  "market_step (\<lambda>_ _. 10) (1, mk2) (2, mk3)" "market_step (\<lambda>_ _. 10) (2, mk3) (3, mk4)"
  "market_step (\<lambda>_ _. 10) (3, mk4) (4, mk5)" "market_step (\<lambda>_ _. 10) (4, mk5) (5, mk6)"
  "market_step (\<lambda>_ _. 10) (6, mk7) (7, mk8)"
  by (rule market_step.request [OF _ sample_fresh(1) snd_pair [OF sample_requests(1)]]
      market_step.quote [OF _ sample_fresh(2) ask_ok sample_reads snd_pair [OF sample_requests(2)]]
      market_step.quote [OF _ sample_fresh(3) ask_ok sample_reads snd_pair [OF sample_requests(3)]]
      market_step.authorise [OF _ snd_pair [OF sample_requests(4)]]
      market_step.authorise [OF _ snd_pair [OF sample_requests(5)]]
      market_step.accept [OF _ sample_fresh(4,6,8) snd_pair [OF sample_accepts(1)]]
      market_step.accept [OF _ sample_fresh(5,7,9) snd_pair [OF sample_accepts(2)]]; simp)+

lemma sample_settle_steps:
  "market_step (\<lambda>_ _. 10) (5, mk6) (6, mk7)" "market_step (\<lambda>_ _. 10) (7, mk8) (8, mk9)"
proof -
  have "market_step (\<lambda>_ _. 10) (5, mk6) (6, persistSettled 6 (tn ''t1'' ''q1'' ''s1'' ''k1'' 5 None) (Some ''h1'') mk6)"
    by (rule market_step.settle) (auto simp: mk6_def tn_def)
  then show "market_step (\<lambda>_ _. 10) (5, mk6) (6, mk7)" by (simp only: sample_settles)
  have "market_step (\<lambda>_ _. 10) (7, mk8) (8, persistSettled 8 (tn ''t2'' ''q2'' ''s2'' ''k2'' 7 None) (Some ''h2'') mk8)"
    by (rule market_step.settle) (auto simp: mk8_def mk7_def tn_def)
  then show "market_step (\<lambda>_ _. 10) (7, mk8) (8, mk9)" by (simp only: sample_settles)
qed

lemma sample_run:
  "(market_step (\<lambda>_ _. 10))\<^sup>*\<^sup>* (0, mk0) (5, mk6)" "(market_step (\<lambda>_ _. 10))\<^sup>*\<^sup>* (5, mk6) (8, mk9)"
  using sample_steps sample_settle_steps by (meson rtranclp.rtrancl_into_rtrancl rtranclp.rtrancl_refl)+


text \<open>
  Two sellers can be paid for one request. From empty tables there is a run of the market, in
  which the second accept passed its checks before the first trade settled, that ends with two
  settled trades of one RFQ, to different sellers and for the full count of fractions each; the
  quote of the second had been superseded by the settlement of the first.
\<close>

lemma accept_can_settle_twice:
  "\<exists>d0 c d x y r q. no_rows d0 \<and> (market_step (\<lambda>_ _. 10))\<^sup>*\<^sup>* (0, d0) (c, d) \<and> x \<in> set (mk_trades d) \<and> y \<in> set (mk_trades d)
     \<and> td_status x = TS_settled \<and> td_status y = TS_settled \<and> td_rfq x = td_rfq y \<and> td_seller x \<noteq> td_seller y
     \<and> r \<in> set (mk_rfqs d) \<and> rq_id r = td_rfq x \<and> td_count x = rq_count r \<and> td_count y = rq_count r
     \<and> q \<in> set (mk_quotes d) \<and> qt_id q = td_quote y \<and> qt_status q = QS_superseded"
proof (intro exI conjI)
  show "no_rows mk0" by (simp add: no_rows_def mk0_def)
  show "(market_step (\<lambda>_ _. 10))\<^sup>*\<^sup>* (0, mk0) (8, mk9)" using sample_run by (rule rtranclp_trans)
  show "tn ''t1'' ''q1'' ''s1'' ''k1'' 5 (Some (''h1'', 6)) \<in> set (mk_trades mk9)" (is "?x \<in> _")
    "tn ''t2'' ''q2'' ''s2'' ''k2'' 7 (Some (''h2'', 8)) \<in> set (mk_trades mk9)" (is "?y \<in> _")
    by (simp_all add: mk9_def mk7_def)
  show "td_status ?x = TS_settled" "td_status ?y = TS_settled" "td_rfq ?x = td_rfq ?y" "td_seller ?x \<noteq> td_seller ?y"
    by (simp_all add: tn_def)
  show "r1 RS_filled 6 \<in> set (mk_rfqs mk9)" (is "?r \<in> _") by (simp add: mk9_def mk8_def mk7_def)
  show "rq_id ?r = td_rfq ?x" "td_count ?x = rq_count ?r" "td_count ?y = rq_count ?r" by (simp_all add: tn_def r1_def)
  show "qn ''q2'' ''s2'' ''CS2'' 2 QS_superseded (Some 4) 6 \<in> set (mk_quotes mk9)" (is "?q \<in> _")
    by (simp add: mk9_def mk8_def mk7_def)
  show "qt_id ?q = td_quote ?y" "qt_status ?q = QS_superseded" by (simp_all add: tn_def qn_def)
qed

section \<open>The properties on the sample\<close>

theorem market_lifecycle_witness:
  "forward rfqs_guard (mk_rfqs mk6) (mk_rfqs mk9) \<and> forward quotes_guard (mk_quotes mk6) (mk_quotes mk9)
     \<and> length (mk_trades mk9) = 2"
proof -
  have "no_rows mk0" by (simp add: no_rows_def mk0_def)
  from market_lifecycle [OF this sample_run] show ?thesis by (simp add: mk9_def mk7_def)
qed

theorem quotes_never_oversell_witness:
  "sumOpenLockedCount 5 ''s1'' ''f'' (mk_quotes mk6) = 5
     \<and> sumAuthorizedLockedCount 5 ''s1'' ''f'' ''q2'' (mk_quotes mk6) \<le> 10"
proof -
  have "no_rows mk0" by (simp add: no_rows_def mk0_def)
  from quotes_never_oversell [OF this _ sample_run(1)]
  have "sumAuthorizedLockedCount 5 ''s1'' ''f'' ''q2'' (mk_quotes mk6) \<le> 10" by simp
  moreover have "sumOpenLockedCount 5 ''s1'' ''f'' (mk_quotes mk6) = 5" by code_simp
  ultimately show ?thesis by simp
qed

definition sample_job :: quote_settle_job where
  "sample_job = \<lparr>qj_trade = ''t1'', qj_rfq = ''r'', qj_quote = ''q1'', qj_settler = ''SETTLER'', qj_usdc = ''USDC'',
     qj_args = \<lparr>aq_rfq = ''r'', aq_quote = ''q1'', aq_artwork = ''art'', aq_buyer = ''CB'', aq_seller = ''CS1'', aq_count = 5,
       aq_gross = 50\<rparr>, qj_buyer_entry = ''e'', qj_seller_entry = ''e'',
     qj_key = ''kw0'', qj_credential = ''cw0'', qj_assertion = any_assertion, qj_rp = ''rp'', qj_origins = [''o'']\<rparr>"

definition world0 :: quote_world where
  "world0 = \<lparr>qw_db = mk6, qw_made = 0, qw_settled = False, qw_moving = False\<rparr>"

definition refused_obs :: settle_obs where
  "refused_obs = late_short_obs\<lparr>so_usdc := Rpc (Some 50), so_fresh := Rpc False\<rparr>"

definition world1 :: quote_world where
  "world1 = \<lparr>qw_db = snd (quote_settle_process 0 6 refused_obs sample_job mk6), qw_made = Suc 0, qw_settled = False,
     qw_moving = False\<rparr>"

lemma sample_trade: "qw_trade sample_job world0 = Some (tn ''t1'' ''q1'' ''s1'' ''k1'' 5 None)"
  by code_simp

lemma sample_status: "td_status (tn ''t1'' ''q1'' ''s1'' ''k1'' 5 None) = TS_pending"
  by (simp add: tn_def)

lemma sample_attempt: "(quote_step True cfg market_cfg sample_job)\<^sup>*\<^sup>* world0 world1"
proof -
  have "honest_obs cfg refused_attempt sample_job world0 False False refused_obs"
    using refused_attempt_run by (simp add: honest_obs_def refused_obs_def late_short_obs_def world0_def Let_def refused_attempt_def)
  from quote_step.attempt [OF _ this] have "quote_step True cfg market_cfg sample_job world0 world1"
    unfolding world1_def world0_def by (metis prod.collapse quote_world.select_convs(1,2,4))
  then show ?thesis by (rule r_into_rtranclp)
qed


theorem quote_settle_false_failure_witness:
  "\<exists>w' x. quote_step False \<lparr>rc_max_fee = 0, rc_submit_timeout = 0\<rparr> market_cfg sample_job
       (world0\<lparr>qw_made := 1, qw_moving := True\<rparr>) w' \<and> qw_settled w'
     \<and> qw_trade sample_job w' = Some x \<and> td_status x = TS_failed"
proof -
  have "qw_trade sample_job (world0\<lparr>qw_made := 1, qw_moving := True\<rparr>) = Some (tn ''t1'' ''q1'' ''s1'' ''k1'' 5 None)"
    using sample_trade by (simp add: qw_trade_def)
  from quote_settle_false_failure [OF this sample_status] show ?thesis
    by (simp add: world0_def sample_job_def) blast
qed

end
