(* ===== verification/Wallets.thy ===== *)
theory Wallets
  imports Bids
begin

text \<open>
  \<open>modules/wallets/wallets.service.ts\<close>, \<open>repositories/*.ts\<close> and \<open>me/me-wallets.service.ts\<close>: the
  wallets of a user, of which one is the primary. A transaction's reads come before its writes and,
  at READ COMMITTED, may be older than the rows it writes: every transaction takes the tables \<open>s\<close>
  it read and the tables \<open>d\<close> it writes; \<open>s = d\<close> is a transaction no other one overlaps.
\<close>

section \<open>Tables\<close>

datatype wallet_kind = WK_byow | WK_embedded

datatype wallet_status = WS_active | WS_exported

record wallet =
  wt_id :: ident
  wt_user :: ident
  wt_key :: "ident option"
  wt_contract :: "ident option"
  wt_kind :: wallet_kind
  wt_primary :: bool
  wt_status :: wallet_status
  wt_removed :: "instant option"
  wt_created :: instant
  wt_deleted :: "instant option"

record challenge =
  ch_hash :: ident
  ch_key :: ident
  ch_user :: "ident option"
  ch_expires :: instant
  ch_consumed :: "instant option"

record wdb =
  wd_users :: "(ident \<times> string option) list"
  wd_wallets :: "wallet list"
  wd_credentials :: "credential_row list"
  wd_challenges :: "challenge list"
  wd_passkey_challenges :: "(string \<times> instant option) list"
  wd_audit :: "audit_entry list"

datatype mutation_reason = Already_bound | Challenge_consumed | Kind_not_supported | Not_eligible_for_primary
  | Wallet_not_found | Primary_cannot_be_removed

datatype bind_reason = Bind_challenge_consumed | Passkey_already_bound | Email_conflict

datatype wallet_throw = Mutation mutation_reason | Bind bind_reason | UniqueViolation string | RowRejected

abbreviation "UQ_public_key \<equiv> ''UQ_wallets_public_key_active''"
abbreviation "UQ_contract \<equiv> ''UQ_wallets_contract_address_active''"
abbreviation "UQ_embedded \<equiv> ''UQ_wallets_user_embedded_active''"
abbreviation "UQ_primary \<equiv> ''UQ_wallets_primary_active''"

subsection \<open>CHECKs and partial unique indexes\<close>

definition live :: "wallet \<Rightarrow> bool" where
  "live w \<longleftrightarrow> wt_deleted w = None"

definition chk_wallet :: "wallet \<Rightarrow> bool" where
  "chk_wallet w \<longleftrightarrow> (wt_kind w = WK_byow \<and> wt_key w \<noteq> None \<and> wt_contract w = None
      \<or> wt_kind w = WK_embedded \<and> wt_contract w \<noteq> None \<and> wt_key w = None)
    \<and> (wt_status w = WS_exported \<longleftrightarrow> wt_removed w \<noteq> None)"

definition uq_wallets :: "wallet list \<Rightarrow> wallet \<Rightarrow> string option" where
  "uq_wallets t r =
     (let others = filter (\<lambda>w. live w \<and> wt_id w \<noteq> wt_id r) t in
      if \<not> live r then None
      else if wt_key r \<noteq> None \<and> list_ex (\<lambda>w. wt_key w = wt_key r) others then Some UQ_public_key
      else if wt_contract r \<noteq> None \<and> list_ex (\<lambda>w. wt_contract w = wt_contract r) others then Some UQ_contract
      else if wt_kind r = WK_embedded \<and> list_ex (\<lambda>w. wt_user w = wt_user r \<and> wt_kind w = WK_embedded) others
        then Some UQ_embedded
      else if wt_primary r \<and> list_ex (\<lambda>w. wt_user w = wt_user r \<and> wt_primary w) others then Some UQ_primary
      else None)"

text \<open>One statement on the table; an update selects its row by primary key.\<close>

definition insert_wallet :: "wallet \<Rightarrow> wdb \<Rightarrow> (wallet_throw + unit) \<times> wdb" where
  "insert_wallet r d =
     (if \<not> chk_wallet r then (Inl RowRejected, d)
      else case uq_wallets (wd_wallets d) r of
        Some c \<Rightarrow> (Inl (UniqueViolation c), d)
      | None \<Rightarrow> (Inr (), d\<lparr>wd_wallets := wd_wallets d @ [r]\<rparr>))"

definition update_wallet :: "ident \<Rightarrow> (wallet \<Rightarrow> bool) \<Rightarrow> (wallet \<Rightarrow> wallet) \<Rightarrow> wdb \<Rightarrow> (wallet_throw + nat) \<times> wdb" where
  "update_wallet i P f d = (case find (\<lambda>w. wt_id w = i \<and> P w) (wd_wallets d) of
     None \<Rightarrow> (Inr 0, d)
   | Some r \<Rightarrow>
       if \<not> chk_wallet (f r) then (Inl RowRejected, d)
       else case uq_wallets (wd_wallets d) (f r) of
         Some c \<Rightarrow> (Inl (UniqueViolation c), d)
       | None \<Rightarrow> (Inr 1, d\<lparr>wd_wallets := map (\<lambda>w. if wt_id w = i \<and> P w then f w else w) (wd_wallets d)\<rparr>))"

definition andThen :: "('d \<Rightarrow> ('e + 'a) \<times> 'd) \<Rightarrow> ('a \<Rightarrow> 'd \<Rightarrow> ('e + 'b) \<times> 'd) \<Rightarrow> 'd \<Rightarrow> ('e + 'b) \<times> 'd" where
  "andThen m f d = (case m d of (Inl e, d') \<Rightarrow> (Inl e, d') | (Inr x, d') \<Rightarrow> f x d')"

definition wd_record :: "audit_entry \<Rightarrow> wdb \<Rightarrow> wdb" where
  "wd_record e d = d\<lparr>wd_audit := wd_audit d @ [e]\<rparr>"

section \<open>The repositories\<close>

definition findByPublicKey :: "ident \<Rightarrow> wdb \<Rightarrow> wallet option" where
  "findByPublicKey k d = sql_find (\<lambda>w. wt_key w = Some k \<and> live w) (wd_wallets d)"

definition findAnyByPublicKey :: "ident \<Rightarrow> wdb \<Rightarrow> wallet option" where
  "findAnyByPublicKey k d = sql_find (\<lambda>w. wt_key w = Some k) (wd_wallets d)"

definition findActiveByowPublicKeysIn :: "ident list \<Rightarrow> wdb \<Rightarrow> ident list" where
  "findActiveByowPublicKeysIn ks d = (if ks = [] then []
     else List.map_filter wt_key (filter (\<lambda>w. live w \<and> (\<exists>k \<in> set ks. wt_key w = Some k)) (wd_wallets d)))"

definition findAllByUserId :: "ident \<Rightarrow> wdb \<Rightarrow> wallet list" where
  "findAllByUserId u d = sort_key wt_created (filter (\<lambda>w. wt_user w = u \<and> live w) (wd_wallets d))"

definition findEmbeddedWalletRow :: "ident \<Rightarrow> wdb \<Rightarrow> wallet option" where
  "findEmbeddedWalletRow u d = (case findAllByUserId u d of ws \<Rightarrow> find (\<lambda>w. wt_kind w = WK_embedded) ws)"

definition findOwnedById :: "ident \<Rightarrow> ident \<Rightarrow> wdb \<Rightarrow> wallet option" where
  "findOwnedById i u d = sql_find (\<lambda>w. wt_id w = i \<and> wt_user w = u \<and> live w) (wd_wallets d)"

definition findCredentialByWallet :: "ident \<Rightarrow> wdb \<Rightarrow> credential_row option" where
  "findCredentialByWallet i d = sql_find (\<lambda>c. cr_wallet c = i \<and> cr_deleted c = None) (wd_credentials d)"

definition findByCredentialId :: "ident \<Rightarrow> wdb \<Rightarrow> credential_row option" where
  "findByCredentialId i d = sql_find (\<lambda>c. cr_credential c = i \<and> cr_deleted c = None) (wd_credentials d)"

definition softDeleteWallet :: "instant \<Rightarrow> ident \<Rightarrow> wdb \<Rightarrow> (wallet_throw + nat) \<times> wdb" where
  "softDeleteWallet now i = update_wallet i (\<lambda>_. True) (\<lambda>w. w\<lparr>wt_deleted := Some now\<rparr>)"

definition markExported :: "instant \<Rightarrow> ident \<Rightarrow> wdb \<Rightarrow> (wallet_throw + nat) \<times> wdb" where
  "markExported now i = update_wallet i (\<lambda>w. wt_status w = WS_active)
     (\<lambda>w. w\<lparr>wt_status := WS_exported, wt_removed := Some now\<rparr>)"

definition set_primary_flag :: "ident \<Rightarrow> bool \<Rightarrow> (wallet \<Rightarrow> bool) \<Rightarrow> wdb \<Rightarrow> (wallet_throw + nat) \<times> wdb" where
  "set_primary_flag i v P = update_wallet i P (\<lambda>w. w\<lparr>wt_primary := v\<rparr>)"

definition promotable :: "wallet \<Rightarrow> bool" where
  "promotable w \<longleftrightarrow> live w \<and> wt_status w = WS_active"

definition consumeByTxHash :: "instant \<Rightarrow> ident \<Rightarrow> wdb \<Rightarrow> bool \<times> wdb" where
  "consumeByTxHash now h d = (case cas_rows (\<lambda>c. ch_hash c = h \<and> ch_consumed c = None)
     (\<lambda>c. c\<lparr>ch_consumed := Some now\<rparr>) (wd_challenges d) of (t, won) \<Rightarrow> (won, d\<lparr>wd_challenges := t\<rparr>))"


definition consumeByChallenge :: "instant \<Rightarrow> string \<Rightarrow> wdb \<Rightarrow> bool \<times> wdb" where
  "consumeByChallenge now c d = (case cas_rows (\<lambda>x. x = (c, None)) (\<lambda>x. (c, Some now)) (wd_passkey_challenges d) of
     (t, won) \<Rightarrow> (won, d\<lparr>wd_passkey_challenges := t\<rparr>))"

section \<open>Primary contention\<close>

text \<open>
  \<open>runWithPrimaryContention\<close>: the first attempt reads \<open>s1\<close> and writes \<open>d1\<close>; when it loses the
  primary index it is run once more, on \<open>s2\<close> and \<open>d2\<close>, with \<open>allowPrimary\<close> false.
\<close>

definition lost_primary :: "(wallet_throw + 'a) \<times> wdb \<Rightarrow> bool" where
  "lost_primary r \<longleftrightarrow> fst r = Inl (UniqueViolation UQ_primary)"

definition runWithPrimaryContention ::
  "(bool \<Rightarrow> wdb \<Rightarrow> wdb \<Rightarrow> (wallet_throw + 'a) \<times> wdb) \<Rightarrow> wdb \<Rightarrow> wdb \<Rightarrow> wdb \<Rightarrow> wdb \<Rightarrow> (wallet_throw + 'a) \<times> wdb" where
  "runWithPrimaryContention fn s1 d1 s2 d2 =
     (let first = run_txn (fn True s1) d1 in if lost_primary first then run_txn (fn False s2) d2 else first)"

definition primary_changed :: "ident \<Rightarrow> ident \<Rightarrow> wdb \<Rightarrow> wdb" where
  "primary_changed u i = wd_record \<lparr>ae_kind = ''wallet.primary.changed'', ae_actor = Some u, ae_subject = i\<rparr>"

definition hasLivePrimary :: "ident \<Rightarrow> wdb \<Rightarrow> bool" where
  "hasLivePrimary u d \<longleftrightarrow> 0 < sql_count (\<lambda>w. wt_user w = u \<and> wt_primary w \<and> live w) (wd_wallets d)"

definition reactivateRow :: "wallet \<Rightarrow> bool \<Rightarrow> wdb \<Rightarrow> (wallet_throw + wallet) \<times> wdb" where
  "reactivateRow w isPrimary = andThen
     (update_wallet (wt_id w) (\<lambda>_. True)
        (\<lambda>r. r\<lparr>wt_primary := isPrimary, wt_status := WS_active, wt_removed := None, wt_deleted := None\<rparr>))
     (\<lambda>_ d. (Inr (w\<lparr>wt_primary := isPrimary, wt_status := WS_active, wt_removed := None, wt_deleted := None\<rparr>),
        if isPrimary then primary_changed (wt_user w) (wt_id w) d else d))"

section \<open>Login and binding\<close>

definition reactivateWalletForUser :: "ident \<Rightarrow> wallet \<Rightarrow> bool \<Rightarrow> wdb \<Rightarrow> wdb \<Rightarrow> (wallet_throw + wallet) \<times> wdb" where
  "reactivateWalletForUser u w allowPrimary s = reactivateRow w (allowPrimary \<and> \<not> hasLivePrimary u s)"

definition byow_row :: "instant \<Rightarrow> ident \<Rightarrow> ident \<Rightarrow> ident \<Rightarrow> bool \<Rightarrow> wallet" where
  "byow_row now i u k p = \<lparr>wt_id = i, wt_user = u, wt_key = Some k, wt_contract = None, wt_kind = WK_byow, wt_primary = p,
     wt_status = WS_active, wt_removed = None, wt_created = now, wt_deleted = None\<rparr>"

definition createWalletUser_txn :: "instant \<Rightarrow> ident \<Rightarrow> ident \<Rightarrow> ident \<Rightarrow> wdb \<Rightarrow> (wallet_throw + wallet) \<times> wdb" where
  "createWalletUser_txn now u i k d = andThen (insert_wallet (byow_row now i u k True))
     (\<lambda>_ d'. (Inr (byow_row now i u k True), primary_changed u i d')) (d\<lparr>wd_users := wd_users d @ [(u, None)]\<rparr>)"

text \<open>
  The login of a verified key: \<open>s\<close> is what the two lookups saw; \<open>later\<close> is what the re-read after a
  lost insert sees.
\<close>

definition findOrCreateForWallet ::
  "instant \<Rightarrow> ident \<Rightarrow> ident \<Rightarrow> ident \<Rightarrow> wdb \<Rightarrow> wdb \<Rightarrow> wdb \<Rightarrow> wdb \<Rightarrow> wdb \<Rightarrow> wdb \<Rightarrow> (wallet_throw + ident \<times> wallet) \<times> wdb" where
  "findOrCreateForWallet now new_user new_id k s s1 d1 s2 d2 later =
     (case findByPublicKey k s of
        Some w \<Rightarrow> (Inr (wt_user w, w), d1)
      | None \<Rightarrow> (case findAnyByPublicKey k s of
          Some w \<Rightarrow> (case runWithPrimaryContention (reactivateWalletForUser (wt_user w) w) s1 d1 s2 d2 of
              (Inl e, d') \<Rightarrow> (Inl e, d') | (Inr x, d') \<Rightarrow> (Inr (wt_user w, x), d'))
        | None \<Rightarrow> (case run_txn (createWalletUser_txn now new_user new_id k) d1 of
              (Inr x, d') \<Rightarrow> (Inr (new_user, x), d')
            | (Inl (UniqueViolation c), d') \<Rightarrow> (case findByPublicKey k later of
                  Some x \<Rightarrow> (Inr (wt_user x, x), d') | None \<Rightarrow> (Inl (UniqueViolation c), d'))
            | (Inl e, d') \<Rightarrow> (Inl e, d'))))"

definition bind_txn :: "instant \<Rightarrow> ident \<Rightarrow> ident \<Rightarrow> ident \<Rightarrow> ident \<Rightarrow> bool \<Rightarrow> wdb \<Rightarrow> wdb \<Rightarrow> (wallet_throw + wallet) \<times> wdb" where
  "bind_txn now h new_id u k allowPrimary s d = (case consumeByTxHash now h d of
     (False, d1) \<Rightarrow> (Inl (Mutation Challenge_consumed), d1)
   | (True, d1) \<Rightarrow>
       if \<exists>w \<in> set (wd_wallets s). wt_key w = Some k \<and> wt_user w \<noteq> u then (Inl (Mutation Already_bound), d1)
       else let own = sql_find (\<lambda>w. wt_key w = Some k \<and> wt_user w = u) (wd_wallets s);
                isPrimary = (allowPrimary \<and> \<not> hasLivePrimary u s) in
         (case own of
            Some w \<Rightarrow> if live w then (Inr w, d1) else reactivateRow w isPrimary d1
          | None \<Rightarrow> andThen (insert_wallet (byow_row now new_id u k isPrimary))
              (\<lambda>_ d'. (Inr (byow_row now new_id u k isPrimary), if isPrimary then primary_changed u new_id d' else d')) d1))"

definition bindByowWalletToUser ::
  "instant \<Rightarrow> ident \<Rightarrow> ident \<Rightarrow> ident \<Rightarrow> ident \<Rightarrow> wdb \<Rightarrow> wdb \<Rightarrow> wdb \<Rightarrow> wdb \<Rightarrow> wdb \<Rightarrow> (wallet_throw + wallet) \<times> wdb" where
  "bindByowWalletToUser now h new_id u k s1 d1 s2 d2 later =
     (case runWithPrimaryContention (bind_txn now h new_id u k) s1 d1 s2 d2 of
        (Inl (UniqueViolation c), d') \<Rightarrow>
          if c = UQ_public_key then (case findByPublicKey k later of
              Some w \<Rightarrow> if wt_user w = u then (Inr w, d') else (Inl (Mutation Already_bound), d')
            | None \<Rightarrow> (Inl (Mutation Already_bound), d'))
          else (Inl (UniqueViolation c), d')
      | r \<Rightarrow> r)"

section \<open>The primary wallet\<close>

text \<open>The audit callback of a real change is \<open>primary_changed\<close>.\<close>

definition demoteCurrent :: "ident \<Rightarrow> wdb \<Rightarrow> wdb \<Rightarrow> (wallet_throw + nat) \<times> wdb" where
  "demoteCurrent u s = (case sql_find (\<lambda>w. wt_user w = u \<and> wt_primary w \<and> live w) (wd_wallets s) of
     None \<Rightarrow> Pair (Inr 0) | Some current \<Rightarrow> set_primary_flag (wt_id current) False (\<lambda>_. True))"

definition promoted :: "ident \<Rightarrow> ident \<Rightarrow> wallet \<Rightarrow> nat \<Rightarrow> wdb \<Rightarrow> (wallet_throw + wallet) \<times> wdb" where
  "promoted u i target n d =
     (if n = 0
        then (Inl (Mutation (if findOwnedById i u d \<noteq> None then Not_eligible_for_primary else Wallet_not_found)), d)
      else (Inr (target\<lparr>wt_primary := True\<rparr>), primary_changed u i d))"

definition setPrimary_txn :: "ident \<Rightarrow> ident \<Rightarrow> bool \<Rightarrow> wdb \<Rightarrow> wdb \<Rightarrow> (wallet_throw + wallet) \<times> wdb" where
  "setPrimary_txn u i allowPrimary s = (case findOwnedById i u s of
     None \<Rightarrow> Pair (Inl (Mutation Wallet_not_found))
   | Some target \<Rightarrow>
       if wt_status target \<noteq> WS_active then Pair (Inl (Mutation Not_eligible_for_primary))
       else if wt_kind target \<noteq> WK_byow then Pair (Inl (Mutation Kind_not_supported))
       else if wt_primary target then Pair (Inr target)
       else andThen (demoteCurrent u s) (\<lambda>_. andThen (set_primary_flag i True promotable) (promoted u i target)))"

definition oldestSibling :: "ident \<Rightarrow> ident \<Rightarrow> wdb \<Rightarrow> wallet option" where
  "oldestSibling u i s = (case sort_key (\<lambda>w. (wt_created w, map of_char (wt_id w) :: nat list))
       (filter (\<lambda>w. wt_user w = u \<and> wt_kind w = WK_byow \<and> wt_status w = WS_active \<and> wt_id w \<noteq> i \<and> live w) (wd_wallets s)) of
     [] \<Rightarrow> None | w # _ \<Rightarrow> Some w)"

definition removed_after :: "instant \<Rightarrow> ident \<Rightarrow> ident \<Rightarrow> wallet \<Rightarrow> nat \<Rightarrow> wdb \<Rightarrow> (wallet_throw + ident option) \<times> wdb" where
  "removed_after now u i sibling n =
     (if n = 0 then Pair (Inl (Mutation Primary_cannot_be_removed))
      else andThen (softDeleteWallet now i)
        (\<lambda>_ d. (Inr (Some (wt_id sibling)), primary_changed u (wt_id sibling) d)))"

definition remove_txn :: "instant \<Rightarrow> ident \<Rightarrow> ident \<Rightarrow> bool \<Rightarrow> wdb \<Rightarrow> wdb \<Rightarrow> (wallet_throw + ident option) \<times> wdb" where
  "remove_txn now u i allowPrimary s = (case findOwnedById i u s of
     None \<Rightarrow> Pair (Inl (Mutation Wallet_not_found))
   | Some w \<Rightarrow>
       if wt_kind w \<noteq> WK_byow then Pair (Inl (Mutation Kind_not_supported))
       else if \<not> wt_primary w then andThen (softDeleteWallet now i) (\<lambda>_. Pair (Inr None))
       else (case oldestSibling u i s of
          None \<Rightarrow> Pair (Inl (Mutation Primary_cannot_be_removed))
        | Some sibling \<Rightarrow> andThen (set_primary_flag i False (\<lambda>_. True))
            (\<lambda>_. andThen (set_primary_flag (wt_id sibling) True promotable) (removed_after now u i sibling))))"

definition setPrimaryWallet :: "ident \<Rightarrow> ident \<Rightarrow> wdb \<Rightarrow> wdb \<Rightarrow> wdb \<Rightarrow> wdb \<Rightarrow> (wallet_throw + wallet) \<times> wdb" where
  "setPrimaryWallet u i = runWithPrimaryContention (setPrimary_txn u i)"

definition removeWallet :: "instant \<Rightarrow> ident \<Rightarrow> ident \<Rightarrow> wdb \<Rightarrow> wdb \<Rightarrow> wdb \<Rightarrow> wdb \<Rightarrow> (wallet_throw + ident option) \<times> wdb" where
  "removeWallet now u i = runWithPrimaryContention (remove_txn now u i)"

text \<open>The address that settles for a user.\<close>

definition resolvePrimarySettlementAddress :: "ident \<Rightarrow> wdb \<Rightarrow> ident option" where
  "resolvePrimarySettlementAddress u d =
     (case find (\<lambda>w. wt_primary w \<and> wt_status w = WS_active) (findAllByUserId u d) of
        None \<Rightarrow> None
      | Some w \<Rightarrow> (case wt_contract w of Some c \<Rightarrow> Some c | None \<Rightarrow> wt_key w))"


definition filterKnownActiveByowAddresses :: "ident list \<Rightarrow> wdb \<Rightarrow> ident list" where
  "filterKnownActiveByowAddresses ks d = (if ks = [] then [] else remdups (findActiveByowPublicKeysIn ks d))"

section \<open>The embedded wallet\<close>

record passkey_input =
  pi_email :: string
  pi_contract :: ident
  pi_credential :: ident
  pi_key :: string
  pi_transports :: "string list option"

definition join_comma :: "string list \<Rightarrow> string" where
  "join_comma ts = (case ts of [] \<Rightarrow> [] | t # rest \<Rightarrow> foldl (\<lambda>acc x. acc @ '','' @ x) t rest)"

definition embedded_row :: "instant \<Rightarrow> ident \<Rightarrow> ident \<Rightarrow> ident \<Rightarrow> wallet" where
  "embedded_row now i u c = \<lparr>wt_id = i, wt_user = u, wt_key = None, wt_contract = Some c, wt_kind = WK_embedded,
     wt_primary = True, wt_status = WS_active, wt_removed = None, wt_created = now, wt_deleted = None\<rparr>"

definition credential_of :: "passkey_input \<Rightarrow> ident \<Rightarrow> credential_row" where
  "credential_of input i = \<lparr>cr_credential = pi_credential input, cr_wallet = i,
     cr_transports = map_option join_comma (pi_transports input), cr_key = pi_key input, cr_deleted = None\<rparr>"

definition insert_passkey_user :: "ident \<Rightarrow> string \<Rightarrow> wdb \<Rightarrow> (wallet_throw + unit) \<times> wdb" where
  "insert_passkey_user u email d =
     (if \<exists>x \<in> set (wd_users d). snd x = Some email then (Inl (UniqueViolation ''UQ_users_email_active''), d)
      else (Inr (), d\<lparr>wd_users := wd_users d @ [(u, Some email)]\<rparr>))"

definition insert_credential :: "credential_row \<Rightarrow> wdb \<Rightarrow> (wallet_throw + unit) \<times> wdb" where
  "insert_credential c d =
     (if \<exists>x \<in> set (wd_credentials d). cr_deleted x = None \<and> cr_credential x = cr_credential c
        then (Inl (UniqueViolation ''UQ_passkey_credentials_credential_id_active''), d)
      else if \<exists>x \<in> set (wd_credentials d). cr_deleted x = None \<and> cr_wallet x = cr_wallet c
        then (Inl (UniqueViolation ''UQ_passkey_credentials_wallet_id_active''), d)
      else (Inr (), d\<lparr>wd_credentials := wd_credentials d @ [c]\<rparr>))"

definition embedded_txn :: "instant \<Rightarrow> ident \<Rightarrow> ident \<Rightarrow> string \<Rightarrow> passkey_input \<Rightarrow> wdb \<Rightarrow> (wallet_throw + wallet) \<times> wdb" where
  "embedded_txn now u i c input d = (case consumeByChallenge now c d of
     (False, d1) \<Rightarrow> (Inl (Bind Bind_challenge_consumed), d1)
   | (True, d1) \<Rightarrow> andThen (insert_passkey_user u (pi_email input))
       (\<lambda>_. andThen (insert_wallet (embedded_row now i u (pi_contract input)))
         (\<lambda>_. andThen (insert_credential (credential_of input i))
           (\<lambda>_ d2. (Inr (embedded_row now i u (pi_contract input)), primary_changed u i d2)))) d1)"

text \<open>Of the constraint names, which contain \<open>credential_id\<close>, \<open>contract_address\<close> or \<open>email\<close>.\<close>

definition contains :: "string \<Rightarrow> string \<Rightarrow> bool" where
  "contains s part \<longleftrightarrow> list_ex (\<lambda>n. take (length part) (drop n s) = part) [0..<Suc (length s)]"

definition createEmbeddedPasskeyWallet ::
  "instant \<Rightarrow> ident \<Rightarrow> ident \<Rightarrow> string \<Rightarrow> passkey_input \<Rightarrow> wdb \<Rightarrow> (wallet_throw + ident \<times> wallet) \<times> wdb" where
  "createEmbeddedPasskeyWallet now u i c input d = (case run_txn (embedded_txn now u i c input) d of
     (Inr w, d') \<Rightarrow> (Inr (u, w), d')
   | (Inl (UniqueViolation n), d') \<Rightarrow>
       (Inl (if contains n ''credential_id'' \<or> contains n ''contract_address'' then Bind Passkey_already_bound
             else if contains n ''email'' then Bind Email_conflict else UniqueViolation n), d')
   | (Inl e, d') \<Rightarrow> (Inl e, d'))"

section \<open>\<open>MeWalletsService\<close>\<close>

fun mutation_error :: "mutation_reason \<Rightarrow> http_error" where
  "mutation_error Already_bound = FailHttp ''WALLET_ALREADY_BOUND'' 409"
| "mutation_error Challenge_consumed = FailHttp ''AUTH_CHALLENGE_ALREADY_USED'' 401"
| "mutation_error Kind_not_supported = FailHttp ''WALLET_KIND_NOT_SUPPORTED'' 422"
| "mutation_error Not_eligible_for_primary = FailHttp ''WALLET_NOT_ELIGIBLE_FOR_PRIMARY'' 409"
| "mutation_error Wallet_not_found = FailHttp ''WALLET_NOT_FOUND'' 404"
| "mutation_error Primary_cannot_be_removed = FailHttp ''PRIMARY_WALLET_CANNOT_BE_REMOVED'' 409"

definition map_mutation :: "wallet_throw \<Rightarrow> http_error" where
  "map_mutation e = (case e of Mutation r \<Rightarrow> mutation_error r | UniqueViolation c \<Rightarrow> InternalError c | _ \<Rightarrow> InternalError [])"

text \<open>\<open>Sep10Service.verifyBindChallenge\<close>; \<open>sig_ok\<close> is the library's verdict on the signatures.\<close>

definition verifySignedChallenge :: "instant \<Rightarrow> bool \<Rightarrow> ident \<Rightarrow> wdb \<Rightarrow> http_error + challenge" where
  "verifySignedChallenge now sig_ok h d = (case sql_find (\<lambda>c. ch_hash c = h) (wd_challenges d) of
     None \<Rightarrow> Inl (FailHttp ''AUTH_CHALLENGE_NOT_FOUND'' 401)
   | Some c \<Rightarrow> if ch_consumed c \<noteq> None then Inl (FailHttp ''AUTH_CHALLENGE_ALREADY_USED'' 401)
       else if ch_expires c < now then Inl (FailHttp ''AUTH_CHALLENGE_EXPIRED'' 401)
       else if \<not> sig_ok then Inl (FailHttp ''AUTH_SIGNATURE_INVALID'' 401)
       else Inr c)"

definition verifyBindChallenge :: "instant \<Rightarrow> bool \<Rightarrow> ident \<Rightarrow> ident \<Rightarrow> wdb \<Rightarrow> http_error + ident" where
  "verifyBindChallenge now sig_ok h u d = bindE (verifySignedChallenge now sig_ok h d)
     (\<lambda>c. if ch_user c \<noteq> Some u then Inl (FailHttp ''AUTH_SIGNATURE_INVALID'' 401) else Inr (ch_key c))"

definition me_add_work ::
  "instant \<Rightarrow> bool \<Rightarrow> ident \<Rightarrow> ident \<Rightarrow> ident \<Rightarrow> wdb \<Rightarrow> wdb \<Rightarrow> wdb \<Rightarrow> wdb \<Rightarrow> wdb \<Rightarrow> wdb \<Rightarrow> (http_error + wallet) \<times> wdb" where
  "me_add_work now sig_ok h new_id u d0 s1 d1 s2 d2 later = (case verifyBindChallenge now sig_ok h u d0 of
     Inl e \<Rightarrow> (Inl e, d1)
   | Inr k \<Rightarrow> (case bindByowWalletToUser now h new_id u k s1 d1 s2 d2 later of
       (Inl e, d') \<Rightarrow> (Inl (map_mutation e), d') | (Inr w, d') \<Rightarrow> (Inr w, d')))"

text \<open>The response is the wallet; the trustline instruction it may carry is left out.\<close>

definition me_add_replay :: "ident \<Rightarrow> ident option \<Rightarrow> wdb \<Rightarrow> http_error + wallet" where
  "me_add_replay u body d = (case Option.bind body (\<lambda>i. findOwnedById i u d) of
     None \<Rightarrow> Inl (FailHttp ''WALLET_NOT_FOUND'' 404) | Some w \<Rightarrow> Inr w)"

text \<open>\<open>sched\<close> holds what the attempts of the write read and write, and the re-read after them.\<close>

definition me_add ::
  "(string \<Rightarrow> string) \<Rightarrow> instant \<Rightarrow> bool \<Rightarrow> (ident \<times> bool) list \<Rightarrow> bool \<Rightarrow> ident \<Rightarrow> ident \<Rightarrow> string \<Rightarrow> ident \<Rightarrow> string
   \<Rightarrow> wdb \<times> wdb \<times> wdb \<times> wdb \<times> wdb \<Rightarrow> ident redis \<times> wdb \<Rightarrow> (http_error + wallet) \<times> ident redis \<times> wdb" where
  "me_add sha now up atts sig_ok h new_id body u idempotencyKey sched sd = (case (sched, sd) of ((s1, d1, s2, d2, later), s, d) \<Rightarrow>
     let key = ''idem:me-wallets-add:'' @ u @ '':'' @ idempotencyKey in
     (case idem_begin now key (sha body) atts s of
        (Mismatch, s') \<Rightarrow> (Inl (FailHttp ''IDEMPOTENCY_KEY_MISMATCH'' 422), s', d)
      | (InFlight, s') \<Rightarrow> (Inl (FailHttp ''IDEMPOTENCY_KEY_IN_FLIGHT'' 409), s', d)
      | (Replay b, s') \<Rightarrow> (me_add_replay u b d, s', d)
      | (Proceed token, s') \<Rightarrow>
          (case me_add_work now sig_ok h new_id u d s1 d1 s2 d2 later of
             (Inl e, d') \<Rightarrow> (Inl e, idem_fail now key token up s', d')
           | (Inr w, d') \<Rightarrow> (Inr w, idem_complete now key token (wt_id w) up s', d'))))"

definition me_set_primary :: "ident \<Rightarrow> ident \<Rightarrow> wdb \<Rightarrow> wdb \<Rightarrow> wdb \<Rightarrow> wdb \<Rightarrow> (http_error + wallet) \<times> wdb" where
  "me_set_primary u i s1 d1 s2 d2 = (case setPrimaryWallet u i s1 d1 s2 d2 of
     (Inl e, d') \<Rightarrow> (Inl (map_mutation e), d') | (Inr w, d') \<Rightarrow> (Inr w, d'))"

definition me_remove :: "instant \<Rightarrow> ident \<Rightarrow> ident \<Rightarrow> wdb \<Rightarrow> wdb \<Rightarrow> wdb \<Rightarrow> wdb \<Rightarrow> (http_error + ident \<times> ident option) \<times> wdb" where
  "me_remove now u i s1 d1 s2 d2 = (case removeWallet now u i s1 d1 s2 d2 of
     (Inl e, d') \<Rightarrow> (Inl (map_mutation e), d') | (Inr p, d') \<Rightarrow> (Inr (i, p), d'))"

end
