(* ===== verification/Wallet_Machine.thy ===== *)
theory Wallet_Machine
  imports Wallets
begin

text \<open>
  The transactions on the wallets table as a machine, and what the unique indexes keep in every
  interleaving of them.
\<close>

section \<open>Indexes and CHECKs\<close>

definition clash :: "wallet \<Rightarrow> wallet \<Rightarrow> bool" where
  "clash w r \<longleftrightarrow> live w \<and> live r \<and> wt_id w \<noteq> wt_id r
     \<and> (wt_key r \<noteq> None \<and> wt_key w = wt_key r \<or> wt_contract r \<noteq> None \<and> wt_contract w = wt_contract r
        \<or> wt_user w = wt_user r \<and> (wt_kind w = WK_embedded \<and> wt_kind r = WK_embedded \<or> wt_primary w \<and> wt_primary r))"

lemma clash_sym: "clash w r \<Longrightarrow> clash r w"
  by (auto simp: clash_def)

lemma uq_wallets_None: "uq_wallets t r = None \<longleftrightarrow> (\<forall>w \<in> set t. \<not> clash w r)"
proof (cases "live r")
  case True
  define others where "others = {w \<in> set t. live w \<and> wt_id w \<noteq> wt_id r}"
  have "uq_wallets t r = None \<longleftrightarrow> \<not> (wt_key r \<noteq> None \<and> (\<exists>w \<in> others. wt_key w = wt_key r))
      \<and> \<not> (wt_contract r \<noteq> None \<and> (\<exists>w \<in> others. wt_contract w = wt_contract r))
      \<and> \<not> (wt_kind r = WK_embedded \<and> (\<exists>w \<in> others. wt_user w = wt_user r \<and> wt_kind w = WK_embedded))
      \<and> \<not> (wt_primary r \<and> (\<exists>w \<in> others. wt_user w = wt_user r \<and> wt_primary w))"
    unfolding uq_wallets_def Let_def list_ex_iff set_filter others_def [symmetric] by (simp only: True) simp
  then show ?thesis unfolding clash_def others_def using True by blast
qed (simp add: uq_wallets_def clash_def)

definition wallets_unique :: "wallet list \<Rightarrow> bool" where
  "wallets_unique t \<longleftrightarrow> distinct (map wt_id t) \<and> (\<forall>w \<in> set t. chk_wallet w) \<and> (\<forall>w \<in> set t. \<forall>r \<in> set t. \<not> clash w r)"

lemma unique_row: "wallets_unique t \<Longrightarrow> v \<in> set t \<Longrightarrow> w \<in> set t \<Longrightarrow> wt_id v = wt_id w \<Longrightarrow> v = w"
  unfolding wallets_unique_def by (metis distinct_map inj_onD)

text \<open>What a statement does when it does not fail.\<close>

definition touched :: "ident \<Rightarrow> (wallet \<Rightarrow> bool) \<Rightarrow> (wallet \<Rightarrow> wallet) \<Rightarrow> wallet \<Rightarrow> wallet" where
  "touched i P f w = (if wt_id w = i \<and> P w then f w else w)"

lemma touched_none: "\<forall>w \<in> set t. \<not> (wt_id w = i \<and> P w) \<Longrightarrow> map (touched i P f) t = t"
  by (rule map_idI) (auto simp: touched_def)

lemma update_wallet_Inr:
  assumes "update_wallet i P f d = (Inr n, d')"
  shows "d' = d\<lparr>wd_wallets := map (touched i P f) (wd_wallets d)\<rparr>"
    "n = 0 \<longleftrightarrow> (\<forall>w \<in> set (wd_wallets d). \<not> (wt_id w = i \<and> P w))"
proof -
  let ?Q = "\<lambda>w. wt_id w = i \<and> P w"
  show "d' = d\<lparr>wd_wallets := map (touched i P f) (wd_wallets d)\<rparr>"
  proof (cases "find ?Q (wd_wallets d)")
    case None
    then have "map (touched i P f) (wd_wallets d) = wd_wallets d" by (intro touched_none) (simp add: find_None_iff)
    then show ?thesis using assms None by (simp add: update_wallet_def)
  qed (use assms in \<open>auto simp: update_wallet_def touched_def [abs_def] split: if_splits option.splits\<close>)
  show "n = 0 \<longleftrightarrow> (\<forall>w \<in> set (wd_wallets d). \<not> ?Q w)"
  proof (cases "find ?Q (wd_wallets d)")
    case None
    then have "n = 0" using assms by (simp add: update_wallet_def)
    then show ?thesis using None unfolding find_None_iff by blast
  next
    case (Some x)
    then show ?thesis using assms find_in_set [OF Some] by (auto simp: update_wallet_def split: if_splits option.splits)
  qed
qed

lemma update_wallet_Inl: "update_wallet i P f d = (Inl e, d') \<Longrightarrow> d' = d"
  by (auto simp: update_wallet_def split: option.splits if_splits)

lemma insert_wallet_cases:
  assumes "insert_wallet r d = (x, d')"
  obtains (refused) e where "x = Inl e" "d' = d"
  | (stored) "x = Inr ()" "d' = d\<lparr>wd_wallets := wd_wallets d @ [r]\<rparr>" "chk_wallet r" "\<forall>w \<in> set (wd_wallets d). \<not> clash w r"
  using assms by (auto simp: insert_wallet_def uq_wallets_None split: if_splits option.splits)

lemma update_wallet_unique:
  assumes "update_wallet i P f d = (r, d')" "wallets_unique (wd_wallets d)" "\<And>w. wt_id (f w) = wt_id w"
  shows "wallets_unique (wd_wallets d')"
proof (cases "find (\<lambda>w. wt_id w = i \<and> P w) (wd_wallets d)")
  case None
  then show ?thesis using assms(1,2) by (auto simp: update_wallet_def)
next
  case (Some x)
  then have x: "x \<in> set (wd_wallets d)" "wt_id x = i" "P x" using find_in_set by fastforce+
  let ?t = "map (touched i P f) (wd_wallets d)"
  show ?thesis
  proof (cases "chk_wallet (f x) \<and> uq_wallets (wd_wallets d) (f x) = None")
    case False
    then show ?thesis using assms(1,2) Some by (auto simp: update_wallet_def split: if_splits option.splits)
  next
    case True
    then have d': "wd_wallets d' = ?t" using assms(1) Some by (auto simp: update_wallet_def touched_def [abs_def])
    have other: "touched i P f w = w" if "w \<in> set (wd_wallets d)" "w \<noteq> x" for w
      using that unique_row [OF assms(2) that(1) x(1)] x(2) by (auto simp: touched_def)
    have own: "touched i P f x = f x" using x by (simp add: touched_def)
    have free: "\<not> clash w (f x)" if "w \<in> set (wd_wallets d)" for w using True that by (simp add: uq_wallets_None)
    have "\<not> clash (touched i P f w) (touched i P f v)" if "w \<in> set (wd_wallets d)" "v \<in> set (wd_wallets d)" for w v
    proof (cases "w = x")
      case wx: True
      show ?thesis
      proof (cases "v = x")
        case True
        then show ?thesis using wx by (simp add: clash_def)
      next
        case False
        then show ?thesis using wx own other [OF that(2) False] free [OF that(2)] clash_sym by metis
      qed
    next
      case wx: False
      show ?thesis
      proof (cases "v = x")
        case True
        then show ?thesis using own other [OF that(1) wx] free [OF that(1)] by simp
      next
        case False
        then show ?thesis using other that wx assms(2) by (simp add: wallets_unique_def)
      qed
    qed
    moreover have "chk_wallet (touched i P f w)" if "w \<in> set (wd_wallets d)" for w
      using that True own other [OF that] assms(2) by (cases "w = x") (auto simp: wallets_unique_def)
    moreover have "map wt_id ?t = map wt_id (wd_wallets d)" using assms(3) by (simp add: touched_def)
    ultimately show ?thesis using assms(2) unfolding d' wallets_unique_def by (metis (no_types, lifting) imageE list.set_map)
  qed
qed

lemma wallets_unique_append:
  assumes "wallets_unique t" "chk_wallet r" "wt_id r \<notin> wt_id ` set t" "\<forall>w \<in> set t. \<not> clash w r"
  shows "wallets_unique (t @ [r])"
proof -
  have "\<not> clash r w" if "w \<in> set t" for w using assms(4) that clash_sym by blast
  moreover have "\<not> clash r r" by (simp add: clash_def)
  ultimately show ?thesis using assms by (simp add: wallets_unique_def)
qed

lemma insert_wallet_unique:
  assumes "insert_wallet r d = (x, d')" "wallets_unique (wd_wallets d)" "wt_id r \<notin> wt_id ` set (wd_wallets d)"
  shows "wallets_unique (wd_wallets d')"
  using assms(1)
proof (cases rule: insert_wallet_cases)
  case stored
  then show ?thesis using wallets_unique_append assms(2,3) by simp
qed (use assms(2) in simp)

section \<open>Transactions as state transformers\<close>

definition keeps :: "('d \<Rightarrow> bool) \<Rightarrow> ('d \<Rightarrow> 'r \<times> 'd) \<Rightarrow> bool" where
  "keeps I m \<longleftrightarrow> (\<forall>d r d'. I d \<longrightarrow> m d = (r, d') \<longrightarrow> I d')"

named_theorems keeps_intros \<open>what keeps an invariant\<close>

lemma keepsD: "keeps I m \<Longrightarrow> I d \<Longrightarrow> m d = (r, d') \<Longrightarrow> I d'"
  unfolding keeps_def by blast

lemma keeps_pure [keeps_intros]: "keeps I (\<lambda>d. (r, d))" "keeps I (Pair r)"
  by (simp_all add: keeps_def)

lemma keeps_andThen [keeps_intros]: "keeps I m \<Longrightarrow> (\<And>x. keeps I (f x)) \<Longrightarrow> keeps I (andThen m f)"
proof -
  assume m: "keeps I m" and f: "\<And>x. keeps I (f x)"
  have "I d'" if d: "I d" and r: "andThen m f d = (r, d')" for d r d'
  proof (cases "m d")
    case (Pair x d1)
    then have "I d1" using m d by (rule keepsD [rotated 2])
    then show ?thesis using r Pair keepsD [OF f] by (cases x) (auto simp: andThen_def)
  qed
  then show ?thesis unfolding keeps_def by blast
qed

lemma keeps_run_txn [keeps_intros]: "keeps I m \<Longrightarrow> keeps I (run_txn m)"
proof -
  assume m: "keeps I m"
  have "I d'" if d: "I d" and r: "run_txn m d = (r, d')" for d r d'
  proof (cases "m d")
    case (Pair x d1)
    then have "I d1" using m d by (rule keepsD [rotated 2])
    then show ?thesis using r Pair d by (cases x) (auto simp: run_txn_def)
  qed
  then show ?thesis unfolding keeps_def by blast
qed

lemma wd_record_sel [simp]: "wd_wallets (wd_record e d) = wd_wallets d" "wd_users (wd_record e d) = wd_users d"
  "wd_credentials (wd_record e d) = wd_credentials d"
  by (simp_all add: wd_record_def)

lemma primary_changed_sel [simp]: "wd_wallets (primary_changed u i d) = wd_wallets d"
  by (simp add: primary_changed_def)

lemma consume_sel [simp]:
  "wd_wallets (snd (consumeByTxHash now h d)) = wd_wallets d" "wd_wallets (snd (consumeByChallenge now c d)) = wd_wallets d"
  by (simp_all add: consumeByTxHash_def consumeByChallenge_def split: prod.splits)

abbreviation "unique_in d \<equiv> wallets_unique (wd_wallets d)"

lemma keeps_update [keeps_intros]: "(\<And>w. wt_id (f w) = wt_id w) \<Longrightarrow> keeps unique_in (update_wallet i P f)"
  unfolding keeps_def using update_wallet_unique by blast

lemma keeps_flag [keeps_intros]: "keeps unique_in (set_primary_flag i v P)"
  "keeps unique_in (softDeleteWallet now i)" "keeps unique_in (markExported now i)"
  unfolding set_primary_flag_def softDeleteWallet_def markExported_def by (rule keeps_update, simp)+

lemma keeps_note [keeps_intros]: "keeps unique_in (\<lambda>d. (r, primary_changed u i d))"
  "keeps unique_in (\<lambda>d. (r, if b then primary_changed u i d else d))"
  by (simp_all add: keeps_def)

lemma keeps_reactivate [keeps_intros]: "keeps unique_in (reactivateRow w p)"
  unfolding reactivateRow_def by (intro keeps_intros) simp_all

lemma keeps_setPrimary: "keeps unique_in (setPrimary_txn u i a s)"
proof -
  have "keeps unique_in (promoted u i x n)" for x n by (simp add: keeps_def promoted_def)
  moreover have "keeps unique_in (demoteCurrent u s)"
    by (auto simp: demoteCurrent_def intro: keeps_intros split: option.split)
  ultimately show ?thesis by (auto simp: setPrimary_txn_def intro!: keeps_intros split: option.split)
qed

lemma keeps_remove: "keeps unique_in (remove_txn now u i a s)"
proof -
  have "keeps unique_in (removed_after now u i x n)" for x n
    by (auto simp: removed_after_def intro!: keeps_intros)
  then show ?thesis by (auto simp: remove_txn_def intro!: keeps_intros split: option.split)
qed

text \<open>The transactions that insert, with a fresh id.\<close>

lemma stored_then:
  assumes "andThen (insert_wallet r) (\<lambda>_ d. (Inr x, note d)) d = (y, d')" "unique_in d" "wt_id r \<notin> wt_id ` set (wd_wallets d)"
    "\<And>d. wd_wallets (note d) = wd_wallets d"
  shows "unique_in d'"
proof (cases "insert_wallet r d")
  case (Pair z d1)
  then have "unique_in d1" using insert_wallet_unique assms(2,3) by blast
  then show ?thesis using assms(1,4) Pair by (cases z) (auto simp: andThen_def)
qed

lemma bind_unique:
  assumes "bind_txn now h i u k a s d = (r, d')" "unique_in d" "i \<notin> wt_id ` set (wd_wallets d)"
  shows "unique_in d'"
proof -
  obtain won d1 where c: "consumeByTxHash now h d = (won, d1)" by fastforce
  then have w: "wd_wallets d1 = wd_wallets d" using consume_sel(1) by (metis snd_conv)
  then have u1: "unique_in d1" "i \<notin> wt_id ` set (wd_wallets d1)" using assms(2,3) by simp_all
  have new: "unique_in d'" if "andThen (insert_wallet (byow_row now i u k p))
      (\<lambda>_ d'. (Inr (byow_row now i u k p), if p then primary_changed u i d' else d')) d1 = (r, d')" for p
    by (rule stored_then [OF that u1(1)]) (use u1(2) in \<open>simp_all add: byow_row_def\<close>)
  have old: "unique_in d'" if "reactivateRow x p d1 = (r, d')" for x p
    using keepsD [OF keeps_reactivate u1(1) that] .
  show ?thesis using assms(1) u1(1) new old unfolding bind_txn_def c
    by (auto simp: Let_def split: bool.splits if_splits option.splits)
qed

lemma new_user_unique:
  assumes "createWalletUser_txn now u i k d = (r, d')" "unique_in d" "i \<notin> wt_id ` set (wd_wallets d)"
  shows "unique_in d'"
  by (rule stored_then [OF assms(1) [unfolded createWalletUser_txn_def]])
    (use assms(2,3) in \<open>simp_all add: byow_row_def\<close>)

text \<open>What a transaction does to the wallets when it creates the embedded wallet.\<close>

lemma embedded_cases:
  assumes "run_txn (embedded_txn now u i c input) d = (r, d')"
  obtains (refused) "d' = d"
  | (stored) "wd_wallets d' = wd_wallets d @ [embedded_row now i u (pi_contract input)]"
      "\<forall>w \<in> set (wd_wallets d). \<not> clash w (embedded_row now i u (pi_contract input))"
proof (cases r)
  case (Inl e)
  then have "d' = d" using assms run_txn_rollback [of "embedded_txn now u i c input" d e] by simp
  then show thesis by (rule refused)
next
  case (Inr w)
  then have t: "embedded_txn now u i c input d = (Inr w, d')" using assms by (simp add: run_txn_commit)
  obtain d1 where c: "consumeByChallenge now c d = (True, d1)"
    using t by (cases "consumeByChallenge now c d") (auto simp: embedded_txn_def split: bool.splits)
  have w1: "wd_wallets d1 = wd_wallets d" using consume_sel(2) c by (metis snd_conv)
  obtain d2 where u: "insert_passkey_user u (pi_email input) d1 = (Inr (), d2)"
    using t c by (auto simp: embedded_txn_def andThen_def split: prod.splits sum.splits)
  then have w2: "wd_wallets d2 = wd_wallets d" using w1 by (auto simp: insert_passkey_user_def split: if_splits)
  obtain z d3 where i: "insert_wallet (embedded_row now i u (pi_contract input)) d2 = (z, d3)" by fastforce
  have z: "z = Inr ()" using t c u i by (cases z) (auto simp: embedded_txn_def andThen_def)
  obtain y d4 where cr: "insert_credential (credential_of input i) d3 = (y, d4)" by fastforce
  have "wd_wallets d' = wd_wallets d4" using t c u i z cr by (cases y) (auto simp: embedded_txn_def andThen_def)
  moreover have "wd_wallets d4 = wd_wallets d3" using cr by (auto simp: insert_credential_def split: if_splits)
  ultimately show thesis using i z w2 stored by (auto elim: insert_wallet_cases)
qed

section \<open>The machine\<close>

text \<open>
  A step is one transaction, or one handler of \<open>runWithPrimaryContention\<close> with both its attempts;
  its effect applies to the tables of the last attempt. In a serial run no other transaction
  overlaps it, so that it reads the tables it writes.
\<close>

definition contends :: "bool \<Rightarrow> (bool \<Rightarrow> wdb \<Rightarrow> wdb \<Rightarrow> (wallet_throw + 'a) \<times> wdb) \<Rightarrow> wdb \<Rightarrow> wdb \<Rightarrow> bool" where
  "contends serial fn d d' \<longleftrightarrow> (\<exists>s1 d1 s2 d2 r. runWithPrimaryContention fn s1 d1 s2 d2 = (r, d')
     \<and> d = (if lost_primary (run_txn (fn True s1) d1) then d2 else d1)
     \<and> (serial \<longrightarrow> s1 = d \<and> d1 = d \<and> s2 = d))"

inductive wallet_step :: "bool \<Rightarrow> wdb \<Rightarrow> wdb \<Rightarrow> bool" for serial where
  reactivate: "findByPublicKey k s = None \<Longrightarrow> findAnyByPublicKey k s = Some w \<Longrightarrow> (serial \<Longrightarrow> s = d)
    \<Longrightarrow> contends serial (reactivateWalletForUser (wt_user w) w) d d' \<Longrightarrow> wallet_step serial d d'"
| new_user: "findAnyByPublicKey k s = None \<Longrightarrow> (serial \<Longrightarrow> s = d) \<Longrightarrow> i \<notin> wt_id ` set (wd_wallets d)
    \<Longrightarrow> u \<notin> wt_user ` set (wd_wallets d) \<Longrightarrow> run_txn (createWalletUser_txn now u i k) d = (r, d')
    \<Longrightarrow> wallet_step serial d d'"
| bind: "i \<notin> wt_id ` set (wd_wallets d) \<Longrightarrow> contends serial (bind_txn now h i u k) d d' \<Longrightarrow> wallet_step serial d d'"
| set_primary: "contends serial (setPrimary_txn u i) d d' \<Longrightarrow> wallet_step serial d d'"
| remove: "contends serial (remove_txn now u i) d d' \<Longrightarrow> wallet_step serial d d'"
| embedded: "i \<notin> wt_id ` set (wd_wallets d) \<Longrightarrow> u \<notin> wt_user ` set (wd_wallets d)
    \<Longrightarrow> run_txn (embedded_txn now u i c input) d = (e, d') \<Longrightarrow> wallet_step serial d d'"
| export: "w \<in> set (wd_wallets d) \<Longrightarrow> wt_kind w = WK_embedded \<Longrightarrow> markExported now (wt_id w) d = (n, d')
    \<Longrightarrow> wallet_step serial d d'"
| others: "wd_wallets d' = wd_wallets d \<Longrightarrow> wallet_step serial d d'"

lemma contendsE:
  assumes "contends serial fn d d'"
  obtains a s r where "run_txn (fn a s) d = (r, d')" "serial \<Longrightarrow> s = d"
    "serial \<Longrightarrow> a \<or> lost_primary (run_txn (fn True d) d)"
proof -
  obtain s1 d1 s2 d2 r where C: "runWithPrimaryContention fn s1 d1 s2 d2 = (r, d')"
    "d = (if lost_primary (run_txn (fn True s1) d1) then d2 else d1)" "serial \<longrightarrow> s1 = d \<and> d1 = d \<and> s2 = d"
    using assms by (auto simp: contends_def)
  show thesis
  proof (cases "lost_primary (run_txn (fn True s1) d1)")
    case True
    then have "run_txn (fn False s2) d = (r, d')" using C(1,2) by (simp add: runWithPrimaryContention_def Let_def)
    moreover have "serial \<Longrightarrow> lost_primary (run_txn (fn True d) d)" using True C(3) by auto
    ultimately show thesis using that C(3) by blast
  next
    case False
    then have "run_txn (fn True s1) d = (r, d')" using C(1,2) by (simp add: runWithPrimaryContention_def Let_def)
    then show thesis using that C(3) by blast
  qed
qed

lemma contends_keeps: "contends serial fn d d' \<Longrightarrow> (\<And>a s. keeps I (fn a s)) \<Longrightarrow> I d \<Longrightarrow> I d'"
  by (erule contendsE) (metis keepsD keeps_run_txn)

lemma run_txn_unique:
  assumes "run_txn m d = (r, d')" "unique_in d" "\<And>x d1. m d = (x, d1) \<Longrightarrow> unique_in d1"
  shows "unique_in d'"
  using assms by (cases "m d") (auto simp: run_txn_def split: sum.splits)

lemma wallet_step_unique: "wallet_step serial d d' \<Longrightarrow> unique_in d \<Longrightarrow> unique_in d'"
proof (induction rule: wallet_step.induct)
  case (reactivate k s w d d')
  show ?case by (rule contends_keeps [where I = unique_in, OF reactivate.hyps(4) _ reactivate.prems])
    (simp add: reactivateWalletForUser_def keeps_reactivate)
next
  case (new_user k s d i u now r d')
  then show ?case using run_txn_unique [OF new_user.hyps(5)] new_user_unique by blast
next
  case (bind i d now h u k d')
  from bind.hyps(2) obtain a s r where "run_txn (bind_txn now h i u k a s) d = (r, d')" by (rule contendsE)
  then show ?case using run_txn_unique bind_unique bind.hyps(1) bind.prems by blast
next
  case (set_primary u i d d')
  show ?case by (rule contends_keeps [where I = unique_in, OF set_primary.hyps keeps_setPrimary set_primary.prems])
next
  case (remove now u i d d')
  show ?case by (rule contends_keeps [where I = unique_in, OF remove.hyps keeps_remove remove.prems])
next
  case (embedded i d u now c input e d')
  from embedded.hyps(3) show ?case
  proof (cases rule: embedded_cases)
    case stored
    have "chk_wallet (embedded_row now i u (pi_contract input))" by (simp add: embedded_row_def chk_wallet_def)
    then show ?thesis using wallets_unique_append [OF embedded.prems _ _ stored(2)] embedded.hyps(1) stored(1)
      by (simp add: embedded_row_def)
  qed (use embedded.prems in simp)
next
  case (export w d now n d')
  show ?case by (rule keepsD [OF keeps_flag(3) export.prems export.hyps(3)])
qed simp

end
