(* ===== verification/Wallet_Props.thy ===== *)
theory Wallet_Props
  imports Wallet_Machine
begin

text \<open>
  When no two transactions on the wallets overlap, every user who has a live wallet has one primary
  wallet; overlapping transactions can leave a user without one.
\<close>

section \<open>Serial runs\<close>

definition served :: "wallet list \<Rightarrow> bool" where
  "served t \<longleftrightarrow> (\<forall>w \<in> set t. live w \<longrightarrow> (\<exists>p \<in> set t. live p \<and> wt_primary p \<and> wt_user p = wt_user w))"

definition keys_owned :: "wallet list \<Rightarrow> bool" where
  "keys_owned t \<longleftrightarrow> (\<forall>v \<in> set t. \<forall>w \<in> set t. wt_key v \<noteq> None \<and> wt_key v = wt_key w \<longrightarrow> wt_user v = wt_user w)"

definition exports_embedded :: "wallet list \<Rightarrow> bool" where
  "exports_embedded t \<longleftrightarrow> (\<forall>w \<in> set t. wt_status w = WS_exported \<longrightarrow> wt_kind w = WK_embedded)"

definition wallets_ok :: "wallet list \<Rightarrow> bool" where
  "wallets_ok t \<longleftrightarrow> wallets_unique t \<and> served t \<and> keys_owned t \<and> exports_embedded t"

text \<open>A rewriting of rows that keeps who they belong to.\<close>

definition same_owner :: "(wallet \<Rightarrow> wallet) \<Rightarrow> bool" where
  "same_owner g \<longleftrightarrow> (\<forall>w. wt_id (g w) = wt_id w \<and> wt_user (g w) = wt_user w \<and> wt_key (g w) = wt_key w
     \<and> wt_kind (g w) = wt_kind w)"

lemma same_owner_touched [intro]: "same_owner f \<Longrightarrow> same_owner (touched i P f)"
  by (simp add: same_owner_def touched_def)

lemma same_owner_comp [intro]: "same_owner f \<Longrightarrow> same_owner g \<Longrightarrow> same_owner (f \<circ> g)"
  by (simp add: same_owner_def)

lemma same_owner_flag [simp]: "same_owner (\<lambda>w. w\<lparr>wt_primary := v\<rparr>)" "same_owner (\<lambda>w. w\<lparr>wt_deleted := x\<rparr>)"
  "same_owner (\<lambda>w. w\<lparr>wt_status := st, wt_removed := x\<rparr>)"
  "same_owner (\<lambda>w. w\<lparr>wt_primary := v, wt_status := st, wt_removed := x, wt_deleted := y\<rparr>)" "same_owner id"
  by (simp_all add: same_owner_def)

lemma keys_owned_map: "same_owner g \<Longrightarrow> keys_owned t \<Longrightarrow> keys_owned (map g t)"
  unfolding keys_owned_def same_owner_def by simp

lemma exports_map: "same_owner g \<Longrightarrow> exports_embedded t
    \<Longrightarrow> (\<And>w. w \<in> set t \<Longrightarrow> wt_status (g w) = WS_exported \<Longrightarrow> wt_status w = WS_exported \<or> wt_kind w = WK_embedded)
    \<Longrightarrow> exports_embedded (map g t)"
  unfolding exports_embedded_def same_owner_def by auto

lemma served_map:
  assumes "same_owner g" "\<And>w. w \<in> set t \<Longrightarrow> live (g w) \<Longrightarrow> \<exists>p \<in> set t. live (g p) \<and> wt_primary (g p) \<and> wt_user p = wt_user w"
  shows "served (map g t)"
  unfolding served_def list.set_map ball_simps bex_simps using assms by (simp add: same_owner_def)

lemma andThen_Inr: "andThen m f d = (Inr y, d') \<longleftrightarrow> (\<exists>x d1. m d = (Inr x, d1) \<and> f x d1 = (Inr y, d'))"
  by (cases "m d"; cases "fst (m d)") (auto simp: andThen_def)

lemma run_txn_outcome: "run_txn m d = (r, d') \<Longrightarrow> d' = d \<or> (\<exists>x. m d = (Inr x, d'))"
  by (cases "m d"; cases "fst (m d)") (auto simp: run_txn_def)

lemma findOwned_Some: "findOwnedById i u d = Some w \<Longrightarrow> w \<in> set (wd_wallets d) \<and> wt_id w = i \<and> wt_user w = u \<and> live w"
  unfolding findOwnedById_def by (drule sql_find_Some) simp

lemma hasLivePrimary_iff: "hasLivePrimary u d \<longleftrightarrow> (\<exists>w \<in> set (wd_wallets d). wt_user w = u \<and> wt_primary w \<and> live w)"
  using sql_count_0 [of "\<lambda>w. wt_user w = u \<and> wt_primary w \<and> live w" "wd_wallets d"] unfolding hasLivePrimary_def by auto

lemma flag_Inr: "set_primary_flag i v P d = (Inr n, d')
    \<Longrightarrow> wd_wallets d' = map (touched i P (\<lambda>w. w\<lparr>wt_primary := v\<rparr>)) (wd_wallets d)
     \<and> (n = 0 \<longleftrightarrow> (\<forall>w \<in> set (wd_wallets d). \<not> (wt_id w = i \<and> P w)))"
  unfolding set_primary_flag_def by (frule update_wallet_Inr(1)) (drule update_wallet_Inr(2), simp)

lemma softDelete_Inr: "softDeleteWallet now i d = (Inr n, d')
    \<Longrightarrow> wd_wallets d' = map (touched i (\<lambda>_. True) (\<lambda>w. w\<lparr>wt_deleted := Some now\<rparr>)) (wd_wallets d)"
  unfolding softDeleteWallet_def by (frule update_wallet_Inr(1)) simp

subsection \<open>Set primary\<close>

lemma setPrimary_serial:
  assumes "setPrimary_txn u i a d d = (Inr x, d')" "wallets_ok (wd_wallets d)"
  shows "served (wd_wallets d') \<and> keys_owned (wd_wallets d') \<and> exports_embedded (wd_wallets d')"
proof -
  let ?t = "wd_wallets d"
  have ok: "wallets_unique ?t" "served ?t" "keys_owned ?t" "exports_embedded ?t" using assms(2) by (simp_all add: wallets_ok_def)
  obtain target where tg: "findOwnedById i u d = Some target"
    using assms(1) by (auto simp: setPrimary_txn_def split: option.splits)
  note T = findOwned_Some [OF tg]
  show ?thesis
  proof (cases "wt_primary target")
    case True
    then have "d' = d" using assms(1) tg by (auto simp: setPrimary_txn_def split: if_splits)
    then show ?thesis using ok by simp
  next
    case False
    obtain n1 d1 n2 d2 where S: "demoteCurrent u d d = (Inr n1, d1)" "set_primary_flag i True promotable d1 = (Inr n2, d2)"
      "promoted u i target n2 d2 = (Inr x, d')"
      using assms(1) tg False by (auto simp: setPrimary_txn_def andThen_Inr split: if_splits)
    obtain g where g: "wd_wallets d1 = map g ?t" "same_owner g" "\<And>w. live (g w) = live w" "\<And>w. wt_status (g w) = wt_status w"
      "\<And>w. w \<in> set ?t \<Longrightarrow> wt_user w \<noteq> u \<Longrightarrow> g w = w"
    proof (cases "sql_find (\<lambda>w. wt_user w = u \<and> wt_primary w \<and> live w) ?t")
      case None
      then show thesis using S(1) that [of id] by (simp add: demoteCurrent_def)
    next
      case (Some c)
      note C = sql_find_Some [OF Some]
      let ?g = "touched (wt_id c) (\<lambda>_. True) (\<lambda>w. w\<lparr>wt_primary := False\<rparr>)"
      have "wd_wallets d1 = map ?g ?t" using S(1) Some flag_Inr by (simp add: demoteCurrent_def)
      moreover have "?g w = w" if "w \<in> set ?t" "wt_user w \<noteq> u" for w
        using that C unique_row [OF ok(1), of w c] by (auto simp: touched_def)
      moreover have "live (?g w) = live w" "wt_status (?g w) = wt_status w" for w by (simp_all add: touched_def live_def)
      ultimately show thesis using that [of ?g] by (simp add: same_owner_touched)
    qed
    let ?h = "touched i promotable (\<lambda>w. w\<lparr>wt_primary := True\<rparr>)"
    have "n2 \<noteq> 0" "wd_wallets d' = wd_wallets d2" using S(3) by (auto simp: promoted_def split: if_splits)
    then have d': "wd_wallets d' = map (?h \<circ> g) ?t" using flag_Inr [OF S(2)] g(1) by simp
    have hit: "\<exists>w \<in> set ?t. wt_id (g w) = i \<and> promotable (g w)"
      using flag_Inr [OF S(2)] \<open>n2 \<noteq> 0\<close> unfolding g(1) by simp
    from hit obtain w where "w \<in> set ?t" "wt_id (g w) = i" "promotable (g w)" by blast
    moreover from this have "w = target" using g(2) T unique_row [OF ok(1)] by (simp add: same_owner_def)
    ultimately have pt: "promotable (g target)" "wt_id (g target) = i" by simp_all
    define k where "k = ?h \<circ> g"
    have so: "same_owner k" using g(2) unfolding k_def by (simp add: same_owner_comp same_owner_touched)
    have lh: "live (k w) = live w" "wt_status (k w) = wt_status w" for w
      unfolding k_def using g(3,4) by (simp_all add: touched_def live_def)
    have "served (map k ?t)"
    proof (rule served_map [OF so])
      fix w assume w: "w \<in> set ?t" "live (k w)"
      show "\<exists>p \<in> set ?t. live (k p) \<and> wt_primary (k p) \<and> wt_user p = wt_user w"
      proof (cases "wt_user w = u")
        case True
        have "wt_primary (k target)" using pt by (simp add: touched_def k_def)
        then show ?thesis by (intro bexI [of _ target]) (use T True in \<open>simp_all add: lh\<close>)
      next
        case False
        obtain p where p: "p \<in> set ?t" "live p" "wt_primary p" "wt_user p = wt_user w"
          using ok(2) w unfolding served_def lh by blast
        have "g p = p" using g(5) p False by simp
        then have "wt_primary (k p)" using p by (simp add: touched_def k_def)
        then show ?thesis by (intro bexI [of _ p]) (use p in \<open>simp_all add: lh\<close>)
      qed
    qed
    moreover have "exports_embedded (map k ?t)" by (rule exports_map [OF so ok(4)]) (simp add: lh)
    ultimately show ?thesis using keys_owned_map [OF so ok(3)] by (simp only: d' k_def)
  qed
qed

subsection \<open>Remove\<close>

lemma sorted_first: "(case sort_key k xs of [] \<Rightarrow> None | w # _ \<Rightarrow> Some w) = Some w \<Longrightarrow> w \<in> set xs"
  by (metis (no_types, lifting) list.case_eq_if list.set_sel(1) option.distinct(1) option.inject set_sort list.collapse)

lemma oldestSibling_Some: "oldestSibling u i d = Some w \<Longrightarrow> w \<in> set (wd_wallets d) \<and> wt_user w = u \<and> wt_kind w = WK_byow
    \<and> wt_status w = WS_active \<and> wt_id w \<noteq> i \<and> live w"
  unfolding oldestSibling_def by (drule sorted_first) simp

lemma remove_cases:
  assumes "remove_txn now u i a s d = (Inr x, d')"
  obtains (plain) w where "findOwnedById i u s = Some w" "\<not> wt_primary w"
    "wd_wallets d' = map (touched i (\<lambda>_. True) (\<lambda>w. w\<lparr>wt_deleted := Some now\<rparr>)) (wd_wallets d)"
  | (handed) w b t1 where "findOwnedById i u s = Some w" "oldestSibling u i s = Some b"
    "t1 = map (touched i (\<lambda>_. True) (\<lambda>w. w\<lparr>wt_primary := False\<rparr>)) (wd_wallets d)"
    "\<exists>v \<in> set t1. wt_id v = wt_id b \<and> promotable v"
    "wd_wallets d' = map (touched i (\<lambda>_. True) (\<lambda>w. w\<lparr>wt_deleted := Some now\<rparr>)
       \<circ> touched (wt_id b) promotable (\<lambda>w. w\<lparr>wt_primary := True\<rparr>)) t1"
proof -
  obtain w where w: "findOwnedById i u s = Some w" "wt_kind w = WK_byow"
    using assms by (auto simp: remove_txn_def split: option.splits if_splits)
  show thesis
  proof (cases "wt_primary w")
    case False
    then obtain n where "softDeleteWallet now i d = (Inr n, d')"
      using assms w by (auto simp: remove_txn_def andThen_Inr)
    then show thesis using plain [OF w(1) False] softDelete_Inr by blast
  next
    case True
    then obtain b where b: "oldestSibling u i s = Some b" using assms w by (auto simp: remove_txn_def split: option.splits)
    obtain n1 d1 n2 d2 where S: "set_primary_flag i False (\<lambda>_. True) d = (Inr n1, d1)"
      "set_primary_flag (wt_id b) True promotable d1 = (Inr n2, d2)" "removed_after now u i b n2 d2 = (Inr x, d')"
      using assms w True b by (auto simp: remove_txn_def andThen_Inr)
    obtain n3 d3 where D: "n2 \<noteq> 0" "softDeleteWallet now i d2 = (Inr n3, d3)" "wd_wallets d' = wd_wallets d3"
      using S(3) by (auto simp: removed_after_def andThen_Inr split: if_splits)
    show thesis
      by (rule handed [OF w(1) b, of "wd_wallets d1"])
        (use flag_Inr [OF S(1)] flag_Inr [OF S(2)] softDelete_Inr [OF D(2)] D(1,3) in auto)
  qed
qed

lemma remove_serial:
  assumes "remove_txn now u i a d d = (Inr x, d')" "wallets_ok (wd_wallets d)"
  shows "served (wd_wallets d') \<and> keys_owned (wd_wallets d') \<and> exports_embedded (wd_wallets d')"
proof -
  let ?t = "wd_wallets d"
  have ok: "wallets_unique ?t" "served ?t" "keys_owned ?t" "exports_embedded ?t" using assms(2) by (simp_all add: wallets_ok_def)
  have wrap: ?thesis if d': "wd_wallets d' = map k ?t" and so: "same_owner k" and st: "\<And>w. wt_status (k w) = wt_status w"
    and sv: "\<And>w. w \<in> set ?t \<Longrightarrow> live (k w) \<Longrightarrow> \<exists>p \<in> set ?t. live (k p) \<and> wt_primary (k p) \<and> wt_user p = wt_user w" for k
  proof -
    have "exports_embedded (map k ?t)" by (rule exports_map [OF so ok(4)]) (simp add: st)
    then show ?thesis using served_map [OF so sv] keys_owned_map [OF so ok(3)] by (simp only: d')
  qed
  from assms(1) show ?thesis
  proof (cases rule: remove_cases)
    case (plain w)
    note W = findOwned_Some [OF plain(1)]
    define k where "k = touched i (\<lambda>_. True) (\<lambda>w. w\<lparr>wt_deleted := Some now\<rparr>)"
    have stay: "k v = v" if "wt_id v \<noteq> i" for v using that by (simp add: k_def touched_def)
    have gone: "\<not> live (k v)" if "wt_id v = i" for v using that by (simp add: k_def touched_def live_def)
    show ?thesis
    proof (rule wrap [of k])
      fix v assume v: "v \<in> set ?t" "live (k v)"
      then have "wt_id v \<noteq> i" using gone by blast
      then have "live v" using v(2) stay by simp
      then obtain p where p: "p \<in> set ?t" "live p" "wt_primary p" "wt_user p = wt_user v"
        using ok(2) v(1) unfolding served_def by blast
      have "wt_id p \<noteq> i" using p W plain(2) unique_row [OF ok(1), of p w] by auto
      then have "k p = p" by (rule stay)
      then show "\<exists>p \<in> set ?t. live (k p) \<and> wt_primary (k p) \<and> wt_user p = wt_user v"
        by (intro bexI [of _ p]) (use p in simp_all)
    qed (use plain(3) in \<open>simp_all add: k_def touched_def same_owner_touched\<close>)
  next
    case (handed w b t1)
    note W = findOwned_Some [OF handed(1)] and B = oldestSibling_Some [OF handed(2)]
    let ?del = "touched i (\<lambda>_. True) (\<lambda>w. w\<lparr>wt_deleted := Some now\<rparr>)"
    let ?pro = "touched (wt_id b) promotable (\<lambda>w. w\<lparr>wt_primary := True\<rparr>)"
    let ?dem = "touched i (\<lambda>_. True) (\<lambda>w. w\<lparr>wt_primary := False\<rparr>)"
    define k where "k = ?del \<circ> ?pro \<circ> ?dem"
    have stay: "k v = v" if "wt_id v \<noteq> i" "wt_id v \<noteq> wt_id b" for v using that by (simp add: k_def touched_def)
    have gone: "\<not> live (k v)" if "wt_id v = i" for v using that by (simp add: k_def touched_def live_def)
    have kb: "live (k b)" "wt_primary (k b)" using B by (auto simp: k_def touched_def promotable_def live_def)
    have lv: "live (k v) \<Longrightarrow> live v" for v by (auto simp: k_def touched_def live_def split: if_splits)
    show ?thesis
    proof (rule wrap [of k])
      fix v assume v: "v \<in> set ?t" "live (k v)"
      show "\<exists>p \<in> set ?t. live (k p) \<and> wt_primary (k p) \<and> wt_user p = wt_user v"
      proof (cases "wt_user v = u")
        case True
        then show ?thesis by (intro bexI [of _ b]) (use kb B in simp_all)
      next
        case False
        obtain p where p: "p \<in> set ?t" "live p" "wt_primary p" "wt_user p = wt_user v"
          using ok(2) v(1) lv [OF v(2)] unfolding served_def by blast
        have "wt_id p \<noteq> i" "wt_id p \<noteq> wt_id b"
          using p W B False unique_row [OF ok(1), of p w] unique_row [OF ok(1), of p b] by auto
        then have "k p = p" by (rule stay)
        then show ?thesis by (intro bexI [of _ p]) (use p in simp_all)
      qed
    qed (use handed(3,5) in \<open>simp_all add: k_def touched_def same_owner_touched same_owner_comp\<close>)
  qed
qed

subsection \<open>Bind and reactivate\<close>

lemma uq_primary: "uq_wallets t r = Some UQ_primary \<Longrightarrow> wt_primary r \<and> (\<exists>w \<in> set t. live w \<and> wt_user w = wt_user r \<and> wt_primary w)"
  unfolding uq_wallets_def Let_def by (auto simp: list_ex_iff split: if_splits)

lemma primary_refused:
  "fst (insert_wallet r d) = Inl (UniqueViolation UQ_primary) \<Longrightarrow> wt_primary r \<and> hasLivePrimary (wt_user r) d"
  "fst (update_wallet i P f d) = Inl (UniqueViolation UQ_primary)
     \<Longrightarrow> \<exists>w \<in> set (wd_wallets d). wt_id w = i \<and> wt_primary (f w) \<and> hasLivePrimary (wt_user (f w)) d"
  unfolding hasLivePrimary_iff
  by (auto simp: insert_wallet_def update_wallet_def dest!: uq_primary find_in_set split: if_splits option.splits)

lemma consume_live [simp]: "hasLivePrimary v (snd (consumeByTxHash now h d)) = hasLivePrimary v d"
  by (simp add: hasLivePrimary_def)

lemma reactivate_not_lost:
  assumes "w \<in> set (wd_wallets d)" "wallets_unique (wd_wallets d)" "hasLivePrimary (wt_user w) d \<longrightarrow> \<not> p"
  shows "fst (reactivateRow w p d) \<noteq> Inl (UniqueViolation UQ_primary)"
proof
  let ?f = "\<lambda>r. r\<lparr>wt_primary := p, wt_status := WS_active, wt_removed := None, wt_deleted := None\<rparr>"
  assume "fst (reactivateRow w p d) = Inl (UniqueViolation UQ_primary)"
  then have "fst (update_wallet (wt_id w) (\<lambda>_. True) ?f d) = Inl (UniqueViolation UQ_primary)"
    by (auto simp: reactivateRow_def andThen_def split: prod.splits sum.splits)
  from primary_refused(2) [OF this] obtain v where "v \<in> set (wd_wallets d)" "wt_id v = wt_id w" "p" "hasLivePrimary (wt_user v) d"
    by auto
  moreover from this(1,2) have "v = w" using unique_row [OF assms(2)] assms(1) by blast
  ultimately show False using assms(3) by blast
qed

lemma bind_not_lost:
  assumes "wallets_unique (wd_wallets d)"
  shows "\<not> lost_primary (run_txn (bind_txn now h i u k True d) d)"
proof
  assume "lost_primary (run_txn (bind_txn now h i u k True d) d)"
  then have L: "fst (bind_txn now h i u k True d d) = Inl (UniqueViolation UQ_primary)"
    by (auto simp: lost_primary_def run_txn_def split: prod.splits sum.splits)
  obtain won d1 where c: "consumeByTxHash now h d = (won, d1)" by fastforce
  then have d1: "wd_wallets d1 = wd_wallets d" using consume_sel(1) by (metis snd_conv)
  have live1: "hasLivePrimary v d1 = hasLivePrimary v d" for v by (simp add: hasLivePrimary_def d1)
  let ?own = "sql_find (\<lambda>w. wt_key w = Some k \<and> wt_user w = u) (wd_wallets d)"
  have won: "won" using L unfolding bind_txn_def c by (cases won) simp_all
  show False
  proof (cases ?own)
    case None
    let ?r = "byow_row now i u k (\<not> hasLivePrimary u d)"
    have "fst (insert_wallet ?r d1) = Inl (UniqueViolation UQ_primary)"
      using L won None unfolding bind_txn_def c by (auto simp: Let_def andThen_def split: if_splits prod.splits sum.splits)
    from primary_refused(1) [OF this] show False by (simp add: byow_row_def live1)
  next
    case (Some w)
    note W = sql_find_Some [OF Some]
    have "fst (reactivateRow w (\<not> hasLivePrimary u d) d1) = Inl (UniqueViolation UQ_primary)"
      using L won Some unfolding bind_txn_def c by (auto simp: Let_def split: if_splits)
    moreover have "fst (reactivateRow w (\<not> hasLivePrimary u d) d1) \<noteq> Inl (UniqueViolation UQ_primary)"
      by (rule reactivate_not_lost) (use W assms in \<open>simp_all add: d1 live1\<close>)
    ultimately show False by blast
  qed
qed

lemma reactivate_serial:
  assumes "reactivateRow w p d1 = (Inr x, d')" "wallets_ok (wd_wallets d1)" "w \<in> set (wd_wallets d1)" "\<not> live w"
    "p \<or> hasLivePrimary (wt_user w) d1"
  shows "served (wd_wallets d') \<and> keys_owned (wd_wallets d') \<and> exports_embedded (wd_wallets d')"
proof -
  let ?t = "wd_wallets d1"
  have ok: "wallets_unique ?t" "served ?t" "keys_owned ?t" "exports_embedded ?t" using assms(2) by (simp_all add: wallets_ok_def)
  define k where "k = touched (wt_id w) (\<lambda>_. True)
    (\<lambda>r. r\<lparr>wt_primary := p, wt_status := WS_active, wt_removed := None, wt_deleted := None\<rparr>)"
  have d': "wd_wallets d' = map k ?t"
    using assms(1) update_wallet_Inr(1) by (fastforce simp: reactivateRow_def andThen_Inr k_def)
  have so: "same_owner k" by (simp add: k_def same_owner_touched)
  have kw: "live (k w)" "wt_primary (k w) = p" by (simp_all add: k_def touched_def live_def)
  have stay: "k v = v" if "v \<in> set ?t" "v \<noteq> w" for v
    using that unique_row [OF ok(1) that(1) assms(3)] by (auto simp: k_def touched_def)
  have old: "\<exists>q \<in> set ?t. live (k q) \<and> wt_primary (k q) \<and> wt_user q = y"
    if q: "q \<in> set ?t" "live q" "wt_primary q" "wt_user q = y" for q y
  proof -
    have "k q = q" using stay [OF q(1)] q(2) assms(4) by blast
    then show ?thesis by (intro bexI [of _ q]) (use q in simp_all)
  qed
  have "served (map k ?t)"
  proof (rule served_map [OF so])
    fix v assume v: "v \<in> set ?t" "live (k v)"
    show "\<exists>q \<in> set ?t. live (k q) \<and> wt_primary (k q) \<and> wt_user q = wt_user v"
    proof (cases "v = w")
      case vw: True
      show ?thesis
      proof (cases p)
        case True
        then show ?thesis by (intro bexI [of _ w]) (use kw vw assms(3) in simp_all)
      next
        case False
        then obtain q where "q \<in> set ?t" "wt_user q = wt_user w" "wt_primary q" "live q"
          using assms(5) unfolding hasLivePrimary_iff by blast
        then show ?thesis using old vw by blast
      qed
    next
      case False
      then have "live v" using v stay by simp
      then obtain q where "q \<in> set ?t" "live q" "wt_primary q" "wt_user q = wt_user v"
        using ok(2) v(1) unfolding served_def by blast
      then show ?thesis by (rule old)
    qed
  qed
  moreover have "exports_embedded (map k ?t)"
    by (rule exports_map [OF so ok(4)]) (simp add: k_def touched_def split: if_splits)
  ultimately show ?thesis using keys_owned_map [OF so ok(3)] by (simp only: d')
qed

lemma append_serial:
  assumes "wallets_ok t" "wt_primary r \<or> (\<exists>p \<in> set t. live p \<and> wt_primary p \<and> wt_user p = wt_user r)" "live r"
    "\<And>w. w \<in> set t \<Longrightarrow> wt_key w = wt_key r \<Longrightarrow> wt_key r \<noteq> None \<Longrightarrow> wt_user w = wt_user r" "wt_status r = WS_active"
  shows "served (t @ [r]) \<and> keys_owned (t @ [r]) \<and> exports_embedded (t @ [r])"
proof (intro conjI)
  show "served (t @ [r])" using assms(1-3) unfolding wallets_ok_def served_def by auto
  show "keys_owned (t @ [r])"
    unfolding keys_owned_def
  proof (intro ballI impI)
    fix v w assume "v \<in> set (t @ [r])" "w \<in> set (t @ [r])" "wt_key v \<noteq> None \<and> wt_key v = wt_key w"
    then consider "v \<in> set t" "w \<in> set t" | "v \<in> set t" "w = r" | "v = r" "w \<in> set t" | "v = r" "w = r" by auto
    then show "wt_user v = wt_user w"
    proof cases
      case 1
      then show ?thesis using \<open>wt_key v \<noteq> None \<and> wt_key v = wt_key w\<close> assms(1) unfolding wallets_ok_def keys_owned_def by blast
    next
      case 3
      then have "wt_key w = wt_key r" "wt_key r \<noteq> None" using \<open>wt_key v \<noteq> None \<and> wt_key v = wt_key w\<close> by metis+
      then have "wt_user w = wt_user r" by (rule assms(4) [OF 3(2)])
      then show ?thesis using 3 by simp
    next
      case 2
      then have "wt_key v = wt_key r" "wt_key r \<noteq> None" using \<open>wt_key v \<noteq> None \<and> wt_key v = wt_key w\<close> by metis+
      then have "wt_user v = wt_user r" by (rule assms(4) [OF 2(1)])
      then show ?thesis using 2 by simp
    qed simp
  qed
  show "exports_embedded (t @ [r])" using assms(1,5) by (auto simp: wallets_ok_def exports_embedded_def)
qed

lemma bind_serial:
  assumes "bind_txn now h i u k True d d = (Inr x, d')" "wallets_ok (wd_wallets d)"
  shows "served (wd_wallets d') \<and> keys_owned (wd_wallets d') \<and> exports_embedded (wd_wallets d')"
proof -
  obtain d1 where c: "consumeByTxHash now h d = (True, d1)"
    using assms(1) by (cases "consumeByTxHash now h d") (auto simp: bind_txn_def split: bool.splits)
  then have d1: "wd_wallets d1 = wd_wallets d" using consume_sel(1) by (metis snd_conv)
  have live1: "hasLivePrimary v d1 = hasLivePrimary v d" for v by (simp add: hasLivePrimary_def d1)
  have own: "wt_user w = u" if "w \<in> set (wd_wallets d)" "wt_key w = Some k" for w
    using assms(1) that unfolding bind_txn_def c by (auto split: if_splits)
  let ?own = "sql_find (\<lambda>w. wt_key w = Some k \<and> wt_user w = u) (wd_wallets d)"
  show ?thesis
  proof (cases ?own)
    case None
    let ?r = "byow_row now i u k (\<not> hasLivePrimary u d)"
    obtain z d2 where i: "insert_wallet ?r d1 = (z, d2)" by fastforce
    have "z = Inr ()" "wd_wallets d' = wd_wallets d2"
      using assms(1) None i unfolding bind_txn_def c by (auto simp: Let_def andThen_def split: if_splits sum.splits)
    with i have "wd_wallets d' = wd_wallets d @ [?r]" by (auto simp: d1 elim: insert_wallet_cases)
    moreover have "served (wd_wallets d @ [?r]) \<and> keys_owned (wd_wallets d @ [?r]) \<and> exports_embedded (wd_wallets d @ [?r])"
      by (rule append_serial [OF assms(2)]) (use own in \<open>auto simp: byow_row_def hasLivePrimary_iff live_def\<close>)
    ultimately show ?thesis by simp
  next
    case (Some w)
    note W = sql_find_Some [OF Some]
    show ?thesis
    proof (cases "live w")
      case True
      then have "d' = d1" using assms(1) Some unfolding bind_txn_def c by (auto simp: Let_def split: if_splits)
      then show ?thesis using assms(2) by (simp add: d1 wallets_ok_def)
    next
      case False
      then have "reactivateRow w (\<not> hasLivePrimary u d) d1 = (Inr x, d')"
        using assms(1) Some unfolding bind_txn_def c by (auto simp: Let_def split: if_splits)
      then show ?thesis by (rule reactivate_serial) (use assms(2) W False in \<open>simp_all add: d1 live1\<close>)
    qed
  qed
qed

subsection \<open>Every serial step\<close>

lemma serial_contends:
  assumes "contends True fn d d'" "wallets_ok (wd_wallets d)"
    "\<And>a x. a \<or> lost_primary (run_txn (fn True d) d) \<Longrightarrow> fn a d d = (Inr x, d')
       \<Longrightarrow> served (wd_wallets d') \<and> keys_owned (wd_wallets d') \<and> exports_embedded (wd_wallets d')"
  shows "served (wd_wallets d') \<and> keys_owned (wd_wallets d') \<and> exports_embedded (wd_wallets d')"
proof -
  obtain a s r where C: "run_txn (fn a s) d = (r, d')" "s = d" "a \<or> lost_primary (run_txn (fn True d) d)"
    using assms(1) by (rule contendsE) simp
  from run_txn_outcome [OF C(1)] show ?thesis
    using assms(2,3) C(2,3) by (auto simp: wallets_ok_def)
qed

lemma wallet_step_serial:
  assumes "wallet_step True d d'" "wallets_ok (wd_wallets d)"
  shows "wallets_ok (wd_wallets d')"
proof -
  have ok: "wallets_unique (wd_wallets d)" "served (wd_wallets d)" "keys_owned (wd_wallets d)" "exports_embedded (wd_wallets d)"
    using assms(2) by (simp_all add: wallets_ok_def)
  from assms(1) have "served (wd_wallets d') \<and> keys_owned (wd_wallets d') \<and> exports_embedded (wd_wallets d')"
  proof (cases rule: wallet_step.cases)
    case (reactivate k s w)
    have s: "s = d" using reactivate(3) by simp
    have w: "w \<in> set (wd_wallets d)" "wt_key w = Some k"
      using sql_find_Some [OF reactivate(2) [unfolded findAnyByPublicKey_def]] by (simp_all add: s)
    have dead: "\<not> live w" using reactivate(1) w by (auto simp: s findByPublicKey_def sql_find_None)
    have kept: "\<not> lost_primary (run_txn (reactivateWalletForUser (wt_user w) w True d) d)"
      using reactivate_not_lost [OF w(1) ok(1), of "\<not> hasLivePrimary (wt_user w) d"]
      by (auto simp: lost_primary_def run_txn_def reactivateWalletForUser_def split: prod.splits sum.splits)
    show ?thesis
    proof (rule serial_contends [OF reactivate(4) assms(2)])
      fix a x assume "a \<or> lost_primary (run_txn (reactivateWalletForUser (wt_user w) w True d) d)"
        "reactivateWalletForUser (wt_user w) w a d d = (Inr x, d')"
      then have "reactivateRow w (\<not> hasLivePrimary (wt_user w) d) d = (Inr x, d')"
        using kept by (simp add: reactivateWalletForUser_def)
      then show "served (wd_wallets d') \<and> keys_owned (wd_wallets d') \<and> exports_embedded (wd_wallets d')"
        by (rule reactivate_serial) (use assms(2) w dead in simp_all)
    qed
  next
    case (new_user k s i u now r)
    from run_txn_outcome [OF new_user(5)] show ?thesis
    proof (elim disjE exE)
      fix x assume t: "createWalletUser_txn now u i k d = (Inr x, d')"
      let ?d = "d\<lparr>wd_users := wd_users d @ [(u, None)]\<rparr>"
      obtain z d2 where "insert_wallet (byow_row now i u k True) ?d = (z, d2)" by fastforce
      with t have "wd_wallets d' = wd_wallets d @ [byow_row now i u k True]"
        by (auto simp: createWalletUser_txn_def andThen_def elim!: insert_wallet_cases split: sum.splits)
      moreover have "wt_key w \<noteq> Some k" if "w \<in> set (wd_wallets d)" for w
        using new_user(1,2) that by (auto simp: findAnyByPublicKey_def sql_find_None)
      ultimately show ?thesis using append_serial [OF assms(2), of "byow_row now i u k True"]
        by (simp add: byow_row_def live_def)
    qed (use ok in simp)
  next
    case (bind i now h u k)
    show ?thesis
    proof (rule serial_contends [OF bind(2) assms(2)])
      fix a x assume "a \<or> lost_primary (run_txn (bind_txn now h i u k True d) d)" "bind_txn now h i u k a d d = (Inr x, d')"
      then show "served (wd_wallets d') \<and> keys_owned (wd_wallets d') \<and> exports_embedded (wd_wallets d')"
        using bind_not_lost [OF ok(1)] bind_serial [OF _ assms(2)] by auto
    qed
  next
    case (set_primary u i)
    then show ?thesis by (rule serial_contends [OF _ assms(2)]) (rule setPrimary_serial [OF _ assms(2)])
  next
    case (remove now u i)
    then show ?thesis by (rule serial_contends [OF _ assms(2)]) (rule remove_serial [OF _ assms(2)])
  next
    case (embedded i u now c input e)
    from embedded(3) show ?thesis
    proof (cases rule: embedded_cases)
      case stored
      then show ?thesis using append_serial [OF assms(2), of "embedded_row now i u (pi_contract input)"]
        by (simp add: embedded_row_def live_def)
    qed (use ok in simp)
  next
    case (export w now n)
    let ?k = "touched (wt_id w) (\<lambda>w. wt_status w = WS_active) (\<lambda>w. w\<lparr>wt_status := WS_exported, wt_removed := Some now\<rparr>)"
    have "d' = d \<or> wd_wallets d' = map ?k (wd_wallets d)"
      using export(3) update_wallet_Inl update_wallet_Inr(1) unfolding markExported_def by (cases n) fastforce+
    moreover have "served (map ?k (wd_wallets d))"
      by (rule served_map) (use ok(2) in \<open>auto simp: served_def touched_def live_def same_owner_touched split: if_splits\<close>)
    moreover have "exports_embedded (map ?k (wd_wallets d))"
      by (rule exports_map [OF _ ok(4)])
        (use export(1,2) unique_row [OF ok(1)] in \<open>auto simp: touched_def same_owner_touched split: if_splits\<close>)
    moreover have "keys_owned (map ?k (wd_wallets d))" by (rule keys_owned_map [OF _ ok(3)]) (simp add: same_owner_touched)
    ultimately show ?thesis using ok by auto
  qed (use ok in simp)
  moreover have "wallets_unique (wd_wallets d')" by (rule wallet_step_unique [OF assms(1) ok(1)])
  ultimately show ?thesis by (simp add: wallets_ok_def)
qed

section \<open>The primary wallet\<close>

lemma wallet_run_unique: "(wallet_step serial)\<^sup>*\<^sup>* d0 d \<Longrightarrow> unique_in d0 \<Longrightarrow> unique_in d"
  by (induction rule: rtranclp_induct) (auto intro: wallet_step_unique)

lemma wallet_run_serial: "(wallet_step True)\<^sup>*\<^sup>* d0 d \<Longrightarrow> wallets_ok (wd_wallets d0) \<Longrightarrow> wallets_ok (wd_wallets d)"
  by (induction rule: rtranclp_induct) (auto intro: wallet_step_serial)

lemma wallets_ok_Nil: "wallets_ok []"
  by (simp add: wallets_ok_def wallets_unique_def served_def keys_owned_def exports_embedded_def)

lemma resolvePrimary_of:
  assumes "unique_in d" "p \<in> set (wd_wallets d)" "live p" "wt_primary p"
  shows "resolvePrimarySettlementAddress (wt_user p) d = (if wt_status p = WS_active
      then (case wt_contract p of Some c \<Rightarrow> Some c | None \<Rightarrow> wt_key p) else None)"
proof -
  let ?ws = "findAllByUserId (wt_user p) d"
  have only: "w = p" if "w \<in> set ?ws" "wt_primary w" for w
  proof -
    have w: "w \<in> set (wd_wallets d)" "live w" "wt_user w = wt_user p" using that(1) by (auto simp: findAllByUserId_def)
    then have "\<not> clash w p" using assms(1,2) unfolding wallets_unique_def by blast
    then have "wt_id w = wt_id p" using w(2,3) that(2) assms(3,4) by (simp add: clash_def)
    then show ?thesis using unique_row [OF assms(1) w(1) assms(2)] by blast
  qed
  have mem: "p \<in> set ?ws" using assms(2,3) by (simp add: findAllByUserId_def)
  show ?thesis
  proof (cases "find (\<lambda>w. wt_primary w \<and> wt_status w = WS_active) ?ws")
    case None
    then have "wt_status p \<noteq> WS_active" using mem assms(4) unfolding find_None_iff by blast
    then show ?thesis using None by (simp add: resolvePrimarySettlementAddress_def)
  next
    case (Some w)
    then have "w = p" "wt_status w = WS_active" using find_in_set [OF Some] only by simp_all
    then show ?thesis using Some by (simp add: resolvePrimarySettlementAddress_def)
  qed
qed



section \<open>Overlapping transactions\<close>

lemma contends_first:
  assumes "run_txn (fn True s) d = (r, d')" "r \<noteq> Inl (UniqueViolation UQ_primary)" "serial \<longrightarrow> s = d"
  shows "contends serial fn d d'"
  unfolding contends_def
  by (rule exI [of _ s], rule exI [of _ d], rule exI [of _ d])
    (use assms in \<open>simp add: runWithPrimaryContention_def Let_def lost_primary_def\<close>)

definition wa :: "bool \<Rightarrow> wallet" where
  "wa p = byow_row 0 ''w1'' ''u'' ''G1'' p"

definition wb :: "bool \<Rightarrow> instant option \<Rightarrow> wallet" where
  "wb p x = (byow_row 1 ''w2'' ''u'' ''G2'' p)\<lparr>wt_deleted := x\<rparr>"

definition wdb_of :: "wallet list \<Rightarrow> instant option \<Rightarrow> wdb" where
  "wdb_of ws consumed = \<lparr>wd_users = if ws = [] then [] else [(''u'', None)], wd_wallets = ws, wd_credentials = [],
     wd_challenges = [\<lparr>ch_hash = ''c'', ch_key = ''G2'', ch_user = Some ''u'', ch_expires = 1000, ch_consumed = consumed\<rparr>],
     wd_passkey_challenges = [], wd_audit = []\<rparr>"

text \<open>A login, a bind, and a removal that overlaps a set-primary of the same wallet.\<close>

lemma overlap_transactions:
  "wd_wallets (snd (run_txn (createWalletUser_txn 0 ''u'' ''w1'' ''G1'') (wdb_of [] None))) = [wa True]"
  "wd_wallets (snd (run_txn (bind_txn 1 ''c'' ''w2'' ''u'' ''G2'' True (wdb_of [wa True] None)) (wdb_of [wa True] None)))
     = [wa True, wb False None]"
  "wd_wallets (snd (run_txn (setPrimary_txn ''u'' ''w2'' True (wdb_of [wa True, wb False None] (Some 1)))
     (wdb_of [wa True, wb False None] (Some 1)))) = [wa False, wb True None]"
  "wd_wallets (snd (run_txn (remove_txn 2 ''u'' ''w2'' True (wdb_of [wa True, wb False None] (Some 1)))
     (wdb_of [wa False, wb True None] (Some 1)))) = [wa False, wb True (Some 2)]"
  by code_simp+

lemma overlap_accepted:
  "isOk (fst (run_txn (bind_txn 1 ''c'' ''w2'' ''u'' ''G2'' True (wdb_of [wa True] None)) (wdb_of [wa True] None)))"
  "isOk (fst (run_txn (setPrimary_txn ''u'' ''w2'' True (wdb_of [wa True, wb False None] (Some 1)))
     (wdb_of [wa True, wb False None] (Some 1))))"
  "isOk (fst (run_txn (remove_txn 2 ''u'' ''w2'' True (wdb_of [wa True, wb False None] (Some 1)))
     (wdb_of [wa False, wb True None] (Some 1))))"
  by code_simp+

lemma contends_ok:
  assumes "isOk (fst (run_txn (fn True s) d))" "serial \<longrightarrow> s = d" "run_txn (fn True s) d = (r, d')"
  shows "contends serial fn d d'"
  by (rule contends_first [of fn s d r]) (use assms in \<open>cases r; simp\<close>)+

lemma overlap_step:
  assumes "isOk (fst (run_txn (fn True s) (wdb_of ws c)))" "serial \<longrightarrow> s = wdb_of ws c"
    "wd_wallets (snd (run_txn (fn True s) (wdb_of ws c))) = ws'"
  shows "\<exists>d'. contends serial fn (wdb_of ws c) d' \<and> wd_wallets d' = ws'"
proof -
  obtain r d' where t: "run_txn (fn True s) (wdb_of ws c) = (r, d')" by fastforce
  show ?thesis using contends_ok [of fn s "wdb_of ws c" serial r d'] assms t by auto
qed

text \<open>The tables around the wallets are as the next step needs them.\<close>

lemma wallet_step_to:
  assumes "wallet_step serial d d'" "wd_wallets d' = ws"
  shows "(wallet_step serial)\<^sup>*\<^sup>* d (wdb_of ws c)"
proof -
  have "wallet_step serial d' (wdb_of ws c)" by (rule wallet_step.others) (simp add: wdb_of_def assms(2))
  with assms(1) show ?thesis by (meson converse_rtranclp_into_rtranclp rtranclp.rtrancl_refl)
qed

lemma sample_login: "wallet_step serial (wdb_of [] None)
    (snd (run_txn (createWalletUser_txn 0 ''u'' ''w1'' ''G1'') (wdb_of [] None)))"
proof -
  obtain r d' where "run_txn (createWalletUser_txn 0 ''u'' ''w1'' ''G1'') (wdb_of [] None) = (r, d')" by fastforce
  moreover have "findAnyByPublicKey ''G1'' (wdb_of [] None) = None" by code_simp
  ultimately show ?thesis using wallet_step.new_user [of "''G1''" "wdb_of [] None" serial "wdb_of [] None" "''w1''" "''u''" 0 r d']
    by (simp add: wdb_of_def)
qed

lemma overlap_run:
  "(wallet_step False)\<^sup>*\<^sup>* (wdb_of [] None) (wdb_of [wa False, wb True (Some 2)] (Some 2))"
proof -
  let ?d1 = "wdb_of [wa True] None"
  let ?d2 = "wdb_of [wa True, wb False None] (Some 1)"
  let ?d3 = "wdb_of [wa False, wb True None] (Some 1)"
  let ?d4 = "wdb_of [wa False, wb True (Some 2)] (Some 2)"
  have s1: "(wallet_step False)\<^sup>*\<^sup>* (wdb_of [] None) ?d1"
    by (rule wallet_step_to [OF sample_login overlap_transactions(1)])
  obtain e2 where "contends False (bind_txn 1 ''c'' ''w2'' ''u'' ''G2'') ?d1 e2" "wd_wallets e2 = [wa True, wb False None]"
    using overlap_step [where serial = False and fn = "bind_txn 1 ''c'' ''w2'' ''u'' ''G2''", OF overlap_accepted(1) _ overlap_transactions(2)] by blast
  moreover have "''w2'' \<notin> wt_id ` set (wd_wallets ?d1)" by code_simp
  ultimately have s2: "(wallet_step False)\<^sup>*\<^sup>* ?d1 ?d2" by (intro wallet_step_to wallet_step.bind)
  obtain e3 where "contends False (setPrimary_txn ''u'' ''w2'') ?d2 e3" "wd_wallets e3 = [wa False, wb True None]"
    using overlap_step [where serial = False and fn = "setPrimary_txn ''u'' ''w2''", OF overlap_accepted(2) _ overlap_transactions(3)] by blast
  then have s3: "(wallet_step False)\<^sup>*\<^sup>* ?d2 ?d3" by (rule wallet_step_to [OF wallet_step.set_primary])
  obtain e4 where "contends False (remove_txn 2 ''u'' ''w2'') ?d3 e4" "wd_wallets e4 = [wa False, wb True (Some 2)]"
    using overlap_step [where serial = False and fn = "remove_txn 2 ''u'' ''w2''", OF overlap_accepted(3) _ overlap_transactions(4)] by blast
  then have s4: "(wallet_step False)\<^sup>*\<^sup>* ?d3 ?d4" by (rule wallet_step_to [OF wallet_step.remove])
  show ?thesis by (rule rtranclp_trans [OF rtranclp_trans [OF rtranclp_trans [OF s1 s2] s3] s4])
qed

text \<open>
  A user can lose the primary wallet. There is a run from an empty wallets table (a login, a
  bind, a set-primary and, overlapping it, a removal that read the wallet before it became primary)
  after which a user has a live, active wallet but no primary one, so that no address settles for
  the user.
\<close>

lemma removal_race_loses_primary:
  "\<exists>d0 d w. wd_wallets d0 = [] \<and> (wallet_step False)\<^sup>*\<^sup>* d0 d \<and> w \<in> set (wd_wallets d) \<and> live w
     \<and> wt_status w = WS_active \<and> \<not> hasLivePrimary (wt_user w) d \<and> resolvePrimarySettlementAddress (wt_user w) d = None"
proof (intro exI conjI)
  let ?d = "wdb_of [wa False, wb True (Some 2)] (Some 2)"
  show "(wallet_step False)\<^sup>*\<^sup>* (wdb_of [] None) ?d" by (rule overlap_run)
  show "wd_wallets (wdb_of [] None) = []" by (simp add: wdb_of_def)
  show "wa False \<in> set (wd_wallets ?d)" by (simp add: wdb_of_def)
  show "live (wa False)" "wt_status (wa False) = WS_active" by (simp_all add: wa_def byow_row_def live_def)
  show "\<not> hasLivePrimary (wt_user (wa False)) ?d" "resolvePrimarySettlementAddress (wt_user (wa False)) ?d = None"
    by code_simp+
qed


end
