(* ===== verification/Auth_Verify.thy ===== *)
theory Auth_Verify
  imports Relayer Soroban
begin

unbundle bit_operations_syntax

text \<open>
  The off-chain verifiers of a passkey signature (\<open>modules/relayer/passkey-authorization.ts\<close>,
  \<open>bid-authorization.ts\<close>, \<open>cancel-authorization.ts\<close>, \<open>secp256r1.ts\<close>, \<open>auth-entry-encoding.ts\<close>), run
  before the relayer sends anything. The libraries (sha-256, XDR, base64url, UTF-8 and JSON, the
  P-256 curve) are the fields of \<open>passkey_lib\<close>; the transaction is given as \<open>fromXDR\<close> decodes it.
\<close>

section \<open>Libraries\<close>

text \<open>A parsed JSON text; an object has its own properties (the parser keeps the last of equal keys).\<close>

datatype json = JNull | JBool bool | JString string | JObject "(string \<times> json) list" | JOtherValue

text \<open>A property of a value other than null; of null the read throws a \<open>TypeError\<close>.\<close>

fun js_prop :: "json \<Rightarrow> string \<Rightarrow> json option" where
  "js_prop (JObject ps) k = map_of ps k"
| "js_prop _ k = None"

record passkey_lib =
  pl_sha256 :: "bytes \<Rightarrow> bytes"
  pl_preimage :: "bytes \<Rightarrow> int \<Rightarrow> int \<Rightarrow> auth_tree \<Rightarrow> bytes"
  pl_rules :: "int list \<Rightarrow> bytes"
  pl_base64url :: "bytes \<Rightarrow> string"
  pl_json :: "bytes \<Rightarrow> json option"
  pl_fromDER :: "bytes \<Rightarrow> (int \<times> int) option"
  pl_hasHighS :: "int \<times> int \<Rightarrow> bool"
  pl_normalizeS :: "int \<times> int \<Rightarrow> int \<times> int"
  pl_compact :: "int \<times> int \<Rightarrow> bytes"
  pl_verify :: "bytes \<Rightarrow> bytes \<Rightarrow> bytes \<Rightarrow> bool"

record passkey_assertion =
  wa_rules :: "int list"
  wa_key :: bytes
  wa_auth :: bytes
  wa_client :: bytes
  wa_sig :: bytes
  wa_rp :: bytes
  wa_origins :: "string list"

definition MAX_CLIENT_DATA_JSON :: nat where
  "MAX_CLIENT_DATA_JSON = 4096"

definition FLAG_UP :: "8 word" where
  "FLAG_UP = 1"

definition FLAG_UV :: "8 word" where
  "FLAG_UV = 4"

abbreviation invalid :: relayer_throw where
  "invalid \<equiv> RelayerTransferError Signature_invalid"

section \<open>Digests and signatures\<close>

definition computeHostPayloadHash :: "passkey_lib \<Rightarrow> bytes \<Rightarrow> int \<Rightarrow> int \<Rightarrow> auth_tree \<Rightarrow> bytes" where
  "computeHostPayloadHash lib passphrase nonce expiry root =
     pl_sha256 lib (pl_preimage lib (pl_sha256 lib passphrase) nonce expiry root)"

definition computeAuthDigest :: "passkey_lib \<Rightarrow> bytes \<Rightarrow> int list \<Rightarrow> bytes" where
  "computeAuthDigest lib hostPayload rules = pl_sha256 lib (hostPayload @ pl_rules lib rules)"

definition expected_challenge :: "passkey_lib \<Rightarrow> bytes \<Rightarrow> address_creds \<Rightarrow> auth_tree \<Rightarrow> int list \<Rightarrow> string" where
  "expected_challenge lib passphrase creds root rules =
     pl_base64url lib (computeAuthDigest lib
       (computeHostPayloadHash lib passphrase (ac_nonce creds) (ac_expiry creds) root) rules)"

definition toLowSCompactSignature :: "passkey_lib \<Rightarrow> bytes \<Rightarrow> bytes option" where
  "toLowSCompactSignature lib der = map_option
     (\<lambda>sig. pl_compact lib (if pl_hasHighS lib sig then pl_normalizeS lib sig else sig)) (pl_fromDER lib der)"

definition webauthnSignedMessage :: "passkey_lib \<Rightarrow> bytes \<Rightarrow> bytes \<Rightarrow> bytes" where
  "webauthnSignedMessage lib auth client = auth @ pl_sha256 lib client"

text \<open>\<open>None\<close> is a throw.\<close>

definition verifyP256Assertion :: "passkey_lib \<Rightarrow> bytes \<Rightarrow> bytes \<Rightarrow> bytes \<Rightarrow> bytes \<Rightarrow> bool option" where
  "verifyP256Assertion lib key auth client sig =
     (if length key \<noteq> 65 \<or> key ! 0 \<noteq> 4 then None
      else if length sig \<noteq> 64 then None
      else Some (pl_verify lib sig (pl_sha256 lib (webauthnSignedMessage lib auth client)) key))"

section \<open>The assertion\<close>

definition require_present :: "passkey_assertion \<Rightarrow> relayer_throw + unit" where
  "require_present a = guardE (wa_auth a \<noteq> [] \<and> wa_client a \<noteq> [] \<and> wa_sig a \<noteq> [])
     (RelayerTransferError Signature_required)"

text \<open>Step 4: the challenge is the digest of this entry; \<open>clientData\<close> may be any JSON value.\<close>

definition verify_client_data ::
  "passkey_lib \<Rightarrow> string \<Rightarrow> passkey_assertion \<Rightarrow> relayer_throw + unit" where
  "verify_client_data lib expectedChallenge a =
     bindE (guardE (\<not> length (wa_client a) > MAX_CLIENT_DATA_JSON) invalid) (\<lambda>_.
     case pl_json lib (wa_client a) of
       None \<Rightarrow> Inl invalid
     | Some JNull \<Rightarrow> Inl UntypedError
     | Some clientData \<Rightarrow>
         bindE (guardE (js_prop clientData ''type'' = Some (JString ''webauthn.get'')) invalid) (\<lambda>_.
         bindE (guardE (js_prop clientData ''challenge'' = Some (JString expectedChallenge)) invalid) (\<lambda>_.
         bindE (guardE (js_prop clientData ''crossOrigin'' \<noteq> Some (JBool True)) invalid) (\<lambda>_.
         (case js_prop clientData ''origin'' of
            Some (JString origin) \<Rightarrow> guardE (origin \<in> set (wa_origins a)) invalid
          | _ \<Rightarrow> Inl invalid)))))"

text \<open>Step 5: the relying party, user presence and user verification.\<close>

definition verify_authenticator_data :: "passkey_lib \<Rightarrow> passkey_assertion \<Rightarrow> relayer_throw + unit" where
  "verify_authenticator_data lib a =
     bindE (guardE (\<not> length (wa_auth a) < 37) invalid) (\<lambda>_.
     bindE (guardE (take 32 (wa_auth a) = pl_sha256 lib (wa_rp a)) invalid) (\<lambda>_.
     let flags = wa_auth a ! 32 in
     bindE (guardE (flags AND FLAG_UP \<noteq> 0) invalid) (\<lambda>_.
     guardE (flags AND FLAG_UV \<noteq> 0) invalid)))"

text \<open>Step 6: the normalized signature, checked against the bound key; any throw is a refusal.\<close>

definition verify_signature :: "passkey_lib \<Rightarrow> passkey_assertion \<Rightarrow> relayer_throw + bytes" where
  "verify_signature lib a = (case toLowSCompactSignature lib (wa_sig a) of
     None \<Rightarrow> Inl invalid
   | Some sig \<Rightarrow> (case verifyP256Assertion lib (wa_key a) (wa_auth a) (wa_client a) sig of
       Some True \<Rightarrow> Inr sig
     | _ \<Rightarrow> Inl invalid))"

text \<open>Steps 4 to 6, which the three single-entry verifiers write out and the accept verifier shares.\<close>

definition verify_steps_4_to_6 ::
  "passkey_lib \<Rightarrow> bytes \<Rightarrow> address_creds \<Rightarrow> auth_tree \<Rightarrow> passkey_assertion \<Rightarrow> relayer_throw + bytes" where
  "verify_steps_4_to_6 lib passphrase creds root a =
     bindE (verify_client_data lib (expected_challenge lib passphrase creds root (wa_rules a)) a) (\<lambda>_.
     bindE (verify_authenticator_data lib a) (\<lambda>_.
     verify_signature lib a))"

section \<open>One operation, one entry\<close>

text \<open>Step 1: the host function, the entry and its address credentials.\<close>

definition single_entry ::
  "parsed_tx \<Rightarrow> ident \<Rightarrow> relayer_throw + host_function \<times> auth_entry \<times> address_creds" where
  "single_entry tx wallet = (case tx of
     TransactionOf [InvokeHostFunction func [entry]] \<Rightarrow>
       (case en_creds entry of
          SourceAccountCreds \<Rightarrow> Inl invalid
        | AddressCreds creds \<Rightarrow>
            bindE (guardE (ac_address creds = wallet) invalid) (\<lambda>_. Inr (func, entry, creds)))
   | _ \<Rightarrow> Inl invalid)"

text \<open>Step 2: the operation's invocation, which must be the one the entry authorizes.\<close>

definition bound_invocation :: "host_function \<Rightarrow> auth_tree \<Rightarrow> relayer_throw + invocation" where
  "bound_invocation func root = (case tree_fn root of
     CreateContractFn \<Rightarrow> Inl invalid
   | ContractFn authorized \<Rightarrow> (case func of
       OtherHostFunction \<Rightarrow> Inl invalid
     | InvokeContract op \<Rightarrow> bindE (guardE (op = authorized) invalid) (\<lambda>_. Inr op)))"

definition pin_target :: "invocation \<Rightarrow> string \<Rightarrow> ident \<Rightarrow> nat \<Rightarrow> relayer_throw + unit" where
  "pin_target op fn contract n =
     bindE (guardE (iv_function op = fn) invalid) (\<lambda>_.
     bindE (guardE (iv_contract op = contract) invalid) (\<lambda>_.
     guardE (length (iv_args op) = n) invalid))"

definition requireI128Equal :: "scval \<Rightarrow> int \<Rightarrow> relayer_throw + unit" where
  "requireI128Equal arg expected = (case arg of ScI128 v \<Rightarrow> guardE (v = expected) invalid | _ \<Rightarrow> Inl invalid)"

definition requireU32Equal :: "scval \<Rightarrow> int \<Rightarrow> relayer_throw + unit" where
  "requireU32Equal arg expected = (case arg of ScU32 v \<Rightarrow> guardE (v = expected) invalid | _ \<Rightarrow> Inl invalid)"

definition requireBytes32Equal :: "scval \<Rightarrow> bytes \<Rightarrow> relayer_throw + unit" where
  "requireBytes32Equal arg expected = (case arg of
     ScBytes b \<Rightarrow> bindE (guardE (length b = 32) invalid) (\<lambda>_. guardE (b = expected) invalid)
   | _ \<Rightarrow> Inl invalid)"

section \<open>verifyPasskeyAuthorization\<close>

record transfer_expect =
  xt_wallet :: ident
  xt_token :: ident
  xt_max :: int
  xt_to :: "ident option"
  xt_amount :: "int option"

text \<open>Step 3: recipient and amount are pinned only where the caller gives them.\<close>

definition pin_transfer :: "transfer_expect \<Rightarrow> invocation \<Rightarrow> relayer_throw + unit" where
  "pin_transfer x op =
     bindE (pin_target op ''transfer'' (xt_token x) 3) (\<lambda>_.
     bindE (guardE (native_string (iv_args op ! 0) = Some (xt_wallet x)) invalid) (\<lambda>_.
     bindE (guardE (native_string (iv_args op ! 1) \<noteq> None) invalid) (\<lambda>_.
     bindE (guardE (case xt_to x of None \<Rightarrow> True | Some t \<Rightarrow> native_string (iv_args op ! 1) = Some t) invalid) (\<lambda>_.
     case iv_args op ! 2 of
       ScI128 amount \<Rightarrow>
         bindE (guardE (\<not> amount > xt_max x) invalid) (\<lambda>_.
         guardE (case xt_amount x of None \<Rightarrow> True | Some e \<Rightarrow> amount = e) invalid)
     | _ \<Rightarrow> Inl invalid))))"

type_synonym verified = "auth_entry \<times> bytes \<times> int"

definition verifyPasskeyAuthorization ::
  "passkey_lib \<Rightarrow> bytes \<Rightarrow> transfer_expect \<Rightarrow> parsed_tx \<Rightarrow> passkey_assertion \<Rightarrow> relayer_throw + verified" where
  "verifyPasskeyAuthorization lib passphrase x tx a =
     bindE (require_present a) (\<lambda>_.
     bindE (single_entry tx (xt_wallet x)) (\<lambda>(func, entry, creds).
     bindE (guardE (tree_subs (en_root entry) = []) invalid) (\<lambda>_.
     bindE (bound_invocation func (en_root entry)) (\<lambda>op.
     bindE (pin_transfer x op) (\<lambda>_.
     bindE (verify_steps_4_to_6 lib passphrase creds (en_root entry) a) (\<lambda>sig.
     Inr (entry, sig, ac_expiry creds)))))))"

section \<open>verifyBidAuthorization\<close>

record bid_expect =
  xb_wallet :: ident
  xb_escrow :: ident
  xb_token :: ident
  xb_price :: int
  xb_count :: int
  xb_max :: int
  xb_idem :: bytes

text \<open>Step 3a: the root \<open>submit_bid(bidder, price, count, idempotency_key)\<close>.\<close>

definition pin_submit_bid :: "bid_expect \<Rightarrow> invocation \<Rightarrow> relayer_throw + unit" where
  "pin_submit_bid x op =
     bindE (pin_target op ''submit_bid'' (xb_escrow x) 4) (\<lambda>_.
     bindE (guardE (native_string (iv_args op ! 0) = Some (xb_wallet x)) invalid) (\<lambda>_.
     bindE (requireI128Equal (iv_args op ! 1) (xb_price x)) (\<lambda>_.
     bindE (requireI128Equal (iv_args op ! 2) (xb_count x)) (\<lambda>_.
     requireBytes32Equal (iv_args op ! 3) (xb_idem x)))))"

text \<open>Step 3b: its one sub-invocation, the transfer of price times count into escrow.\<close>

definition pin_escrow_transfer :: "bid_expect \<Rightarrow> auth_tree list \<Rightarrow> relayer_throw + unit" where
  "pin_escrow_transfer x subs = (case subs of
     [AuthTree (ContractFn t) []] \<Rightarrow>
       bindE (pin_target t ''transfer'' (xb_token x) 3) (\<lambda>_.
       bindE (guardE (native_string (iv_args t ! 0) = Some (xb_wallet x)) invalid) (\<lambda>_.
       bindE (guardE (native_string (iv_args t ! 1) = Some (xb_escrow x)) invalid) (\<lambda>_.
       let escrowAmount = xb_price x * xb_count x in
       bindE (requireI128Equal (iv_args t ! 2) escrowAmount) (\<lambda>_.
       guardE (\<not> escrowAmount > xb_max x) invalid))))
   | _ \<Rightarrow> Inl invalid)"

definition verifyBidAuthorization ::
  "passkey_lib \<Rightarrow> bytes \<Rightarrow> bid_expect \<Rightarrow> parsed_tx \<Rightarrow> passkey_assertion \<Rightarrow> relayer_throw + verified" where
  "verifyBidAuthorization lib passphrase x tx a =
     bindE (require_present a) (\<lambda>_.
     bindE (single_entry tx (xb_wallet x)) (\<lambda>(func, entry, creds).
     bindE (bound_invocation func (en_root entry)) (\<lambda>op.
     bindE (pin_submit_bid x op) (\<lambda>_.
     bindE (pin_escrow_transfer x (tree_subs (en_root entry))) (\<lambda>_.
     bindE (verify_steps_4_to_6 lib passphrase creds (en_root entry) a) (\<lambda>sig.
     Inr (entry, sig, ac_expiry creds)))))))"

section \<open>verifyCancelBidAuthorization\<close>

record cancel_expect =
  xc_caller :: ident
  xc_escrow :: ident
  xc_bid :: int

definition pin_cancel_bid :: "cancel_expect \<Rightarrow> invocation \<Rightarrow> auth_tree list \<Rightarrow> relayer_throw + unit" where
  "pin_cancel_bid x op subs =
     bindE (pin_target op ''cancel_bid'' (xc_escrow x) 2) (\<lambda>_.
     bindE (guardE (native_string (iv_args op ! 0) = Some (xc_caller x)) invalid) (\<lambda>_.
     bindE (requireU32Equal (iv_args op ! 1) (xc_bid x)) (\<lambda>_.
     guardE (subs = []) invalid)))"

definition verifyCancelBidAuthorization ::
  "passkey_lib \<Rightarrow> bytes \<Rightarrow> cancel_expect \<Rightarrow> parsed_tx \<Rightarrow> passkey_assertion \<Rightarrow> relayer_throw + verified" where
  "verifyCancelBidAuthorization lib passphrase x tx a =
     bindE (require_present a) (\<lambda>_.
     bindE (single_entry tx (xc_caller x)) (\<lambda>(func, entry, creds).
     bindE (bound_invocation func (en_root entry)) (\<lambda>op.
     bindE (pin_cancel_bid x op (tree_subs (en_root entry))) (\<lambda>_.
     bindE (verify_steps_4_to_6 lib passphrase creds (en_root entry) a) (\<lambda>sig.
     Inr (entry, sig, ac_expiry creds))))))"

end
