(* ===== verification/Auth_Build.thy ===== *)
theory Auth_Build
  imports Auth_Verify Market_Accept
begin

text \<open>
  What the relayer builds for a passkey to sign: the invocations of \<open>bid-invocation.ts\<close>,
  \<open>cancel-invocation.ts\<close> and \<open>accept-quote-invocation.ts\<close>, the builds of
  \<open>soroban-relayer.service.ts\<close> with their challenges, the \<open>AuthPayload\<close> an assertion becomes, and
  the two verifiers of an accepted quote (\<open>accept-authorization.ts\<close>). Account, simulation and
  latest ledger are the RPC server's answers; a simulation is its authorization entries.
\<close>

section \<open>Invocations\<close>

definition encodeSubmitBidArgs :: "ident \<Rightarrow> int \<Rightarrow> int \<Rightarrow> bytes \<Rightarrow> scval list" where
  "encodeSubmitBidArgs bidder price cnt idem = [ScAddress bidder, ScI128 price, ScI128 cnt, ScBytes idem]"

definition leaf :: "invocation \<Rightarrow> auth_tree" where
  "leaf f = AuthTree (ContractFn f) []"

definition transfer_call :: "ident \<Rightarrow> ident \<Rightarrow> ident \<Rightarrow> int \<Rightarrow> invocation" where
  "transfer_call token src dst amount = contract_call token ''transfer'' [ScAddress src, ScAddress dst, ScI128 amount]"

definition buildSubmitBidOperation :: "ident \<Rightarrow> ident \<Rightarrow> int \<Rightarrow> int \<Rightarrow> bytes \<Rightarrow> invocation" where
  "buildSubmitBidOperation escrow bidder price cnt idem =
     contract_call escrow ''submit_bid'' (encodeSubmitBidArgs bidder price cnt idem)"

definition buildSubmitBidRootInvocation ::
  "ident \<Rightarrow> ident \<Rightarrow> ident \<Rightarrow> int \<Rightarrow> int \<Rightarrow> bytes \<Rightarrow> auth_tree" where
  "buildSubmitBidRootInvocation escrow token bidder price cnt idem =
     AuthTree (ContractFn (buildSubmitBidOperation escrow bidder price cnt idem))
       [leaf (transfer_call token bidder escrow (price * cnt))]"

definition encodeCancelBidArgs :: "ident \<Rightarrow> int \<Rightarrow> scval list" where
  "encodeCancelBidArgs caller bidId = [ScAddress caller, ScU32 bidId]"

definition buildCancelBidOperation :: "ident \<Rightarrow> ident \<Rightarrow> int \<Rightarrow> invocation" where
  "buildCancelBidOperation escrow caller bidId = contract_call escrow ''cancel_bid'' (encodeCancelBidArgs caller bidId)"

definition buildCancelBidRootInvocation :: "ident \<Rightarrow> ident \<Rightarrow> int \<Rightarrow> auth_tree" where
  "buildCancelBidRootInvocation escrow caller bidId = leaf (buildCancelBidOperation escrow caller bidId)"

text \<open>\<open>AcceptQuoteArgs\<close>, whose three ids are 32 bytes each.\<close>

record quote_args =
  qa_rfq :: bytes
  qa_quote :: bytes
  qa_artwork :: bytes
  qa_buyer :: ident
  qa_seller :: ident
  qa_count :: int
  qa_gross :: int

definition encodeAcceptQuoteArgs :: "quote_args \<Rightarrow> scval list" where
  "encodeAcceptQuoteArgs a =
     [ScBytes (qa_rfq a), ScBytes (qa_quote a), ScBytes (qa_artwork a), ScAddress (qa_buyer a),
      ScAddress (qa_seller a), ScI128 (qa_count a), ScI128 (qa_gross a)]"

definition encodeAuthTupleArgs :: "quote_args \<Rightarrow> scval list" where
  "encodeAuthTupleArgs a =
     [ScBytes (qa_rfq a), ScBytes (qa_quote a), ScBytes (qa_artwork a), ScI128 (qa_count a), ScI128 (qa_gross a)]"

definition buildAcceptQuoteOperation :: "ident \<Rightarrow> quote_args \<Rightarrow> invocation" where
  "buildAcceptQuoteOperation settler a = contract_call settler ''accept_quote'' (encodeAcceptQuoteArgs a)"

definition acceptQuoteRootFn :: "ident \<Rightarrow> quote_args \<Rightarrow> invocation" where
  "acceptQuoteRootFn settler a = contract_call settler ''accept_quote'' (encodeAuthTupleArgs a)"

definition buildSellerRootInvocation :: "ident \<Rightarrow> quote_args \<Rightarrow> auth_tree" where
  "buildSellerRootInvocation settler a = leaf (acceptQuoteRootFn settler a)"

text \<open>The buyer's legs: treasury, artist payout, seller; a zero leg is left out.\<close>

definition buildBuyerRootInvocation :: "ident \<Rightarrow> ident \<Rightarrow> ident \<Rightarrow> ident \<Rightarrow> quote_args \<Rightarrow> auth_tree" where
  "buildBuyerRootInvocation settler usdc treasury artistPayout a =
     (case computeUsdcSplit (qa_gross a) of (platformCut, artistCut, sellerNet) \<Rightarrow>
        AuthTree (ContractFn (acceptQuoteRootFn settler a))
          ((if platformCut > 0 then [leaf (transfer_call usdc (qa_buyer a) treasury platformCut)] else [])
           @ (if artistCut > 0 then [leaf (transfer_call usdc (qa_buyer a) artistPayout artistCut)] else [])
           @ (if sellerNet > 0 then [leaf (transfer_call usdc (qa_buyer a) (qa_seller a) sellerNet)] else [])))"

section \<open>The builds\<close>

definition DEFAULT_CONTEXT_RULE_ID :: int where
  "DEFAULT_CONTEXT_RULE_ID = 0"

definition SIG_VALIDITY_LEDGERS :: int where
  "SIG_VALIDITY_LEDGERS = 40"

definition BID_SIG_VALIDITY_LEDGERS :: int where
  "BID_SIG_VALIDITY_LEDGERS = 120"

definition TRANSFER_I128_MAX :: int where
  "TRANSFER_I128_MAX = 2 ^ 127 - 1"

fun address_entry :: "auth_entry \<Rightarrow> address_creds option" where
  "address_entry e = (case en_creds e of AddressCreds c \<Rightarrow> Some c | SourceAccountCreds \<Rightarrow> None)"

definition entry_of :: "ident \<Rightarrow> auth_entry \<Rightarrow> bool" where
  "entry_of wallet e \<longleftrightarrow> map_option ac_address (address_entry e) = Some wallet"

text \<open>What a simulation answers: \<open>None\<close> when it is not a success.\<close>

type_synonym sim_auth = "auth_entry list option"

text \<open>
  The scaffold of the three builds: simulate the operation, take its first address entry, bind the
  expiry into it before hashing, attach it and answer the transaction with its challenge.
\<close>

definition build_for_passkey ::
  "passkey_lib \<Rightarrow> bytes \<Rightarrow> int \<Rightarrow> unit rpc \<Rightarrow> (invocation \<Rightarrow> sim_auth rpc) \<Rightarrow> int rpc \<Rightarrow> invocation
   \<Rightarrow> relayer_throw + parsed_tx \<times> string \<times> int" where
  "build_for_passkey lib passphrase validity account simulate latest op =
     bindE (with_timeout account) (\<lambda>_.
     bindE (with_timeout (simulate op)) (\<lambda>sim.
     bindE (with_timeout latest) (\<lambda>sequence.
     case sim of None \<Rightarrow> Inl (RelayerTransferError Simulation_failed)
     | Some auth \<Rightarrow> (case find (\<lambda>e. address_entry e \<noteq> None) auth of
         None \<Rightarrow> Inl (RelayerTransferError Simulation_failed)
       | Some e \<Rightarrow> (case address_entry e of
           None \<Rightarrow> Inl (RelayerTransferError Simulation_failed)
         | Some c \<Rightarrow>
             let expires = sequence + validity;
                 c' = c\<lparr>ac_expiry := expires\<rparr>;
                 e' = e\<lparr>en_creds := AddressCreds c'\<rparr>
             in Inr (TransactionOf [InvokeHostFunction (InvokeContract op) [e']],
                  expected_challenge lib passphrase c' (en_root e') [DEFAULT_CONTEXT_RULE_ID], expires))))))"

text \<open>The amounts are \<open>BigInt\<close> of a text: \<open>None\<close> when that throws.\<close>

definition buildTransfer ::
  "passkey_lib \<Rightarrow> bytes \<Rightarrow> unit rpc \<Rightarrow> (invocation \<Rightarrow> sim_auth rpc) \<Rightarrow> int rpc
   \<Rightarrow> ident \<Rightarrow> ident \<Rightarrow> ident \<Rightarrow> int option \<Rightarrow> relayer_throw + parsed_tx \<times> string \<times> int" where
  "buildTransfer lib passphrase account simulate latest token wallet dst amountScaled = (case amountScaled of
     None \<Rightarrow> Inl (RelayerTransferError Simulation_failed)
   | Some amount \<Rightarrow>
       bindE (guardE (\<not> (amount \<le> 0 \<or> amount > TRANSFER_I128_MAX)) (RelayerTransferError Simulation_failed)) (\<lambda>_.
       build_for_passkey lib passphrase SIG_VALIDITY_LEDGERS account simulate latest
         (transfer_call token wallet dst amount)))"

definition buildBid ::
  "passkey_lib \<Rightarrow> bytes \<Rightarrow> unit rpc \<Rightarrow> (invocation \<Rightarrow> sim_auth rpc) \<Rightarrow> int rpc
   \<Rightarrow> ident \<Rightarrow> ident \<Rightarrow> (int \<times> int) option \<Rightarrow> bytes \<Rightarrow> relayer_throw + parsed_tx \<times> string \<times> int" where
  "buildBid lib passphrase account simulate latest escrow wallet priceCount idem = (case priceCount of
     None \<Rightarrow> Inl (RelayerTransferError Simulation_failed)
   | Some (price, cnt) \<Rightarrow>
       bindE (guardE (\<not> (price \<le> 0 \<or> cnt \<le> 0 \<or> price > TRANSFER_I128_MAX \<or> cnt > TRANSFER_I128_MAX))
         (RelayerTransferError Simulation_failed)) (\<lambda>_.
       bindE (guardE (length idem = 32) (RelayerTransferError Simulation_failed)) (\<lambda>_.
       build_for_passkey lib passphrase BID_SIG_VALIDITY_LEDGERS account simulate latest
         (buildSubmitBidOperation escrow wallet price cnt idem))))"

definition buildCancelBid ::
  "passkey_lib \<Rightarrow> bytes \<Rightarrow> unit rpc \<Rightarrow> (invocation \<Rightarrow> sim_auth rpc) \<Rightarrow> int rpc
   \<Rightarrow> ident \<Rightarrow> ident \<Rightarrow> int \<Rightarrow> relayer_throw + parsed_tx \<times> string \<times> int" where
  "buildCancelBid lib passphrase account simulate latest escrow caller bidId =
     build_for_passkey lib passphrase BID_SIG_VALIDITY_LEDGERS account simulate latest
       (buildCancelBidOperation escrow caller bidId)"

text \<open>For a quote: the entry of the given wallet, buyer or seller; the transaction is assembled later.\<close>

definition simulateAndFindEntry ::
  "unit rpc \<Rightarrow> (invocation \<Rightarrow> sim_auth rpc) \<Rightarrow> int rpc \<Rightarrow> ident \<Rightarrow> quote_args \<Rightarrow> int \<Rightarrow> ident
   \<Rightarrow> relayer_throw + auth_entry \<times> address_creds \<times> int" where
  "simulateAndFindEntry account simulate latest settler a validity wallet =
     bindE (with_timeout account) (\<lambda>_.
     bindE (with_timeout (simulate (buildAcceptQuoteOperation settler a))) (\<lambda>sim.
     bindE (with_timeout latest) (\<lambda>sequence.
     case sim of None \<Rightarrow> Inl (RelayerTransferError Simulation_failed)
     | Some auth \<Rightarrow>
         (case find (entry_of wallet) auth of
            None \<Rightarrow> Inl (RelayerTransferError Simulation_failed)
          | Some e \<Rightarrow> (case address_entry e of
              None \<Rightarrow> Inl (RelayerTransferError Simulation_failed)
            | Some c \<Rightarrow>
                let c' = c\<lparr>ac_expiry := sequence + validity\<rparr>
                in Inr (e\<lparr>en_creds := AddressCreds c'\<rparr>, c', sequence + validity))))))"

definition buildQuoteEntry ::
  "passkey_lib \<Rightarrow> bytes \<Rightarrow> unit rpc \<Rightarrow> (invocation \<Rightarrow> sim_auth rpc) \<Rightarrow> int rpc \<Rightarrow> ident \<Rightarrow> quote_args \<Rightarrow> int
   \<Rightarrow> ident \<Rightarrow> relayer_throw + string \<times> int \<times> auth_entry" where
  "buildQuoteEntry lib passphrase account simulate latest settler a validity wallet =
     bindE (simulateAndFindEntry account simulate latest settler a validity wallet) (\<lambda>(e, c, expires).
     Inr (expected_challenge lib passphrase c (en_root e) [DEFAULT_CONTEXT_RULE_ID], expires, e))"

definition buildSellerQuoteAuth ::
  "passkey_lib \<Rightarrow> bytes \<Rightarrow> unit rpc \<Rightarrow> (invocation \<Rightarrow> sim_auth rpc) \<Rightarrow> int rpc \<Rightarrow> ident \<Rightarrow> quote_args \<Rightarrow> int
   \<Rightarrow> relayer_throw + string \<times> int \<times> auth_entry" where
  "buildSellerQuoteAuth lib passphrase account simulate latest settler a validity =
     buildQuoteEntry lib passphrase account simulate latest settler a validity (qa_seller a)"

definition buildAcceptQuote ::
  "passkey_lib \<Rightarrow> bytes \<Rightarrow> unit rpc \<Rightarrow> (invocation \<Rightarrow> sim_auth rpc) \<Rightarrow> int rpc \<Rightarrow> ident \<Rightarrow> quote_args \<Rightarrow> int
   \<Rightarrow> relayer_throw + string \<times> int \<times> auth_entry" where
  "buildAcceptQuote lib passphrase account simulate latest settler a validity =
     buildQuoteEntry lib passphrase account simulate latest settler a validity (qa_buyer a)"

section \<open>The AuthPayload\<close>

text \<open>\<open>keyData\<close> is the 65-byte key followed by the raw credential id; \<open>xdr\<close> encodes the signature data.\<close>

definition buildKeyData :: "bytes \<Rightarrow> bytes \<Rightarrow> bytes option" where
  "buildKeyData key credential = (if length key \<noteq> 65 then None else Some (key @ credential))"

definition encodeAuthPayloadScVal ::
  "(scval \<Rightarrow> bytes) \<Rightarrow> ident \<Rightarrow> bytes \<Rightarrow> bytes \<Rightarrow> bytes \<Rightarrow> bytes \<Rightarrow> int list \<Rightarrow> scval" where
  "encodeAuthPayloadScVal xdr verifier keyData sig auth client rules =
     (let sigData = ScMap [(ScSymbol ''authenticator_data'', ScBytes auth), (ScSymbol ''client_data'', ScBytes client),
            (ScSymbol ''signature'', ScBytes sig)];
          signerKey = ScVec [ScSymbol ''External'', ScAddress verifier, ScBytes keyData]
      in ScMap [(ScSymbol ''context_rule_ids'', ScVec (map ScU32 rules)),
                (ScSymbol ''signers'', ScMap [(signerKey, ScBytes (xdr sigData))])])"

section \<open>The verifiers of an accepted quote\<close>

record accept_trusted =
  tu_settler :: ident
  tu_rfq :: bytes
  tu_quote :: bytes
  tu_artwork :: bytes
  tu_count :: int
  tu_gross :: int

definition assertAcceptRoot :: "auth_entry \<Rightarrow> accept_trusted \<Rightarrow> relayer_throw + auth_tree" where
  "assertAcceptRoot e t = (case tree_fn (en_root e) of
     CreateContractFn \<Rightarrow> Inl invalid
   | ContractFn f \<Rightarrow>
       bindE (pin_target f ''accept_quote'' (tu_settler t) 5) (\<lambda>_.
       bindE (requireBytes32Equal (iv_args f ! 0) (tu_rfq t)) (\<lambda>_.
       bindE (requireBytes32Equal (iv_args f ! 1) (tu_quote t)) (\<lambda>_.
       bindE (requireBytes32Equal (iv_args f ! 2) (tu_artwork t)) (\<lambda>_.
       bindE (requireI128Equal (iv_args f ! 3) (tu_count t)) (\<lambda>_.
       bindE (requireI128Equal (iv_args f ! 4) (tu_gross t)) (\<lambda>_.
       Inr (en_root e))))))))"

definition assertEntryForWallet :: "auth_entry \<Rightarrow> ident \<Rightarrow> relayer_throw + address_creds" where
  "assertEntryForWallet e wallet = (case en_creds e of
     SourceAccountCreds \<Rightarrow> Inl invalid
   | AddressCreds c \<Rightarrow> bindE (guardE (ac_address c = wallet) invalid) (\<lambda>_. Inr c))"

definition verifyPasskeyOverRoot ::
  "passkey_lib \<Rightarrow> bytes \<Rightarrow> passkey_assertion \<Rightarrow> address_creds \<Rightarrow> auth_tree \<Rightarrow> relayer_throw + bytes" where
  "verifyPasskeyOverRoot lib passphrase a creds root =
     bindE (require_present a) (\<lambda>_. verify_steps_4_to_6 lib passphrase creds root a)"

definition pickEntry :: "auth_entry list \<Rightarrow> ident \<Rightarrow> relayer_throw + auth_entry \<times> address_creds" where
  "pickEntry entries wallet =
     (case filter (entry_of wallet) entries of
        [e] \<Rightarrow> (case address_entry e of Some c \<Rightarrow> Inr (e, c) | None \<Rightarrow> Inl invalid)
      | _ \<Rightarrow> Inl invalid)"

text \<open>One USDC leg of the buyer: the running sum and whether the seller's net was seen.\<close>

definition buyer_leg ::
  "ident \<Rightarrow> ident \<Rightarrow> ident \<Rightarrow> int \<Rightarrow> auth_tree \<Rightarrow> int \<times> bool \<Rightarrow> relayer_throw + int \<times> bool" where
  "buyer_leg usdc buyer seller sellerNet sub acc = (case sub of
     AuthTree (ContractFn t) [] \<Rightarrow>
       bindE (pin_target t ''transfer'' usdc 3) (\<lambda>_.
       bindE (guardE (native_string (iv_args t ! 0) = Some buyer) invalid) (\<lambda>_.
       case iv_args t ! 2 of
         ScI128 amount \<Rightarrow>
           bindE (guardE (\<not> amount \<le> 0) invalid) (\<lambda>_.
           if native_string (iv_args t ! 1) = Some seller
           then bindE (guardE (amount = sellerNet) invalid) (\<lambda>_. Inr (fst acc + amount, True))
           else Inr (fst acc + amount, snd acc))
       | _ \<Rightarrow> Inl invalid))
   | _ \<Rightarrow> Inl invalid)"

fun buyer_legs ::
  "ident \<Rightarrow> ident \<Rightarrow> ident \<Rightarrow> int \<Rightarrow> auth_tree list \<Rightarrow> int \<times> bool \<Rightarrow> relayer_throw + int \<times> bool" where
  "buyer_legs usdc buyer seller sellerNet [] acc = Inr acc"
| "buyer_legs usdc buyer seller sellerNet (sub # subs) acc =
     bindE (buyer_leg usdc buyer seller sellerNet sub acc) (buyer_legs usdc buyer seller sellerNet subs)"

definition assert_buyer_legs :: "ident \<Rightarrow> ident \<Rightarrow> ident \<Rightarrow> int \<Rightarrow> auth_tree list \<Rightarrow> relayer_throw + unit" where
  "assert_buyer_legs usdc buyer seller gross subs =
     (case computeUsdcSplit gross of (_, _, sellerNet) \<Rightarrow>
       bindE (guardE (\<not> (subs = [] \<or> length subs > 3)) invalid) (\<lambda>_.
       bindE (buyer_legs usdc buyer seller sellerNet subs (0, False)) (\<lambda>(total_amount, sawSellerNet).
       bindE (guardE (total_amount = gross) invalid) (\<lambda>_.
       guardE (\<not> (sellerNet > 0 \<and> \<not> sawSellerNet)) invalid))))"

definition pin_accept_op :: "accept_trusted \<Rightarrow> ident \<Rightarrow> ident \<Rightarrow> invocation \<Rightarrow> relayer_throw + unit" where
  "pin_accept_op t buyer seller op =
     bindE (pin_target op ''accept_quote'' (tu_settler t) 7) (\<lambda>_.
     bindE (requireBytes32Equal (iv_args op ! 0) (tu_rfq t)) (\<lambda>_.
     bindE (requireBytes32Equal (iv_args op ! 1) (tu_quote t)) (\<lambda>_.
     bindE (requireBytes32Equal (iv_args op ! 2) (tu_artwork t)) (\<lambda>_.
     bindE (guardE (native_string (iv_args op ! 3) = Some buyer) invalid) (\<lambda>_.
     bindE (guardE (native_string (iv_args op ! 4) = Some seller) invalid) (\<lambda>_.
     bindE (requireI128Equal (iv_args op ! 5) (tu_count t)) (\<lambda>_.
     requireI128Equal (iv_args op ! 6) (tu_gross t))))))))"

text \<open>Answers the buyer's entry, the signature, and the expiry ledgers of buyer and seller.\<close>

definition verifyAcceptQuoteAuthorization ::
  "passkey_lib \<Rightarrow> bytes \<Rightarrow> accept_trusted \<Rightarrow> ident \<Rightarrow> ident \<Rightarrow> ident \<Rightarrow> parsed_tx \<Rightarrow> passkey_assertion
   \<Rightarrow> relayer_throw + auth_entry \<times> bytes \<times> int \<times> int" where
  "verifyAcceptQuoteAuthorization lib passphrase t usdc buyer seller tx a = (case tx of
     TransactionOf [InvokeHostFunction (InvokeContract op) entries] \<Rightarrow>
       bindE (guardE (length entries = 2) invalid) (\<lambda>_.
       bindE (pickEntry entries buyer) (\<lambda>(buyerEntry, buyerCreds).
       bindE (pickEntry entries seller) (\<lambda>(sellerEntry, sellerCreds).
       bindE (pin_accept_op t buyer seller op) (\<lambda>_.
       bindE (assertAcceptRoot buyerEntry t) (\<lambda>buyerRoot.
       bindE (assertAcceptRoot sellerEntry t) (\<lambda>sellerRoot.
       bindE (guardE (tree_subs sellerRoot = []) invalid) (\<lambda>_.
       bindE (assert_buyer_legs usdc buyer seller (tu_gross t) (tree_subs buyerRoot)) (\<lambda>_.
       bindE (verifyPasskeyOverRoot lib passphrase a buyerCreds buyerRoot) (\<lambda>sig.
       Inr (buyerEntry, sig, ac_expiry buyerCreds, ac_expiry sellerCreds))))))))))
   | _ \<Rightarrow> Inl invalid)"

text \<open>\<open>parsed\<close> is the seller's entry as \<open>fromXDR\<close> decodes it.\<close>

definition verifySellerQuoteAuthEntry ::
  "passkey_lib \<Rightarrow> bytes \<Rightarrow> accept_trusted \<Rightarrow> ident \<Rightarrow> auth_entry option \<Rightarrow> passkey_assertion
   \<Rightarrow> relayer_throw + verified" where
  "verifySellerQuoteAuthEntry lib passphrase t seller parsed a = (case parsed of
     None \<Rightarrow> Inl invalid
   | Some e \<Rightarrow>
       bindE (assertEntryForWallet e seller) (\<lambda>creds.
       bindE (assertAcceptRoot e t) (\<lambda>root.
       bindE (guardE (tree_subs root = []) invalid) (\<lambda>_.
       bindE (verifyPasskeyOverRoot lib passphrase a creds root) (\<lambda>sig.
       Inr (e, sig, ac_expiry creds))))))"

text \<open>A verified seller entry with its signature attached; a malformed bound key throws.\<close>

definition attachSellerQuoteAuth ::
  "passkey_lib \<Rightarrow> bytes \<Rightarrow> (scval \<Rightarrow> bytes) \<Rightarrow> ident \<Rightarrow> bytes \<Rightarrow> accept_trusted \<Rightarrow> ident \<Rightarrow> auth_entry option
   \<Rightarrow> passkey_assertion \<Rightarrow> relayer_throw + auth_entry \<times> int" where
  "attachSellerQuoteAuth lib passphrase xdr verifier credential t seller parsed a =
     bindE (verifySellerQuoteAuthEntry lib passphrase t seller parsed a) (\<lambda>(e, sig, expiry).
     case buildKeyData (wa_key a) credential of
       None \<Rightarrow> Inl UntypedError
     | Some keyData \<Rightarrow> (case address_entry e of
         None \<Rightarrow> Inl invalid
       | Some c \<Rightarrow> Inr (e\<lparr>en_creds := AddressCreds (c\<lparr>ac_signature :=
             Some (encodeAuthPayloadScVal xdr verifier keyData sig (wa_auth a) (wa_client a)
               [DEFAULT_CONTEXT_RULE_ID])\<rparr>)\<rparr>, expiry)))"

end
