(* ===== verification/Auth_Props.thy ===== *)
theory Auth_Props
  imports Auth_Build Bid_Jobs
begin

text \<open>
  What the passkey verifiers accept: exactly the transactions a declarative specification admits,
  the transactions the relayer builds, and no signature for two different actions.
\<close>

named_theorems auth_simps \<open>when a check of a verifier passes\<close>

section \<open>The checks\<close>

lemma require_present_Inr [auth_simps]:
  "require_present a = Inr u \<longleftrightarrow> wa_auth a \<noteq> [] \<and> wa_client a \<noteq> [] \<and> wa_sig a \<noteq> []"
  by (simp add: require_present_def err_simps)

lemma single_entry_Inr [auth_simps]:
  "single_entry tx w = Inr (func, e, c) \<longleftrightarrow>
     tx = TransactionOf [InvokeHostFunction func [e]] \<and> en_creds e = AddressCreds c \<and> ac_address c = w"
  by (auto simp: single_entry_def err_simps split: parsed_tx.splits list.splits operation.splits credentials.splits)

lemma bound_invocation_Inr [auth_simps]:
  "bound_invocation func root = Inr op \<longleftrightarrow> func = InvokeContract op \<and> tree_fn root = ContractFn op"
  by (auto simp: bound_invocation_def err_simps split: auth_fn.splits host_function.splits)

lemma pin_target_Inr [auth_simps]:
  "pin_target op f c n = Inr u \<longleftrightarrow> iv_function op = f \<and> iv_contract op = c \<and> length (iv_args op) = n"
  by (simp add: pin_target_def err_simps)

lemma requireI128Equal_Inr [auth_simps]: "requireI128Equal v n = Inr u \<longleftrightarrow> v = ScI128 n"
  by (cases v) (auto simp: requireI128Equal_def err_simps)

lemma requireU32Equal_Inr [auth_simps]: "requireU32Equal v n = Inr u \<longleftrightarrow> v = ScU32 n"
  by (cases v) (auto simp: requireU32Equal_def err_simps)

lemma requireBytes32Equal_Inr [auth_simps]:
  "requireBytes32Equal v b = Inr u \<longleftrightarrow> v = ScBytes b \<and> length b = 32"
  by (cases v) (auto simp: requireBytes32Equal_def err_simps)

section \<open>The assertion\<close>

text \<open>What steps 4 to 6 establish: a user-verified signature of this entry by the bound key.\<close>

definition client_data_ok :: "passkey_lib \<Rightarrow> string \<Rightarrow> passkey_assertion \<Rightarrow> bool" where
  "client_data_ok lib ch a \<longleftrightarrow> length (wa_client a) \<le> MAX_CLIENT_DATA_JSON
     \<and> (\<exists>cd origin. pl_json lib (wa_client a) = Some cd \<and> js_prop cd ''type'' = Some (JString ''webauthn.get'')
         \<and> js_prop cd ''challenge'' = Some (JString ch) \<and> js_prop cd ''crossOrigin'' \<noteq> Some (JBool True)
         \<and> js_prop cd ''origin'' = Some (JString origin) \<and> origin \<in> set (wa_origins a))"

definition user_verified :: "passkey_lib \<Rightarrow> passkey_assertion \<Rightarrow> bool" where
  "user_verified lib a \<longleftrightarrow> 37 \<le> length (wa_auth a) \<and> take 32 (wa_auth a) = pl_sha256 lib (wa_rp a)
     \<and> (wa_auth a ! 32) AND FLAG_UP \<noteq> 0 \<and> (wa_auth a ! 32) AND FLAG_UV \<noteq> 0"

definition signed_by_bound_key :: "passkey_lib \<Rightarrow> passkey_assertion \<Rightarrow> bytes \<Rightarrow> bool" where
  "signed_by_bound_key lib a sig \<longleftrightarrow> toLowSCompactSignature lib (wa_sig a) = Some sig
     \<and> verifyP256Assertion lib (wa_key a) (wa_auth a) (wa_client a) sig = Some True"

definition asserts :: "passkey_lib \<Rightarrow> bytes \<Rightarrow> passkey_assertion \<Rightarrow> address_creds \<Rightarrow> auth_tree \<Rightarrow> bytes \<Rightarrow> bool" where
  "asserts lib passphrase a c root sig \<longleftrightarrow>
     client_data_ok lib (expected_challenge lib passphrase c root (wa_rules a)) a
     \<and> user_verified lib a \<and> signed_by_bound_key lib a sig"

lemma js_prop_Some: "js_prop v k = Some w \<Longrightarrow> v \<noteq> JNull"
  by (cases v) auto

lemma verify_client_data_Inr: "verify_client_data lib ch a = Inr u \<longleftrightarrow> client_data_ok lib ch a"
proof (cases "pl_json lib (wa_client a)")
  case (Some v)
  then show ?thesis
    by (cases v) (auto simp: verify_client_data_def client_data_ok_def err_simps split: option.splits json.splits)
qed (auto simp: verify_client_data_def client_data_ok_def err_simps)

lemma verify_authenticator_data_Inr: "verify_authenticator_data lib a = Inr u \<longleftrightarrow> user_verified lib a"
  by (auto simp: verify_authenticator_data_def user_verified_def err_simps Let_def)

lemma verify_signature_Inr: "verify_signature lib a = Inr sig \<longleftrightarrow> signed_by_bound_key lib a sig"
  by (auto simp: verify_signature_def signed_by_bound_key_def split: option.splits bool.splits)

lemma verify_steps_Inr [auth_simps]:
  "verify_steps_4_to_6 lib passphrase c root a = Inr sig \<longleftrightarrow> asserts lib passphrase a c root sig"
  by (auto simp: verify_steps_4_to_6_def asserts_def err_simps verify_client_data_Inr verify_authenticator_data_Inr
      verify_signature_Inr)

section \<open>What the single-entry verifiers accept\<close>

text \<open>A text argument: the address, or a symbol or string of the same text.\<close>

definition text_arg :: "scval \<Rightarrow> string \<Rightarrow> bool" where
  "text_arg v s \<longleftrightarrow> v \<in> {ScAddress s, ScSymbol s, ScString s}"

lemma native_string_text [auth_simps]: "native_string v = Some s \<longleftrightarrow> text_arg v s"
  by (simp add: native_string_Some text_arg_def)

lemma text_arg_unique: "text_arg v s \<Longrightarrow> text_arg v t \<Longrightarrow> s = t"
  by (auto simp: text_arg_def)

lemma text_arg_address [simp]: "text_arg (ScAddress s) t \<longleftrightarrow> s = t"
  by (auto simp: text_arg_def)

definition transfer_of :: "ident \<Rightarrow> ident \<Rightarrow> ident \<Rightarrow> int \<Rightarrow> invocation \<Rightarrow> bool" where
  "transfer_of token src dst amount f \<longleftrightarrow>
     (\<exists>s d. f = contract_call token ''transfer'' [s, d, ScI128 amount] \<and> text_arg s src \<and> text_arg d dst)"

lemma length_3: "length xs = 3 \<longleftrightarrow> (\<exists>a b c. xs = [a, b, c])"
  by (auto simp: numeral_eq_Suc length_Suc_conv)

lemma length_4: "length xs = 4 \<longleftrightarrow> (\<exists>a b c d. xs = [a, b, c, d])"
  by (auto simp: numeral_eq_Suc length_Suc_conv)

lemma length_2: "length xs = 2 \<longleftrightarrow> (\<exists>a b. xs = [a, b])"
  by (auto simp: numeral_eq_Suc length_Suc_conv)

lemma contract_call_eq:
  "x = contract_call c f as \<longleftrightarrow> iv_contract x = c \<and> iv_function x = f \<and> iv_args x = as"
  by (auto simp: contract_call_def)

definition payment_of :: "transfer_expect \<Rightarrow> invocation \<Rightarrow> bool" where
  "payment_of x f \<longleftrightarrow> (\<exists>dst amount. transfer_of (xt_token x) (xt_wallet x) dst amount f
     \<and> amount \<le> xt_max x \<and> xt_to x \<in> {None, Some dst} \<and> xt_amount x \<in> {None, Some amount})"

lemma pin_transfer_Inr [auth_simps]: "pin_transfer x op = Inr u \<longleftrightarrow> payment_of x op"
    (is "?l \<longleftrightarrow> ?r")
proof
  assume ?l
  then have t: "iv_function op = ''transfer''" "iv_contract op = xt_token x" "length (iv_args op) = 3"
    by (auto simp: pin_transfer_def err_simps auth_simps)
  then obtain a b c where args: "iv_args op = [a, b, c]" by (auto simp: length_3)
  from \<open>?l\<close> args obtain amount dst where v: "c = ScI128 amount" "native_string b = Some dst"
    by (cases c) (auto simp: pin_transfer_def err_simps)
  then have "text_arg a (xt_wallet x)" "text_arg b dst" "amount \<le> xt_max x" "xt_to x \<in> {None, Some dst}"
    "xt_amount x \<in> {None, Some amount}"
    using \<open>?l\<close> args by (auto simp: pin_transfer_def err_simps native_string_text dest: text_arg_unique split: option.splits)
  moreover have "op = contract_call (xt_token x) ''transfer'' [a, b, ScI128 amount]"
    using t args v by (intro invocation_eqI) auto
  ultimately show ?r unfolding transfer_of_def payment_of_def by blast
next
  assume ?r
  then obtain dst amount s d where "op = contract_call (xt_token x) ''transfer'' [s, d, ScI128 amount]"
    "text_arg s (xt_wallet x)" "text_arg d dst" "amount \<le> xt_max x" "xt_to x \<in> {None, Some dst}"
    "xt_amount x \<in> {None, Some amount}" unfolding transfer_of_def payment_of_def by blast
  moreover then have "native_string d = Some dst" "native_string s = Some (xt_wallet x)"
    by (simp_all add: native_string_text)
  ultimately show ?l
    by (auto simp: pin_transfer_def err_simps pin_target_Inr split: option.splits)
qed

definition submit_bid_of :: "bid_expect \<Rightarrow> invocation \<Rightarrow> bool" where
  "submit_bid_of x f \<longleftrightarrow> (\<exists>b. f = contract_call (xb_escrow x) ''submit_bid''
      [b, ScI128 (xb_price x), ScI128 (xb_count x), ScBytes (xb_idem x)]
     \<and> text_arg b (xb_wallet x) \<and> length (xb_idem x) = 32)"

lemma pin_submit_bid_Inr [auth_simps]: "pin_submit_bid x op = Inr u \<longleftrightarrow> submit_bid_of x op"
  by (auto simp: pin_submit_bid_def submit_bid_of_def err_simps auth_simps length_4 contract_call_eq)

lemma pin_escrow_transfer_Inr [auth_simps]:
  "pin_escrow_transfer x subs = Inr u \<longleftrightarrow> (\<exists>t. subs = [leaf t]
     \<and> transfer_of (xb_token x) (xb_wallet x) (xb_escrow x) (xb_price x * xb_count x) t)
     \<and> xb_price x * xb_count x \<le> xb_max x"
proof (cases "\<exists>t. subs = [AuthTree (ContractFn t) []]")
  case True
  then obtain t where "subs = [AuthTree (ContractFn t) []]" ..
  then show ?thesis
    by (auto simp: pin_escrow_transfer_def leaf_def transfer_of_def err_simps auth_simps length_3 contract_call_eq Let_def)
next
  case False
  then have "pin_escrow_transfer x subs = Inl invalid"
    by (auto simp: pin_escrow_transfer_def split: list.splits auth_tree.splits auth_fn.splits)
  with False show ?thesis by (simp add: leaf_def)
qed

definition cancel_bid_of :: "cancel_expect \<Rightarrow> invocation \<Rightarrow> bool" where
  "cancel_bid_of x f \<longleftrightarrow> (\<exists>b. f = contract_call (xc_escrow x) ''cancel_bid'' [b, ScU32 (xc_bid x)]
     \<and> text_arg b (xc_caller x))"

lemma pin_cancel_bid_Inr [auth_simps]: "pin_cancel_bid x op subs = Inr u \<longleftrightarrow> cancel_bid_of x op \<and> subs = []"
  by (auto simp: pin_cancel_bid_def cancel_bid_of_def err_simps auth_simps length_2 contract_call_eq)


text \<open>
  The declarative reading of the three verifiers: one operation whose invocation is the root of
  its one entry, credentials of the wallet, the pinned call with its sub-invocations, and an
  assertion of that entry.
\<close>

definition signs_alone ::
  "passkey_lib \<Rightarrow> bytes \<Rightarrow> ident \<Rightarrow> (invocation \<Rightarrow> auth_tree list \<Rightarrow> bool) \<Rightarrow> parsed_tx \<Rightarrow> passkey_assertion
   \<Rightarrow> verified \<Rightarrow> bool" where
  "signs_alone lib passphrase wallet call tx a v \<longleftrightarrow> (case v of (e, sig, expiry) \<Rightarrow>
     wa_auth a \<noteq> [] \<and> wa_client a \<noteq> [] \<and> wa_sig a \<noteq> []
     \<and> (\<exists>op subs c. tx = TransactionOf [InvokeHostFunction (InvokeContract op) [e]]
         \<and> en_creds e = AddressCreds c \<and> ac_address c = wallet \<and> ac_expiry c = expiry
         \<and> en_root e = AuthTree (ContractFn op) subs \<and> call op subs
         \<and> asserts lib passphrase a c (en_root e) sig))"

definition transfer_call_ok :: "transfer_expect \<Rightarrow> invocation \<Rightarrow> auth_tree list \<Rightarrow> bool" where
  "transfer_call_ok x op subs \<longleftrightarrow> subs = [] \<and> payment_of x op"

definition bid_call_ok :: "bid_expect \<Rightarrow> invocation \<Rightarrow> auth_tree list \<Rightarrow> bool" where
  "bid_call_ok x op subs \<longleftrightarrow> submit_bid_of x op \<and> xb_price x * xb_count x \<le> xb_max x
     \<and> (\<exists>t. subs = [leaf t] \<and> transfer_of (xb_token x) (xb_wallet x) (xb_escrow x) (xb_price x * xb_count x) t)"

definition cancel_call_ok :: "cancel_expect \<Rightarrow> invocation \<Rightarrow> auth_tree list \<Rightarrow> bool" where
  "cancel_call_ok x op subs \<longleftrightarrow> cancel_bid_of x op \<and> subs = []"

lemma tree_exists: "(\<exists>subs. t = AuthTree f subs \<and> P subs) \<longleftrightarrow> tree_fn t = f \<and> P (tree_subs t)"
  by (cases t) auto

lemma verifyPasskeyAuthorization_Inr:
  "verifyPasskeyAuthorization lib p x tx a = Inr v \<longleftrightarrow> signs_alone lib p (xt_wallet x) (transfer_call_ok x) tx a v"
  by (cases v, cases "en_root (fst v)")
    (auto simp: verifyPasskeyAuthorization_def signs_alone_def transfer_call_ok_def err_simps auth_simps)

lemma verifyBidAuthorization_Inr:
  "verifyBidAuthorization lib p x tx a = Inr v \<longleftrightarrow> signs_alone lib p (xb_wallet x) (bid_call_ok x) tx a v"
  by (cases v, cases "en_root (fst v)")
    (auto simp: verifyBidAuthorization_def signs_alone_def bid_call_ok_def err_simps auth_simps)

lemma verifyCancelBidAuthorization_Inr:
  "verifyCancelBidAuthorization lib p x tx a = Inr v \<longleftrightarrow> signs_alone lib p (xc_caller x) (cancel_call_ok x) tx a v"
  by (cases v, cases "en_root (fst v)")
    (auto simp: verifyCancelBidAuthorization_def signs_alone_def cancel_call_ok_def err_simps auth_simps)


text \<open>
  C39. The transfer, bid and cancel verifiers accept a transaction exactly when it is the one pinned
  call with exactly its sub-invocations, signed under user verification by the bound key over this
  entry; the amount of a bid is price times count.
\<close>

theorem single_signer_verifiers_exact:
  "(verifyPasskeyAuthorization lib p xt tx a = Inr v \<longleftrightarrow> signs_alone lib p (xt_wallet xt) (transfer_call_ok xt) tx a v)
   \<and> (verifyBidAuthorization lib p xb tx a = Inr v \<longleftrightarrow> signs_alone lib p (xb_wallet xb) (bid_call_ok xb) tx a v)
   \<and> (verifyCancelBidAuthorization lib p xc tx a = Inr v
       \<longleftrightarrow> signs_alone lib p (xc_caller xc) (cancel_call_ok xc) tx a v)"
  by (simp add: verifyPasskeyAuthorization_Inr verifyBidAuthorization_Inr verifyCancelBidAuthorization_Inr)

section \<open>What the accept verifiers accept\<close>

definition tuple_root :: "accept_trusted \<Rightarrow> invocation" where
  "tuple_root t = contract_call (tu_settler t) ''accept_quote''
     [ScBytes (tu_rfq t), ScBytes (tu_quote t), ScBytes (tu_artwork t), ScI128 (tu_count t), ScI128 (tu_gross t)]"

definition ids_32 :: "accept_trusted \<Rightarrow> bool" where
  "ids_32 t \<longleftrightarrow> length (tu_rfq t) = 32 \<and> length (tu_quote t) = 32 \<and> length (tu_artwork t) = 32"

lemma length_5: "length xs = 5 \<longleftrightarrow> (\<exists>a b c d e. xs = [a, b, c, d, e])"
  by (auto simp: numeral_eq_Suc length_Suc_conv)

lemma assertAcceptRoot_Inr [auth_simps]:
  "assertAcceptRoot e t = Inr r \<longleftrightarrow> r = en_root e \<and> tree_fn r = ContractFn (tuple_root t) \<and> ids_32 t"
  by (auto simp: assertAcceptRoot_def tuple_root_def ids_32_def err_simps auth_simps length_5 contract_call_eq
      split: auth_fn.splits)

lemma assertEntryForWallet_Inr [auth_simps]:
  "assertEntryForWallet e w = Inr c \<longleftrightarrow> en_creds e = AddressCreds c \<and> ac_address c = w"
  by (auto simp: assertEntryForWallet_def err_simps split: credentials.splits)

lemma verifyPasskeyOverRoot_Inr [auth_simps]:
  "verifyPasskeyOverRoot lib p a c root = Inr sig \<longleftrightarrow>
     wa_auth a \<noteq> [] \<and> wa_client a \<noteq> [] \<and> wa_sig a \<noteq> [] \<and> asserts lib p a c root sig"
  by (simp add: verifyPasskeyOverRoot_def err_simps auth_simps)

lemma address_entry_Some: "address_entry e = Some c \<longleftrightarrow> en_creds e = AddressCreds c"
  by (auto split: credentials.splits)

lemma address_entry_None: "address_entry e = None \<longleftrightarrow> en_creds e = SourceAccountCreds"
  by (auto split: credentials.splits)

declare address_entry.simps [simp del]

lemma verifySellerQuoteAuthEntry_Inr:
  "verifySellerQuoteAuthEntry lib p t seller parsed a = Inr (e, sig, expiry) \<longleftrightarrow>
     parsed = Some e \<and> (\<exists>c. en_creds e = AddressCreds c \<and> ac_address c = seller \<and> ac_expiry c = expiry
       \<and> en_root e = leaf (tuple_root t) \<and> ids_32 t \<and> wa_auth a \<noteq> [] \<and> wa_client a \<noteq> [] \<and> wa_sig a \<noteq> []
       \<and> asserts lib p a c (en_root e) sig)"
  by (cases "en_root e")
    (auto simp: verifySellerQuoteAuthEntry_def err_simps auth_simps leaf_def split: option.splits)

text \<open>The buyer's legs, with recipients and amounts.\<close>

definition leg_of :: "ident \<Rightarrow> ident \<Rightarrow> auth_tree \<Rightarrow> scval \<times> int \<Rightarrow> bool" where
  "leg_of usdc buyer sub r \<longleftrightarrow> (\<exists>s. text_arg s buyer
     \<and> sub = leaf (contract_call usdc ''transfer'' [s, fst r, ScI128 (snd r)]))"

lemma buyer_leg_Inr:
  "buyer_leg usdc buyer seller net sub acc = Inr acc' \<longleftrightarrow> (\<exists>dst amount. leg_of usdc buyer sub (dst, amount)
     \<and> 0 < amount \<and> (text_arg dst seller \<longrightarrow> amount = net)
     \<and> acc' = (fst acc + amount, snd acc \<or> text_arg dst seller))"
    (is "?l \<longleftrightarrow> ?r")
proof
  assume ?l
  then obtain t where t: "sub = AuthTree (ContractFn t) []" "iv_function t = ''transfer''" "iv_contract t = usdc"
    "length (iv_args t) = 3"
    by (auto simp: buyer_leg_def err_simps auth_simps split: auth_tree.splits auth_fn.splits list.splits)
  then obtain s d c where args: "iv_args t = [s, d, c]" by (auto simp: length_3)
  have tt: "t = contract_call usdc ''transfer'' [s, d, c]" using t args by (intro invocation_eqI) auto
  from \<open>?l\<close> t(1) args obtain amount where c: "c = ScI128 amount"
    by (cases c) (auto simp: buyer_leg_def err_simps)
  from \<open>?l\<close> t(1) args c have "text_arg s buyer" "0 < amount" "text_arg d seller \<longrightarrow> amount = net"
    "acc' = (fst acc + amount, snd acc \<or> text_arg d seller)"
    by (auto simp: buyer_leg_def err_simps auth_simps split: if_splits)
  then show ?r using t(1) tt c by (intro exI [of _ d] exI [of _ amount]) (auto simp: leg_of_def leaf_def)
next
  assume ?r
  then show ?l
    by (auto simp: buyer_leg_def leg_of_def leaf_def err_simps auth_simps)
qed

lemma buyer_legs_Inr:
  "buyer_legs usdc buyer seller net subs acc = Inr acc' \<longleftrightarrow> (\<exists>rs. list_all2 (leg_of usdc buyer) subs rs
     \<and> (\<forall>(dst, amount) \<in> set rs. 0 < amount \<and> (text_arg dst seller \<longrightarrow> amount = net))
     \<and> acc' = (fst acc + sum_list (map snd rs), snd acc \<or> (\<exists>(dst, amount) \<in> set rs. text_arg dst seller)))"
proof (induction subs arbitrary: acc)
  case Nil
  show ?case by (cases acc) auto
next
  case (Cons sub subs)
  show ?case (is "?l \<longleftrightarrow> ?r")
  proof
    assume ?l
    then obtain acc1 where "buyer_leg usdc buyer seller net sub acc = Inr acc1"
      "buyer_legs usdc buyer seller net subs acc1 = Inr acc'" by (auto simp: err_simps)
    then obtain dst amount rs where "leg_of usdc buyer sub (dst, amount)" "0 < amount"
      "text_arg dst seller \<longrightarrow> amount = net" "acc1 = (fst acc + amount, snd acc \<or> text_arg dst seller)"
      "list_all2 (leg_of usdc buyer) subs rs"
      "\<forall>(dst, amount) \<in> set rs. 0 < amount \<and> (text_arg dst seller \<longrightarrow> amount = net)"
      "acc' = (fst acc1 + sum_list (map snd rs), snd acc1 \<or> (\<exists>(dst, amount) \<in> set rs. text_arg dst seller))"
      using Cons.IH by (auto simp: buyer_leg_Inr)
    then show ?r by (intro exI [of _ "(dst, amount) # rs"]) auto
  next
    assume ?r
    then obtain rs0 where "list_all2 (leg_of usdc buyer) (sub # subs) rs0"
      "\<forall>(dst, amount) \<in> set rs0. 0 < amount \<and> (text_arg dst seller \<longrightarrow> amount = net)"
      "acc' = (fst acc + sum_list (map snd rs0), snd acc \<or> (\<exists>(dst, amount) \<in> set rs0. text_arg dst seller))"
      by blast
    moreover then obtain dst amount rs where "rs0 = (dst, amount) # rs" by (cases rs0) auto
    ultimately have "buyer_leg usdc buyer seller net sub acc = Inr (fst acc + amount, snd acc \<or> text_arg dst seller)"
      "buyer_legs usdc buyer seller net subs (fst acc + amount, snd acc \<or> text_arg dst seller) = Inr acc'"
      using Cons.IH by (auto simp: buyer_leg_Inr)
    then show ?l by simp
  qed
qed


definition buyer_pays :: "ident \<Rightarrow> ident \<Rightarrow> ident \<Rightarrow> int \<Rightarrow> auth_tree list \<Rightarrow> bool" where
  "buyer_pays usdc buyer seller gross subs \<longleftrightarrow> (case computeUsdcSplit gross of (_, _, net) \<Rightarrow>
     (\<exists>rs. list_all2 (leg_of usdc buyer) subs rs \<and> rs \<noteq> [] \<and> length rs \<le> 3
       \<and> (\<forall>(dst, amount) \<in> set rs. 0 < amount \<and> (text_arg dst seller \<longrightarrow> amount = net))
       \<and> sum_list (map snd rs) = gross \<and> (0 < net \<longrightarrow> (\<exists>(dst, amount) \<in> set rs. text_arg dst seller))))"

lemma assert_buyer_legs_Inr [auth_simps]:
  "assert_buyer_legs usdc buyer seller gross subs = Inr u \<longleftrightarrow> buyer_pays usdc buyer seller gross subs"
proof -
  obtain pc ac net where s: "computeUsdcSplit gross = (pc, ac, net)" by (cases "computeUsdcSplit gross") auto
  define P where "P rs \<longleftrightarrow> list_all2 (leg_of usdc buyer) subs rs
     \<and> (\<forall>(dst, amount) \<in> set rs. 0 < amount \<and> (text_arg dst seller \<longrightarrow> amount = net))" for rs
  define Q where "Q rs \<longleftrightarrow> (\<exists>(dst, amount) \<in> set rs. text_arg dst seller)" for rs :: "(scval \<times> int) list"
  have legs: "buyer_legs usdc buyer seller net subs (0, False) = Inr acc \<longleftrightarrow>
      (\<exists>rs. P rs \<and> acc = (sum_list (map snd rs), Q rs))" for acc
    unfolding buyer_legs_Inr P_def Q_def by simp
  have nil: "(subs \<noteq> [] \<and> length subs \<le> 3) = (rs \<noteq> [] \<and> length rs \<le> 3)" if "P rs" for rs
  proof -
    have "length subs = length rs" using that by (auto simp: P_def dest: list_all2_lengthD)
    then show ?thesis by (metis length_0_conv)
  qed
  have "assert_buyer_legs usdc buyer seller gross subs = Inr u \<longleftrightarrow>
      subs \<noteq> [] \<and> length subs \<le> 3 \<and> (\<exists>rs. P rs \<and> sum_list (map snd rs) = gross \<and> (0 < net \<longrightarrow> Q rs))"
    unfolding assert_buyer_legs_def s by (auto simp: err_simps legs not_le)
  also have "\<dots> \<longleftrightarrow> (\<exists>rs. P rs \<and> rs \<noteq> [] \<and> length rs \<le> 3 \<and> sum_list (map snd rs) = gross \<and> (0 < net \<longrightarrow> Q rs))"
    using nil by blast
  also have "\<dots> \<longleftrightarrow> buyer_pays usdc buyer seller gross subs"
    unfolding buyer_pays_def s P_def Q_def by auto
  finally show ?thesis .
qed

lemma pickEntry_Inr [auth_simps]:
  "pickEntry es w = Inr (e, c) \<longleftrightarrow> filter (entry_of w) es = [e]
     \<and> en_creds e = AddressCreds c"
  by (auto simp: pickEntry_def address_entry_Some address_entry_None split: list.splits option.splits)

definition accept_call_of :: "accept_trusted \<Rightarrow> ident \<Rightarrow> ident \<Rightarrow> invocation \<Rightarrow> bool" where
  "accept_call_of t buyer seller f \<longleftrightarrow> (\<exists>b s. text_arg b buyer \<and> text_arg s seller \<and> ids_32 t
     \<and> f = contract_call (tu_settler t) ''accept_quote'' [ScBytes (tu_rfq t), ScBytes (tu_quote t), ScBytes (tu_artwork t),
         b, s, ScI128 (tu_count t), ScI128 (tu_gross t)])"

lemma length_7: "length xs = 7 \<longleftrightarrow> (\<exists>a b c d e f g. xs = [a, b, c, d, e, f, g])"
  by (auto simp: numeral_eq_Suc length_Suc_conv)

lemma pin_accept_op_Inr [auth_simps]: "pin_accept_op t buyer seller op = Inr u \<longleftrightarrow> accept_call_of t buyer seller op"
  by (auto simp: pin_accept_op_def accept_call_of_def ids_32_def err_simps auth_simps length_7 contract_call_eq)

lemma accept_call_ids: "accept_call_of t buyer seller op \<Longrightarrow> ids_32 t"
  by (auto simp: accept_call_of_def)

text \<open>Both parties' entries are the only ones of their wallets; the seller's tree is root-only.\<close>

definition signs_accept ::
  "passkey_lib \<Rightarrow> bytes \<Rightarrow> accept_trusted \<Rightarrow> ident \<Rightarrow> ident \<Rightarrow> ident \<Rightarrow> parsed_tx \<Rightarrow> passkey_assertion
   \<Rightarrow> auth_entry \<times> bytes \<times> int \<times> int \<Rightarrow> bool" where
  "signs_accept lib p t usdc buyer seller tx a v \<longleftrightarrow> (case v of (e, sig, buyerExpiry, sellerExpiry) \<Rightarrow>
     \<exists>op es bc s sc. tx = TransactionOf [InvokeHostFunction (InvokeContract op) es] \<and> length es = 2
       \<and> accept_call_of t buyer seller op
       \<and> filter (entry_of buyer) es = [e] \<and> en_creds e = AddressCreds bc
       \<and> filter (entry_of seller) es = [s] \<and> en_creds s = AddressCreds sc
       \<and> ac_expiry bc = buyerExpiry \<and> ac_expiry sc = sellerExpiry
       \<and> tree_fn (en_root e) = ContractFn (tuple_root t) \<and> en_root s = leaf (tuple_root t)
       \<and> buyer_pays usdc buyer seller (tu_gross t) (tree_subs (en_root e))
       \<and> wa_auth a \<noteq> [] \<and> wa_client a \<noteq> [] \<and> wa_sig a \<noteq> [] \<and> asserts lib p a bc (en_root e) sig)"

lemma leaf_eq: "t = leaf f \<longleftrightarrow> tree_fn t = ContractFn f \<and> tree_subs t = []"
  by (cases t) (auto simp: leaf_def)

lemma verifyAcceptQuoteAuthorization_shape:
  "verifyAcceptQuoteAuthorization lib p t usdc buyer seller tx a = Inr v
     \<Longrightarrow> \<exists>op es. tx = TransactionOf [InvokeHostFunction (InvokeContract op) es]"
  by (auto simp: verifyAcceptQuoteAuthorization_def split: parsed_tx.splits list.splits operation.splits host_function.splits)

lemma verifyAcceptQuoteAuthorization_Inr:
  "verifyAcceptQuoteAuthorization lib p t usdc buyer seller tx a = Inr v
     \<longleftrightarrow> signs_accept lib p t usdc buyer seller tx a v" (is "?l \<longleftrightarrow> ?r")
proof (cases "\<exists>op es. tx = TransactionOf [InvokeHostFunction (InvokeContract op) es]")
  case True
  then obtain op es where tx: "tx = TransactionOf [InvokeHostFunction (InvokeContract op) es]" by blast
  obtain e sig be se where v: "v = (e, sig, be, se)" by (cases v) auto
  show ?thesis
    unfolding v tx signs_accept_def
    by (auto simp: verifyAcceptQuoteAuthorization_def err_simps auth_simps leaf_eq dest: accept_call_ids)
next
  case False
  then show ?thesis using verifyAcceptQuoteAuthorization_shape [of lib p t usdc buyer seller tx a v]
    by (auto simp: signs_accept_def)
qed

text \<open>
  C38. The two verifiers of a trade accept exactly the pinned trade: call, both roots and the seller's
  empty tree carry the trusted tuple; the buyer's legs are positive USDC transfers from the buyer
  that add up to the gross, and what goes to the seller is the gross less both fees.
\<close>

theorem accept_verifiers_exact:
  "(verifyAcceptQuoteAuthorization lib p t usdc buyer seller tx a = Inr v
      \<longleftrightarrow> signs_accept lib p t usdc buyer seller tx a v)
   \<and> (verifySellerQuoteAuthEntry lib p t seller parsed a = Inr (e, sig, expiry) \<longleftrightarrow>
        parsed = Some e \<and> (\<exists>c. en_creds e = AddressCreds c \<and> ac_address c = seller \<and> ac_expiry c = expiry
          \<and> en_root e = leaf (tuple_root t) \<and> ids_32 t \<and> wa_auth a \<noteq> [] \<and> wa_client a \<noteq> [] \<and> wa_sig a \<noteq> []
          \<and> asserts lib p a c (en_root e) sig))"
  by (simp add: verifyAcceptQuoteAuthorization_Inr verifySellerQuoteAuthEntry_Inr)

end
