(* ===== verification/Auth_Main.thy ===== *)
theory Auth_Main
  imports Auth_Props Settle_Props
begin

text \<open>
  One signature, one action; what the relayer builds is what its verifiers accept, with the one
  trade they refuse; and the client data that freezes a settlement.
\<close>

section \<open>One signature, one action\<close>

datatype relayed_action = Transfer transfer_expect | Bid bid_expect | Cancel cancel_expect
  | Buy accept_trusted ident ident ident | Sell accept_trusted ident

text \<open>\<open>Buy t usdc buyer seller\<close>, \<open>Sell t seller\<close>. The seller's entry travels alone.\<close>

datatype signed_input = SignedTx parsed_tx | SignedEntry "auth_entry option"

text \<open>The verifier of an action accepts, and the entry it returns has these credentials and this root.\<close>

fun accepts ::
  "passkey_lib \<Rightarrow> bytes \<Rightarrow> relayed_action \<Rightarrow> signed_input \<Rightarrow> passkey_assertion \<Rightarrow> address_creds \<Rightarrow> auth_tree \<Rightarrow> bool" where
  "accepts lib p (Transfer x) (SignedTx tx) a c root \<longleftrightarrow> (\<exists>e sig ex.
     verifyPasskeyAuthorization lib p x tx a = Inr (e, sig, ex) \<and> en_creds e = AddressCreds c \<and> en_root e = root)"
| "accepts lib p (Bid x) (SignedTx tx) a c root \<longleftrightarrow> (\<exists>e sig ex.
     verifyBidAuthorization lib p x tx a = Inr (e, sig, ex) \<and> en_creds e = AddressCreds c \<and> en_root e = root)"
| "accepts lib p (Cancel x) (SignedTx tx) a c root \<longleftrightarrow> (\<exists>e sig ex.
     verifyCancelBidAuthorization lib p x tx a = Inr (e, sig, ex) \<and> en_creds e = AddressCreds c \<and> en_root e = root)"
| "accepts lib p (Buy t usdc buyer seller) (SignedTx tx) a c root \<longleftrightarrow> (\<exists>e sig be se.
     verifyAcceptQuoteAuthorization lib p t usdc buyer seller tx a = Inr (e, sig, be, se)
       \<and> en_creds e = AddressCreds c \<and> en_root e = root)"
| "accepts lib p (Sell t seller) (SignedEntry parsed) a c root \<longleftrightarrow> (\<exists>e sig ex.
     verifySellerQuoteAuthEntry lib p t seller parsed a = Inr (e, sig, ex)
       \<and> en_creds e = AddressCreds c \<and> en_root e = root)"
| "accepts lib p _ _ a c root \<longleftrightarrow> False"

text \<open>The same action with the same terms, as far as the caller pins them.\<close>

fun same_action :: "relayed_action \<Rightarrow> relayed_action \<Rightarrow> bool" where
  "same_action (Transfer x) (Transfer y) \<longleftrightarrow> xt_wallet x = xt_wallet y \<and> xt_token x = xt_token y
     \<and> (xt_to x = None \<or> xt_to y = None \<or> xt_to x = xt_to y)
     \<and> (xt_amount x = None \<or> xt_amount y = None \<or> xt_amount x = xt_amount y)"
| "same_action (Bid x) (Bid y) \<longleftrightarrow> x = y\<lparr>xb_max := xb_max x\<rparr>"
| "same_action (Cancel x) (Cancel y) \<longleftrightarrow> x = y"
| "same_action (Buy t usdc buyer seller) (Buy t' usdc' buyer' seller') \<longleftrightarrow> t = t' \<and> usdc = usdc' \<and> buyer = buyer'"
| "same_action (Sell t seller) (Sell t' seller') \<longleftrightarrow> t = t'"
| "same_action _ _ \<longleftrightarrow> False"

text \<open>What the root of an action looks like.\<close>

fun root_of :: "relayed_action \<Rightarrow> auth_tree \<Rightarrow> bool" where
  "root_of (Transfer x) r \<longleftrightarrow> (\<exists>op. r = AuthTree (ContractFn op) [] \<and> payment_of x op)"
| "root_of (Bid x) r \<longleftrightarrow> (\<exists>op t. r = AuthTree (ContractFn op) [leaf t] \<and> submit_bid_of x op
     \<and> transfer_of (xb_token x) (xb_wallet x) (xb_escrow x) (xb_price x * xb_count x) t)"
| "root_of (Cancel x) r \<longleftrightarrow> (\<exists>op. r = AuthTree (ContractFn op) [] \<and> cancel_bid_of x op)"
| "root_of (Buy t usdc buyer seller) r \<longleftrightarrow> (\<exists>s rest dst. tree_fn r = ContractFn (tuple_root t) \<and> tree_subs r = s # rest
     \<and> leg_of usdc buyer s dst)"
| "root_of (Sell t seller) r \<longleftrightarrow> r = leaf (tuple_root t)"

lemma buyer_pays_Cons:
  assumes "buyer_pays usdc buyer seller gross subs"
  shows "\<exists>s rest dst. subs = s # rest \<and> leg_of usdc buyer s dst"
proof -
  obtain rs where "list_all2 (leg_of usdc buyer) subs rs" "rs \<noteq> []"
    using assms by (auto simp: buyer_pays_def split: prod.splits)
  then show ?thesis by (cases subs; cases rs) auto
qed

lemma accepted_buyer_root:
  assumes "signs_accept lib p t usdc buyer seller tx a (e, sig, be, se)" "en_creds e = AddressCreds c"
  shows "root_of (Buy t usdc buyer seller) (en_root e)" "asserts lib p a c (en_root e) sig"
  using assms buyer_pays_Cons [of usdc buyer seller "tu_gross t" "tree_subs (en_root e)"]
  by (auto simp: signs_accept_def)

lemma accepts_root:
  assumes "accepts lib p act inp a c root"
  shows "root_of act root" "\<exists>sig. asserts lib p a c root sig"
proof -
  have "root_of act root \<and> (\<exists>sig. asserts lib p a c root sig)"
  proof (cases act)
    case (Buy t usdc buyer seller)
    then obtain tx where "inp = SignedTx tx" using assms by (cases inp) auto
    with assms Buy obtain e sig be se where "signs_accept lib p t usdc buyer seller tx a (e, sig, be, se)"
      "en_creds e = AddressCreds c" "root = en_root e" by (auto simp: verifyAcceptQuoteAuthorization_Inr)
    with accepted_buyer_root [of lib p t usdc buyer seller tx a e sig be se c] Buy show ?thesis by blast
  qed (use assms in \<open>cases inp; force simp: verifyPasskeyAuthorization_Inr verifyBidAuthorization_Inr
        verifyCancelBidAuthorization_Inr verifySellerQuoteAuthEntry_Inr signs_alone_def transfer_call_ok_def
        bid_call_ok_def cancel_call_ok_def\<close>)+
  then show "root_of act root" "\<exists>sig. asserts lib p a c root sig" by auto
qed

lemma contract_call_inject: "contract_call c f xs = contract_call c' f' xs' \<longleftrightarrow> c = c' \<and> f = f' \<and> xs = xs'"
  by (auto simp: contract_call_def)

lemma transfer_of_unique:
  assumes "transfer_of token src dst amount f" "transfer_of token' src' dst' amount' f"
  shows "token = token' \<and> src = src' \<and> dst = dst' \<and> amount = amount'"
  using assms by (auto simp: transfer_of_def contract_call_inject dest: text_arg_unique)

lemma tuple_root_inject: "tuple_root t = tuple_root t' \<longleftrightarrow> t = t'"
  by (cases t; cases t') (auto simp: tuple_root_def contract_call_inject)

lemma root_function:
  "root_of act r \<Longrightarrow> \<exists>f. tree_fn r = ContractFn f \<and> iv_function f = (case act of Transfer _ \<Rightarrow> ''transfer''
     | Bid _ \<Rightarrow> ''submit_bid'' | Cancel _ \<Rightarrow> ''cancel_bid'' | _ \<Rightarrow> ''accept_quote'')"
  by (cases act) (auto simp: payment_of_def transfer_of_def submit_bid_of_def cancel_bid_of_def tuple_root_def leaf_def)

lemma root_determines:
  assumes "root_of act r" "root_of act' r"
  shows "same_action act act'"
proof -
  have f: "(case act of Transfer _ \<Rightarrow> ''transfer'' | Bid _ \<Rightarrow> ''submit_bid'' | Cancel _ \<Rightarrow> ''cancel_bid''
       | _ \<Rightarrow> ''accept_quote'') = (case act' of Transfer _ \<Rightarrow> ''transfer'' | Bid _ \<Rightarrow> ''submit_bid''
       | Cancel _ \<Rightarrow> ''cancel_bid'' | _ \<Rightarrow> ''accept_quote'')"
    using root_function [OF assms(1)] root_function [OF assms(2)] by auto
  show ?thesis
  proof (cases act)
    case (Transfer x)
    with f obtain y where y: "act' = Transfer y" by (cases act') auto
    obtain op where "payment_of x op" "payment_of y op" using assms Transfer y by auto
    then obtain d n d' n' where *: "transfer_of (xt_token x) (xt_wallet x) d n op"
      "transfer_of (xt_token y) (xt_wallet y) d' n' op" "xt_to x \<in> {None, Some d}" "xt_amount x \<in> {None, Some n}"
      "xt_to y \<in> {None, Some d'}" "xt_amount y \<in> {None, Some n'}" unfolding payment_of_def by blast
    from transfer_of_unique [OF *(1,2)] *(3-6) show ?thesis unfolding Transfer y by auto
  next
    case (Bid x)
    with f obtain y where y: "act' = Bid y" by (cases act') auto
    obtain op t where *: "submit_bid_of x op" "submit_bid_of y op"
      "transfer_of (xb_token x) (xb_wallet x) (xb_escrow x) (xb_price x * xb_count x) t"
      "transfer_of (xb_token y) (xb_wallet y) (xb_escrow y) (xb_price y * xb_count y) t"
      using assms Bid y by (auto simp: leaf_def)
    have "xb_token x = xb_token y" "xb_wallet x = xb_wallet y" using transfer_of_unique [OF *(3,4)] by auto
    moreover have "xb_escrow x = xb_escrow y" "xb_price x = xb_price y" "xb_count x = xb_count y" "xb_idem x = xb_idem y"
      using *(1,2) by (auto simp: submit_bid_of_def contract_call_inject)
    ultimately show ?thesis unfolding Bid y by (cases x; cases y) simp
  next
    case (Cancel x)
    with f obtain y where y: "act' = Cancel y" by (cases act') auto
    obtain op where "cancel_bid_of x op" "cancel_bid_of y op" using assms Cancel y by auto
    then show ?thesis unfolding Cancel y
      by (cases x; cases y) (auto simp: cancel_bid_of_def contract_call_inject dest: text_arg_unique)
  next
    case (Buy t usdc buyer seller)
    with f assms obtain t' u' b' s' where y: "act' = Buy t' u' b' s'" by (cases act') (auto simp: leaf_def)
    from assms Buy y show ?thesis
      by (auto simp: tuple_root_inject leg_of_def leaf_def contract_call_inject dest: text_arg_unique)
  next
    case (Sell t seller)
    with f assms obtain t' s' where y: "act' = Sell t' s'" by (cases act') (auto simp: leaf_def)
    from assms Sell y show ?thesis by (auto simp: leaf_def tuple_root_inject)
  qed
qed


definition auth_preimage :: "passkey_lib \<Rightarrow> bytes \<Rightarrow> address_creds \<Rightarrow> auth_tree \<Rightarrow> bytes" where
  "auth_preimage lib p c root = pl_preimage lib (pl_sha256 lib p) (ac_nonce c) (ac_expiry c) root"

definition sha_collision :: "passkey_lib \<Rightarrow> bytes \<Rightarrow> bytes \<Rightarrow> bool" where
  "sha_collision lib xs ys \<longleftrightarrow> xs \<noteq> ys \<and> pl_sha256 lib xs = pl_sha256 lib ys"

lemma asserts_challenge:
  assumes "asserts lib p a c root sig" "asserts lib p a' c' root' sig'" "wa_client a = wa_client a'"
  shows "expected_challenge lib p c root (wa_rules a) = expected_challenge lib p c' root' (wa_rules a')"
  using assms by (auto simp: asserts_def client_data_ok_def)

text \<open>
  C36. A passkey signature authorizes one action: if two verifiers of the relayer, of any kind, accept the
  same client data, then both accepted entries have the same nonce, expiry and invocation tree and
  the two actions are the same with the same pinned terms, or sha-256 collides on their two
  preimages.
\<close>

theorem passkey_signature_binds_one_action:
  assumes "inj (pl_base64url lib)"
    "\<And>i. inj (\<lambda>(nonce, expiry, root). pl_preimage lib i nonce expiry root)"
    "accepts lib p act inp a c root" "accepts lib p act' inp' a' c' root'"
    "wa_client a = wa_client a'" "wa_rules a = [DEFAULT_CONTEXT_RULE_ID]" "wa_rules a' = [DEFAULT_CONTEXT_RULE_ID]"
  shows "ac_nonce c = ac_nonce c' \<and> ac_expiry c = ac_expiry c' \<and> root = root' \<and> same_action act act'
    \<or> sha_collision lib (auth_preimage lib p c root) (auth_preimage lib p c' root')
    \<or> sha_collision lib (pl_sha256 lib (auth_preimage lib p c root) @ pl_rules lib [DEFAULT_CONTEXT_RULE_ID])
        (pl_sha256 lib (auth_preimage lib p c' root') @ pl_rules lib [DEFAULT_CONTEXT_RULE_ID])"
proof (rule disjCI)
  let ?pre = "auth_preimage lib p c root" and ?pre' = "auth_preimage lib p c' root'"
  assume no: "\<not> (sha_collision lib ?pre ?pre'
    \<or> sha_collision lib (pl_sha256 lib ?pre @ pl_rules lib [DEFAULT_CONTEXT_RULE_ID])
        (pl_sha256 lib ?pre' @ pl_rules lib [DEFAULT_CONTEXT_RULE_ID]))"
  obtain sig sig' where "asserts lib p a c root sig" "asserts lib p a' c' root' sig'"
    using accepts_root(2) [OF assms(3)] accepts_root(2) [OF assms(4)] by blast
  from asserts_challenge [OF this assms(5)] assms(1,6,7)
  have "pl_sha256 lib (pl_sha256 lib ?pre @ pl_rules lib [DEFAULT_CONTEXT_RULE_ID])
      = pl_sha256 lib (pl_sha256 lib ?pre' @ pl_rules lib [DEFAULT_CONTEXT_RULE_ID])"
    by (simp add: expected_challenge_def computeAuthDigest_def computeHostPayloadHash_def auth_preimage_def inj_eq)
  with no have "?pre = ?pre'" by (auto simp: sha_collision_def)
  then have eq: "ac_nonce c = ac_nonce c'" "ac_expiry c = ac_expiry c'" "root = root'"
    using injD [OF assms(2) [of "pl_sha256 lib p"], of "(ac_nonce c, ac_expiry c, root)" "(ac_nonce c', ac_expiry c', root')"]
    by (auto simp: auth_preimage_def)
  moreover have "same_action act act'"
    using root_determines accepts_root(1) [OF assms(3)] accepts_root(1) [OF assms(4)] eq(3) by blast
  ultimately show "ac_nonce c = ac_nonce c' \<and> ac_expiry c = ac_expiry c' \<and> root = root' \<and> same_action act act'"
    by blast
qed

section \<open>From a build to its verification\<close>

text \<open>An assertion the passkey makes over a challenge, at a user-verified prompt of an allowed origin.\<close>

definition genuine :: "passkey_lib \<Rightarrow> string \<Rightarrow> passkey_assertion \<Rightarrow> bytes \<Rightarrow> bool" where
  "genuine lib ch a sig \<longleftrightarrow> wa_auth a \<noteq> [] \<and> wa_client a \<noteq> [] \<and> wa_sig a \<noteq> []
     \<and> wa_rules a = [DEFAULT_CONTEXT_RULE_ID] \<and> client_data_ok lib ch a \<and> user_verified lib a
     \<and> signed_by_bound_key lib a sig"

text \<open>A simulation surfaces one unsigned entry of the wallet, with the tree the contract asks for.\<close>

definition wallet_entry :: "ident \<Rightarrow> int \<Rightarrow> auth_tree \<Rightarrow> auth_entry" where
  "wallet_entry w nonce root =
     \<lparr>en_creds = AddressCreds \<lparr>ac_address = w, ac_nonce = nonce, ac_expiry = 0, ac_signature = None\<rparr>, en_root = root\<rparr>"

definition wallet_sim :: "ident \<Rightarrow> int \<Rightarrow> (invocation \<Rightarrow> auth_tree list) \<Rightarrow> invocation \<Rightarrow> sim_auth rpc" where
  "wallet_sim w nonce subs op = Rpc (Some [wallet_entry w nonce (AuthTree (ContractFn op) (subs op))])"

lemma built_signs_alone:
  assumes "build_for_passkey lib p validity account (wallet_sim w nonce subs) latest op = Inr (tx, ch, expires)"
    "genuine lib ch a sig" "call op (subs op)"
  shows "\<exists>e. signs_alone lib p w call tx a (e, sig, expires)"
  using assms
  by (auto simp: build_for_passkey_def wallet_sim_def wallet_entry_def address_entry_Some address_entry.simps err_simps
      signs_alone_def genuine_def asserts_def Let_def)

lemma built_transfer_verifies:
  assumes "genuine lib ch a sig" "amount \<le> mx" "tgt \<in> {None, Some dst}" "exact \<in> {None, Some amount}"
    "buildTransfer lib p account (wallet_sim w nonce (\<lambda>_. [])) latest token w dst (Some amount) = Inr (tx, ch, expires)"
  shows "\<exists>e. verifyPasskeyAuthorization lib p \<lparr>xt_wallet = w, xt_token = token, xt_max = mx, xt_to = tgt,
    xt_amount = exact\<rparr> tx a = Inr (e, sig, expires)"
  unfolding verifyPasskeyAuthorization_Inr
  by (rule built_signs_alone [OF _ assms(1)])
    (use assms in \<open>auto simp: buildTransfer_def err_simps transfer_call_ok_def payment_of_def transfer_of_def
      transfer_call_def contract_call_inject\<close>)

lemma built_bid_verifies:
  assumes "genuine lib ch a sig" "price * cnt \<le> mx"
    "buildBid lib p account (wallet_sim w nonce (\<lambda>_. [leaf (transfer_call token w escrow (price * cnt))])) latest
       escrow w (Some (price, cnt)) idem = Inr (tx, ch, expires)"
  shows "\<exists>e. verifyBidAuthorization lib p \<lparr>xb_wallet = w, xb_escrow = escrow, xb_token = token, xb_price = price,
    xb_count = cnt, xb_max = mx, xb_idem = idem\<rparr> tx a = Inr (e, sig, expires)"
  unfolding verifyBidAuthorization_Inr
  by (rule built_signs_alone [OF _ assms(1)])
    (use assms in \<open>auto simp: buildBid_def err_simps bid_call_ok_def submit_bid_of_def transfer_of_def
      transfer_call_def contract_call_inject buildSubmitBidOperation_def encodeSubmitBidArgs_def\<close>)

lemma built_cancel_verifies:
  assumes "genuine lib ch a sig"
    "buildCancelBid lib p account (wallet_sim w nonce (\<lambda>_. [])) latest escrow w bidId = Inr (tx, ch, expires)"
  shows "\<exists>e. verifyCancelBidAuthorization lib p \<lparr>xc_caller = w, xc_escrow = escrow, xc_bid = bidId\<rparr> tx a
    = Inr (e, sig, expires)"
  unfolding verifyCancelBidAuthorization_Inr
  by (rule built_signs_alone [OF _ assms(1)])
    (use assms in \<open>auto simp: buildCancelBid_def err_simps cancel_call_ok_def cancel_bid_of_def
      contract_call_inject buildCancelBidOperation_def encodeCancelBidArgs_def\<close>)

text \<open>
  C40. What the relayer builds it also accepts: the transaction built for a transfer, a bid or a cancel,
  with the tree the contract asks for and a genuine assertion of its challenge, passes its verifier
  and is valid until the ledger the build announced.
\<close>

theorem built_transactions_verify:
  assumes "genuine lib ch a sig"
  shows "(buildTransfer lib p account (wallet_sim w nonce (\<lambda>_. [])) latest token w dst (Some amount) = Inr (tx, ch, expires)
      \<and> amount \<le> mx \<and> tgt \<in> {None, Some dst} \<and> exact \<in> {None, Some amount}
      \<longrightarrow> (\<exists>e. verifyPasskeyAuthorization lib p \<lparr>xt_wallet = w, xt_token = token, xt_max = mx, xt_to = tgt,
            xt_amount = exact\<rparr> tx a = Inr (e, sig, expires)))
    \<and> (buildBid lib p account (wallet_sim w nonce (\<lambda>_. [leaf (transfer_call token w escrow (price * cnt))])) latest
        escrow w (Some (price, cnt)) idem = Inr (tx, ch, expires) \<and> price * cnt \<le> mx
      \<longrightarrow> (\<exists>e. verifyBidAuthorization lib p \<lparr>xb_wallet = w, xb_escrow = escrow, xb_token = token, xb_price = price,
            xb_count = cnt, xb_max = mx, xb_idem = idem\<rparr> tx a = Inr (e, sig, expires)))
    \<and> (buildCancelBid lib p account (wallet_sim w nonce (\<lambda>_. [])) latest escrow w bidId = Inr (tx, ch, expires)
      \<longrightarrow> (\<exists>e. verifyCancelBidAuthorization lib p \<lparr>xc_caller = w, xc_escrow = escrow, xc_bid = bidId\<rparr> tx a
            = Inr (e, sig, expires)))"
proof (intro conjI impI, goal_cases)
  case 1
  then show ?case by (elim conjE) (rule built_transfer_verifies [OF assms]; assumption)
next
  case 2
  then show ?case by (elim conjE) (rule built_bid_verifies [OF assms]; assumption)
next
  case 3
  then show ?case by (rule built_cancel_verifies [OF assms])
qed

section \<open>The trade the verifier refuses\<close>

text \<open>The two entries of an accepted quote as the contract asks for them.\<close>

definition trade_tx ::
  "ident \<Rightarrow> ident \<Rightarrow> ident \<Rightarrow> ident \<Rightarrow> quote_args \<Rightarrow> int \<Rightarrow> int \<Rightarrow> parsed_tx" where
  "trade_tx settler usdc treasury artistPayout q buyerNonce sellerNonce =
     TransactionOf [InvokeHostFunction (InvokeContract (buildAcceptQuoteOperation settler q))
       [wallet_entry (qa_buyer q) buyerNonce (buildBuyerRootInvocation settler usdc treasury artistPayout q),
        wallet_entry (qa_seller q) sellerNonce (buildSellerRootInvocation settler q)]]"

definition trusted_of :: "ident \<Rightarrow> quote_args \<Rightarrow> accept_trusted" where
  "trusted_of settler q = \<lparr>tu_settler = settler, tu_rfq = qa_rfq q, tu_quote = qa_quote q, tu_artwork = qa_artwork q,
     tu_count = qa_count q, tu_gross = qa_gross q\<rparr>"

lemma computeUsdcSplit_pos:
  assumes "0 < gross"
  shows "computeUsdcSplit gross = (gross * 150 div 10000, gross * 150 div 10000, gross - 2 * (gross * 150 div 10000))"
    "gross * 150 div 10000 < gross - 2 * (gross * 150 div 10000)" "0 < gross * 150 div 10000 \<longleftrightarrow> 67 \<le> gross"
proof -
  show "computeUsdcSplit gross = (gross * 150 div 10000, gross * 150 div 10000, gross - 2 * (gross * 150 div 10000))"
    using assms by (simp add: computeUsdcSplit_def SETTLE_FEE_BPS_def ROYALTY_BPS_def BPS_DENOM_def sdiv_nonneg Let_def)
  show "gross * 150 div 10000 < gross - 2 * (gross * 150 div 10000)" "0 < gross * 150 div 10000 \<longleftrightarrow> 67 \<le> gross"
    using assms by (auto simp: pos_imp_zdiv_pos_iff)
qed

lemma leg_of_transfer: "leg_of usdc buyer (leaf (transfer_call usdc buyer dst amount)) r \<longleftrightarrow> r = (ScAddress dst, amount)"
  by (cases r) (auto simp: leg_of_def leaf_def transfer_call_def contract_call_inject)

lemma buyer_pays_built:
  assumes "0 < qa_gross q"
  shows "buyer_pays usdc (qa_buyer q) (qa_seller q) (qa_gross q)
      (tree_subs (buildBuyerRootInvocation settler usdc treasury artistPayout q))
    \<longleftrightarrow> qa_gross q < 67 \<or> qa_seller q \<notin> {treasury, artistPayout}"
proof -
  let ?b = "qa_buyer q" and ?s = "qa_seller q"
  define g where "g = qa_gross q"
  define cut where "cut = g * 150 div 10000"
  have split: "computeUsdcSplit g = (cut, cut, g - 2 * cut)" "cut < g - 2 * cut" "0 < cut \<longleftrightarrow> 67 \<le> g"
    using computeUsdcSplit_pos [of g] assms by (simp_all add: cut_def g_def)
  have "0 \<le> cut" using assms by (simp add: cut_def g_def)
  show ?thesis
  proof (cases "0 < cut")
    case True
    then have "buyer_pays usdc ?b ?s g (tree_subs (buildBuyerRootInvocation settler usdc treasury artistPayout q))
      \<longleftrightarrow> ?s \<notin> {treasury, artistPayout}"
      using split by (auto simp: buyer_pays_def buildBuyerRootInvocation_def g_def [symmetric] list_all2_Cons1 leg_of_transfer)
    then show ?thesis using True split by (auto simp: g_def)
  next
    case False
    with \<open>0 \<le> cut\<close> have "cut = 0" by simp
    then have "buyer_pays usdc ?b ?s g (tree_subs (buildBuyerRootInvocation settler usdc treasury artistPayout q))"
      using split by (auto simp: buyer_pays_def buildBuyerRootInvocation_def g_def [symmetric] list_all2_Cons1 leg_of_transfer)
    then show ?thesis using False split by (auto simp: g_def)
  qed
qed

text \<open>
  Of the trades the contract settles, the relayer's verifier accepts one, with a genuine assertion of
  the buyer, exactly when neither fee goes to the seller's wallet (or the gross is below 67 stroops,
  so that there are no fees): an artist or the treasury cannot sell from the wallet that receives
  their cut.
\<close>

lemma trade_verifies_unless_seller_earns_fee:
  assumes "0 < qa_gross q" "qa_buyer q \<noteq> qa_seller q"
    "length (qa_rfq q) = 32" "length (qa_quote q) = 32" "length (qa_artwork q) = 32"
    "genuine lib (expected_challenge lib p \<lparr>ac_address = qa_buyer q, ac_nonce = buyerNonce, ac_expiry = 0, ac_signature = None\<rparr>
       (buildBuyerRootInvocation settler usdc treasury artistPayout q) [DEFAULT_CONTEXT_RULE_ID]) a sig"
  shows "(\<exists>v. verifyAcceptQuoteAuthorization lib p (trusted_of settler q) usdc (qa_buyer q) (qa_seller q)
       (trade_tx settler usdc treasury artistPayout q buyerNonce sellerNonce) a = Inr v)
    \<longleftrightarrow> qa_gross q < 67 \<or> qa_seller q \<notin> {treasury, artistPayout}"
proof -
  let ?root = "buildBuyerRootInvocation settler usdc treasury artistPayout q"
  let ?be = "wallet_entry (qa_buyer q) buyerNonce ?root"
  let ?se = "wallet_entry (qa_seller q) sellerNonce (buildSellerRootInvocation settler q)"
  have eo: "entry_of w (wallet_entry w' n r) \<longleftrightarrow> w' = w" for w w' n r
    by (simp add: entry_of_def wallet_entry_def address_entry.simps)
  have fn: "tuple_root (trusted_of settler q) = acceptQuoteRootFn settler q"
    by (simp add: tuple_root_def trusted_of_def acceptQuoteRootFn_def encodeAuthTupleArgs_def)
  have roots: "tree_fn ?root = ContractFn (tuple_root (trusted_of settler q))"
    "buildSellerRootInvocation settler q = leaf (tuple_root (trusted_of settler q))"
    by (auto simp: fn buildBuyerRootInvocation_def buildSellerRootInvocation_def split: prod.splits)
  have call: "accept_call_of (trusted_of settler q) (qa_buyer q) (qa_seller q) (buildAcceptQuoteOperation settler q)"
    using assms(3-5) by (auto simp: accept_call_of_def trusted_of_def ids_32_def buildAcceptQuoteOperation_def
      encodeAcceptQuoteArgs_def contract_call_inject)
  have filt: "filter (entry_of (qa_buyer q)) [?be, ?se] = [?be]" "filter (entry_of (qa_seller q)) [?be, ?se] = [?se]"
    using assms(2) by (simp_all add: eo)
  have "(\<exists>v. signs_accept lib p (trusted_of settler q) usdc (qa_buyer q) (qa_seller q)
      (trade_tx settler usdc treasury artistPayout q buyerNonce sellerNonce) a v)
    \<longleftrightarrow> buyer_pays usdc (qa_buyer q) (qa_seller q) (qa_gross q) (tree_subs ?root)" (is "?l \<longleftrightarrow> ?r")
  proof
    assume ?l
    then obtain e where "filter (entry_of (qa_buyer q)) [?be, ?se] = [e]"
      "buyer_pays usdc (qa_buyer q) (qa_seller q) (tu_gross (trusted_of settler q)) (tree_subs (en_root e))"
      unfolding signs_accept_def trade_tx_def by auto
    with filt(1) show ?r by (auto simp: wallet_entry_def trusted_of_def)
  next
    assume r: ?r
    have creds: "en_creds ?be = AddressCreds \<lparr>ac_address = qa_buyer q, ac_nonce = buyerNonce, ac_expiry = 0, ac_signature = None\<rparr>"
      "en_creds ?se = AddressCreds \<lparr>ac_address = qa_seller q, ac_nonce = sellerNonce, ac_expiry = 0, ac_signature = None\<rparr>"
      "en_root ?be = ?root" "en_root ?se = buildSellerRootInvocation settler q"
      "tu_gross (trusted_of settler q) = qa_gross q"
      by (simp_all add: wallet_entry_def trusted_of_def)
    have "signs_accept lib p (trusted_of settler q) usdc (qa_buyer q) (qa_seller q)
      (trade_tx settler usdc treasury artistPayout q buyerNonce sellerNonce) a (?be, sig, 0, 0)"
      unfolding signs_accept_def trade_tx_def prod.case creds
      by (rule exI [of _ "buildAcceptQuoteOperation settler q"], rule exI [of _ "[?be, ?se]"],
          rule exI [of _ "\<lparr>ac_address = qa_buyer q, ac_nonce = buyerNonce, ac_expiry = 0, ac_signature = None\<rparr>"],
          rule exI [of _ ?se],
          rule exI [of _ "\<lparr>ac_address = qa_seller q, ac_nonce = sellerNonce, ac_expiry = 0, ac_signature = None\<rparr>"])
        (use call filt roots r assms(6) creds in \<open>simp add: genuine_def asserts_def\<close>)
    then show ?l by blast
  qed
  then show ?thesis using buyer_pays_built [OF assms(1)] by (simp add: verifyAcceptQuoteAuthorization_Inr)
qed


section \<open>The client data that freezes a settlement\<close>

text \<open>What a verifier tells the relayer: an error, or the expiry of the verified entry.\<close>

definition verdict :: "relayer_throw + verified \<Rightarrow> relayer_throw + int" where
  "verdict r = (case r of Inl e \<Rightarrow> Inl e | Inr (_, _, expiry) \<Rightarrow> Inr expiry)"

lemma null_client_data_untyped:
  assumes "wa_auth a \<noteq> []" "wa_client a \<noteq> []" "wa_sig a \<noteq> []" "length (wa_client a) \<le> MAX_CLIENT_DATA_JSON"
    "pl_json lib (wa_client a) = Some JNull" "price * cnt \<le> mx"
    "buildBid lib p account (wallet_sim w nonce (\<lambda>_. [leaf (transfer_call token w escrow (price * cnt))])) latest
       escrow w (Some (price, cnt)) idem = Inr (tx, ch, expires)"
  shows "verifyBidAuthorization lib p \<lparr>xb_wallet = w, xb_escrow = escrow, xb_token = token, xb_price = price,
    xb_count = cnt, xb_max = mx, xb_idem = idem\<rparr> tx a = Inl UntypedError"
proof -
  let ?op = "buildSubmitBidOperation escrow w price cnt idem"
  let ?c = "\<lparr>ac_address = w, ac_nonce = nonce, ac_expiry = expires, ac_signature = None\<rparr>"
  let ?e = "\<lparr>en_creds = AddressCreds ?c, en_root = AuthTree (ContractFn ?op) [leaf (transfer_call token w escrow (price * cnt))]\<rparr>"
  have tx: "tx = TransactionOf [InvokeHostFunction (InvokeContract ?op) [?e]]" and "length idem = 32"
    using assms(7) by (auto simp: buildBid_def build_for_passkey_def wallet_sim_def wallet_entry_def
      address_entry_Some address_entry.simps err_simps Let_def)
  have "single_entry tx w = Inr (InvokeContract ?op, ?e, ?c)" by (simp add: single_entry_Inr tx)
  moreover have "bound_invocation (InvokeContract ?op) (en_root ?e) = Inr ?op" by (simp add: bound_invocation_Inr)
  moreover have "pin_submit_bid \<lparr>xb_wallet = w, xb_escrow = escrow, xb_token = token, xb_price = price,
      xb_count = cnt, xb_max = mx, xb_idem = idem\<rparr> ?op = Inr ()"
    using \<open>length idem = 32\<close> by (simp add: pin_submit_bid_Inr submit_bid_of_def buildSubmitBidOperation_def
      encodeSubmitBidArgs_def contract_call_inject)
  moreover have "pin_escrow_transfer \<lparr>xb_wallet = w, xb_escrow = escrow, xb_token = token, xb_price = price,
      xb_count = cnt, xb_max = mx, xb_idem = idem\<rparr> (tree_subs (en_root ?e)) = Inr ()"
    using assms(6) by (auto simp: pin_escrow_transfer_Inr transfer_of_def transfer_call_def contract_call_inject leaf_def)
  moreover have "require_present a = Inr ()" using assms(1-3) by (simp add: require_present_Inr)
  moreover have "verify_steps_4_to_6 lib p ?c (en_root ?e) a = Inl UntypedError"
    using assms(4,5) by (simp add: verify_steps_4_to_6_def verify_client_data_def guardE_def)
  ultimately show ?thesis by (simp add: verifyBidAuthorization_def)
qed

lemma untyped_job_stays:
  assumes "relay_run (\<lambda>n ok now res. escrow_process n ok now res i) pending submitSignedBid cfg v d as landed out d'"
    "v = Inl UntypedError" "find_bid i (db_bids d) = Some b" "bd_status b = B_submitted"
  shows "out = JobRetry \<and> \<not> landed \<and> d' = d"
  using assms
proof (induction rule: relay_run.induct)
  case (attempt as landed s a res db_ok now out s')
  from attempt have s: "\<not> landed" "s = d" by auto
  have v: "at_verify a = Inl UntypedError" using attempt by simp
  then have "res = Inl UntypedError" using attempt.hyps
    by (auto simp: submitSignedBid_def send_tx_def before_send_def)
  moreover have "\<not> at_lands a" using v attempt.hyps
    by (auto simp: honest_network_def reaches_send_def before_send_def)
  ultimately show ?case using attempt s by (auto simp: escrow_process_def)
qed auto

lemma inflight_blocks_settle:
  assumes "b \<in> set (db_bids d)" "bd_status b \<in> {B_submitted, B_canceling}" "bd_deleted b = None"
  shows "\<exists>e. settle_gates cfg now (bd_offering b) d = Inl e"
proof -
  have "0 < countInflight (bd_offering b) (db_bids d)"
    using assms by (auto simp: countInflight_def sql_count_def B_SETTLING_INFLIGHT_def filter_empty_conv)
  moreover have "of_id off = bd_offering b" if "find_offering (bd_offering b) (db_offerings d) = Some off" for off
    using that by (auto simp: find_offering_def dest!: sql_find_Some)
  ultimately show ?thesis
    by (cases "find_offering (bd_offering b) (db_offerings d)") (simp_all add: settle_gates_def Let_def)
qed

text \<open>
  C37. A bidder freezes the settlement of an offering with one prepared bid whose client data is the
  JSON value \<open>null\<close>: reading a property of null throws outside the verifier's \<open>try\<close>, so every run of
  the escrow job ends in a retry that leaves the bid submitted, nothing reaches the chain, and the
  settle trigger refuses the offering whatever the configuration and the time.
\<close>

theorem null_client_data_freezes_settlement:
  assumes "wa_auth a \<noteq> []" "wa_client a \<noteq> []" "wa_sig a \<noteq> []" "length (wa_client a) \<le> MAX_CLIENT_DATA_JSON"
    "pl_json lib (wa_client a) = Some JNull" "price * cnt \<le> mx"
    "buildBid lib p account (wallet_sim w nonce (\<lambda>_. [leaf (transfer_call token w escrow (price * cnt))])) latest
       escrow w (Some (price, cnt)) idem = Inr (tx, ch, expires)"
    "find_bid i (db_bids d) = Some b" "bd_status b = B_submitted"
    "relay_run (\<lambda>n ok now res. escrow_process n ok now res i) pending submitSignedBid rcfg
       (verdict (verifyBidAuthorization lib p \<lparr>xb_wallet = w, xb_escrow = escrow, xb_token = token, xb_price = price,
          xb_count = cnt, xb_max = mx, xb_idem = idem\<rparr> tx a)) d as landed out d'"
  shows "out = JobRetry \<and> \<not> landed \<and> d' = d \<and> (\<forall>cfg now. \<exists>e. settle_gates cfg now (bd_offering b) d' = Inl e)"
proof -
  have "verdict (verifyBidAuthorization lib p \<lparr>xb_wallet = w, xb_escrow = escrow, xb_token = token, xb_price = price,
          xb_count = cnt, xb_max = mx, xb_idem = idem\<rparr> tx a) = Inl UntypedError"
    using null_client_data_untyped [OF assms(1-7)] by (simp add: verdict_def)
  from untyped_job_stays [OF assms(10) this assms(8,9)] have "out = JobRetry \<and> \<not> landed \<and> d' = d" .
  moreover have "b \<in> set (db_bids d)" "bd_deleted b = None"
    using assms(8) by (auto simp: find_bid_def dest!: sql_find_Some)
  ultimately show ?thesis using inflight_blocks_settle assms(9) by blast
qed

end
