(* ===== verification/Auth_Witness.thy ===== *)
theory Auth_Witness
  imports Auth_Main Bids_Main "HOL-Library.Countable"
begin

text \<open>
  Concrete instances of the properties of the verifiers. The sample library has an injective
  preimage (an enumeration of all invocation trees) and a constant digest.
\<close>

instance scval :: countable
  by countable_datatype

instance invocation_ext :: (countable) countable
proof (rule countable_classI [of "\<lambda>r. to_nat (iv_contract r, iv_function r, iv_args r, invocation.more r)"])
  fix x y :: "'a invocation_ext"
  assume "to_nat (iv_contract x, iv_function x, iv_args x, invocation.more x)
    = to_nat (iv_contract y, iv_function y, iv_args y, invocation.more y)"
  then show "x = y" by (cases x; cases y) simp
qed

instance auth_fn :: countable
  by countable_datatype

instance auth_tree :: countable
  by countable_datatype

definition sample_base64url :: "bytes \<Rightarrow> string" where
  "sample_base64url = map (\<lambda>w. char_of (unat w))"

definition sample_lib :: "json \<Rightarrow> passkey_lib" where
  "sample_lib json = \<lparr>pl_sha256 = (\<lambda>_. replicate 32 0),
     pl_preimage = (\<lambda>_ nonce expiry root. replicate (to_nat (nonce, expiry, root)) 0),
     pl_rules = (\<lambda>_. [0]), pl_base64url = sample_base64url, pl_json = (\<lambda>_. Some json),
     pl_fromDER = (\<lambda>_. Some (1, 1)), pl_hasHighS = (\<lambda>_. False), pl_normalizeS = (\<lambda>s. s),
     pl_compact = (\<lambda>_. replicate 64 0), pl_verify = (\<lambda>_ _ _. True)\<rparr>"

definition sample_challenge :: string where
  "sample_challenge = sample_base64url (replicate 32 0)"

definition sample_json :: json where
  "sample_json = JObject [(''type'', JString ''webauthn.get''), (''challenge'', JString sample_challenge),
     (''origin'', JString ''https://tove'')]"

definition sample_passkey :: passkey_assertion where
  "sample_passkey = \<lparr>wa_rules = [DEFAULT_CONTEXT_RULE_ID], wa_key = 4 # replicate 64 0,
     wa_auth = replicate 32 0 @ [5, 0, 0, 0, 0], wa_client = [1], wa_sig = [1], wa_rp = [7],
     wa_origins = [''https://tove'']\<rparr>"

lemma sample_lib_sel [simp]:
  "pl_sha256 (sample_lib j) xs = replicate 32 0" "pl_base64url (sample_lib j) = sample_base64url"
  "pl_json (sample_lib j) c = Some j"
  by (simp_all add: sample_lib_def)

lemma sample_genuine: "genuine (sample_lib sample_json) sample_challenge sample_passkey (replicate 64 0)"
  by (simp add: genuine_def client_data_ok_def user_verified_def signed_by_bound_key_def sample_passkey_def
    sample_json_def MAX_CLIENT_DATA_JSON_def FLAG_UP_def FLAG_UV_def toLowSCompactSignature_def
    verifyP256Assertion_def nth_append sample_lib_def)

lemma sample_expected: "expected_challenge (sample_lib j) p c root rules = sample_challenge"
  by (simp add: expected_challenge_def computeAuthDigest_def sample_challenge_def)

lemma sample_inj:
  "inj (pl_base64url (sample_lib j))" "inj (\<lambda>(n, e, r). pl_preimage (sample_lib j) i n e r)"
proof -
  have "inj (\<lambda>w :: 8 word. char_of (unat w))"
  proof (rule injI)
    fix v w :: "8 word"
    assume "char_of (unat v) = (char_of (unat w) :: char)"
    then have "(of_char (char_of (unat v)) :: nat) = of_char (char_of (unat w) :: char)" by simp
    then have "unat v mod 256 = unat w mod 256" by simp
    moreover have "unat v < 256" "unat w < 256" using unsigned_less [of v] unsigned_less [of w] by simp_all
    ultimately have "unat v = unat w" by simp
    then show "v = w" by (rule unsigned_word_eqI)
  qed
  then show "inj (pl_base64url (sample_lib j))" by (simp add: sample_base64url_def)
  show "inj (\<lambda>(n, e, r). pl_preimage (sample_lib j) i n e r)"
    by (rule injI) (auto simp: sample_lib_def dest!: arg_cong [where f = length])
qed

section \<open>A bid from build to verification\<close>

definition sample_idem :: bytes where
  "sample_idem = replicate 32 9"

definition sample_bid_root :: auth_tree where
  "sample_bid_root = AuthTree (ContractFn (buildSubmitBidOperation ''CESC'' ''CWAL'' 10 3 sample_idem))
     [leaf (transfer_call ''CUSD'' ''CWAL'' ''CESC'' 30)]"

definition sample_bid_creds :: address_creds where
  "sample_bid_creds = \<lparr>ac_address = ''CWAL'', ac_nonce = 77, ac_expiry = 1120, ac_signature = None\<rparr>"

definition sample_bid_tx :: parsed_tx where
  "sample_bid_tx = TransactionOf [InvokeHostFunction
     (InvokeContract (buildSubmitBidOperation ''CESC'' ''CWAL'' 10 3 sample_idem))
     [\<lparr>en_creds = AddressCreds sample_bid_creds, en_root = sample_bid_root\<rparr>]]"

definition sample_bid_expect :: "int \<Rightarrow> bid_expect" where
  "sample_bid_expect mx = \<lparr>xb_wallet = ''CWAL'', xb_escrow = ''CESC'', xb_token = ''CUSD'', xb_price = 10,
     xb_count = 3, xb_max = mx, xb_idem = sample_idem\<rparr>"

definition sample_bid_sim :: "invocation \<Rightarrow> sim_auth rpc" where
  "sample_bid_sim = wallet_sim ''CWAL'' 77 (\<lambda>_. [leaf (transfer_call ''CUSD'' ''CWAL'' ''CESC'' (10 * 3))])"

lemma sample_built:
  "buildBid (sample_lib j) p (Rpc ()) sample_bid_sim (Rpc 1000) ''CESC'' ''CWAL'' (Some (10, 3)) sample_idem
     = Inr (sample_bid_tx, sample_challenge, 1120)"
  by (simp add: buildBid_def build_for_passkey_def sample_bid_sim_def wallet_sim_def wallet_entry_def address_entry.simps
    guardE_def TRANSFER_I128_MAX_def sample_idem_def sample_expected BID_SIG_VALIDITY_LEDGERS_def sample_bid_tx_def
    sample_bid_creds_def sample_bid_root_def)

lemma sample_bid_accepted:
  assumes "30 \<le> mx"
  shows "accepts (sample_lib sample_json) p (Bid (sample_bid_expect mx)) (SignedTx sample_bid_tx) sample_passkey
    sample_bid_creds sample_bid_root"
proof -
  obtain e where "verifyBidAuthorization (sample_lib sample_json) p (sample_bid_expect mx) sample_bid_tx sample_passkey
      = Inr (e, replicate 64 0, 1120)"
    using built_bid_verifies [OF sample_genuine, of 10 3 mx p "Rpc ()" "''CWAL''" 77 "''CUSD''" "''CESC''" "Rpc 1000"
        sample_idem sample_bid_tx 1120] sample_built [unfolded sample_bid_sim_def] assms
    by (auto simp: sample_bid_expect_def)
  moreover then have "en_creds e = AddressCreds sample_bid_creds" "en_root e = sample_bid_root"
    by (auto simp: verifyBidAuthorization_Inr signs_alone_def sample_bid_tx_def)
  ultimately show ?thesis by auto
qed

theorem passkey_signature_binds_one_action_witness:
  "same_action (Bid (sample_bid_expect 30)) (Bid (sample_bid_expect 50))
    \<or> sha_collision (sample_lib sample_json) (auth_preimage (sample_lib sample_json) [] sample_bid_creds sample_bid_root)
        (auth_preimage (sample_lib sample_json) [] sample_bid_creds sample_bid_root)
    \<or> sha_collision (sample_lib sample_json) (replicate 32 0 @ [0]) (replicate 32 0 @ [0])"
  using passkey_signature_binds_one_action [OF sample_inj sample_bid_accepted sample_bid_accepted, of 30 50 "[]"]
  by (simp add: sample_passkey_def sample_lib_def)

theorem built_transactions_verify_witness:
  "\<exists>e. verifyBidAuthorization (sample_lib sample_json) [] (sample_bid_expect 30) sample_bid_tx sample_passkey
    = Inr (e, replicate 64 0, 1120)"
  using built_transactions_verify [OF sample_genuine, where p = "[]" and account = "Rpc ()" and w = "''CWAL''"
      and nonce = 77 and token = "''CUSD''" and escrow = "''CESC''" and latest = "Rpc 1000" and price = 10 and cnt = 3
      and idem = sample_idem and tx = sample_bid_tx and expires = 1120 and mx = 30]
    sample_built [of "sample_json" "[]", unfolded sample_bid_sim_def]
  by (simp add: sample_bid_expect_def)

section \<open>A trade\<close>

definition sample_trade_args :: quote_args where
  "sample_trade_args = \<lparr>qa_rfq = replicate 32 1, qa_quote = replicate 32 2, qa_artwork = replicate 32 3, qa_buyer = ''CBUY'',
     qa_seller = ''CSEL'', qa_count = 5, qa_gross = 1000\<rparr>"

theorem trade_verifies_unless_seller_earns_fee_witness:
  "(\<exists>v. verifyAcceptQuoteAuthorization (sample_lib sample_json) [] (trusted_of ''CSET'' sample_trade_args) ''CUSD'' ''CBUY'' ''CSEL''
       (trade_tx ''CSET'' ''CUSD'' ''GTRE'' ''GART'' sample_trade_args 1 2) sample_passkey = Inr v)
   \<and> \<not> (\<exists>v. verifyAcceptQuoteAuthorization (sample_lib sample_json) [] (trusted_of ''CSET'' sample_trade_args) ''CUSD'' ''CBUY'' ''CSEL''
       (trade_tx ''CSET'' ''CUSD'' ''GTRE'' ''CSEL'' sample_trade_args 1 2) sample_passkey = Inr v)"
  using trade_verifies_unless_seller_earns_fee [of sample_trade_args "sample_lib sample_json" "[]" 1 "''CSET''" "''CUSD''" "''GTRE''" "''GART''"
      sample_passkey "replicate 64 0" 2]
    trade_verifies_unless_seller_earns_fee [of sample_trade_args "sample_lib sample_json" "[]" 1 "''CSET''" "''CUSD''" "''GTRE''" "''CSEL''"
      sample_passkey "replicate 64 0" 2]
    sample_genuine
  by (simp add: sample_trade_args_def sample_expected)

section \<open>A frozen settlement\<close>

definition submitted_bid :: offering_bid where
  "submitted_bid = escrowed_bid\<lparr>bd_status := B_submitted, bd_deleted := None\<rparr>"

definition untyped_attempt :: attempt where
  "untyped_attempt = lost_attempt\<lparr>at_verify := Inl UntypedError, at_lands := False\<rparr>"

lemma untyped_run:
  assumes "find_bid (bd_id submitted_bid) (db_bids d) = Some submitted_bid"
  shows "relay_run (\<lambda>n ok now res. escrow_process n ok now res (bd_id submitted_bid)) (\<lambda>_. True) submitSignedBid net_cfg
    (Inl UntypedError) d [untyped_attempt] False JobRetry d"
proof -
  have "relay_run (\<lambda>n ok now res. escrow_process n ok now res (bd_id submitted_bid)) (\<lambda>_. True) submitSignedBid net_cfg
    (Inl UntypedError) d ([] @ [untyped_attempt]) (False \<or> at_lands untyped_attempt) JobRetry d"
  proof (rule relay_run.attempt [OF relay_run.start])
    show "honest_network net_cfg False untyped_attempt"
      by (simp add: honest_network_def untyped_attempt_def lost_attempt_def)
    show "submitSignedBid net_cfg untyped_attempt = Some (Inl UntypedError)"
      by (simp add: submitSignedBid_def send_tx_def before_send_def untyped_attempt_def)
    show "escrow_process (length []) True 0 (Inl UntypedError) (bd_id submitted_bid) d = (JobRetry, d)"
      using assms by (simp add: escrow_process_def submitted_bid_def)
  qed (simp_all add: untyped_attempt_def)
  then show ?thesis by (simp add: untyped_attempt_def)
qed

definition frozen_db :: odb where
  "frozen_db = open_db\<lparr>db_bids := [submitted_bid]\<rparr>"

theorem null_client_data_freezes_settlement_witness:
  "\<forall>cfg now. \<exists>e. settle_gates cfg now (bd_offering submitted_bid) frozen_db = Inl e"
proof -
  have found: "find_bid (bd_id submitted_bid) (db_bids frozen_db) = Some submitted_bid"
    by (simp add: frozen_db_def find_bid_def sql_find_def submitted_bid_def)
  have built: "buildBid (sample_lib JNull) [] (Rpc ()) (wallet_sim ''CWAL'' 77
      (\<lambda>_. [leaf (transfer_call ''CUSD'' ''CWAL'' ''CESC'' (10 * 3))])) (Rpc 1000) ''CESC'' ''CWAL'' (Some (10, 3)) sample_idem
    = Inr (sample_bid_tx, sample_challenge, 1120)"
    using sample_built [of JNull "[]"] unfolding sample_bid_sim_def .
  have pk: "wa_auth sample_passkey \<noteq> []" "wa_client sample_passkey \<noteq> []" "wa_sig sample_passkey \<noteq> []"
    "length (wa_client sample_passkey) \<le> MAX_CLIENT_DATA_JSON"
    by (simp_all add: sample_passkey_def MAX_CLIENT_DATA_JSON_def)
  have "verdict (verifyBidAuthorization (sample_lib JNull) [] \<lparr>xb_wallet = ''CWAL'', xb_escrow = ''CESC'', xb_token = ''CUSD'',
      xb_price = 10, xb_count = 3, xb_max = 30, xb_idem = sample_idem\<rparr> sample_bid_tx sample_passkey) = Inl UntypedError"
    using null_client_data_untyped [OF pk _ _ built] by (simp add: verdict_def)
  with untyped_run [OF found] have "relay_run (\<lambda>n ok now res. escrow_process n ok now res (bd_id submitted_bid)) (\<lambda>_. True)
      submitSignedBid net_cfg (verdict (verifyBidAuthorization (sample_lib JNull) [] \<lparr>xb_wallet = ''CWAL'', xb_escrow = ''CESC'',
      xb_token = ''CUSD'', xb_price = 10, xb_count = 3, xb_max = 30, xb_idem = sample_idem\<rparr> sample_bid_tx sample_passkey))
      frozen_db [untyped_attempt] False JobRetry frozen_db" by simp
  from null_client_data_freezes_settlement [OF pk _ _ built found _ this] show ?thesis
    by (simp add: submitted_bid_def)
qed

end
