(* ===== verification/Rotation_DB.thy ===== *)
theory Rotation_DB
  imports Wallets Offering_Guard
begin

text \<open>
  The tables of the two drains of an embedded wallet, rotation and export
  (\<open>modules/wallets/rotation\<close>, \<open>modules/wallets/export\<close>), the append-only custody registry, and their
  repositories, with the CHECKs and partial unique indexes of migrations 016, 018 and 053 to 055. A
  repository call outside a transaction is one statement.
\<close>

section \<open>Rows\<close>

datatype drain_status = DS_pending | DS_submitting | DS_completed | DS_failed

datatype item_status = IS_pending | IS_submitted | IS_confirmed | IS_failed

record rotation =
  ro_id :: ident
  ro_user :: ident
  ro_source :: ident
  ro_dest :: ident
  ro_address :: ident
  ro_status :: drain_status
  ro_completed :: "instant option"
  ro_created :: instant
  ro_deleted :: "instant option"

record wallet_export =
  wx_id :: ident
  wx_wallet :: ident
  wx_user :: ident
  wx_target :: ident
  wx_status :: drain_status
  wx_completed :: "instant option"
  wx_created :: instant
  wx_deleted :: "instant option"

text \<open>An item of either drain; \<open>di_parent\<close> is the rotation or the export, \<open>di_kind\<close> an export's only.\<close>

datatype token_kind = TK_usdc | TK_fraction

record drain_item =
  di_id :: ident
  di_parent :: ident
  di_token :: ident
  di_kind :: "token_kind option"
  di_amount :: int
  di_status :: item_status
  di_tx :: "string option"
  di_expires :: "int option"
  di_hash :: "ident option"
  di_ledger :: "int option"
  di_error :: "string option"
  di_deleted :: "instant option"

record registry_event =
  rg_user :: ident
  rg_source :: ident
  rg_dest :: ident
  rg_from :: ident
  rg_to :: ident
  rg_token :: ident
  rg_amount :: int
  rg_hash :: "ident option"
  rg_ledger :: "int option"
  rg_ref :: ident

record ddb =
  dd_wallets :: wdb
  dd_rotations :: "rotation list"
  dd_items :: "drain_item list"
  dd_events :: "registry_event list"
  dd_exports :: "wallet_export list"
  dd_xitems :: "drain_item list"

definition dd_record :: "string \<Rightarrow> ident option \<Rightarrow> ident \<Rightarrow> ddb \<Rightarrow> ddb" where
  "dd_record kind actor subject d =
     d\<lparr>dd_wallets := wd_record \<lparr>ae_kind = kind, ae_actor = actor, ae_subject = subject\<rparr> (dd_wallets d)\<rparr>"

text \<open>\<open>CHK_wrt_completed_at\<close> and its twin of the exports, \<open>CHK_wrt_distinct\<close>, the amount CHECKs.\<close>

definition chk_rotation :: "rotation \<Rightarrow> bool" where
  "chk_rotation r \<longleftrightarrow> (ro_status r = DS_completed \<longleftrightarrow> ro_completed r \<noteq> None) \<and> ro_source r \<noteq> ro_dest r"

definition chk_export :: "wallet_export \<Rightarrow> bool" where
  "chk_export x \<longleftrightarrow> (wx_status x = DS_completed \<longleftrightarrow> wx_completed x \<noteq> None)"

definition chk_item :: "drain_item \<Rightarrow> bool" where
  "chk_item i \<longleftrightarrow> 0 < di_amount i"

text \<open>\<open>UQ_wrt_source_active\<close> and \<open>UQ_wallet_exports_wallet_active\<close>.\<close>

definition active_rotation :: "rotation \<Rightarrow> bool" where
  "active_rotation r \<longleftrightarrow> ro_status r \<noteq> DS_completed \<and> ro_deleted r = None"

definition active_export :: "wallet_export \<Rightarrow> bool" where
  "active_export x \<longleftrightarrow> wx_status x \<noteq> DS_completed \<and> wx_deleted x = None"

definition live_item :: "drain_item \<Rightarrow> bool" where
  "live_item i \<longleftrightarrow> di_deleted i = None"

datatype drain_throw = DuplicateKey | CheckViolation | EntityNotFound | DbError

section \<open>WalletRotationRepository\<close>

text \<open>Reads filter soft-deleted rows, of the parent and of the joined items.\<close>

definition items_of :: "ident \<Rightarrow> drain_item list \<Rightarrow> drain_item list" where
  "items_of p t = filter (\<lambda>i. di_parent i = p \<and> live_item i) t"

definition findActiveBySource :: "ident \<Rightarrow> ddb \<Rightarrow> rotation option" where
  "findActiveBySource src d = sql_find (\<lambda>r. ro_source r = src \<and> active_rotation r) (dd_rotations d)"

definition findOwnedRotation :: "ident \<Rightarrow> ident \<Rightarrow> ident \<Rightarrow> ddb \<Rightarrow> rotation option" where
  "findOwnedRotation i src u d =
     sql_find (\<lambda>r. ro_id r = i \<and> ro_source r = src \<and> ro_user r = u \<and> ro_deleted r = None) (dd_rotations d)"

fun latest_by :: "('r \<Rightarrow> instant) \<Rightarrow> 'r list \<Rightarrow> 'r option" where
  "latest_by created [] = None"
| "latest_by created (r # rs) = (case latest_by created rs of
     None \<Rightarrow> Some r | Some s \<Rightarrow> if created s > created r then Some s else Some r)"

definition findLatestBySource :: "ident \<Rightarrow> ddb \<Rightarrow> rotation option" where
  "findLatestBySource src d =
     latest_by ro_created (filter (\<lambda>r. ro_source r = src \<and> ro_deleted r = None) (dd_rotations d))"

definition createRotation ::
  "instant \<Rightarrow> ident \<Rightarrow> ident \<Rightarrow> ident \<Rightarrow> ident \<Rightarrow> ident \<Rightarrow> ddb \<Rightarrow> (drain_throw + rotation) \<times> ddb" where
  "createRotation now fresh src u dst addr d =
     (let r = \<lparr>ro_id = fresh, ro_user = u, ro_source = src, ro_dest = dst, ro_address = addr, ro_status = DS_pending,
               ro_completed = None, ro_created = now, ro_deleted = None\<rparr>
      in if \<not> chk_rotation r then (Inl CheckViolation, d)
         else if list_ex (\<lambda>s. ro_id s = fresh \<or> ro_source s = src \<and> active_rotation s) (dd_rotations d) then (Inl DuplicateKey, d)
         else (Inr r, d\<lparr>dd_rotations := dd_rotations d @ [r]\<rparr>))"

record item_build =
  ib_existing :: "ident option"
  ib_parent :: ident
  ib_token :: ident
  ib_kind :: "token_kind option"
  ib_amount :: int
  ib_tx :: string
  ib_expires :: int

definition apply_build :: "item_build \<Rightarrow> drain_item \<Rightarrow> drain_item" where
  "apply_build b i = i\<lparr>di_kind := ib_kind b, di_amount := ib_amount b, di_tx := Some (ib_tx b),
     di_expires := Some (ib_expires b), di_status := IS_pending, di_error := None\<rparr>"

definition new_item :: "ident \<Rightarrow> item_build \<Rightarrow> drain_item" where
  "new_item fresh b = apply_build b \<lparr>di_id = fresh, di_parent = ib_parent b, di_token = ib_token b, di_kind = None,
     di_amount = 0, di_status = IS_pending, di_tx = None, di_expires = None, di_hash = None, di_ledger = None,
     di_error = None, di_deleted = None\<rparr>"

text \<open>\<open>save\<close> of a loaded row: an update by id.\<close>

definition save_item :: "ident \<Rightarrow> (drain_item \<Rightarrow> drain_item) \<Rightarrow> drain_item list \<Rightarrow> drain_item list" where
  "save_item i f t = map (\<lambda>r. if di_id r = i then f r else r) t"

text \<open>
  \<open>upsertItemBuild\<close>: the lookup sees \<open>t\<close>, the save \<open>t'\<close> (other requests run in between); the
  unique index \<open>UQ_wrti_rotation_token\<close> turns a lost race into an update of the winner's row. A key
  that is taken is a unique violation like any other (here and in the other inserts).
\<close>

definition find_item_by_key :: "ident \<Rightarrow> ident \<Rightarrow> drain_item list \<Rightarrow> drain_item option" where
  "find_item_by_key p token t = sql_find (\<lambda>i. di_parent i = p \<and> di_token i = token \<and> live_item i) t"

definition upsertItemBuild ::
  "ident \<Rightarrow> item_build \<Rightarrow> drain_item list \<Rightarrow> drain_item list \<Rightarrow> (drain_throw + drain_item) \<times> drain_item list" where
  "upsertItemBuild fresh b t t' =
     (let existing = (case ib_existing b of
           Some i \<Rightarrow> sql_find (\<lambda>r. di_id r = i \<and> live_item r) t
         | None \<Rightarrow> find_item_by_key (ib_parent b) (ib_token b) t)
      in if ib_existing b \<noteq> None \<and> existing = None then (Inl EntityNotFound, t')
         else if \<not> 0 < ib_amount b then (Inl CheckViolation, t')
         else case existing of
           Some r \<Rightarrow> (Inr (apply_build b r), save_item (di_id r) (apply_build b) t')
         | None \<Rightarrow> (case find_item_by_key (ib_parent b) (ib_token b) t' of
             Some winner \<Rightarrow> (Inr (apply_build b winner), save_item (di_id winner) (apply_build b) t')
           | None \<Rightarrow> if fresh \<in> di_id ` set t' then (Inl EntityNotFound, t')
               else (Inr (new_item fresh b), t' @ [new_item fresh b])))"

definition claimItemForSubmit :: "ident \<Rightarrow> drain_item list \<Rightarrow> drain_item list \<times> bool" where
  "claimItemForSubmit i = cas_rows
     (\<lambda>r. di_id r = i \<and> (di_status r = IS_pending \<or> di_status r = IS_failed) \<and> di_deleted r = None)
     (\<lambda>r. r\<lparr>di_status := IS_submitted\<rparr>)"

text \<open>\<open>recordCustodyTransfer\<close>: an insert that a row with the same reference turns into nothing.\<close>

definition recordCustodyTransfer :: "registry_event \<Rightarrow> ddb \<Rightarrow> ddb" where
  "recordCustodyTransfer e d =
     (if list_ex (\<lambda>x. rg_ref x = rg_ref e) (dd_events d) then d else d\<lparr>dd_events := dd_events d @ [e]\<rparr>)"

definition set_confirmed :: "ident \<Rightarrow> int \<Rightarrow> drain_item \<Rightarrow> drain_item" where
  "set_confirmed h l r = r\<lparr>di_status := IS_confirmed, di_hash := Some h, di_ledger := Some l, di_error := None\<rparr>"

text \<open>
  The confirm and the custody row commit together, or the transaction fails: with the database
  (\<open>\<not> ok\<close>) or on \<open>UQ_wrti_tx_hash\<close>, one live item per transaction.
\<close>

definition hash_taken :: "ident \<Rightarrow> ident \<Rightarrow> drain_item list \<Rightarrow> bool" where
  "hash_taken i h t \<longleftrightarrow> list_ex (\<lambda>r. di_id r = i \<and> live_item r) t
     \<and> list_ex (\<lambda>r. di_id r \<noteq> i \<and> di_hash r = Some h \<and> live_item r) t"

definition markItemConfirmed :: "bool \<Rightarrow> ident \<Rightarrow> ident \<Rightarrow> int \<Rightarrow> registry_event \<Rightarrow> ddb \<Rightarrow> bool \<times> ddb" where
  "markItemConfirmed ok i h l e d =
     (if ok \<and> \<not> hash_taken i h (dd_items d) then (True, recordCustodyTransfer e (d\<lparr>dd_items := save_item i (set_confirmed h l) (dd_items d)\<rparr>))
      else (False, d))"

definition promote_stuck :: "ident \<Rightarrow> drain_item list \<Rightarrow> drain_item list \<times> bool" where
  "promote_stuck i = cas_rows (\<lambda>r. di_id r = i \<and> (di_status r = IS_submitted \<or> di_status r = IS_failed))
     (\<lambda>r. r\<lparr>di_status := IS_confirmed, di_error := None\<rparr>)"

definition reconcileItemConfirmed :: "ident \<Rightarrow> registry_event \<Rightarrow> ddb \<Rightarrow> bool \<times> ddb" where
  "reconcileItemConfirmed i e d = (case promote_stuck i (dd_items d) of
     (t, True) \<Rightarrow> (True, recordCustodyTransfer e (d\<lparr>dd_items := t\<rparr>))
   | (_, False) \<Rightarrow> (False, d))"

definition markItemFailed :: "ident \<Rightarrow> string \<Rightarrow> ddb \<Rightarrow> ddb" where
  "markItemFailed i code d =
     d\<lparr>dd_items := save_item i (\<lambda>r. r\<lparr>di_status := IS_failed, di_error := Some code\<rparr>) (dd_items d)\<rparr>"

definition set_rotation :: "ident \<Rightarrow> (rotation \<Rightarrow> bool) \<Rightarrow> (rotation \<Rightarrow> rotation) \<Rightarrow> rotation list \<Rightarrow> rotation list" where
  "set_rotation i P f t = map (\<lambda>r. if ro_id r = i \<and> P r then f r else r) t"

definition all_items_confirmed :: "ident \<Rightarrow> drain_item list \<Rightarrow> bool" where
  "all_items_confirmed p t \<longleftrightarrow> items_of p t \<noteq> [] \<and> list_all (\<lambda>i. di_status i = IS_confirmed) (items_of p t)"

definition finalizeRotation :: "instant \<Rightarrow> ident option \<Rightarrow> ident \<Rightarrow> bool \<Rightarrow> ddb \<Rightarrow> bool \<times> ddb" where
  "finalizeRotation now actor i allZero d =
     (if all_items_confirmed i (dd_items d) \<and> allZero
      then (True, dd_record ''wallet.rotation.completed'' actor i
        (d\<lparr>dd_rotations := set_rotation i (\<lambda>_. True)
           (\<lambda>r. r\<lparr>ro_status := DS_completed, ro_completed := Some now\<rparr>) (dd_rotations d)\<rparr>))
      else (False, d\<lparr>dd_rotations := set_rotation i (\<lambda>r. ro_status r \<noteq> DS_completed)
           (\<lambda>r. r\<lparr>ro_status := DS_submitting\<rparr>) (dd_rotations d)\<rparr>))"

definition softCancel :: "instant \<Rightarrow> ident \<Rightarrow> ddb \<Rightarrow> ddb" where
  "softCancel now i d = d\<lparr>
     dd_items := map (\<lambda>r. if di_parent r = i \<and> live_item r then r\<lparr>di_deleted := Some now\<rparr> else r) (dd_items d),
     dd_rotations := set_rotation i (\<lambda>r. ro_deleted r = None) (\<lambda>r. r\<lparr>ro_deleted := Some now\<rparr>) (dd_rotations d)\<rparr>"

section \<open>WalletExportRepository\<close>

definition findActiveByWalletId :: "ident \<Rightarrow> ddb \<Rightarrow> wallet_export option" where
  "findActiveByWalletId w d = sql_find (\<lambda>x. wx_wallet x = w \<and> active_export x) (dd_exports d)"

definition findOwnedExport :: "ident \<Rightarrow> ident \<Rightarrow> ident \<Rightarrow> ddb \<Rightarrow> wallet_export option" where
  "findOwnedExport i w u d =
     sql_find (\<lambda>x. wx_id x = i \<and> wx_wallet x = w \<and> wx_user x = u \<and> wx_deleted x = None) (dd_exports d)"

definition findLatestByWalletId :: "ident \<Rightarrow> ddb \<Rightarrow> wallet_export option" where
  "findLatestByWalletId w d =
     latest_by wx_created (filter (\<lambda>x. wx_wallet x = w \<and> wx_deleted x = None) (dd_exports d))"

definition createExport ::
  "instant \<Rightarrow> ident \<Rightarrow> ident \<Rightarrow> ident \<Rightarrow> ident \<Rightarrow> ddb \<Rightarrow> (drain_throw + wallet_export) \<times> ddb" where
  "createExport now fresh w u target d =
     (let x = \<lparr>wx_id = fresh, wx_wallet = w, wx_user = u, wx_target = target, wx_status = DS_pending,
               wx_completed = None, wx_created = now, wx_deleted = None\<rparr>
      in if list_ex (\<lambda>s. wx_id s = fresh \<or> wx_wallet s = w \<and> active_export s) (dd_exports d) then (Inl DuplicateKey, d)
         else (Inr x, d\<lparr>dd_exports := dd_exports d @ [x]\<rparr>))"

text \<open>The export's build has no lookup by token and no unique index behind it.\<close>

definition upsertExportItem ::
  "ident \<Rightarrow> item_build \<Rightarrow> drain_item list \<Rightarrow> (drain_throw + drain_item) \<times> drain_item list" where
  "upsertExportItem fresh b t =
     (if \<not> 0 < ib_amount b then (Inl CheckViolation, t)
      else case ib_existing b of
        Some i \<Rightarrow> (case sql_find (\<lambda>r. di_id r = i \<and> live_item r) t of
            None \<Rightarrow> (Inl EntityNotFound, t)
          | Some r \<Rightarrow> (Inr (apply_build b r), save_item i (apply_build b) t))
      | None \<Rightarrow> if fresh \<in> di_id ` set t then (Inl DuplicateKey, t) else (Inr (new_item fresh b), t @ [new_item fresh b]))"

definition claimExportItem :: "ident \<Rightarrow> drain_item list \<Rightarrow> drain_item list \<times> bool" where
  "claimExportItem i = cas_rows (\<lambda>r. di_id r = i \<and> (di_status r = IS_pending \<or> di_status r = IS_failed))
     (\<lambda>r. r\<lparr>di_status := IS_submitted\<rparr>)"

definition reconcileExportItem :: "ident \<Rightarrow> drain_item list \<Rightarrow> drain_item list \<times> bool" where
  "reconcileExportItem i = cas_rows (\<lambda>r. di_id r = i \<and> di_status r = IS_submitted)
     (\<lambda>r. r\<lparr>di_status := IS_confirmed, di_error := None\<rparr>)"

definition markExportItemConfirmed :: "bool \<Rightarrow> ident \<Rightarrow> ident \<Rightarrow> int \<Rightarrow> ddb \<Rightarrow> bool \<times> ddb" where
  "markExportItemConfirmed ok i h l d =
     (if ok \<and> \<not> hash_taken i h (dd_xitems d)
      then (True, d\<lparr>dd_xitems := save_item i (set_confirmed h l) (dd_xitems d)\<rparr>) else (False, d))"

definition markExportItemFailed :: "ident \<Rightarrow> string \<Rightarrow> ddb \<Rightarrow> ddb" where
  "markExportItemFailed i code d =
     d\<lparr>dd_xitems := save_item i (\<lambda>r. r\<lparr>di_status := IS_failed, di_error := Some code\<rparr>) (dd_xitems d)\<rparr>"

definition set_export :: "ident \<Rightarrow> (wallet_export \<Rightarrow> wallet_export) \<Rightarrow> wallet_export list \<Rightarrow> wallet_export list" where
  "set_export i f t = map (\<lambda>x. if wx_id x = i then f x else x) t"

text \<open>
  The latch of the wallet may fail and rolls the transaction back. The demotion of an unfinished
  export is not guarded by its status: on a completed one it violates the CHECK.
\<close>

definition finalizeExport :: "instant \<Rightarrow> ident option \<Rightarrow> ident \<Rightarrow> ident \<Rightarrow> bool \<Rightarrow> ddb \<Rightarrow> (drain_throw + bool) \<times> ddb" where
  "finalizeExport now actor i w allZero d =
     (if all_items_confirmed i (dd_xitems d) \<and> allZero
      then (case markExported now w (dd_wallets d) of
          (Inl _, _) \<Rightarrow> (Inl DbError, d)
        | (Inr n, wd) \<Rightarrow> (Inr (0 < n), dd_record ''wallet.export.confirmed'' actor i
            (d\<lparr>dd_wallets := wd, dd_exports := set_export i
               (\<lambda>x. x\<lparr>wx_status := DS_completed, wx_completed := Some now\<rparr>) (dd_exports d)\<rparr>)))
      else let t = set_export i (\<lambda>x. x\<lparr>wx_status := DS_submitting\<rparr>) (dd_exports d)
           in if list_all (\<lambda>x. wx_id x = i \<longrightarrow> chk_export x) t then (Inr False, d\<lparr>dd_exports := t\<rparr>) else (Inl CheckViolation, d))"

section \<open>The claims are latches\<close>

interpretation rotation_claim: cas_latch "claimItemForSubmit i"
  "\<lambda>r. di_id r = i \<and> (di_status r = IS_pending \<or> di_status r = IS_failed) \<and> di_deleted r = None"
  "\<lambda>r. r\<lparr>di_status := IS_submitted\<rparr>"
  by unfold_locales (simp_all add: claimItemForSubmit_def)

interpretation export_claim: cas_latch "claimExportItem i"
  "\<lambda>r. di_id r = i \<and> (di_status r = IS_pending \<or> di_status r = IS_failed)"
  "\<lambda>r. r\<lparr>di_status := IS_submitted\<rparr>"
  by unfold_locales (simp_all add: claimExportItem_def)

interpretation rotation_reconcile: cas_latch "promote_stuck i"
  "\<lambda>r. di_id r = i \<and> (di_status r = IS_submitted \<or> di_status r = IS_failed)"
  "\<lambda>r. r\<lparr>di_status := IS_confirmed, di_error := None\<rparr>"
  by unfold_locales (simp_all add: promote_stuck_def)

interpretation export_reconcile: cas_latch "reconcileExportItem i"
  "\<lambda>r. di_id r = i \<and> di_status r = IS_submitted"
  "\<lambda>r. r\<lparr>di_status := IS_confirmed, di_error := None\<rparr>"
  by unfold_locales (simp_all add: reconcileExportItem_def)

end
