(* ===== verification/Rotation.thy ===== *)
theory Rotation
  imports Rotation_DB
begin

text \<open>
  \<open>modules/wallets/rotation/wallet-rotation.service.ts\<close>: move every fraction balance of an embedded
  wallet to the user's own primary wallet, one signed transfer per token. Balances, the allowlist, the
  relayer, fresh ids and the clock are arguments; \<open>meanwhile\<close> is what other requests do between two
  statements. Best-effort audit rows of single items are written like the code writes them.
\<close>

section \<open>Errors\<close>

datatype rotation_reason = Not_found | Source_invalid | Source_already_exported | Destination_invalid
  | Destination_not_primary | Rotation_conflict | Nothing_to_transfer | Blocked_by_lockup
  | Recipient_not_whitelisted | Rotation_not_found | Cannot_cancel | Read_unavailable

fun rotation_error :: "rotation_reason \<Rightarrow> http_error" where
  "rotation_error Not_found = FailHttp ''WALLET_NOT_FOUND'' 404"
| "rotation_error Source_invalid = FailHttp ''ROTATION_SOURCE_INVALID'' 422"
| "rotation_error Source_already_exported = FailHttp ''ALREADY_EXPORTED'' 409"
| "rotation_error Destination_invalid = FailHttp ''ROTATION_DESTINATION_INVALID'' 422"
| "rotation_error Destination_not_primary = FailHttp ''ROTATION_DESTINATION_NOT_PRIMARY'' 409"
| "rotation_error Rotation_conflict = FailHttp ''ROTATION_CONFLICT'' 409"
| "rotation_error Nothing_to_transfer = FailHttp ''ROTATION_NOTHING_TO_TRANSFER'' 422"
| "rotation_error Blocked_by_lockup = FailHttp ''ROTATION_BLOCKED_BY_LOCKUP'' 422"
| "rotation_error Recipient_not_whitelisted = FailHttp ''RECIPIENT_NOT_WHITELISTED'' 422"
| "rotation_error Rotation_not_found = FailHttp ''ROTATION_NOT_FOUND'' 404"
| "rotation_error Cannot_cancel = FailHttp ''ROTATION_CANNOT_CANCEL'' 409"
| "rotation_error Read_unavailable = FailHttp ''HOLDINGS_UNAVAILABLE'' 503"

text \<open>What a handler throws: a domain error, an HTTP error, a lockup with its expiry, a database error.\<close>

datatype rotation_throw = RotationError rotation_reason | HttpThrow http_error | LockupThrow int | DbThrow drain_throw

fun rethrow :: "rotation_throw \<Rightarrow> rotation_throw" where
  "rethrow (RotationError r) = HttpThrow (rotation_error r)"
| "rethrow e = e"

fun transferErrorMapping :: "transfer_reason \<Rightarrow> http_error" where
  "transferErrorMapping Simulation_failed = FailHttp ''TRANSFER_SIMULATION_FAILED'' 422"
| "transferErrorMapping Expired = FailHttp ''TRANSFER_EXPIRED'' 409"
| "transferErrorMapping Signature_required = FailHttp ''TRANSFER_SIGNATURE_REQUIRED'' 422"
| "transferErrorMapping Signature_invalid = FailHttp ''TRANSFER_SIGNATURE_INVALID'' 422"
| "transferErrorMapping Transfer_failed = FailHttp ''TRANSFER_FAILED'' 502"
| "transferErrorMapping Unavailable = FailHttp ''TRANSFER_UNAVAILABLE'' 503"

fun mapRelayerTransferError :: "relayer_throw \<Rightarrow> http_error" where
  "mapRelayerTransferError (RelayerTransferError r) = transferErrorMapping r"
| "mapRelayerTransferError UntypedError = FailHttp ''TRANSFER_UNAVAILABLE'' 503"

fun http_code :: "http_error \<Rightarrow> string" where
  "http_code (FailHttp code _) = code"

text \<open>The error code an item keeps.\<close>

definition item_error :: "relayer_throw \<Rightarrow> string" where
  "item_error e = http_code (mapRelayerTransferError e)"

section \<open>Source and destination\<close>

definition resolveSourceWallet :: "ident \<Rightarrow> ident \<Rightarrow> ddb \<Rightarrow> rotation_throw + credential_row \<times> ident" where
  "resolveSourceWallet u i d = (case findOwnedById i u (dd_wallets d) of
     None \<Rightarrow> Inl (RotationError Not_found)
   | Some w \<Rightarrow> (case wt_contract w of
       None \<Rightarrow> Inl (RotationError Source_invalid)
     | Some c \<Rightarrow>
         if wt_kind w \<noteq> WK_embedded \<or> c = [] then Inl (RotationError Source_invalid)
         else if wt_status w = WS_exported then Inl (RotationError Source_already_exported)
         else (case findCredentialByWallet (wt_id w) (dd_wallets d) of
             None \<Rightarrow> Inl (RotationError Not_found)
           | Some cr \<Rightarrow> Inr (cr, c))))"

definition resolveDestinationWallet :: "ident \<Rightarrow> ident \<Rightarrow> ident \<Rightarrow> ddb \<Rightarrow> rotation_throw + ident \<times> ident" where
  "resolveDestinationWallet u i src d = (case findOwnedById i u (dd_wallets d) of
     None \<Rightarrow> Inl (RotationError Not_found)
   | Some w \<Rightarrow> (case wt_key w of
       None \<Rightarrow> Inl (RotationError Destination_invalid)
     | Some k \<Rightarrow>
         if wt_id w = src \<or> wt_kind w \<noteq> WK_byow \<or> k = [] then Inl (RotationError Destination_invalid)
         else if \<not> wt_primary w then Inl (RotationError Destination_not_primary)
         else Inr (wt_id w, k)))"

text \<open>A deployed fraction contract with the artist's lockup (epoch seconds).\<close>

record locked_contract = fraction_contract +
  fc_lockup_until :: "int option"

definition isArtistPositionLocked :: "locked_contract \<Rightarrow> ident \<Rightarrow> int \<Rightarrow> bool" where
  "isArtistPositionLocked c source nowSeconds \<longleftrightarrow> fc_artist_address c = source
     \<and> (case fc_lockup_until c of None \<Rightarrow> False | Some u \<Rightarrow> nowSeconds < u)
     \<and> 0 < (case fc_artist_retention c of None \<Rightarrow> 0 | Some r \<Rightarrow> r)"

text \<open>\<open>None\<close> is a read that failed.\<close>

definition ensureAllowlisted :: "bool option \<Rightarrow> rotation_throw + unit" where
  "ensureAllowlisted allowed = (case allowed of
     None \<Rightarrow> Inl (RotationError Read_unavailable)
   | Some ok \<Rightarrow> guardE ok (RotationError Recipient_not_whitelisted))"

section \<open>initiate\<close>

text \<open>The deployed tokens in registry order; a later contract of the same token replaces an earlier one.\<close>

definition contracts_by_token :: "locked_contract list \<Rightarrow> (ident \<times> locked_contract) list" where
  "contracts_by_token cs = concat (map (\<lambda>c. case fc_token c of Some t \<Rightarrow> if t = [] then [] else [(t, c)] | None \<Rightarrow> []) cs)"

definition first_keys :: "(ident \<times> 'v) list \<Rightarrow> ident list" where
  "first_keys ps = rev (remdups (rev (map fst ps)))"

definition positive_holdings :: "ident list \<Rightarrow> (ident \<Rightarrow> int) \<Rightarrow> (ident \<times> int) list" where
  "positive_holdings tokens balance = filter (\<lambda>(t, n). 0 < n) (map (\<lambda>t. (t, balance t)) tokens)"

fun later :: "int option \<Rightarrow> int \<Rightarrow> int option" where
  "later None u = Some u"
| "later (Some v) u = Some (if u > v then u else v)"

definition lockup_of ::
  "(ident \<times> locked_contract) list \<Rightarrow> ident \<Rightarrow> int \<Rightarrow> (ident \<times> int) list \<Rightarrow> int option" where
  "lockup_of byToken source nowSeconds holdings = fold (\<lambda>(t, n) acc.
     case map_of (rev byToken) t of
       Some c \<Rightarrow> if isArtistPositionLocked c source nowSeconds
         then (case fc_lockup_until c of Some u \<Rightarrow> later acc u | None \<Rightarrow> acc) else acc
     | None \<Rightarrow> acc) holdings None"

record rotate_env =
  re_seconds :: int
  re_contracts :: "locked_contract list"
  re_balances :: "(ident \<Rightarrow> int) option"
  re_allowed :: "bool option"
  re_build :: "ident \<Rightarrow> ident \<Rightarrow> ident \<Rightarrow> int \<Rightarrow> relayer_throw + string \<times> string \<times> int"

definition active_drain :: "drain_status \<Rightarrow> bool" where
  "active_drain s \<longleftrightarrow> s \<in> {DS_pending, DS_submitting}"

text \<open>Up to the rotation row: source contract, credential, destination, holdings.\<close>

definition initiate_gates ::
  "rotate_env \<Rightarrow> ident \<Rightarrow> ident \<Rightarrow> ident \<Rightarrow> ddb
   \<Rightarrow> rotation_throw + credential_row \<times> ident \<times> ident \<times> ident \<times> (ident \<times> int) list" where
  "initiate_gates env u src dst d =
     bindE (resolveSourceWallet u src d) (\<lambda>(cred, source).
     bindE (resolveDestinationWallet u dst src d) (\<lambda>(destId, address).
     bindE (guardE (\<not> list_ex (\<lambda>x. wx_wallet x = src \<and> active_drain (wx_status x) \<and> wx_deleted x = None) (dd_exports d))
       (RotationError Rotation_conflict)) (\<lambda>_.
     let byToken = contracts_by_token (re_contracts env); tokens = first_keys byToken in
     case re_balances env of
       None \<Rightarrow> Inl (RotationError Read_unavailable)
     | Some balance \<Rightarrow>
         let holdings = positive_holdings tokens balance in
         bindE (guardE (holdings \<noteq> []) (RotationError Nothing_to_transfer)) (\<lambda>_.
         bindE (case lockup_of byToken source (re_seconds env) holdings of
             Some u \<Rightarrow> Inl (LockupThrow u) | None \<Rightarrow> Inr ()) (\<lambda>_.
         bindE (ensureAllowlisted (re_allowed env)) (\<lambda>_.
         Inr (cred, source, destId, address, holdings)))))))"

text \<open>Find or create on \<open>d\<close>; a lost create re-reads on what the other request left.\<close>

definition find_or_create ::
  "instant \<Rightarrow> ident \<Rightarrow> (ddb \<Rightarrow> ddb) \<Rightarrow> ident \<Rightarrow> ident \<Rightarrow> ident \<Rightarrow> ident \<Rightarrow> ddb \<Rightarrow> (rotation_throw + rotation) \<times> ddb" where
  "find_or_create now fresh meanwhile src u dst address d =
     (case findActiveBySource src d of
        Some r \<Rightarrow> if ro_address r \<noteq> address then (Inl (RotationError Rotation_conflict), d) else (Inr r, d)
      | None \<Rightarrow> (case createRotation now fresh src u dst address (meanwhile d) of
          (Inr r, d') \<Rightarrow> (Inr r, d')
        | (Inl DuplicateKey, d') \<Rightarrow> (case findActiveBySource src d' of
            Some r \<Rightarrow> (Inr r, d') | None \<Rightarrow> (Inl (RotationError Rotation_conflict), d'))
        | (Inl e, d') \<Rightarrow> (Inl (DbThrow e), d')))"

record item_dto =
  dto_item :: ident
  dto_token :: ident
  dto_amount :: int
  dto_challenge :: string
  dto_expires :: int

text \<open>One holding: \<open>existing\<close> are the items loaded with the rotation.\<close>

definition build_one ::
  "rotate_env \<Rightarrow> ident \<Rightarrow> (ddb \<Rightarrow> ddb) \<Rightarrow> ident \<Rightarrow> rotation \<Rightarrow> drain_item list \<Rightarrow> ident \<times> int \<Rightarrow> ddb
   \<Rightarrow> (rotation_throw + item_dto option) \<times> ddb" where
  "build_one env fresh meanwhile source r existing h d =
     (let e = map_of (rev (map (\<lambda>i. (di_token i, i)) existing)) (fst h) in
      if map_option di_status e = Some IS_confirmed then (Inr None, d)
      else case re_build env source (fst h) (ro_address r) (snd h) of
        Inl err \<Rightarrow> (Inl (HttpThrow (mapRelayerTransferError err)), d)
      | Inr (tx, challenge, expires) \<Rightarrow>
          (case upsertItemBuild fresh \<lparr>ib_existing = map_option di_id e, ib_parent = ro_id r, ib_token = fst h,
               ib_kind = None, ib_amount = snd h, ib_tx = tx, ib_expires = expires\<rparr>
             (dd_items d) (dd_items (meanwhile d)) of
             (Inl err, t) \<Rightarrow> (Inl (DbThrow err), (meanwhile d)\<lparr>dd_items := t\<rparr>)
           | (Inr i, t) \<Rightarrow> (Inr (Some \<lparr>dto_item = di_id i, dto_token = di_token i, dto_amount = di_amount i,
               dto_challenge = challenge, dto_expires = expires\<rparr>), (meanwhile d)\<lparr>dd_items := t\<rparr>)))"

text \<open>\<open>fresh\<close> and \<open>meanwhile\<close> are indexed by the position of the holding.\<close>

fun build_items ::
  "rotate_env \<Rightarrow> (nat \<Rightarrow> ident) \<Rightarrow> (nat \<Rightarrow> ddb \<Rightarrow> ddb) \<Rightarrow> ident \<Rightarrow> rotation \<Rightarrow> drain_item list \<Rightarrow> nat
   \<Rightarrow> (ident \<times> int) list \<Rightarrow> ddb \<Rightarrow> (rotation_throw + item_dto list) \<times> ddb" where
  "build_items env fresh meanwhile source r existing n [] d = (Inr [], d)"
| "build_items env fresh meanwhile source r existing n (h # hs) d =
     (case build_one env (fresh n) (meanwhile n) source r existing h d of
        (Inl e, d') \<Rightarrow> (Inl e, d')
      | (Inr dto, d') \<Rightarrow> (case build_items env fresh meanwhile source r existing (Suc n) hs d' of
          (Inl e, d'') \<Rightarrow> (Inl e, d'')
        | (Inr dtos, d'') \<Rightarrow> (Inr (case dto of Some x \<Rightarrow> x # dtos | None \<Rightarrow> dtos), d'')))"

text \<open>\<open>d\<close> is what the gates read, \<open>d1\<close> what the rotation row is looked up on.\<close>

definition initiateRotation ::
  "rotate_env \<Rightarrow> instant \<Rightarrow> ident \<Rightarrow> (nat \<Rightarrow> ident) \<Rightarrow> (ddb \<Rightarrow> ddb) \<Rightarrow> (nat \<Rightarrow> ddb \<Rightarrow> ddb) \<Rightarrow> ident \<Rightarrow> ident \<Rightarrow> ident
   \<Rightarrow> ddb \<Rightarrow> ddb \<Rightarrow> (rotation_throw + ident \<times> item_dto list) \<times> ddb" where
  "initiateRotation env now freshRotation fresh meanwhile0 meanwhile u src dst d d1 =
     (case initiate_gates env u src dst d of
        Inl e \<Rightarrow> (Inl (rethrow e), d1)
      | Inr (cred, source, destId, address, holdings) \<Rightarrow>
          (case find_or_create now freshRotation meanwhile0 src u destId address d1 of
             (Inl e, d2) \<Rightarrow> (Inl (rethrow e), d2)
           | (Inr r, d2) \<Rightarrow> (case build_items env fresh meanwhile source r (items_of (ro_id r) (dd_items d2)) 0 holdings d2 of
               (Inl e, d3) \<Rightarrow> (Inl (rethrow e), d3)
             | (Inr dtos, d3) \<Rightarrow> (Inr (ro_id r, dtos),
                 dd_record ''wallet.rotation.requested'' (Some u) (ro_id r) d3))))"


section \<open>submit\<close>

definition item_ref :: "ident \<Rightarrow> ident" where
  "item_ref i = ''rotation_item:'' @ i"

definition custodyEntry :: "rotation \<Rightarrow> ident \<Rightarrow> drain_item \<Rightarrow> ident option \<Rightarrow> int option \<Rightarrow> registry_event" where
  "custodyEntry r source i h l = \<lparr>rg_user = ro_user r, rg_source = ro_source r, rg_dest = ro_dest r, rg_from = source,
     rg_to = ro_address r, rg_token = di_token i, rg_amount = di_amount i, rg_hash = h, rg_ledger = l,
     rg_ref = item_ref (di_id i)\<rparr>"

text \<open>
  One submitted item: what others do before its claim and while its transfer is under way, the
  allowlist's second answer, the relayer's answer for the stored transaction (pinned to destination
  and amount), whether the confirming transaction commits.
\<close>

record submitted =
  su_item :: ident
  su_meanwhile :: "ddb \<Rightarrow> ddb"
  su_during :: "ddb \<Rightarrow> ddb"
  su_allowed :: "bool option"
  su_transfer :: "drain_item \<Rightarrow> ident \<Rightarrow> relayer_throw + ident \<times> int"
  su_commits :: bool

record item_result =
  rs_item :: ident
  rs_status :: item_status
  rs_hash :: "ident option"
  rs_ledger :: "int option"
  rs_error :: "string option"

definition failed_result :: "ident \<Rightarrow> string \<Rightarrow> item_result" where
  "failed_result i code = \<lparr>rs_item = i, rs_status = IS_failed, rs_hash = None, rs_ledger = None, rs_error = Some code\<rparr>"

definition confirmed_result :: "ident \<Rightarrow> ident option \<Rightarrow> int option \<Rightarrow> item_result" where
  "confirmed_result i h l = \<lparr>rs_item = i, rs_status = IS_confirmed, rs_hash = h, rs_ledger = l, rs_error = None\<rparr>"

definition fail_item :: "ident \<Rightarrow> string \<Rightarrow> ident \<Rightarrow> ddb \<Rightarrow> ddb" where
  "fail_item u code i d = dd_record ''wallet.rotation.failed'' (Some u) i (markItemFailed i code d)"

text \<open>The claimed item: the second allowlist check, the transfer, and the confirm with its custody row.\<close>

definition transfer_item ::
  "ident \<Rightarrow> rotation \<Rightarrow> ident \<Rightarrow> submitted \<Rightarrow> drain_item \<Rightarrow> ddb \<Rightarrow> item_result \<times> ddb" where
  "transfer_item u r source s i d = (case su_allowed s of
     None \<Rightarrow> (failed_result (di_id i) ''TRANSFER_UNAVAILABLE'', fail_item u ''TRANSFER_UNAVAILABLE'' (di_id i) d)
   | Some False \<Rightarrow> (failed_result (di_id i) ''RECIPIENT_NOT_WHITELISTED'',
       fail_item u ''RECIPIENT_NOT_WHITELISTED'' (di_id i) d)
   | Some True \<Rightarrow> (case su_transfer s i (ro_address r) of
       Inl e \<Rightarrow> (failed_result (di_id i) (item_error e), fail_item u (item_error e) (di_id i) (su_during s d))
     | Inr (h, l) \<Rightarrow>
         (case markItemConfirmed (su_commits s) (di_id i) h l (custodyEntry r source i (Some h) (Some l)) (su_during s d) of
            (True, d') \<Rightarrow> (confirmed_result (di_id i) (Some h) (Some l),
              dd_record ''wallet.rotation.confirmed'' (Some u) (di_id i) d')
          | (False, d') \<Rightarrow> (failed_result (di_id i) ''TRANSFER_UNAVAILABLE'',
              fail_item u ''TRANSFER_UNAVAILABLE'' (di_id i) d'))))"

definition submit_item ::
  "ident \<Rightarrow> rotation \<Rightarrow> ident \<Rightarrow> drain_item list \<Rightarrow> submitted \<Rightarrow> ddb \<Rightarrow> item_result \<times> ddb" where
  "submit_item u r source items s d = (case find (\<lambda>i. di_id i = su_item s) items of
     None \<Rightarrow> (failed_result (su_item s) ''ROTATION_NOT_FOUND'', d)
   | Some i \<Rightarrow>
       if di_status i = IS_confirmed then (confirmed_result (di_id i) (di_hash i) (di_ledger i), d)
       else if di_tx i \<in> {None, Some []} then (failed_result (di_id i) ''TRANSFER_EXPIRED'', d)
       else (case claimItemForSubmit (di_id i) (dd_items (su_meanwhile s d)) of
           (t, True) \<Rightarrow> transfer_item u r source s i ((su_meanwhile s d)\<lparr>dd_items := t\<rparr>)
         | (_, False) \<Rightarrow> (\<lparr>rs_item = di_id i, rs_status = IS_submitted, rs_hash = None, rs_ledger = None,
             rs_error = None\<rparr>, su_meanwhile s d)))"

text \<open>The in-memory item after its result: a claimed item changes its status.\<close>

definition after_result :: "item_result \<Rightarrow> drain_item \<Rightarrow> drain_item" where
  "after_result x i = (if di_id i = rs_item x \<and> rs_status x \<noteq> IS_submitted \<and> di_tx i \<notin> {None, Some []}
     then i\<lparr>di_status := rs_status x,
            di_hash := if rs_status x = IS_confirmed then rs_hash x else di_hash i,
            di_ledger := if rs_status x = IS_confirmed then rs_ledger x else di_ledger i\<rparr> else i)"

fun submit_items ::
  "ident \<Rightarrow> rotation \<Rightarrow> ident \<Rightarrow> drain_item list \<Rightarrow> submitted list \<Rightarrow> ddb \<Rightarrow> drain_item list \<times> item_result list \<times> ddb" where
  "submit_items u r source items [] d = (items, [], d)"
| "submit_items u r source items (s # ss) d =
     (case submit_item u r source items s d of (x, d') \<Rightarrow>
      case submit_items u r source (map (after_result x) items) ss d' of (items', xs, d'') \<Rightarrow> (items', x # xs, d''))"

text \<open>\<open>reread\<close> is the balance after the loop, \<open>None\<close> when it fails; \<open>key_ok\<close> that the key decodes.\<close>

definition submitRotation ::
  "instant \<Rightarrow> ident \<Rightarrow> ident \<Rightarrow> ident \<Rightarrow> bool option \<Rightarrow> bool \<Rightarrow> submitted list \<Rightarrow> (ident \<Rightarrow> int) option \<Rightarrow> (ddb \<Rightarrow> ddb)
   \<Rightarrow> ddb \<Rightarrow> (rotation_throw + drain_status \<times> item_result list) \<times> ddb" where
  "submitRotation now u src rotationId allowed key_ok ss reread meanwhile d =
     (case bindE (resolveSourceWallet u src d) (\<lambda>(cred, source).
           bindE (case findOwnedRotation rotationId src u d of
               None \<Rightarrow> Inl (RotationError Rotation_not_found) | Some r \<Rightarrow> Inr r) (\<lambda>r.
           bindE (ensureAllowlisted allowed) (\<lambda>_.
           bindE (guardE key_ok (HttpThrow (FailHttp ''TRANSFER_SIGNATURE_INVALID'' 422))) (\<lambda>_.
           Inr (source, r))))) of
        Inl e \<Rightarrow> (Inl (rethrow e), d)
      | Inr (source, r) \<Rightarrow>
          (case submit_items u r source (items_of (ro_id r) (dd_items d)) ss d of (items, results, d1) \<Rightarrow>
             let allConfirmed = (items \<noteq> [] \<and> list_all (\<lambda>i. di_status i = IS_confirmed) items);
                 allZero = (allConfirmed \<and> (case reread of None \<Rightarrow> False
                   | Some balance \<Rightarrow> list_all (\<lambda>i. \<not> 0 < balance (di_token i)) items))
             in case finalizeRotation now (Some u) (ro_id r) allZero (meanwhile d1) of (completed, d2) \<Rightarrow>
                (Inr (if completed then DS_completed else DS_submitting, results), d2)))"

section \<open>status\<close>

definition reconcile_one ::
  "(ident \<Rightarrow> int) \<Rightarrow> rotation \<Rightarrow> ident \<Rightarrow> drain_item \<Rightarrow> ddb \<Rightarrow> bool \<times> ddb" where
  "reconcile_one balance r source i d =
     (if 0 < balance (di_token i) then (False, d)
      else reconcileItemConfirmed (di_id i) (custodyEntry r source i (di_hash i) (di_ledger i)) d)"

text \<open>The ids reconciled, in order.\<close>

fun reconcile_items ::
  "(ident \<Rightarrow> int) \<Rightarrow> rotation \<Rightarrow> ident \<Rightarrow> drain_item list \<Rightarrow> ddb \<Rightarrow> ident list \<times> ddb" where
  "reconcile_items balance r source [] d = ([], d)"
| "reconcile_items balance r source (i # is) d =
     (case reconcile_one balance r source i d of (ok, d') \<Rightarrow>
      case reconcile_items balance r source is d' of (ids, d'') \<Rightarrow> (if ok then di_id i # ids else ids, d''))"

definition stuck_item :: "drain_item \<Rightarrow> bool" where
  "stuck_item i \<longleftrightarrow> di_status i = IS_submitted \<or> di_status i = IS_failed"

definition reconcileStuckItems ::
  "instant \<Rightarrow> (ident \<Rightarrow> int) option \<Rightarrow> rotation \<Rightarrow> ident \<Rightarrow> drain_item list \<Rightarrow> ddb \<Rightarrow> ddb" where
  "reconcileStuckItems now balances r source items d =
     (let stuck = filter stuck_item items in
      case balances of
        None \<Rightarrow> d
      | Some balance \<Rightarrow> if stuck = [] then d
          else (case reconcile_items balance r source stuck d of (ids, d') \<Rightarrow>
            if list_all (\<lambda>i. di_status i = IS_confirmed \<or> di_id i \<in> set ids) items
            then snd (finalizeRotation now None (ro_id r) True d') else d'))"

datatype read_state = RS_none | RS_pending | RS_submitting | RS_confirmed | RS_failed

fun mapRotationStateForRead :: "drain_status \<Rightarrow> read_state" where
  "mapRotationStateForRead DS_completed = RS_confirmed"
| "mapRotationStateForRead DS_failed = RS_failed"
| "mapRotationStateForRead DS_submitting = RS_submitting"
| "mapRotationStateForRead DS_pending = RS_pending"

definition rotation_status ::
  "instant \<Rightarrow> (ident \<Rightarrow> int) option \<Rightarrow> ident \<Rightarrow> ident \<Rightarrow> ddb
   \<Rightarrow> (rotation_throw + read_state \<times> (ident \<times> item_status) list) \<times> ddb" where
  "rotation_status now balances u src d = (case findOwnedById src u (dd_wallets d) of
     None \<Rightarrow> (Inl (rethrow (RotationError Not_found)), d)
   | Some w \<Rightarrow> (case findLatestBySource src d of
       None \<Rightarrow> (Inr (RS_none, []), d)
     | Some r0 \<Rightarrow>
         let items = items_of (ro_id r0) (dd_items d);
             d' = (case wt_contract w of
                 None \<Rightarrow> d
               | Some c \<Rightarrow> if c = [] then d else reconcileStuckItems now balances r0 c items d);
             r = (case findLatestBySource src d' of None \<Rightarrow> r0 | Some r \<Rightarrow> r)
         in (Inr (mapRotationStateForRead (ro_status r),
               map (\<lambda>i. (di_token i, di_status i)) (items_of (ro_id r) (dd_items d'))), d')))"

section \<open>cancel\<close>

text \<open>The checks see \<open>d\<close>; the soft delete runs on what other requests leave.\<close>

definition cancelRotation ::
  "instant \<Rightarrow> (ddb \<Rightarrow> ddb) \<Rightarrow> ident \<Rightarrow> ident \<Rightarrow> ddb \<Rightarrow> (rotation_throw + ident) \<times> ddb" where
  "cancelRotation now meanwhile u src d = (case findOwnedById src u (dd_wallets d) of
     None \<Rightarrow> (Inl (rethrow (RotationError Not_found)), d)
   | Some w \<Rightarrow> (case findActiveBySource src d of
       None \<Rightarrow> (Inl (rethrow (RotationError Rotation_not_found)), d)
     | Some r \<Rightarrow>
         if ro_user r \<noteq> u then (Inl (rethrow (RotationError Rotation_not_found)), d)
         else if list_ex (\<lambda>i. di_status i = IS_submitted \<or> di_status i = IS_confirmed) (items_of (ro_id r) (dd_items d))
           then (Inl (rethrow (RotationError Cannot_cancel)), d)
         else (Inr (ro_id r), dd_record ''wallet.rotation.canceled'' (Some u) (ro_id r) (softCancel now (ro_id r) (meanwhile d)))))"

end
