(* ===== verification/Export.thy ===== *)
theory Export
  imports Rotation
begin

text \<open>
  \<open>modules/wallets/export/wallet-export.service.ts\<close> and \<open>kyc-allowlist.service.ts\<close>: drain USDC and
  every fraction of an embedded wallet to a self-custody address and latch the wallet exported. The
  errors are the HTTP errors of \<open>failHttp\<close> or a database error; the relayer, the StrKey decoder, fresh
  ids and the clock are arguments.
\<close>

section \<open>The allowlist\<close>

record allowlist_row =
  al_target :: ident
  al_deleted :: "instant option"

definition existsActive :: "ident \<Rightarrow> allowlist_row list \<Rightarrow> bool" where
  "existsActive a t \<longleftrightarrow> list_ex (\<lambda>r. al_target r = a \<and> al_deleted r = None) t"

text \<open>\<open>canon\<close> is \<open>canonicalizeStellarAddress\<close>: \<open>None\<close> where it throws.\<close>

definition kyc_isAllowed :: "(ident \<Rightarrow> ident option) \<Rightarrow> ident \<Rightarrow> allowlist_row list \<Rightarrow> bool" where
  "kyc_isAllowed canon a t = (case canon a of None \<Rightarrow> False | Some c \<Rightarrow> existsActive c t)"

section \<open>initiate\<close>

record fraction_config =
  fk_address :: ident
  fk_symbol :: string
  fk_decimals :: nat

record export_env =
  ee_usdc :: ident
  ee_fractions :: "fraction_config list"
  ee_canon :: "ident \<Rightarrow> ident option"
  ee_account :: "ident \<Rightarrow> bool"
  ee_allowlist :: "allowlist_row list"
  ee_holdings :: "relayer_throw + (ident \<Rightarrow> int)"
  ee_build :: "ident \<Rightarrow> ident \<Rightarrow> ident \<Rightarrow> int \<Rightarrow> relayer_throw + string \<times> string \<times> int"

abbreviation http :: "string \<Rightarrow> nat \<Rightarrow> rotation_throw" where
  "http code status \<equiv> HttpThrow (FailHttp code status)"

definition resolveExportWallet :: "ident \<Rightarrow> ident \<Rightarrow> ddb \<Rightarrow> rotation_throw + credential_row \<times> ident" where
  "resolveExportWallet u i d = (case findOwnedById i u (dd_wallets d) of
     None \<Rightarrow> Inl (http ''WALLET_NOT_FOUND'' 404)
   | Some w \<Rightarrow> (case wt_contract w of
       None \<Rightarrow> Inl (http ''EXPORT_NOT_AVAILABLE'' 422)
     | Some c \<Rightarrow>
         if wt_kind w \<noteq> WK_embedded \<or> c = [] then Inl (http ''EXPORT_NOT_AVAILABLE'' 422)
         else if wt_status w = WS_exported then Inl (http ''ALREADY_EXPORTED'' 409)
         else (case findCredentialByWallet (wt_id w) (dd_wallets d) of
             None \<Rightarrow> Inl (http ''WALLET_NOT_FOUND'' 404)
           | Some cr \<Rightarrow> Inr (cr, c))))"

definition export_tokens :: "export_env \<Rightarrow> ident list" where
  "export_tokens env = filter (\<lambda>t. t \<noteq> []) (ee_usdc env # map fk_address (ee_fractions env))"

definition exportInitiate_gates ::
  "export_env \<Rightarrow> ident \<Rightarrow> ident \<Rightarrow> ident \<Rightarrow> ddb \<Rightarrow> rotation_throw + ident \<times> ident \<times> (ident \<times> int) list" where
  "exportInitiate_gates env u w to d =
     bindE (resolveExportWallet u w d) (\<lambda>(cred, source).
     bindE (guardE (\<not> list_ex (\<lambda>r. ro_source r = w \<and> active_drain (ro_status r) \<and> ro_deleted r = None) (dd_rotations d))
       (http ''ROTATION_CONFLICT'' 409)) (\<lambda>_.
     bindE (case ee_canon env to of None \<Rightarrow> Inl (http ''VALIDATION_FAILED'' 400) | Some t \<Rightarrow> Inr t) (\<lambda>target.
     bindE (guardE (ee_account env target \<and> target \<noteq> source) (http ''VALIDATION_FAILED'' 400)) (\<lambda>_.
     bindE (guardE (kyc_isAllowed (ee_canon env) target (ee_allowlist env)) (http ''RECIPIENT_NOT_WHITELISTED'' 422)) (\<lambda>_.
     case ee_holdings env of
       Inl e \<Rightarrow> Inl (HttpThrow (mapRelayerTransferError e))
     | Inr balance \<Rightarrow>
         let holdings = positive_holdings (export_tokens env) balance in
         bindE (guardE (holdings \<noteq> []) (http ''EXPORT_NOT_AVAILABLE'' 422)) (\<lambda>_.
         Inr (source, target, holdings)))))))"

definition find_or_create_export ::
  "instant \<Rightarrow> ident \<Rightarrow> (ddb \<Rightarrow> ddb) \<Rightarrow> ident \<Rightarrow> ident \<Rightarrow> ident \<Rightarrow> ddb \<Rightarrow> (rotation_throw + wallet_export) \<times> ddb" where
  "find_or_create_export now fresh meanwhile w u target d =
     (case findActiveByWalletId w d of
        Some x \<Rightarrow> if wx_target x \<noteq> target then (Inl (http ''EXPORT_NOT_AVAILABLE'' 422), d) else (Inr x, d)
      | None \<Rightarrow> (case createExport now fresh w u target (meanwhile d) of
          (Inr x, d') \<Rightarrow> (Inr x, d')
        | (Inl DuplicateKey, d') \<Rightarrow> (case findActiveByWalletId w d' of
            Some x \<Rightarrow> (Inr x, d') | None \<Rightarrow> (Inl (http ''EXPORT_NOT_AVAILABLE'' 422), d'))
        | (Inl e, d') \<Rightarrow> (Inl (DbThrow e), d')))"

definition tokenKind :: "export_env \<Rightarrow> ident \<Rightarrow> token_kind" where
  "tokenKind env t = (if t = ee_usdc env then TK_usdc else TK_fraction)"

record export_item_dto = item_dto +
  dto_kind :: token_kind
  dto_decimals :: nat
  dto_asset :: string

definition USDC_DECIMALS :: nat where
  "USDC_DECIMALS = 7"

text \<open>Decimals and asset code of a token: from the configuration, a later entry replacing an earlier one.\<close>

definition display_meta :: "export_env \<Rightarrow> ident \<Rightarrow> nat \<times> string" where
  "display_meta env t =
     (if t = ee_usdc env then (USDC_DECIMALS, ''USDC'')
      else case find (\<lambda>f. fk_address f = t) (rev (ee_fractions env)) of
        None \<Rightarrow> (0, take 6 t)
      | Some f \<Rightarrow> (fk_decimals f, if fk_symbol f = [] then take 6 t else fk_symbol f))"

definition export_one ::
  "export_env \<Rightarrow> ident \<Rightarrow> ident \<Rightarrow> wallet_export \<Rightarrow> drain_item list \<Rightarrow> ident \<times> int \<Rightarrow> ddb
   \<Rightarrow> (rotation_throw + export_item_dto option) \<times> ddb" where
  "export_one env fresh source x existing h d =
     (let e = map_of (rev (map (\<lambda>i. (di_token i, i)) existing)) (fst h) in
      if map_option di_status e = Some IS_confirmed then (Inr None, d)
      else case ee_build env source (fst h) (wx_target x) (snd h) of
        Inl err \<Rightarrow> (Inl (HttpThrow (mapRelayerTransferError err)), d)
      | Inr (tx, challenge, expires) \<Rightarrow>
          (case upsertExportItem fresh \<lparr>ib_existing = map_option di_id e, ib_parent = wx_id x, ib_token = fst h,
               ib_kind = Some (tokenKind env (fst h)), ib_amount = snd h, ib_tx = tx, ib_expires = expires\<rparr>
             (dd_xitems d) of
             (Inl err, t) \<Rightarrow> (Inl (DbThrow err), d\<lparr>dd_xitems := t\<rparr>)
           | (Inr i, t) \<Rightarrow> (Inr (Some \<lparr>dto_item = di_id i, dto_token = di_token i, dto_amount = di_amount i,
               dto_challenge = challenge, dto_expires = expires, dto_kind = tokenKind env (fst h),
               dto_decimals = fst (display_meta env (fst h)), dto_asset = snd (display_meta env (fst h))\<rparr>),
               d\<lparr>dd_xitems := t\<rparr>)))"

text \<open>\<open>meanwhile n\<close> is what others do while the n-th transfer is built.\<close>

fun export_items ::
  "export_env \<Rightarrow> (nat \<Rightarrow> ident) \<Rightarrow> (nat \<Rightarrow> ddb \<Rightarrow> ddb) \<Rightarrow> ident \<Rightarrow> wallet_export \<Rightarrow> drain_item list \<Rightarrow> nat
   \<Rightarrow> (ident \<times> int) list \<Rightarrow> ddb \<Rightarrow> (rotation_throw + export_item_dto list) \<times> ddb" where
  "export_items env fresh meanwhile source x existing n [] d = (Inr [], d)"
| "export_items env fresh meanwhile source x existing n (h # hs) d =
     (case export_one env (fresh n) source x existing h (meanwhile n d) of
        (Inl e, d') \<Rightarrow> (Inl e, d')
      | (Inr dto, d') \<Rightarrow> (case export_items env fresh meanwhile source x existing (Suc n) hs d' of
          (Inl e, d'') \<Rightarrow> (Inl e, d'')
        | (Inr dtos, d'') \<Rightarrow> (Inr (case dto of Some y \<Rightarrow> y # dtos | None \<Rightarrow> dtos), d'')))"

definition exportInitiate ::
  "export_env \<Rightarrow> instant \<Rightarrow> ident \<Rightarrow> (nat \<Rightarrow> ident) \<Rightarrow> (ddb \<Rightarrow> ddb) \<Rightarrow> (nat \<Rightarrow> ddb \<Rightarrow> ddb) \<Rightarrow> ident \<Rightarrow> ident \<Rightarrow> ident
   \<Rightarrow> ddb \<Rightarrow> ddb \<Rightarrow> (rotation_throw + ident \<times> export_item_dto list) \<times> ddb" where
  "exportInitiate env now freshExport fresh meanwhile0 meanwhile u w to d d1 =
     (case exportInitiate_gates env u w to d of
        Inl e \<Rightarrow> (Inl e, d1)
      | Inr (source, target, holdings) \<Rightarrow>
          (case find_or_create_export now freshExport meanwhile0 w u target d1 of
             (Inl e, d2) \<Rightarrow> (Inl e, d2)
           | (Inr x, d2) \<Rightarrow> (case export_items env fresh meanwhile source x (items_of (wx_id x) (dd_xitems d2)) 0 holdings d2 of
               (Inl e, d3) \<Rightarrow> (Inl e, d3)
             | (Inr dtos, d3) \<Rightarrow> (Inr (wx_id x, dtos), dd_record ''wallet.export.requested'' (Some u) (wx_id x) d3))))"

section \<open>submit\<close>

text \<open>\<open>su_allowed = None\<close> is a database error of the allowlist read: it aborts the request.\<close>

definition fail_export_item :: "ident \<Rightarrow> string \<Rightarrow> ident \<Rightarrow> ddb \<Rightarrow> ddb" where
  "fail_export_item u code i d = dd_record ''wallet.export.failed'' (Some u) i (markExportItemFailed i code d)"

definition transfer_export_item ::
  "ident \<Rightarrow> wallet_export \<Rightarrow> submitted \<Rightarrow> drain_item \<Rightarrow> ddb \<Rightarrow> (rotation_throw + item_result) \<times> ddb" where
  "transfer_export_item u x s i d = (case su_allowed s of
     None \<Rightarrow> (Inl (DbThrow DbError), d)
   | Some False \<Rightarrow> (Inr (failed_result (di_id i) ''RECIPIENT_NOT_WHITELISTED''),
       fail_export_item u ''RECIPIENT_NOT_WHITELISTED'' (di_id i) d)
   | Some True \<Rightarrow> (case su_transfer s i (wx_target x) of
       Inl e \<Rightarrow> (Inr (failed_result (di_id i) (item_error e)), fail_export_item u (item_error e) (di_id i) (su_during s d))
     | Inr (h, l) \<Rightarrow>
         (case markExportItemConfirmed (su_commits s) (di_id i) h l (su_during s d) of
            (True, d') \<Rightarrow> (Inr (confirmed_result (di_id i) (Some h) (Some l)),
              dd_record ''wallet.export.confirmed'' (Some u) (di_id i) d')
          | (False, d') \<Rightarrow> (Inr (failed_result (di_id i) ''TRANSFER_UNAVAILABLE''),
              fail_export_item u ''TRANSFER_UNAVAILABLE'' (di_id i) d'))))"

definition export_submit_item ::
  "ident \<Rightarrow> wallet_export \<Rightarrow> drain_item list \<Rightarrow> submitted \<Rightarrow> ddb \<Rightarrow> (rotation_throw + item_result) \<times> ddb" where
  "export_submit_item u x items s d = (case find (\<lambda>i. di_id i = su_item s) items of
     None \<Rightarrow> (Inr (failed_result (su_item s) ''EXPORT_NOT_FOUND''), d)
   | Some i \<Rightarrow>
       if di_status i = IS_confirmed then (Inr (confirmed_result (di_id i) (di_hash i) (di_ledger i)), d)
       else if di_tx i \<in> {None, Some []} then (Inr (failed_result (di_id i) ''TRANSFER_EXPIRED''), d)
       else (case claimExportItem (di_id i) (dd_xitems (su_meanwhile s d)) of
           (t, True) \<Rightarrow> transfer_export_item u x s i ((su_meanwhile s d)\<lparr>dd_xitems := t\<rparr>)
         | (_, False) \<Rightarrow> (Inr \<lparr>rs_item = di_id i, rs_status = IS_submitted, rs_hash = None, rs_ledger = None,
             rs_error = None\<rparr>, su_meanwhile s d)))"

fun export_submit_items ::
  "ident \<Rightarrow> wallet_export \<Rightarrow> drain_item list \<Rightarrow> submitted list \<Rightarrow> ddb
   \<Rightarrow> (rotation_throw + drain_item list \<times> item_result list) \<times> ddb" where
  "export_submit_items u x items [] d = (Inr (items, []), d)"
| "export_submit_items u x items (s # ss) d =
     (case export_submit_item u x items s d of
        (Inl e, d') \<Rightarrow> (Inl e, d')
      | (Inr y, d') \<Rightarrow> (case export_submit_items u x (map (after_result y) items) ss d' of
          (Inl e, d'') \<Rightarrow> (Inl e, d'')
        | (Inr (items', ys), d'') \<Rightarrow> (Inr (items', y # ys), d'')))"

definition exportSubmit_gates ::
  "(ident \<Rightarrow> ident option) \<Rightarrow> allowlist_row list \<Rightarrow> ident \<Rightarrow> ident \<Rightarrow> ident \<Rightarrow> ddb \<Rightarrow> rotation_throw + wallet_export" where
  "exportSubmit_gates canon allowlist u w i d =
     bindE (resolveExportWallet u w d) (\<lambda>_.
     bindE (case findOwnedExport i w u d of None \<Rightarrow> Inl (http ''EXPORT_NOT_FOUND'' 422) | Some x \<Rightarrow> Inr x) (\<lambda>x.
     bindE (guardE (kyc_isAllowed canon (wx_target x) allowlist) (http ''RECIPIENT_NOT_WHITELISTED'' 422)) (\<lambda>_.
     Inr x)))"

definition exportSubmit ::
  "(ident \<Rightarrow> ident option) \<Rightarrow> allowlist_row list \<Rightarrow> instant \<Rightarrow> ident \<Rightarrow> ident \<Rightarrow> ident \<Rightarrow> bool \<Rightarrow> submitted list
   \<Rightarrow> (ident \<Rightarrow> int) option \<Rightarrow> (ddb \<Rightarrow> ddb) \<Rightarrow> ddb \<Rightarrow> (rotation_throw + drain_status \<times> bool \<times> item_result list) \<times> ddb" where
  "exportSubmit canon allowlist now u w exportId key_ok ss reread meanwhile d =
     (case exportSubmit_gates canon allowlist u w exportId d of
        Inl e \<Rightarrow> (Inl e, d)
      | Inr x \<Rightarrow>
          let d0 = dd_record ''wallet.export.submit'' (Some u) (wx_id x) d in
          if \<not> key_ok then (Inl (http ''TRANSFER_SIGNATURE_INVALID'' 422), d0)
          else (case export_submit_items u x (items_of (wx_id x) (dd_xitems d)) ss d0 of
             (Inl e, d1) \<Rightarrow> (Inl e, d1)
           | (Inr (items, results), d1) \<Rightarrow>
               let allConfirmed = (items \<noteq> [] \<and> list_all (\<lambda>i. di_status i = IS_confirmed) items);
                   allZero = (allConfirmed \<and> (case reread of None \<Rightarrow> False
                     | Some balance \<Rightarrow> list_all (\<lambda>i. \<not> 0 < balance (di_token i)) items))
               in (case finalizeExport now (Some u) (wx_id x) w allZero (meanwhile d1) of
                   (Inl e, d2) \<Rightarrow> (Inl (DbThrow e), d2)
                 | (Inr exported, d2) \<Rightarrow>
                     (Inr (if exported then DS_completed else DS_submitting, exported, results), d2))))"

section \<open>status\<close>

definition export_reconcile_one :: "(ident \<Rightarrow> int) \<Rightarrow> drain_item \<Rightarrow> ddb \<Rightarrow> bool \<times> ddb" where
  "export_reconcile_one balance i d =
     (if 0 < balance (di_token i) then (False, d)
      else case reconcileExportItem (di_id i) (dd_xitems d) of (t, ok) \<Rightarrow> (ok, d\<lparr>dd_xitems := t\<rparr>))"

fun export_reconcile_items :: "(ident \<Rightarrow> int) \<Rightarrow> drain_item list \<Rightarrow> ddb \<Rightarrow> ident list \<times> ddb" where
  "export_reconcile_items balance [] d = ([], d)"
| "export_reconcile_items balance (i # is) d =
     (case export_reconcile_one balance i d of (ok, d') \<Rightarrow>
      case export_reconcile_items balance is d' of (ids, d'') \<Rightarrow> (if ok then di_id i # ids else ids, d''))"

definition exportReconcileStuckItems ::
  "instant \<Rightarrow> (ident \<Rightarrow> int) option \<Rightarrow> ident \<Rightarrow> wallet_export \<Rightarrow> drain_item list \<Rightarrow> ddb \<Rightarrow> (rotation_throw + unit) \<times> ddb" where
  "exportReconcileStuckItems now balances w x items d =
     (let stuck = filter (\<lambda>i. di_status i = IS_submitted) items in
      case balances of
        None \<Rightarrow> (Inr (), d)
      | Some balance \<Rightarrow> if stuck = [] then (Inr (), d)
          else (case export_reconcile_items balance stuck d of (ids, d') \<Rightarrow>
            if list_all (\<lambda>i. di_status i = IS_confirmed \<or> di_id i \<in> set ids) items
            then (case finalizeExport now None (wx_id x) w True d' of
                (Inl e, d'') \<Rightarrow> (Inl (DbThrow e), d'') | (Inr _, d'') \<Rightarrow> (Inr (), d''))
            else (Inr (), d')))"

definition export_status ::
  "instant \<Rightarrow> (ident \<Rightarrow> int) option \<Rightarrow> ident \<Rightarrow> ident \<Rightarrow> ddb
   \<Rightarrow> (rotation_throw + read_state \<times> (ident \<times> item_status) list) \<times> ddb" where
  "export_status now balances u w d = (case findOwnedById w u (dd_wallets d) of
     None \<Rightarrow> (Inl (http ''WALLET_NOT_FOUND'' 404), d)
   | Some wallet \<Rightarrow> (case findLatestByWalletId w d of
       None \<Rightarrow> (Inr (RS_none, []), d)
     | Some x0 \<Rightarrow>
         let items = items_of (wx_id x0) (dd_xitems d)
         in (case (if wt_contract wallet \<in> {None, Some []} then (Inr (), d)
                   else exportReconcileStuckItems now balances w x0 items d) of
            (Inl e, d') \<Rightarrow> (Inl e, d')
          | (Inr _, d') \<Rightarrow>
              let x = (case findLatestByWalletId w d' of None \<Rightarrow> x0 | Some x \<Rightarrow> x)
              in (Inr (mapRotationStateForRead (wx_status x),
                   map (\<lambda>i. (di_token i, di_status i)) (items_of (wx_id x) (dd_xitems d'))), d'))))"

end
