(* ===== verification/Drain_Machine.thy ===== *)
theory Drain_Machine
  imports Export
begin

text \<open>
  The two drains as a machine: one step is one statement of a repository with arbitrary arguments, so
  its runs are the interleavings of every request. The rows a request holds in memory are rows it
  loaded earlier: \<open>known_rotation\<close> and \<open>known_item\<close> say that the table still has them.
\<close>

section \<open>Steps\<close>

definition same_rotation :: "rotation \<Rightarrow> rotation \<Rightarrow> bool" where
  "same_rotation r s \<longleftrightarrow> ro_id s = ro_id r \<and> ro_user s = ro_user r \<and> ro_source s = ro_source r
     \<and> ro_dest s = ro_dest r \<and> ro_address s = ro_address r"

definition same_item :: "drain_item \<Rightarrow> drain_item \<Rightarrow> bool" where
  "same_item i j \<longleftrightarrow> di_id j = di_id i \<and> di_parent j = di_parent i \<and> di_token j = di_token i"

definition known_rotation :: "rotation \<Rightarrow> ddb \<Rightarrow> bool" where
  "known_rotation r d \<longleftrightarrow> (\<exists>s \<in> set (dd_rotations d). same_rotation r s)"

definition known_item :: "drain_item \<Rightarrow> ddb \<Rightarrow> bool" where
  "known_item i d \<longleftrightarrow> (\<exists>j \<in> set (dd_items d). same_item i j)"

text \<open>The item, the rotation it belongs to, both loaded earlier.\<close>

definition loaded :: "rotation \<Rightarrow> drain_item \<Rightarrow> ddb \<Rightarrow> bool" where
  "loaded r i d \<longleftrightarrow> known_rotation r d \<and> known_item i d \<and> di_parent i = ro_id r"

inductive drain_step :: "ddb \<Rightarrow> ddb \<Rightarrow> bool" where
  wallet_tables: "drain_step d (d\<lparr>dd_wallets := w\<rparr>)"
| rotation_create: "drain_step d (snd (createRotation now fresh src u dst addr d))"
| item_build: "ib_parent b \<in> ro_id ` set (dd_rotations d)
    \<Longrightarrow> drain_step d (d\<lparr>dd_items := snd (upsertItemBuild fresh b t (dd_items d))\<rparr>)"
| item_claim: "drain_step d (d\<lparr>dd_items := fst (claimItemForSubmit i (dd_items d))\<rparr>)"
| item_confirm: "loaded r i d
    \<Longrightarrow> drain_step d (snd (markItemConfirmed ok (di_id i) h l (custodyEntry r source i (Some h) (Some l)) d))"
| item_reconcile: "loaded r i d \<Longrightarrow> drain_step d (snd (reconcileItemConfirmed (di_id i) (custodyEntry r source i hh ll) d))"
| item_fail: "drain_step d (markItemFailed j code d)"
| rotation_finalize: "drain_step d (snd (finalizeRotation now actor j z d))"
| rotation_cancel: "drain_step d (softCancel now j d)"
| export_create: "drain_step d (snd (createExport now fresh w u target d))"
| export_build: "drain_step d (d\<lparr>dd_xitems := snd (upsertExportItem fresh b (dd_xitems d))\<rparr>)"
| export_claim: "drain_step d (d\<lparr>dd_xitems := fst (claimExportItem j (dd_xitems d))\<rparr>)"
| export_confirm: "drain_step d (snd (markExportItemConfirmed ok j h l d))"
| export_reconcile: "drain_step d (d\<lparr>dd_xitems := fst (reconcileExportItem j (dd_xitems d))\<rparr>)"
| export_fail: "drain_step d (markExportItemFailed j code d)"
| export_finalize: "drain_step d (snd (finalizeExport now actor j w z d))"

abbreviation drain_steps :: "ddb \<Rightarrow> ddb \<Rightarrow> bool" where
  "drain_steps \<equiv> drain_step\<^sup>*\<^sup>*"

definition no_drains :: "wdb \<Rightarrow> ddb" where
  "no_drains w = \<lparr>dd_wallets = w, dd_rotations = [], dd_items = [], dd_events = [], dd_exports = [], dd_xitems = []\<rparr>"

section \<open>What holds in every state\<close>

definition items_ok :: "drain_item list \<Rightarrow> bool" where
  "items_ok t \<longleftrightarrow> distinct (map di_id t) \<and> (\<forall>i \<in> set t. chk_item i)
     \<and> (\<forall>i \<in> set t. \<forall>j \<in> set t. live_item i \<longrightarrow> live_item j \<longrightarrow> di_hash i \<noteq> None \<longrightarrow> di_hash i = di_hash j \<longrightarrow> i = j)"

definition one_item_per_token :: "drain_item list \<Rightarrow> bool" where
  "one_item_per_token t \<longleftrightarrow> (\<forall>i \<in> set t. \<forall>j \<in> set t.
     live_item i \<longrightarrow> live_item j \<longrightarrow> di_parent i = di_parent j \<longrightarrow> di_token i = di_token j \<longrightarrow> i = j)"

definition rotations_ok :: "rotation list \<Rightarrow> bool" where
  "rotations_ok t \<longleftrightarrow> distinct (map ro_id t) \<and> (\<forall>r \<in> set t. chk_rotation r)
     \<and> (\<forall>r \<in> set t. \<forall>s \<in> set t. active_rotation r \<longrightarrow> active_rotation s \<longrightarrow> ro_source r = ro_source s \<longrightarrow> r = s)"

definition exports_ok :: "wallet_export list \<Rightarrow> bool" where
  "exports_ok t \<longleftrightarrow> distinct (map wx_id t) \<and> (\<forall>x \<in> set t. chk_export x)
     \<and> (\<forall>x \<in> set t. \<forall>y \<in> set t. active_export x \<longrightarrow> active_export y \<longrightarrow> wx_wallet x = wx_wallet y \<longrightarrow> x = y)"

text \<open>A custody row of an item: its parties and its token, from the rotation of the item.\<close>

definition custody_of :: "ddb \<Rightarrow> registry_event \<Rightarrow> drain_item \<Rightarrow> bool" where
  "custody_of d e i \<longleftrightarrow> rg_ref e = item_ref (di_id i) \<and> rg_token e = di_token i
     \<and> (\<exists>r \<in> set (dd_rotations d). ro_id r = di_parent i \<and> rg_user e = ro_user r \<and> rg_source e = ro_source r
         \<and> rg_dest e = ro_dest r \<and> rg_to e = ro_address r)"

definition has_custody :: "ddb \<Rightarrow> drain_item \<Rightarrow> bool" where
  "has_custody d i \<longleftrightarrow> (\<exists>e \<in> set (dd_events d). custody_of d e i)"

definition registry_ok :: "ddb \<Rightarrow> bool" where
  "registry_ok d \<longleftrightarrow> distinct (map rg_ref (dd_events d))
     \<and> (\<forall>e \<in> set (dd_events d). \<exists>i \<in> set (dd_items d). custody_of d e i)
     \<and> (\<forall>i \<in> set (dd_items d). di_status i = IS_confirmed \<longrightarrow> has_custody d i)
     \<and> (\<forall>i \<in> set (dd_items d). di_parent i \<in> ro_id ` set (dd_rotations d))
     \<and> (\<forall>r \<in> set (dd_rotations d). ro_status r = DS_completed
         \<longrightarrow> (\<exists>i \<in> set (dd_items d). di_parent i = ro_id r \<and> has_custody d i))"

definition drains_ok :: "ddb \<Rightarrow> bool" where
  "drains_ok d \<longleftrightarrow> rotations_ok (dd_rotations d) \<and> items_ok (dd_items d) \<and> one_item_per_token (dd_items d)
     \<and> registry_ok d \<and> exports_ok (dd_exports d) \<and> items_ok (dd_xitems d)"

section \<open>What a run never changes\<close>

definition rotation_moves :: "rotation \<Rightarrow> rotation \<Rightarrow> bool" where
  "rotation_moves r s \<longleftrightarrow> same_rotation r s \<and> (ro_status r = DS_completed \<longrightarrow> ro_status s = DS_completed)
     \<and> (ro_deleted r \<noteq> None \<longrightarrow> ro_deleted s = ro_deleted r)"

definition item_moves :: "drain_item \<Rightarrow> drain_item \<Rightarrow> bool" where
  "item_moves i j \<longleftrightarrow> same_item i j \<and> (di_deleted i \<noteq> None \<longrightarrow> di_deleted j = di_deleted i)"

definition export_moves :: "wallet_export \<Rightarrow> wallet_export \<Rightarrow> bool" where
  "export_moves x y \<longleftrightarrow> wx_id y = wx_id x \<and> wx_wallet y = wx_wallet x \<and> wx_user y = wx_user x \<and> wx_target y = wx_target x
     \<and> (wx_status x = DS_completed \<longrightarrow> wx_status y = DS_completed)"

definition drains_move :: "ddb \<Rightarrow> ddb \<Rightarrow> bool" where
  "drains_move d d' \<longleftrightarrow> rows_move rotation_moves (dd_rotations d) (dd_rotations d')
     \<and> rows_move item_moves (dd_items d) (dd_items d') \<and> rows_move (=) (dd_events d) (dd_events d')
     \<and> rows_move export_moves (dd_exports d) (dd_exports d') \<and> rows_move item_moves (dd_xitems d) (dd_xitems d')"

lemma moves_refl [simp]: "rotation_moves r r" "item_moves i i" "export_moves x x"
  by (simp_all add: rotation_moves_def item_moves_def export_moves_def same_rotation_def same_item_def)

lemma moves_trans:
  "rotation_moves r s \<Longrightarrow> rotation_moves s t \<Longrightarrow> rotation_moves r t"
  "item_moves i j \<Longrightarrow> item_moves j k \<Longrightarrow> item_moves i k"
  "export_moves x y \<Longrightarrow> export_moves y z \<Longrightarrow> export_moves x z"
  by (auto simp: rotation_moves_def item_moves_def export_moves_def same_rotation_def same_item_def)

lemma drains_move_refl: "drains_move d d"
  by (simp add: drains_move_def rows_move_refl)

lemma drains_move_trans: "drains_move d e \<Longrightarrow> drains_move e f \<Longrightarrow> drains_move d f"
  unfolding drains_move_def
  by (intro conjI; elim conjE; (erule (1) rows_move_trans)) (auto intro: moves_trans)

section \<open>The statements as updates of the tables\<close>

named_theorems drain_simps \<open>statements of the drains\<close>

lemma upsert_item_cases:
  obtains (kept) "snd (upsertItemBuild fresh b t t') = t'"
  | (saved) i where "0 < ib_amount b" "snd (upsertItemBuild fresh b t t') = save_item i (apply_build b) t'"
  | (added) "0 < ib_amount b" "snd (upsertItemBuild fresh b t t') = t' @ [new_item fresh b]" "fresh \<notin> di_id ` set t'"
      "\<forall>i \<in> set t'. \<not> (di_parent i = ib_parent b \<and> di_token i = ib_token b \<and> live_item i)"
proof -
  define e where "e = (case ib_existing b of Some i \<Rightarrow> sql_find (\<lambda>r. di_id r = i \<and> live_item r) t
    | None \<Rightarrow> find_item_by_key (ib_parent b) (ib_token b) t)"
  have u: "snd (upsertItemBuild fresh b t t') = (if ib_existing b \<noteq> None \<and> e = None \<or> \<not> 0 < ib_amount b then t'
      else case e of Some r \<Rightarrow> save_item (di_id r) (apply_build b) t'
      | None \<Rightarrow> (case find_item_by_key (ib_parent b) (ib_token b) t' of
          Some winner \<Rightarrow> save_item (di_id winner) (apply_build b) t'
        | None \<Rightarrow> if fresh \<in> di_id ` set t' then t' else t' @ [new_item fresh b]))"
    unfolding upsertItemBuild_def Let_def e_def [symmetric] by (auto split: option.split)
  show ?thesis
  proof (cases "ib_existing b \<noteq> None \<and> e = None \<or> \<not> 0 < ib_amount b")
    case False
    show ?thesis
    proof (cases e)
      case (Some r)
      then show ?thesis using False saved u by simp
    next
      case None
      show ?thesis
      proof (cases "find_item_by_key (ib_parent b) (ib_token b) t'")
        case nobody: None
        then have free: "\<forall>i \<in> set t'. \<not> (di_parent i = ib_parent b \<and> di_token i = ib_token b \<and> live_item i)"
          unfolding find_item_by_key_def sql_find_None .
        show ?thesis using False None nobody kept added free u by (cases "fresh \<in> di_id ` set t'") simp_all
      qed (use False None saved u in simp)
    qed
  qed (use kept u in simp)
qed

lemma upsert_export_cases:
  obtains (kept) "snd (upsertExportItem fresh b t) = t"
  | (saved) i where "0 < ib_amount b" "snd (upsertExportItem fresh b t) = save_item i (apply_build b) t"
  | (added) "0 < ib_amount b" "snd (upsertExportItem fresh b t) = t @ [new_item fresh b]" "fresh \<notin> di_id ` set t"
proof (cases "0 < ib_amount b")
  case True
  then show ?thesis
  proof (cases "ib_existing b")
    case None
    then show ?thesis using True kept added by (cases "fresh \<in> di_id ` set t") (auto simp: upsertExportItem_def)
  next
    case (Some i)
    then show ?thesis using True kept saved
      by (cases "sql_find (\<lambda>r. di_id r = i \<and> live_item r) t") (auto simp: upsertExportItem_def)
  qed
qed (use kept in \<open>simp add: upsertExportItem_def\<close>)

lemma finalize_export_cases:
  obtains (kept) "snd (finalizeExport now actor i w z d) = d"
  | (completed) wd where "all_items_confirmed i (dd_xitems d)" "z"
      "snd (finalizeExport now actor i w z d) = d\<lparr>dd_wallets := wd,
        dd_exports := set_export i (\<lambda>x. x\<lparr>wx_status := DS_completed, wx_completed := Some now\<rparr>) (dd_exports d)\<rparr>"
  | (demoted) "snd (finalizeExport now actor i w z d) = d\<lparr>dd_exports := set_export i (\<lambda>x. x\<lparr>wx_status := DS_submitting\<rparr>) (dd_exports d)\<rparr>"
      "\<forall>x \<in> set (set_export i (\<lambda>x. x\<lparr>wx_status := DS_submitting\<rparr>) (dd_exports d)). wx_id x = i \<longrightarrow> chk_export x"
proof (cases "all_items_confirmed i (dd_xitems d) \<and> z")
  case True
  let ?e = "\<lambda>wd. d\<lparr>dd_wallets := wd_record \<lparr>ae_kind = ''wallet.export.confirmed'', ae_actor = actor, ae_subject = i\<rparr> wd,
    dd_exports := set_export i (\<lambda>x. x\<lparr>wx_status := DS_completed, wx_completed := Some now\<rparr>) (dd_exports d)\<rparr>"
  have "snd (finalizeExport now actor i w z d) = (case fst (markExported now w (dd_wallets d)) of
      Inl _ \<Rightarrow> d | Inr _ \<Rightarrow> ?e (snd (markExported now w (dd_wallets d))))"
    using True by (simp add: finalizeExport_def dd_record_def split: prod.split sum.split)
  then show ?thesis using True kept completed by (cases "fst (markExported now w (dd_wallets d))") simp_all
next
  case False
  let ?t = "set_export i (\<lambda>x. x\<lparr>wx_status := DS_submitting\<rparr>) (dd_exports d)"
  have "snd (finalizeExport now actor i w z d) = (if list_all (\<lambda>x. wx_id x = i \<longrightarrow> chk_export x) ?t then d\<lparr>dd_exports := ?t\<rparr> else d)"
    unfolding finalizeExport_def Let_def if_not_P [OF False] by (simp only: if_distrib [of snd] snd_conv)
  note u = this
  show ?thesis
  proof (cases "list_all (\<lambda>x. wx_id x = i \<longrightarrow> chk_export x) ?t")
    case True
    then show ?thesis using demoted u unfolding list_all_iff by simp
  qed (use kept u in simp)
qed

lemmas [drain_simps] = save_item_def claimItemForSubmit_def promote_stuck_def claimExportItem_def reconcileExportItem_def
  fst_cas_rows set_rotation_def set_export_def

section \<open>Runs only move rows\<close>

lemma item_moves_claim [intro]: "item_moves r (if P then r\<lparr>di_status := s\<rparr> else r)"
  by (simp add: item_moves_def same_item_def)

lemma recordCustodyTransfer_tables [simp]:
  "dd_rotations (recordCustodyTransfer e d) = dd_rotations d" "dd_items (recordCustodyTransfer e d) = dd_items d"
  "dd_exports (recordCustodyTransfer e d) = dd_exports d" "dd_xitems (recordCustodyTransfer e d) = dd_xitems d"
  by (simp_all add: recordCustodyTransfer_def)

lemma recordCustodyTransfer_events:
  "dd_events (recordCustodyTransfer e d) = dd_events d @ (if rg_ref e \<in> rg_ref ` set (dd_events d) then [] else [e])"
  by (auto simp: recordCustodyTransfer_def list_ex_iff image_iff eq_commute [of "rg_ref e"])

lemma rows_move_items:
  "(\<And>r. item_moves r (f r)) \<Longrightarrow> drains_move d (d\<lparr>dd_items := map f (dd_items d)\<rparr>)"
  "(\<And>r. item_moves r (f r)) \<Longrightarrow> drains_move d (d\<lparr>dd_xitems := map f (dd_xitems d)\<rparr>)"
  by (simp_all add: drains_move_def rows_move_refl rows_move_map)

lemma table_moves:
  "rows_move rotation_moves (dd_rotations d) rs \<Longrightarrow> drains_move d (d\<lparr>dd_rotations := rs\<rparr>)"
  "rows_move export_moves (dd_exports d) xs \<Longrightarrow> drains_move d (d\<lparr>dd_exports := xs\<rparr>)"
  "drains_move d (d\<lparr>dd_wallets := w\<rparr>)"
  by (simp_all add: drains_move_def rows_move_refl)

lemma status_moves: "item_moves r (if P then r\<lparr>di_status := s\<rparr> else r)" "item_moves r (if P then r\<lparr>di_status := s, di_error := e\<rparr> else r)"
  by (simp_all add: item_moves_def same_item_def)

lemma append_item_moves:
  "drains_move d (d\<lparr>dd_items := dd_items d @ [i]\<rparr>)" "drains_move d (d\<lparr>dd_xitems := dd_xitems d @ [i]\<rparr>)"
  by (simp_all add: drains_move_def rows_move_refl rows_move_append)

lemma apply_build_moves: "item_moves r (if di_id r = i then apply_build b r else r)"
  by (simp add: item_moves_def same_item_def apply_build_def)

lemma record_custody_moves: "drains_move d (recordCustodyTransfer e d)"
  unfolding drains_move_def by (simp add: rows_move_refl recordCustodyTransfer_events rows_move_append)

lemma save_moves:
  assumes "\<And>r. item_moves r (f r)"
  shows "drains_move d (d\<lparr>dd_items := save_item i f (dd_items d)\<rparr>)" "drains_move d (d\<lparr>dd_xitems := save_item i f (dd_xitems d)\<rparr>)"
  unfolding save_item_def by (rule rows_move_items; use assms in simp)+

lemma set_confirmed_moves: "item_moves r (set_confirmed h l r)" "item_moves r (r\<lparr>di_status := s, di_error := e\<rparr>)"
  by (simp_all add: item_moves_def same_item_def set_confirmed_def)

lemma drain_step_moves: "drain_step d d' \<Longrightarrow> exports_ok (dd_exports d) \<Longrightarrow> drains_move d d'"
proof (induction rule: drain_step.induct)
  case (item_build b d fresh t)
  show ?case by (rule upsert_item_cases [of fresh b t "dd_items d"])
      (auto simp: drains_move_refl append_item_moves save_moves save_item_def intro!: rows_move_items apply_build_moves)
next
  case (export_build d fresh b)
  show ?case by (rule upsert_export_cases [of fresh b "dd_xitems d"])
      (auto simp: drains_move_refl append_item_moves save_moves save_item_def intro!: rows_move_items apply_build_moves)
next
  case (item_confirm r i d ok h l source)
  show ?case by (auto simp: markItemConfirmed_def drains_move_refl
      intro: drains_move_trans [OF save_moves(1) record_custody_moves] set_confirmed_moves)
next
  case (export_confirm d ok j h l)
  show ?case by (auto simp: markExportItemConfirmed_def drains_move_refl intro: save_moves set_confirmed_moves)
next
  case (item_reconcile r i d source hh ll)
  have "drains_move d (d\<lparr>dd_items := fst (promote_stuck (di_id i) (dd_items d))\<rparr>)"
    unfolding promote_stuck_def fst_cas_rows by (rule rows_move_items) (simp add: set_confirmed_moves)
  then show ?case using record_custody_moves drains_move_trans drains_move_refl
    by (fastforce simp: reconcileItemConfirmed_def split: prod.splits bool.splits)
next
  case (rotation_finalize d now actor j z)
  show ?case by (auto simp: finalizeRotation_def dd_record_def drains_move_def set_rotation_def
      rotation_moves_def same_rotation_def intro!: rows_move_refl rows_move_map)
next
  case (rotation_cancel d now j)
  show ?case by (auto simp: softCancel_def drains_move_def set_rotation_def live_item_def
      rotation_moves_def same_rotation_def item_moves_def same_item_def intro!: rows_move_refl rows_move_map)
next
  case (export_finalize d now actor j w z)
  show ?case
  proof (rule finalize_export_cases [of now actor j w z d])
    fix wd
    assume "snd (finalizeExport now actor j w z d) = d\<lparr>dd_wallets := wd,
        dd_exports := set_export j (\<lambda>x. x\<lparr>wx_status := DS_completed, wx_completed := Some now\<rparr>) (dd_exports d)\<rparr>"
    then show ?thesis
      by (auto simp: drains_move_def set_export_def export_moves_def intro!: rows_move_refl rows_move_map)
  next
    assume *: "snd (finalizeExport now actor j w z d) = d\<lparr>dd_exports := set_export j (\<lambda>x. x\<lparr>wx_status := DS_submitting\<rparr>) (dd_exports d)\<rparr>"
      "\<forall>x \<in> set (set_export j (\<lambda>x. x\<lparr>wx_status := DS_submitting\<rparr>) (dd_exports d)). wx_id x = j \<longrightarrow> chk_export x"
    have "export_moves x (if wx_id x = j then x\<lparr>wx_status := DS_submitting\<rparr> else x)" if "x \<in> set (dd_exports d)" for x
    proof (cases "wx_id x = j")
      case True
      then have "x\<lparr>wx_status := DS_submitting\<rparr> \<in> set (set_export j (\<lambda>x. x\<lparr>wx_status := DS_submitting\<rparr>) (dd_exports d))"
        using that unfolding set_export_def set_map by (intro rev_image_eqI [of x]) simp_all
      then have "chk_export (x\<lparr>wx_status := DS_submitting\<rparr>)" using *(2) True by simp
      moreover have "chk_export x" using export_finalize that by (simp add: exports_ok_def)
      ultimately show ?thesis by (simp add: chk_export_def export_moves_def)
    qed simp
    then have "rows_move export_moves (dd_exports d) (set_export j (\<lambda>x. x\<lparr>wx_status := DS_submitting\<rparr>) (dd_exports d))"
      unfolding set_export_def by (rule rows_move_map)
    then show ?thesis unfolding *(1) by (rule table_moves(2))
  qed (simp add: drains_move_refl)
next
  case (wallet_tables d w)
  show ?case by (rule table_moves(3))
next
  case (rotation_create d now fresh src u dst addr)
  show ?case by (simp add: createRotation_def Let_def drains_move_refl table_moves rows_move_append)
next
  case (export_create d now fresh w u target)
  show ?case by (simp add: createExport_def Let_def drains_move_refl table_moves rows_move_append)
next
  case (item_claim d i)
  show ?case unfolding claimItemForSubmit_def fst_cas_rows by (rule rows_move_items, rule status_moves)
next
  case (export_claim d j)
  show ?case unfolding claimExportItem_def fst_cas_rows by (rule rows_move_items, rule status_moves)
next
  case (export_reconcile d j)
  show ?case unfolding reconcileExportItem_def fst_cas_rows by (rule rows_move_items, rule status_moves)
next
  case (item_fail d j code)
  show ?case unfolding markItemFailed_def save_item_def by (rule rows_move_items, rule status_moves)
next
  case (export_fail d j code)
  show ?case unfolding markExportItemFailed_def save_item_def by (rule rows_move_items, rule status_moves)
qed

end
