(* ===== verification/Drain_Props.thy ===== *)
theory Drain_Props
  imports Drain_Machine
begin

text \<open>
  Every interleaving of the drains' statements keeps their CHECKs and unique indexes, and the custody
  registry stays true to the rotations.
\<close>

section \<open>Tables\<close>

lemma items_ok_map:
  assumes "items_ok t" "\<And>r. di_id (f r) = di_id r" "\<And>r. live_item (f r) \<Longrightarrow> live_item r" "\<And>r. di_hash (f r) = di_hash r"
    "\<And>r. chk_item r \<Longrightarrow> chk_item (f r)"
  shows "items_ok (map f t)"
proof -
  have "map di_id (map f t) = map di_id t" using assms(2) by simp
  then show ?thesis using assms(1,3,4,5) unfolding items_ok_def by (auto simp del: map_map)
qed

lemma one_item_map:
  assumes "one_item_per_token t" "\<And>r. same_item r (f r)" "\<And>r. live_item (f r) \<Longrightarrow> live_item r"
  shows "one_item_per_token (map f t)"
  using assms unfolding one_item_per_token_def same_item_def by auto

lemma items_ok_append:
  assumes "items_ok t" "di_id x \<notin> di_id ` set t" "chk_item x" "di_hash x = None"
  shows "items_ok (t @ [x])"
  using assms unfolding items_ok_def by (auto; metis)

lemma one_item_append:
  assumes "one_item_per_token t" "\<forall>i \<in> set t. \<not> (di_parent i = di_parent x \<and> di_token i = di_token x \<and> live_item i)"
  shows "one_item_per_token (t @ [x])"
  using assms unfolding one_item_per_token_def by (auto; metis)

lemma new_item_row: "di_id (new_item fresh b) = fresh" "di_parent (new_item fresh b) = ib_parent b"
  "di_token (new_item fresh b) = ib_token b" "di_hash (new_item fresh b) = None" "di_status (new_item fresh b) = IS_pending"
  "0 < ib_amount b \<Longrightarrow> chk_item (new_item fresh b)"
  by (simp_all add: new_item_def apply_build_def chk_item_def)

lemma apply_build_row: "same_item r (apply_build b r)" "live_item (apply_build b r) = live_item r"
  "di_hash (apply_build b r) = di_hash r" "0 < ib_amount b \<Longrightarrow> chk_item (apply_build b r)" "di_status (apply_build b r) = IS_pending"
  by (simp_all add: apply_build_def same_item_def live_item_def chk_item_def)

lemma rebuild_ok:
  assumes "0 < ib_amount b"
  shows "items_ok t \<Longrightarrow> items_ok (save_item i (apply_build b) t)"
    "one_item_per_token t \<Longrightarrow> one_item_per_token (save_item i (apply_build b) t)"
proof -
  define f where "f = (\<lambda>r. if di_id r = i then apply_build b r else r)"
  have f: "same_item r (f r)" "live_item (f r) = live_item r" "di_hash (f r) = di_hash r" "chk_item r \<Longrightarrow> chk_item (f r)" for r
    using assms by (simp_all add: f_def apply_build_row) (simp add: same_item_def)
  show "items_ok t \<Longrightarrow> items_ok (save_item i (apply_build b) t)"
    unfolding save_item_def f_def [symmetric] using f by (intro items_ok_map) (simp_all add: same_item_def)
  show "one_item_per_token t \<Longrightarrow> one_item_per_token (save_item i (apply_build b) t)"
    unfolding save_item_def f_def [symmetric] using f by (intro one_item_map) simp_all
qed

lemma upsert_item_ok:
  assumes "items_ok t'" "one_item_per_token t'"
  shows "items_ok (snd (upsertItemBuild fresh b t t')) \<and> one_item_per_token (snd (upsertItemBuild fresh b t t'))"
proof (rule upsert_item_cases [of fresh b t t'])
  fix i
  assume "0 < ib_amount b" "snd (upsertItemBuild fresh b t t') = save_item i (apply_build b) t'"
  then show ?thesis using assms by (simp add: rebuild_ok)
next
  assume "0 < ib_amount b" "snd (upsertItemBuild fresh b t t') = t' @ [new_item fresh b]" "fresh \<notin> di_id ` set t'"
    "\<forall>i \<in> set t'. \<not> (di_parent i = ib_parent b \<and> di_token i = ib_token b \<and> live_item i)"
  then show ?thesis using assms by (auto simp: new_item_row intro!: items_ok_append one_item_append)
qed (use assms in simp)

lemma upsert_export_ok:
  assumes "items_ok t"
  shows "items_ok (snd (upsertExportItem fresh b t))"
proof (rule upsert_export_cases [of fresh b t])
  fix i
  assume "0 < ib_amount b" "snd (upsertExportItem fresh b t) = save_item i (apply_build b) t"
  then show ?thesis using assms by (simp add: rebuild_ok)
next
  assume "0 < ib_amount b" "snd (upsertExportItem fresh b t) = t @ [new_item fresh b]" "fresh \<notin> di_id ` set t"
  then show ?thesis using assms by (auto simp: new_item_row intro!: items_ok_append)
qed (use assms in simp)

text \<open>A status update keeps every index.\<close>

lemma status_update_ok:
  assumes "\<And>r. f r = r \<or> (\<exists>s e. f r = r\<lparr>di_status := s, di_error := e\<rparr>)"
  shows "items_ok t \<Longrightarrow> items_ok (map f t)" "one_item_per_token t \<Longrightarrow> one_item_per_token (map f t)"
proof -
  have f: "di_id (f r) = di_id r" "live_item (f r) = live_item r" "di_hash (f r) = di_hash r" "chk_item (f r) = chk_item r"
    "same_item r (f r)" for r
    using assms [of r] by (auto simp: live_item_def chk_item_def same_item_def)
  show "items_ok t \<Longrightarrow> items_ok (map f t)" by (rule items_ok_map) (simp_all add: f)
  show "one_item_per_token t \<Longrightarrow> one_item_per_token (map f t)" by (rule one_item_map) (simp_all add: f)
qed

lemma confirm_ok:
  assumes "items_ok t" "\<not> hash_taken i h t"
  shows "items_ok (save_item i (set_confirmed h l) t)"
proof -
  define f where "f = (\<lambda>r. if di_id r = i then set_confirmed h l r else r)"
  have f: "di_id (f r) = di_id r" "live_item (f r) = live_item r" "chk_item (f r) = chk_item r"
    "di_hash (f r) = (if di_id r = i then Some h else di_hash r)" for r
    by (simp_all add: f_def set_confirmed_def live_item_def chk_item_def)
  have ids: "map di_id (map f t) = map di_id t" by (simp add: f)
  have "r = s" if "r \<in> set t" "s \<in> set t" "live_item r" "live_item s" "di_hash (f r) \<noteq> None" "di_hash (f r) = di_hash (f s)" for r s
  proof -
    have taken: "\<not> (\<exists>x \<in> set t. di_id x \<noteq> i \<and> di_hash x = Some h \<and> live_item x)" if "\<exists>x \<in> set t. di_id x = i \<and> live_item x"
      using assms(2) that unfolding hash_taken_def list_ex_iff by blast
    have same: "x = y" if "x \<in> set t" "y \<in> set t" "di_id x = di_id y" for x y
      using assms(1) that by (auto simp: items_ok_def distinct_map inj_on_def)
    show ?thesis
    proof (cases "di_id r = i"; cases "di_id s = i")
      assume "di_id r \<noteq> i" "di_id s \<noteq> i"
      then show ?thesis using assms(1) that f(4) unfolding items_ok_def by auto
    qed (use that f(4) taken same in \<open>metis option.inject\<close>)+
  qed
  note unique = this
  show ?thesis unfolding items_ok_def save_item_def f_def [symmetric] ids
  proof (intro conjI ballI impI)
    show "distinct (map di_id t)" using assms(1) by (simp add: items_ok_def)
    show "chk_item x" if "x \<in> set (map f t)" for x using that assms(1) f(3) by (auto simp: items_ok_def)
    show "x = y" if "x \<in> set (map f t)" "y \<in> set (map f t)" "live_item x" "live_item y" "di_hash x \<noteq> None" "di_hash x = di_hash y" for x y
    proof -
      from that(1,2) obtain r s where "r \<in> set t" "s \<in> set t" "x = f r" "y = f s" by auto
      then show ?thesis using unique [of r s] that(3-6) f(2) by simp
    qed
  qed
qed

lemma rotations_ok_map:
  assumes "rotations_ok t" "\<And>r. same_rotation r (f r)" "\<And>r. active_rotation (f r) \<Longrightarrow> active_rotation r"
    "\<And>r. r \<in> set t \<Longrightarrow> chk_rotation (f r)"
  shows "rotations_ok (map f t)"
proof -
  have "map ro_id (map f t) = map ro_id t" using assms(2) by (simp add: same_rotation_def)
  then show ?thesis using assms unfolding rotations_ok_def same_rotation_def by (auto simp del: map_map)
qed

lemma exports_ok_map:
  assumes "exports_ok t" "\<And>x. wx_id (f x) = wx_id x" "\<And>x. wx_wallet (f x) = wx_wallet x" "\<And>x. x \<in> set t \<Longrightarrow> active_export (f x) \<Longrightarrow> active_export x"
    "\<And>x. x \<in> set t \<Longrightarrow> chk_export (f x)"
  shows "exports_ok (map f t)"
proof -
  have "map wx_id (map f t) = map wx_id t" using assms(2) by simp
  then show ?thesis using assms unfolding exports_ok_def by (auto simp del: map_map)
qed

section \<open>The registry\<close>

lemma custody_of_mono:
  assumes "custody_of d e i" "drains_move d d'" "same_item i j"
  shows "custody_of d' e j"
proof -
  from assms(1) obtain r where r: "r \<in> set (dd_rotations d)" "ro_id r = di_parent i" "rg_user e = ro_user r"
    "rg_source e = ro_source r" "rg_dest e = ro_dest r" "rg_to e = ro_address r" by (auto simp: custody_of_def)
  from assms(2) rows_move_row [OF _ r(1)] obtain r' where "r' \<in> set (dd_rotations d')" "rotation_moves r r'"
    unfolding drains_move_def by blast
  then show ?thesis using assms(1,3) r unfolding custody_of_def rotation_moves_def same_rotation_def same_item_def by auto
qed

lemma has_custody_mono:
  assumes "has_custody d i" "drains_move d d'" "same_item i j"
  shows "has_custody d' j"
proof -
  from assms(1) obtain e where e: "e \<in> set (dd_events d)" "custody_of d e i" by (auto simp: has_custody_def)
  have "e \<in> set (dd_events d')" using assms(2) rows_move_row [OF _ e(1)] unfolding drains_move_def by blast
  then show ?thesis using custody_of_mono [OF e(2) assms(2,3)] by (auto simp: has_custody_def)
qed

lemma moved_item:
  assumes "drains_move d d'" "i \<in> set (dd_items d)"
  obtains j where "j \<in> set (dd_items d')" "same_item i j"
  using assms rows_move_row [of item_moves "dd_items d" "dd_items d'" i] unfolding drains_move_def item_moves_def by blast

lemma moved_rotation:
  assumes "drains_move d d'" "r \<in> set (dd_rotations d)"
  obtains s where "s \<in> set (dd_rotations d')" "rotation_moves r s"
  using assms rows_move_row [of rotation_moves "dd_rotations d" "dd_rotations d'" r] unfolding drains_move_def by blast

lemma registry_ok_step:
  assumes ok: "registry_ok d" and moves: "drains_move d d'"
    and events: "dd_events d' = dd_events d @ es" "distinct (map rg_ref (dd_events d'))"
      "\<And>e. e \<in> set es \<Longrightarrow> \<exists>j \<in> set (dd_items d'). custody_of d' e j"
    and confirmed: "\<And>j. j \<in> set (dd_items d') \<Longrightarrow> di_status j = IS_confirmed \<Longrightarrow> has_custody d' j
      \<or> (\<exists>i \<in> set (dd_items d). same_item i j \<and> di_status i = IS_confirmed)"
    and parents: "\<And>j. j \<in> set (dd_items d') \<Longrightarrow> (\<exists>i \<in> set (dd_items d). same_item i j) \<or> di_parent j \<in> ro_id ` set (dd_rotations d')"
    and completed: "\<And>r. r \<in> set (dd_rotations d') \<Longrightarrow> ro_status r = DS_completed
      \<Longrightarrow> (\<exists>s \<in> set (dd_rotations d). ro_id s = ro_id r \<and> ro_status s = DS_completed)
        \<or> (\<exists>i \<in> set (dd_items d'). di_parent i = ro_id r \<and> has_custody d' i)"
  shows "registry_ok d'"
  unfolding registry_ok_def
proof (intro conjI ballI impI)
  show "distinct (map rg_ref (dd_events d'))" by (rule events(2))
  show "\<exists>i \<in> set (dd_items d'). custody_of d' e i" if "e \<in> set (dd_events d')" for e
  proof (cases "e \<in> set es")
    case False
    then have "e \<in> set (dd_events d)" using that events(1) by auto
    then obtain i where i: "i \<in> set (dd_items d)" "custody_of d e i" using ok by (auto simp: registry_ok_def)
    obtain j where "j \<in> set (dd_items d')" "same_item i j" using moved_item [OF moves i(1)] .
    then show ?thesis using custody_of_mono [OF i(2) moves] by blast
  qed (rule events(3))
  show "has_custody d' i" if "i \<in> set (dd_items d')" "di_status i = IS_confirmed" for i
    using confirmed [OF that] ok has_custody_mono [OF _ moves] by (auto simp: registry_ok_def)
  have rotation: "ro_id r \<in> ro_id ` set (dd_rotations d')" if "r \<in> set (dd_rotations d)" for r
    using moved_rotation [OF moves that] by (metis image_eqI rotation_moves_def same_rotation_def)
  show "di_parent i \<in> ro_id ` set (dd_rotations d')" if "i \<in> set (dd_items d')" for i
  proof -
    have old: "di_parent x \<in> ro_id ` set (dd_rotations d')" if "x \<in> set (dd_items d)" for x
    proof -
      have "di_parent x \<in> ro_id ` set (dd_rotations d)" using ok that unfolding registry_ok_def by blast
      then obtain s where "s \<in> set (dd_rotations d)" "di_parent x = ro_id s" by auto
      then show ?thesis using rotation by simp
    qed
    then show ?thesis using parents [OF that] by (auto simp: same_item_def)
  qed
  show "\<exists>i \<in> set (dd_items d'). di_parent i = ro_id r \<and> has_custody d' i"
    if r: "r \<in> set (dd_rotations d')" "ro_status r = DS_completed" for r
  proof (cases "\<exists>s \<in> set (dd_rotations d). ro_id s = ro_id r \<and> ro_status s = DS_completed")
    case True
    then obtain i where i: "i \<in> set (dd_items d)" "di_parent i = ro_id r" "has_custody d i"
      using ok unfolding registry_ok_def by metis
    obtain j where "j \<in> set (dd_items d')" "same_item i j" using moved_item [OF moves i(1)] .
    then show ?thesis using has_custody_mono [OF i(3) moves] i(2) by (auto simp: same_item_def)
  qed (use completed [OF r] in blast)
qed

text \<open>Statements that add no custody row and confirm no item.\<close>

lemma registry_ok_items:
  assumes "registry_ok d" "drains_move d d'" "dd_events d' = dd_events d" "dd_rotations d' = dd_rotations d"
    "\<And>j. j \<in> set (dd_items d') \<Longrightarrow> di_status j = IS_confirmed
      \<Longrightarrow> \<exists>i \<in> set (dd_items d). same_item i j \<and> di_status i = IS_confirmed"
    "\<And>j. j \<in> set (dd_items d') \<Longrightarrow> (\<exists>i \<in> set (dd_items d). same_item i j) \<or> di_parent j \<in> ro_id ` set (dd_rotations d)"
  shows "registry_ok d'"
proof (rule registry_ok_step [OF assms(1,2), of "[]"])
  show "distinct (map rg_ref (dd_events d'))" using assms(1,3) by (simp add: registry_ok_def)
qed (use assms in auto)

lemma registry_ok_append:
  assumes "registry_ok d" "i \<in> set (dd_items d)" "custody_of d e i" "\<And>j. j \<in> set (dd_items d) \<Longrightarrow> di_id j = di_id i \<Longrightarrow> j = i"
  shows "registry_ok (recordCustodyTransfer e d)" "has_custody (recordCustodyTransfer e d) i"
proof -
  let ?d = "recordCustodyTransfer e d"
  let ?es = "if rg_ref e \<in> rg_ref ` set (dd_events d) then [] else [e]"
  have move: "drains_move d ?d" by (rule record_custody_moves)
  show "registry_ok ?d"
  proof (rule registry_ok_step [OF assms(1) move recordCustodyTransfer_events])
    show "distinct (map rg_ref (dd_events ?d))"
      using assms(1) by (simp add: recordCustodyTransfer_events registry_ok_def)
    show "\<exists>j \<in> set (dd_items ?d). custody_of ?d x j" if "x \<in> set ?es" for x
      using that assms(2,3) by (auto split: if_splits simp: custody_of_def)
  qed (auto simp: same_item_def)
  show "has_custody ?d i"
  proof (cases "rg_ref e \<in> rg_ref ` set (dd_events d)")
    case True
    then obtain x where x: "x \<in> set (dd_events d)" "rg_ref x = rg_ref e" by auto
    then obtain j where j: "j \<in> set (dd_items d)" "custody_of d x j" using assms(1) by (auto simp: registry_ok_def)
    then have "j = i" using assms(3,4) x(2) by (simp add: custody_of_def item_ref_def)
    then show ?thesis using x j by (auto simp: has_custody_def custody_of_def recordCustodyTransfer_events)
  next
    case False
    then show ?thesis using assms(3) by (auto simp: has_custody_def custody_of_def recordCustodyTransfer_events)
  qed
qed

lemma custody_of_entry:
  assumes "loaded r i d"
  obtains j where "j \<in> set (dd_items d)" "same_item i j" "\<And>source hh ll. custody_of d (custodyEntry r source i hh ll) j"
proof -
  from assms obtain s where s: "s \<in> set (dd_rotations d)" "same_rotation r s" by (auto simp: loaded_def known_rotation_def)
  from assms obtain j where j: "j \<in> set (dd_items d)" "same_item i j" by (auto simp: loaded_def known_item_def)
  have "custody_of d (custodyEntry r source i hh ll) j" for source hh ll
    using s j assms by (auto simp: custody_of_def custodyEntry_def loaded_def same_rotation_def same_item_def)
  then show ?thesis using that j by blast
qed

lemma custody_confirm_ok:
  assumes "registry_ok d" "distinct (map di_id (dd_items d))" "loaded r i d" "\<And>x. item_moves x (f x)"
    "\<And>x. di_status (f x) = IS_confirmed \<Longrightarrow> di_status x = IS_confirmed \<or> di_id x = di_id i"
  shows "registry_ok (recordCustodyTransfer (custodyEntry r source i hh ll) (d\<lparr>dd_items := map f (dd_items d)\<rparr>))"
proof -
  have same: "same_item x (f x)" for x using assms(4) by (simp add: item_moves_def)
  let ?e = "custodyEntry r source i hh ll"
  let ?d = "recordCustodyTransfer ?e d"
  obtain j where j: "j \<in> set (dd_items d)" "same_item i j" "custody_of d ?e j" using custody_of_entry [OF assms(3)] by metis
  have one: "x = j" if "x \<in> set (dd_items d)" "di_id x = di_id j" for x
    using assms(2) that j(1) by (auto simp: distinct_map inj_on_def)
  have reg: "registry_ok ?d" "has_custody ?d j" using registry_ok_append [OF assms(1) j(1,3) one] by simp_all
  let ?d' = "?d\<lparr>dd_items := map f (dd_items ?d)\<rparr>"
  have items: "dd_items ?d = dd_items d" by simp
  have move: "drains_move ?d ?d'" by (rule rows_move_items(1)) (rule assms(4))
  have "registry_ok ?d'"
  proof (rule registry_ok_step [OF reg(1) move, of "[]"])
    show "distinct (map rg_ref (dd_events ?d'))" using reg(1) by (simp add: registry_ok_def)
    fix y
    assume "y \<in> set (dd_items ?d')"
    then obtain x where x: "x \<in> set (dd_items d)" "y = f x" by auto
    show "has_custody ?d' y \<or> (\<exists>i \<in> set (dd_items ?d). same_item i y \<and> di_status i = IS_confirmed)" if "di_status y = IS_confirmed"
    proof (cases "di_status x = IS_confirmed")
      case False
      then have "di_id x = di_id j" using assms(5) [of x] that x(2) j(2) by (simp add: same_item_def)
      then have "x = j" by (rule one [OF x(1)])
      then show ?thesis using has_custody_mono [OF reg(2) move] same x(2) by simp
    qed (use x same in auto)
    show "(\<exists>i \<in> set (dd_items ?d). same_item i y) \<or> di_parent y \<in> ro_id ` set (dd_rotations ?d')" using x same by auto
  qed auto
  moreover have "recordCustodyTransfer ?e (d\<lparr>dd_items := map f (dd_items d)\<rparr>) = ?d'" by (simp add: recordCustodyTransfer_def)
  ultimately show ?thesis by simp
qed

section \<open>Steps keep the invariant\<close>

text \<open>A statement on the items that confirms none and adds no custody row.\<close>

lemma items_statement_ok:
  assumes "drains_ok d" "\<And>x. f x = x \<or> (\<exists>s e. s \<noteq> IS_confirmed \<and> f x = x\<lparr>di_status := s, di_error := e\<rparr>)"
  shows "drains_ok (d\<lparr>dd_items := map f (dd_items d)\<rparr>)"
proof -
  have f: "f x = x \<or> (\<exists>s e. f x = x\<lparr>di_status := s, di_error := e\<rparr>)" for x using assms(2) by blast
  have move: "item_moves x (f x)" for x using assms(2) [of x] by (auto simp: item_moves_def same_item_def)
  have "registry_ok (d\<lparr>dd_items := map f (dd_items d)\<rparr>)"
  proof (rule registry_ok_items [OF _ rows_move_items(1)])
    fix y
    assume "y \<in> set (dd_items (d\<lparr>dd_items := map f (dd_items d)\<rparr>))"
    then obtain x where x: "x \<in> set (dd_items d)" "y = f x" by auto
    then show "(\<exists>i \<in> set (dd_items d). same_item i y) \<or> di_parent y \<in> ro_id ` set (dd_rotations d)"
      using move by (auto simp: item_moves_def)
    show "\<exists>i \<in> set (dd_items d). same_item i y \<and> di_status i = IS_confirmed" if "di_status y = IS_confirmed"
      using x that assms(2) [of x] move [of x] by (auto simp: item_moves_def)
  qed (use assms(1) move in \<open>simp_all add: drains_ok_def\<close>)
  then show ?thesis using assms(1) status_update_ok [OF f] by (simp add: drains_ok_def)
qed

lemma rotations_statement_ok:
  assumes "drains_ok d" "rotations_ok rs" "rows_move rotation_moves (dd_rotations d) rs"
    "\<And>r. r \<in> set rs \<Longrightarrow> ro_status r = DS_completed \<Longrightarrow> (\<exists>s \<in> set (dd_rotations d). ro_id s = ro_id r \<and> ro_status s = DS_completed)
        \<or> (\<exists>i \<in> set (dd_items d). di_parent i = ro_id r \<and> di_status i = IS_confirmed)"
  shows "drains_ok (d\<lparr>dd_rotations := rs\<rparr>)"
proof -
  have ok: "registry_ok d" using assms(1) by (simp add: drains_ok_def)
  have move: "drains_move d (d\<lparr>dd_rotations := rs\<rparr>)" by (rule table_moves(1) [OF assms(3)])
  have "registry_ok (d\<lparr>dd_rotations := rs\<rparr>)"
  proof (rule registry_ok_step [OF ok move, of "[]"])
    show "distinct (map rg_ref (dd_events (d\<lparr>dd_rotations := rs\<rparr>)))" using ok by (simp add: registry_ok_def)
    show "(\<exists>s \<in> set (dd_rotations d). ro_id s = ro_id r \<and> ro_status s = DS_completed)
        \<or> (\<exists>i \<in> set (dd_items (d\<lparr>dd_rotations := rs\<rparr>)). di_parent i = ro_id r \<and> has_custody (d\<lparr>dd_rotations := rs\<rparr>) i)"
      if r: "r \<in> set (dd_rotations (d\<lparr>dd_rotations := rs\<rparr>))" "ro_status r = DS_completed" for r
    proof (cases "\<exists>s \<in> set (dd_rotations d). ro_id s = ro_id r \<and> ro_status s = DS_completed")
      case False
      then obtain i where i: "i \<in> set (dd_items d)" "di_parent i = ro_id r" "di_status i = IS_confirmed"
        using assms(4) [of r] r by auto
      then have "has_custody d i" using ok by (simp add: registry_ok_def)
      then have "has_custody (d\<lparr>dd_rotations := rs\<rparr>) i" by (rule has_custody_mono [OF _ move]) (simp add: same_item_def)
      then show ?thesis using i by auto
    qed blast
  qed (auto simp: same_item_def)
  then show ?thesis using assms(1,2) by (simp add: drains_ok_def)
qed

lemma export_statement_ok:
  "drains_ok d \<Longrightarrow> exports_ok xs \<Longrightarrow> drains_ok (d\<lparr>dd_exports := xs\<rparr>)"
  "drains_ok d \<Longrightarrow> items_ok is \<Longrightarrow> drains_ok (d\<lparr>dd_xitems := is\<rparr>)"
  "drains_ok d \<Longrightarrow> drains_ok (d\<lparr>dd_wallets := w\<rparr>)"
  by (simp_all add: drains_ok_def registry_ok_def has_custody_def custody_of_def)

lemma createRotation_ok:
  assumes "drains_ok d"
  shows "drains_ok (snd (createRotation now fresh src u dst addr d))"
proof -
  define r where "r = \<lparr>ro_id = fresh, ro_user = u, ro_source = src, ro_dest = dst, ro_address = addr, ro_status = DS_pending,
    ro_completed = None, ro_created = now, ro_deleted = None\<rparr>"
  show ?thesis
  proof (cases "chk_rotation r \<and> \<not> list_ex (\<lambda>s. ro_id s = fresh \<or> ro_source s = src \<and> active_rotation s) (dd_rotations d)")
    case True
    have eq: "snd (createRotation now fresh src u dst addr d) = d\<lparr>dd_rotations := dd_rotations d @ [r]\<rparr>"
      using True unfolding createRotation_def Let_def r_def [symmetric] by simp
    have "rotations_ok (dd_rotations d @ [r])"
      using True assms by (auto simp: r_def drains_ok_def rotations_ok_def list_ex_iff)
    then show ?thesis unfolding eq
      by (rule rotations_statement_ok [OF assms]) (auto simp: rows_move_append r_def)
  next
    case False
    then have "snd (createRotation now fresh src u dst addr d) = d"
      unfolding createRotation_def Let_def r_def [symmetric] by auto
    then show ?thesis using assms by simp
  qed
qed

lemma createExport_ok:
  assumes "drains_ok d"
  shows "drains_ok (snd (createExport now fresh w u target d))"
proof -
  define x where "x = \<lparr>wx_id = fresh, wx_wallet = w, wx_user = u, wx_target = target, wx_status = DS_pending,
    wx_completed = None, wx_created = now, wx_deleted = None\<rparr>"
  have "exports_ok (dd_exports d @ [x])" if "\<not> list_ex (\<lambda>s. wx_id s = fresh \<or> wx_wallet s = w \<and> active_export s) (dd_exports d)"
    using that assms by (auto simp: x_def drains_ok_def exports_ok_def list_ex_iff chk_export_def)
  then show ?thesis using assms export_statement_ok(1) [OF assms]
    unfolding createExport_def Let_def x_def [symmetric] by simp
qed

lemma upsertItemBuild_ok:
  assumes "drains_ok d" "ib_parent b \<in> ro_id ` set (dd_rotations d)"
  shows "drains_ok (d\<lparr>dd_items := snd (upsertItemBuild fresh b t (dd_items d))\<rparr>)"
proof -
  let ?t = "snd (upsertItemBuild fresh b t (dd_items d))"
  have ok: "registry_ok d" using assms(1) by (simp add: drains_ok_def)
  have "registry_ok (d\<lparr>dd_items := ?t\<rparr>)"
  proof (rule upsert_item_cases [of fresh b t "dd_items d"])
    fix i
    assume "?t = save_item i (apply_build b) (dd_items d)"
    then have t: "?t = map (\<lambda>r. if di_id r = i then apply_build b r else r) (dd_items d)" by (simp add: save_item_def)
    show ?thesis unfolding t
    proof (rule registry_ok_items [OF ok rows_move_items(1)])
      show "item_moves r (if di_id r = i then apply_build b r else r)" for r by (rule apply_build_moves)
    qed (auto simp: apply_build_row same_item_def split: if_splits, auto simp: apply_build_def)
  next
    assume "?t = dd_items d @ [new_item fresh b]"
    then show ?thesis using ok assms(2)
      by (auto simp: new_item_row same_item_def intro!: registry_ok_items [OF ok append_item_moves(1)])
  qed (use ok in simp)
  then show ?thesis using assms(1) upsert_item_ok by (simp add: drains_ok_def)
qed

lemma markItemConfirmed_ok:
  assumes "drains_ok d" "loaded r i d"
  shows "drains_ok (snd (markItemConfirmed ok (di_id i) h l (custodyEntry r source i (Some h) (Some l)) d))"
proof (cases "ok \<and> \<not> hash_taken (di_id i) h (dd_items d)")
  case True
  let ?f = "\<lambda>x. if di_id x = di_id i then set_confirmed h l x else x"
  have items: "items_ok (dd_items d)" "one_item_per_token (dd_items d)" "registry_ok d" using assms(1) by (simp_all add: drains_ok_def)
  then have "items_ok (map ?f (dd_items d))" using confirm_ok True by (simp add: save_item_def)
  moreover have "one_item_per_token (map ?f (dd_items d))"
    using items(2) by (rule one_item_map) (auto simp: same_item_def set_confirmed_def live_item_def split: if_splits)
  moreover have "registry_ok (recordCustodyTransfer (custodyEntry r source i (Some h) (Some l)) (d\<lparr>dd_items := map ?f (dd_items d)\<rparr>))"
    using items assms(2) by (intro custody_confirm_ok) (auto simp: items_ok_def set_confirmed_moves split: if_splits)
  ultimately show ?thesis using assms(1) True by (simp add: markItemConfirmed_def save_item_def drains_ok_def)
qed (use assms in \<open>auto simp: markItemConfirmed_def\<close>)

lemma reconcileItemConfirmed_ok:
  assumes "drains_ok d" "loaded r i d"
  shows "drains_ok (snd (reconcileItemConfirmed (di_id i) (custodyEntry r source i hh ll) d))"
proof (cases "snd (promote_stuck (di_id i) (dd_items d))")
  case True
  let ?f = "\<lambda>x. if di_id x = di_id i \<and> (di_status x = IS_submitted \<or> di_status x = IS_failed)
    then x\<lparr>di_status := IS_confirmed, di_error := None\<rparr> else x"
  have t: "promote_stuck (di_id i) (dd_items d) = (map ?f (dd_items d), True)"
    using True by (simp add: promote_stuck_def fst_cas_rows prod_eq_iff)
  have f: "?f x = x \<or> (\<exists>s e. ?f x = x\<lparr>di_status := s, di_error := e\<rparr>)" for x by auto
  have items: "items_ok (dd_items d)" "one_item_per_token (dd_items d)" "registry_ok d" using assms(1) by (simp_all add: drains_ok_def)
  moreover have "registry_ok (recordCustodyTransfer (custodyEntry r source i hh ll) (d\<lparr>dd_items := map ?f (dd_items d)\<rparr>))"
    using items assms(2) by (intro custody_confirm_ok) (auto simp: items_ok_def set_confirmed_moves split: if_splits)
  ultimately show ?thesis using assms(1) status_update_ok [OF f]
    by (simp add: reconcileItemConfirmed_def t drains_ok_def)
next
  case False
  then have "snd (reconcileItemConfirmed (di_id i) (custodyEntry r source i hh ll) d) = d"
    by (cases "promote_stuck (di_id i) (dd_items d)") (simp add: reconcileItemConfirmed_def)
  then show ?thesis using assms(1) by simp
qed

lemma finalizeRotation_ok:
  assumes "drains_ok d"
  shows "drains_ok (snd (finalizeRotation now actor j z d))"
proof -
  have ok: "rotations_ok (dd_rotations d)" using assms by (simp add: drains_ok_def)
  show ?thesis
  proof (cases "all_items_confirmed j (dd_items d) \<and> z")
    case True
    let ?f = "\<lambda>r. if ro_id r = j then r\<lparr>ro_status := DS_completed, ro_completed := Some now\<rparr> else r"
    obtain i where i: "i \<in> set (dd_items d)" "di_parent i = j" "di_status i = IS_confirmed"
    proof -
      obtain i where "i \<in> set (items_of j (dd_items d))"
        using True by (metis all_items_confirmed_def list.set_intros(1) neq_Nil_conv)
      then show ?thesis using that True by (auto simp: all_items_confirmed_def list_all_iff items_of_def)
    qed
    have "rotations_ok (map ?f (dd_rotations d))"
      using ok by (rule rotations_ok_map)
        (use ok in \<open>auto simp: same_rotation_def active_rotation_def chk_rotation_def rotations_ok_def split: if_splits\<close>)
    then have "drains_ok (d\<lparr>dd_rotations := map ?f (dd_rotations d)\<rparr>)"
    proof (rule rotations_statement_ok [OF assms])
      show "rows_move rotation_moves (dd_rotations d) (map ?f (dd_rotations d))"
        by (rule rows_move_map) (simp add: rotation_moves_def same_rotation_def)
    qed (use i in \<open>auto split: if_splits\<close>)
    then show ?thesis using True export_statement_ok(3)
      by (simp add: finalizeRotation_def dd_record_def set_rotation_def)
  next
    case False
    let ?f = "\<lambda>r. if ro_id r = j \<and> ro_status r \<noteq> DS_completed then r\<lparr>ro_status := DS_submitting\<rparr> else r"
    have "rotations_ok (map ?f (dd_rotations d))"
      using ok by (rule rotations_ok_map)
        (use ok in \<open>auto simp: same_rotation_def active_rotation_def chk_rotation_def rotations_ok_def split: if_splits\<close>)
    then have "drains_ok (d\<lparr>dd_rotations := map ?f (dd_rotations d)\<rparr>)"
    proof (rule rotations_statement_ok [OF assms])
      show "rows_move rotation_moves (dd_rotations d) (map ?f (dd_rotations d))"
        by (rule rows_move_map) (simp add: rotation_moves_def same_rotation_def)
    qed (auto split: if_splits)
    then show ?thesis using False by (auto simp: finalizeRotation_def set_rotation_def)
  qed
qed

lemma softCancel_ok:
  assumes "drains_ok d"
  shows "drains_ok (softCancel now j d)"
proof -
  let ?g = "\<lambda>r. if di_parent r = j \<and> live_item r then r\<lparr>di_deleted := Some now\<rparr> else r"
  let ?f = "\<lambda>r. if ro_id r = j \<and> ro_deleted r = None then r\<lparr>ro_deleted := Some now\<rparr> else r"
  have ok: "rotations_ok (dd_rotations d)" "items_ok (dd_items d)" "one_item_per_token (dd_items d)" "registry_ok d"
    using assms by (simp_all add: drains_ok_def)
  have "items_ok (map ?g (dd_items d))"
    using ok(2) by (rule items_ok_map) (auto simp: live_item_def chk_item_def split: if_splits)
  moreover have "one_item_per_token (map ?g (dd_items d))"
    using ok(3) by (rule one_item_map) (auto simp: live_item_def same_item_def split: if_splits)
  moreover have "registry_ok (d\<lparr>dd_items := map ?g (dd_items d)\<rparr>)"
  proof (rule registry_ok_items [OF ok(4) rows_move_items(1)])
    show "item_moves x (?g x)" for x by (auto simp: item_moves_def same_item_def live_item_def)
  qed (auto simp: same_item_def split: if_splits)
  ultimately have items: "drains_ok (d\<lparr>dd_items := map ?g (dd_items d)\<rparr>)" using assms by (simp add: drains_ok_def)
  have "rotations_ok (map ?f (dd_rotations d))"
    using ok(1) by (rule rotations_ok_map)
      (use ok in \<open>auto simp: same_rotation_def active_rotation_def chk_rotation_def rotations_ok_def split: if_splits\<close>)
  then have "drains_ok ((d\<lparr>dd_items := map ?g (dd_items d)\<rparr>)\<lparr>dd_rotations := map ?f (dd_rotations d)\<rparr>)"
  proof (rule rotations_statement_ok [OF items])
    show "rows_move rotation_moves (dd_rotations (d\<lparr>dd_items := map ?g (dd_items d)\<rparr>)) (map ?f (dd_rotations d))"
      by simp (rule rows_move_map, simp add: rotation_moves_def same_rotation_def)
  qed (auto split: if_splits)
  then show ?thesis by (simp add: softCancel_def set_rotation_def)
qed

lemma finalizeExport_ok:
  assumes "drains_ok d"
  shows "drains_ok (snd (finalizeExport now actor j w z d))"
proof (rule finalize_export_cases [of now actor j w z d])
  have ok: "exports_ok (dd_exports d)" using assms by (simp add: drains_ok_def)
  {
    fix wd
    assume eq: "snd (finalizeExport now actor j w z d) = d\<lparr>dd_wallets := wd,
        dd_exports := set_export j (\<lambda>x. x\<lparr>wx_status := DS_completed, wx_completed := Some now\<rparr>) (dd_exports d)\<rparr>"
    have "exports_ok (set_export j (\<lambda>x. x\<lparr>wx_status := DS_completed, wx_completed := Some now\<rparr>) (dd_exports d))"
      unfolding set_export_def using ok
      by (rule exports_ok_map) (use ok in \<open>auto simp: active_export_def chk_export_def exports_ok_def split: if_splits\<close>)
    then show ?thesis unfolding eq using export_statement_ok(1) [OF export_statement_ok(3) [OF assms]] by simp
  next
    assume eq: "snd (finalizeExport now actor j w z d) = d\<lparr>dd_exports := set_export j (\<lambda>x. x\<lparr>wx_status := DS_submitting\<rparr>) (dd_exports d)\<rparr>"
      and chk: "\<forall>x \<in> set (set_export j (\<lambda>x. x\<lparr>wx_status := DS_submitting\<rparr>) (dd_exports d)). wx_id x = j \<longrightarrow> chk_export x"
    let ?f = "\<lambda>x. if wx_id x = j then x\<lparr>wx_status := DS_submitting\<rparr> else x"
    have f: "chk_export (?f x)" if "x \<in> set (dd_exports d)" for x
      using chk ok that unfolding set_export_def set_map exports_ok_def by (cases "wx_id x = j") simp_all
    have active: "active_export x" if "x \<in> set (dd_exports d)" "active_export (?f x)" for x
    proof (cases "wx_id x = j")
      case True
      then have "wx_completed x = None" using f [OF that(1)] by (simp add: chk_export_def)
      then have "wx_status x \<noteq> DS_completed" using ok that(1) by (auto simp: exports_ok_def chk_export_def)
      then show ?thesis using that(2) True by (simp add: active_export_def)
    qed (use that(2) in simp)
    have "exports_ok (map ?f (dd_exports d))"
      by (rule exports_ok_map [OF ok]) (use f active in \<open>simp_all split: if_splits\<close>)
    then show ?thesis unfolding eq set_export_def by (rule export_statement_ok(1) [OF assms])
  }
qed (use assms in simp)

lemma claim_update: "(if P then x\<lparr>di_status := s\<rparr> else x) = x \<or> (\<exists>e. (if P then x\<lparr>di_status := s\<rparr> else x) = x\<lparr>di_status := s, di_error := e\<rparr>)"
proof -
  have "x\<lparr>di_status := s\<rparr> = x\<lparr>di_status := s, di_error := di_error x\<rparr>" by simp
  then show ?thesis by metis
qed

lemma drain_step_ok: "drain_step d d' \<Longrightarrow> drains_ok d \<Longrightarrow> drains_ok d'"
proof (induction rule: drain_step.induct)
  case (item_claim d i)
  then show ?case unfolding claimItemForSubmit_def fst_cas_rows by (rule items_statement_ok) (use claim_update in blast)
next
  case (item_fail d j code)
  then show ?case unfolding markItemFailed_def save_item_def by (rule items_statement_ok) auto
next
  case (export_build d fresh b)
  then show ?case using upsert_export_ok by (intro export_statement_ok(2)) (simp_all add: drains_ok_def)
next
  case (export_claim d j)
  let ?f = "\<lambda>r. if di_id r = j \<and> (di_status r = IS_pending \<or> di_status r = IS_failed) then r\<lparr>di_status := IS_submitted\<rparr> else r"
  have "?f r = r \<or> (\<exists>s e. ?f r = r\<lparr>di_status := s, di_error := e\<rparr>)" for r using claim_update by blast
  then have "items_ok (dd_xitems d) \<Longrightarrow> items_ok (map ?f (dd_xitems d))" by (rule status_update_ok(1))
  then show ?case unfolding claimExportItem_def fst_cas_rows using export_claim
    by (intro export_statement_ok(2)) (simp_all add: drains_ok_def)
next
  case (export_confirm d ok j h l)
  show ?case
  proof (cases "ok \<and> \<not> hash_taken j h (dd_xitems d)")
    case True
    then have "items_ok (save_item j (set_confirmed h l) (dd_xitems d))"
      using export_confirm by (intro confirm_ok) (simp_all add: drains_ok_def)
    with export_confirm show ?thesis using True unfolding markExportItemConfirmed_def by (simp add: export_statement_ok(2))
  next
    case False
    then have "snd (markExportItemConfirmed ok j h l d) = d"
      unfolding markExportItemConfirmed_def by (simp only: if_False snd_conv)
    then show ?thesis using export_confirm by simp
  qed
next
  case (export_reconcile d j)
  then show ?case unfolding reconcileExportItem_def fst_cas_rows
    by (intro export_statement_ok(2) status_update_ok(1)) (auto simp: drains_ok_def)
next
  case (export_fail d j code)
  then show ?case unfolding markExportItemFailed_def save_item_def
    by (intro export_statement_ok(2) status_update_ok(1)) (auto simp: drains_ok_def)
qed (simp_all add: export_statement_ok(3) createRotation_ok upsertItemBuild_ok markItemConfirmed_ok reconcileItemConfirmed_ok
    finalizeRotation_ok softCancel_ok createExport_ok finalizeExport_ok)

lemma drain_steps_keep:
  assumes "drain_steps d d'" "drains_ok d"
  shows "drains_ok d'" "drains_move d d'"
proof -
  have "drains_ok d' \<and> drains_move d d'" using assms
  proof (induction rule: rtranclp_induct)
    case (step x y)
    then show ?case using drain_step_ok [OF step(2)] drain_step_moves [OF step(2)] drains_move_trans drains_ok_def by blast
  qed (simp add: drains_move_refl)
  then show "drains_ok d'" "drains_move d d'" by simp_all
qed

lemma no_drains_ok: "drains_ok (no_drains w)"
  by (simp add: no_drains_def drains_ok_def rotations_ok_def items_ok_def one_item_per_token_def registry_ok_def exports_ok_def)

end
