(* ===== verification/Drain_Main.thy ===== *)
theory Drain_Main
  imports Drain_Props
begin

text \<open>
  The handlers of the two services on the machine: whatever other requests do between their
  statements, each handler is a run of it. Then what completes a drain, and how its guards fail.
\<close>

section \<open>Handlers are runs\<close>

text \<open>What other requests do at a point of a handler: a run of the machine.\<close>

definition others :: "(ddb \<Rightarrow> ddb) \<Rightarrow> bool" where
  "others m \<longleftrightarrow> (\<forall>x. drains_ok x \<longrightarrow> drain_steps x (m x))"

named_theorems run_intros \<open>runs of the machine\<close>

lemma others_run [run_intros]: "others m \<Longrightarrow> drains_ok x \<Longrightarrow> drain_steps x (m x)"
  by (simp add: others_def)

lemma others_id: "others (\<lambda>x. x)"
  by (simp add: others_def)

lemma steps_trans: "drain_steps d e \<Longrightarrow> (drains_ok d \<Longrightarrow> drains_ok e \<Longrightarrow> drain_steps e f) \<Longrightarrow> drains_ok d \<Longrightarrow> drain_steps d f"
  using drain_steps_keep(1) by (meson rtranclp_trans)

lemma record_run [run_intros]: "drain_steps d (dd_record kind actor subject d)"
  unfolding dd_record_def by (rule r_into_rtranclp, rule wallet_tables)

lemma loaded_keep:
  assumes "drain_steps d d'" "drains_ok d"
  shows "known_rotation r d \<Longrightarrow> known_rotation r d'" "known_item i d \<Longrightarrow> known_item i d'" "loaded r i d \<Longrightarrow> loaded r i d'"
proof -
  have move: "drains_move d d'" by (rule drain_steps_keep(2) [OF assms])
  show rot: "known_rotation r d'" if "known_rotation r d"
  proof -
    from that obtain s where s: "s \<in> set (dd_rotations d)" "same_rotation r s" by (auto simp: known_rotation_def)
    obtain t where "t \<in> set (dd_rotations d')" "rotation_moves s t" by (rule moved_rotation [OF move s(1)])
    then show ?thesis using s(2) by (auto simp: known_rotation_def rotation_moves_def same_rotation_def)
  qed
  show item: "known_item i d'" if "known_item i d"
  proof -
    from that obtain s where s: "s \<in> set (dd_items d)" "same_item i s" by (auto simp: known_item_def)
    obtain t where "t \<in> set (dd_items d')" "same_item s t" by (rule moved_item [OF move s(1)])
    then show ?thesis using s(2) by (auto simp: known_item_def same_item_def)
  qed
  show "loaded r i d'" if "loaded r i d" using that rot item by (simp add: loaded_def)
qed

lemma stored_known: "r \<in> set (dd_rotations d) \<Longrightarrow> known_rotation r d" "i \<in> set (dd_items d) \<Longrightarrow> known_item i d"
  by (auto simp: known_rotation_def same_rotation_def known_item_def same_item_def)

lemma known_parent: "known_rotation r d \<Longrightarrow> ro_id r \<in> ro_id ` set (dd_rotations d)"
  by (auto simp: known_rotation_def same_rotation_def image_iff) metis

subsection \<open>Rotation\<close>

lemma find_or_create_run:
  assumes "find_or_create now fresh m src u dst address d = (x, d')" "others m" "drains_ok d"
  shows "drain_steps d d'" "x = Inr r \<Longrightarrow> known_rotation r d'"
proof -
  have found: "known_rotation r e" if "findActiveBySource src e = Some r" for e
    using that stored_known(1) unfolding findActiveBySource_def by (auto dest: sql_find_Some)
  have create: "drain_steps d (snd (createRotation now fresh src u dst address (m d)))"
    using assms(2,3) rotation_create by (meson others_run rtranclp.rtrancl_into_rtrancl)
  have made: "known_rotation s e" if "createRotation now fresh src u dst address (m d) = (Inr s, e)" for s e
    using that by (auto simp: createRotation_def Let_def stored_known split: if_splits)
  show "drain_steps d d'"
    using assms(1) create unfolding find_or_create_def
    by (cases "findActiveBySource src d"; cases "createRotation now fresh src u dst address (m d)")
      (auto split: if_splits sum.splits drain_throw.splits option.splits)
  show "known_rotation r d'" if "x = Inr r"
    using assms(1) that found made unfolding find_or_create_def
    by (cases "findActiveBySource src d"; cases "createRotation now fresh src u dst address (m d)")
      (auto split: if_splits sum.splits drain_throw.splits option.splits)
qed

lemma build_one_run:
  assumes "build_one env fresh m source r existing h d = (x, d')" "others m" "drains_ok d" "known_rotation r d"
  shows "drain_steps d d'"
proof -
  define e where "e = map_of (rev (map (\<lambda>i. (di_token i, i)) existing)) (fst h)"
  show ?thesis
  proof (cases "map_option di_status e = Some IS_confirmed \<or> (\<exists>err. re_build env source (fst h) (ro_address r) (snd h) = Inl err)")
    case True
    then show ?thesis using assms(1) unfolding build_one_def Let_def e_def [symmetric] by (auto split: if_splits)
  next
    case False
    then obtain tx challenge expires where built: "re_build env source (fst h) (ro_address r) (snd h) = Inr (tx, challenge, expires)"
      by (cases "re_build env source (fst h) (ro_address r) (snd h)") auto
    define b where "b = \<lparr>ib_existing = map_option di_id e, ib_parent = ro_id r, ib_token = fst h, ib_kind = None,
      ib_amount = snd h, ib_tx = tx, ib_expires = expires\<rparr>"
    have d': "d' = (m d)\<lparr>dd_items := snd (upsertItemBuild fresh b (dd_items d) (dd_items (m d)))\<rparr>"
      using assms(1) False built unfolding build_one_def Let_def e_def [symmetric]
      by (auto simp: b_def split: prod.splits sum.splits if_splits)
    have run: "drain_steps d (m d)" by (rule others_run [OF assms(2,3)])
    have "ib_parent b \<in> ro_id ` set (dd_rotations (m d))"
      using known_parent [OF loaded_keep(1) [OF run assms(3,4)]] by (simp add: b_def)
    then show ?thesis unfolding d' by (rule rtranclp.rtrancl_into_rtrancl [OF run item_build])
  qed
qed

lemma build_items_run:
  "build_items env fresh m source r existing n hs d = (x, d') \<Longrightarrow> (\<And>k. others (m k)) \<Longrightarrow> drains_ok d \<Longrightarrow> known_rotation r d
   \<Longrightarrow> drain_steps d d'"
proof (induction hs arbitrary: n d x d')
  case (Cons h hs)
  obtain y e where one: "build_one env (fresh n) (m n) source r existing h d = (y, e)" by (rule prod.exhaust)
  have run: "drain_steps d e" by (rule build_one_run [OF one Cons.prems(2-4)])
  show ?case
  proof (cases y)
    case (Inl err)
    then show ?thesis using Cons.prems(1) one run by simp
  next
    case (Inr dto)
    obtain z f where rest: "build_items env fresh m source r existing (Suc n) hs e = (z, f)" by (rule prod.exhaust)
    have "drain_steps e f"
      using Cons.IH [OF rest Cons.prems(2)] drain_steps_keep(1) [OF run Cons.prems(3)] loaded_keep(1) [OF run Cons.prems(3,4)] by blast
    moreover have "f = d'" using Cons.prems(1) one Inr rest by (auto split: sum.splits)
    ultimately show ?thesis using run by simp
  qed
qed simp

lemma initiate_run:
  assumes "others m0" "\<And>k. others (m k)" "drains_ok d"
  shows "drain_steps d (snd (initiateRotation env now fr fresh m0 m u src dst d0 d))"
proof (cases "initiate_gates env u src dst d0")
  case (Inr g)
  obtain cred source destId address holdings where g: "g = (cred, source, destId, address, holdings)" by (metis prod_cases5)
  obtain x e where made: "find_or_create now fr m0 src u destId address d = (x, e)" by (rule prod.exhaust)
  have run: "drain_steps d e" by (rule find_or_create_run(1) [OF made assms(1,3)])
  show ?thesis
  proof (cases x)
    case (Inl err)
    then show ?thesis using Inr g made run by (simp add: initiateRotation_def)
  next
    case r: (Inr r)
    obtain y f where built: "build_items env fresh m source r (items_of (ro_id r) (dd_items e)) 0 holdings e = (y, f)" by (rule prod.exhaust)
    have "drain_steps e f"
      by (rule build_items_run [OF built assms(2) drain_steps_keep(1) [OF run assms(3)] find_or_create_run(2) [OF made assms(1,3) r]])
    then have "drain_steps d f" using run by simp
    then show ?thesis using Inr g made r built record_run
      by (cases y) (auto simp: initiateRotation_def intro: rtranclp_trans)
  qed
qed (simp add: initiateRotation_def)

lemma fail_item_run [run_intros]: "drain_steps d (fail_item u code i d)"
proof -
  have "drain_steps d (markItemFailed i code d)" by (rule r_into_rtranclp, rule item_fail)
  then show ?thesis unfolding fail_item_def by (rule rtranclp_trans [OF _ record_run])
qed

definition quiet_submission :: "submitted \<Rightarrow> bool" where
  "quiet_submission s \<longleftrightarrow> others (su_meanwhile s) \<and> others (su_during s)"

lemma transfer_item_run:
  assumes "quiet_submission s" "drains_ok d" "loaded r i d"
  shows "drain_steps d (snd (transfer_item u r source s i d))"
proof (cases "su_allowed s = Some True")
  case True
  let ?d = "su_during s d"
  have run: "drain_steps d ?d" using assms(1,2) by (auto simp: quiet_submission_def others_run)
  have load: "loaded r i ?d" by (rule loaded_keep(3) [OF run assms(2,3)])
  show ?thesis
  proof (cases "su_transfer s i (ro_address r)")
    case (Inl e)
    then show ?thesis using True fail_item_run [of ?d u "item_error e" "di_id i"] run by (simp add: transfer_item_def)
  next
    case (Inr hl)
    obtain h l where hl: "hl = (h, l)" by (cases hl)
    let ?m = "markItemConfirmed (su_commits s) (di_id i) h l (custodyEntry r source i (Some h) (Some l)) ?d"
    have "drain_steps d (snd ?m)" using run item_confirm [OF load] by (meson rtranclp.rtrancl_into_rtrancl)
    then show ?thesis using True Inr hl fail_item_run record_run
      by (cases ?m; cases "fst ?m") (auto simp: transfer_item_def intro: rtranclp_trans)
  qed
next
  case False
  then show ?thesis using fail_item_run by (auto simp: transfer_item_def split: option.splits bool.splits)
qed

lemma submit_item_run:
  assumes "quiet_submission s" "drains_ok d" "\<And>i. i \<in> set items \<Longrightarrow> loaded r i d"
  shows "drain_steps d (snd (submit_item u r source items s d))"
proof (cases "find (\<lambda>i. di_id i = su_item s) items")
  case (Some i)
  then have i: "i \<in> set items" using find_in_set by metis
  show ?thesis
  proof (cases "di_status i = IS_confirmed \<or> di_tx i \<in> {None, Some []}")
    case True
    then show ?thesis using Some by (auto simp: submit_item_def)
  next
    case False
    let ?d = "su_meanwhile s d"
    let ?c = "claimItemForSubmit (di_id i) (dd_items ?d)"
    let ?e = "?d\<lparr>dd_items := fst ?c\<rparr>"
    have run: "drain_steps d ?d" using assms(1,2) by (auto simp: quiet_submission_def others_run)
    then have claim: "drain_steps d ?e" using item_claim by (meson rtranclp.rtrancl_into_rtrancl)
    have "drain_steps ?e (snd (transfer_item u r source s i ?e))"
      by (rule transfer_item_run [OF assms(1) drain_steps_keep(1) [OF claim assms(2)] loaded_keep(3) [OF claim assms(2) assms(3) [OF i]]])
    then have "drain_steps d (snd (transfer_item u r source s i ?e))" using claim by simp
    then show ?thesis using Some False run by (cases ?c; cases "snd ?c") (auto simp: submit_item_def)
  qed
qed (simp add: submit_item_def)

lemma after_result_same [simp]: "di_id (after_result x i) = di_id i" "di_parent (after_result x i) = di_parent i"
  "di_token (after_result x i) = di_token i"
  by (simp_all add: after_result_def)

lemma loaded_same: "same_item i j \<Longrightarrow> loaded r i d \<Longrightarrow> loaded r j d"
  by (auto simp: loaded_def known_item_def same_item_def)

lemma submit_items_run:
  "submit_items u r source items ss d = (items', xs, d') \<Longrightarrow> list_all quiet_submission ss \<Longrightarrow> drains_ok d
   \<Longrightarrow> (\<And>i. i \<in> set items \<Longrightarrow> loaded r i d) \<Longrightarrow> drain_steps d d' \<and> (\<forall>j \<in> set items'. \<exists>i \<in> set items. same_item i j)"
proof (induction ss arbitrary: items d xs items' d')
  case (Cons s ss)
  obtain x e where one: "submit_item u r source items s d = (x, e)" by (rule prod.exhaust)
  have run: "drain_steps d e" using submit_item_run [of s d items r u source] Cons.prems one by simp
  let ?items = "map (after_result x) items"
  obtain items'' ys f where rest: "submit_items u r source ?items ss e = (items'', ys, f)" by (metis prod_cases3)
  have "loaded r i e" if "i \<in> set ?items" for i
  proof -
    from that obtain k where k: "k \<in> set items" "i = after_result x k" by auto
    have "loaded r k e" by (rule loaded_keep(3) [OF run Cons.prems(3) Cons.prems(4) [OF k(1)]])
    then show ?thesis by (rule loaded_same [rotated]) (simp add: same_item_def k(2))
  qed
  then have "drain_steps e f \<and> (\<forall>j \<in> set items''. \<exists>i \<in> set ?items. same_item i j)"
    using Cons.IH [OF rest] Cons.prems(2) drain_steps_keep(1) [OF run Cons.prems(3)] by simp
  moreover have "items'' = items'" "f = d'" using Cons.prems(1) one rest by simp_all
  ultimately show ?case using run by (auto simp: same_item_def)
qed (auto simp: same_item_def)

lemma submit_run:
  assumes "list_all quiet_submission ss" "others m" "drains_ok d"
  shows "drain_steps d (snd (submitRotation now u src rotationId allowed key_ok ss reread m d))"
proof -
  define gates where "gates = bindE (resolveSourceWallet u src d) (\<lambda>(cred, source).
     bindE (case findOwnedRotation rotationId src u d of
         None \<Rightarrow> Inl (RotationError Rotation_not_found) | Some r \<Rightarrow> Inr r) (\<lambda>r.
     bindE (ensureAllowlisted allowed) (\<lambda>_.
     bindE (guardE key_ok (HttpThrow (FailHttp ''TRANSFER_SIGNATURE_INVALID'' 422))) (\<lambda>_. Inr (source, r)))))"
  show ?thesis
  proof (cases gates)
    case (Inl e)
    then show ?thesis unfolding submitRotation_def gates_def [symmetric] by simp
  next
    case (Inr g)
    obtain source r where g: "g = (source, r)" by (cases g)
    have r: "r \<in> set (dd_rotations d)"
      using Inr g unfolding gates_def findOwnedRotation_def
      by (auto simp: err_simps split: option.splits prod.splits dest: sql_find_Some)
    have "loaded r i d" if "i \<in> set (items_of (ro_id r) (dd_items d))" for i
      using that r by (auto simp: loaded_def stored_known items_of_def)
    moreover obtain items xs e where loop: "submit_items u r source (items_of (ro_id r) (dd_items d)) ss d = (items, xs, e)"
      by (metis prod_cases3)
    ultimately have run: "drain_steps d e" using submit_items_run [OF loop assms(1,3)] by blast
    then have "drain_steps d (m e)" using others_run [OF assms(2) drain_steps_keep(1) [OF run assms(3)]] by simp
    then have fin: "drain_steps d (snd (finalizeRotation now (Some u) (ro_id r) z (m e)))" for z
      using rotation_finalize by (meson rtranclp.rtrancl_into_rtrancl)
    have "\<exists>z. snd (submitRotation now u src rotationId allowed key_ok ss reread m d) = snd (finalizeRotation now (Some u) (ro_id r) z (m e))"
      unfolding submitRotation_def gates_def [symmetric] Inr g by (auto simp: loop split: prod.splits) (metis snd_conv)
    then show ?thesis using fin by metis
  qed
qed

lemma reconcile_items_run:
  "reconcile_items balance r source is d = (ids, d') \<Longrightarrow> drains_ok d \<Longrightarrow> (\<And>i. i \<in> set is \<Longrightarrow> loaded r i d) \<Longrightarrow> drain_steps d d'"
proof (induction "is" arbitrary: d ids)
  case (Cons i "is")
  obtain b e where one: "reconcile_one balance r source i d = (b, e)" by (rule prod.exhaust)
  have "e = d \<or> e = snd (reconcileItemConfirmed (di_id i) (custodyEntry r source i (di_hash i) (di_ledger i)) d)"
    using one by (cases "0 < balance (di_token i)") (auto simp: reconcile_one_def prod_eq_iff)
  then have run: "drain_steps d e" using item_reconcile [OF Cons.prems(3)] by (metis list.set_intros(1) r_into_rtranclp rtranclp.rtrancl_refl)
  obtain xs f where rest: "reconcile_items balance r source is e = (xs, f)" by (rule prod.exhaust)
  have load: "loaded r j e" if "j \<in> set is" for j using loaded_keep(3) [OF run Cons.prems(2)] Cons.prems(3) that by simp
  have "f = d'" using Cons.prems(1) one rest by simp
  then have "drain_steps e d'"
    using Cons.IH [OF _ drain_steps_keep(1) [OF run Cons.prems(2)] load] rest by blast
  then show ?case using run by simp
qed simp

lemma latest_by_in: "latest_by f t = Some r \<Longrightarrow> r \<in> set t"
  by (induction t arbitrary: r) (auto split: option.splits if_splits)

lemma rotation_status_run:
  assumes "drains_ok d"
  shows "drain_steps d (snd (rotation_status now balances u src d))"
proof (cases "findOwnedById src u (dd_wallets d)"; cases "findLatestBySource src d")
  fix w r
  assume w: "findOwnedById src u (dd_wallets d) = Some w" and r: "findLatestBySource src d = Some r"
  let ?items = "items_of (ro_id r) (dd_items d)"
  have known: "r \<in> set (dd_rotations d)" using r by (auto simp: findLatestBySource_def dest: latest_by_in)
  have run: "drain_steps d (reconcileStuckItems now balances r c ?items d)" for c
  proof (cases balances)
    case (Some balance)
    obtain ids e where loop: "reconcile_items balance r c (filter stuck_item ?items) d = (ids, e)" by (rule prod.exhaust)
    have "loaded r i d" if "i \<in> set (filter stuck_item ?items)" for i
      using that known by (auto simp: loaded_def stored_known items_of_def)
    then have run: "drain_steps d e" by (rule reconcile_items_run [OF loop assms])
    then have "drain_steps d (snd (finalizeRotation now None (ro_id r) True e))" using rotation_finalize by (meson rtranclp.rtrancl_into_rtrancl)
    then show ?thesis using run Some loop unfolding reconcileStuckItems_def Let_def by simp
  qed (simp add: reconcileStuckItems_def)
  then show ?thesis using w r unfolding rotation_status_def Let_def by (auto split: option.split)
qed (simp_all add: rotation_status_def)

lemma cancelRotation_run:
  assumes "others m" "drains_ok d"
  shows "drain_steps d (snd (cancelRotation now m u src d))"
proof -
  have run: "drain_steps d (dd_record kind actor j (softCancel now j (m d)))" for kind actor j
    using others_run [OF assms] rotation_cancel record_run by (meson rtranclp.rtrancl_into_rtrancl rtranclp_trans)
  show ?thesis using run unfolding cancelRotation_def
    by (auto split: option.split)
qed

subsection \<open>Export\<close>

lemma find_or_create_export_run:
  assumes "others m" "drains_ok d"
  shows "drain_steps d (snd (find_or_create_export now fresh m w u target d))"
proof -
  have "drain_steps d (snd (createExport now fresh w u target (m d)))"
    using assms export_create by (meson others_run rtranclp.rtrancl_into_rtrancl)
  then show ?thesis unfolding find_or_create_export_def
    by (cases "findActiveByWalletId w d"; cases "createExport now fresh w u target (m d)")
      (auto split: sum.splits drain_throw.splits option.splits)
qed

lemma export_one_run: "drain_steps d (snd (export_one env fresh source x existing h d))"
proof -
  have "drain_steps d (d\<lparr>dd_xitems := snd (upsertExportItem fresh b (dd_xitems d))\<rparr>)" for b
    by (rule r_into_rtranclp, rule export_build)
  note upsert = this
  define e where "e = map_of (rev (map (\<lambda>i. (di_token i, i)) existing)) (fst h)"
  show ?thesis
  proof (cases "map_option di_status e = Some IS_confirmed \<or> (\<exists>err. ee_build env source (fst h) (wx_target x) (snd h) = Inl err)")
    case True
    then show ?thesis unfolding export_one_def Let_def e_def [symmetric] by auto
  next
    case False
    then obtain tx challenge expires where built: "ee_build env source (fst h) (wx_target x) (snd h) = Inr (tx, challenge, expires)"
      by (cases "ee_build env source (fst h) (wx_target x) (snd h)") auto
    define b where "b = \<lparr>ib_existing = map_option di_id e, ib_parent = wx_id x, ib_token = fst h,
      ib_kind = Some (tokenKind env (fst h)), ib_amount = snd h, ib_tx = tx, ib_expires = expires\<rparr>"
    have "snd (export_one env fresh source x existing h d) = d\<lparr>dd_xitems := snd (upsertExportItem fresh b (dd_xitems d))\<rparr>"
      using False built unfolding export_one_def Let_def e_def [symmetric]
      by (auto simp: b_def split: prod.splits sum.splits)
    then show ?thesis using upsert by simp
  qed
qed

lemma export_items_run:
  "(\<And>k. others (m k)) \<Longrightarrow> drains_ok d \<Longrightarrow> drain_steps d (snd (export_items env fresh m source x existing n hs d))"
proof (induction hs arbitrary: n d)
  case (Cons h hs)
  let ?o = "export_one env (fresh n) source x existing h (m n d)"
  have run: "drain_steps d (snd ?o)" using others_run [OF Cons.prems] export_one_run by (meson rtranclp_trans)
  have "drain_steps (snd ?o) (snd (export_items env fresh m source x existing (Suc n) hs (snd ?o)))"
    by (rule Cons.IH [OF Cons.prems(1) drain_steps_keep(1) [OF run Cons.prems(2)]])
  then have "drain_steps d (snd (export_items env fresh m source x existing (Suc n) hs (snd ?o)))" using run by simp
  then show ?case using run by (cases ?o; cases "fst ?o") (auto split: prod.split sum.split)
qed simp

lemma exportInitiate_run:
  assumes "others m0" "\<And>k. others (m k)" "drains_ok d"
  shows "drain_steps d (snd (exportInitiate env now fr fresh m0 m u w to d0 d))"
proof (cases "exportInitiate_gates env u w to d0")
  case (Inr g)
  obtain source target holdings where g: "g = (source, target, holdings)" by (metis prod_cases3)
  obtain y e where made: "find_or_create_export now fr m0 w u target d = (y, e)" by (rule prod.exhaust)
  have run: "drain_steps d e" using find_or_create_export_run [OF assms(1,3)] made by (metis snd_conv)
  show ?thesis
  proof (cases y)
    case (Inr x)
    let ?f = "snd (export_items env fresh m source x (items_of (wx_id x) (dd_xitems e)) 0 holdings e)"
    have "drain_steps e ?f" by (rule export_items_run [OF assms(2) drain_steps_keep(1) [OF run assms(3)]])
    then have "drain_steps d ?f" using run by simp
    then show ?thesis using \<open>exportInitiate_gates env u w to d0 = Inr g\<close> g made Inr record_run
      by (auto simp: exportInitiate_def split: prod.split sum.split intro: rtranclp_trans)
  qed (use Inr g made run in \<open>simp add: exportInitiate_def\<close>)
qed (simp add: exportInitiate_def)

lemma fail_export_item_run [run_intros]: "drain_steps d (fail_export_item u code i d)"
proof -
  have "drain_steps d (markExportItemFailed i code d)" by (rule r_into_rtranclp, rule export_fail)
  then show ?thesis unfolding fail_export_item_def by (rule rtranclp_trans [OF _ record_run])
qed

lemma transfer_export_item_run:
  assumes "quiet_submission s" "drains_ok d"
  shows "drain_steps d (snd (transfer_export_item u x s i d))"
proof (cases "su_allowed s = Some True")
  case True
  let ?d = "su_during s d"
  have run: "drain_steps d ?d" using assms by (auto simp: quiet_submission_def others_run)
  show ?thesis
  proof (cases "su_transfer s i (wx_target x)")
    case (Inl e)
    then show ?thesis using True fail_export_item_run [of ?d u "item_error e" "di_id i"] run by (simp add: transfer_export_item_def)
  next
    case (Inr hl)
    obtain h l where hl: "hl = (h, l)" by (cases hl)
    let ?m = "markExportItemConfirmed (su_commits s) (di_id i) h l ?d"
    have "drain_steps d (snd ?m)" using run export_confirm by (meson rtranclp.rtrancl_into_rtrancl)
    then show ?thesis using True Inr hl fail_export_item_run record_run
      by (cases ?m; cases "fst ?m") (auto simp: transfer_export_item_def intro: rtranclp_trans)
  qed
next
  case False
  then show ?thesis using fail_export_item_run by (auto simp: transfer_export_item_def split: option.splits bool.splits)
qed

lemma export_submit_item_run:
  assumes "quiet_submission s" "drains_ok d"
  shows "drain_steps d (snd (export_submit_item u x items s d))"
proof (cases "find (\<lambda>i. di_id i = su_item s) items")
  case (Some i)
  show ?thesis
  proof (cases "di_status i = IS_confirmed \<or> di_tx i \<in> {None, Some []}")
    case True
    then show ?thesis using Some by (auto simp: export_submit_item_def)
  next
    case False
    let ?d = "su_meanwhile s d"
    let ?c = "claimExportItem (di_id i) (dd_xitems ?d)"
    let ?e = "?d\<lparr>dd_xitems := fst ?c\<rparr>"
    have run: "drain_steps d ?d" using assms by (auto simp: quiet_submission_def others_run)
    then have claim: "drain_steps d ?e" using export_claim by (meson rtranclp.rtrancl_into_rtrancl)
    have "drain_steps ?e (snd (transfer_export_item u x s i ?e))"
      by (rule transfer_export_item_run [OF assms(1) drain_steps_keep(1) [OF claim assms(2)]])
    then have "drain_steps d (snd (transfer_export_item u x s i ?e))" using claim by simp
    then show ?thesis using Some False run by (cases ?c; cases "snd ?c") (auto simp: export_submit_item_def)
  qed
qed (simp add: export_submit_item_def)

lemma export_submit_items_run:
  "list_all quiet_submission ss \<Longrightarrow> drains_ok d \<Longrightarrow> drain_steps d (snd (export_submit_items u x items ss d))"
proof (induction ss arbitrary: items d)
  case (Cons s ss)
  let ?o = "export_submit_item u x items s d"
  have run: "drain_steps d (snd ?o)" using export_submit_item_run Cons.prems by simp
  have "drain_steps d (snd (export_submit_items u x its ss (snd ?o)))" for its
    using Cons.IH [OF _ drain_steps_keep(1) [OF run Cons.prems(2)]] Cons.prems(1) run by (simp add: rtranclp_trans)
  note rest = this
  show ?case
  proof (cases "fst ?o")
    case (Inr y)
    let ?r = "export_submit_items u x (map (after_result y) items) ss (snd ?o)"
    show ?thesis using rest [of "map (after_result y) items"] Inr
      by (cases ?o; cases ?r) (auto split: sum.split)
  qed (use run in \<open>cases ?o; simp\<close>)
qed simp

lemma exportSubmit_run:
  assumes "list_all quiet_submission ss" "others m" "drains_ok d"
  shows "drain_steps d (snd (exportSubmit canon allowlist now u w exportId key_ok ss reread m d))"
proof (cases "exportSubmit_gates canon allowlist u w exportId d")
  case (Inr x)
  let ?d0 = "dd_record ''wallet.export.submit'' (Some u) (wx_id x) d"
  let ?o = "export_submit_items u x (items_of (wx_id x) (dd_xitems d)) ss ?d0"
  have run0: "drain_steps d ?d0" by (rule record_run)
  then have run: "drain_steps d (snd ?o)"
    using export_submit_items_run [OF assms(1) drain_steps_keep(1) [OF run0 assms(3)]] by (meson rtranclp_trans)
  then have "drain_steps d (m (snd ?o))" using others_run [OF assms(2) drain_steps_keep(1) [OF run assms(3)]] by simp
  then have fin: "drain_steps d (snd (finalizeExport now (Some u) (wx_id x) w z (m (snd ?o))))" for z
    using export_finalize by (meson rtranclp.rtrancl_into_rtrancl)
  show ?thesis
  proof (cases "fst ?o")
    case (Inl e)
    then show ?thesis using Inr run run0 unfolding exportSubmit_def Let_def by (cases ?o) simp
  next
    case out: (Inr res)
    have "snd (exportSubmit canon allowlist now u w exportId key_ok ss reread m d) \<in>
      insert ?d0 (range (\<lambda>z. snd (finalizeExport now (Some u) (wx_id x) w z (m (snd ?o)))))"
      using Inr out unfolding exportSubmit_def Let_def
      by (cases ?o) (auto simp: image_iff split: prod.splits sum.splits, (metis snd_conv)+)
    then show ?thesis using fin run0 by auto
  qed
qed (simp add: exportSubmit_def)

lemma export_reconcile_items_run: "drain_steps d (snd (export_reconcile_items balance is d))"
proof (induction "is" arbitrary: d)
  case (Cons i "is")
  let ?o = "export_reconcile_one balance i d"
  have "drain_steps d (d\<lparr>dd_xitems := fst (reconcileExportItem (di_id i) (dd_xitems d))\<rparr>)"
    by (rule r_into_rtranclp, rule export_reconcile)
  then have "drain_steps d (snd ?o)"
    by (cases "0 < balance (di_token i)"; cases "reconcileExportItem (di_id i) (dd_xitems d)") (simp_all add: export_reconcile_one_def)
  then have "drain_steps d (snd (export_reconcile_items balance is (snd ?o)))" using Cons.IH by (rule rtranclp_trans)
  then show ?case by (cases ?o; cases "export_reconcile_items balance is (snd ?o)") simp
qed simp

lemma export_status_run: "drain_steps d (snd (export_status now balances u w d))"
proof -
  have run: "drain_steps d (snd (exportReconcileStuckItems now balances w x items d))" for x items
  proof (cases balances)
    case (Some balance)
    let ?o = "export_reconcile_items balance (filter (\<lambda>i. di_status i = IS_submitted) items) d"
    have run: "drain_steps d (snd ?o)" by (rule export_reconcile_items_run)
    then have "drain_steps d (snd (finalizeExport now None (wx_id x) w True (snd ?o)))"
      using export_finalize by (meson rtranclp.rtrancl_into_rtrancl)
    then show ?thesis using run Some unfolding exportReconcileStuckItems_def Let_def
      by (cases ?o) (auto split: prod.split sum.split)
  qed (simp add: exportReconcileStuckItems_def)
  show ?thesis unfolding export_status_def Let_def
    by (auto split: option.split prod.split sum.split) (metis run snd_conv)+
qed

section \<open>What completes a drain\<close>

lemma submit_items_tokens:
  "submit_items u r source items ss d = (items', xs, d') \<Longrightarrow> map di_token items' = map di_token items"
proof (induction ss arbitrary: items d xs items' d')
  case (Cons s ss)
  obtain x e where one: "submit_item u r source items s d = (x, e)" by (rule prod.exhaust)
  obtain items'' ys f where rest: "submit_items u r source (map (after_result x) items) ss e = (items'', ys, f)" by (metis prod_cases3)
  have "items' = items''" using Cons.prems one rest by simp
  then show ?case using Cons.IH [OF rest] by (simp add: comp_def)
qed simp

lemma export_submit_items_tokens:
  "export_submit_items u x items ss d = (Inr (items', ys), d') \<Longrightarrow> map di_token items' = map di_token items"
proof (induction ss arbitrary: items d ys items' d')
  case (Cons s ss)
  obtain o1 e where one: "export_submit_item u x items s d = (o1, e)" by (rule prod.exhaust)
  obtain y where y: "o1 = Inr y" using Cons.prems one by (cases o1) auto
  obtain o2 f where rest: "export_submit_items u x (map (after_result y) items) ss e = (o2, f)" by (rule prod.exhaust)
  obtain items'' zs where z: "o2 = Inr (items'', zs)" using Cons.prems one y rest by (cases o2) auto
  have "items' = items''" using Cons.prems one y rest z by simp
  then show ?case using Cons.IH [OF rest [unfolded z]] by (simp add: comp_def)
qed simp

lemma map_row: "x \<in> set t \<Longrightarrow> P (f x) \<Longrightarrow> \<exists>y \<in> set (map f t). P y"
  by auto

lemma tokens_zero: "map di_token items = map di_token items' \<Longrightarrow> list_all (\<lambda>i. \<not> 0 < b (di_token i)) items
  \<Longrightarrow> \<forall>i \<in> set items'. b (di_token i) \<le> (0::int)"
proof -
  assume a: "map di_token items = map di_token items'" "list_all (\<lambda>i. \<not> 0 < b (di_token i)) items"
  have "\<forall>t \<in> set (map di_token items). b t \<le> 0" using a(2) by (auto simp: list_all_iff)
  then show ?thesis using a(1) by simp
qed

lemma finalizeRotation_True:
  assumes "finalizeRotation now actor j z d = (True, d')"
  shows "z" "all_items_confirmed j (dd_items d)" "dd_items d' = dd_items d"
    "\<And>r. r \<in> set (dd_rotations d) \<Longrightarrow> ro_id r = j \<Longrightarrow> \<exists>s \<in> set (dd_rotations d'). ro_id s = j \<and> ro_status s = DS_completed"
proof -
  have c: "all_items_confirmed j (dd_items d) \<and> z" and d': "d' = dd_record ''wallet.rotation.completed'' actor j
      (d\<lparr>dd_rotations := set_rotation j (\<lambda>_. True) (\<lambda>r. r\<lparr>ro_status := DS_completed, ro_completed := Some now\<rparr>) (dd_rotations d)\<rparr>)"
    using assms by (auto simp: finalizeRotation_def split: if_splits)
  show "z" "all_items_confirmed j (dd_items d)" "dd_items d' = dd_items d" using c d' by (simp_all add: dd_record_def)
  have t: "dd_rotations d' = map (\<lambda>r. if ro_id r = j then r\<lparr>ro_status := DS_completed, ro_completed := Some now\<rparr> else r) (dd_rotations d)"
    by (simp add: d' dd_record_def set_rotation_def)
  fix r
  assume "r \<in> set (dd_rotations d)" "ro_id r = j"
  then show "\<exists>s \<in> set (dd_rotations d'). ro_id s = j \<and> ro_status s = DS_completed"
    unfolding t by (intro map_row) auto
qed

lemma submit_completed:
  assumes "submitRotation now u src rid allowed key_ok ss reread m d = (Inr (DS_completed, results), d')"
    "list_all quiet_submission ss" "others m" "drains_ok d"
  shows "allowed = Some True" "all_items_confirmed rid (dd_items d')"
    "\<exists>balance. reread = Some balance \<and> (\<forall>i \<in> set (items_of rid (dd_items d)). balance (di_token i) \<le> 0)"
    "\<exists>r \<in> set (dd_rotations d'). ro_id r = rid \<and> ro_status r = DS_completed"
proof -
  define gates where "gates = bindE (resolveSourceWallet u src d) (\<lambda>(cred, source).
     bindE (case findOwnedRotation rid src u d of
         None \<Rightarrow> Inl (RotationError Rotation_not_found) | Some r \<Rightarrow> Inr r) (\<lambda>r.
     bindE (ensureAllowlisted allowed) (\<lambda>_.
     bindE (guardE key_ok (HttpThrow (FailHttp ''TRANSFER_SIGNATURE_INVALID'' 422))) (\<lambda>_. Inr (source, r)))))"
  obtain source r where g: "gates = Inr (source, r)"
    using assms(1) unfolding submitRotation_def gates_def [symmetric] by (cases gates) auto
  have r: "r \<in> set (dd_rotations d)" "ro_id r = rid"
    using g unfolding gates_def findOwnedRotation_def by (auto simp: err_simps split: option.splits prod.splits dest: sql_find_Some)
  show "allowed = Some True"
    using g unfolding gates_def ensureAllowlisted_def by (auto simp: err_simps split: option.splits prod.splits)
  obtain items xs e where loop: "submit_items u r source (items_of rid (dd_items d)) ss d = (items, xs, e)" by (metis prod_cases3)
  define z where "z = ((items \<noteq> [] \<and> list_all (\<lambda>i. di_status i = IS_confirmed) items) \<and> (case reread of None \<Rightarrow> False
                   | Some balance \<Rightarrow> list_all (\<lambda>i. \<not> 0 < balance (di_token i)) items))"
  have load: "loaded r i d" if "i \<in> set (items_of rid (dd_items d))" for i
    using that r by (auto simp: loaded_def stored_known items_of_def)
  have run: "drain_steps d e" using submit_items_run [OF loop assms(2,4) load] by blast
  have run': "drain_steps d (m e)" using others_run [OF assms(3) drain_steps_keep(1) [OF run assms(4)]] run by simp
  have fin: "finalizeRotation now (Some u) rid z (m e) = (True, d')"
    using assms(1) unfolding submitRotation_def gates_def [symmetric] g sum.case prod.case r(2) loop Let_def z_def [symmetric]
    by (auto split: prod.splits if_splits)
  show "all_items_confirmed rid (dd_items d')" using finalizeRotation_True(2,3) [OF fin] by simp
  show "\<exists>balance. reread = Some balance \<and> (\<forall>i \<in> set (items_of rid (dd_items d)). balance (di_token i) \<le> 0)"
    using finalizeRotation_True(1) [OF fin] tokens_zero [OF submit_items_tokens [OF loop]] unfolding z_def by (auto split: option.splits)
  obtain s where "s \<in> set (dd_rotations (m e))" "rotation_moves r s"
    by (rule moved_rotation [OF drain_steps_keep(2) [OF run' assms(4)] r(1)])
  then show "\<exists>r \<in> set (dd_rotations d'). ro_id r = rid \<and> ro_status r = DS_completed"
    using finalizeRotation_True(4) [OF fin] r(2) by (simp add: rotation_moves_def same_rotation_def)
qed

lemma markExported_row:
  assumes "markExported now w wd = (Inr n, wd')" "0 < n"
  shows "\<exists>x \<in> set (wd_wallets wd'). wt_id x = w \<and> wt_status x = WS_exported"
proof -
  let ?P = "\<lambda>x. wt_id x = w \<and> wt_status x = WS_active"
  obtain x where x: "find ?P (wd_wallets wd) = Some x" using assms by (auto simp: markExported_def update_wallet_def split: option.splits)
  have d': "wd_wallets wd' = map (\<lambda>x. if ?P x then x\<lparr>wt_status := WS_exported, wt_removed := Some now\<rparr> else x) (wd_wallets wd)"
    using assms(1) x by (auto simp: markExported_def update_wallet_def split: if_splits option.splits)
  have "x \<in> set (wd_wallets wd)" "?P x" using find_in_set [OF x] by simp_all
  then show ?thesis unfolding d' by (intro map_row) auto
qed

lemma finalizeExport_True:
  assumes "finalizeExport now actor j w z d = (Inr True, d')"
  shows "z" "all_items_confirmed j (dd_xitems d)" "dd_xitems d' = dd_xitems d"
    "\<exists>x \<in> set (wd_wallets (dd_wallets d')). wt_id x = w \<and> wt_status x = WS_exported"
    "\<And>x. x \<in> set (dd_exports d) \<Longrightarrow> wx_id x = j \<Longrightarrow> \<exists>y \<in> set (dd_exports d'). wx_id y = j \<and> wx_status y = DS_completed"
proof -
  have c: "all_items_confirmed j (dd_xitems d) \<and> z" using assms by (auto simp: finalizeExport_def Let_def split: if_splits)
  obtain o1 wd where mark: "markExported now w (dd_wallets d) = (o1, wd)" by (rule prod.exhaust)
  obtain n where n: "o1 = Inr n" using assms c mark by (cases o1) (auto simp: finalizeExport_def)
  have d': "0 < n" "d' = dd_record ''wallet.export.confirmed'' actor j (d\<lparr>dd_wallets := wd, dd_exports := set_export j
      (\<lambda>x. x\<lparr>wx_status := DS_completed, wx_completed := Some now\<rparr>) (dd_exports d)\<rparr>)"
    using assms c mark n by (auto simp: finalizeExport_def)
  show "z" "all_items_confirmed j (dd_xitems d)" "dd_xitems d' = dd_xitems d" using c d' by (simp_all add: dd_record_def)
  show "\<exists>x \<in> set (wd_wallets (dd_wallets d')). wt_id x = w \<and> wt_status x = WS_exported"
    using markExported_row [OF mark [unfolded n] d'(1)] d'(2) by (simp add: dd_record_def wd_record_def)
  have t: "dd_exports d' = map (\<lambda>x. if wx_id x = j then x\<lparr>wx_status := DS_completed, wx_completed := Some now\<rparr> else x) (dd_exports d)"
    by (simp add: d'(2) dd_record_def set_export_def)
  fix x
  assume "x \<in> set (dd_exports d)" "wx_id x = j"
  then show "\<exists>y \<in> set (dd_exports d'). wx_id y = j \<and> wx_status y = DS_completed"
    unfolding t by (intro map_row) auto
qed

lemma exportSubmit_completed:
  assumes "exportSubmit canon allowlist now u w xid key_ok ss reread m d = (Inr (st, True, results), d')"
    "list_all quiet_submission ss" "others m" "drains_ok d"
  shows "all_items_confirmed xid (dd_xitems d')"
    "\<exists>balance. reread = Some balance \<and> (\<forall>i \<in> set (items_of xid (dd_xitems d)). balance (di_token i) \<le> 0)"
    "\<exists>x \<in> set (dd_exports d'). wx_id x = xid \<and> wx_status x = DS_completed"
    "\<exists>x \<in> set (wd_wallets (dd_wallets d')). wt_id x = w \<and> wt_status x = WS_exported"
proof -
  obtain x where g: "exportSubmit_gates canon allowlist u w xid d = Inr x"
    using assms(1) unfolding exportSubmit_def by (cases "exportSubmit_gates canon allowlist u w xid d") auto
  have x: "x \<in> set (dd_exports d)" "wx_id x = xid"
    using g unfolding exportSubmit_gates_def findOwnedExport_def by (auto simp: err_simps split: option.splits prod.splits dest: sql_find_Some)
  let ?d0 = "dd_record ''wallet.export.submit'' (Some u) (wx_id x) d"
  obtain o1 e where loop: "export_submit_items u x (items_of xid (dd_xitems d)) ss ?d0 = (o1, e)" by (rule prod.exhaust)
  obtain items ys where o1: "o1 = Inr (items, ys)"
    using assms(1) loop x(2) unfolding exportSubmit_def g sum.case Let_def by (cases o1) (auto split: if_splits)
  define z where "z = ((items \<noteq> [] \<and> list_all (\<lambda>i. di_status i = IS_confirmed) items) \<and> (case reread of None \<Rightarrow> False
                     | Some balance \<Rightarrow> list_all (\<lambda>i. \<not> 0 < balance (di_token i)) items))"
  have fin: "finalizeExport now (Some u) xid w z (m e) = (Inr True, d')"
    using assms(1) loop o1 x(2) unfolding exportSubmit_def g sum.case Let_def z_def
    by (auto split: if_splits prod.splits sum.splits)
  have run0: "drain_steps d ?d0" by (rule record_run)
  have run: "drain_steps ?d0 e"
    using export_submit_items_run [OF assms(2) drain_steps_keep(1) [OF run0 assms(4)]] loop by (metis snd_conv)
  have ok: "drains_ok e" by (rule drain_steps_keep(1) [OF run drain_steps_keep(1) [OF run0 assms(4)]])
  have run': "drain_steps d (m e)" using others_run [OF assms(3) ok] run run0 by simp
  show "all_items_confirmed xid (dd_xitems d')" using finalizeExport_True(2,3) [OF fin] by simp
  show "\<exists>balance. reread = Some balance \<and> (\<forall>i \<in> set (items_of xid (dd_xitems d)). balance (di_token i) \<le> 0)"
    using finalizeExport_True(1) [OF fin] tokens_zero [OF export_submit_items_tokens [OF loop [unfolded o1]]] unfolding z_def
    by (auto split: option.splits)
  obtain y where "y \<in> set (dd_exports (m e))" "export_moves x y"
    using rows_move_row [OF _ x(1)] drain_steps_keep(2) [OF run' assms(4)] unfolding drains_move_def by blast
  then show "\<exists>x \<in> set (dd_exports d'). wx_id x = xid \<and> wx_status x = DS_completed"
    using finalizeExport_True(5) [OF fin] x(2) by (simp add: export_moves_def)
  show "\<exists>x \<in> set (wd_wallets (dd_wallets d')). wt_id x = w \<and> wt_status x = WS_exported" by (rule finalizeExport_True(4) [OF fin])
qed

section \<open>What status confirms\<close>

text \<open>The pass over stuck items whose balances read zero: every one is confirmed with a custody row.\<close>

lemma reconcile_stuck_row:
  assumes "distinct (map di_id t)" "i \<in> set t" "stuck_item i"
  shows "promote_stuck (di_id i) t = (map (\<lambda>x. if x = i then i\<lparr>di_status := IS_confirmed, di_error := None\<rparr> else x) t, True)"
proof -
  have one: "x = i" if "x \<in> set t" "di_id x = di_id i" for x using assms(1,2) that by (auto simp: distinct_map inj_on_def)
  have "map (\<lambda>x. if di_id x = di_id i \<and> (di_status x = IS_submitted \<or> di_status x = IS_failed)
        then x\<lparr>di_status := IS_confirmed, di_error := None\<rparr> else x) t
      = map (\<lambda>x. if x = i then i\<lparr>di_status := IS_confirmed, di_error := None\<rparr> else x) t"
    using one assms(3) by (intro map_cong) (auto simp: stuck_item_def)
  moreover have "snd (promote_stuck (di_id i) t)" unfolding promote_stuck_def snd_cas_rows using assms(2,3) stuck_item_def by blast
  ultimately show ?thesis by (simp add: promote_stuck_def prod_eq_iff fst_cas_rows)
qed

lemma reconcile_items_confirms:
  "(\<And>i. i \<in> set is \<Longrightarrow> i \<in> set (dd_items d) \<and> stuck_item i \<and> balance (di_token i) \<le> 0) \<Longrightarrow> distinct is
   \<Longrightarrow> distinct (map di_id (dd_items d)) \<Longrightarrow> reconcile_items balance r source is d = (ids, d')
   \<Longrightarrow> ids = map di_id is \<and> dd_rotations d' = dd_rotations d \<and> dd_wallets d' = dd_wallets d
     \<and> dd_items d' = map (\<lambda>x. if x \<in> set is then x\<lparr>di_status := IS_confirmed, di_error := None\<rparr> else x) (dd_items d)
     \<and> set (dd_events d) \<subseteq> set (dd_events d')
     \<and> (\<forall>i \<in> set is. \<exists>e \<in> set (dd_events d'). rg_ref e = item_ref (di_id i)
         \<and> (item_ref (di_id i) \<notin> rg_ref ` set (dd_events d) \<longrightarrow> e = custodyEntry r source i (di_hash i) (di_ledger i)))"
proof (induction "is" arbitrary: d ids d')
  case (Cons i "is")
  let ?e = "custodyEntry r source i (di_hash i) (di_ledger i)"
  let ?c = "\<lambda>x. x\<lparr>di_status := IS_confirmed, di_error := None\<rparr>"
  let ?t = "map (\<lambda>x. if x = i then ?c i else x) (dd_items d)"
  let ?d = "recordCustodyTransfer ?e (d\<lparr>dd_items := ?t\<rparr>)"
  have i: "i \<in> set (dd_items d)" "stuck_item i" "balance (di_token i) \<le> 0" using Cons.prems(1) by simp_all
  have one: "reconcile_one balance r source i d = (True, ?d)"
    using i(3) reconcile_stuck_row [OF Cons.prems(3) i(1,2)] by (simp add: reconcile_one_def reconcileItemConfirmed_def)
  obtain js f where rest: "reconcile_items balance r source is ?d = (js, f)" by (rule prod.exhaust)
  have out: "ids = di_id i # js" "d' = f" using Cons.prems(4) one rest by simp_all
  have ids: "map di_id ?t = map di_id (dd_items d)" by auto
  have other: "j \<noteq> i \<and> j \<in> set ?t \<and> di_id j \<noteq> di_id i" if "j \<in> set is" for j
  proof -
    have j: "j \<noteq> i" "j \<in> set (dd_items d)" using that Cons.prems(1,2) by auto
    then have "di_id j \<noteq> di_id i" using Cons.prems(3) i(1) by (auto simp: distinct_map inj_on_def)
    moreover have "j \<in> (\<lambda>x. if x = i then ?c i else x) ` set (dd_items d)" by (rule rev_image_eqI [OF j(2)]) (simp add: j(1))
    ultimately show ?thesis using j by simp
  qed
  have tail: "js = map di_id is \<and> dd_rotations f = dd_rotations d \<and> dd_wallets f = dd_wallets d
     \<and> dd_items f = map (\<lambda>x. if x \<in> set is then ?c x else x) ?t \<and> set (dd_events ?d) \<subseteq> set (dd_events f)
     \<and> (\<forall>j \<in> set is. \<exists>e \<in> set (dd_events f). rg_ref e = item_ref (di_id j)
         \<and> (item_ref (di_id j) \<notin> rg_ref ` set (dd_events ?d) \<longrightarrow> e = custodyEntry r source j (di_hash j) (di_ledger j)))"
  proof -
    have "dd_wallets ?d = dd_wallets d" by (simp add: recordCustodyTransfer_def)
    moreover have prems: "\<And>j. j \<in> set is \<Longrightarrow> j \<in> set (dd_items ?d) \<and> stuck_item j \<and> balance (di_token j) \<le> 0"
      "distinct is" "distinct (map di_id (dd_items ?d))"
      using other Cons.prems(1-3) ids by (simp_all del: map_map)
    ultimately show ?thesis using Cons.IH [OF prems rest] by (simp del: map_map)
  qed
  have fresh: "?c i \<notin> set is" using Cons.prems(1) [of "?c i"] by (auto simp: stuck_item_def)
  have items: "dd_items f = map (\<lambda>x. if x \<in> set (i # is) then ?c x else x) (dd_items d)"
    using tail fresh Cons.prems(2) by (auto simp: comp_def)
  have ev: "set (dd_events ?d) = set (dd_events d) \<union> (if rg_ref ?e \<in> rg_ref ` set (dd_events d) then {} else {?e})"
    by (simp add: recordCustodyTransfer_events)
  have ref: "rg_ref ?e = item_ref (di_id i)" by (simp add: custodyEntry_def)
  have own: "\<exists>e \<in> set (dd_events f). rg_ref e = item_ref (di_id i) \<and> (item_ref (di_id i) \<notin> rg_ref ` set (dd_events d) \<longrightarrow> e = ?e)"
  proof (cases "rg_ref ?e \<in> rg_ref ` set (dd_events d)")
    case True
    then obtain x where "x \<in> set (dd_events d)" "rg_ref x = item_ref (di_id i)" using ref by auto
    then show ?thesis using True ref tail ev by auto
  next
    case False
    then have "?e \<in> set (dd_events f)" using tail ev by auto
    then show ?thesis using ref by blast
  qed
  have others: "\<exists>e \<in> set (dd_events f). rg_ref e = item_ref (di_id j)
      \<and> (item_ref (di_id j) \<notin> rg_ref ` set (dd_events d) \<longrightarrow> e = custodyEntry r source j (di_hash j) (di_ledger j))" if j: "j \<in> set is" for j
  proof -
    have "item_ref (di_id j) \<noteq> rg_ref ?e" using other [OF j] by (simp add: ref item_ref_def)
    then have "item_ref (di_id j) \<in> rg_ref ` set (dd_events ?d) \<longleftrightarrow> item_ref (di_id j) \<in> rg_ref ` set (dd_events d)" using ev by auto
    moreover obtain e where "e \<in> set (dd_events f)" "rg_ref e = item_ref (di_id j)"
      "item_ref (di_id j) \<notin> rg_ref ` set (dd_events ?d) \<longrightarrow> e = custodyEntry r source j (di_hash j) (di_ledger j)" using tail j by blast
    ultimately show ?thesis by blast
  qed
  have "set (dd_events d) \<subseteq> set (dd_events f)" using tail ev by blast
  then show ?case unfolding out using tail items own others by (simp del: map_map)
qed simp

lemma latest_by_map: "(\<And>x. c (f x) = c x) \<Longrightarrow> latest_by c (map f t) = map_option f (latest_by c t)"
  by (induction t) (auto split: option.split)

lemma latest_after_finalize:
  assumes "finalizeRotation now actor (ro_id r) True d = (True, d')" "findLatestBySource src d = Some r"
  shows "findLatestBySource src d' = Some (r\<lparr>ro_status := DS_completed, ro_completed := Some now\<rparr>)"
proof -
  let ?f = "\<lambda>x :: rotation. if ro_id x = ro_id r then x\<lparr>ro_status := DS_completed, ro_completed := Some now\<rparr> else x"
  have t: "dd_rotations d' = map ?f (dd_rotations d)"
    using assms(1) by (auto simp: finalizeRotation_def dd_record_def set_rotation_def split: if_splits)
  have "(\<lambda>x. ro_source x = src \<and> ro_deleted x = None) \<circ> ?f = (\<lambda>x. ro_source x = src \<and> ro_deleted x = None)" by (intro ext) auto
  note P = this
  have "findLatestBySource src d' = latest_by ro_created (map ?f (filter (\<lambda>x. ro_source x = src \<and> ro_deleted x = None) (dd_rotations d)))"
    unfolding findLatestBySource_def t filter_map P by simp
  also have "\<dots> = map_option ?f (findLatestBySource src d)"
    unfolding findLatestBySource_def by (rule latest_by_map) simp
  finally show ?thesis using assms(2) by simp
qed

lemma items_of_map:
  assumes "\<And>x. di_parent (f x) = di_parent x" "\<And>x. live_item (f x) = live_item x"
  shows "items_of p (map f t) = map f (items_of p t)"
  using assms by (induction t) (simp_all add: items_of_def)

lemma distinct_items: "drains_ok d \<Longrightarrow> distinct (map di_id (dd_items d))"
  by (simp add: drains_ok_def items_ok_def)

text \<open>
  Reconciliation confirms on the balance alone. If every item of the latest rotation has failed,
  for whatever reason (the allowlist refused it before anything was sent, the simulation failed), and
  the source's balances of their tokens read zero, for whatever reason (a sale, another transfer, an
  export), then the status read confirms all of them, completes the rotation, and the append-only
  registry holds for each a custody transfer to the rotation's destination with the item's amount and
  the hash it has, none if it was never sent.
\<close>

lemma status_confirms_unsent_items:
  assumes "drains_ok d" "findOwnedById src u (dd_wallets d) = Some w" "wt_contract w = Some c" "c \<noteq> []"
    "findLatestBySource src d = Some r" "items_of (ro_id r) (dd_items d) \<noteq> []"
    "\<forall>i \<in> set (items_of (ro_id r) (dd_items d)). di_status i = IS_failed \<and> balance (di_token i) \<le> 0"
  shows "\<exists>items d'. rotation_status now (Some balance) u src d = (Inr (RS_confirmed, items), d')
     \<and> (\<forall>i \<in> set (items_of (ro_id r) (dd_items d)). \<exists>e \<in> set (dd_events d'). rg_ref e = item_ref (di_id i)
         \<and> (item_ref (di_id i) \<notin> rg_ref ` set (dd_events d)
             \<longrightarrow> rg_to e = ro_address r \<and> rg_token e = di_token i \<and> rg_amount e = di_amount i \<and> rg_hash e = di_hash i))"
proof -
  let ?items = "items_of (ro_id r) (dd_items d)"
  let ?c = "\<lambda>x. x\<lparr>di_status := IS_confirmed, di_error := None\<rparr>"
  let ?f = "\<lambda>x. if x \<in> set ?items then ?c x else x"
  obtain ids d1 where loop: "reconcile_items balance r c ?items d = (ids, d1)" by (rule prod.exhaust)
  have stuck: "filter stuck_item ?items = ?items" using assms(7) by (simp add: filter_id_conv stuck_item_def)
  have mem: "set ?items \<subseteq> set (dd_items d)" by (auto simp: items_of_def)
  have dist: "distinct ?items" using distinct_items [OF assms(1)] by (simp add: items_of_def distinct_map)
  have "\<And>i. i \<in> set ?items \<Longrightarrow> i \<in> set (dd_items d) \<and> stuck_item i \<and> balance (di_token i) \<le> 0"
    using assms(7) mem by (auto simp: stuck_item_def)
  then have out: "ids = map di_id ?items" "dd_rotations d1 = dd_rotations d" "dd_items d1 = map ?f (dd_items d)"
    "\<forall>i \<in> set ?items. \<exists>e \<in> set (dd_events d1). rg_ref e = item_ref (di_id i)
       \<and> (item_ref (di_id i) \<notin> rg_ref ` set (dd_events d) \<longrightarrow> e = custodyEntry r c i (di_hash i) (di_ledger i))"
    using reconcile_items_confirms [OF _ dist distinct_items [OF assms(1)] loop] by blast+
  have "items_of (ro_id r) (dd_items d1) = map ?f ?items"
    unfolding out(3) by (rule items_of_map) (simp_all add: live_item_def)
  then have all: "all_items_confirmed (ro_id r) (dd_items d1)"
    using assms(6) by (auto simp: all_items_confirmed_def list_all_iff)
  obtain d2 where fin: "finalizeRotation now None (ro_id r) True d1 = (True, d2)"
    using all by (simp add: finalizeRotation_def)
  have rec: "reconcileStuckItems now (Some balance) r c ?items d = d2"
    using assms(6) fin unfolding reconcileStuckItems_def Let_def stuck by (simp add: loop out(1) list_all_iff)
  have "findLatestBySource src d1 = Some r" using assms(5) out(2) by (simp add: findLatestBySource_def)
  then have latest: "findLatestBySource src d2 = Some (r\<lparr>ro_status := DS_completed, ro_completed := Some now\<rparr>)"
    by (rule latest_after_finalize [OF fin])
  have "dd_events d2 = dd_events d1" using fin by (auto simp: finalizeRotation_def dd_record_def split: if_splits)
  then have ev: "\<forall>i \<in> set ?items. \<exists>e \<in> set (dd_events d2). rg_ref e = item_ref (di_id i)
       \<and> (item_ref (di_id i) \<notin> rg_ref ` set (dd_events d)
           \<longrightarrow> rg_to e = ro_address r \<and> rg_token e = di_token i \<and> rg_amount e = di_amount i \<and> rg_hash e = di_hash i)"
    using out(4) by (fastforce simp: custodyEntry_def)
  have "\<exists>items. rotation_status now (Some balance) u src d = (Inr (RS_confirmed, items), d2)"
    using assms(2-5) rec latest unfolding rotation_status_def by (simp add: Let_def)
  then show ?thesis using ev by blast
qed

text \<open>
  C29. In every interleaving of the statements of both drains, from tables without a drain: a source has
  at most one active rotation and a wallet at most one active export, a rotation at most one live
  item per token, no transaction hash confirms two live items, the CHECKs hold; the registry has at
  most one custody row per item, with the parties of the item's rotation and the item's token, and a
  row for every confirmed item; a completed rotation has moved something. Rows are never removed or
  redirected, custody rows never change, and a completed rotation or export stays completed.
\<close>

theorem drains_lifecycle:
  assumes "drain_steps (no_drains w) d" "drain_steps d d'"
  shows "drains_ok d' \<and> drains_move d d'"
  using assms no_drains_ok drain_steps_keep by meson

text \<open>
  Whatever other requests do between its statements, every handler of the two services (initiate,
  submit, status and cancel of a rotation; initiate, submit and status of an export) is a run of the
  machine: it keeps every index, CHECK and custody row whatever balances, allowlist answers, builds
  and relayer answers it gets, on error paths too.
\<close>

lemma drain_handlers_are_runs:
  assumes "drains_ok d" "others m0" "\<And>k. others (m k)" "list_all quiet_submission ss"
  shows "drain_steps d (snd (initiateRotation env now fr fresh m0 m u src dst d0 d))
    \<and> drain_steps d (snd (submitRotation now u src rid allowed key_ok ss reread m0 d))
    \<and> drain_steps d (snd (rotation_status now balances u src d))
    \<and> drain_steps d (snd (cancelRotation now m0 u src d))
    \<and> drain_steps d (snd (exportInitiate xenv now fr fresh m0 m u src target d0 d))
    \<and> drain_steps d (snd (exportSubmit canon allowlist now u src xid key_ok ss reread m0 d))
    \<and> drain_steps d (snd (export_status now balances u src d))"
  using initiate_run [OF assms(2,3,1)] submit_run [OF assms(4,2,1)] rotation_status_run [OF assms(1)] cancelRotation_run [OF assms(2,1)]
    exportInitiate_run [OF assms(2,3,1)] exportSubmit_run [OF assms(4,2,1)] export_status_run
  by simp

text \<open>
  C30. A submit reports a drain completed only when it is: every live item of the rotation is confirmed
  and has its custody row, the allowlist let the destination pass, and a balance read after the last
  transfer showed nothing left of any token; the rotation row is completed. An export is reported only
  with its items confirmed and its balances empty as well, and then the wallet is exported.
\<close>

theorem drains_complete_only_drained:
  assumes "drains_ok d" "others m" "list_all quiet_submission ss"
  shows "(\<forall>results d'. submitRotation now u src rid allowed key_ok ss reread m d = (Inr (DS_completed, results), d')
      \<longrightarrow> allowed = Some True \<and> items_of rid (dd_items d') \<noteq> []
        \<and> (\<forall>i \<in> set (items_of rid (dd_items d')). di_status i = IS_confirmed \<and> has_custody d' i)
        \<and> (\<exists>b. reread = Some b \<and> (\<forall>i \<in> set (items_of rid (dd_items d)). b (di_token i) \<le> 0))
        \<and> (\<exists>r \<in> set (dd_rotations d'). ro_id r = rid \<and> ro_status r = DS_completed))
    \<and> (\<forall>st results d'. exportSubmit canon allowlist now u w xid key_ok ss reread m d = (Inr (st, True, results), d')
      \<longrightarrow> items_of xid (dd_xitems d') \<noteq> [] \<and> (\<forall>i \<in> set (items_of xid (dd_xitems d')). di_status i = IS_confirmed)
        \<and> (\<exists>b. reread = Some b \<and> (\<forall>i \<in> set (items_of xid (dd_xitems d)). b (di_token i) \<le> 0))
        \<and> (\<exists>x \<in> set (dd_exports d'). wx_id x = xid \<and> wx_status x = DS_completed)
        \<and> (\<exists>x \<in> set (wd_wallets (dd_wallets d')). wt_id x = w \<and> wt_status x = WS_exported))"
proof (intro conjI allI impI)
  fix results d'
  assume s: "submitRotation now u src rid allowed key_ok ss reread m d = (Inr (DS_completed, results), d')"
  note fin = submit_completed [OF s assms(3,2,1)]
  have "drain_steps d d'" using submit_run [OF assms(3,2,1)] s by (metis snd_conv)
  then have ok: "registry_ok d'" using drain_steps_keep(1) assms(1) drains_ok_def by blast
  show "allowed = Some True" "items_of rid (dd_items d') \<noteq> []" using fin by (simp_all add: all_items_confirmed_def)
  show "\<forall>i \<in> set (items_of rid (dd_items d')). di_status i = IS_confirmed \<and> has_custody d' i"
    using fin(2) ok by (auto simp: all_items_confirmed_def list_all_iff registry_ok_def items_of_def)
  show "\<exists>b. reread = Some b \<and> (\<forall>i \<in> set (items_of rid (dd_items d)). b (di_token i) \<le> 0)" by (rule fin(3))
  show "\<exists>r \<in> set (dd_rotations d'). ro_id r = rid \<and> ro_status r = DS_completed" by (rule fin(4))
next
  fix st results d'
  assume s: "exportSubmit canon allowlist now u w xid key_ok ss reread m d = (Inr (st, True, results), d')"
  note fin = exportSubmit_completed [OF s assms(3,2,1)]
  show "items_of xid (dd_xitems d') \<noteq> []" using fin(1) by (simp add: all_items_confirmed_def)
  show "\<forall>i \<in> set (items_of xid (dd_xitems d')). di_status i = IS_confirmed"
    using fin(1) by (simp add: all_items_confirmed_def list_all_iff)
  show "\<exists>b. reread = Some b \<and> (\<forall>i \<in> set (items_of xid (dd_xitems d)). b (di_token i) \<le> 0)" by (rule fin(2))
  show "\<exists>x \<in> set (dd_exports d'). wx_id x = xid \<and> wx_status x = DS_completed" by (rule fin(3))
  show "\<exists>x \<in> set (wd_wallets (dd_wallets d')). wt_id x = w \<and> wt_status x = WS_exported" by (rule fin(4))
qed

end
