(* ===== verification/Drain_Witness.thy ===== *)
theory Drain_Witness
  imports Drain_Main
begin

text \<open>
  Concrete runs of the drains: the witnesses of the theorems, and two interleavings in which the
  guards of a rotation fail.
\<close>

section \<open>A wallet with five fractions\<close>

definition w_tables :: wdb where
  "w_tables = \<lparr>wd_users = [(''u'', None)],
     wd_wallets = [\<lparr>wt_id = ''e'', wt_user = ''u'', wt_key = None, wt_contract = Some ''C'', wt_kind = WK_embedded,
         wt_primary = False, wt_status = WS_active, wt_removed = None, wt_created = 0, wt_deleted = None\<rparr>,
       \<lparr>wt_id = ''b'', wt_user = ''u'', wt_key = Some ''G'', wt_contract = None, wt_kind = WK_byow,
         wt_primary = True, wt_status = WS_active, wt_removed = None, wt_created = 0, wt_deleted = None\<rparr>],
     wd_credentials = [\<lparr>cr_credential = ''k'', cr_wallet = ''e'', cr_transports = None, cr_key = ''p'', cr_deleted = None\<rparr>],
     wd_challenges = [], wd_passkey_challenges = [], wd_audit = []\<rparr>"

definition w_env :: rotate_env where
  "w_env = \<lparr>re_seconds = 10,
     re_contracts = [\<lparr>fc_id = ''f'', fc_artwork = ''a'', fc_status = FC_deployed, fc_token = Some ''T'', fc_artist_address = ''A'',
       fc_supply = 100, fc_artist_retention = None, fc_treasury_retention = None, fc_deleted = None, fc_lockup_until = None\<rparr>],
     re_balances = Some (\<lambda>_. 5), re_allowed = Some True, re_build = \<lambda>_ _ _ _. Inr (''x'', ''c'', 50)\<rparr>"

definition w_initiate :: "instant \<Rightarrow> (nat \<Rightarrow> ddb \<Rightarrow> ddb) \<Rightarrow> ddb \<Rightarrow> (rotation_throw + ident \<times> item_dto list) \<times> ddb" where
  "w_initiate now m d = initiateRotation w_env now ''R'' (\<lambda>_. ''I'') (\<lambda>x. x) m ''u'' ''e'' ''b'' d d"

definition w_submission :: "bool option \<Rightarrow> ident \<Rightarrow> submitted" where
  "w_submission allowed h = \<lparr>su_item = ''I'', su_meanwhile = \<lambda>x. x, su_during = \<lambda>x. x, su_allowed = allowed,
     su_transfer = \<lambda>_ _. Inr (h, 7), su_commits = True\<rparr>"

definition w_submit :: "bool option \<Rightarrow> ident \<Rightarrow> ddb \<Rightarrow> (rotation_throw + drain_status \<times> item_result list) \<times> ddb" where
  "w_submit allowed h d = submitRotation 3 ''u'' ''e'' ''R'' (Some True) True [w_submission allowed h] (Some (\<lambda>_. 0)) (\<lambda>x. x) d"

abbreviation w_started :: ddb where
  "w_started \<equiv> snd (w_initiate 1 (\<lambda>_ x. x) (no_drains w_tables))"

definition w_submitted :: "ddb" where
  "w_submitted = snd (w_submit (Some True) ''h'' w_started)"

definition w_refused :: "ddb" where
  "w_refused = snd (w_submit (Some False) ''h'' w_started)"

lemma w_quiet: "list_all quiet_submission [w_submission allowed h]"
  by (simp add: w_submission_def quiet_submission_def others_id)

lemma w_runs:
  "drain_steps (no_drains w_tables) w_started" "drain_steps w_started w_submitted" "drain_steps w_started w_refused"
proof -
  show 1: "drain_steps (no_drains w_tables) w_started"
    unfolding w_initiate_def by (rule initiate_run) (simp_all add: others_id no_drains_ok)
  have ok: "drains_ok w_started" by (rule drain_steps_keep(1) [OF 1 no_drains_ok])
  show "drain_steps w_started w_submitted" "drain_steps w_started w_refused"
    unfolding w_submitted_def w_refused_def w_submit_def by (rule submit_run [OF w_quiet others_id ok])+
qed

lemma w_ok: "drains_ok w_started" "drains_ok w_submitted" "drains_ok w_refused"
  using drain_steps_keep(1) w_runs no_drains_ok by blast+

section \<open>Witnesses\<close>

theorem drains_lifecycle_witness:
  "drains_ok w_submitted \<and> drains_move w_started w_submitted
   \<and> map (\<lambda>e. (rg_to e, rg_amount e, rg_hash e)) (dd_events w_submitted) = [(''G'', 5, Some ''h'')]
   \<and> map ro_status (dd_rotations w_submitted) = [DS_completed]"
proof -
  have "map (\<lambda>e. (rg_to e, rg_amount e, rg_hash e)) (dd_events w_submitted) = [(''G'', 5, Some ''h'')]" by code_simp
  moreover have "map ro_status (dd_rotations w_submitted) = [DS_completed]" by code_simp
  ultimately show ?thesis using drains_lifecycle [OF w_runs(1,2)] by blast
qed

theorem drains_complete_only_drained_witness:
  "has_custody w_submitted (hd (items_of ''R'' (dd_items w_submitted)))
   \<and> (\<exists>r \<in> set (dd_rotations w_submitted). ro_id r = ''R'' \<and> ro_status r = DS_completed)"
proof -
  have "fst (w_submit (Some True) ''h'' w_started) = Inr (DS_completed, [confirmed_result ''I'' (Some ''h'') (Some 7)])" by code_simp
  then have "w_submit (Some True) ''h'' w_started = (Inr (DS_completed, [confirmed_result ''I'' (Some ''h'') (Some 7)]), w_submitted)"
    by (simp add: w_submitted_def prod_eq_iff)
  from drains_complete_only_drained [THEN conjunct1, rule_format, OF w_ok(1) others_id w_quiet this [unfolded w_submit_def]]
  show ?thesis by simp
qed

theorem status_confirms_unsent_items_witness:
  "\<exists>e \<in> set (dd_events (snd (rotation_status 9 (Some (\<lambda>_. 0)) ''u'' ''e'' w_refused))).
     rg_to e = ''G'' \<and> rg_token e = ''T'' \<and> rg_amount e = 5 \<and> rg_hash e = None"
proof -
  let ?w = "hd (wd_wallets w_tables)"
  let ?r = "hd (dd_rotations w_refused)"
  let ?i = "hd (dd_items w_refused)"
  have "findOwnedById ''e'' ''u'' (dd_wallets w_refused) = Some ?w" by code_simp
  moreover have "wt_contract ?w = Some ''C''" by code_simp
  moreover have "findLatestBySource ''e'' w_refused = Some ?r" by code_simp
  moreover have "items_of (ro_id ?r) (dd_items w_refused) = [?i]" by code_simp
  moreover have "di_status ?i = IS_failed" by code_simp
  ultimately have "\<exists>items d'. rotation_status 9 (Some (\<lambda>_. 0)) ''u'' ''e'' w_refused = (Inr (RS_confirmed, items), d')
     \<and> (\<forall>i \<in> set [?i]. \<exists>e \<in> set (dd_events d'). rg_ref e = item_ref (di_id i)
         \<and> (item_ref (di_id i) \<notin> rg_ref ` set (dd_events w_refused)
             \<longrightarrow> rg_to e = ro_address ?r \<and> rg_token e = di_token i \<and> rg_amount e = di_amount i \<and> rg_hash e = di_hash i))"
    using status_confirms_unsent_items [of w_refused "''e''" "''u''" ?w "''C''" ?r "\<lambda>_. 0" 9] w_ok(3) by simp
  moreover have "dd_events w_refused = []" "ro_address ?r = ''G''" "di_token ?i = ''T''" "di_amount ?i = 5" "di_hash ?i = None" by code_simp+
  ultimately show ?thesis by auto
qed

section \<open>Interleavings in which a guard fails\<close>

text \<open>
  A canceled rotation can have moved everything. A submit that runs between the checks of a cancel
  (which saw a pending item) and its soft delete confirms its transfer and completes the rotation; the
  cancel still answers that the rotation is canceled and deletes it. The registry keeps a custody row
  of a rotation the user can no longer see, although the claim's guard on deleted items was added so
  that no money moves against a canceled rotation.
\<close>

lemma canceled_rotation_moved_everything:
  "drain_steps (no_drains w_tables) w_started
   \<and> fst (w_submit (Some True) ''h'' w_started) = Inr (DS_completed, [confirmed_result ''I'' (Some ''h'') (Some 7)])
   \<and> (case cancelRotation 9 (\<lambda>x. snd (w_submit (Some True) ''h'' x)) ''u'' ''e'' w_started of (answer, d) \<Rightarrow>
       answer = Inr ''R'' \<and> drain_steps w_started d
       \<and> map (\<lambda>e. (rg_to e, rg_amount e, rg_hash e)) (dd_events d) = [(''G'', 5, Some ''h'')]
       \<and> findLatestBySource ''e'' d = None \<and> items_of ''R'' (dd_items d) = []
       \<and> fst (rotation_status 10 None ''u'' ''e'' d) = Inr (RS_none, []))"
proof -
  let ?c = "cancelRotation 9 (\<lambda>x. snd (w_submit (Some True) ''h'' x)) ''u'' ''e'' w_started"
  have "others (\<lambda>x. snd (w_submit (Some True) ''h'' x))"
    unfolding others_def w_submit_def using submit_run [OF w_quiet others_id] by blast
  then have run: "drain_steps w_started (snd ?c)" by (rule cancelRotation_run) (rule w_ok(1))
  have first: "fst (w_submit (Some True) ''h'' w_started) = Inr (DS_completed, [confirmed_result ''I'' (Some ''h'') (Some 7)])" by code_simp
  have answer: "fst ?c = Inr ''R''" by code_simp
  have events: "map (\<lambda>e. (rg_to e, rg_amount e, rg_hash e)) (dd_events (snd ?c)) = [(''G'', 5, Some ''h'')]" by code_simp
  have gone: "findLatestBySource ''e'' (snd ?c) = None" "items_of ''R'' (dd_items (snd ?c)) = []" by code_simp+
  have status: "fst (rotation_status 10 None ''u'' ''e'' (snd ?c)) = Inr (RS_none, [])" by code_simp
  show ?thesis unfolding split_beta using run first answer events gone status w_runs(1) by blast
qed

text \<open>
  A confirmed item can be reopened and its second transfer leaves no custody row. A resume that
  loaded the item before a submit confirmed it saves its build afterwards: the item is pending again
  although it was confirmed and recorded (and the rotation completed). The next submit sends a second
  transfer; the relayer confirms it, the item ends with the second hash, and the registry, one row per
  item, keeps only the first.
\<close>

lemma resume_hides_a_transfer:
  "fst (w_submit (Some True) ''h'' w_started) = Inr (DS_completed, [confirmed_result ''I'' (Some ''h'') (Some 7)])
   \<and> (case w_initiate 2 (\<lambda>_ x. snd (w_submit (Some True) ''h'' x)) w_started of (resumed, d) \<Rightarrow>
       drain_steps w_started d \<and> map dto_item (snd (projr resumed)) = [''I'']
       \<and> map di_status (dd_items d) = [IS_pending] \<and> map ro_status (dd_rotations d) = [DS_completed]
       \<and> (case w_submit (Some True) ''k'' d of (answer, d') \<Rightarrow>
           answer = Inr (DS_completed, [confirmed_result ''I'' (Some ''k'') (Some 7)]) \<and> drain_steps d d'
           \<and> map (\<lambda>i. (di_status i, di_hash i)) (dd_items d') = [(IS_confirmed, Some ''k'')]
           \<and> map rg_hash (dd_events d') = [Some ''h'']))"
proof -
  let ?r = "w_initiate 2 (\<lambda>_ x. snd (w_submit (Some True) ''h'' x)) w_started"
  let ?s = "w_submit (Some True) ''k'' (snd ?r)"
  have submit: "others (\<lambda>x. snd (w_submit (Some True) ''h'' x))"
    unfolding others_def w_submit_def using submit_run [OF w_quiet others_id] by blast
  have run: "drain_steps w_started (snd ?r)" unfolding w_initiate_def by (rule initiate_run [OF others_id submit w_ok(1) [unfolded w_initiate_def]])
  have run2: "drain_steps (snd ?r) (snd ?s)"
    unfolding w_submit_def by (rule submit_run [OF w_quiet others_id drain_steps_keep(1) [OF run w_ok(1), unfolded w_submit_def]])
  have "fst (w_submit (Some True) ''h'' w_started) = Inr (DS_completed, [confirmed_result ''I'' (Some ''h'') (Some 7)])" by code_simp
  moreover have "map dto_item (snd (projr (fst ?r))) = [''I'']" by code_simp
  moreover have "map di_status (dd_items (snd ?r)) = [IS_pending]" by code_simp
  moreover have "map ro_status (dd_rotations (snd ?r)) = [DS_completed]" by code_simp
  moreover have "fst ?s = Inr (DS_completed, [confirmed_result ''I'' (Some ''k'') (Some 7)])" by code_simp
  moreover have "map (\<lambda>i. (di_status i, di_hash i)) (dd_items (snd ?s)) = [(IS_confirmed, Some ''k'')]" by code_simp
  moreover have "map rg_hash (dd_events (snd ?s)) = [Some ''h'']" by code_simp
  ultimately show ?thesis unfolding split_beta using run run2 by blast
qed

end
