(* ===== verification/Fraction_DB.thy ===== *)
theory Fraction_DB
  imports Rotation Offering_State
begin

text \<open>
  The tables behind a fractionalization: \<open>artworks\<close> and \<open>fraction_contracts\<close> with their repositories
  (\<open>modules/fractionalization/repositories\<close>), the CHECKs, the partial unique index and the soft-delete
  trigger of migrations 027, 028 and 052, the audit rows the handlers write and the timeline rows of a
  deploy. A violated CHECK is \<open>''23514''\<close>, a violated key its name.
\<close>

section \<open>Rows\<close>

datatype artwork_status = AW_verified | AW_published | AW_fractionalizing | AW_fractionalized

record artwork_row =
  aw_id :: ident
  aw_status :: artwork_status
  aw_artist_user :: ident
  aw_title :: string
  aw_handle :: "string option"
  aw_image :: "string option"
  aw_created :: instant
  aw_updated :: instant
  aw_deleted :: "instant option"

record fraction_row = locked_contract +
  fc_wasm :: string
  fc_name :: string
  fc_symbol :: string
  fc_artist_pct :: int
  fc_treasury_pct :: int
  fc_artist_days :: int
  fc_treasury_days :: int
  fc_tx :: "ident option"
  fc_ledger :: "int option"
  fc_created :: instant
  fc_updated :: instant

text \<open>An audit row with the contract id of its payload.\<close>

record fraction_audit = audit_entry +
  fa_contract :: ident

record timeline_event =
  te_artwork :: ident
  te_type :: string
  te_ref :: string
  te_token :: ident
  te_ledger :: "int option"
  te_tx :: "ident option"

record fdb =
  fd_artworks :: "artwork_row list"
  fd_rows :: "fraction_row list"
  fd_audit :: "fraction_audit list"
  fd_timeline :: "timeline_event list"

section \<open>Constraints\<close>

definition base32_char :: "char \<Rightarrow> bool" where
  "base32_char c \<longleftrightarrow> (CHR ''A'' \<le> c \<and> c \<le> CHR ''Z'') \<or> (CHR ''2'' \<le> c \<and> c \<le> CHR ''7'')"

definition hex_char :: "char \<Rightarrow> bool" where
  "hex_char c \<longleftrightarrow> (CHR ''0'' \<le> c \<and> c \<le> CHR ''9'') \<or> (CHR ''a'' \<le> c \<and> c \<le> CHR ''f'')"

definition symbol_char :: "char \<Rightarrow> bool" where
  "symbol_char c \<longleftrightarrow> (CHR ''A'' \<le> c \<and> c \<le> CHR ''Z'') \<or> (CHR ''0'' \<le> c \<and> c \<le> CHR ''9'')"

text \<open>\<open>^[..][A-Z2-7]{55}$\<close>, \<open>^[A-Z0-9]{2,12}$\<close>, \<open>^[0-9a-f]{64}$\<close>, and \<open>btrim\<close>.\<close>

definition strkey_like :: "char list \<Rightarrow> ident \<Rightarrow> bool" where
  "strkey_like heads a \<longleftrightarrow> (case a of [] \<Rightarrow> False
     | c # cs \<Rightarrow> c \<in> set heads \<and> length cs = 55 \<and> list_all base32_char cs)"

definition symbol_like :: "string \<Rightarrow> bool" where
  "symbol_like s \<longleftrightarrow> 2 \<le> length s \<and> length s \<le> 12 \<and> list_all symbol_char s"

definition hash_like :: "string \<Rightarrow> bool" where
  "hash_like s \<longleftrightarrow> length s = 64 \<and> list_all hex_char s"

definition btrim :: "string \<Rightarrow> string" where
  "btrim s = rev (dropWhile (\<lambda>c. c = CHR '' '') (rev (dropWhile (\<lambda>c. c = CHR '' '') s)))"

definition MAX_FRACTION_SUPPLY :: int where
  "MAX_FRACTION_SUPPLY = 79228162514264337593543950335"

definition amount_or_0 :: "int option \<Rightarrow> int" where
  "amount_or_0 a = (case a of None \<Rightarrow> 0 | Some n \<Rightarrow> n)"

text \<open>The CHECKs of migration 028, the widths of the \<open>varchar\<close> and \<open>int\<close> columns with them.\<close>

definition chk_terms :: "'a fraction_row_scheme \<Rightarrow> bool" where
  "chk_terms f \<longleftrightarrow> 0 \<le> fc_artist_pct f \<and> fc_artist_pct f \<le> 100 \<and> 0 \<le> fc_treasury_pct f \<and> fc_treasury_pct f \<le> 100
     \<and> fc_artist_pct f + fc_treasury_pct f \<le> 100 \<and> 0 < fc_supply f \<and> fc_supply f \<le> MAX_FRACTION_SUPPLY
     \<and> 0 \<le> fc_artist_days f \<and> fc_artist_days f < 2147483648 \<and> 0 \<le> fc_treasury_days f \<and> fc_treasury_days f < 2147483648"

definition chk_text :: "'a fraction_row_scheme \<Rightarrow> bool" where
  "chk_text f \<longleftrightarrow> hash_like (fc_wasm f) \<and> symbol_like (fc_symbol f) \<and> btrim (fc_name f) \<noteq> []
     \<and> length (fc_name f) \<le> 32 \<and> strkey_like ''GC'' (fc_artist_address f)"

definition chk_outcome :: "'a fraction_row_scheme \<Rightarrow> bool" where
  "chk_outcome f \<longleftrightarrow> (case fc_token f of None \<Rightarrow> True | Some a \<Rightarrow> strkey_like ''C'' a)
     \<and> 0 \<le> amount_or_0 (fc_artist_retention f) \<and> 0 \<le> amount_or_0 (fc_treasury_retention f)
     \<and> amount_or_0 (fc_artist_retention f) + amount_or_0 (fc_treasury_retention f) \<le> fc_supply f
     \<and> (fc_status f = FC_deployed \<longrightarrow> fc_token f \<noteq> None \<and> fc_deleted f = None)"

definition chk_fraction :: "'a fraction_row_scheme \<Rightarrow> bool" where
  "chk_fraction f \<longleftrightarrow> chk_terms f \<and> chk_text f \<and> chk_outcome f"

text \<open>\<open>UQ_fraction_contracts_active_per_artwork\<close> is on the active rows.\<close>

definition active_fraction :: "'a fraction_row_scheme \<Rightarrow> bool" where
  "active_fraction f \<longleftrightarrow> fc_status f \<in> {FC_deploying, FC_deployed} \<and> fc_deleted f = None"

section \<open>ArtworkRepository\<close>

definition aw_casStatus ::
  "instant \<Rightarrow> ident \<Rightarrow> artwork_status \<Rightarrow> artwork_status \<Rightarrow> artwork_row list \<Rightarrow> artwork_row list \<times> bool" where
  "aw_casStatus now i source target = cas_rows
     (\<lambda>a. aw_id a = i \<and> aw_status a = source \<and> aw_deleted a = None)
     (\<lambda>a. a\<lparr>aw_status := target, aw_updated := now\<rparr>)"

definition aw_findOneById :: "ident \<Rightarrow> artwork_row list \<Rightarrow> artwork_row option" where
  "aw_findOneById i t = sql_find (\<lambda>a. aw_id a = i \<and> aw_deleted a = None) t"

definition aw_findByIds :: "ident list \<Rightarrow> artwork_row list \<Rightarrow> artwork_row list" where
  "aw_findByIds ids t = (if ids = [] then [] else filter (\<lambda>a. aw_id a \<in> set ids \<and> aw_deleted a = None) t)"

section \<open>FractionContractRepository\<close>

definition fc_findOneById :: "ident \<Rightarrow> fraction_row list \<Rightarrow> fraction_row option" where
  "fc_findOneById i t = sql_find (\<lambda>f. fc_id f = i \<and> fc_deleted f = None) t"

definition fc_findActiveByArtworkId :: "ident \<Rightarrow> fraction_row list \<Rightarrow> fraction_row option" where
  "fc_findActiveByArtworkId artwork t = sql_find (\<lambda>f. fc_artwork f = artwork
     \<and> fc_status f \<in> {FC_deploying, FC_deployed} \<and> fc_deleted f = None) t"

definition fc_findActiveByArtworkIds :: "ident list \<Rightarrow> fraction_row list \<Rightarrow> fraction_row list" where
  "fc_findActiveByArtworkIds ids t = (if ids = [] then [] else filter (\<lambda>f. fc_artwork f \<in> set ids
     \<and> fc_status f \<in> {FC_deploying, FC_deployed} \<and> fc_deleted f = None) t)"

definition fc_findAllDeployed :: "fraction_row list \<Rightarrow> fraction_row list" where
  "fc_findAllDeployed t = filter (\<lambda>f. fc_status f = FC_deployed \<and> fc_deleted f = None) t"

text \<open>Newest first; \<open>findOne\<close> takes the first.\<close>

definition fc_findLatestByArtworkId :: "ident \<Rightarrow> fraction_row list \<Rightarrow> fraction_row option" where
  "fc_findLatestByArtworkId artwork t =
     (case sort_key (\<lambda>f. - fc_created f) (filter (\<lambda>f. fc_artwork f = artwork \<and> fc_deleted f = None) t) of
        [] \<Rightarrow> None | f # _ \<Rightarrow> Some f)"

definition fc_setTxHash :: "instant \<Rightarrow> ident \<Rightarrow> ident \<Rightarrow> fraction_row list \<Rightarrow> fraction_row list" where
  "fc_setTxHash now i txHash t = fst (sql_update (\<lambda>f. fc_id f = i)
     (\<lambda>f. f\<lparr>fc_tx := Some txHash, fc_updated := now\<rparr>) t)"

record deployed_latch =
  dl_token :: ident
  dl_ledger :: "int option"
  dl_artist :: int
  dl_treasury :: int
  dl_lockup :: "int option"

definition deployed_fields :: "instant \<Rightarrow> deployed_latch \<Rightarrow> fraction_row \<Rightarrow> fraction_row" where
  "deployed_fields now l f = f\<lparr>fc_status := FC_deployed, fc_token := Some (dl_token l), fc_ledger := dl_ledger l,
     fc_artist_retention := Some (dl_artist l), fc_treasury_retention := Some (dl_treasury l),
     fc_lockup_until := dl_lockup l, fc_updated := now\<rparr>"

definition fc_casDeployed ::
  "instant \<Rightarrow> ident \<Rightarrow> deployed_latch \<Rightarrow> fraction_row list \<Rightarrow> string + bool \<times> fraction_row list" where
  "fc_casDeployed now i l t =
     (if \<exists>f \<in> set t. fc_id f = i \<and> fc_status f = FC_deploying \<and> \<not> chk_fraction (deployed_fields now l f) then Inl ''23514''
      else case cas_rows (\<lambda>f. fc_id f = i \<and> fc_status f = FC_deploying) (deployed_fields now l) t of
        (t', won) \<Rightarrow> Inr (won, t'))"

definition fc_casFailed :: "instant \<Rightarrow> ident \<Rightarrow> fraction_row list \<Rightarrow> fraction_row list \<times> bool" where
  "fc_casFailed now i = cas_rows (\<lambda>f. fc_id f = i \<and> fc_status f = FC_deploying)
     (\<lambda>f. f\<lparr>fc_status := FC_failed, fc_updated := now\<rparr>)"

definition fc_findStaleDeploying :: "instant \<Rightarrow> int \<Rightarrow> nat \<Rightarrow> fraction_row list \<Rightarrow> fraction_row list" where
  "fc_findStaleDeploying now graceMs limit t = take limit (sort_key fc_created
     (filter (\<lambda>f. fc_status f = FC_deploying \<and> fc_deleted f = None \<and> fc_created f < now - graceMs) t))"

definition UNIQUE_ACTIVE_INDEX :: string where
  "UNIQUE_ACTIVE_INDEX = ''UQ_fraction_contracts_active_per_artwork''"

text \<open>\<open>repo.save\<close> of a new row.\<close>

definition fc_insert :: "fraction_row \<Rightarrow> fraction_row list \<Rightarrow> string + fraction_row list" where
  "fc_insert row t = (if \<not> chk_fraction row then Inl ''23514''
     else if fc_id row \<in> fc_id ` set t then Inl ''PK_fraction_contracts''
     else if active_fraction row \<and> (\<exists>f \<in> set t. active_fraction f \<and> fc_artwork f = fc_artwork row)
       then Inl UNIQUE_ACTIVE_INDEX
     else Inr (t @ [row]))"

section \<open>Table access\<close>

definition fd_record :: "string \<Rightarrow> ident option \<Rightarrow> ident \<Rightarrow> ident \<Rightarrow> fdb \<Rightarrow> fdb" where
  "fd_record kind actor artworkId contractId d = d\<lparr>fd_audit := fd_audit d
     @ [\<lparr>ae_kind = kind, ae_actor = actor, ae_subject = artworkId, fa_contract = contractId\<rparr>]\<rparr>"

definition fd_cas_artwork :: "instant \<Rightarrow> ident \<Rightarrow> artwork_status \<Rightarrow> artwork_status \<Rightarrow> fdb \<Rightarrow> bool \<times> fdb" where
  "fd_cas_artwork now i source target d = (case aw_casStatus now i source target (fd_artworks d) of
     (t, moved) \<Rightarrow> (moved, d\<lparr>fd_artworks := t\<rparr>))"

text \<open>\<open>trg_block_artwork_softdelete_with_live_fc\<close>: whether the soft delete is refused.\<close>

definition softdelete_blocked :: "ident \<Rightarrow> fdb \<Rightarrow> bool" where
  "softdelete_blocked i d \<longleftrightarrow> (\<exists>f \<in> set (fd_rows d). fc_artwork f = i \<and> active_fraction f)"

section \<open>The timeline\<close>

text \<open>
  \<open>emitFractionalizationDeployed\<close>: \<open>ON CONFLICT (source_ref) DO NOTHING\<close>; an error is logged and
  swallowed.
\<close>

definition timeline_insert :: "bool \<Rightarrow> timeline_event \<Rightarrow> fdb \<Rightarrow> fdb" where
  "timeline_insert ok e d = (if \<not> ok \<or> te_ref e \<in> te_ref ` set (fd_timeline d) then d
     else d\<lparr>fd_timeline := fd_timeline d @ [e]\<rparr>)"

definition emitFractionalizationDeployed ::
  "bool \<Rightarrow> ident \<Rightarrow> ident \<Rightarrow> ident \<Rightarrow> int option \<Rightarrow> ident option \<Rightarrow> fdb \<Rightarrow> fdb" where
  "emitFractionalizationDeployed ok artworkId contractId token ledger tx = timeline_insert ok
     \<lparr>te_artwork = artworkId, te_type = ''fractionalization'', te_ref = ''fractionalization:'' @ contractId,
      te_token = token, te_ledger = ledger, te_tx = tx\<rparr>"

lemma fd_record_sel [simp]:
  "fd_artworks (fd_record k a i c d) = fd_artworks d" "fd_rows (fd_record k a i c d) = fd_rows d"
  "fd_timeline (fd_record k a i c d) = fd_timeline d"
  "fd_audit (fd_record k a i c d) = fd_audit d
     @ [\<lparr>ae_kind = k, ae_actor = a, ae_subject = i, fa_contract = c\<rparr>]"
  by (simp_all add: fd_record_def)

lemma fd_cas_artwork_sel [simp]:
  "fst (fd_cas_artwork now i s t d) = snd (aw_casStatus now i s t (fd_artworks d))"
  "fd_artworks (snd (fd_cas_artwork now i s t d)) = fst (aw_casStatus now i s t (fd_artworks d))"
  "fd_rows (snd (fd_cas_artwork now i s t d)) = fd_rows d" "fd_audit (snd (fd_cas_artwork now i s t d)) = fd_audit d"
  "fd_timeline (snd (fd_cas_artwork now i s t d)) = fd_timeline d"
  by (simp_all add: fd_cas_artwork_def split: prod.splits)

lemma timeline_insert_sel [simp]:
  "fd_artworks (timeline_insert ok e d) = fd_artworks d" "fd_rows (timeline_insert ok e d) = fd_rows d"
  "fd_audit (timeline_insert ok e d) = fd_audit d"
  by (simp_all add: timeline_insert_def)

end
