(* ===== verification/Fraction.thy ===== *)
theory Fraction
  imports Fraction_DB Escrow_Service
begin

text \<open>
  Fractionalization of an artwork: the admin request (\<open>backoffice-artworks.service.ts\<close>), the factory
  adapter (\<open>soroban-fraction-factory.service.ts\<close>, \<open>token-init.ts\<close>), the deploy worker and the reconcile
  sweep (\<open>fractionalization/deploy\<close>). The RPC server's answers are the \<open>fraction_rpc\<close> of an attempt;
  \<open>m k\<close> is what other requests do before the \<open>k\<close>-th statement of a worker. Error texts are not kept.
\<close>

section \<open>The request\<close>

record factory_config =
  fg_max_supply :: int
  fg_max_days :: int
  fg_wasm :: string
  fg_timeout :: int
  fg_admin :: ident
  fg_relayer :: ident
  fg_grace :: int
  fg_batch :: nat

record fractionalize_dto =
  fz_supply :: int
  fz_artist_pct :: int
  fz_treasury_pct :: int
  fz_artist_days :: int
  fz_treasury_days :: int
  fz_name :: string
  fz_symbol :: string

text \<open>
  The rules of the DTO; \<open>printable\<close> is \<open>[\p{L}\p{N}]\<close>. \<open>total_supply\<close> is the integer that its decimal
  print denotes.
\<close>

definition name_char :: "(char \<Rightarrow> bool) \<Rightarrow> char \<Rightarrow> bool" where
  "name_char printable c \<longleftrightarrow> printable c \<or> c \<in> set '' .,&:-'' \<or> c = CHR 0x27"

definition fractionalize_dto_ok :: "(char \<Rightarrow> bool) \<Rightarrow> fractionalize_dto \<Rightarrow> bool" where
  "fractionalize_dto_ok printable dto \<longleftrightarrow> 1 \<le> fz_supply dto
     \<and> 0 \<le> fz_artist_pct dto \<and> fz_artist_pct dto \<le> 100 \<and> fz_artist_pct dto + fz_treasury_pct dto \<le> 100
     \<and> 0 \<le> fz_treasury_pct dto \<and> fz_treasury_pct dto \<le> 100 \<and> 0 \<le> fz_artist_days dto \<and> 0 \<le> fz_treasury_days dto
     \<and> 1 \<le> length (fz_name dto) \<and> length (fz_name dto) \<le> 32 \<and> list_all (name_char printable) (fz_name dto)
     \<and> symbol_like (fz_symbol dto)"

fun notFractionalizable :: "artwork_status \<Rightarrow> http_error" where
  "notFractionalizable AW_fractionalized = FailHttp ''ARTWORK_ALREADY_FRACTIONALIZED'' 409"
| "notFractionalizable AW_fractionalizing = FailHttp ''ARTWORK_FRACTIONALIZATION_IN_PROGRESS'' 409"
| "notFractionalizable _ = FailHttp ''ARTWORK_NOT_FRACTIONALIZABLE'' 409"

definition in_progress :: http_error where
  "in_progress = FailHttp ''ARTWORK_FRACTIONALIZATION_IN_PROGRESS'' 409"

definition deploying_row ::
  "instant \<Rightarrow> ident \<Rightarrow> factory_config \<Rightarrow> ident \<Rightarrow> fractionalize_dto \<Rightarrow> ident \<Rightarrow> fraction_row" where
  "deploying_row now fresh cfg artworkId dto artistAddress =
     \<lparr>fc_id = fresh, fc_artwork = artworkId, fc_status = FC_deploying, fc_token = None,
      fc_artist_address = artistAddress, fc_supply = fz_supply dto, fc_artist_retention = None,
      fc_treasury_retention = None, fc_deleted = None, fc_lockup_until = None, fc_wasm = fg_wasm cfg,
      fc_name = fz_name dto, fc_symbol = fz_symbol dto, fc_artist_pct = fz_artist_pct dto,
      fc_treasury_pct = fz_treasury_pct dto, fc_artist_days = fz_artist_days dto,
      fc_treasury_days = fz_treasury_days dto, fc_tx = None, fc_ledger = None, fc_created = now, fc_updated = now\<rparr>"

text \<open>The short transaction; \<open>audit_ok\<close> is whether the audit row is written and the commit succeeds.\<close>

definition fractionalize_txn :: "instant \<Rightarrow> bool \<Rightarrow> ident \<Rightarrow> fraction_row \<Rightarrow> fdb \<Rightarrow> (http_error + fraction_row) \<times> fdb" where
  "fractionalize_txn now audit_ok adminSub row = run_txn (\<lambda>d.
     case fd_cas_artwork now (fc_artwork row) AW_verified AW_fractionalizing d of
       (False, d1) \<Rightarrow> (Inl in_progress, d1)
     | (True, d1) \<Rightarrow> (case fc_insert row (fd_rows d1) of
         Inl code \<Rightarrow> (Inl (if code = UNIQUE_ACTIVE_INDEX then in_progress else InternalError code), d1)
       | Inr t \<Rightarrow> if audit_ok then (Inr row, fd_record ''artwork.fractionalization.requested'' (Some adminSub)
             (fc_artwork row) (fc_id row) (d1\<lparr>fd_rows := t\<rparr>))
           else (Inl (InternalError ''audit''), d1)))"

record request_env =
  rv_now :: instant
  rv_fresh :: ident
  rv_wallets :: wdb
  rv_audit :: bool
  rv_enqueue :: bool

definition fractionalize_work ::
  "factory_config \<Rightarrow> request_env \<Rightarrow> (fdb \<Rightarrow> fdb) \<Rightarrow> ident \<Rightarrow> fractionalize_dto \<Rightarrow> ident \<Rightarrow> fdb
   \<Rightarrow> (http_error + fraction_row) \<times> fdb" where
  "fractionalize_work cfg env m artworkId dto adminSub d =
     (case aw_findOneById artworkId (fd_artworks d) of
        None \<Rightarrow> (Inl (FailHttp ''ARTWORK_NOT_FOUND'' 404), d)
      | Some artwork \<Rightarrow>
          if aw_status artwork \<noteq> AW_verified then (Inl (notFractionalizable (aw_status artwork)), d)
          else (let addr = resolvePrimarySettlementAddress (aw_artist_user artwork) (rv_wallets env) in
            if addr = None \<or> addr = Some [] then (Inl (FailHttp ''ARTIST_NO_PRIMARY_WALLET'' 422), d)
            else (case fractionalize_txn (rv_now env) (rv_audit env) adminSub
                    (deploying_row (rv_now env) (rv_fresh env) cfg artworkId dto (the addr)) (m d) of
                (Inl e, d') \<Rightarrow> (Inl e, d')
              | (Inr row, d') \<Rightarrow> (if rv_enqueue env then Inr row else Inl (InternalError ''queue''), d'))))"

definition fractionalize ::
  "factory_config \<Rightarrow> instant \<Rightarrow> instant \<Rightarrow> bool \<Rightarrow> string \<Rightarrow> (ident \<times> bool) list \<Rightarrow> request_env \<Rightarrow> (fdb \<Rightarrow> fdb)
   \<Rightarrow> ident \<Rightarrow> fractionalize_dto \<Rightarrow> ident \<Rightarrow> string \<Rightarrow> fraction_row redis \<times> fdb
   \<Rightarrow> (http_error + fraction_row option) \<times> fraction_row redis \<times> fdb" where
  "fractionalize cfg t1 t2 up fp atts env m artworkId dto adminSub idempotencyKey sd =
     (case sd of (s, d) \<Rightarrow>
      if fz_supply dto > fg_max_supply cfg then (Inl (FailHttp ''VALIDATION_FAILED'' 422), s, d)
      else if fz_artist_days dto > fg_max_days cfg \<or> fz_treasury_days dto > fg_max_days cfg
        then (Inl (FailHttp ''VALIDATION_FAILED'' 422), s, d)
      else handle t1 t2 up (''idem:fractionalize:'' @ adminSub @ '':'' @ idempotencyKey) fp atts
             (fractionalize_work cfg env m artworkId dto adminSub) (s, d))"

section \<open>Reads\<close>

definition getStatus :: "ident \<Rightarrow> fdb \<Rightarrow> http_error + fraction_row" where
  "getStatus artworkId d = (case fc_findLatestByArtworkId artworkId (fd_rows d) of
     None \<Rightarrow> Inl (FailHttp ''ARTWORK_NOT_FOUND'' 404) | Some f \<Rightarrow> Inr f)"

definition DEFAULT_ARTWORK_LIST_STATUSES :: "artwork_status list" where
  "DEFAULT_ARTWORK_LIST_STATUSES = [AW_verified, AW_fractionalizing, AW_fractionalized]"

text \<open>The page, and each artwork's active contract: the \<open>Map\<close> keeps the last row of a key.\<close>

definition listArtworks ::
  "artwork_status list \<Rightarrow> nat \<Rightarrow> nat \<Rightarrow> fdb \<Rightarrow> fdb \<Rightarrow> (artwork_row \<times> fraction_row option) list \<times> nat" where
  "listArtworks statuses page limit d d' =
     (let wanted = (if statuses = [] then DEFAULT_ARTWORK_LIST_STATUSES else statuses);
          matching = filter (\<lambda>a. aw_status a \<in> set wanted \<and> aw_deleted a = None) (fd_artworks d);
          artworks = take limit (drop ((page - 1) * limit) (sort_key (\<lambda>a. - aw_created a) matching));
          active = fc_findActiveByArtworkIds (map aw_id artworks) (fd_rows d')
      in (map (\<lambda>a. (a, map_of (rev (map (\<lambda>c. (fc_artwork c, c)) active)) (aw_id a))) artworks, length matching))"

definition getArtwork ::
  "ident \<Rightarrow> fdb \<Rightarrow> fdb \<Rightarrow> offering list \<Rightarrow> http_error + artwork_row \<times> fraction_row option \<times> offering option" where
  "getArtwork artworkId d d' offs = (case aw_findOneById artworkId (fd_artworks d) of
     None \<Rightarrow> Inl (FailHttp ''ARTWORK_NOT_FOUND'' 404)
   | Some a \<Rightarrow> Inr (a, fc_findActiveByArtworkId artworkId (fd_rows d'), findActiveByArtworkId artworkId offs))"

record offering_preview =
  op_float :: int
  op_supply :: int
  op_artist :: int
  op_treasury :: int
  op_raise :: "(int \<times> int) option"

definition preview_build :: "offerable \<Rightarrow> (int \<times> int) option \<Rightarrow> offering_preview" where
  "preview_build r band = \<lparr>op_float = ob_float r, op_supply = ob_supply r, op_artist = ob_artist r,
     op_treasury = ob_treasury r, op_raise = map_option (\<lambda>(low, high). (low * ob_float r, high * ob_float r)) band\<rparr>"

definition offeringPreview ::
  "ident \<Rightarrow> (string \<times> string) option \<Rightarrow> fdb \<Rightarrow> fdb \<Rightarrow> http_error + offering_preview" where
  "offeringPreview artworkId band d d' =
     bindE (case band of None \<Rightarrow> Inr None | Some (low, high) \<Rightarrow> bindE (assertBandValid low high) (\<lambda>b. Inr (Some b))) (\<lambda>b.
     case aw_findOneById artworkId (fd_artworks d) of
       None \<Rightarrow> Inl (FailHttp ''ARTWORK_NOT_FOUND'' 404)
     | Some _ \<Rightarrow> bindE (resolveOfferableFloat (map_option fraction_contract.truncate
           (fc_findActiveByArtworkId artworkId (fd_rows d')))) (\<lambda>r. Inr (preview_build r b)))"

section \<open>The terms of a token\<close>

record token_init =
  ti_artwork :: ident
  ti_name :: string
  ti_symbol :: string
  ti_artist :: ident
  ti_artist_amount :: int
  ti_treasury_amount :: int
  ti_artist_until :: int
  ti_treasury_until :: int

definition computeRetentionAmount :: "int \<Rightarrow> int \<Rightarrow> int" where
  "computeRetentionAmount totalSupply pct = (totalSupply * pct) sdiv 100"

definition computeLockupUntil :: "int \<Rightarrow> int \<Rightarrow> int" where
  "computeLockupUntil deployTsSeconds days = deployTsSeconds + days * 86400"

definition token_init_of :: "int \<Rightarrow> fraction_row \<Rightarrow> token_init" where
  "token_init_of deployTs row =
     \<lparr>ti_artwork = fc_artwork row, ti_name = fc_name row, ti_symbol = fc_symbol row,
      ti_artist = fc_artist_address row,
      ti_artist_amount = computeRetentionAmount (fc_supply row) (fc_artist_pct row),
      ti_treasury_amount = computeRetentionAmount (fc_supply row) (fc_treasury_pct row),
      ti_artist_until = computeLockupUntil deployTs (fc_artist_days row),
      ti_treasury_until = computeLockupUntil deployTs (fc_treasury_days row)\<rparr>"

section \<open>The factory adapter\<close>

datatype factory_throw = FT_throttled | FT_sequence | FT_other

fun rpcF :: "'a rpc \<Rightarrow> factory_throw + 'a" where
  "rpcF (Rpc x) = Inr x"
| "rpcF RpcError = Inl FT_other"

datatype registry_sim = Reg_unavailable | Reg_void | Reg_other | Reg_address ident

datatype auth_credential = Cred_source | Cred_address ident

datatype deploy_sim = Dsim_error | Dsim_ok "auth_credential list"

datatype fraction_tx_status = FTx_not_found | FTx_success "ident option" int | FTx_failed

text \<open>\<open>fr_derived\<close> is the deterministic address, \<open>fr_hash\<close> the hash of the signed transaction.\<close>

record fraction_rpc =
  fr_read_account :: "unit rpc"
  fr_registry :: "registry_sim rpc"
  fr_derived :: ident
  fr_lock :: bool
  fr_account :: "unit rpc"
  fr_sim :: "deploy_sim rpc"
  fr_ledger :: "unit rpc"
  fr_hash :: ident
  fr_send :: "send_status rpc"
  fr_start :: instant
  fr_clock :: "nat \<Rightarrow> instant"
  fr_get :: "nat \<Rightarrow> fraction_tx_status rpc"

text \<open>Every failure of the registry read is retried.\<close>

definition tokenOf :: "unit rpc \<Rightarrow> registry_sim rpc \<Rightarrow> factory_throw + ident option" where
  "tokenOf account sim = (case (account, sim) of
     (RpcError, _) \<Rightarrow> Inl FT_throttled
   | (_, RpcError) \<Rightarrow> Inl FT_throttled
   | (_, Rpc Reg_unavailable) \<Rightarrow> Inl FT_throttled
   | (_, Rpc (Reg_address a)) \<Rightarrow> Inr (Some a)
   | _ \<Rightarrow> Inr None)"

definition signAdminEntry :: "ident \<Rightarrow> auth_credential \<Rightarrow> bool" where
  "signAdminEntry admin c = (case c of Cred_source \<Rightarrow> False | Cred_address a \<Rightarrow> a = admin)"

text \<open>\<open>buildSignAndSend\<close> up to the signed envelope, then \<open>onTxHash\<close>, then the send.\<close>

definition build_and_sign :: "factory_config \<Rightarrow> fraction_rpc \<Rightarrow> factory_throw + ident" where
  "build_and_sign cfg r =
     bindE (rpcF (fr_account r)) (\<lambda>_.
     bindE (rpcF (fr_sim r)) (\<lambda>sim. case sim of
         Dsim_error \<Rightarrow> Inl FT_other
       | Dsim_ok rawAuth \<Rightarrow>
           bindE (rpcF (fr_ledger r)) (\<lambda>_.
           bindE (guardE (\<not> (fg_admin cfg \<noteq> fg_relayer cfg \<and> filter (signAdminEntry (fg_admin cfg)) rawAuth = []))
                   FT_other) (\<lambda>_. Inr (fr_hash r)))))"

fun factory_send :: "send_status \<Rightarrow> factory_throw + ident" where
  "factory_send (Send_pending h) = Inr h"
| "factory_send (Send_duplicate h) = Inr h"
| "factory_send Send_try_again_later = Inl FT_throttled"
| "factory_send (Send_error seq) = Inl (if seq then FT_sequence else FT_other)"

definition buildSignAndSend ::
  "factory_config \<Rightarrow> fraction_rpc \<Rightarrow> (ident \<Rightarrow> 'd \<Rightarrow> bool \<times> 'd) \<Rightarrow> 'd \<Rightarrow> (factory_throw + ident) \<times> 'd" where
  "buildSignAndSend cfg r onTxHash d = (case build_and_sign cfg r of
     Inl e \<Rightarrow> (Inl e, d)
   | Inr h \<Rightarrow> (case onTxHash h d of
       (False, d') \<Rightarrow> (Inl FT_other, d')
     | (True, d') \<Rightarrow> (bindE (rpcF (fr_send r)) factory_send, d')))"

text \<open>\<open>pollForResult\<close>: the n-th \<open>getTransaction\<close> against the deadline.\<close>

partial_function (option) poll_result ::
  "fraction_rpc \<Rightarrow> instant \<Rightarrow> nat \<Rightarrow> (factory_throw + ident option \<times> int) option" where
  "poll_result r deadline n = (case fr_get r n of
     RpcError \<Rightarrow> Some (Inl FT_other)
   | Rpc FTx_not_found \<Rightarrow> if fr_clock r n \<ge> deadline then Some (Inl FT_throttled) else poll_result r deadline (Suc n)
   | Rpc (FTx_success ret ledger) \<Rightarrow> Some (Inr (ret, ledger))
   | Rpc FTx_failed \<Rightarrow> Some (Inl FT_other))"

text \<open>Result: the address and, unless the registry already had the token, the ledger.\<close>

definition deployFractionToken ::
  "factory_config \<Rightarrow> fraction_rpc \<Rightarrow> (ident \<Rightarrow> 'd \<Rightarrow> bool \<times> 'd) \<Rightarrow> 'd
   \<Rightarrow> ((factory_throw + ident \<times> int option) \<times> 'd) option" where
  "deployFractionToken cfg r onTxHash d = (case tokenOf (fr_read_account r) (fr_registry r) of
     Inl e \<Rightarrow> Some (Inl e, d)
   | Inr (Some existing) \<Rightarrow> Some (Inr (existing, None), d)
   | Inr None \<Rightarrow> if \<not> fr_lock r then Some (Inl FT_other, d)
       else (case buildSignAndSend cfg r onTxHash d of
         (Inl e, d') \<Rightarrow> Some (Inl e, d')
       | (Inr h, d') \<Rightarrow> map_option
           (\<lambda>x. (bindE x (\<lambda>(ret, ledger). Inr (case ret of Some a \<Rightarrow> a | None \<Rightarrow> fr_derived r, Some ledger)), d'))
           (poll_result r (fr_start r + fg_timeout cfg) 0)))"

section \<open>The deploy worker\<close>

definition latchDeployed ::
  "instant \<Rightarrow> bool \<Rightarrow> ident \<Rightarrow> ident \<Rightarrow> deployed_latch \<Rightarrow> fdb \<Rightarrow> (factory_throw + bool) \<times> fdb" where
  "latchDeployed now ok contractId artworkId l = run_txn (\<lambda>d.
     if \<not> ok then (Inl FT_other, d)
     else case fc_casDeployed now contractId l (fd_rows d) of
       Inl _ \<Rightarrow> (Inl FT_other, d)
     | Inr (False, t) \<Rightarrow> (Inr False, d\<lparr>fd_rows := t\<rparr>)
     | Inr (True, t) \<Rightarrow> (Inr True, fd_record ''artwork.fractionalization.deployed'' None artworkId contractId
         (snd (fd_cas_artwork now artworkId AW_fractionalizing AW_fractionalized (d\<lparr>fd_rows := t\<rparr>)))))"

definition latchFailed :: "instant \<Rightarrow> bool \<Rightarrow> ident \<Rightarrow> ident \<Rightarrow> fdb \<Rightarrow> (factory_throw + bool) \<times> fdb" where
  "latchFailed now ok contractId artworkId = run_txn (\<lambda>d.
     if \<not> ok then (Inl FT_other, d)
     else case fc_casFailed now contractId (fd_rows d) of
       (t, False) \<Rightarrow> (Inr False, d\<lparr>fd_rows := t\<rparr>)
     | (t, True) \<Rightarrow> (Inr True, fd_record ''artwork.fractionalization.failed'' None artworkId contractId
         (snd (fd_cas_artwork now artworkId AW_fractionalizing AW_verified (d\<lparr>fd_rows := t\<rparr>)))))"

record deploy_env =
  dv_now :: "nat \<Rightarrow> instant"
  dv_rpc :: fraction_rpc
  dv_hash_ok :: bool
  dv_latch_ok :: bool
  dv_fail_ok :: bool
  dv_emit_ok :: bool

definition transient_throw :: "factory_throw \<Rightarrow> bool" where
  "transient_throw e \<longleftrightarrow> e = FT_throttled \<or> e = FT_sequence"

definition save_hash :: "instant \<Rightarrow> bool \<Rightarrow> (fdb \<Rightarrow> fdb) \<Rightarrow> ident \<Rightarrow> ident \<Rightarrow> fdb \<Rightarrow> bool \<times> fdb" where
  "save_hash now ok m contractId h d =
     (ok, if ok then (m d)\<lparr>fd_rows := fc_setTxHash now contractId h (fd_rows (m d))\<rparr> else m d)"

definition worker_latch :: "int \<Rightarrow> fraction_row \<Rightarrow> ident \<Rightarrow> int option \<Rightarrow> deployed_latch" where
  "worker_latch deployTs row token ledger =
     \<lparr>dl_token = token, dl_ledger = ledger,
      dl_artist = computeRetentionAmount (fc_supply row) (fc_artist_pct row),
      dl_treasury = computeRetentionAmount (fc_supply row) (fc_treasury_pct row),
      dl_lockup = Some (computeLockupUntil deployTs (fc_artist_days row))\<rparr>"

text \<open>The \<open>catch\<close> of the worker.\<close>

definition deploy_failed ::
  "deploy_env \<Rightarrow> (fdb \<Rightarrow> fdb) \<Rightarrow> fraction_row \<Rightarrow> factory_throw \<Rightarrow> fdb \<Rightarrow> job_outcome \<times> fdb" where
  "deploy_failed env m row e d =
     (if transient_throw e then (JobRetry, d)
      else case latchFailed (dv_now env 3) (dv_fail_ok env) (fc_id row) (fc_artwork row) (m d) of
        (Inl _, d') \<Rightarrow> (JobRetry, d')
      | (Inr _, d') \<Rightarrow> (JobUnrecoverable, d'))"

definition deploy_row ::
  "factory_config \<Rightarrow> deploy_env \<Rightarrow> (nat \<Rightarrow> fdb \<Rightarrow> fdb) \<Rightarrow> fraction_row \<Rightarrow> fdb \<Rightarrow> (job_outcome \<times> fdb) option" where
  "deploy_row cfg env m row d =
     (let deployTs = dv_now env 0 div 1000 in
      map_option (\<lambda>(res, d1). case res of
          Inl e \<Rightarrow> deploy_failed env (m 3) row e d1
        | Inr (token, ledger) \<Rightarrow>
            (case latchDeployed (dv_now env 2) (dv_latch_ok env) (fc_id row) (fc_artwork row)
                    (worker_latch deployTs row token ledger) (m 2 d1) of
               (Inl e, d2) \<Rightarrow> deploy_failed env (m 3) row e d2
             | (Inr _, d2) \<Rightarrow> (JobDone, emitFractionalizationDeployed (dv_emit_ok env) (fc_artwork row) (fc_id row)
                   token ledger (if ledger = None then None else Some (fr_hash (dv_rpc env))) (m 4 d2))))
        (deployFractionToken cfg (dv_rpc env)
          (save_hash (dv_now env 1) (dv_hash_ok env) (m 1) (fc_id row)) d))"

definition fraction_deploy_process ::
  "factory_config \<Rightarrow> deploy_env \<Rightarrow> (nat \<Rightarrow> fdb \<Rightarrow> fdb) \<Rightarrow> ident \<Rightarrow> fdb \<Rightarrow> (job_outcome \<times> fdb) option" where
  "fraction_deploy_process cfg env m contractId d = (case fc_findOneById contractId (fd_rows d) of
     None \<Rightarrow> Some (JobDone, d)
   | Some row \<Rightarrow> if fc_status row \<noteq> FC_deploying then Some (JobDone, d) else deploy_row cfg env m row d)"

section \<open>The reconcile sweep\<close>

definition READ_CHUNK :: nat where
  "READ_CHUNK = 5"

text \<open>\<open>Promise.all\<close> over one chunk keeps its order; a failed read is skipped.\<close>

definition read_chunk :: "(ident \<Rightarrow> factory_throw + ident option) \<Rightarrow> fraction_row list \<Rightarrow> (fraction_row \<times> ident) list" where
  "read_chunk reads chunk = concat (map (\<lambda>row. case reads (fc_artwork row) of
     Inr (Some a) \<Rightarrow> [(row, a)] | _ \<Rightarrow> []) chunk)"

function resolve_chunks :: "(ident \<Rightarrow> factory_throw + ident option) \<Rightarrow> fraction_row list \<Rightarrow> (fraction_row \<times> ident) list" where
  "resolve_chunks reads stale = (if stale = [] then []
     else read_chunk reads (take READ_CHUNK stale) @ resolve_chunks reads (drop READ_CHUNK stale))"
  by auto
termination by (relation "measure (\<lambda>(reads, stale). length stale)") (auto simp: READ_CHUNK_def)

declare resolve_chunks.simps [simp del]

definition reconcile_latch :: "fraction_row \<Rightarrow> ident \<Rightarrow> deployed_latch" where
  "reconcile_latch row token =
     \<lparr>dl_token = token, dl_ledger = None,
      dl_artist = computeRetentionAmount (fc_supply row) (fc_artist_pct row),
      dl_treasury = computeRetentionAmount (fc_supply row) (fc_treasury_pct row), dl_lockup = None\<rparr>"

text \<open>One transaction per row, in order; a database error ends the tick. Result: the promoted count.\<close>

fun promote_all ::
  "instant \<Rightarrow> (ident \<Rightarrow> bool) \<Rightarrow> (ident \<Rightarrow> fdb \<Rightarrow> fdb) \<Rightarrow> (fraction_row \<times> ident) list \<Rightarrow> nat \<Rightarrow> fdb
   \<Rightarrow> (factory_throw + nat) \<times> fdb" where
  "promote_all now ok m [] n d = (Inr n, d)"
| "promote_all now ok m ((row, token) # rs) n d =
     (case latchDeployed now (ok (fc_id row)) (fc_id row) (fc_artwork row) (reconcile_latch row token) (m (fc_id row) d) of
        (Inl e, d') \<Rightarrow> (Inl e, d')
      | (Inr won, d') \<Rightarrow> promote_all now ok m rs (if won then Suc n else n) d')"

definition fraction_reconcile_process ::
  "factory_config \<Rightarrow> instant \<Rightarrow> (ident \<Rightarrow> factory_throw + ident option) \<Rightarrow> (ident \<Rightarrow> bool) \<Rightarrow> (ident \<Rightarrow> fdb \<Rightarrow> fdb) \<Rightarrow> fdb
   \<Rightarrow> (factory_throw + nat) \<times> fdb" where
  "fraction_reconcile_process cfg now reads ok m d =
     promote_all now ok m (resolve_chunks reads (fc_findStaleDeploying now (fg_grace cfg) (fg_batch cfg) (fd_rows d))) 0 d"

end
