(* ===== verification/Fraction_Machine.thy ===== *)
theory Fraction_Machine
  imports Fraction
begin

text \<open>
  The two tables of a fractionalization as a machine: one step is one transaction or statement of a
  handler with arbitrary arguments, so its runs are all interleavings of requests, workers and
  sweeps. \<open>fraction_ok\<close> is what every run keeps, \<open>fraction_moves\<close> how a row may change.
\<close>

section \<open>Steps\<close>

text \<open>A row the handlers insert: a fresh attempt.\<close>

definition new_attempt :: "fraction_row \<Rightarrow> bool" where
  "new_attempt f \<longleftrightarrow> fc_status f = FC_deploying \<and> fc_token f = None \<and> fc_deleted f = None
     \<and> fc_artist_retention f = None \<and> fc_treasury_retention f = None \<and> fc_lockup_until f = None"

text \<open>A latch with the amounts of the row it is for.\<close>

definition latch_for :: "fraction_row \<Rightarrow> deployed_latch \<Rightarrow> bool" where
  "latch_for f l \<longleftrightarrow> dl_artist l = computeRetentionAmount (fc_supply f) (fc_artist_pct f)
     \<and> dl_treasury l = computeRetentionAmount (fc_supply f) (fc_treasury_pct f)"

text \<open>The terms of an attempt, which no statement changes.\<close>

definition same_terms :: "fraction_row \<Rightarrow> fraction_row \<Rightarrow> bool" where
  "same_terms f g \<longleftrightarrow> fc_id g = fc_id f \<and> fc_artwork g = fc_artwork f \<and> fc_artist_address g = fc_artist_address f
     \<and> fc_supply g = fc_supply f \<and> fc_artist_pct g = fc_artist_pct f \<and> fc_treasury_pct g = fc_treasury_pct f
     \<and> fc_artist_days g = fc_artist_days f \<and> fc_treasury_days g = fc_treasury_days f
     \<and> fc_name g = fc_name f \<and> fc_symbol g = fc_symbol f \<and> fc_wasm g = fc_wasm f \<and> fc_created g = fc_created f"

text \<open>A row held in memory: one that was loaded earlier.\<close>

definition known_row :: "fraction_row \<Rightarrow> fdb \<Rightarrow> bool" where
  "known_row f d \<longleftrightarrow> (\<exists>g \<in> set (fd_rows d). same_terms f g)"

text \<open>
  \<open>artwork_added\<close> is a catalogue row from outside the module; \<open>artwork_deleted\<close> a soft delete that the
  trigger lets through.
\<close>

inductive fraction_step :: "fdb \<Rightarrow> fdb \<Rightarrow> bool" where
  request: "new_attempt row \<Longrightarrow> fraction_step d (snd (fractionalize_txn now ok sub row d))"
| tx_hash: "fraction_step d (d\<lparr>fd_rows := fc_setTxHash now i h (fd_rows d)\<rparr>)"
| deployed: "known_row f d \<Longrightarrow> latch_for f l
    \<Longrightarrow> fraction_step d (snd (latchDeployed now ok (fc_id f) (fc_artwork f) l d))"
| failed: "known_row f d \<Longrightarrow> fraction_step d (snd (latchFailed now ok (fc_id f) (fc_artwork f) d))"
| emit: "fraction_step d (timeline_insert ok e d)"
| artwork_added: "aw_status a \<in> {AW_verified, AW_published} \<Longrightarrow> aw_id a \<notin> aw_id ` set (fd_artworks d)
    \<Longrightarrow> fraction_step d (d\<lparr>fd_artworks := fd_artworks d @ [a]\<rparr>)"
| artwork_deleted: "\<not> softdelete_blocked i d
    \<Longrightarrow> fraction_step d (d\<lparr>fd_artworks := fst (sql_update (\<lambda>a. aw_id a = i \<and> aw_deleted a = None)
          (\<lambda>a. a\<lparr>aw_deleted := Some now\<rparr>) (fd_artworks d))\<rparr>)"

abbreviation fraction_steps :: "fdb \<Rightarrow> fdb \<Rightarrow> bool" where
  "fraction_steps \<equiv> fraction_step\<^sup>*\<^sup>*"

definition catalogue :: "artwork_row list \<Rightarrow> fdb" where
  "catalogue t = \<lparr>fd_artworks = t, fd_rows = [], fd_audit = [], fd_timeline = []\<rparr>"

definition fresh_catalogue :: "artwork_row list \<Rightarrow> bool" where
  "fresh_catalogue t \<longleftrightarrow> distinct (map aw_id t) \<and> list_all (\<lambda>a. aw_status a \<in> {AW_verified, AW_published}) t"

section \<open>What holds in every state\<close>

definition attempt_of :: "ident \<Rightarrow> contract_status \<Rightarrow> fraction_row list \<Rightarrow> bool" where
  "attempt_of artwork s t \<longleftrightarrow> (\<exists>f \<in> set t. fc_artwork f = artwork \<and> fc_status f = s)"

text \<open>The artwork's status is the derived latch of its rows.\<close>

definition mirrors :: "artwork_row \<Rightarrow> fraction_row list \<Rightarrow> bool" where
  "mirrors a t \<longleftrightarrow> (aw_status a = AW_fractionalizing) = attempt_of (aw_id a) FC_deploying t
     \<and> (aw_status a = AW_fractionalized) = attempt_of (aw_id a) FC_deployed t
     \<and> (aw_deleted a \<noteq> None \<longrightarrow> aw_status a \<in> {AW_verified, AW_published})"

definition one_active :: "fraction_row list \<Rightarrow> bool" where
  "one_active t \<longleftrightarrow> (\<forall>f \<in> set t. \<forall>g \<in> set t. active_fraction f \<longrightarrow> active_fraction g
     \<longrightarrow> fc_artwork f = fc_artwork g \<longrightarrow> f = g)"

text \<open>What a row has recorded at the end of its life.\<close>

definition outcome_ok :: "fraction_row \<Rightarrow> bool" where
  "outcome_ok f \<longleftrightarrow> fc_deleted f = None
     \<and> (fc_status f = FC_deployed \<longrightarrow> fc_token f \<noteq> None
        \<and> fc_artist_retention f = Some (computeRetentionAmount (fc_supply f) (fc_artist_pct f))
        \<and> fc_treasury_retention f = Some (computeRetentionAmount (fc_supply f) (fc_treasury_pct f)))
     \<and> (fc_status f \<noteq> FC_deployed \<longrightarrow> fc_token f = None \<and> fc_artist_retention f = None
        \<and> fc_treasury_retention f = None \<and> fc_lockup_until f = None)"

definition trail_of_status :: "contract_status \<Rightarrow> string list" where
  "trail_of_status s = (case s of
     FC_deploying \<Rightarrow> [''artwork.fractionalization.requested'']
   | FC_deployed \<Rightarrow> [''artwork.fractionalization.requested'', ''artwork.fractionalization.deployed'']
   | FC_failed \<Rightarrow> [''artwork.fractionalization.requested'', ''artwork.fractionalization.failed''])"

definition trail :: "fraction_audit list \<Rightarrow> ident \<Rightarrow> string list" where
  "trail t i = map ae_kind (filter (\<lambda>e. fa_contract e = i) t)"

definition audited :: "fraction_row list \<Rightarrow> fraction_audit list \<Rightarrow> bool" where
  "audited t es \<longleftrightarrow> (\<forall>f \<in> set t. trail es (fc_id f) = trail_of_status (fc_status f))
     \<and> (\<forall>e \<in> set es. \<exists>f \<in> set t. fc_id f = fa_contract e \<and> fc_artwork f = ae_subject e)"

definition rows_ok :: "fraction_row list \<Rightarrow> bool" where
  "rows_ok t \<longleftrightarrow> distinct (map fc_id t) \<and> (\<forall>f \<in> set t. chk_fraction f \<and> outcome_ok f) \<and> one_active t"

definition artworks_ok :: "artwork_row list \<Rightarrow> fraction_row list \<Rightarrow> bool" where
  "artworks_ok as t \<longleftrightarrow> distinct (map aw_id as) \<and> (\<forall>a \<in> set as. mirrors a t) \<and> fc_artwork ` set t \<subseteq> aw_id ` set as"

definition fraction_ok :: "fdb \<Rightarrow> bool" where
  "fraction_ok d \<longleftrightarrow> rows_ok (fd_rows d) \<and> artworks_ok (fd_artworks d) (fd_rows d) \<and> audited (fd_rows d) (fd_audit d)"

section \<open>What a run never changes\<close>

definition fraction_moves :: "fraction_row \<Rightarrow> fraction_row \<Rightarrow> bool" where
  "fraction_moves f g \<longleftrightarrow> same_terms f g \<and> (fc_status f \<noteq> FC_deploying \<longrightarrow> fc_status g = fc_status f
     \<and> fc_token g = fc_token f \<and> fc_artist_retention g = fc_artist_retention f
     \<and> fc_treasury_retention g = fc_treasury_retention f \<and> fc_lockup_until g = fc_lockup_until f)"

definition artwork_moves :: "artwork_row \<Rightarrow> artwork_row \<Rightarrow> bool" where
  "artwork_moves a b \<longleftrightarrow> aw_id b = aw_id a \<and> (aw_status a = AW_fractionalized \<longrightarrow> aw_status b = AW_fractionalized)
     \<and> (aw_deleted a \<noteq> None \<longrightarrow> aw_deleted b = aw_deleted a)"

definition tables_move :: "fdb \<Rightarrow> fdb \<Rightarrow> bool" where
  "tables_move d d' \<longleftrightarrow> rows_move fraction_moves (fd_rows d) (fd_rows d')
     \<and> rows_move artwork_moves (fd_artworks d) (fd_artworks d') \<and> rows_move (=) (fd_audit d) (fd_audit d')"

lemma fraction_moves_refl [simp]: "fraction_moves f f" "artwork_moves a a" "same_terms f f"
  by (simp_all add: fraction_moves_def artwork_moves_def same_terms_def)

lemma fraction_moves_trans:
  "fraction_moves f g \<Longrightarrow> fraction_moves g h \<Longrightarrow> fraction_moves f h"
  "artwork_moves a b \<Longrightarrow> artwork_moves b c \<Longrightarrow> artwork_moves a c"
  "same_terms f g \<Longrightarrow> same_terms g h \<Longrightarrow> same_terms f h"
  by (auto simp: fraction_moves_def artwork_moves_def same_terms_def)

lemma tables_move_refl: "tables_move d d"
  by (simp add: tables_move_def rows_move_refl)

lemma tables_move_trans:
  assumes "tables_move d e" "tables_move e f"
  shows "tables_move d f"
  using assms unfolding tables_move_def
  by (intro conjI) (rule rows_move_trans; auto intro: fraction_moves_trans)+

lemma rows_okD:
  assumes "rows_ok t" "f \<in> set t"
  shows "chk_fraction f" "outcome_ok f" "g \<in> set t \<Longrightarrow> fc_id g = fc_id f \<Longrightarrow> g = f"
    "g \<in> set t \<Longrightarrow> active_fraction f \<Longrightarrow> active_fraction g \<Longrightarrow> fc_artwork f = fc_artwork g \<Longrightarrow> f = g"
  using assms by (auto simp: rows_ok_def one_active_def distinct_map inj_on_def)

lemma active_status: "outcome_ok f \<Longrightarrow> active_fraction f \<longleftrightarrow> fc_status f \<noteq> FC_failed"
  by (cases "fc_status f") (auto simp: outcome_ok_def active_fraction_def)

lemma known_rowD:
  assumes "known_row f d"
  obtains g where "g \<in> set (fd_rows d)" "same_terms f g" "fc_id g = fc_id f" "fc_artwork g = fc_artwork f"
  using assms by (auto simp: known_row_def same_terms_def)

end
