(* ===== verification/Fraction_Props.thy ===== *)
theory Fraction_Props
  imports Fraction_Machine
begin

text \<open>Every step of the fractionalization machine keeps \<open>fraction_ok\<close> and moves rows along \<open>tables_move\<close>.\<close>

section \<open>Amounts\<close>

lemma retention_bounds:
  assumes "0 < s" "0 \<le> p" "0 \<le> q" "p + q \<le> 100"
  shows "0 \<le> computeRetentionAmount s p" "computeRetentionAmount s p + computeRetentionAmount s q \<le> s"
proof -
  have sd: "computeRetentionAmount s x = (s * x) div 100" if "0 \<le> x" for x
    using assms(1) that by (simp add: computeRetentionAmount_def signed_divide_int_def sgn_if)
  show "0 \<le> computeRetentionAmount s p" using assms sd [of p] by (simp add: pos_imp_zdiv_nonneg_iff)
  have "(s * p) div 100 + (s * q) div 100 \<le> (s * p + s * q) div 100" by linarith
  also have "\<dots> = (s * (p + q)) div 100" by (simp add: algebra_simps)
  also have "\<dots> \<le> (s * 100) div 100" using assms by (intro zdiv_mono1) (auto intro: mult_left_mono)
  finally show "computeRetentionAmount s p + computeRetentionAmount s q \<le> s" using assms sd by simp
qed

text \<open>A latch of the row's own amounts violates no CHECK unless the address is malformed.\<close>

lemma deployed_fields_chk:
  assumes "chk_fraction f" "outcome_ok f" "latch_for f l" "strkey_like ''C'' (dl_token l)"
  shows "chk_fraction (deployed_fields now l f)"
  using assms retention_bounds [of "fc_supply f" "fc_artist_pct f" "fc_treasury_pct f"]
    retention_bounds(1) [of "fc_supply f" "fc_treasury_pct f" "fc_artist_pct f"]
  by (simp add: chk_fraction_def chk_terms_def chk_text_def chk_outcome_def deployed_fields_def latch_for_def
      amount_or_0_def outcome_ok_def)

lemma deployed_fields_sel [simp]:
  "fc_id (deployed_fields now l f) = fc_id f" "fc_artwork (deployed_fields now l f) = fc_artwork f"
  "fc_status (deployed_fields now l f) = FC_deployed" "fc_token (deployed_fields now l f) = Some (dl_token l)"
  "fc_deleted (deployed_fields now l f) = fc_deleted f" "same_terms f (deployed_fields now l f)"
  by (simp_all add: deployed_fields_def same_terms_def)

lemma deployed_fields_outcome:
  "outcome_ok f \<Longrightarrow> latch_for f l \<Longrightarrow> outcome_ok (deployed_fields now l f)"
  by (simp add: outcome_ok_def deployed_fields_def latch_for_def)

lemma latch_for_terms: "same_terms f g \<Longrightarrow> latch_for f l \<Longrightarrow> latch_for g l"
  by (simp add: same_terms_def latch_for_def)

section \<open>Replacing one row\<close>

definition put :: "fraction_row \<Rightarrow> fraction_row \<Rightarrow> fraction_row list \<Rightarrow> fraction_row list" where
  "put f f' = map (\<lambda>g. if g = f then f' else g)"

lemma set_put: "f \<in> set t \<Longrightarrow> set (put f f' t) = insert f' (set t - {f})"
  by (auto simp: put_def)

lemma cas_is_put:
  assumes "rows_ok t" "f \<in> set t" "fc_status f = FC_deploying" "fc_id f = i"
  shows "map (\<lambda>g. if fc_id g = i \<and> fc_status g = FC_deploying then u g else g) t = put f (u f) t"
proof -
  have "(fc_id g = i \<and> fc_status g = FC_deploying) = (g = f)" if "g \<in> set t" for g
    using rows_okD(3) [OF assms(1,2) that] assms(3,4) by auto
  then show ?thesis unfolding put_def by (intro map_cong) simp_all
qed

lemma put_rows_ok:
  assumes "rows_ok t" "f \<in> set t" "fc_id f' = fc_id f" "fc_artwork f' = fc_artwork f" "chk_fraction f'" "outcome_ok f'"
    "active_fraction f"
  shows "rows_ok (put f f' t)"
proof -
  have "map fc_id (put f f' t) = map fc_id t" using assms(3) by (auto simp: put_def)
  moreover have "one_active (put f f' t)" unfolding one_active_def
  proof (intro ballI impI)
    fix g h assume gh: "g \<in> set (put f f' t)" "h \<in> set (put f f' t)" "active_fraction g" "active_fraction h" "fc_artwork g = fc_artwork h"
    note u = rows_okD(4) [OF assms(1,2) _ assms(7)]
    show "g = h"
    proof (cases "g = f' \<or> h = f'")
      case True
      then show ?thesis using gh u [of g] u [of h] assms(4) unfolding set_put [OF assms(2)] by auto
    next
      case False
      then show ?thesis using gh rows_okD(4) [OF assms(1), of g h] unfolding set_put [OF assms(2)] by auto
    qed
  qed
  ultimately show ?thesis using assms by (auto simp: rows_ok_def set_put)
qed

lemma put_attempt_of:
  assumes "rows_ok t" "f \<in> set t" "fc_status f = FC_deploying" "fc_artwork f' = fc_artwork f" "s \<noteq> FC_failed"
  shows "attempt_of a s (put f f' t) \<longleftrightarrow> (if a = fc_artwork f then fc_status f' = s else attempt_of a s t)"
proof -
  have act: "active_fraction g" if "g \<in> set t" "fc_status g = s" for g
    using active_status [OF rows_okD(2) [OF assms(1) that(1)]] that assms(5) by simp
  have "active_fraction f" using active_status [OF rows_okD(2) [OF assms(1,2)]] assms(3) by simp
  then have own: "g = f" if "g \<in> set t" "fc_status g = s" "fc_artwork g = fc_artwork f" for g
    using rows_okD(4) [OF assms(1,2) that(1)] act that by simp
  show ?thesis
  proof (cases "a = fc_artwork f")
    case True
    then show ?thesis using own assms(4) by (auto simp: attempt_of_def set_put [OF assms(2)])
  next
    case False
    then show ?thesis using assms(2,4) by (auto simp: attempt_of_def set_put [OF assms(2)])
  qed
qed

lemma put_artworks_ok:
  assumes "rows_ok t" "f \<in> set t" "fc_status f = FC_deploying" "fc_artwork f' = fc_artwork f" "artworks_ok as t"
    "(fc_status f', st) \<in> {(FC_deployed, AW_fractionalized), (FC_failed, AW_verified)}"
  shows "artworks_ok (fst (aw_casStatus now (fc_artwork f) AW_fractionalizing st as)) (put f f' t)"
proof -
  let ?u = "\<lambda>a :: artwork_row. if aw_id a = fc_artwork f \<and> aw_status a = AW_fractionalizing \<and> aw_deleted a = None
    then a\<lparr>aw_status := st, aw_updated := now\<rparr> else a"
  have cas: "fst (aw_casStatus now (fc_artwork f) AW_fractionalizing st as) = map ?u as"
    by (simp only: aw_casStatus_def fst_cas_rows conj_assoc)
  note at = put_attempt_of [OF assms(1,2,3,4)]
  have mir: "mirrors (?u a) (put f f' t)" if a: "a \<in> set as" for a
  proof (cases "aw_id a = fc_artwork f")
    case True
    have m: "mirrors a t" using assms(5) a by (simp add: artworks_ok_def)
    have "attempt_of (aw_id a) FC_deploying t" using assms(2,3) True by (auto simp: attempt_of_def)
    then have fr: "aw_status a = AW_fractionalizing" "aw_deleted a = None" using m by (auto simp: mirrors_def)
    then show ?thesis using True assms(6) by (auto simp: mirrors_def at)
  next
    case False
    then show ?thesis using assms(5) a by (auto simp: artworks_ok_def mirrors_def at)
  qed
  have ids: "map aw_id (map ?u as) = map aw_id as" by auto
  have "fc_artwork ` set (put f f' t) \<subseteq> fc_artwork ` set t" using assms(2,4) by (auto simp: set_put)
  also have "\<dots> \<subseteq> aw_id ` set as" using assms(5) by (simp add: artworks_ok_def)
  also have "\<dots> = aw_id ` set (map ?u as)" using arg_cong [OF ids, of set] by (simp only: set_map)
  finally have sub: "fc_artwork ` set (put f f' t) \<subseteq> aw_id ` set (map ?u as)" .
  have "distinct (map aw_id (map ?u as))" unfolding ids using assms(5) by (simp add: artworks_ok_def)
  moreover have "\<forall>a \<in> set (map ?u as). mirrors a (put f f' t)" using mir by (simp only: set_map ball_simps) blast
  ultimately show ?thesis using sub unfolding cas artworks_ok_def by blast
qed

lemma trail_snoc: "trail (es @ [e]) i = trail es i @ (if fa_contract e = i then [ae_kind e] else [])"
  by (simp add: trail_def)

lemma put_audited:
  assumes "audited t es" "f \<in> set t" "rows_ok t" "fc_id f' = fc_id f" "fc_artwork f' = fc_artwork f"
    "trail_of_status (fc_status f') = trail_of_status (fc_status f) @ [ae_kind e]" "fa_contract e = fc_id f" "ae_subject e = fc_artwork f"
  shows "audited (put f f' t) (es @ [e])"
proof -
  have other: "fc_id g \<noteq> fc_id f" if "g \<in> set t" "g \<noteq> f" for g using rows_okD(3) [OF assms(3,2)] that by blast
  have "trail (es @ [e]) (fc_id g) = trail_of_status (fc_status g)" if "g \<in> set (put f f' t)" for g
  proof (cases "g = f'")
    case True
    then show ?thesis using assms(1,2,4,6,7) by (simp add: trail_snoc audited_def)
  next
    case False
    then have g: "g \<in> set t" "g \<noteq> f" using that by (simp_all add: set_put [OF assms(2)])
    then show ?thesis using other [OF g] assms(1,7) by (simp add: trail_snoc audited_def)
  qed
  moreover have "\<exists>g \<in> set (put f f' t). fc_id g = fa_contract x \<and> fc_artwork g = ae_subject x" if "x \<in> set (es @ [e])" for x
  proof (cases "x = e")
    case True
    then show ?thesis using assms(4,5,7,8) by (simp add: set_put [OF assms(2)])
  next
    case False
    then have "x \<in> set es" using that by simp
    then obtain g where g: "g \<in> set t" "fc_id g = fa_contract x" "fc_artwork g = ae_subject x"
      using assms(1) unfolding audited_def by blast
    then show ?thesis using assms(4,5) by (cases "g = f") (auto simp: set_put [OF assms(2)])
  qed
  ultimately show ?thesis unfolding audited_def by blast
qed

section \<open>The latches\<close>

text \<open>Both latch transactions on a known row: they lose and change nothing, or replace that row.\<close>

lemma latchDeployed_cases:
  assumes "latchDeployed now ok (fc_id g) (fc_artwork g) l d = (r, d')" "fraction_ok d" "g \<in> set (fd_rows d)" "latch_for g l"
  obtains (same) "d' = d" "r \<noteq> Inr True"
  | (won) f' where "r = Inr True" "fc_status g = FC_deploying" "f' = deployed_fields now l g" "chk_fraction f'"
      "d' = fd_record ''artwork.fractionalization.deployed'' None (fc_artwork g) (fc_id g)
        (d\<lparr>fd_rows := put g f' (fd_rows d),
           fd_artworks := fst (aw_casStatus now (fc_artwork g) AW_fractionalizing AW_fractionalized (fd_artworks d))\<rparr>)"
proof -
  have ok: "rows_ok (fd_rows d)" using assms(2) by (simp add: fraction_ok_def)
  show ?thesis
  proof (cases "ok \<and> fc_status g = FC_deploying \<and> chk_fraction (deployed_fields now l g)")
    case True
    then have good: "\<not> (\<exists>f \<in> set (fd_rows d). fc_id f = fc_id g \<and> fc_status f = FC_deploying \<and> \<not> chk_fraction (deployed_fields now l f))"
      using rows_okD(3) [OF ok assms(3)] by metis
    have "fc_casDeployed now (fc_id g) l (fd_rows d) = Inr (True, put g (deployed_fields now l g) (fd_rows d))"
      using good cas_is_put [OF ok assms(3), of "fc_id g" "deployed_fields now l"] True assms(3)
      by (auto simp: fc_casDeployed_def cas_rows_def sql_update_def filter_empty_conv)
    then have "r = Inr True" "d' = fd_record ''artwork.fractionalization.deployed'' None (fc_artwork g) (fc_id g)
        (d\<lparr>fd_rows := put g (deployed_fields now l g) (fd_rows d),
           fd_artworks := fst (aw_casStatus now (fc_artwork g) AW_fractionalizing AW_fractionalized (fd_artworks d))\<rparr>)"
      using assms(1) True by (auto simp: latchDeployed_def run_txn_def fd_cas_artwork_def split: prod.splits)
    then show ?thesis using won True by blast
  next
    case False
    have "d' = d \<and> r \<noteq> Inr True"
    proof (cases "ok \<and> fc_status g \<noteq> FC_deploying")
      case True
      then have none: "\<not> (\<exists>f \<in> set (fd_rows d). fc_id f = fc_id g \<and> fc_status f = FC_deploying)"
        using rows_okD(3) [OF ok assms(3)] by metis
      then have "fc_casDeployed now (fc_id g) l (fd_rows d) = Inr (False, fd_rows d)"
        by (auto simp: fc_casDeployed_def cas_rows_def sql_update_def filter_empty_conv intro!: map_idI)
      then show ?thesis using assms(1) True by (auto simp: latchDeployed_def run_txn_def)
    next
      case bad: False
      then have "ok \<longrightarrow> (\<exists>f \<in> set (fd_rows d). fc_id f = fc_id g \<and> fc_status f = FC_deploying \<and> \<not> chk_fraction (deployed_fields now l f))"
        using False assms(3) by auto
      then show ?thesis using assms(1) by (auto simp: latchDeployed_def run_txn_def fc_casDeployed_def split: if_splits)
    qed
    then show ?thesis using same by blast
  qed
qed

lemma latchFailed_cases:
  assumes "latchFailed now ok (fc_id g) (fc_artwork g) d = (r, d')" "fraction_ok d" "g \<in> set (fd_rows d)"
  obtains (same) "d' = d" "r \<noteq> Inr True"
  | (won) f' where "r = Inr True" "fc_status g = FC_deploying" "f' = g\<lparr>fc_status := FC_failed, fc_updated := now\<rparr>"
      "d' = fd_record ''artwork.fractionalization.failed'' None (fc_artwork g) (fc_id g)
        (d\<lparr>fd_rows := put g f' (fd_rows d),
           fd_artworks := fst (aw_casStatus now (fc_artwork g) AW_fractionalizing AW_verified (fd_artworks d))\<rparr>)"
proof -
  have ok: "rows_ok (fd_rows d)" using assms(2) by (simp add: fraction_ok_def)
  show ?thesis
  proof (cases "ok \<and> fc_status g = FC_deploying")
    case True
    have "fc_casFailed now (fc_id g) (fd_rows d) = (put g (g\<lparr>fc_status := FC_failed, fc_updated := now\<rparr>) (fd_rows d), True)"
      using cas_is_put [OF ok assms(3), of "fc_id g" "\<lambda>f. f\<lparr>fc_status := FC_failed, fc_updated := now\<rparr>"] True assms(3)
      by (auto simp: fc_casFailed_def cas_rows_def sql_update_def filter_empty_conv)
    then show ?thesis using assms(1) True
      by (intro won) (auto simp: latchFailed_def run_txn_def fd_cas_artwork_def split: prod.splits)
  next
    case False
    have "fc_casFailed now (fc_id g) (fd_rows d) = (fd_rows d, False)" if "ok"
    proof -
      have "\<not> (fc_id f = fc_id g \<and> fc_status f = FC_deploying)" if "f \<in> set (fd_rows d)" for f
        using rows_okD(3) [OF ok assms(3) that] False \<open>ok\<close> by blast
      then show ?thesis
        by (auto simp: fc_casFailed_def cas_rows_def sql_update_def filter_empty_conv intro!: map_idI)
    qed
    then show ?thesis using assms(1) by (intro same) (auto simp: latchFailed_def run_txn_def split: if_splits)
  qed
qed

lemma put_moves:
  assumes "f \<in> set t" "fraction_moves f f'"
  shows "rows_move fraction_moves t (put f f' t)"
  unfolding put_def by (rule rows_move_map) (use assms in auto)

lemma cas_artwork_moves:
  "st \<noteq> AW_fractionalized \<Longrightarrow> rows_move artwork_moves t (fst (aw_casStatus now i st st' t))"
  unfolding aw_casStatus_def fst_cas_rows by (rule rows_move_map) (auto simp: artwork_moves_def)

section \<open>Every step keeps the tables\<close>

definition keeps :: "fdb \<Rightarrow> fdb \<Rightarrow> bool" where
  "keeps d d' \<longleftrightarrow> fraction_ok d' \<and> tables_move d d'"

lemma keeps_refl: "fraction_ok d \<Longrightarrow> keeps d d"
  by (simp add: keeps_def tables_move_refl)

lemma put_keeps:
  assumes "fraction_ok d" "f \<in> set (fd_rows d)" "fc_status f = FC_deploying" "fraction_moves f f'" "chk_fraction f'" "outcome_ok f'"
    "(fc_status f', st, kind) \<in> {(FC_deployed, AW_fractionalized, ''artwork.fractionalization.deployed''),
       (FC_failed, AW_verified, ''artwork.fractionalization.failed'')}"
  shows "keeps d (fd_record kind None (fc_artwork f) (fc_id f) (d\<lparr>fd_rows := put f f' (fd_rows d),
           fd_artworks := fst (aw_casStatus now (fc_artwork f) AW_fractionalizing st (fd_artworks d))\<rparr>))"
proof -
  have ok: "rows_ok (fd_rows d)" "artworks_ok (fd_artworks d) (fd_rows d)" "audited (fd_rows d) (fd_audit d)"
    using assms(1) by (simp_all add: fraction_ok_def)
  have ids: "fc_id f' = fc_id f" "fc_artwork f' = fc_artwork f" using assms(4) by (simp_all add: fraction_moves_def same_terms_def)
  have act: "active_fraction f" using active_status [OF rows_okD(2) [OF ok(1) assms(2)]] assms(3) by simp
  have "(fc_status f', st) \<in> {(FC_deployed, AW_fractionalized), (FC_failed, AW_verified)}" using assms(7) by auto
  note aw = put_artworks_ok [OF ok(1) assms(2,3) ids(2) ok(2) this]
  have au: "audited (put f f' (fd_rows d)) (fd_audit d @ [\<lparr>ae_kind = kind, ae_actor = None, ae_subject = fc_artwork f, fa_contract = fc_id f\<rparr>])"
    by (rule put_audited [OF ok(3) assms(2) ok(1) ids]) (use assms(3,7) in \<open>auto simp: trail_of_status_def\<close>)
  have mv: "rows_move (=) (fd_audit d) (fd_audit d @ [e])" for e by (rule rows_move_append) simp
  show ?thesis unfolding keeps_def
    using put_rows_ok [OF ok(1) assms(2) ids assms(5,6) act] aw au put_moves [OF assms(2,4)] mv
      cas_artwork_moves [of AW_fractionalizing "fd_artworks d" now "fc_artwork f" st]
    by (simp add: fraction_ok_def tables_move_def)
qed

lemma latchDeployed_keeps:
  assumes "fraction_ok d" "known_row f d" "latch_for f l"
  shows "keeps d (snd (latchDeployed now ok (fc_id f) (fc_artwork f) l d))"
proof -
  obtain g where g: "g \<in> set (fd_rows d)" "same_terms f g" "fc_id g = fc_id f" "fc_artwork g = fc_artwork f"
    using assms(2) by (rule known_rowD)
  have l: "latch_for g l" by (rule latch_for_terms [OF g(2) assms(3)])
  obtain r d' where e: "latchDeployed now ok (fc_id g) (fc_artwork g) l d = (r, d')" by fastforce
  have out: "outcome_ok g" using assms(1) g(1) rows_okD(2) by (auto simp: fraction_ok_def)
  from e assms(1) g(1) l have "keeps d d'"
  proof (cases rule: latchDeployed_cases)
    case same
    then show ?thesis using keeps_refl assms(1) by simp
  next
    case (won f')
    have "fraction_moves g f'" using won(2,3) by (simp add: fraction_moves_def)
    moreover have "outcome_ok f'" using deployed_fields_outcome [OF out l] won(3) by simp
    ultimately show ?thesis using put_keeps [OF assms(1) g(1) won(2)] won(3,4,5) by simp
  qed
  then show ?thesis using e g(3,4) by simp
qed

lemma failed_fields:
  "outcome_ok f \<Longrightarrow> fc_status f = FC_deploying \<Longrightarrow> outcome_ok (f\<lparr>fc_status := FC_failed, fc_updated := now\<rparr>)"
  "chk_fraction f \<Longrightarrow> outcome_ok f \<Longrightarrow> chk_fraction (f\<lparr>fc_status := FC_failed, fc_updated := now\<rparr>)"
  by (simp_all add: outcome_ok_def chk_fraction_def chk_terms_def chk_text_def chk_outcome_def)

lemma latchFailed_keeps:
  assumes "fraction_ok d" "known_row f d"
  shows "keeps d (snd (latchFailed now ok (fc_id f) (fc_artwork f) d))"
proof -
  obtain g where g: "g \<in> set (fd_rows d)" "same_terms f g" "fc_id g = fc_id f" "fc_artwork g = fc_artwork f"
    using assms(2) by (rule known_rowD)
  obtain r d' where e: "latchFailed now ok (fc_id g) (fc_artwork g) d = (r, d')" by fastforce
  have out: "outcome_ok g" "chk_fraction g" using assms(1) g(1) rows_okD(1,2) by (auto simp: fraction_ok_def)
  from e assms(1) g(1) have "keeps d d'"
  proof (cases rule: latchFailed_cases)
    case same
    then show ?thesis using keeps_refl assms(1) by simp
  next
    case (won f')
    have "fraction_moves g f'" using won(2,3) by (simp add: fraction_moves_def same_terms_def)
    then show ?thesis using put_keeps [OF assms(1) g(1) won(2), of f'] failed_fields(1) [OF out(1) won(2)]
        failed_fields(2) [OF out(2,1)] won(3,4) by simp
  qed
  then show ?thesis using e g(3,4) by simp
qed

subsection \<open>The request\<close>

lemma attempt_of_append: "attempt_of a s (t @ [r]) \<longleftrightarrow> attempt_of a s t \<or> (fc_artwork r = a \<and> fc_status r = s)"
  by (auto simp: attempt_of_def)

text \<open>The short transaction either changes nothing or inserts the row, moves its artwork and writes one audit row.\<close>

lemma fractionalize_txn_cases:
  assumes "fractionalize_txn now ok sub row d = (r, d')"
  obtains (same) e where "d' = d" "r = Inl e"
  | (won) "r = Inr row" "chk_fraction row" "fc_id row \<notin> fc_id ` set (fd_rows d)"
      "active_fraction row \<longrightarrow> \<not> (\<exists>f \<in> set (fd_rows d). active_fraction f \<and> fc_artwork f = fc_artwork row)"
      "\<exists>a \<in> set (fd_artworks d). aw_id a = fc_artwork row \<and> aw_status a = AW_verified \<and> aw_deleted a = None"
      "d' = fd_record ''artwork.fractionalization.requested'' (Some sub) (fc_artwork row) (fc_id row)
         (d\<lparr>fd_artworks := fst (aw_casStatus now (fc_artwork row) AW_verified AW_fractionalizing (fd_artworks d)),
            fd_rows := fd_rows d @ [row]\<rparr>)"
proof (cases r)
  case (Inl e)
  have "d' = d" using assms Inl unfolding fractionalize_txn_def run_txn_def by (auto split: prod.splits sum.splits)
  then show ?thesis using same Inl by simp
next
  case (Inr x)
  obtain moved t where c: "aw_casStatus now (fc_artwork row) AW_verified AW_fractionalizing (fd_artworks d) = (t, moved)"
    by fastforce
  have m: "moved = (\<exists>a \<in> set (fd_artworks d). aw_id a = fc_artwork row \<and> aw_status a = AW_verified \<and> aw_deleted a = None)"
    using arg_cong [OF c, of snd] unfolding aw_casStatus_def snd_cas_rows by simp
  have "moved" "fc_insert row (fd_rows d) = Inr (fd_rows d @ [row])" "ok" "x = row"
    "d' = fd_record ''artwork.fractionalization.requested'' (Some sub) (fc_artwork row) (fc_id row)
         (d\<lparr>fd_artworks := t, fd_rows := fd_rows d @ [row]\<rparr>)"
    using assms Inr c
    by (auto simp: fractionalize_txn_def run_txn_commit fd_cas_artwork_def fc_insert_def split: bool.splits if_splits)
  then show ?thesis using won Inr c m by (auto simp: fc_insert_def split: if_splits)
qed

lemma request_artworks:
  assumes "artworks_ok as t" "fc_artwork row = i" "fc_status row = FC_deploying"
    "\<exists>a \<in> set as. aw_id a = i \<and> aw_status a = AW_verified \<and> aw_deleted a = None"
  shows "artworks_ok (fst (aw_casStatus now i AW_verified AW_fractionalizing as)) (t @ [row])"
proof -
  let ?u = "\<lambda>a :: artwork_row. if aw_id a = i \<and> aw_status a = AW_verified \<and> aw_deleted a = None
    then a\<lparr>aw_status := AW_fractionalizing, aw_updated := now\<rparr> else a"
  have cas: "fst (aw_casStatus now i AW_verified AW_fractionalizing as) = map ?u as"
    by (simp only: aw_casStatus_def fst_cas_rows)
  have dist: "distinct (map aw_id as)" and mi: "\<And>a. a \<in> set as \<Longrightarrow> mirrors a t" using assms(1) by (simp_all add: artworks_ok_def)
  have mir: "mirrors (?u a) (t @ [row])" if a: "a \<in> set as" for a
  proof (cases "aw_id a = i")
    case True
    then have "aw_status a = AW_verified" "aw_deleted a = None"
      using assms(4) a dist by (auto simp: distinct_map inj_on_def)
    then show ?thesis using True mi [OF a] assms(2,3) by (simp add: mirrors_def attempt_of_append)
  next
    case False
    then show ?thesis using mi [OF a] assms(2) by (simp add: mirrors_def attempt_of_append)
  qed
  have ids: "map aw_id (map ?u as) = map aw_id as" by auto
  have "fc_artwork row \<in> aw_id ` set as" using assms(2,4) by (metis image_eqI)
  then have "fc_artwork ` set (t @ [row]) \<subseteq> aw_id ` set as" using assms(1) by (simp add: artworks_ok_def)
  also have "\<dots> = aw_id ` set (map ?u as)" using arg_cong [OF ids, of set] by (simp only: set_map)
  finally have sub: "fc_artwork ` set (t @ [row]) \<subseteq> aw_id ` set (map ?u as)" .
  have "distinct (map aw_id (map ?u as))" unfolding ids by (rule dist)
  moreover have "\<forall>a \<in> set (map ?u as). mirrors a (t @ [row])" using mir by (simp only: set_map ball_simps) blast
  ultimately show ?thesis using sub unfolding cas artworks_ok_def by blast
qed

lemma request_audited:
  assumes "audited t es" "fc_id row \<notin> fc_id ` set t" "fc_status row = FC_deploying"
  shows "audited (t @ [row]) (es @ [\<lparr>ae_kind = ''artwork.fractionalization.requested'', ae_actor = actor,
     ae_subject = fc_artwork row, fa_contract = fc_id row\<rparr>])"
proof -
  have "fa_contract e \<noteq> fc_id row" if "e \<in> set es" for e
    using assms(1,2) that by (metis audited_def image_eqI)
  then have "trail es (fc_id row) = []" by (simp add: trail_def filter_empty_conv)
  moreover have "fc_id row \<noteq> fc_id f" if "f \<in> set t" for f using assms(2) that by (metis image_eqI)
  ultimately show ?thesis using assms(1,3) unfolding audited_def
    by (simp add: trail_snoc trail_of_status_def ball_Un)
qed

lemma request_keeps:
  assumes "fraction_ok d" "new_attempt row"
  shows "keeps d (snd (fractionalize_txn now ok sub row d))"
proof -
  obtain r d' where e: "fractionalize_txn now ok sub row d = (r, d')" by fastforce
  have k: "rows_ok (fd_rows d)" "artworks_ok (fd_artworks d) (fd_rows d)" "audited (fd_rows d) (fd_audit d)"
    using assms(1) by (simp_all add: fraction_ok_def)
  have n: "fc_status row = FC_deploying" "outcome_ok row" "active_fraction row"
    using assms(2) by (simp_all add: new_attempt_def outcome_ok_def active_fraction_def)
  from e have "keeps d d'"
  proof (cases rule: fractionalize_txn_cases)
    case same
    then show ?thesis using keeps_refl assms(1) by simp
  next
    case won
    have "rows_ok (fd_rows d @ [row])"
      using k(1) won(2,3,4) n by (auto simp: rows_ok_def one_active_def)
    moreover have "rows_move R t (t @ [x])" if "\<And>y. R y y" for R and t :: "'x list" and x by (rule rows_move_append) (rule that)
    ultimately show ?thesis
      using request_artworks [OF k(2) _ n(1) won(5)] request_audited [OF k(3) won(3) n(1)] won(6)
        cas_artwork_moves [of AW_verified "fd_artworks d" now "fc_artwork row" AW_fractionalizing]
      by (simp add: keeps_def fraction_ok_def tables_move_def rows_move_append)
  qed
  then show ?thesis using e by simp
qed

subsection \<open>The other statements\<close>

lemma tx_hash_keeps:
  assumes "fraction_ok d"
  shows "keeps d (d\<lparr>fd_rows := fc_setTxHash now i h (fd_rows d)\<rparr>)"
proof -
  define u where "u f = (if fc_id f = i then f\<lparr>fc_tx := Some h, fc_updated := now\<rparr> else f)" for f :: fraction_row
  have rows: "fc_setTxHash now i h (fd_rows d) = map u (fd_rows d)"
    by (simp add: fc_setTxHash_def sql_update_def u_def [abs_def])
  have u: "same_terms f (u f)" "fraction_moves f (u f)" "fc_id (u f) = fc_id f" "fc_artwork (u f) = fc_artwork f"
    "fc_status (u f) = fc_status f" "chk_fraction (u f) = chk_fraction f" "outcome_ok (u f) = outcome_ok f"
    "active_fraction (u f) = active_fraction f" for f
    by (simp_all add: u_def same_terms_def fraction_moves_def chk_fraction_def chk_terms_def chk_text_def chk_outcome_def
        outcome_ok_def active_fraction_def)
  have k: "rows_ok (fd_rows d)" "artworks_ok (fd_artworks d) (fd_rows d)" "audited (fd_rows d) (fd_audit d)"
    using assms by (simp_all add: fraction_ok_def)
  have at: "attempt_of a s (map u t) = attempt_of a s t" for a s t by (auto simp: attempt_of_def u)
  have "map fc_id (map u t) = map fc_id t" for t by (simp add: u)
  moreover have "one_active (map u (fd_rows d))"
    using k(1) unfolding rows_ok_def one_active_def by (auto simp: u)
  ultimately have "rows_ok (map u (fd_rows d))" using k(1) unfolding rows_ok_def by (auto simp: u o_def)
  moreover have "artworks_ok (fd_artworks d) (map u (fd_rows d))"
    using k(2) by (auto simp: artworks_ok_def mirrors_def at u)
  moreover have "audited (map u (fd_rows d)) (fd_audit d)" using k(3) by (auto simp: audited_def u)
  moreover have "rows_move fraction_moves (fd_rows d) (map u (fd_rows d))" by (rule rows_move_map) (rule u)
  ultimately show ?thesis by (simp add: keeps_def fraction_ok_def tables_move_def rows rows_move_refl)
qed

lemma emit_keeps: "fraction_ok d \<Longrightarrow> keeps d (timeline_insert ok e d)"
  by (simp add: keeps_def fraction_ok_def tables_move_def rows_move_refl)

lemma artwork_added_keeps:
  assumes "fraction_ok d" "aw_status a \<in> {AW_verified, AW_published}" "aw_id a \<notin> aw_id ` set (fd_artworks d)"
  shows "keeps d (d\<lparr>fd_artworks := fd_artworks d @ [a]\<rparr>)"
proof -
  have "artworks_ok (fd_artworks d) (fd_rows d)" using assms(1) by (simp add: fraction_ok_def)
  moreover from this have "\<not> attempt_of (aw_id a) s (fd_rows d)" for s
    using assms(3) unfolding artworks_ok_def attempt_of_def by (metis image_subset_iff)
  ultimately have "artworks_ok (fd_artworks d @ [a]) (fd_rows d)" using assms(2,3) by (auto simp: artworks_ok_def mirrors_def)
  then show ?thesis using assms(1)
    by (simp add: keeps_def fraction_ok_def tables_move_def rows_move_refl rows_move_append)
qed

lemma artwork_deleted_keeps:
  assumes "fraction_ok d" "\<not> softdelete_blocked i d"
  shows "keeps d (d\<lparr>fd_artworks := fst (sql_update (\<lambda>a. aw_id a = i \<and> aw_deleted a = None)
          (\<lambda>a. a\<lparr>aw_deleted := Some now\<rparr>) (fd_artworks d))\<rparr>)"
proof -
  define u where "u a = (if aw_id a = i \<and> aw_deleted a = None then a\<lparr>aw_deleted := Some now\<rparr> else a)" for a :: artwork_row
  have up: "fst (sql_update (\<lambda>a. aw_id a = i \<and> aw_deleted a = None) (\<lambda>a. a\<lparr>aw_deleted := Some now\<rparr>) t) = map u t" for t
    by (simp add: sql_update_def u_def [abs_def])
  have k: "rows_ok (fd_rows d)" "artworks_ok (fd_artworks d) (fd_rows d)" using assms(1) by (simp_all add: fraction_ok_def)
  have none: "\<not> attempt_of i s (fd_rows d)" if "s \<noteq> FC_failed" for s
    using assms(2) that active_status rows_okD(2) [OF k(1)] by (auto simp: attempt_of_def softdelete_blocked_def)
  have "mirrors (u a) (fd_rows d)" if "a \<in> set (fd_artworks d)" for a
  proof (cases "aw_id a = i")
    case True
    have "mirrors a (fd_rows d)" using k(2) that by (simp add: artworks_ok_def)
    then show ?thesis using none True by (cases "aw_status a") (auto simp: mirrors_def u_def)
  next
    case False
    then show ?thesis using k(2) that by (simp add: artworks_ok_def u_def)
  qed
  moreover have "aw_id (u a) = aw_id a" for a by (simp add: u_def)
  ultimately have "artworks_ok (map u (fd_artworks d)) (fd_rows d)"
    using k(2) unfolding artworks_ok_def by (simp add: image_image o_def)
  moreover have "rows_move artwork_moves (fd_artworks d) (map u (fd_artworks d))"
    by (rule rows_move_map) (auto simp: u_def artwork_moves_def)
  ultimately show ?thesis using assms(1) by (simp add: keeps_def fraction_ok_def tables_move_def up rows_move_refl)
qed

lemma fraction_step_keeps: "fraction_step d d' \<Longrightarrow> fraction_ok d \<Longrightarrow> keeps d d'"
  by (induction rule: fraction_step.induct)
    (simp_all add: request_keeps tx_hash_keeps latchDeployed_keeps latchFailed_keeps emit_keeps artwork_added_keeps
      artwork_deleted_keeps)

lemma fraction_steps_keep:
  assumes "fraction_steps d d'" "fraction_ok d"
  shows "fraction_ok d'" "tables_move d d'"
proof -
  from assms have "fraction_ok d' \<and> tables_move d d'"
  proof (induction rule: rtranclp_induct)
    case base
    then show ?case by (simp add: tables_move_refl)
  next
    case (step x y)
    then have x: "fraction_ok x" "tables_move d x" by simp_all
    from fraction_step_keeps [OF step(2) x(1)] have y: "fraction_ok y" "tables_move x y" by (simp_all add: keeps_def)
    show ?case using y(1) tables_move_trans [OF x(2) y(2)] by simp
  qed
  then show "fraction_ok d'" "tables_move d d'" by simp_all
qed

lemma catalogue_ok: "fresh_catalogue t \<Longrightarrow> fraction_ok (catalogue t)"
  by (auto simp: fresh_catalogue_def catalogue_def fraction_ok_def rows_ok_def one_active_def artworks_ok_def mirrors_def
      attempt_of_def audited_def list_all_iff)

end
