(* ===== verification/Fraction_Main.thy ===== *)
theory Fraction_Main
  imports Fraction_Props
begin

text \<open>
  The handlers of the fractionalization on the machine: whatever other requests do between their
  statements, each is a run of it. Then what every run keeps.
\<close>

section \<open>Handlers are runs\<close>

text \<open>What other requests do at a point of a handler: a run of the machine.\<close>

definition interleaved :: "(fdb \<Rightarrow> fdb) \<Rightarrow> bool" where
  "interleaved m \<longleftrightarrow> (\<forall>x. fraction_ok x \<longrightarrow> fraction_steps x (m x))"

lemma interleaved_run: "interleaved m \<Longrightarrow> fraction_ok x \<Longrightarrow> fraction_steps x (m x)"
  by (simp add: interleaved_def)

lemma interleaved_id: "interleaved (\<lambda>x. x)"
  by (simp add: interleaved_def)

lemma run_then:
  assumes "fraction_steps d e" "fraction_ok d" "\<And>x. x = e \<Longrightarrow> fraction_ok x \<Longrightarrow> fraction_steps x f"
  shows "fraction_steps d f"
  using assms fraction_steps_keep(1) [OF assms(1,2)] by (meson rtranclp_trans)

lemma step_run: "fraction_step d e \<Longrightarrow> fraction_steps d e"
  by (rule r_into_rtranclp)

lemma known_row_keep:
  assumes "fraction_steps d d'" "fraction_ok d" "known_row f d"
  shows "known_row f d'"
proof -
  from assms(3) obtain g where g: "g \<in> set (fd_rows d)" "same_terms f g" by (auto simp: known_row_def)
  have "rows_move fraction_moves (fd_rows d) (fd_rows d')"
    using fraction_steps_keep(2) [OF assms(1,2)] by (simp add: tables_move_def)
  from rows_move_row [OF this g(1)] obtain h where "h \<in> set (fd_rows d')" "fraction_moves g h" by blast
  then show ?thesis using fraction_moves_trans(3) [OF g(2)] by (auto simp: known_row_def fraction_moves_def)
qed

lemma stored_row_known: "f \<in> set (fd_rows d) \<Longrightarrow> known_row f d"
  by (auto simp: known_row_def intro: bexI [of _ f])

lemma new_deploying_row: "new_attempt (deploying_row now fresh cfg a dto addr)"
  by (simp add: new_attempt_def deploying_row_def)

lemma fractionalize_work_run:
  assumes "interleaved m" "fraction_ok d"
  shows "fraction_steps d (snd (fractionalize_work cfg env m a dto sub d))"
proof -
  have "fraction_steps d (snd (fractionalize_txn now ok sub (deploying_row n i cfg a dto addr) (m d)))" for now ok n i addr
    by (rule run_then [OF interleaved_run [OF assms] assms(2)]) (auto intro: step_run request new_deploying_row)
  then show ?thesis
    by (auto simp: fractionalize_work_def Let_def split: option.splits prod.splits sum.splits) (metis snd_conv)+
qed

lemma fractionalize_run:
  assumes "interleaved m" "fraction_ok d"
  shows "fraction_steps d (snd (snd (fractionalize cfg t1 t2 up fp atts env m a dto sub key (s, d))))"
proof -
  have work: "fraction_steps d d'" if "fractionalize_work cfg env m a dto sub d = (x, d')" for x d'
    using fractionalize_work_run [OF assms, of cfg env a dto sub] that by simp
  then show ?thesis
    by (auto simp: fractionalize_def handle_def with_idem_def split: prod.splits sum.splits idempotency_begin.splits)
qed

subsection \<open>The worker\<close>

lemma save_hash_run:
  assumes "interleaved m" "fraction_ok d"
  shows "fraction_steps d (snd (save_hash now ok m i h d))"
  using rtranclp.rtrancl_into_rtrancl [OF interleaved_run [OF assms] tx_hash] interleaved_run [OF assms]
  by (simp add: save_hash_def)

lemma buildSignAndSend_state:
  "snd (buildSignAndSend cfg r save d) = d \<or> (\<exists>h. snd (buildSignAndSend cfg r save d) = snd (save h d))"
  by (auto simp: buildSignAndSend_def split: sum.splits prod.splits bool.splits) (metis snd_conv)+

lemma deployFractionToken_state:
  assumes "deployFractionToken cfg r save d = Some (x, d')"
  shows "d' = d \<or> (\<exists>h. d' = snd (save h d))"
proof (cases "tokenOf (fr_read_account r) (fr_registry r)")
  case (Inl e)
  then show ?thesis using assms by (simp add: deployFractionToken_def)
next
  case (Inr t)
  obtain y e where b: "buildSignAndSend cfg r save d = (y, e)" by fastforce
  have "d' = d \<or> d' = e" using assms Inr b
    by (cases t; cases y) (auto simp: deployFractionToken_def split: if_splits)
  then show ?thesis using buildSignAndSend_state [of cfg r save d] b by auto
qed

lemma latch_run:
  assumes "interleaved m" "fraction_ok d" "known_row f d" "latch_for f l"
  shows "fraction_steps d (snd (latchDeployed now ok (fc_id f) (fc_artwork f) l (m d)))"
  by (rule run_then [OF interleaved_run [OF assms(1,2)] assms(2)])
    (auto intro!: step_run deployed assms(4) known_row_keep [OF interleaved_run [OF assms(1,2)] assms(2,3)])

lemma deploy_failed_run:
  assumes "interleaved m" "fraction_ok d" "known_row f d"
  shows "fraction_steps d (snd (deploy_failed env m f e d))"
proof -
  have "fraction_steps d (snd (latchFailed now ok (fc_id f) (fc_artwork f) (m d)))" for now ok
    by (rule run_then [OF interleaved_run [OF assms(1,2)] assms(2)])
      (auto intro!: step_run failed known_row_keep [OF interleaved_run [OF assms(1,2)] assms(2,3)])
  then show ?thesis by (auto simp: deploy_failed_def split: prod.splits sum.splits) (metis snd_conv)+
qed

lemma worker_latch_for: "latch_for f (worker_latch ts f token ledger)" "latch_for f (reconcile_latch f token)"
  by (simp_all add: latch_for_def worker_latch_def reconcile_latch_def)

lemma deploy_row_run:
  assumes "\<And>k. interleaved (m k)" "fraction_ok d" "known_row f d" "deploy_row cfg env m f d = Some (out, d')"
  shows "fraction_steps d d'"
proof -
  obtain x d1 where call: "deployFractionToken cfg (dv_rpc env) (save_hash (dv_now env 1) (dv_hash_ok env) (m 1) (fc_id f)) d
      = Some (x, d1)"
    using assms(4) by (auto simp: deploy_row_def Let_def)
  have r1: "fraction_steps d d1"
    using deployFractionToken_state [OF call] save_hash_run [OF assms(1,2)] by auto
  note k1 = fraction_steps_keep(1) [OF r1 assms(2)] known_row_keep [OF r1 assms(2,3)]
  show ?thesis
  proof (cases x)
    case (Inl e)
    then show ?thesis using assms(4) call deploy_failed_run [OF assms(1) k1, of env 3 e] r1
      by (auto simp: deploy_row_def Let_def)
  next
    case (Inr res)
    obtain token ledger where res: "res = (token, ledger)" by fastforce
    define l where "l = worker_latch (dv_now env 0 div 1000) f token ledger"
    obtain y d2 where y: "latchDeployed (dv_now env 2) (dv_latch_ok env) (fc_id f) (fc_artwork f) l (m 2 d1) = (y, d2)"
      by fastforce
    have "latch_for f l" unfolding l_def by (rule worker_latch_for)
    then have "fraction_steps d1 d2" using latch_run [OF assms(1) [of 2] k1, where l = l and now = "dv_now env 2" and ok = "dv_latch_ok env"] y
      by simp
    then have r2: "fraction_steps d d2" using r1 by simp
    note k2 = fraction_steps_keep(1) [OF r2 assms(2)] known_row_keep [OF r2 assms(2,3)]
    show ?thesis
    proof (cases y)
      case (Inl e)
      then have "(out, d') = deploy_failed env (m 3) f e d2"
        using assms(4) call Inr res y by (simp add: deploy_row_def Let_def l_def)
      then have "d' = snd (deploy_failed env (m 3) f e d2)" by (metis snd_conv)
      then show ?thesis using rtranclp_trans [OF r2 deploy_failed_run [OF assms(1) k2]] by simp
    next
      case (Inr b)
      then have "d' = emitFractionalizationDeployed (dv_emit_ok env) (fc_artwork f) (fc_id f) token ledger
          (if ledger = None then None else Some (fr_hash (dv_rpc env))) (m 4 d2)"
        using assms(4) call \<open>x = Inr res\<close> res y by (simp add: deploy_row_def Let_def l_def)
      moreover have "fraction_steps d (m 4 d2)" by (rule rtranclp_trans [OF r2 interleaved_run [OF assms(1) k2(1)]])
      ultimately show ?thesis unfolding emitFractionalizationDeployed_def
        by (simp only:) (erule rtranclp.rtrancl_into_rtrancl, rule emit)
    qed
  qed
qed

lemma deploy_process_run:
  assumes "\<And>k. interleaved (m k)" "fraction_ok d" "fraction_deploy_process cfg env m i d = Some (out, d')"
  shows "fraction_steps d d'"
proof (cases "fc_findOneById i (fd_rows d)")
  case None
  then show ?thesis using assms(3) by (simp add: fraction_deploy_process_def)
next
  case (Some f)
  then have "known_row f d" unfolding fc_findOneById_def by (auto intro: stored_row_known dest: sql_find_Some)
  then show ?thesis using assms Some deploy_row_run [OF assms(1,2)]
    by (auto simp: fraction_deploy_process_def split: if_splits)
qed

subsection \<open>The sweep\<close>

lemma promote_all_run:
  assumes "\<And>k. interleaved (m k)"
  shows "fraction_ok d \<Longrightarrow> \<forall>(f, a) \<in> set rs. known_row f d \<Longrightarrow> fraction_steps d (snd (promote_all now ok m rs n d))"
proof (induction rs arbitrary: n d)
  case (Cons p rs)
  obtain f a where p: "p = (f, a)" by fastforce
  obtain y d1 where y: "latchDeployed now (ok (fc_id f)) (fc_id f) (fc_artwork f) (reconcile_latch f a) (m (fc_id f) d) = (y, d1)"
    by fastforce
  have r: "fraction_steps d d1"
    using latch_run [OF assms Cons.prems(1), of f "reconcile_latch f a" now "ok (fc_id f)" "fc_id f"] Cons.prems(2) p y worker_latch_for(2)
    by simp
  show ?case
  proof (cases y)
    case (Inl e)
    then show ?thesis using r p y by simp
  next
    case (Inr w)
    have "\<forall>(g, b) \<in> set rs. known_row g d1" using Cons.prems known_row_keep [OF r Cons.prems(1)] by auto
    from Cons.IH [OF fraction_steps_keep(1) [OF r Cons.prems(1)] this]
    show ?thesis using r p y Inr by (simp add: rtranclp_trans)
  qed
qed simp

text \<open>The chunked reads resolve what one pass over the batch would, in order.\<close>

lemma resolve_chunks_all: "resolve_chunks reads stale = read_chunk reads stale"
proof (induction reads stale rule: resolve_chunks.induct)
  case (1 reads stale)
  have "read_chunk reads stale = read_chunk reads (take READ_CHUNK stale) @ read_chunk reads (drop READ_CHUNK stale)"
    unfolding read_chunk_def by (metis append_take_drop_id concat_append map_append)
  then show ?case using 1 by (subst resolve_chunks.simps) (auto simp: read_chunk_def)
qed

lemma reconcile_run:
  assumes "\<And>k. interleaved (m k)" "fraction_ok d"
  shows "fraction_steps d (snd (fraction_reconcile_process cfg now reads ok m d))"
proof -
  let ?stale = "fc_findStaleDeploying now (fg_grace cfg) (fg_batch cfg) (fd_rows d)"
  have "set ?stale \<subseteq> set (fd_rows d)" unfolding fc_findStaleDeploying_def by (auto dest!: in_set_takeD)
  then have "\<forall>(f, a) \<in> set (resolve_chunks reads ?stale). known_row f d"
    unfolding resolve_chunks_all by (auto simp: read_chunk_def intro: stored_row_known split: sum.splits option.splits)
  from promote_all_run [OF assms this] show ?thesis by (simp add: fraction_reconcile_process_def)
qed

text \<open>
  Every handler of the fractionalization (request, worker attempt, sweep) is a run of the machine,
  whatever the chain answers, whatever fails, whatever other requests do between its statements.
\<close>

lemma fraction_handlers_are_runs:
  assumes "fraction_ok d" "interleaved m0" "\<And>k. interleaved (m k)" "\<And>i. interleaved (mi i)"
  shows "fraction_steps d (snd (snd (fractionalize cfg t1 t2 up fp atts env m0 a dto sub key (s, d))))
    \<and> (fraction_deploy_process cfg env' m i d = Some (out, d') \<longrightarrow> fraction_steps d d')
    \<and> fraction_steps d (snd (fraction_reconcile_process cfg now reads ok mi d))"
  by (intro conjI impI fractionalize_run [OF assms(2,1)] reconcile_run [OF assms(4,1)])
    (rule deploy_process_run [OF assms(3,1)])

section \<open>What every run keeps\<close>

text \<open>
  C31. In every interleaving of requests, worker attempts and sweeps, from a catalogue of verified and
  published artworks: an artwork has at most one active contract; it is fractionalizing exactly when it
  has a deploying contract and fractionalized exactly when it has a deployed one, and is then not soft
  deleted; every contract satisfies its CHECKs, a deployed one has its token address and the floor of
  its percentages as retention amounts, any other none of them; the audit trail of a contract is the
  request followed by exactly its outcome. The terms of a contract never change, deployed and failed are
  final with what they recorded, a fractionalized artwork stays so, audit rows are never changed.
\<close>

theorem fraction_lifecycle:
  assumes "fresh_catalogue t" "fraction_steps (catalogue t) d" "fraction_steps d d'"
  shows "fraction_ok d' \<and> tables_move d d'"
  using assms catalogue_ok fraction_steps_keep by meson

end
