(* ===== verification/Fraction_Chain.thy ===== *)
theory Fraction_Chain
  imports Fraction_Main
begin

text \<open>
  The tables with the factory's registry and the queue. A transaction that was sent may land at any
  later time; the registry takes one token per artwork and never forgets it
  (\<open>tove-fraction-factory/src/contract.rs\<close>). Workers run for rows that were enqueued; a latch records an
  address that the registry holds, as \<open>worker_sees_registry\<close> shows of the adapter's result.
\<close>

section \<open>Answers that are true\<close>

type_synonym registry = "ident \<Rightarrow> (ident \<times> token_init) option"

text \<open>\<open>factory.deploy\<close>: the registry entry is never overwritten.\<close>

definition factory_deploy :: "ident \<Rightarrow> token_init \<Rightarrow> registry \<Rightarrow> registry option" where
  "factory_deploy address init reg = (case reg (ti_artwork init) of
     Some _ \<Rightarrow> None | None \<Rightarrow> Some (reg(ti_artwork init \<mapsto> (address, init))))"

definition in_registry :: "registry \<Rightarrow> ident \<Rightarrow> ident \<Rightarrow> bool" where
  "in_registry reg artwork address \<longleftrightarrow> (\<exists>init. reg artwork = Some (address, init))"

text \<open>
  What the server answers is so: a \<open>token_of\<close> address is the registry's, and a successful deploy put its
  address there, the returned one or the deterministic one.
\<close>

definition truthful :: "fraction_rpc \<Rightarrow> registry \<Rightarrow> ident \<Rightarrow> bool" where
  "truthful r reg artwork \<longleftrightarrow> (\<forall>a. fr_registry r = Rpc (Reg_address a) \<longrightarrow> in_registry reg artwork a)
     \<and> (\<forall>n ret ledger. fr_get r n = Rpc (FTx_success ret ledger)
          \<longrightarrow> in_registry reg artwork (case ret of Some a \<Rightarrow> a | None \<Rightarrow> fr_derived r))"

lemma poll_result_ends:
  assumes "\<And>n. fr_clock r n + POLL_INTERVAL_MS \<le> fr_clock r (Suc n)"
  shows "\<exists>x. poll_result r deadline n = Some x"
proof (induction "nat (deadline - fr_clock r n)" arbitrary: n rule: less_induct)
  case less
  show ?case
  proof (cases "fr_get r n = Rpc FTx_not_found \<and> fr_clock r n < deadline")
    case True
    then have "nat (deadline - fr_clock r (Suc n)) < nat (deadline - fr_clock r n)"
      using assms [of n] by (simp add: POLL_INTERVAL_MS_def)
    from less [OF this] True show ?thesis by (simp add: poll_result.simps [of r deadline n])
  next
    case False
    then show ?thesis by (auto simp: poll_result.simps [of r deadline n] split: rpc.splits fraction_tx_status.splits)
  qed
qed

lemma poll_result_success:
  assumes "poll_result r deadline n = Some x"
  shows "\<forall>ret ledger. x = Inr (ret, ledger) \<longrightarrow> (\<exists>k. fr_get r k = Rpc (FTx_success ret ledger))"
proof (rule poll_result.raw_induct [where P = "\<lambda>r deadline n x.
      \<forall>ret ledger. x = Inr (ret, ledger) \<longrightarrow> (\<exists>k. fr_get r k = Rpc (FTx_success ret ledger))", OF _ assms])
qed (auto split: rpc.splits fraction_tx_status.splits if_splits)

text \<open>With true answers, the address the adapter returns is the registry's token of the artwork.\<close>

lemma worker_sees_registry:
  assumes "deployFractionToken cfg r save d = Some (Inr (address, ledger), d')" "truthful r reg artwork"
  shows "in_registry reg artwork address"
proof (cases "tokenOf (fr_read_account r) (fr_registry r)")
  case (Inl e)
  then show ?thesis using assms(1) by (simp add: deployFractionToken_def)
next
  case (Inr t)
  show ?thesis
  proof (cases t)
    case (Some a)
    then have "fr_registry r = Rpc (Reg_address a)"
      using Inr by (auto simp: tokenOf_def split: rpc.splits registry_sim.splits)
    then show ?thesis using assms Inr Some by (simp add: deployFractionToken_def truthful_def)
  next
    case None
    obtain y e where b: "buildSignAndSend cfg r save d = (y, e)" by fastforce
    with assms(1) Inr None obtain x ret n where x: "poll_result r (fr_start r + fg_timeout cfg) 0 = Some x" "x = Inr (ret, n)"
      "address = (case ret of Some a \<Rightarrow> a | None \<Rightarrow> fr_derived r)"
      by (cases y) (auto simp: deployFractionToken_def bindE_Inr split: if_splits)
    then show ?thesis using poll_result_success [OF x(1)] assms(2) unfolding truthful_def by metis
  qed
qed

text \<open>A worker's call returns when the clock ticks between two reads of the poll.\<close>

lemma deploy_call_returns:
  assumes "\<And>n. fr_clock r n + POLL_INTERVAL_MS \<le> fr_clock r (Suc n)"
  shows "deployFractionToken cfg r save d \<noteq> None"
proof -
  obtain x where "poll_result r (fr_start r + fg_timeout cfg) 0 = Some x" using poll_result_ends [OF assms] by blast
  then show ?thesis by (auto simp: deployFractionToken_def split: sum.splits option.splits prod.splits)
qed

section \<open>The world\<close>

text \<open>\<open>fw_due\<close>: rows committed and not yet enqueued; \<open>fw_started\<close>: rows whose job was enqueued.\<close>

record fworld =
  fw_db :: fdb
  fw_due :: "ident list"
  fw_started :: "ident list"
  fw_sent :: "(ident \<times> token_init) list"
  fw_tokens :: registry

text \<open>
  \<open>enqueue_lost\<close> is a failed \<open>queue.add\<close> or a crash between the commit and it. \<open>elsewhere\<close> are the
  statements that leave the contracts alone.
\<close>

inductive fw_step :: "fworld \<Rightarrow> fworld \<Rightarrow> bool" where
  request: "new_attempt row \<Longrightarrow> fractionalize_txn now ok sub row (fw_db w) = (r, d)
    \<Longrightarrow> fw_step w (w\<lparr>fw_db := d, fw_due := (if isOk r then fc_id row # fw_due w else fw_due w)\<rparr>)"
| enqueued: "i \<in> set (fw_due w) \<Longrightarrow> fw_step w (w\<lparr>fw_due := removeAll i (fw_due w), fw_started := i # fw_started w\<rparr>)"
| enqueue_lost: "i \<in> set (fw_due w) \<Longrightarrow> fw_step w (w\<lparr>fw_due := removeAll i (fw_due w)\<rparr>)"
| sent: "f \<in> set (fd_rows (fw_db w)) \<Longrightarrow> fc_id f \<in> set (fw_started w)
    \<Longrightarrow> fw_step w (w\<lparr>fw_sent := (fc_id f, token_init_of ts f) # fw_sent w\<rparr>)"
| landed: "(i, init) \<in> set (fw_sent w) \<Longrightarrow> factory_deploy address init (fw_tokens w) = Some reg
    \<Longrightarrow> fw_step w (w\<lparr>fw_tokens := reg\<rparr>)"
| hash: "fw_step w (w\<lparr>fw_db := (fw_db w)\<lparr>fd_rows := fc_setTxHash now i h (fd_rows (fw_db w))\<rparr>\<rparr>)"
| latched: "f \<in> set (fd_rows (fw_db w)) \<Longrightarrow> fc_id f \<in> set (fw_started w)
    \<Longrightarrow> in_registry (fw_tokens w) (fc_artwork f) a
    \<Longrightarrow> fw_step w (w\<lparr>fw_db := snd (latchDeployed now ok (fc_id f) (fc_artwork f) (worker_latch ts f a ledger) (fw_db w))\<rparr>)"
| given_up: "f \<in> set (fd_rows (fw_db w)) \<Longrightarrow> fc_id f \<in> set (fw_started w)
    \<Longrightarrow> fw_step w (w\<lparr>fw_db := snd (latchFailed now ok (fc_id f) (fc_artwork f) (fw_db w))\<rparr>)"
| swept: "f \<in> set (fd_rows (fw_db w)) \<Longrightarrow> in_registry (fw_tokens w) (fc_artwork f) a
    \<Longrightarrow> fw_step w (w\<lparr>fw_db := snd (latchDeployed now ok (fc_id f) (fc_artwork f) (reconcile_latch f a) (fw_db w))\<rparr>)"
| elsewhere: "fraction_step (fw_db w) d \<Longrightarrow> fd_rows d = fd_rows (fw_db w) \<Longrightarrow> fw_step w (w\<lparr>fw_db := d\<rparr>)"

abbreviation fw_steps :: "fworld \<Rightarrow> fworld \<Rightarrow> bool" where
  "fw_steps \<equiv> fw_step\<^sup>*\<^sup>*"

definition fw_start :: "artwork_row list \<Rightarrow> fworld" where
  "fw_start t = \<lparr>fw_db = catalogue t, fw_due = [], fw_started = [], fw_sent = [], fw_tokens = Map.empty\<rparr>"

text \<open>The world refines the machine of the tables.\<close>

lemma fw_step_tables: "fw_step w w' \<Longrightarrow> fraction_steps (fw_db w) (fw_db w')"
proof (induction rule: fw_step.induct)
  case (request row now ok sub w r d)
  then show ?case using fraction_step.request [OF request(1), of "fw_db w" now ok sub] by (simp add: step_run)
next
  case (latched f w a now ok ts ledger)
  then show ?case using deployed [OF stored_row_known [OF latched(1)] worker_latch_for(1)] by (simp add: step_run)
next
  case (given_up f w now ok)
  then show ?case using failed [OF stored_row_known [OF given_up(1)]] by (simp add: step_run)
next
  case (swept f w a now ok)
  then show ?case using deployed [OF stored_row_known [OF swept(1)] worker_latch_for(2)] by (simp add: step_run)
qed (simp_all add: step_run tx_hash)

lemma fw_steps_tables: "fw_steps w w' \<Longrightarrow> fraction_steps (fw_db w) (fw_db w')"
  by (induction rule: rtranclp_induct) (auto dest: fw_step_tables)

section \<open>What the chain knows\<close>

text \<open>Deployed rows of one state come from deployed rows of the other, or are licensed by \<open>P\<close>.\<close>

definition sent_ok :: "fworld \<Rightarrow> bool" where
  "sent_ok w \<longleftrightarrow> (\<forall>(i, init) \<in> set (fw_sent w). i \<in> set (fw_started w)
     \<and> (\<exists>f \<in> set (fd_rows (fw_db w)). fc_id f = i \<and> (\<exists>ts. init = token_init_of ts f)))"

definition tokens_ok :: "fworld \<Rightarrow> bool" where
  "tokens_ok w \<longleftrightarrow> (\<forall>a address init. fw_tokens w a = Some (address, init)
     \<longrightarrow> ti_artwork init = a \<and> (\<exists>i. (i, init) \<in> set (fw_sent w)))"

definition deployed_ok :: "registry \<Rightarrow> fraction_row list \<Rightarrow> bool" where
  "deployed_ok reg t \<longleftrightarrow> (\<forall>f \<in> set t. fc_status f = FC_deployed
     \<longrightarrow> (\<exists>a. fc_token f = Some a \<and> in_registry reg (fc_artwork f) a))"

definition world_ok :: "fworld \<Rightarrow> bool" where
  "world_ok w \<longleftrightarrow> fraction_ok (fw_db w) \<and> sent_ok w \<and> tokens_ok w \<and> deployed_ok (fw_tokens w) (fd_rows (fw_db w))"

lemma token_init_terms: "same_terms f g \<Longrightarrow> token_init_of ts g = token_init_of ts f"
  by (simp add: same_terms_def token_init_of_def)

lemma sent_ok_keep:
  assumes "sent_ok w" "rows_move fraction_moves (fd_rows (fw_db w)) (fd_rows (fw_db w'))"
    "fw_sent w' = fw_sent w" "set (fw_started w) \<subseteq> set (fw_started w')"
  shows "sent_ok w'"
proof -
  have "\<exists>g \<in> set (fd_rows (fw_db w')). fc_id g = i \<and> (\<exists>ts. init = token_init_of ts g)"
    if "f \<in> set (fd_rows (fw_db w))" "fc_id f = i" "init = token_init_of ts f" for f i init ts
  proof -
    from rows_move_row [OF assms(2) that(1)] obtain g where g: "g \<in> set (fd_rows (fw_db w'))" "fraction_moves f g" by blast
    then have "same_terms f g" "fc_id g = i" using that(2) by (simp_all add: fraction_moves_def same_terms_def)
    then show ?thesis using g(1) token_init_terms that(3) by metis
  qed
  then show ?thesis using assms(1,3,4) unfolding sent_ok_def by fastforce
qed

lemma deployed_ok_put:
  assumes "deployed_ok reg t" "f \<in> set t" "fc_status f' = FC_deployed \<Longrightarrow> \<exists>a. fc_token f' = Some a \<and> in_registry reg (fc_artwork f') a"
  shows "deployed_ok reg (put f f' t)"
  using assms by (auto simp: deployed_ok_def set_put)

lemma deployed_ok_latch:
  assumes "fraction_ok d" "f \<in> set (fd_rows d)" "latch_for f l" "in_registry reg (fc_artwork f) (dl_token l)" "deployed_ok reg (fd_rows d)"
  shows "deployed_ok reg (fd_rows (snd (latchDeployed now ok (fc_id f) (fc_artwork f) l d)))"
proof -
  obtain r d' where e: "latchDeployed now ok (fc_id f) (fc_artwork f) l d = (r, d')" by fastforce
  from e assms(1,2,3) have "deployed_ok reg (fd_rows d')"
  proof (cases rule: latchDeployed_cases)
    case same
    then show ?thesis using assms(5) by simp
  next
    case (won f')
    then show ?thesis using deployed_ok_put [OF assms(5,2), of f'] assms(4) by simp
  qed
  then show ?thesis using e by simp
qed

lemma deployed_ok_fail:
  assumes "fraction_ok d" "f \<in> set (fd_rows d)" "deployed_ok reg (fd_rows d)"
  shows "deployed_ok reg (fd_rows (snd (latchFailed now ok (fc_id f) (fc_artwork f) d)))"
proof -
  obtain r d' where e: "latchFailed now ok (fc_id f) (fc_artwork f) d = (r, d')" by fastforce
  from e assms(1,2) have "deployed_ok reg (fd_rows d')"
  proof (cases rule: latchFailed_cases)
    case same
    then show ?thesis using assms(3) by simp
  next
    case (won f')
    then show ?thesis using deployed_ok_put [OF assms(3,2), of f'] by simp
  qed
  then show ?thesis using e by simp
qed

lemma fw_step_deployed:
  assumes "fw_step w w'" "world_ok w"
  shows "deployed_ok (fw_tokens w') (fd_rows (fw_db w'))"
  using assms
proof (induction rule: fw_step.induct)
  case (request row now ok sub w r d)
  from request(2) show ?case
  proof (cases rule: fractionalize_txn_cases)
    case same
    then show ?thesis using request(3) by (simp add: world_ok_def)
  next
    case won
    then show ?thesis using request(1,3) by (auto simp: world_ok_def deployed_ok_def new_attempt_def)
  qed
next
  case (landed i init w address reg)
  have "in_registry reg a b" if "in_registry (fw_tokens w) a b" for a b
    using that landed(2) by (auto simp: factory_deploy_def in_registry_def split: option.splits)
  then show ?case using landed(3) unfolding world_ok_def deployed_ok_def by fastforce
next
  case (latched f w a now ok ts ledger)
  then show ?case using deployed_ok_latch [of "fw_db w" f "worker_latch ts f a ledger"] worker_latch_for(1)
    by (simp add: world_ok_def worker_latch_def)
next
  case (given_up f w now ok)
  then show ?case using deployed_ok_fail [of "fw_db w" f] by (simp add: world_ok_def)
next
  case (swept f w a now ok)
  then show ?case using deployed_ok_latch [of "fw_db w" f "reconcile_latch f a"] worker_latch_for(2)
    by (simp add: world_ok_def reconcile_latch_def)
qed (auto simp: world_ok_def deployed_ok_def fc_setTxHash_def sql_update_def)

lemma fw_step_ok:
  assumes "fw_step w w'" "world_ok w"
  shows "world_ok w'"
proof -
  have ok: "fraction_ok (fw_db w)" using assms(2) by (simp add: world_ok_def)
  note k = fraction_steps_keep [OF fw_step_tables [OF assms(1)] ok]
  have mv: "rows_move fraction_moves (fd_rows (fw_db w)) (fd_rows (fw_db w'))" using k(2) by (simp add: tables_move_def)
  have "sent_ok w' \<and> tokens_ok w'"
    using assms mv
  proof (induction rule: fw_step.induct)
    case (landed i init w address reg)
    then show ?case by (auto simp: world_ok_def sent_ok_def tokens_ok_def factory_deploy_def split: option.splits if_splits)
  next
    case (sent f w ts)
    then have "sent_ok (w\<lparr>fw_sent := (fc_id f, token_init_of ts f) # fw_sent w\<rparr>)"
      by (auto simp: world_ok_def sent_ok_def)
    moreover have "tokens_ok (w\<lparr>fw_sent := (fc_id f, token_init_of ts f) # fw_sent w\<rparr>)"
      using sent(3) unfolding world_ok_def tokens_ok_def by simp blast
    ultimately show ?case by simp
  next
    case (request row now ok sub w r d)
    then show ?case using sent_ok_keep [of w "w\<lparr>fw_db := d, fw_due := (if isOk r then fc_id row # fw_due w else fw_due w)\<rparr>"]
      by (auto simp: world_ok_def tokens_ok_def)
  next
    case (enqueued i w)
    then show ?case using sent_ok_keep [of w "w\<lparr>fw_due := removeAll i (fw_due w), fw_started := i # fw_started w\<rparr>"]
      by (auto simp: world_ok_def tokens_ok_def)
  qed (auto simp: world_ok_def tokens_ok_def intro: sent_ok_keep)
  then show ?thesis using k(1) fw_step_deployed [OF assms] by (simp add: world_ok_def)
qed

lemma fw_steps_ok: "fw_steps w w' \<Longrightarrow> world_ok w \<Longrightarrow> world_ok w'"
  by (induction rule: rtranclp_induct) (auto intro: fw_step_ok)

lemma fw_start_ok: "fresh_catalogue t \<Longrightarrow> world_ok (fw_start t)"
  using catalogue_ok by (auto simp: world_ok_def fw_start_def sent_ok_def tokens_ok_def deployed_ok_def catalogue_def)


section \<open>A request whose job is lost\<close>

text \<open>The row is deploying and no attempt on its artwork has a job, nor will get one.\<close>

definition stranded :: "ident \<Rightarrow> ident \<Rightarrow> fworld \<Rightarrow> bool" where
  "stranded a i w \<longleftrightarrow> (\<exists>f \<in> set (fd_rows (fw_db w)). fc_id f = i \<and> fc_artwork f = a \<and> fc_status f = FC_deploying)
     \<and> (\<forall>g \<in> set (fd_rows (fw_db w)). fc_artwork g = a \<longrightarrow> fc_id g \<notin> set (fw_due w) \<union> set (fw_started w))"

lemma stranded_no_token:
  assumes "world_ok w" "stranded a i w"
  shows "fw_tokens w a = None"
proof (rule ccontr)
  assume "fw_tokens w a \<noteq> None"
  then obtain address init where t: "fw_tokens w a = Some (address, init)" by auto
  then obtain j where j: "ti_artwork init = a" "(j, init) \<in> set (fw_sent w)"
    using assms(1) unfolding world_ok_def tokens_ok_def by blast
  then obtain g ts where g: "g \<in> set (fd_rows (fw_db w))" "fc_id g = j" "init = token_init_of ts g" "j \<in> set (fw_started w)"
    using assms(1) unfolding world_ok_def sent_ok_def by blast
  then have "fc_artwork g = a" using j(1) by (simp add: token_init_of_def)
  then show False using assms(2) g unfolding stranded_def by blast
qed

text \<open>A latch on a row of another artwork leaves the rows of this one alone.\<close>

definition same_rows_of :: "ident \<Rightarrow> fdb \<Rightarrow> fdb \<Rightarrow> bool" where
  "same_rows_of a d d' \<longleftrightarrow> (\<forall>g. fc_artwork g = a \<longrightarrow> (g \<in> set (fd_rows d') \<longleftrightarrow> g \<in> set (fd_rows d)))"

lemma stranded_same_rows:
  assumes "stranded a i w" "same_rows_of a (fw_db w) d"
  shows "stranded a i (w\<lparr>fw_db := d\<rparr>)"
  using assms unfolding stranded_def same_rows_of_def by auto

lemma latch_other_rows:
  assumes "fraction_ok d" "f \<in> set (fd_rows d)" "fc_artwork f \<noteq> a" "latch_for f l"
  shows "same_rows_of a d (snd (latchDeployed now ok (fc_id f) (fc_artwork f) l d))"
    "same_rows_of a d (snd (latchFailed now ok (fc_id f) (fc_artwork f) d))"
proof -
  obtain r d' where e: "latchDeployed now ok (fc_id f) (fc_artwork f) l d = (r, d')" by fastforce
  from e assms(1,2,4) have "same_rows_of a d d'"
    by (cases rule: latchDeployed_cases) (use assms(2,3) in \<open>auto simp: same_rows_of_def set_put\<close>)
  then show "same_rows_of a d (snd (latchDeployed now ok (fc_id f) (fc_artwork f) l d))" using e by simp
  obtain s x where x: "latchFailed now ok (fc_id f) (fc_artwork f) d = (s, x)" by fastforce
  from x assms(1,2) have "same_rows_of a d x"
    by (cases rule: latchFailed_cases) (use assms(2,3) in \<open>auto simp: same_rows_of_def set_put\<close>)
  then show "same_rows_of a d (snd (latchFailed now ok (fc_id f) (fc_artwork f) d))" using x by simp
qed

lemma stranded_step:
  assumes "fw_step w w'" "world_ok w" "stranded a i w"
  shows "stranded a i w'"
  using assms
proof (induction rule: fw_step.induct)
  case (request row now ok sub w r d)
  from request(2) show ?case
  proof (cases rule: fractionalize_txn_cases)
    case same
    then show ?thesis using request(4) by (simp add: stranded_def)
  next
    case won
    obtain f where f: "f \<in> set (fd_rows (fw_db w))" "fc_id f = i" "fc_artwork f = a" "fc_status f = FC_deploying"
      using request(4) by (auto simp: stranded_def)
    have "outcome_ok f" using request(3) f(1) rows_okD(2) by (auto simp: world_ok_def fraction_ok_def)
    then have "active_fraction f" using f(4) by (simp add: active_status)
    moreover have "active_fraction row" using request(1) by (simp add: new_attempt_def active_fraction_def)
    ultimately have "fc_artwork row \<noteq> a" using won(4) f(1,3) by blast
    moreover have "fc_id g \<noteq> fc_id row" if "g \<in> set (fd_rows (fw_db w))" for g using won(3) that by (metis image_eqI)
    ultimately show ?thesis using request(4) won(1,6) by (auto simp: stranded_def)
  qed
next
  case (latched f w b now ok ts ledger)
  then have "fc_artwork f \<noteq> a" by (auto simp: stranded_def)
  then show ?case using latch_other_rows(1) [OF _ latched(1)] latched(4,5) worker_latch_for(1) stranded_same_rows
    by (simp add: world_ok_def)
next
  case (given_up f w now ok)
  then have "fc_artwork f \<noteq> a" by (auto simp: stranded_def)
  then show ?case using latch_other_rows(2) [OF _ given_up(1) _ worker_latch_for(1)] given_up(3,4) stranded_same_rows
    by (simp add: world_ok_def)
next
  case (swept f w b now ok)
  then have "fc_artwork f \<noteq> a" using stranded_no_token by (auto simp: in_registry_def)
  then show ?case using latch_other_rows(1) [OF _ swept(1)] swept(3,4) worker_latch_for(2) stranded_same_rows
    by (simp add: world_ok_def)
next
  case (hash w now j h)
  define u where "u f = (if fc_id f = j then f\<lparr>fc_tx := Some h, fc_updated := now\<rparr> else f)" for f :: fraction_row
  have "fc_id (u f) = fc_id f" "fc_artwork (u f) = fc_artwork f" "fc_status (u f) = fc_status f" for f
    by (simp_all add: u_def)
  moreover have "fc_setTxHash now j h t = map u t" for t by (simp add: fc_setTxHash_def sql_update_def u_def [abs_def])
  ultimately show ?case using hash(2) by (simp add: stranded_def)
qed (auto simp: stranded_def)

lemma stranded_steps:
  "fw_steps w w' \<Longrightarrow> world_ok w \<Longrightarrow> stranded a i w \<Longrightarrow> world_ok w' \<and> stranded a i w'"
  by (induction rule: rtranclp_induct) (auto intro: fw_step_ok stranded_step)

text \<open>
  C33. A lost job strands its artwork. When the enqueue of the artwork's first attempt fails after the commit (or the
  process dies in between), then whatever requests, workers and sweeps do afterwards, the contract stays
  deploying without a token, and a new request for the artwork is answered 409
  and changes nothing: the sweep only promotes, and nothing enqueues the job again.
\<close>

theorem lost_job_strands_artwork:
  assumes "fresh_catalogue t" "fw_steps (fw_start t) w" "stranded a i w" "fw_steps w w'"
  shows "(\<exists>f \<in> set (fd_rows (fw_db w')). fc_id f = i \<and> fc_artwork f = a \<and> fc_status f = FC_deploying \<and> fc_token f = None)
    \<and> fw_tokens w' a = None
    \<and> fractionalize_work cfg env (\<lambda>x. x) a dto sub (fw_db w')
        = (Inl (FailHttp ''ARTWORK_FRACTIONALIZATION_IN_PROGRESS'' 409), fw_db w')"
proof -
  have "world_ok w" by (rule fw_steps_ok [OF assms(2) fw_start_ok [OF assms(1)]])
  from stranded_steps [OF assms(4) this assms(3)] have w: "world_ok w'" "stranded a i w'" by simp_all
  obtain f where f: "f \<in> set (fd_rows (fw_db w'))" "fc_id f = i" "fc_artwork f = a" "fc_status f = FC_deploying"
    using w(2) by (auto simp: stranded_def)
  have k: "rows_ok (fd_rows (fw_db w'))" "artworks_ok (fd_artworks (fw_db w')) (fd_rows (fw_db w'))"
    using w(1) by (simp_all add: world_ok_def fraction_ok_def)
  have "fc_token f = None" using rows_okD(2) [OF k(1) f(1)] f(4) by (simp add: outcome_ok_def)
  moreover obtain b where b: "b \<in> set (fd_artworks (fw_db w'))" "aw_id b = a" using k(2) f(1,3) by (auto simp: artworks_ok_def)
  have live: "aw_status c = AW_fractionalizing \<and> aw_deleted c = None" if "c \<in> set (fd_artworks (fw_db w'))" "aw_id c = a" for c
    using k(2) that f by (auto simp: artworks_ok_def mirrors_def attempt_of_def)
  obtain c where "aw_findOneById a (fd_artworks (fw_db w')) = Some c"
    using b live [OF b] by (cases "aw_findOneById a (fd_artworks (fw_db w'))") (auto simp: aw_findOneById_def sql_find_None)
  moreover from this have "aw_status c = AW_fractionalizing"
    using live unfolding aw_findOneById_def by (auto dest: sql_find_Some)
  ultimately show ?thesis using f stranded_no_token [OF w] by (auto simp: fractionalize_work_def)
qed

end
