(* ===== verification/Fraction_Witness.thy ===== *)
theory Fraction_Witness
  imports Fraction_Chain
begin

text \<open>
  Concrete runs of a fractionalization: the witnesses of the theorems, and the runs in which the
  worker or the request do not do what they mean to.
\<close>

section \<open>One artwork\<close>

definition x_address :: "char \<Rightarrow> ident" where
  "x_address c = c # replicate 55 CHR ''A''"

definition x_artwork :: artwork_row where
  "x_artwork = \<lparr>aw_id = ''a'', aw_status = AW_verified, aw_artist_user = ''u'', aw_title = ''T'', aw_handle = None,
     aw_image = None, aw_created = 0, aw_updated = 0, aw_deleted = None\<rparr>"

definition x_wallets :: wdb where
  "x_wallets = \<lparr>wd_users = [(''u'', None)],
     wd_wallets = [\<lparr>wt_id = ''b'', wt_user = ''u'', wt_key = Some (x_address CHR ''G''), wt_contract = None, wt_kind = WK_byow,
         wt_primary = True, wt_status = WS_active, wt_removed = None, wt_created = 0, wt_deleted = None\<rparr>],
     wd_credentials = [], wd_challenges = [], wd_passkey_challenges = [], wd_audit = []\<rparr>"

definition x_cfg :: factory_config where
  "x_cfg = \<lparr>fg_max_supply = 1000000, fg_max_days = 3650, fg_wasm = replicate 64 CHR ''0'', fg_timeout = 20000,
     fg_admin = ''A'', fg_relayer = ''R'', fg_grace = 25000, fg_batch = 20\<rparr>"

definition x_dto :: "int \<Rightarrow> string \<Rightarrow> fractionalize_dto" where
  "x_dto pct name = \<lparr>fz_supply = 1000, fz_artist_pct = pct, fz_treasury_pct = 5, fz_artist_days = 365, fz_treasury_days = 730,
     fz_name = name, fz_symbol = ''NL''\<rparr>"

definition x_request :: "instant \<Rightarrow> ident \<Rightarrow> bool \<Rightarrow> request_env" where
  "x_request now fresh enq = \<lparr>rv_now = now, rv_fresh = fresh, rv_wallets = x_wallets, rv_audit = True, rv_enqueue = enq\<rparr>"

definition x_work :: "instant \<Rightarrow> ident \<Rightarrow> bool \<Rightarrow> int \<Rightarrow> string \<Rightarrow> fdb \<Rightarrow> (http_error + fraction_row) \<times> fdb" where
  "x_work now fresh enq pct name d = fractionalize_work x_cfg (x_request now fresh enq) (\<lambda>x. x) ''a'' (x_dto pct name) ''adm'' d"

text \<open>The answers of an attempt: the registry, the simulation, and the status of the sent transaction.\<close>

definition x_rpc :: "registry_sim \<Rightarrow> deploy_sim \<Rightarrow> fraction_tx_status rpc \<Rightarrow> fraction_rpc" where
  "x_rpc reg sim status = \<lparr>fr_read_account = Rpc (), fr_registry = Rpc reg, fr_derived = x_address CHR ''C'', fr_lock = True,
     fr_account = Rpc (), fr_sim = Rpc sim, fr_ledger = Rpc (), fr_hash = ''h'', fr_send = Rpc (Send_pending ''h''),
     fr_start = 0, fr_clock = (\<lambda>n. int n * 2000), fr_get = \<lambda>_. status\<rparr>"

definition x_env :: "instant \<Rightarrow> fraction_rpc \<Rightarrow> deploy_env" where
  "x_env now r = \<lparr>dv_now = \<lambda>_. now, dv_rpc = r, dv_hash_ok = True, dv_latch_ok = True, dv_fail_ok = True, dv_emit_ok = True\<rparr>"

definition x_deploy :: "instant \<Rightarrow> fraction_rpc \<Rightarrow> ident \<Rightarrow> fdb \<Rightarrow> (job_outcome \<times> fdb) option" where
  "x_deploy now r i d = fraction_deploy_process x_cfg (x_env now r) (\<lambda>_ x. x) i d"

definition x_signed :: deploy_sim where
  "x_signed = Dsim_ok [Cred_address ''A'']"

definition x_row :: "instant \<Rightarrow> ident \<Rightarrow> int \<Rightarrow> fraction_row" where
  "x_row now fresh pct = deploying_row now fresh x_cfg ''a'' (x_dto pct ''N'') (x_address CHR ''G'')"

abbreviation x_requested :: fdb where
  "x_requested \<equiv> snd (x_work 1 ''f'' True 10 ''N'' (catalogue [x_artwork]))"

lemma x_addresses [simp]:
  "strkey_like ''GC'' (x_address CHR ''G'')" "strkey_like ''C'' (x_address CHR ''C'')" "hash_like (fg_wasm x_cfg)"
  "x_address c \<noteq> []"
  by (simp_all add: strkey_like_def x_address_def base32_char_def hash_like_def hex_char_def x_cfg_def list_all_iff less_eq_char_def)

lemma x_rows_checked [simp]:
  "0 \<le> pct \<Longrightarrow> pct \<le> 90 \<Longrightarrow> chk_fraction (x_row now i pct)"
  by (simp add: chk_fraction_def chk_terms_def chk_text_def chk_outcome_def x_row_def deploying_row_def x_dto_def
      amount_or_0_def MAX_FRACTION_SUPPLY_def btrim_def symbol_like_def symbol_char_def less_eq_char_def)

lemma x_primary: "resolvePrimarySettlementAddress ''u'' x_wallets = Some (x_address CHR ''G'')"
  by (simp add: resolvePrimarySettlementAddress_def findAllByUserId_def x_wallets_def live_def)

lemma x_requested_eq:
  "x_work 1 ''f'' True 10 ''N'' (catalogue [x_artwork]) = (Inr (x_row 1 ''f'' 10),
     \<lparr>fd_artworks = [x_artwork\<lparr>aw_status := AW_fractionalizing, aw_updated := 1\<rparr>], fd_rows = [x_row 1 ''f'' 10],
      fd_audit = [\<lparr>ae_kind = ''artwork.fractionalization.requested'', ae_actor = Some ''adm'', ae_subject = ''a'', fa_contract = ''f''\<rparr>],
      fd_timeline = []\<rparr>)"
proof -
  have row: "deploying_row 1 ''f'' x_cfg ''a'' (x_dto 10 ''N'') (x_address CHR ''G'') = x_row 1 ''f'' 10" by (simp add: x_row_def)
  have sel: "fc_artwork (x_row 1 ''f'' 10) = ''a''" "fc_id (x_row 1 ''f'' 10) = ''f''" by (simp_all add: x_row_def deploying_row_def)
  show ?thesis
    by (simp add: x_work_def fractionalize_work_def x_request_def catalogue_def aw_findOneById_def sql_find_def x_artwork_def
        x_primary row fractionalize_txn_def run_txn_def fd_cas_artwork_def aw_casStatus_def cas_rows_def sql_update_def sel
        fc_insert_def fd_record_def)
qed

lemma x_row_sel [simp]:
  "fc_id (x_row now i p) = i" "fc_artwork (x_row now i p) = ''a''" "fc_status (x_row now i p) = FC_deploying"
  "fc_deleted (x_row now i p) = None" "fc_supply (x_row now i p) = 1000" "fc_artist_pct (x_row now i p) = p"
  "fc_treasury_pct (x_row now i p) = 5" "fc_artist_days (x_row now i p) = 365" "fc_created (x_row now i p) = now"
  "fc_artist_address (x_row now i p) = x_address CHR ''G''" "new_attempt (x_row now i p)" "outcome_ok (x_row now i p)"
  by (simp_all add: x_row_def deploying_row_def x_dto_def new_attempt_def outcome_ok_def)

section \<open>A deploy that landed is reported failed\<close>

text \<open>The tables after the first attempt lost the answer of its poll, after the second request, and after its worker.\<close>

definition x_failed :: fdb where
  "x_failed = snd (the (x_deploy 10000 (x_rpc Reg_void x_signed RpcError) ''f'' x_requested))"

definition x_again :: fdb where
  "x_again = snd (x_work 20000 ''g'' True 50 ''N'' x_failed)"

definition x_healed :: fdb where
  "x_healed = snd (the (x_deploy 30000 (x_rpc (Reg_address (x_address CHR ''C'')) x_signed RpcError) ''g'' x_again))"

lemmas x_eval = x_deploy_def fraction_deploy_process_def deploy_row_def x_env_def x_rpc_def deployFractionToken_def tokenOf_def
  buildSignAndSend_def build_and_sign_def x_signed_def signAdminEntry_def save_hash_def deploy_failed_def transient_throw_def
  latchFailed_def fc_casFailed_def run_txn_def fd_cas_artwork_def aw_casStatus_def cas_rows_def sql_update_def
  fc_findOneById_def sql_find_def fd_record_def fc_setTxHash_def guardE_def poll_result.simps x_artwork_def

lemma x_failed_eq:
  "x_deploy 10000 (x_rpc Reg_void x_signed RpcError) ''f'' x_requested = Some (JobUnrecoverable, x_failed)"
  "fd_artworks x_failed = [x_artwork\<lparr>aw_status := AW_verified, aw_updated := 10000\<rparr>]"
  "fd_rows x_failed = [(x_row 1 ''f'' 10)\<lparr>fc_tx := Some ''h'', fc_status := FC_failed, fc_updated := 10000\<rparr>]"
  unfolding x_failed_def x_requested_eq by (simp_all add: x_eval x_cfg_def)

abbreviation x_first :: fraction_row where
  "x_first \<equiv> (x_row 1 ''f'' 10)\<lparr>fc_tx := Some ''h'', fc_status := FC_failed, fc_updated := 10000\<rparr>"

lemma x_again_eq:
  "x_work 20000 ''g'' True 50 ''N'' x_failed = (Inr (x_row 20000 ''g'' 50), x_again)"
  "fd_artworks x_again = [x_artwork\<lparr>aw_status := AW_fractionalizing, aw_updated := 20000\<rparr>]"
  "fd_rows x_again = [x_first, x_row 20000 ''g'' 50]"
proof -
  have row: "deploying_row 20000 ''g'' x_cfg ''a'' (x_dto 50 ''N'') (x_address CHR ''G'') = x_row 20000 ''g'' 50" by (simp add: x_row_def)
  have "x_work 20000 ''g'' True 50 ''N'' x_failed = (Inr (x_row 20000 ''g'' 50), x_again)
     \<and> fd_artworks x_again = [x_artwork\<lparr>aw_status := AW_fractionalizing, aw_updated := 20000\<rparr>]
     \<and> fd_rows x_again = [x_first, x_row 20000 ''g'' 50]"
    by (simp add: x_again_def x_work_def fractionalize_work_def x_request_def aw_findOneById_def sql_find_def x_artwork_def
        x_primary row fractionalize_txn_def run_txn_def fd_cas_artwork_def aw_casStatus_def cas_rows_def sql_update_def
        fc_insert_def fd_record_def x_failed_eq(2,3) active_fraction_def)
  then show "x_work 20000 ''g'' True 50 ''N'' x_failed = (Inr (x_row 20000 ''g'' 50), x_again)"
    "fd_artworks x_again = [x_artwork\<lparr>aw_status := AW_fractionalizing, aw_updated := 20000\<rparr>]"
    "fd_rows x_again = [x_first, x_row 20000 ''g'' 50]" by simp_all
qed

definition x_latch :: deployed_latch where
  "x_latch = worker_latch 30 (x_row 20000 ''g'' 50) (x_address CHR ''C'') None"

lemma x_latch_checked: "chk_fraction (deployed_fields 30000 x_latch (x_row 20000 ''g'' 50))"
  by (rule deployed_fields_chk) (simp_all add: x_latch_def worker_latch_for, simp add: worker_latch_def)

lemma x_healed_eq:
  "x_deploy 30000 (x_rpc (Reg_address (x_address CHR ''C'')) x_signed RpcError) ''g'' x_again = Some (JobDone, x_healed)"
  "fd_rows x_healed = [x_first, deployed_fields 30000 x_latch (x_row 20000 ''g'' 50)]"
proof -
  have l: "worker_latch 30 (x_row 20000 ''g'' 50) (x_address CHR ''C'') None = x_latch" by (simp add: x_latch_def)
  have "x_deploy 30000 (x_rpc (Reg_address (x_address CHR ''C'')) x_signed RpcError) ''g'' x_again = Some (JobDone, x_healed)
     \<and> fd_rows x_healed = [x_first, deployed_fields 30000 x_latch (x_row 20000 ''g'' 50)]"
    by (simp add: x_healed_def x_eval x_again_eq(2,3) l latchDeployed_def fc_casDeployed_def x_latch_checked
        emitFractionalizationDeployed_def)
  then show "x_deploy 30000 (x_rpc (Reg_address (x_address CHR ''C'')) x_signed RpcError) ''g'' x_again = Some (JobDone, x_healed)"
    "fd_rows x_healed = [x_first, deployed_fields 30000 x_latch (x_row 20000 ''g'' 50)]" by simp_all
qed

text \<open>
  A network error of one \<open>getTransaction\<close> after the deploy was sent is an untyped error, so the worker
  latches the contract failed and reverts the artwork although the transaction lands. The admin asks again with
  other terms; the second worker finds the token of the first in the registry and latches it with the retentions of the
  second request: 500 of 1000 fractions for the artist, where the token on the chain minted 100. All answers of the server are true.
\<close>

lemma lost_poll_records_other_terms:
  "\<exists>init. factory_deploy (x_address CHR ''C'') init Map.empty = Some (Map.empty(''a'' \<mapsto> (x_address CHR ''C'', init)))
     \<and> init = token_init_of 10 (x_row 1 ''f'' 10) \<and> ti_artist_amount init = 100
     \<and> truthful (x_rpc Reg_void x_signed RpcError) Map.empty ''a''
     \<and> truthful (x_rpc (Reg_address (x_address CHR ''C'')) x_signed RpcError) (Map.empty(''a'' \<mapsto> (x_address CHR ''C'', init))) ''a''
     \<and> x_deploy 10000 (x_rpc Reg_void x_signed RpcError) ''f'' x_requested = Some (JobUnrecoverable, x_failed)
     \<and> x_work 20000 ''g'' True 50 ''N'' x_failed = (Inr (x_row 20000 ''g'' 50), x_again)
     \<and> x_deploy 30000 (x_rpc (Reg_address (x_address CHR ''C'')) x_signed RpcError) ''g'' x_again = Some (JobDone, x_healed)
     \<and> (\<exists>f \<in> set (fd_rows x_healed). fc_status f = FC_deployed \<and> fc_token f = Some (x_address CHR ''C'')
           \<and> fc_artist_retention f = Some 500 \<and> fc_artwork f = ''a'')"
proof -
  have amounts: "computeRetentionAmount 1000 10 = 100" "computeRetentionAmount 1000 50 = 500"
    by (simp_all add: computeRetentionAmount_def signed_divide_int_def)
  have "fc_artist_retention (deployed_fields 30000 x_latch (x_row 20000 ''g'' 50)) = Some 500"
    by (simp add: deployed_fields_def x_latch_def worker_latch_def amounts)
  then show ?thesis
    by (intro exI [of _ "token_init_of 10 (x_row 1 ''f'' 10)"] conjI x_failed_eq(1) x_again_eq(1) x_healed_eq(1)
        bexI [of _ "deployed_fields 30000 x_latch (x_row 20000 ''g'' 50)"])
      (simp_all add: factory_deploy_def token_init_of_def amounts truthful_def x_rpc_def in_registry_def x_healed_eq(2) x_latch_def
        worker_latch_def)
qed

text \<open>
  A job whose earlier transaction lands between the registry read and the simulation simulates a duplicate; the
  adapter throws an untyped error, nobody reads the registry again, and the worker latches failed.
\<close>

lemma duplicate_simulation_is_terminal:
  "\<exists>d. x_deploy 10000 (x_rpc Reg_void Dsim_error (Rpc FTx_not_found)) ''f'' x_requested = Some (JobUnrecoverable, d)
     \<and> map fc_status (fd_rows d) = [FC_failed]"
  unfolding x_requested_eq by (simp add: x_eval x_cfg_def)

text \<open>A name of spaces passes the DTO; the CHECK of the table refuses it and the client gets a 500.\<close>

lemma blank_name_is_internal_error:
  "fractionalize_dto_ok (\<lambda>c. False) (x_dto 10 '' '')
     \<and> x_work 1 ''f'' True 10 '' '' (catalogue [x_artwork]) = (Inl (InternalError ''23514''), catalogue [x_artwork])"
  by (simp add: fractionalize_dto_ok_def x_dto_def symbol_like_def symbol_char_def less_eq_char_def name_char_def
      x_work_def fractionalize_work_def x_request_def catalogue_def aw_findOneById_def sql_find_def x_artwork_def x_primary
      fractionalize_txn_def run_txn_def fd_cas_artwork_def aw_casStatus_def cas_rows_def sql_update_def deploying_row_def
      fc_insert_def chk_fraction_def chk_text_def btrim_def UNIQUE_ACTIVE_INDEX_def)

text \<open>The lockup a healed row records is the retry's, later than the one on the chain.\<close>

lemma healed_lockup_is_later:
  "ts < ts' \<Longrightarrow> \<exists>u. dl_lockup (worker_latch ts' f token None) = Some u \<and> ti_artist_until (token_init_of ts f) < u"
  by (simp add: worker_latch_def token_init_of_def computeLockupUntil_def)

section \<open>Witnesses\<close>

lemma x_catalogue: "fresh_catalogue [x_artwork]"
  by (simp add: fresh_catalogue_def x_artwork_def)

lemma x_runs: "fraction_steps (catalogue [x_artwork]) x_requested" "fraction_steps x_requested x_healed"
proof -
  have ok: "fraction_ok (catalogue [x_artwork])" by (rule catalogue_ok [OF x_catalogue])
  show 1: "fraction_steps (catalogue [x_artwork]) x_requested"
    unfolding x_work_def by (rule fractionalize_work_run [OF interleaved_id ok])
  note k1 = fraction_steps_keep(1) [OF 1 ok]
  have 2: "fraction_steps x_requested x_failed"
    using deploy_process_run [OF interleaved_id k1] x_failed_eq(1) unfolding x_deploy_def by blast
  note k2 = fraction_steps_keep(1) [OF 2 k1]
  have 3: "fraction_steps x_failed x_again"
    using fractionalize_work_run [OF interleaved_id k2] unfolding x_again_def x_work_def by blast
  note k3 = fraction_steps_keep(1) [OF 3 k2]
  have "fraction_steps x_again x_healed"
    using deploy_process_run [OF interleaved_id k3] x_healed_eq(1) unfolding x_deploy_def by blast
  then show "fraction_steps x_requested x_healed" using 2 3 by simp
qed

theorem fraction_lifecycle_witness: "fraction_ok x_healed \<and> tables_move x_requested x_healed"
  by (rule fraction_lifecycle [OF x_catalogue x_runs])

text \<open>The world after the request, and after a deploy that the worker sees.\<close>

definition x_world :: "ident list \<Rightarrow> ident list \<Rightarrow> fworld" where
  "x_world due started = \<lparr>fw_db = x_requested, fw_due = due, fw_started = started, fw_sent = [], fw_tokens = Map.empty\<rparr>"

lemma x_world_request: "fw_steps (fw_start [x_artwork]) (x_world [''f''] [])"
proof -
  have t: "fractionalize_txn 1 True ''adm'' (x_row 1 ''f'' 10) (catalogue [x_artwork]) = (Inr (x_row 1 ''f'' 10), x_requested)"
    unfolding x_requested_eq
    by (simp add: catalogue_def x_artwork_def fractionalize_txn_def run_txn_def fd_cas_artwork_def aw_casStatus_def cas_rows_def
        sql_update_def fc_insert_def fd_record_def)
  have "fw_step (fw_start [x_artwork]) (x_world [''f''] [])"
    using fw_step.request [of "x_row 1 ''f'' 10" 1 True "''adm''" "fw_start [x_artwork]"] t by (simp add: fw_start_def x_world_def)
  then show ?thesis by simp
qed

theorem lost_job_strands_artwork_witness:
  "\<exists>w. fw_steps (fw_start [x_artwork]) w
     \<and> fractionalize_work x_cfg (x_request 9 ''g'' True) (\<lambda>x. x) ''a'' (x_dto 10 ''N'') ''adm'' (fw_db w)
        = (Inl (FailHttp ''ARTWORK_FRACTIONALIZATION_IN_PROGRESS'' 409), fw_db w)"
proof -
  have "fw_step (x_world [''f''] []) (x_world [] [])"
    using enqueue_lost [of "''f''" "x_world [''f''] []"] by (simp add: x_world_def)
  then have run: "fw_steps (fw_start [x_artwork]) (x_world [] [])" using x_world_request by simp
  have "stranded ''a'' ''f'' (x_world [] [])" by (simp add: stranded_def x_world_def x_requested_eq)
  from lost_job_strands_artwork [OF x_catalogue run this rtranclp.rtrancl_refl] run show ?thesis by blast
qed


end
