(* ===== verification/Worker_Pool.thy ===== *)
theory Worker_Pool
  imports Prelude
begin

text \<open>
  \<open>modules/fractionalization/run-bounded.ts\<close>: a pool of at most \<open>limit\<close> workers over a list. A worker pulls
  the next index, awaits the call and stores its result; the first error stops the pulling. One step is
  what a worker does between two awaits, so the runs are all orders in which the calls may end.
\<close>

section \<open>The pool\<close>

text \<open>
  \<open>pl_running\<close> are the indices being awaited, one per busy worker; \<open>pl_idle\<close> the workers at their loop
  test; \<open>pl_error\<close> is \<open>failed\<close> with \<open>firstError\<close>.
\<close>

record ('e, 'r) pool =
  pl_cursor :: nat
  pl_running :: "nat list"
  pl_idle :: nat
  pl_results :: "'r option list"
  pl_error :: "'e option"

definition pool_start :: "nat \<Rightarrow> nat \<Rightarrow> ('e, 'r) pool" where
  "pool_start limit n = \<lparr>pl_cursor = 0, pl_running = [], pl_idle = min limit n, pl_results = replicate n None, pl_error = None\<rparr>"

definition pool_more :: "nat \<Rightarrow> ('e, 'r) pool \<Rightarrow> bool" where
  "pool_more n p \<longleftrightarrow> pl_cursor p < n \<and> pl_error p = None"

text \<open>\<open>call i\<close> is how the call on item \<open>i\<close> ends.\<close>

inductive pool_step :: "nat \<Rightarrow> (nat \<Rightarrow> 'e + 'r) \<Rightarrow> ('e, 'r) pool \<Rightarrow> ('e, 'r) pool \<Rightarrow> bool" for n call where
  pull: "0 < pl_idle p \<Longrightarrow> pool_more n p
    \<Longrightarrow> pool_step n call p (p\<lparr>pl_idle := pl_idle p - 1, pl_running := pl_cursor p # pl_running p, pl_cursor := Suc (pl_cursor p)\<rparr>)"
| returns: "0 < pl_idle p \<Longrightarrow> \<not> pool_more n p \<Longrightarrow> pool_step n call p (p\<lparr>pl_idle := pl_idle p - 1\<rparr>)"
| result: "i \<in> set (pl_running p) \<Longrightarrow> call i = Inr x
    \<Longrightarrow> pool_step n call p (p\<lparr>pl_running := remove1 i (pl_running p), pl_idle := Suc (pl_idle p),
          pl_results := (pl_results p)[i := Some x]\<rparr>)"
| error: "i \<in> set (pl_running p) \<Longrightarrow> call i = Inl e
    \<Longrightarrow> pool_step n call p (p\<lparr>pl_running := remove1 i (pl_running p), pl_idle := Suc (pl_idle p),
          pl_error := (case pl_error p of None \<Rightarrow> Some e | Some e' \<Rightarrow> Some e')\<rparr>)"

text \<open>\<open>Promise.all\<close> settles when every worker has returned.\<close>

definition pool_over :: "('e, 'r) pool \<Rightarrow> bool" where
  "pool_over p \<longleftrightarrow> pl_idle p = 0 \<and> pl_running p = []"

definition pool_answer :: "('e, 'r) pool \<Rightarrow> 'e + 'r option list" where
  "pool_answer p = (case pl_error p of Some e \<Rightarrow> Inl e | None \<Rightarrow> Inr (pl_results p))"

text \<open>A limit below one is a \<open>RangeError\<close>; otherwise some run of the pool gives the answer.\<close>

definition run_bounded :: "nat \<Rightarrow> nat \<Rightarrow> (nat \<Rightarrow> 'e + 'r) \<Rightarrow> 'e \<Rightarrow> ('e + 'r option list) \<Rightarrow> bool" where
  "run_bounded limit n call rangeError a \<longleftrightarrow> (if limit < 1 then a = Inl rangeError
     else \<exists>p. (pool_step n call)\<^sup>*\<^sup>* (pool_start limit n) p \<and> pool_over p \<and> a = pool_answer p)"

section \<open>Every schedule\<close>

text \<open>What the indices below the cursor have become.\<close>

definition pool_ok :: "nat \<Rightarrow> nat \<Rightarrow> (nat \<Rightarrow> 'e + 'r) \<Rightarrow> ('e, 'r) pool \<Rightarrow> bool" where
  "pool_ok limit n call p \<longleftrightarrow> length (pl_running p) + pl_idle p \<le> min limit n \<and> distinct (pl_running p)
     \<and> (\<forall>i \<in> set (pl_running p). i < pl_cursor p) \<and> pl_cursor p \<le> n \<and> length (pl_results p) = n
     \<and> (\<forall>i < n. \<forall>x. pl_results p ! i = Some x \<longrightarrow> call i = Inr x)
     \<and> (\<forall>e. pl_error p = Some e \<longrightarrow> (\<exists>i < n. call i = Inl e))
     \<and> (pl_error p = None \<longrightarrow> (\<forall>i < pl_cursor p. i \<in> set (pl_running p) \<or> pl_results p ! i \<noteq> None)
        \<and> (pl_cursor p < n \<longrightarrow> length (pl_running p) + pl_idle p = min limit n))"

lemma awaited_removed: "i \<in> set xs \<Longrightarrow> Suc (length (remove1 i xs)) = length xs"
  by (induction xs) auto

lemma pool_start_ok: "pool_ok limit n call (pool_start limit n)"
  by (simp add: pool_ok_def pool_start_def)

lemma pool_step_ok:
  assumes "pool_step n call p q" "pool_ok limit n call p"
  shows "pool_ok limit n call q"
  using assms
proof (induction rule: pool_step.induct)
  case (pull p)
  then show ?case by (auto simp: pool_ok_def pool_more_def less_Suc_eq)
next
  case (returns p)
  then show ?case by (auto simp: pool_ok_def pool_more_def)
next
  case (result i p x)
  have "length (remove1 i (pl_running p)) + Suc (pl_idle p) = length (pl_running p) + pl_idle p"
    using awaited_removed [OF result(1)] by simp
  moreover have lt: "i < n" "length (pl_results p) = n" using result(1,3) by (auto simp: pool_ok_def)
  moreover have "(pl_results p)[i := Some x] ! j = (if i = j then Some x else pl_results p ! j)" for j
    using lt by (simp add: nth_list_update)
  ultimately show ?case using result by (auto simp: pool_ok_def)
next
  case (error i p e)
  have "length (remove1 i (pl_running p)) + Suc (pl_idle p) = length (pl_running p) + pl_idle p"
    using awaited_removed [OF error(1)] by simp
  moreover have "i < n" using error(1,3) by (auto simp: pool_ok_def)
  ultimately show ?case using error by (auto simp: pool_ok_def split: option.splits)
qed

lemma pool_steps_ok: "(pool_step n call)\<^sup>*\<^sup>* p q \<Longrightarrow> pool_ok limit n call p \<Longrightarrow> pool_ok limit n call q"
  by (induction rule: rtranclp_induct) (auto intro: pool_step_ok)

text \<open>Every step uses up the work, and a pool that is not over has a step.\<close>

definition pool_work :: "nat \<Rightarrow> ('e, 'r) pool \<Rightarrow> nat" where
  "pool_work n p = 3 * (n - pl_cursor p) + 2 * length (pl_running p) + pl_idle p"

lemma pool_step_work: "pool_step n call p q \<Longrightarrow> pool_work n q < pool_work n p"
proof (induction rule: pool_step.induct)
  case (result i p x)
  then show ?case using awaited_removed [OF result(1)] by (simp add: pool_work_def)
next
  case (error i p e)
  then show ?case using awaited_removed [OF error(1)] by (simp add: pool_work_def)
qed (auto simp: pool_work_def pool_more_def)

lemma pool_progress: "\<not> pool_over p \<Longrightarrow> \<exists>q. pool_step n call p q"
proof (cases "pl_running p")
  case Nil
  assume "\<not> pool_over p"
  with Nil have "0 < pl_idle p" by (simp add: pool_over_def)
  then show ?thesis using pull [of p n call] returns [of p n call] by blast
next
  case (Cons i rest)
  then show ?thesis using result [of i p call _ n] error [of i p call _ n] by (cases "call i") auto
qed

lemma pool_ends: "\<exists>q. (pool_step n call)\<^sup>*\<^sup>* p q \<and> pool_over q"
proof (induction "pool_work n p" arbitrary: p rule: less_induct)
  case less
  show ?case
  proof (cases "pool_over p")
    case False
    then obtain q where q: "pool_step n call p q" using pool_progress by blast
    from less [OF pool_step_work [OF q]] show ?thesis using q by (meson converse_rtranclp_into_rtranclp)
  qed blast
qed

lemma pool_run_length: "(pool_step n call ^^ k) p q \<Longrightarrow> k + pool_work n q \<le> pool_work n p"
  by (induction k arbitrary: q) (auto dest!: pool_step_work, force)

lemma pool_answer_exact:
  assumes "pool_ok limit n call p" "pool_over p" "0 < limit"
  shows "case pool_answer p of
      Inr rs \<Rightarrow> length rs = n \<and> (\<forall>i < n. \<exists>x. call i = Inr x \<and> rs ! i = Some x)
    | Inl e \<Rightarrow> \<exists>i < n. call i = Inl e"
proof (cases "pl_error p")
  case None
  have "\<not> pl_cursor p < n" using assms None by (auto simp: pool_ok_def pool_over_def)
  then have "\<forall>i < n. pl_results p ! i \<noteq> None" using assms(1,2) None by (auto simp: pool_ok_def pool_over_def)
  then show ?thesis using assms(1) None by (auto simp: pool_ok_def pool_answer_def)
next
  case (Some e)
  then show ?thesis using assms(1) by (simp add: pool_ok_def pool_answer_def)
qed

text \<open>
  C34. The bounded pool. In every schedule at most \<open>limit\<close> calls run at a time; every run ends, after at most three
  steps per item and one per worker, and cannot stop before it is over; its answer is every call's result in the order
  of the items when no call fails, and otherwise the error of a call that failed.
\<close>

theorem run_bounded_exact:
  assumes "0 < limit" "(pool_step n call ^^ k) (pool_start limit n) p"
  shows "length (pl_running p) \<le> limit \<and> k \<le> 3 * n + limit
    \<and> (\<not> pool_over p \<longrightarrow> (\<exists>q. pool_step n call p q))
    \<and> (pool_over p \<longrightarrow> (case pool_answer p of
          Inr rs \<Rightarrow> length rs = n \<and> (\<forall>i < n. \<exists>x. call i = Inr x \<and> rs ! i = Some x)
        | Inl e \<Rightarrow> \<exists>i < n. call i = Inl e))"
proof -
  have ok: "pool_ok limit n call p"
    using pool_steps_ok [OF relpowp_imp_rtranclp [OF assms(2)] pool_start_ok] .
  have "k \<le> 3 * n + limit" using pool_run_length [OF assms(2)] by (simp add: pool_work_def pool_start_def)
  moreover have "length (pl_running p) \<le> limit" using ok by (simp add: pool_ok_def)
  ultimately show ?thesis using pool_progress pool_answer_exact [OF ok _ assms(1)] by blast
qed

text \<open>The answers \<open>run_bounded\<close> can give: some answer always, and only those.\<close>

lemma run_bounded_answers:
  assumes "0 < limit"
  shows "\<exists>a. run_bounded limit n call r a"
    "run_bounded limit n call r (Inr rs) \<Longrightarrow> length rs = n \<and> (\<forall>i < n. \<exists>x. call i = Inr x \<and> rs ! i = Some x)"
    "run_bounded limit n call r (Inl e) \<Longrightarrow> \<exists>i < n. call i = Inl e"
proof -
  show "\<exists>a. run_bounded limit n call r a" using pool_ends [of n call "pool_start limit n"] assms by (auto simp: run_bounded_def)
  have "case a of Inr rs \<Rightarrow> length rs = n \<and> (\<forall>i < n. \<exists>x. call i = Inr x \<and> rs ! i = Some x) | Inl e \<Rightarrow> \<exists>i < n. call i = Inl e"
    if a: "run_bounded limit n call r a" for a
  proof -
    obtain p where p: "(pool_step n call)\<^sup>*\<^sup>* (pool_start limit n) p" "pool_over p" "a = pool_answer p"
      using a assms by (auto simp: run_bounded_def)
    show ?thesis unfolding p(3) by (rule pool_answer_exact [OF pool_steps_ok [OF p(1) pool_start_ok] p(2) assms])
  qed
  from this [of "Inr rs"] this [of "Inl e"]
  show "run_bounded limit n call r (Inr rs) \<Longrightarrow> length rs = n \<and> (\<forall>i < n. \<exists>x. call i = Inr x \<and> rs ! i = Some x)"
    "run_bounded limit n call r (Inl e) \<Longrightarrow> \<exists>i < n. call i = Inl e" by simp_all
qed

lemma run_bounded_exact_witness:
  "\<exists>p. (pool_step 1 (\<lambda>i. Inr (i + 7) :: bool + nat) ^^ 3) (pool_start 1 1) p \<and> pool_over p \<and> pool_answer p = Inr [Some 7] \<and> (3::nat) \<le> 3 * 1 + 1"
proof -
  let ?call = "\<lambda>i. Inr (i + 7) :: bool + nat"
  define p0 where "p0 = (pool_start 1 1 :: (bool, nat) pool)"
  define p1 where "p1 = p0\<lparr>pl_idle := 0, pl_running := [0], pl_cursor := 1\<rparr>"
  define p2 where "p2 = p1\<lparr>pl_running := [], pl_idle := 1, pl_results := [Some 7]\<rparr>"
  define p3 where "p3 = p2\<lparr>pl_idle := 0\<rparr>"
  have s1: "pool_step 1 ?call p0 p1"
    using pool_step.pull [of p0 1 ?call] by (simp add: p0_def p1_def pool_start_def pool_more_def)
  have s2: "pool_step 1 ?call p1 p2"
    using pool_step.result [of 0 p1 ?call 7 1] by (simp add: p0_def p1_def p2_def pool_start_def)
  have s3: "pool_step 1 ?call p2 p3"
    using pool_step.returns [of p2 1 ?call] by (simp add: p0_def p1_def p2_def p3_def pool_start_def pool_more_def)
  have run: "(pool_step 1 ?call ^^ 3) (pool_start 1 1) p3"
    using s1 s2 s3 unfolding p0_def by (auto simp: numeral_3_eq_3 OO_def)
  have over: "pool_over p3" by (simp add: pool_over_def p3_def p2_def)
  have "pool_answer p3 = Inr [Some 7]" by (simp add: pool_answer_def p3_def p2_def p1_def p0_def pool_start_def)
  then show ?thesis using run over run_bounded_exact [OF _ run] by auto
qed

end
