(* ===== verification/Holdings.thy ===== *)
theory Holdings
  imports Fraction Worker_Pool
begin

text \<open>
  The holdings of a collector: the balance reader (\<open>soroban-fraction-read.service.ts\<close>), the cache
  (\<open>me/holdings-cache.ts\<close>) and \<open>me/me-holdings.service.ts\<close>. The simulations' answers, the time budget, Redis
  and \<open>slugFallback\<close> are arguments; \<open>JSON.parse\<close> of a cached value gives an array, something else, or throws.
\<close>

section \<open>Balances\<close>

datatype read_throw = Read_down | Bad_amount amount_error | Bad_limit

datatype balance_sim = Bal_unsuccessful | Bal_no_value | Bal_value int

text \<open>A simulation of an archived entry is a success whose value still reads.\<close>

definition readOne :: "balance_sim rpc \<Rightarrow> read_throw + string" where
  "readOne sim = (case sim of Rpc (Bal_value v) \<Rightarrow> Inr (String_of v) | _ \<Rightarrow> Inl Read_down)"

text \<open>The answers a call can give; \<open>in_time\<close> is whether the fan-out beats its budget.\<close>

definition balancesOf ::
  "nat \<Rightarrow> ident list \<Rightarrow> (nat \<Rightarrow> balance_sim rpc) \<Rightarrow> bool \<Rightarrow> (read_throw + (ident \<times> string) list) \<Rightarrow> bool" where
  "balancesOf concurrency tokens sims in_time a \<longleftrightarrow>
     (if tokens = [] then a = Inr []
      else if \<not> in_time then a = Inl Read_down
      else \<exists>x. run_bounded concurrency (length tokens) (\<lambda>i. readOne (sims i)) Bad_limit x
        \<and> a = (case x of Inl e \<Rightarrow> Inl e | Inr rs \<Rightarrow> Inr (zip tokens (map the rs))))"

section \<open>The cache\<close>

datatype 'b cache_answer = Cache_down | Cache_miss | Cache_array 'b | Cache_other | Cache_malformed

fun cache_get :: "'b cache_answer \<Rightarrow> 'b option" where
  "cache_get (Cache_array hs) = Some hs"
| "cache_get _ = None"

section \<open>Holdings\<close>

record holding =
  ho_artwork :: ident
  ho_title :: string
  ho_slug :: string
  ho_image :: "string option"
  ho_token :: ident
  ho_balance :: int
  ho_locked :: int
  ho_free :: int
  ho_handle :: "string option"

definition MS_PER_DAY :: int where
  "MS_PER_DAY = 86400000"

definition artistLockedAmount :: "fraction_row \<Rightarrow> ident \<Rightarrow> int \<Rightarrow> instant \<Rightarrow> int" where
  "artistLockedAmount contract wallet balance now =
     (if wallet \<noteq> fc_artist_address contract then 0
      else if now \<ge> fc_created contract + fc_artist_days contract * MS_PER_DAY then 0
      else (let retention = amount_or_0 (fc_artist_retention contract) in
        if balance < retention then balance else retention))"

definition holding_row :: "(string \<Rightarrow> ident \<Rightarrow> string) \<Rightarrow> instant \<Rightarrow> ident \<Rightarrow> fraction_row \<Rightarrow> ident \<Rightarrow> artwork_row \<Rightarrow> int \<Rightarrow> holding" where
  "holding_row slug now wallet c token a balance =
     (let locked = artistLockedAmount c wallet balance now in
      \<lparr>ho_artwork = aw_id a, ho_title = aw_title a, ho_slug = slug (aw_title a) (aw_id a), ho_image = aw_image a,
       ho_token = token, ho_balance = balance, ho_locked = locked,
       ho_free = (if balance - locked < 0 then 0 else balance - locked), ho_handle = aw_handle a\<rparr>)"

fun holding_rows ::
  "(string \<Rightarrow> ident \<Rightarrow> string) \<Rightarrow> instant \<Rightarrow> ident \<Rightarrow> (ident \<Rightarrow> string option) \<Rightarrow> (ident \<Rightarrow> artwork_row option)
   \<Rightarrow> (fraction_row \<times> ident) list \<Rightarrow> amount_error + holding list" where
  "holding_rows slug now wallet balances artworks [] = Inr []"
| "holding_rows slug now wallet balances artworks ((c, token) # cs) =
     bindE (parseAmount (balances token) ''balance'' True) (\<lambda>balance.
     bindE (holding_rows slug now wallet balances artworks cs) (\<lambda>rows.
     if balance = 0 then Inr rows
     else case artworks (fc_artwork c) of
       None \<Rightarrow> Inr rows
     | Some a \<Rightarrow> Inr (holding_row slug now wallet c token a balance # rows)))"

text \<open>\<open>new Map(pairs)\<close> keeps the last pair of a key.\<close>

definition js_map :: "(ident \<times> 'v) list \<Rightarrow> ident \<Rightarrow> 'v option" where
  "js_map ps = map_of (rev ps)"

definition buildHoldings ::
  "(string \<Rightarrow> ident \<Rightarrow> string) \<Rightarrow> instant \<Rightarrow> ident \<Rightarrow> (fraction_row \<times> ident) list \<Rightarrow> read_throw + (ident \<times> string) list
   \<Rightarrow> artwork_row list \<Rightarrow> read_throw + holding list" where
  "buildHoldings slug now wallet deployed answer t =
     bindE answer (\<lambda>balances.
     case holding_rows slug now wallet (js_map balances)
            (js_map (map (\<lambda>a. (aw_id a, a)) (aw_findByIds (remdups (map (\<lambda>(c, _). fc_artwork c) deployed)) t))) deployed of
       Inl e \<Rightarrow> Inl (Bad_amount e) | Inr rows \<Rightarrow> Inr rows)"

definition deployed_tokens :: "fraction_row list \<Rightarrow> (fraction_row \<times> ident) list" where
  "deployed_tokens t = concat (map (\<lambda>c. case fc_token c of None \<Rightarrow> [] | Some a \<Rightarrow> [(c, a)]) (fc_findAllDeployed t))"

text \<open>The result and what is written to the cache.\<close>

definition loadAndCache ::
  "(string \<Rightarrow> ident \<Rightarrow> string) \<Rightarrow> instant \<Rightarrow> ident \<Rightarrow> fraction_row list \<Rightarrow> read_throw + (ident \<times> string) list
   \<Rightarrow> artwork_row list \<Rightarrow> (http_error + holding list) \<times> holding list option" where
  "loadAndCache slug now wallet rows answer t =
     (let deployed = deployed_tokens rows in
      if deployed = [] then (Inr [], Some [])
      else case buildHoldings slug now wallet deployed answer t of
        Inl Bad_limit \<Rightarrow> (Inl (InternalError ''RangeError''), None)
      | Inl _ \<Rightarrow> (Inl (FailHttp ''HOLDINGS_UNAVAILABLE'' 503), None)
      | Inr hs \<Rightarrow> (Inr hs, Some hs))"

text \<open>\<open>running\<close> is how a read of the wallet already in flight in this instance ends.\<close>

definition listHoldings ::
  "ident \<Rightarrow> wdb \<Rightarrow> holding list cache_answer \<Rightarrow> (http_error + holding list) option
   \<Rightarrow> (ident \<Rightarrow> (http_error + holding list) \<times> holding list option) \<Rightarrow> (http_error + holding list) \<times> holding list option" where
  "listHoldings userId w cached running load =
     (let wallet = resolvePrimarySettlementAddress userId w in
      if wallet = None \<or> wallet = Some [] then (Inr [], None)
      else case cache_get cached of
        Some hs \<Rightarrow> (Inr hs, None)
      | None \<Rightarrow> (case running of Some r \<Rightarrow> (r, None) | None \<Rightarrow> load (the wallet)))"

section \<open>Properties\<close>

lemma locked_bounds:
  assumes "0 \<le> balance" "0 \<le> amount_or_0 (fc_artist_retention c)"
  shows "0 \<le> artistLockedAmount c w balance now" "artistLockedAmount c w balance now \<le> balance"
  using assms by (auto simp: artistLockedAmount_def Let_def)

text \<open>What a holding of a contract shows: all of the balance, split into locked and free.\<close>

lemma holding_row_splits:
  assumes "0 \<le> balance" "0 \<le> amount_or_0 (fc_artist_retention c)"
  shows "ho_balance (holding_row slug now w c token a balance) = balance"
    "ho_locked (holding_row slug now w c token a balance) + ho_free (holding_row slug now w c token a balance) = balance"
    "0 \<le> ho_locked (holding_row slug now w c token a balance)" "0 \<le> ho_free (holding_row slug now w c token a balance)"
  using locked_bounds [OF assms, of w now] by (simp_all add: holding_row_def Let_def)

lemma parse_String_of:
  "parseAmount (Some (String_of v)) f True = (if v < 0 then Inl (NegativeAmount f) else Inr v)"
  using decimal_round_trip [of v "[]"] by (auto simp: parseAmount_def)

text \<open>The rows of one deployed contract for a balance.\<close>

definition rows_for ::
  "(string \<Rightarrow> ident \<Rightarrow> string) \<Rightarrow> instant \<Rightarrow> ident \<Rightarrow> (ident \<Rightarrow> artwork_row option) \<Rightarrow> fraction_row \<times> ident \<Rightarrow> int \<Rightarrow> holding list" where
  "rows_for slug now w artworks ct b = (if b = 0 then [] else case artworks (fc_artwork (fst ct)) of
     None \<Rightarrow> [] | Some a \<Rightarrow> [holding_row slug now w (fst ct) (snd ct) a b])"

lemma holding_rows_exact:
  assumes "length bs = length cs" "\<And>i. i < length cs \<Longrightarrow> balances (snd (cs ! i)) = Some (String_of (bs ! i))"
  shows "holding_rows slug now w balances artworks cs =
    (if \<forall>b \<in> set bs. 0 \<le> b then Inr (concat (map (\<lambda>(ct, b). rows_for slug now w artworks ct b) (zip cs bs)))
     else Inl (NegativeAmount ''balance''))"
  using assms
proof (induction cs arbitrary: bs)
  case (Cons p cs)
  obtain c token where p: "p = (c, token)" by fastforce
  from Cons.prems(1) obtain b bs' where bs: "bs = b # bs'" "length bs' = length cs" by (cases bs) auto
  have hd: "balances token = Some (String_of b)" using Cons.prems(2) [of 0] p bs(1) by simp
  have "balances (snd (cs ! i)) = Some (String_of (bs' ! i))" if "i < length cs" for i
    using Cons.prems(2) [of "Suc i"] that bs(1) by simp
  note ih = Cons.IH [OF bs(2) this]
  have r: "rows_for slug now w artworks (c, token) b = (if b = 0 then [] else case artworks (fc_artwork c) of
     None \<Rightarrow> [] | Some a \<Rightarrow> [holding_row slug now w c token a b])"
    by (cases "artworks (fc_artwork c)") (simp_all add: rows_for_def)
  show ?case using p bs hd ih by (auto simp: parse_String_of r split: option.splits)
qed simp

lemma js_map_zip:
  assumes "distinct ks" "length vs = length ks" "i < length ks"
  shows "js_map (zip ks vs) (ks ! i) = Some (vs ! i)"
proof -
  have "map fst (rev (zip ks vs)) = rev ks" using assms(2) by (simp add: rev_map [symmetric])
  then have "distinct (map fst (rev (zip ks vs)))" using assms(1) by simp
  moreover have "(ks ! i, vs ! i) \<in> set (rev (zip ks vs))" using assms by (auto simp: in_set_zip)
  ultimately show ?thesis unfolding js_map_def by (rule map_of_is_SomeI)
qed

definition sim_good :: "balance_sim rpc \<Rightarrow> bool" where
  "sim_good s \<longleftrightarrow> (case s of Rpc (Bal_value v) \<Rightarrow> 0 \<le> v | _ \<Rightarrow> False)"

definition sim_balance :: "balance_sim rpc \<Rightarrow> int" where
  "sim_balance s = (case s of Rpc (Bal_value v) \<Rightarrow> v | _ \<Rightarrow> 0)"

lemma readOne_cases: "readOne s = Inr x \<Longrightarrow> x = String_of (sim_balance s) \<and> (sim_good s = (0 \<le> sim_balance s))"
  "readOne s = Inl e \<Longrightarrow> e = Read_down \<and> \<not> sim_good s"
  by (auto simp: readOne_def sim_balance_def sim_good_def split: rpc.splits balance_sim.splits)

text \<open>
  C35. Holdings are complete or absent. For a collector's wallet and the deployed contracts with their distinct tokens,
  whatever order the balance reads end in: either every read succeeded in time with a non-negative balance, and the list
  has exactly one row for each contract with a positive balance and a live artwork, in the order of the contracts
  and with the balance of the chain; or some read failed, was late or was negative, and the answer is a 503 and
  nothing is cached. Never a partial list.
\<close>

theorem holdings_complete_or_absent:
  assumes "0 < concurrency" "deployed_tokens rows \<noteq> []" "distinct (map snd (deployed_tokens rows))"
    "balancesOf concurrency (map snd (deployed_tokens rows)) sims in_time answer"
  shows "case loadAndCache slug now w rows answer t of
      (Inr hs, cached) \<Rightarrow> in_time \<and> (\<forall>i < length (deployed_tokens rows). sim_good (sims i)) \<and> cached = Some hs
        \<and> hs = concat (map (\<lambda>i. rows_for slug now w
            (js_map (map (\<lambda>a. (aw_id a, a)) (aw_findByIds (remdups (map (\<lambda>(c, _). fc_artwork c) (deployed_tokens rows))) t)))
            (deployed_tokens rows ! i) (sim_balance (sims i))) [0..<length (deployed_tokens rows)])
    | (Inl e, cached) \<Rightarrow> e = FailHttp ''HOLDINGS_UNAVAILABLE'' 503 \<and> cached = None
        \<and> (\<not> in_time \<or> (\<exists>i < length (deployed_tokens rows). \<not> sim_good (sims i)))"
proof -
  define dep where "dep = deployed_tokens rows"
  define arts where "arts = js_map (map (\<lambda>a. (aw_id a, a)) (aw_findByIds (remdups (map (\<lambda>(c, _). fc_artwork c) dep)) t))"
  define n where "n = length dep"
  have dep: "dep \<noteq> []" "distinct (map snd dep)" using assms(2,3) by (simp_all add: dep_def)
  have load: "loadAndCache slug now w rows answer t = (case buildHoldings slug now w dep answer t of
        Inl Bad_limit \<Rightarrow> (Inl (InternalError ''RangeError''), None)
      | Inl _ \<Rightarrow> (Inl (FailHttp ''HOLDINGS_UNAVAILABLE'' 503), None) | Inr hs \<Rightarrow> (Inr hs, Some hs))"
    using dep(1) by (simp add: loadAndCache_def dep_def Let_def)
  have "(answer = Inl Read_down \<and> \<not> in_time) \<or> (\<exists>x. in_time \<and> run_bounded concurrency n (\<lambda>i. readOne (sims i)) Bad_limit x
      \<and> answer = (case x of Inl e \<Rightarrow> Inl e | Inr rs \<Rightarrow> Inr (zip (map snd dep) (map the rs))))"
    using assms(4) dep(1) unfolding dep_def [symmetric] by (auto simp: balancesOf_def n_def split: if_splits)
  then consider (late) "answer = Inl Read_down" "\<not> in_time"
    | (bad) e where "in_time" "run_bounded concurrency n (\<lambda>i. readOne (sims i)) Bad_limit (Inl e)" "answer = Inl e"
    | (good) rs where "in_time" "run_bounded concurrency n (\<lambda>i. readOne (sims i)) Bad_limit (Inr rs)"
        "answer = Inr (zip (map snd dep) (map the rs))"
  proof (elim disjE exE conjE, goal_cases)
    case 1
    then show ?case by blast
  next
    case (2 x)
    then show ?case by (cases x) auto
  qed
  then show ?thesis
  proof cases
    case late
    then show ?thesis unfolding load by (simp add: buildHoldings_def)
  next
    case bad
    from run_bounded_answers(3) [OF assms(1) bad(2)] obtain i where "i < n" "readOne (sims i) = Inl e" by blast
    then have "e = Read_down" "i < length (deployed_tokens rows)" "\<not> sim_good (sims i)"
      using readOne_cases(2) by (auto simp: n_def dep_def)
    then show ?thesis using bad(3) unfolding load by (auto simp: buildHoldings_def)
  next
    case good
    from run_bounded_answers(2) [OF assms(1) good(2)]
    have rs: "length rs = n" "\<And>i. i < n \<Longrightarrow> \<exists>x. readOne (sims i) = Inr x \<and> rs ! i = Some x" by auto
    define bs where "bs = map (\<lambda>i. sim_balance (sims i)) [0..<n]"
    have str: "rs ! i = Some (String_of (bs ! i)) \<and> (sim_good (sims i) = (0 \<le> bs ! i))" if i: "i < n" for i
    proof -
      obtain x where x: "readOne (sims i) = Inr x" "rs ! i = Some x" using rs(2) [OF i] by blast
      show ?thesis using readOne_cases(1) [OF x(1)] x(2) i by (simp add: bs_def)
    qed
    have bal: "js_map (zip (map snd dep) (map the rs)) (snd (dep ! i)) = Some (String_of (bs ! i))" if i: "i < length dep" for i
      using js_map_zip [OF dep(2), of "map the rs" i] rs(1) str [of i] i by (simp add: n_def)
    have len: "length bs = length dep" by (simp add: bs_def n_def)
    have all: "(\<forall>b \<in> set bs. 0 \<le> b) = (\<forall>i < n. sim_good (sims i))"
      unfolding all_set_conv_all_nth using str len by (simp add: n_def)
    have zip: "map (\<lambda>(ct, b). rows_for slug now w arts ct b) (zip dep bs)
        = map (\<lambda>i. rows_for slug now w arts (dep ! i) (sim_balance (sims i))) [0..<n]"
      by (rule nth_equalityI) (simp_all add: bs_def n_def)
    have build: "buildHoldings slug now w dep answer t = (if \<forall>i < n. sim_good (sims i)
        then Inr (concat (map (\<lambda>i. rows_for slug now w arts (dep ! i) (sim_balance (sims i))) [0..<n]))
        else Inl (Bad_amount (NegativeAmount ''balance'')))"
    proof -
      have "holding_rows slug now w (js_map (zip (map snd dep) (map the rs))) arts dep = (if \<forall>i < n. sim_good (sims i)
          then Inr (concat (map (\<lambda>i. rows_for slug now w arts (dep ! i) (sim_balance (sims i))) [0..<n]))
          else Inl (NegativeAmount ''balance''))"
        by (rule trans [OF holding_rows_exact [OF len bal]]) (simp_all only: all zip)
      then show ?thesis unfolding buildHoldings_def good(3) arts_def [symmetric] by simp
    qed
    show ?thesis
    proof (cases "\<forall>i < n. sim_good (sims i)")
      case True
      then show ?thesis using good(1) build unfolding load by (simp add: n_def dep_def arts_def)
    next
      case False
      then show ?thesis using build unfolding load by (auto simp: n_def dep_def)
    qed
  qed
qed

section \<open>Witness\<close>

definition h_contract :: fraction_row where
  "h_contract = \<lparr>fc_id = ''f'', fc_artwork = ''a'', fc_status = FC_deployed, fc_token = Some ''T'', fc_artist_address = ''G'',
     fc_supply = 1000, fc_artist_retention = Some 100, fc_treasury_retention = Some 50, fc_deleted = None, fc_lockup_until = None,
     fc_wasm = [], fc_name = ''N'', fc_symbol = ''NL'', fc_artist_pct = 10, fc_treasury_pct = 5, fc_artist_days = 1,
     fc_treasury_days = 1, fc_tx = None, fc_ledger = None, fc_created = 0, fc_updated = 0\<rparr>"

definition h_artwork :: artwork_row where
  "h_artwork = \<lparr>aw_id = ''a'', aw_status = AW_fractionalized, aw_artist_user = ''u'', aw_title = ''T'', aw_handle = None,
     aw_image = None, aw_created = 0, aw_updated = 0, aw_deleted = None\<rparr>"

lemma h_deployed: "deployed_tokens [h_contract] = [(h_contract, ''T'')]"
  by (simp add: deployed_tokens_def fc_findAllDeployed_def h_contract_def)

lemma holdings_complete_or_absent_witness:
  "\<exists>answer hs. balancesOf 5 [''T''] (\<lambda>_. Rpc (Bal_value 160)) True answer
     \<and> loadAndCache (\<lambda>a b. a) 10 ''G'' [h_contract] answer [h_artwork] = (Inr hs, Some hs)
     \<and> map ho_balance hs = [160] \<and> map ho_locked hs = [100] \<and> map ho_free hs = [60]"
proof -
  let ?sims = "\<lambda>_::nat. Rpc (Bal_value 160)"
  obtain x where x: "run_bounded 5 1 (\<lambda>i. readOne (?sims i)) Bad_limit x" using run_bounded_answers(1) [of 5] by fastforce
  define answer where "answer = (case x of Inl e \<Rightarrow> Inl e | Inr rs \<Rightarrow> Inr (zip [''T''] (map the rs)))"
  have b: "balancesOf 5 (map snd (deployed_tokens [h_contract])) ?sims True answer"
    using x by (auto simp: balancesOf_def h_deployed answer_def)
  have t: "case loadAndCache (\<lambda>a b. a) 10 ''G'' [h_contract] answer [h_artwork] of
      (Inr hs, cached) \<Rightarrow> cached = Some hs \<and> hs = rows_for (\<lambda>a b. a) 10 ''G''
        (js_map (map (\<lambda>a. (aw_id a, a)) (aw_findByIds [''a''] [h_artwork]))) (h_contract, ''T'') 160
    | (Inl e, cached) \<Rightarrow> False"
  proof -
    have ne: "deployed_tokens [h_contract] \<noteq> []" "distinct (map snd (deployed_tokens [h_contract]))"
      by (simp_all add: h_deployed)
    have art: "fc_artwork h_contract = ''a''" by (simp add: h_contract_def)
    show ?thesis using holdings_complete_or_absent [OF _ ne b, of "\<lambda>a b. a" 10 "''G''" "[h_artwork]"]
      by (simp add: h_deployed sim_good_def sim_balance_def art split: prod.splits sum.splits)
  qed
  have "rows_for (\<lambda>a b. a) 10 ''G'' (js_map (map (\<lambda>a. (aw_id a, a)) (aw_findByIds [''a''] [h_artwork]))) (h_contract, ''T'') 160
      = [holding_row (\<lambda>a b. a) 10 ''G'' h_contract ''T'' h_artwork 160]"
    by (simp add: rows_for_def js_map_def aw_findByIds_def h_artwork_def h_contract_def)
  moreover have "artistLockedAmount h_contract ''G'' 160 10 = 100"
    by (simp add: artistLockedAmount_def h_contract_def MS_PER_DAY_def amount_or_0_def)
  ultimately show ?thesis using t b
    by (intro exI [of _ answer] exI [of _ "[holding_row (\<lambda>a b. a) 10 ''G'' h_contract ''T'' h_artwork 160]"])
      (auto simp: h_deployed holding_row_def Let_def split: prod.splits sum.splits)
qed

end
