(* ===== verification/Spec2Isabelle.thy ===== *)
theory Spec2Isabelle
  imports Clearing_Witness Settle_Main Market_Main Wallet_Props Auth_Witness Drain_Witness
    Fraction_Witness Holdings
begin

text \<open>
  Tove Heritage sells fractions of artworks on Stellar. A curated \<^emph>\<open>primary offering\<close> collects
  sealed bids whose USDC is held by an escrow contract and settles them at one uniform price; on
  the \<^emph>\<open>secondary market\<close> a buyer asks for quotes, a holder signs one, and a settler contract
  swaps fractions for USDC. The core of the program is the NestJS API (\<open>src/apps/api/src\<close>): its
  services, repositories, queue workers and relayer. This development models that core, and of the
  contracts (\<open>src/apps/contracts\<close>) the offering escrow whose money the services settle.

  \<^bold>\<open>Conventions\<close>
  \<^item> Ids, addresses, hashes are \<open>string\<close>; money and counts are \<open>int\<close> (canonical strings of
    \<open>numeric(39,0)\<close> columns computed as \<open>BigInt\<close>; theory \<open>Money\<close> proves the strings lossless),
    instants are milliseconds. The contract's \<open>i128\<close> traps out of range are written out.
  \<^item> A table is the list of its rows; a repository statement is a function on it. A compare-and-set
    returns whether a row was affected. A CHECK constraint, unique index or guard trigger of a
    migration is a predicate on rows, and the machine theories show that it is kept.
  \<^item> A handler is a function of what it reads to \<open>error + value\<close> with the new tables; \<open>FailHttp\<close>
    carries \<open>failHttp\<close>'s code and status. \<open>run_txn\<close> is \<open>runInTransaction\<close>: an error rolls back.
    Where a handler reads before its transaction, the gate and the transaction take different
    tables, so that other requests run in between.
  \<^item> What the source does not define is an argument: fresh ids and tokens, the clock, sha-256,
    \<open>JSON.stringify\<close>, the COSE decoder, the answers of the RPC server, Redis and the queues.

  \<^bold>\<open>Primary offerings\<close>
  \<^item> \<open>Clearing\<close>, \<open>Clearing_Correct\<close>, \<open>Clearing_Props\<close>, \<open>Clearing_Witness\<close>
    (\<open>modules/offerings/clearing.ts\<close>): the uniform-price engine and its belt. Conservation, the
    price, Hamilton rounding, order independence, exact errors; the belt accepts the engine's
    result and accepts nothing else.
  \<^item> \<open>Money\<close> (\<open>stroops.constant.ts\<close>, \<open>bid-money.ts\<close>, \<open>amount.ts\<close>, \<open>fail-http.ts\<close>): amounts, their
    round trip, band and float helpers.
  \<^item> \<open>Idempotency\<close> (\<open>common/idempotency\<close>): the Lua scripts of the store and the handler shape
    around them. Locale \<open>idem_contract\<close>: replay, exclusion and ownership, interpreted on the store.
  \<^item> \<open>Offering_DB\<close>, \<open>Offering_Guard\<close>, \<open>Offering_Machine\<close> (\<open>offerings/repositories\<close>, migrations
    032 to 040): the tables and every statement. Locales \<open>cas_latch\<close> and \<open>keyed_latch\<close> are the contract of
    the latches, interpreted on each; the step relations \<open>bids_step\<close> and \<open>offerings_step\<close> keep
    the CHECKs and indexes, and rows move along \<open>bid_moves\<close> and \<open>offering_moves\<close> only.
  \<^item> \<open>Offering_State\<close>, \<open>Offering_Plan\<close>, \<open>Offering_Plan_Props\<close>, \<open>Offering_Plan_Main\<close>
    (\<open>backoffice-offerings.service.ts\<close>, \<open>offerings/deploy\<close>): create, approve, list, the deploy worker
    and the sweeps. Quorum, attestation before the chain is called, the opening sweep.
  \<^item> \<open>Relayer\<close> (\<open>relayer/soroban-relayer.service.ts\<close>): submit of signed bids and cancels with
    their polls. Locale \<open>relay_submit\<close>: what an outcome says of the chain.
  \<^item> \<open>Bids\<close>, \<open>Bid_Jobs\<close>, \<open>Bids_Props\<close>, \<open>Bids_Main\<close> (\<open>offerings/bids\<close>): the public handlers and both
    workers. Locale \<open>relay_job\<close>: a retried job latches what happened on chain; the cap
    on the active book under every interleaving (\<open>book_step\<close>).
  \<^item> \<open>Escrow_Contract\<close>, \<open>Escrow_Contract_Props\<close>, \<open>Escrow_Contract_Main\<close>
    (\<open>tove-offering-escrow/src/contract.rs\<close>): every entry point; accounting and lifecycle over
    \<open>esc_step\<close>, exact payout of a settlement.
  \<^item> \<open>Escrow_Service\<close> (\<open>soroban-offering-escrow.service.ts\<close>), \<open>Account_Lock\<close>
    (\<open>redis-relayer-account-lock.ts\<close>): the legs of the adapter and the lock they run under.
  \<^item> \<open>Offering_Settle\<close>, \<open>Settle_Props\<close>, \<open>Settle_Chain\<close>, \<open>Settle_Run\<close>, \<open>Settle_Main\<close>
    (\<open>backoffice-offering-settle.service.ts\<close>, \<open>offerings/settle\<close>): trigger, preview, worker, sweep. The run
    relation \<open>settle_run\<close> interleaves attempts, late landings and foreign activity; the books
    refine the ledger.

  \<^bold>\<open>Secondary market\<close>
  \<^item> \<open>Market_DB\<close>, \<open>Market_Quotes\<close>, \<open>Market_Accept\<close>, \<open>Quote_Settle\<close> (\<open>modules/marketplace\<close>,
    migrations 041 to 045): tables, RFQs and quotes, the two signatures, the settlement worker.
  \<^item> \<open>Market_Machine\<close>, \<open>Market_Props\<close>: every transaction as a step of \<open>market_step\<close>; rows follow the guard
    triggers, one pending trade per RFQ, quotes never oversell.
  \<^item> \<open>Quote_Run\<close>, \<open>Market_Main\<close>: the worker against the contract (\<open>quote_step\<close>), and the two
    schedules on which the market goes wrong.

  \<^bold>\<open>Wallets\<close>
  \<^item> \<open>Wallets\<close>, \<open>Wallet_Machine\<close>, \<open>Wallet_Props\<close> (\<open>modules/wallets\<close>): login, bind, set primary, remove,
    registration, export latch. \<open>wallet_step serial\<close>: unique keys always, one primary wallet when
    transactions do not overlap, and the overlap that leaves none.
  \<^item> \<open>Rotation_DB\<close>, \<open>Rotation\<close>, \<open>Export\<close> (\<open>wallets/rotation\<close>, \<open>wallets/export\<close>, migrations 016, 018, 053 to
    055): the two drains of an embedded wallet and the custody registry; \<open>meanwhile\<close> arguments are
    what other requests do between two statements. \<open>Drain_Machine\<close> and \<open>Drain_Props\<close>: one statement is
    one \<open>drain_step\<close>, \<open>drains_ok\<close> what every interleaving keeps, \<open>drains_move\<close> what it never changes.
    \<open>Drain_Main\<close>: every handler is a run of the machine; what completes a drain, what a status read
    confirms. \<open>Drain_Witness\<close>: concrete runs, and two in which a guard fails.

  \<^bold>\<open>Fractionalization\<close>
  \<^item> \<open>Fraction_DB\<close>, \<open>Fraction\<close> (\<open>backoffice-artworks.service.ts\<close>, \<open>modules/fractionalization\<close>, migrations 027,
    028, 052): the tables, the admin request and reads, the factory adapter on the server's answers,
    the deploy worker and the reconcile sweep.
  \<^item> \<open>Fraction_Machine\<close>, \<open>Fraction_Props\<close>, \<open>Fraction_Main\<close>: every transaction as a \<open>fraction_step\<close>;
    \<open>fraction_ok\<close> is kept, rows move along \<open>tables_move\<close>, every handler is a run.
  \<^item> \<open>Fraction_Chain\<close>, \<open>Fraction_Witness\<close>: the tables with the factory's registry and the queue
    (\<open>fw_step\<close>): what a deployed row says of the chain, what a lost job does; concrete runs, those in
    which the worker fails a deploy that landed among them.
  \<^item> \<open>Worker_Pool\<close> (\<open>run-bounded.ts\<close>), \<open>Holdings\<close> (\<open>fractionalization/me\<close>, \<open>soroban-fraction-read.service.ts\<close>):
    the pool of workers under every schedule (\<open>pool_step\<close>), and the holdings of a collector, complete or absent.

  \<^bold>\<open>Signatures\<close>
  \<^item> \<open>Soroban\<close>: ScVals, invocation trees, authorization entries and parsed transactions.
  \<^item> \<open>Auth_Verify\<close>, \<open>Auth_Build\<close> (\<open>relayer/*-authorization.ts\<close>, \<open>soroban-relayer.service.ts\<close>): the
    verifiers the relayer runs before it pays for a transaction, and the builders of what is signed.
  \<^item> \<open>Auth_Props\<close>, \<open>Auth_Main\<close>, \<open>Auth_Witness\<close>: a verifier accepts exactly the pinned call; one
    assertion authorizes one action, or sha-256 collides; what the relayer builds its verifiers accept.

  \<^bold>\<open>Loops and bounds\<close>
  Every loop is structural recursion on the list it walks, except \<open>withLock\<close>'s spin and the polls of the
  relayer, the escrow adapter and the factory adapter. These are \<open>partial_function (option)\<close> with the code's
  deadline, so that not returning is \<open>None\<close>; lemmas (\<open>poll_from_ends\<close>, \<open>acquire_loop_stops\<close>,
  \<open>deploy_call_returns\<close> and the like) show that they return whenever the sleep between two rounds advances the clock.
  The sweep's chunked loop is a \<open>function\<close> with a measure; the worker pool is a step relation whose runs are bounded.

  \<^bold>\<open>Not modelled\<close>
  Log lines, response DTO field renaming, OpenAPI decorators and the
  class-validator pipes (except the rules handlers rely on); database and Redis outages other than
  those listed as arguments; the libraries (Stellar SDK, TypeORM, BullMQ, ioredis, noble curves). The
  manifest lists the remaining modules: authentication, KYC intake, RFQ notifications, catalogue CRUD, files, the
  two Next.js applications, and the contracts other than the escrow.
\<close>

end
